(* ===== verification/Prelude.thy ===== *)
theory Prelude
  imports Main "HOL-Library.Word" "HOL-Library.List_Lexorder" "HOL-Library.Char_ord"
    "HOL-Library.Product_Lexorder"
begin

text \<open>
  What every component shares: results that are an error or a value, the Go values the
  program computes with (instants, durations, bytes), and SQL tables as lists of rows with the
  three statements the stores use on them (insert appends, update rewrites the rows a
  condition selects and reports how many it wrote, select filters).

  Collections: \<open>res_simps\<close> computes with results, \<open>row_simps\<close> with tables.
\<close>

named_theorems res_simps "computing with results"
named_theorems row_simps "computing with tables"

section \<open>Results\<close>

type_synonym ('e, 'a) result = "'e + 'a"

text \<open>\<open>x, err := r; if err != nil { return err }\<close> followed by the rest.\<close>

definition bindE :: "('e, 'a) result \<Rightarrow> ('a \<Rightarrow> ('e, 'b) result) \<Rightarrow> ('e, 'b) result" where
  "bindE r f = (case r of Inl e \<Rightarrow> Inl e | Inr a \<Rightarrow> f a)"

definition mapErr :: "('e \<Rightarrow> 'f) \<Rightarrow> ('e, 'a) result \<Rightarrow> ('f, 'a) result" where
  "mapErr g r = (case r of Inl e \<Rightarrow> Inl (g e) | Inr a \<Rightarrow> Inr a)"

definition isOk :: "('e, 'a) result \<Rightarrow> bool" where
  "isOk r = (case r of Inl _ \<Rightarrow> False | Inr _ \<Rightarrow> True)"

lemma bindE_simps [simp, res_simps]:
  "bindE (Inl e) f = Inl e" "bindE (Inr a) f = f a"
  by (simp_all add: bindE_def)

lemma mapErr_simps [simp, res_simps]:
  "mapErr g (Inl e) = Inl (g e)" "mapErr g (Inr a) = Inr a"
  by (simp_all add: mapErr_def)

lemma isOk_simps [simp, res_simps]: "\<not> isOk (Inl e)" "isOk (Inr a)"
  by (simp_all add: isOk_def)

lemma bindE_Inr_iff [res_simps]:
  "bindE r f = Inr b \<longleftrightarrow> (\<exists>a. r = Inr a \<and> f a = Inr b)"
  by (cases r) auto

lemma bindE_Inl_iff [res_simps]:
  "bindE r f = Inl e \<longleftrightarrow> r = Inl e \<or> (\<exists>a. r = Inr a \<and> f a = Inl e)"
  by (cases r) auto

lemma mapErr_Inr_iff [simp, res_simps]: "mapErr g r = Inr a \<longleftrightarrow> r = Inr a"
  by (cases r) auto

lemma mapErr_Inl_iff [res_simps]: "mapErr g r = Inl e \<longleftrightarrow> (\<exists>e'. r = Inl e' \<and> e = g e')"
  by (cases r) auto

text \<open>The same for the \<open>case\<close> a definition writes out, and for a check that answers no error.\<close>

lemma case_sum_Inr_iff [res_simps]:
  "(case r of Inl e \<Rightarrow> Inl (g e) | Inr a \<Rightarrow> f a) = Inr b \<longleftrightarrow> (\<exists>a. r = Inr a \<and> f a = Inr b)"
  by (cases r) auto

lemma case_check_Inr_iff [res_simps]:
  "(case c of None \<Rightarrow> r | Some e \<Rightarrow> Inl (g e)) = Inr b \<longleftrightarrow> c = None \<and> r = Inr b"
  by (cases c) auto

lemma case_option_Inr_iff [res_simps]:
  "(case c of None \<Rightarrow> Inl e | Some a \<Rightarrow> f a) = Inr b \<longleftrightarrow> (\<exists>a. c = Some a \<and> f a = Inr b)"
  by (cases c) auto

lemma case_fallback_Inr_iff [res_simps]:
  "(case r of Inl e \<Rightarrow> Inr d | Inr a \<Rightarrow> f a) = Inr b \<longleftrightarrow>
     (\<exists>e. r = Inl e \<and> b = d) \<or> (\<exists>a. r = Inr a \<and> f a = Inr b)"
  by (cases r) auto

lemma if_Inl_Inr_iff [res_simps]: "(if c then Inl e else r) = Inr b \<longleftrightarrow> \<not> c \<and> r = Inr b"
  by auto

lemma isOk_iff: "isOk r \<longleftrightarrow> (\<exists>a. r = Inr a)"
  by (cases r) auto

section \<open>Go values\<close>

text \<open>
  An instant is the nanoseconds since the zero instant of Go's \<open>time.Time\<close> (the first of
  January of year 1, UTC), so that the zero value is \<open>0\<close> and \<open>UTC\<close> is the identity. A
  duration is a signed count of nanoseconds.
\<close>

type_synonym gotime = int
type_synonym duration = int
type_synonym byte = "8 word"
type_synonym uint64 = "64 word"

abbreviation Microsecond :: duration where "Microsecond \<equiv> 1000"
abbreviation Second :: duration where "Second \<equiv> 1000000000"
abbreviation Minute :: duration where "Minute \<equiv> 60 * Second"
abbreviation Hour :: duration where "Hour \<equiv> 60 * Minute"

definition isZeroTime :: "gotime \<Rightarrow> bool" where
  "isZeroTime t = (t = 0)"

text \<open>\<open>Time.Truncate\<close> rounds down to a multiple of the duration since the zero instant.\<close>

definition truncateTime :: "gotime \<Rightarrow> duration \<Rightarrow> gotime" where
  "truncateTime t d = t - t mod d"

text \<open>\<open>Time.Sub\<close> saturates at the ends of a 64-bit duration.\<close>

definition subTime :: "gotime \<Rightarrow> gotime \<Rightarrow> duration" where
  "subTime t u = max (- (2 ^ 63)) (min (2 ^ 63 - 1) (t - u))"

lemma truncateTime_le: "0 < d \<Longrightarrow> truncateTime t d \<le> t"
  by (simp add: truncateTime_def)

lemma truncateTime_gt: "0 < d \<Longrightarrow> t - d < truncateTime t d"
  by (simp add: truncateTime_def)

lemma truncateTime_dvd [simp]: "d dvd truncateTime t d"
  by (simp add: truncateTime_def dvd_minus_mod)

lemma truncateTime_idem [simp]: "truncateTime (truncateTime t d) d = truncateTime t d"
  using truncateTime_dvd [of d t] by (simp add: truncateTime_def [of "truncateTime t d"])

lemma truncateTime_mono: "0 < d \<Longrightarrow> t \<le> u \<Longrightarrow> truncateTime t d \<le> truncateTime u d"
  by (simp add: truncateTime_def minus_mod_eq_mult_div zdiv_mono1)

lemma truncateTime_strict:
  assumes "0 < d" "t + d \<le> u"
  shows "truncateTime t d < truncateTime u d"
  using truncateTime_le [OF assms(1), of t] truncateTime_gt [OF assms(1), of u] assms(2)
  by linarith

lemma subTime_less_iff: "- (2 ^ 63) < d \<Longrightarrow> d \<le> 2 ^ 63 - 1 \<Longrightarrow> subTime t u < d \<longleftrightarrow> t - u < d"
  by (auto simp: subTime_def)

section \<open>Tables\<close>

text \<open>
  \<open>update \<dots> set \<dots> where P\<close>: the rows \<open>P\<close> selects are rewritten in place, and the
  command tag is how many they were.
\<close>

definition updateWhere :: "('r \<Rightarrow> bool) \<Rightarrow> ('r \<Rightarrow> 'r) \<Rightarrow> 'r list \<Rightarrow> 'r list" where
  "updateWhere P f rows = map (\<lambda>r. if P r then f r else r) rows"

definition rowsAffected :: "('r \<Rightarrow> bool) \<Rightarrow> 'r list \<Rightarrow> nat" where
  "rowsAffected P rows = length (filter P rows)"

lemma updateWhere_simps [simp, row_simps]:
  "updateWhere P f [] = []"
  "updateWhere P f (r # rs) = (if P r then f r else r) # updateWhere P f rs"
  by (simp_all add: updateWhere_def)

lemma updateWhere_append [simp, row_simps]:
  "updateWhere P f (xs @ ys) = updateWhere P f xs @ updateWhere P f ys"
  by (simp add: updateWhere_def)

lemma length_updateWhere [simp, row_simps]: "length (updateWhere P f rows) = length rows"
  by (simp add: updateWhere_def)

lemma set_updateWhere:
  "set (updateWhere P f rows) = (\<lambda>r. if P r then f r else r) ` set rows"
  by (simp add: updateWhere_def)

lemma filter_updateWhere_out:
  "(\<And>r. P r \<Longrightarrow> \<not> Q r \<and> \<not> Q (f r)) \<Longrightarrow> filter Q (updateWhere P f rows) = filter Q rows"
  by (induction rows) auto

lemma in_updateWhere:
  "r \<in> set (updateWhere P f rows) \<longleftrightarrow>
     (\<exists>r0\<in>set rows. P r0 \<and> r = f r0) \<or> (r \<in> set rows \<and> \<not> P r)"
  by (auto simp: updateWhere_def image_iff)

lemma rowsAffected_0 [simp, row_simps]:
  "rowsAffected P rows = 0 \<longleftrightarrow> (\<forall>r\<in>set rows. \<not> P r)"
  by (auto simp: rowsAffected_def filter_empty_conv)

lemma updateWhere_none: "(\<forall>r\<in>set rows. \<not> P r) \<Longrightarrow> updateWhere P f rows = rows"
  by (induction rows) auto

text \<open>A column no statement writes keeps its list of values.\<close>

lemma map_updateWhere_frame:
  "(\<And>r. P r \<Longrightarrow> g (f r) = g r) \<Longrightarrow> map g (updateWhere P f rows) = map g rows"
  by (induction rows) auto

lemma find_updateWhere_frame:
  assumes "\<And>r. P r \<Longrightarrow> Q (f r) = Q r"
  shows "find Q (updateWhere P f rows) = map_option (\<lambda>r. if P r then f r else r) (find Q rows)"
  using assms by (induction rows) auto

lemma filter_updateWhere_frame:
  assumes "\<And>r. P r \<Longrightarrow> Q (f r) = Q r"
  shows "filter Q (updateWhere P f rows) = updateWhere P f (filter Q rows)"
  using assms by (induction rows) auto

text \<open>Under a primary key a condition on the key selects at most one row.\<close>

lemma distinct_key_unique:
  "distinct (map k rows) \<Longrightarrow> r \<in> set rows \<Longrightarrow> r' \<in> set rows \<Longrightarrow> k r = k r' \<Longrightarrow> r = r'"
  by (simp add: distinct_map inj_on_def)

lemma find_by_key:
  assumes "distinct (map k rows)" "r \<in> set rows"
  shows "find (\<lambda>x. k x = k r) rows = Some r"
  using assms by (induction rows) force+

lemma find_SomeD: "find P xs = Some x \<Longrightarrow> x \<in> set xs \<and> P x"
  by (auto simp: find_Some_iff)

lemma find_append:
  "find P (xs @ ys) = (case find P xs of None \<Rightarrow> find P ys | Some x \<Rightarrow> Some x)"
  by (induction xs) auto

section \<open>How a table grows\<close>

text \<open>
  From one state of a table to a later one: every row has its place still and has changed as \<open>R\<close>
  allows, and the rows behind them are new. Rows keep their key, so what holds of a table because of
  its keys is carried along.
\<close>

definition grown :: "('r \<Rightarrow> 'r \<Rightarrow> bool) \<Rightarrow> 'r list \<Rightarrow> 'r list \<Rightarrow> bool" where
  "grown R rows rows' = (\<exists>us vs. rows' = us @ vs \<and> list_all2 R rows us)"

lemma grown_refl: "(\<And>r. R r r) \<Longrightarrow> grown R rows rows"
  unfolding grown_def by (intro exI [of _ rows] exI [of _ "[]"]) (simp add: list.rel_refl)

lemma grown_append: "(\<And>r. R r r) \<Longrightarrow> grown R rows (rows @ new)"
  unfolding grown_def by (intro exI [of _ rows] exI [of _ new]) (simp add: list.rel_refl)

lemma grown_update:
  assumes "\<And>r. R r r" "\<And>r. r \<in> set rows \<Longrightarrow> P r \<Longrightarrow> R r (f r)"
  shows "grown R rows (updateWhere P f rows)"
proof -
  have "list_all2 R rows (updateWhere P f rows)"
    unfolding updateWhere_def list_all2_map2 using assms by (intro list_all2_same [THEN iffD2]) auto
  then show ?thesis unfolding grown_def by (metis append_Nil2)
qed

lemma grown_trans:
  assumes "\<And>x y z. R x y \<Longrightarrow> R y z \<Longrightarrow> R x z" "grown R xs ys" "grown R ys zs"
  shows "grown R xs zs"
proof -
  obtain us vs where u: "ys = us @ vs" "list_all2 R xs us" using assms(2) by (auto simp: grown_def)
  obtain us' vs' where v: "zs = us' @ vs'" "list_all2 R ys us'" using assms(3) by (auto simp: grown_def)
  from v(2) u(1) obtain as bs where "us' = as @ bs" "list_all2 R us as"
    by (auto simp: list_all2_append1)
  then have "zs = as @ (bs @ vs')" "list_all2 R xs as"
    using v(1) list_all2_trans [OF assms(1) u(2)] by auto
  then show ?thesis unfolding grown_def by blast
qed

lemma grown_row: "grown R rows rows' \<Longrightarrow> r \<in> set rows \<Longrightarrow> \<exists>r'\<in>set rows'. R r r'"
  by (fastforce simp: grown_def list_all2_conv_all_nth in_set_conv_nth nth_append)

text \<open>Under a key no write changes, what a row became is the row with its key.\<close>

lemma grown_keyed:
  assumes "grown R rows rows'" "\<And>x y. R x y \<Longrightarrow> k y = k x" "distinct (map k rows')"
    and "r \<in> set rows" "r' \<in> set rows'" "k r' = k r"
  shows "R r r'"
  using assms grown_row [OF assms(1,4)] by (metis distinct_key_unique)

end
