(* ===== verification/GoText.thy ===== *)
theory GoText
  imports Prelude
begin

text \<open>
  Text as the program handles it. A Go string is a sequence of bytes, which is what a HOL
  \<open>string\<close> is; ranging over one decodes UTF-8. This theory holds the decoding of the
  standard library (\<open>unicode/utf8\<close>), the digits of \<open>math/big\<close> and \<open>encoding/hex\<close>, and
  package \<open>invisible\<close> of the program, which names the characters a reader cannot see.
\<close>

section \<open>UTF-8, as unicode/utf8 decodes it\<close>

definition RuneError :: nat where "RuneError = 0xFFFD"

definition cont :: "nat \<Rightarrow> bool" where
  "cont b = (0x80 \<le> b \<and> b \<le> 0xBF)"

text \<open>
  \<open>DecodeRuneInString\<close>: the rune the bytes begin with and how many bytes it takes. Bytes
  that are not UTF-8 are the error rune, one byte at a time. The second byte has a range of its
  own after the lead bytes E0, ED, F0 and F4.
\<close>

fun decodeRune :: "nat list \<Rightarrow> nat \<times> nat" where
  "decodeRune [] = (RuneError, 0)"
| "decodeRune (b0 # bs) =
     (if b0 < 0x80 then (b0, 1)
      else if 0xC2 \<le> b0 \<and> b0 \<le> 0xDF then
        (case bs of
           b1 # _ \<Rightarrow> if cont b1 then ((b0 - 0xC0) * 64 + (b1 - 0x80), 2) else (RuneError, 1)
         | _ \<Rightarrow> (RuneError, 1))
      else if 0xE0 \<le> b0 \<and> b0 \<le> 0xEF then
        (case bs of
           b1 # b2 # _ \<Rightarrow>
             if (if b0 = 0xE0 then 0xA0 else 0x80) \<le> b1 \<and> b1 \<le> (if b0 = 0xED then 0x9F else 0xBF)
                \<and> cont b2
             then ((b0 - 0xE0) * 4096 + (b1 - 0x80) * 64 + (b2 - 0x80), 3) else (RuneError, 1)
         | _ \<Rightarrow> (RuneError, 1))
      else if 0xF0 \<le> b0 \<and> b0 \<le> 0xF4 then
        (case bs of
           b1 # b2 # b3 # _ \<Rightarrow>
             if (if b0 = 0xF0 then 0x90 else 0x80) \<le> b1 \<and> b1 \<le> (if b0 = 0xF4 then 0x8F else 0xBF)
                \<and> cont b2 \<and> cont b3
             then ((b0 - 0xF0) * 262144 + (b1 - 0x80) * 4096 + (b2 - 0x80) * 64 + (b3 - 0x80), 4)
             else (RuneError, 1)
         | _ \<Rightarrow> (RuneError, 1))
      else (RuneError, 1))"

definition bytesOf :: "string \<Rightarrow> nat list" where
  "bytesOf s = map of_char s"

text \<open>The runes of a string in order, as \<open>for range\<close> and \<open>strings.IndexFunc\<close> read them.\<close>

function runes :: "nat list \<Rightarrow> nat list" where
  "runes [] = []"
| "runes (b # bs) = (let (r, n) = decodeRune (b # bs) in r # runes (drop (n - 1) bs))"
  by pat_completeness auto
termination by (relation "measure length") auto

lemma runes_ascii_Cons [simp]: "b < 0x80 \<Longrightarrow> runes (b # bs) = b # runes bs"
  by simp

lemma runes_ascii: "\<forall>b\<in>set bs. b < 0x80 \<Longrightarrow> runes bs = bs"
  by (induction bs) (simp_all del: runes.simps(2))

declare runes.simps(2) [simp del]

section \<open>Package invisible\<close>

text \<open>\<open>is\<close>: the characters a reader cannot see, by code point.\<close>

definition is_invisible :: "nat \<Rightarrow> bool" where
  "is_invisible r =
     (r < 0x20 \<or> r = 0x7f
      \<or> 0x80 \<le> r \<and> r \<le> 0x9f
      \<or> r = 0xa0
      \<or> 0x200b \<le> r \<and> r \<le> 0x200f
      \<or> r = 0x2028 \<or> r = 0x2029
      \<or> 0x202a \<le> r \<and> r \<le> 0x202e
      \<or> r = 0x2060
      \<or> 0x2066 \<le> r \<and> r \<le> 0x2069
      \<or> r = 0xfeff)"

text \<open>\<open>Has\<close>: whether the string holds one of them.\<close>

definition invisible_Has :: "string \<Rightarrow> bool" where
  "invisible_Has s = list_ex is_invisible (runes (bytesOf s))"

text \<open>Printable ASCII passes, whatever it says.\<close>

definition printable :: "char \<Rightarrow> bool" where
  "printable c = (0x20 \<le> (of_char c :: nat) \<and> (of_char c :: nat) < 0x7f)"

lemma invisible_Has_printable:
  assumes "\<forall>c\<in>set s. printable c"
  shows "\<not> invisible_Has s"
proof -
  have "runes (bytesOf s) = bytesOf s"
    using assms by (intro runes_ascii) (auto simp: bytesOf_def printable_def)
  moreover have "\<forall>b\<in>set (bytesOf s). \<not> is_invisible b"
    using assms by (auto simp: bytesOf_def printable_def is_invisible_def)
  ultimately show ?thesis by (auto simp: invisible_Has_def list_ex_iff)
qed

text \<open>
  \<open>Quote\<close> and \<open>Shown\<close>. What \<open>strconv.Quote\<close> writes depends on the
  Unicode tables of the standard library, so it is the argument \<open>quote\<close>. \<open>cutBack\<close> is the
  loop that steps back to the start of a rune.
\<close>

definition runeStart :: "char \<Rightarrow> bool" where
  "runeStart c = (\<not> (0x80 \<le> (of_char c :: nat) \<and> (of_char c :: nat) < 0xC0))"

primrec cutBack :: "string \<Rightarrow> nat \<Rightarrow> nat" where
  "cutBack s 0 = 0"
| "cutBack s (Suc n) = (if runeStart (s ! Suc n) then Suc n else cutBack s n)"

definition Quote :: "(string \<Rightarrow> string) \<Rightarrow> string \<Rightarrow> string" where
  "Quote quote s = (if \<not> invisible_Has s then s else quote s)"

definition Shown :: "(string \<Rightarrow> string) \<Rightarrow> string \<Rightarrow> int \<Rightarrow> string" where
  "Shown quote s bound =
     (let m = nat bound in
      Quote quote (if length s > m then take (cutBack s m) s @ ''...'' else s))"

lemma cutBack_le: "cutBack s n \<le> n"
  by (induction n) auto

lemma cutBack_start: "0 < cutBack s n \<Longrightarrow> runeStart (s ! cutBack s n)"
  by (induction n) auto

lemma cutBack_greatest: "cutBack s n < k \<Longrightarrow> k \<le> n \<Longrightarrow> \<not> runeStart (s ! k)"
proof (induction n)
  case (Suc n)
  then show ?case by (cases "k = Suc n") (auto split: if_splits)
qed simp

section \<open>Decimal digits, as math/big reads and writes them\<close>

definition isDigit :: "char \<Rightarrow> bool" where
  "isDigit c = (CHR ''0'' \<le> c \<and> c \<le> CHR ''9'')"

definition digitVal :: "char \<Rightarrow> nat" where
  "digitVal c = of_char c - 48"

definition digitChar :: "nat \<Rightarrow> char" where
  "digitChar d = char_of (48 + d)"

fun dec :: "nat \<Rightarrow> string" where
  "dec n = (if n < 10 then [digitChar n] else dec (n div 10) @ [digitChar (n mod 10)])"

declare dec.simps [simp del]

definition undec :: "string \<Rightarrow> nat" where
  "undec s = foldl (\<lambda>a c. 10 * a + digitVal c) 0 s"

text \<open>\<open>Int.String\<close>, and \<open>Int.SetString\<close> in base ten: a sign or none, and digits.\<close>

definition bigString :: "int \<Rightarrow> string" where
  "bigString n = (if n < 0 then CHR ''-'' # dec (nat (- n)) else dec (nat n))"

definition setString :: "string \<Rightarrow> int option" where
  "setString s =
     (let digits = (case s of c # cs \<Rightarrow> if c = CHR ''+'' \<or> c = CHR ''-'' then cs else s | [] \<Rightarrow> s)
      in if digits = [] \<or> \<not> list_all isDigit digits then None
         else Some (if take 1 s = ''-'' then - int (undec digits) else int (undec digits)))"

lemma isDigit_iff: "isDigit c \<longleftrightarrow> 48 \<le> (of_char c :: nat) \<and> (of_char c :: nat) \<le> 57"
  by (simp add: isDigit_def less_eq_char_def)

lemma isDigit_digitChar [simp]: "d < 10 \<Longrightarrow> isDigit (digitChar d)"
  by (simp add: isDigit_iff digitChar_def)

lemma digitVal_digitChar [simp]: "d < 10 \<Longrightarrow> digitVal (digitChar d) = d"
  by (simp add: digitVal_def digitChar_def)

text \<open>The digits as literals, so that closed texts compute.\<close>

lemma digitChar_lits [simp]:
  "digitChar 0 = CHR ''0''" "digitChar 1 = CHR ''1''" "digitChar (Suc 0) = CHR ''1''"
  "digitChar 2 = CHR ''2''" "digitChar 3 = CHR ''3''" "digitChar 4 = CHR ''4''"
  "digitChar 5 = CHR ''5''" "digitChar 6 = CHR ''6''" "digitChar 7 = CHR ''7''"
  "digitChar 8 = CHR ''8''" "digitChar 9 = CHR ''9''"
  by (simp_all add: digitChar_def char_of_def bit_Suc_0_iff)

lemma isDigit_printable: "isDigit c \<Longrightarrow> printable c"
  by (simp add: isDigit_iff printable_def)

lemma undec_snoc [simp]: "undec (s @ [c]) = 10 * undec s + digitVal c"
  by (simp add: undec_def)

lemma undec_Nil [simp]: "undec [] = 0"
  by (simp add: undec_def)

lemma undec_append: "undec (s @ t) = undec s * 10 ^ length t + undec t"
proof (induction t rule: rev_induct)
  case (snoc c t)
  then show ?case
    by (simp add: append_assoc [symmetric] algebra_simps del: append_assoc)
qed simp

lemma undec_zeros [simp]: "undec (replicate k CHR ''0'') = 0"
proof (induction k)
  case (Suc k)
  have "undec (replicate (Suc k) CHR ''0'') = undec (replicate k CHR ''0'' @ [CHR ''0''])"
    by (simp add: replicate_append_same)
  then show ?case using Suc by (simp add: digitVal_def del: replicate.simps)
qed simp

lemma undec_leading_zeros [simp]: "undec (replicate k CHR ''0'' @ s) = undec s"
  by (simp add: undec_append)

lemma undec_dec [simp]: "undec (dec n) = n"
proof (induction n rule: dec.induct)
  case (1 n)
  show ?case
  proof (cases "n < 10")
    case True
    then show ?thesis
      using undec_snoc [of "[]" "digitChar n"] by (simp add: dec.simps [of n])
  next
    case False
    with 1 show ?thesis by (simp add: dec.simps [of n])
  qed
qed

lemma dec_nonempty [simp]: "dec n \<noteq> []"
  by (simp add: dec.simps [of n])

lemma dec_digits: "list_all isDigit (dec n)"
proof (induction n rule: dec.induct)
  case (1 n)
  then show ?case by (cases "n < 10") (simp_all add: dec.simps [of n])
qed

lemma dec_length_le: "n < 10 ^ k \<Longrightarrow> 0 < k \<Longrightarrow> length (dec n) \<le> k"
proof (induction n arbitrary: k rule: dec.induct)
  case (1 n)
  show ?case
  proof (cases "n < 10")
    case True
    with 1 show ?thesis by (simp add: dec.simps [of n])
  next
    case False
    with "1.prems" obtain j where k: "k = Suc j" "0 < j"
      by (cases k) (auto intro: Suc_lessI split: if_splits, metis gr0I power_0 mult.right_neutral)
    with "1.prems" have "n div 10 < 10 ^ j" by (simp add: less_mult_imp_div_less mult.commute)
    with "1.IH" False k have "length (dec (n div 10)) \<le> j" by blast
    with False k show ?thesis by (simp add: dec.simps [of n])
  qed
qed

lemma undec_less: "list_all isDigit s \<Longrightarrow> undec s < 10 ^ length s"
proof (induction s rule: rev_induct)
  case (snoc c s)
  then have "undec s < 10 ^ length s" "digitVal c < 10"
    by (auto simp: isDigit_iff digitVal_def)
  then show ?case by simp
qed simp

lemma dec_head_digit: "dec n = c # cs \<Longrightarrow> c \<noteq> CHR ''+'' \<and> c \<noteq> CHR ''-''"
  using dec_digits [of n] by (auto simp: isDigit_iff)

lemma setString_digits:
  assumes "s \<noteq> []" "list_all isDigit s"
  shows "setString s = Some (int (undec s))"
proof -
  obtain c cs where s: "s = c # cs" using assms(1) by (cases s) auto
  with assms(2) have "c \<noteq> CHR ''+''" "c \<noteq> CHR ''-''" by (auto simp: isDigit_iff)
  with s assms show ?thesis by (simp add: setString_def)
qed

lemma setString_bigString: "setString (bigString n) = Some n"
proof (cases "n < 0")
  case True
  then show ?thesis using dec_digits [of "nat (- n)"] by (simp add: setString_def bigString_def)
next
  case False
  then show ?thesis by (simp add: bigString_def setString_digits dec_digits)
qed

section \<open>Hexadecimal, as encoding/hex reads and writes it\<close>

definition isHexDigit :: "char \<Rightarrow> bool" where
  "isHexDigit c = (isDigit c \<or> CHR ''a'' \<le> c \<and> c \<le> CHR ''f'' \<or> CHR ''A'' \<le> c \<and> c \<le> CHR ''F'')"

definition hexDigit :: "nat \<Rightarrow> char" where
  "hexDigit d = (if d < 10 then char_of (48 + d) else char_of (87 + d))"

definition hexEncode :: "byte list \<Rightarrow> string" where
  "hexEncode bs = concat (map (\<lambda>b. [hexDigit (unat b div 16), hexDigit (unat b mod 16)]) bs)"

text \<open>Whether \<open>hex.DecodeString\<close> reads the string at all.\<close>

definition hexDecodes :: "string \<Rightarrow> bool" where
  "hexDecodes s = (even (length s) \<and> list_all isHexDigit s)"

text \<open>\<open>strings.ToLower\<close> on ASCII.\<close>

definition lowerChar :: "char \<Rightarrow> char" where
  "lowerChar c = (if CHR ''A'' \<le> c \<and> c \<le> CHR ''Z'' then char_of (of_char c + 32 :: nat) else c)"

lemma hexDigit_lower: "d < 16 \<Longrightarrow> isHexDigit (hexDigit d) \<and> lowerChar (hexDigit d) = hexDigit d"
  by (auto simp: isHexDigit_def isDigit_iff hexDigit_def lowerChar_def less_eq_char_def)

lemma length_hexEncode [simp]: "length (hexEncode bs) = 2 * length bs"
  by (induction bs) (simp_all add: hexEncode_def)

lemma byte_div_16: "unat (b :: byte) div 16 < 16"
proof -
  have "unat b < 2 ^ LENGTH(8)" by (rule unsigned_less)
  then show ?thesis by (simp add: less_mult_imp_div_less)
qed

lemma hexEncode_chars:
  "c \<in> set (hexEncode bs) \<Longrightarrow> isHexDigit c \<and> lowerChar c = c"
  by (auto simp: hexEncode_def byte_div_16 hexDigit_lower)

end
