(* ===== verification/Money.thy ===== *)
theory Money
  imports GoText
begin

text \<open>
  Package payment, asset.go and money.go: tokens, and amounts of one token held in its smallest
  unit. The zero values of the Go types are values here too (\<open>noAsset\<close>, \<open>noMoney\<close>), because
  the program tells them apart with \<open>IsSet\<close>.
\<close>

section \<open>Assets (asset.go)\<close>

definition MaxAssetDecimals :: byte where "MaxAssetDecimals = 36"

record asset =
  as_network :: string
  as_reference :: string
  as_symbol :: string
  as_decimals :: byte

text \<open>Why a token or an amount of one was refused.\<close>

datatype money_error =
    ErrNoNetwork
  | ErrNoReference
  | ErrTooManyDecimals byte
  | ErrAssetInvisible string
  | ErrNoAsset
  | ErrNoAmount asset
  | ErrNegativeAmount asset
  | ErrDifferentAssets asset asset
  | ErrDecimalsDisagree asset byte byte
  | ErrAmountTooLong asset nat
  | ErrNotWhole asset string
  | ErrTooManyPlaces string nat
  | ErrTooManyDigits string nat
  | ErrUnitsTooLong nat
  | ErrNotUnits string

definition noAsset :: asset where
  "noAsset = \<lparr>as_network = [], as_reference = [], as_symbol = [], as_decimals = 0\<rparr>"

definition NewAsset :: "string \<Rightarrow> string \<Rightarrow> string \<Rightarrow> byte \<Rightarrow> (money_error, asset) result" where
  "NewAsset network reference symbol decimals =
     (if network = [] then Inl ErrNoNetwork
      else if reference = [] then Inl ErrNoReference
      else if decimals > MaxAssetDecimals then Inl (ErrTooManyDecimals decimals)
      else case find (\<lambda>(name, value). invisible_Has value)
                  [(''network'', network), (''reference'', reference), (''symbol'', symbol)] of
             Some (name, _) \<Rightarrow> Inl (ErrAssetInvisible name)
           | None \<Rightarrow> Inr \<lparr>as_network = network, as_reference = reference, as_symbol = symbol,
                          as_decimals = decimals\<rparr>)"

definition asset_IsSet :: "asset \<Rightarrow> bool" where
  "asset_IsSet a = (as_network a \<noteq> [] \<and> as_reference a \<noteq> [])"

definition Same :: "asset \<Rightarrow> asset \<Rightarrow> bool" where
  "Same a other =
     (asset_IsSet a \<and> asset_IsSet other
      \<and> as_network a = as_network other \<and> as_reference a = as_reference other)"

definition asset_String :: "asset \<Rightarrow> string" where
  "asset_String a =
     (if \<not> asset_IsSet a then ''no asset''
      else (if as_symbol a = [] then as_reference a else as_symbol a) @ '' on '' @ as_network a)"

text \<open>What \<open>NewAsset\<close> promises of the tokens it makes.\<close>

definition asset_ok :: "asset \<Rightarrow> bool" where
  "asset_ok a = (asset_IsSet a \<and> as_decimals a \<le> MaxAssetDecimals
     \<and> \<not> invisible_Has (as_network a) \<and> \<not> invisible_Has (as_reference a) \<and> \<not> invisible_Has (as_symbol a))"

lemma NewAsset_Inr_iff:
  "NewAsset n r s d = Inr a \<longleftrightarrow>
     a = \<lparr>as_network = n, as_reference = r, as_symbol = s, as_decimals = d\<rparr> \<and> asset_ok a"
  by (auto simp: NewAsset_def asset_ok_def asset_IsSet_def)

lemma NewAsset_self:
  "asset_ok a \<Longrightarrow> NewAsset (as_network a) (as_reference a) (as_symbol a) (as_decimals a) = Inr a"
  by (simp add: NewAsset_Inr_iff)

lemma Same_sym: "Same a b \<longleftrightarrow> Same b a"
  by (auto simp: Same_def)

lemma Same_trans: "Same a b \<Longrightarrow> Same b c \<Longrightarrow> Same a c"
  by (auto simp: Same_def)

lemma Same_refl_iff: "Same a a \<longleftrightarrow> asset_IsSet a"
  by (auto simp: Same_def)

lemma noAsset_unset [simp]: "\<not> asset_IsSet noAsset"
  by (simp add: asset_IsSet_def noAsset_def)

lemma asset_ok_set: "asset_ok a \<Longrightarrow> asset_IsSet a"
  by (simp add: asset_ok_def)

lemma asset_ok_decimals: "asset_ok a \<Longrightarrow> unat (as_decimals a) \<le> 36"
  by (simp add: asset_ok_def MaxAssetDecimals_def word_le_nat_alt)

section \<open>Amounts (money.go)\<close>

definition MaxAmountDigits :: nat where "MaxAmountDigits = 78"

text \<open>The amount is a pointer in the code: \<open>None\<close> is the nil of a zero value.\<close>

record money =
  mo_amount :: "int option"
  mo_asset :: asset

definition noMoney :: money where
  "noMoney = \<lparr>mo_amount = None, mo_asset = noAsset\<rparr>"

definition NewMoney :: "asset \<Rightarrow> int option \<Rightarrow> (money_error, money) result" where
  "NewMoney a amount =
     (if \<not> asset_IsSet a then Inl ErrNoAsset
      else case amount of
             None \<Rightarrow> Inl (ErrNoAmount a)
           | Some n \<Rightarrow> if n < 0 then Inl (ErrNegativeAmount a)
                       else Inr \<lparr>mo_amount = Some n, mo_asset = a\<rparr>)"

definition ParseMoney :: "asset \<Rightarrow> string \<Rightarrow> (money_error, money) result" where
  "ParseMoney a amount =
     (if length amount > MaxAmountDigits then Inl (ErrAmountTooLong a (length amount))
      else case setString amount of
             None \<Rightarrow> Inl (ErrNotWhole a amount)
           | Some n \<Rightarrow> NewMoney a (Some n))"

text \<open>\<open>isDigits\<close>: one or more ASCII digits.\<close>

definition isDigits :: "string \<Rightarrow> bool" where
  "isDigits s = (s \<noteq> [] \<and> list_all isDigit s)"

text \<open>\<open>strings.Cut\<close> at the first occurrence of one byte: before, after, and whether it is there.\<close>

definition cutAt :: "char \<Rightarrow> string \<Rightarrow> string \<times> string \<times> bool" where
  "cutAt sep s = (takeWhile (\<lambda>c. c \<noteq> sep) s, drop 1 (dropWhile (\<lambda>c. c \<noteq> sep) s), sep \<in> set s)"

definition splitUnits :: "string \<Rightarrow> (money_error, string \<times> string) result" where
  "splitUnits amount =
     (if length amount > MaxAmountDigits + 1 then Inl (ErrUnitsTooLong (length amount))
      else let (whole, fraction, hasPoint) = cutAt (CHR ''.'') amount in
           if \<not> isDigits whole \<or> hasPoint \<and> \<not> isDigits fraction then Inl (ErrNotUnits amount)
           else Inr (whole, fraction))"

definition parseUnits :: "string \<Rightarrow> byte \<Rightarrow> (money_error, int option) result" where
  "parseUnits amount decimals =
     (case splitUnits amount of
        Inl e \<Rightarrow> Inl e
      | Inr (whole, fraction) \<Rightarrow>
          let places = unat decimals in
          if length fraction > places then Inl (ErrTooManyPlaces amount places)
          else let digits = whole @ fraction @ replicate (places - length fraction) CHR ''0'' in
               if length digits > MaxAmountDigits then Inl (ErrTooManyDigits amount (length digits))
               else Inr (setString digits))"

definition ParseUnits :: "asset \<Rightarrow> string \<Rightarrow> (money_error, money) result" where
  "ParseUnits a amount =
     (case parseUnits amount (as_decimals a) of
        Inl e \<Rightarrow> Inl e
      | Inr n \<Rightarrow> NewMoney a n)"

definition Amount :: "money \<Rightarrow> int" where
  "Amount m = (case mo_amount m of None \<Rightarrow> 0 | Some n \<Rightarrow> n)"

definition money_IsSet :: "money \<Rightarrow> bool" where
  "money_IsSet m = (asset_IsSet (mo_asset m) \<and> mo_amount m \<noteq> None)"

text \<open>\<open>strings.TrimRight(s, "0")\<close>.\<close>

definition trimZeros :: "string \<Rightarrow> string" where
  "trimZeros s = rev (dropWhile (\<lambda>c. c = CHR ''0'') (rev s))"

definition Units :: "money \<Rightarrow> string" where
  "Units m =
     (if \<not> money_IsSet m then ''no amount''
      else let digits = bigString (Amount m); places = unat (as_decimals (mo_asset m)) in
           if places = 0 then digits
           else let digits = (if length digits \<le> places
                              then replicate (places - length digits + 1) CHR ''0'' @ digits else digits);
                    whole = take (length digits - places) digits;
                    fraction = trimZeros (drop (length digits - places) digits)
                in if fraction = [] then whole else whole @ ''.'' @ fraction)"

definition money_String :: "money \<Rightarrow> string" where
  "money_String m =
     (if \<not> money_IsSet m then ''no amount'' else Units m @ '' '' @ asset_String (mo_asset m))"

definition comparable :: "money \<Rightarrow> money \<Rightarrow> money_error option" where
  "comparable m other =
     (if \<not> money_IsSet m \<or> \<not> money_IsSet other then Some ErrNoAsset
      else if \<not> Same (mo_asset m) (mo_asset other)
        then Some (ErrDifferentAssets (mo_asset m) (mo_asset other))
      else if as_decimals (mo_asset m) \<noteq> as_decimals (mo_asset other)
        then Some (ErrDecimalsDisagree (mo_asset m) (as_decimals (mo_asset m))
                     (as_decimals (mo_asset other)))
      else None)"

definition Add :: "money \<Rightarrow> money \<Rightarrow> (money_error, money) result" where
  "Add m other =
     (case comparable m other of
        Some e \<Rightarrow> Inl e
      | None \<Rightarrow> Inr \<lparr>mo_amount = Some (Amount m + Amount other), mo_asset = mo_asset m\<rparr>)"

definition Cmp :: "money \<Rightarrow> money \<Rightarrow> (money_error, int) result" where
  "Cmp m other =
     (case comparable m other of
        Some e \<Rightarrow> Inl e
      | None \<Rightarrow> Inr (sgn (Amount m - Amount other)))"

text \<open>What \<open>NewMoney\<close> promises of the amounts it makes.\<close>

definition money_ok :: "money \<Rightarrow> bool" where
  "money_ok m = (money_IsSet m \<and> 0 \<le> Amount m)"

lemma noMoney_unset [simp]: "\<not> money_IsSet noMoney" "mo_amount noMoney = None" "mo_asset noMoney = noAsset"
  by (simp_all add: money_IsSet_def noMoney_def)

lemma NewMoney_Inr_iff:
  "NewMoney a n = Inr m \<longleftrightarrow>
     asset_IsSet a \<and> (\<exists>k\<ge>0. n = Some k \<and> m = \<lparr>mo_amount = Some k, mo_asset = a\<rparr>)"
  by (auto simp: NewMoney_def split: option.splits)

lemma NewMoney_ok: "NewMoney a n = Inr m \<Longrightarrow> money_ok m \<and> mo_asset m = a \<and> mo_amount m = n"
  by (auto simp: NewMoney_Inr_iff money_ok_def money_IsSet_def Amount_def)

lemma ParseMoney_Inr_iff:
  "ParseMoney a s = Inr m \<longleftrightarrow>
     length s \<le> MaxAmountDigits \<and> asset_IsSet a
     \<and> (\<exists>k\<ge>0. setString s = Some k \<and> m = \<lparr>mo_amount = Some k, mo_asset = a\<rparr>)"
  by (auto simp: ParseMoney_def NewMoney_Inr_iff split: option.splits)

lemma ParseMoney_ok: "ParseMoney a s = Inr m \<Longrightarrow> money_ok m \<and> mo_asset m = a"
  by (auto simp: ParseMoney_Inr_iff money_ok_def money_IsSet_def Amount_def)

lemma ParseUnits_ok: "ParseUnits a s = Inr m \<Longrightarrow> money_ok m \<and> mo_asset m = a"
  by (auto simp: ParseUnits_def split: sum.splits dest: NewMoney_ok)

lemma comparable_None_iff:
  "comparable m n = None \<longleftrightarrow> money_IsSet m \<and> money_IsSet n \<and> Same (mo_asset m) (mo_asset n)
     \<and> as_decimals (mo_asset m) = as_decimals (mo_asset n)"
  by (auto simp: comparable_def)

lemma Cmp_Inr_iff: "Cmp m n = Inr c \<longleftrightarrow> comparable m n = None \<and> c = sgn (Amount m - Amount n)"
  by (auto simp: Cmp_def split: option.splits)

lemma Cmp_same_asset:
  "money_IsSet m \<Longrightarrow> money_IsSet n \<Longrightarrow> mo_asset m = mo_asset n \<Longrightarrow> Cmp m n = Inr (sgn (Amount m - Amount n))"
  by (simp add: Cmp_Inr_iff comparable_None_iff Same_refl_iff money_IsSet_def)

lemma Add_Inr_iff:
  "Add m n = Inr s \<longleftrightarrow> comparable m n = None
     \<and> s = \<lparr>mo_amount = Some (Amount m + Amount n), mo_asset = mo_asset m\<rparr>"
  by (auto simp: Add_def split: option.splits)

text \<open>A row's amount is read back by \<open>ParseMoney\<close> from the digits \<open>bigString\<close> wrote.\<close>

lemma ParseMoney_bigString:
  assumes "money_ok m" "Amount m < 10 ^ MaxAmountDigits"
  shows "ParseMoney (mo_asset m) (bigString (Amount m)) = Inr m"
proof -
  obtain k where k: "mo_amount m = Some k" "0 \<le> k" "asset_IsSet (mo_asset m)"
    using assms(1) by (auto simp: money_ok_def money_IsSet_def Amount_def)
  have "nat k < 10 ^ MaxAmountDigits"
    using assms(2) k by (simp add: Amount_def nat_less_iff)
  then have "length (bigString k) \<le> MaxAmountDigits"
    using k dec_length_le [of "nat k" MaxAmountDigits] by (simp add: bigString_def MaxAmountDigits_def)
  then show ?thesis
    using k setString_bigString [of k] by (simp add: ParseMoney_Inr_iff Amount_def)
qed

section \<open>Writing an amount in units, and reading it back\<close>

lemma takeWhile_no_point: "list_all isDigit s \<Longrightarrow> takeWhile (\<lambda>c. c \<noteq> CHR ''.'') (s @ t) = s @ takeWhile (\<lambda>c. c \<noteq> CHR ''.'') t"
  by (induction s) (auto simp: isDigit_iff)

lemma dropWhile_no_point: "list_all isDigit s \<Longrightarrow> dropWhile (\<lambda>c. c \<noteq> CHR ''.'') (s @ t) = dropWhile (\<lambda>c. c \<noteq> CHR ''.'') t"
  by (induction s) (auto simp: isDigit_iff)

lemma digits_no_point: "list_all isDigit s \<Longrightarrow> CHR ''.'' \<notin> set s"
  by (auto simp: list_all_iff isDigit_iff)

lemma cutAt_point:
  assumes "list_all isDigit w"
  shows "cutAt CHR ''.'' (w @ ''.'' @ f) = (w, f, True)" "cutAt CHR ''.'' w = (w, [], False)"
  using assms takeWhile_no_point [OF assms, of "''.'' @ f"] dropWhile_no_point [OF assms, of "''.'' @ f"]
    takeWhile_no_point [OF assms, of "[]"] dropWhile_no_point [OF assms, of "[]"] digits_no_point [OF assms]
  by (simp_all add: cutAt_def del: dropWhile_eq_Nil_conv)

lemma trimZeros_snoc_zero: "trimZeros (s @ [CHR ''0'']) = trimZeros s"
  by (simp add: trimZeros_def)

lemma length_trimZeros: "length (trimZeros s) \<le> length s"
  using length_dropWhile_le [of "\<lambda>c. c = CHR ''0''" "rev s"] by (simp add: trimZeros_def)

lemma trimZeros_pad: "trimZeros s @ replicate (length s - length (trimZeros s)) CHR ''0'' = s"
proof (induction s rule: rev_induct)
  case (snoc c s)
  show ?case
  proof (cases "c = CHR ''0''")
    case True
    have "trimZeros s @ replicate (Suc (length s - length (trimZeros s))) CHR ''0''
        = (trimZeros s @ replicate (length s - length (trimZeros s)) CHR ''0'') @ [CHR ''0'']"
      by (simp add: replicate_append_same)
    also have "\<dots> = s @ [CHR ''0'']" by (simp only: snoc)
    finally show ?thesis
      using True length_trimZeros [of s] by (simp add: trimZeros_snoc_zero Suc_diff_le)
  qed (simp add: trimZeros_def)
qed (simp add: trimZeros_def)

lemma trimZeros_digits: "list_all isDigit s \<Longrightarrow> list_all isDigit (trimZeros s)"
  by (auto simp: trimZeros_def list_all_iff dest: set_dropWhileD)

text \<open>\<open>parseUnits\<close> reads digits with the point put back, whatever zeros were left off.\<close>

lemma parseUnits_written:
  assumes d: "list_all isDigit d" "length d \<le> MaxAmountDigits" "unat p < length d"
    and w: "w = take (length d - unat p) d" and f: "f = trimZeros (drop (length d - unat p) d)"
  shows "parseUnits (if f = [] then w else w @ ''.'' @ f) p = Inr (Some (int (undec d)))"
proof -
  have wd: "list_all isDigit w" "w \<noteq> []" "length w = length d - unat p"
    using d by (auto simp: w list_all_iff dest: in_set_takeD)
  have "list_all isDigit (drop (length d - unat p) d)"
    using d by (auto simp: list_all_iff dest: in_set_dropD)
  then have fd: "list_all isDigit f" "length f \<le> unat p"
    using trimZeros_digits length_trimZeros [of "drop (length d - unat p) d"] d by (auto simp: f)
  have split: "splitUnits (if f = [] then w else w @ ''.'' @ f) = Inr (w, f)"
    using wd fd d cutAt_point(1) [OF wd(1), of f] cutAt_point(2) [OF wd(1)] by (auto simp: splitUnits_def isDigits_def)
  have "f @ replicate (unat p - length f) CHR ''0'' = drop (length d - unat p) d"
    using trimZeros_pad [of "drop (length d - unat p) d"] d by (simp add: f)
  then have "w @ f @ replicate (unat p - length f) CHR ''0'' = d" by (simp add: w)
  moreover have "d \<noteq> []" using d by auto
  ultimately show ?thesis
    using split fd d by (simp add: parseUnits_def setString_digits)
qed

lemma Units_digits:
  assumes "money_ok m" "Amount m < 10 ^ MaxAmountDigits" "asset_ok (mo_asset m)"
  shows "\<exists>d w f. list_all isDigit d \<and> length d \<le> MaxAmountDigits
      \<and> unat (as_decimals (mo_asset m)) < length d \<and> int (undec d) = Amount m
      \<and> w = take (length d - unat (as_decimals (mo_asset m))) d
      \<and> f = trimZeros (drop (length d - unat (as_decimals (mo_asset m))) d)
      \<and> Units m = (if f = [] then w else w @ ''.'' @ f)"
proof -
  define p where "p = unat (as_decimals (mo_asset m))"
  define s where "s = dec (nat (Amount m))"
  define d where "d = (if length s \<le> p then replicate (p - length s + 1) CHR ''0'' @ s else s)"
  have m: "money_IsSet m" "0 \<le> Amount m" using assms(1) by (auto simp: money_ok_def)
  have p: "p \<le> 36" using asset_ok_decimals [OF assms(3)] by (simp add: p_def)
  have "nat (Amount m) < 10 ^ MaxAmountDigits" using assms(2) m by (simp add: nat_less_iff)
  then have s: "length s \<le> MaxAmountDigits" "list_all isDigit s" "s \<noteq> []" "undec s = nat (Amount m)"
    using dec_length_le [of "nat (Amount m)" MaxAmountDigits] dec_digits
    by (auto simp: s_def MaxAmountDigits_def)
  have d: "list_all isDigit d" "length d \<le> MaxAmountDigits" "p < length d" "int (undec d) = Amount m"
    using s p m by (auto simp: d_def list_all_iff isDigit_iff MaxAmountDigits_def undec_append
        split: if_splits simp del: replicate_Suc)
  let ?f = "trimZeros (drop (length d - p) d)"
  have "Units m = (if ?f = [] then take (length d - p) d else take (length d - p) d @ ''.'' @ ?f)"
  proof (cases "p = 0")
    case True
    then have "d = s" using s by (auto simp: d_def)
    with True show ?thesis
      using m by (simp add: Units_def bigString_def Let_def p_def [symmetric] s_def [symmetric] trimZeros_def)
  next
    case False
    have "bigString (Amount m) = s" using m by (simp add: bigString_def s_def)
    with False m show ?thesis
      unfolding Units_def Let_def p_def [symmetric] d_def by simp
  qed
  with d show ?thesis unfolding p_def [symmetric] by blast
qed

text \<open>C4: An amount the instance shows is read back as that amount: for every amount of a token that
  \<open>NewAsset\<close> accepts, of at most 78 digits, \<open>ParseUnits\<close> undoes \<open>Units\<close> exactly.\<close>

theorem units_roundtrip:
  assumes "money_ok m" "asset_ok (mo_asset m)" "Amount m < 10 ^ MaxAmountDigits"
  shows "ParseUnits (mo_asset m) (Units m) = Inr m"
proof -
  obtain d w f where d: "list_all isDigit d" "length d \<le> MaxAmountDigits"
      "unat (as_decimals (mo_asset m)) < length d" "int (undec d) = Amount m"
      "w = take (length d - unat (as_decimals (mo_asset m))) d"
      "f = trimZeros (drop (length d - unat (as_decimals (mo_asset m))) d)"
      "Units m = (if f = [] then w else w @ ''.'' @ f)"
    using Units_digits [OF assms(1,3,2)] by blast
  then have "parseUnits (Units m) (as_decimals (mo_asset m)) = Inr (Some (Amount m))"
    using parseUnits_written [OF d(1,2,3,5,6)] by simp
  moreover obtain k where "mo_amount m = Some k" "0 \<le> k" "asset_IsSet (mo_asset m)"
    using assms(1) by (auto simp: money_ok_def money_IsSet_def Amount_def)
  ultimately show ?thesis by (simp add: ParseUnits_def NewMoney_def Amount_def)
qed

theorem units_roundtrip_witness:
  "let a = \<lparr>as_network = ''polygon'', as_reference = ''0xE7C3'', as_symbol = ''JPYC'', as_decimals = 18\<rparr>;
       m = \<lparr>mo_amount = Some 1500000000000000000, mo_asset = a\<rparr>
   in Units m = ''1.5'' \<and> ParseUnits a ''1.5'' = Inr m"
proof -
  let ?a = "\<lparr>as_network = ''polygon'', as_reference = ''0xE7C3'', as_symbol = ''JPYC'', as_decimals = 18\<rparr>"
  let ?m = "\<lparr>mo_amount = Some 1500000000000000000, mo_asset = ?a\<rparr>"
  have a: "asset_ok ?a"
    by (simp add: asset_ok_def asset_IsSet_def MaxAssetDecimals_def invisible_Has_printable printable_def)
  have u: "Units ?m = ''1.5''"
    by (simp add: Units_def money_IsSet_def asset_IsSet_def Amount_def bigString_def dec.simps
        trimZeros_def Let_def)
  have "ParseUnits (mo_asset ?m) (Units ?m) = Inr ?m"
    by (rule units_roundtrip) (simp_all add: a money_ok_def money_IsSet_def asset_IsSet_def Amount_def
        MaxAmountDigits_def)
  with u show ?thesis by simp
qed

end
