(* ===== verification/Problems.thy ===== *)
theory Problems
  imports Money
begin

text \<open>
  The states and the refusals of package payment: the statuses of a payment (status.go), of an
  attempt (attempt.go) and of a refund (refund.go), each a Go string with its known values as
  constructors and every other string under \<open>Other\<dots>\<close>; and what the package reports, a list of
  problems each naming a field and carrying a message. A message is the format string the code
  uses, as a constructor, with the values it prints.
\<close>

datatype status =
    Created | AwaitingPayment | AwaitingFinality | Succeeded | Failed | Expired
  | OtherStatus string

datatype attempt_status = Issued | Confirming | Superseded | OtherAttemptStatus string

datatype refund_status =
    RefundCreated | RefundAwaitingFinality | RefundSucceeded | RefundExpired
  | OtherRefundStatus string

datatype hex_error = WantCharacters nat nat | NotHexadecimal | NotLowercase

datatype address_error = AddressNone | AddressTooLong nat | AddressInvisible

datatype message =
    \<comment> \<open>status.go, payment.go\<close>
    PaymentIsFinal status
  | PaymentCannotGo status status
  | NotAStatus status
  | BadId hex_error
  | BadAddress address_error
  | MoneyError money_error
  | NoneGiven
  | ZeroAmount
  | NotAfter gotime gotime
  | TooManyEntries nat
  | EmptyKey
  | KeyTooLong nat
  | KeyInvisible
  | ValueTooLong nat
  | ValueInvisible
  | NothingCanArrive status
  | NothingTakenBack status
  | NothingArrived
  | AlreadyArrived money
  | ArrivedWhileCreated money status
  | ShortOf money money
  | DeadlineAhead gotime gotime
  | LatestDeadline gotime gotime
    \<comment> \<open>attempt.go\<close>
  | PaymentIsNot status status
  | ClosesTooSoon duration
  | AttemptIsNot attempt_status attempt_status
  | NobodySigned
    \<comment> \<open>refund.go and the ceiling of postgres.go\<close>
  | NoPaymentToRefund
  | NotRefundable status
  | NotPaymentsAsset string
  | NotARefundStatus refund_status
  | RefundCannotBecome refund_status refund_status
  | MoreThanLeft string string

record problem =
  pr_field :: string
  pr_message :: message

abbreviation Problem :: "string \<Rightarrow> message \<Rightarrow> problem" where
  "Problem f m \<equiv> \<lparr>pr_field = f, pr_message = m\<rparr>"

text \<open>\<open>hexOfLength\<close>, which identifiers and keys are read with.\<close>

definition hexOfLength :: "string \<Rightarrow> nat \<Rightarrow> (hex_error, unit) result" where
  "hexOfLength s n =
     (if length s \<noteq> n then Inl (WantCharacters n (length s))
      else if \<not> hexDecodes s then Inl NotHexadecimal
      else if map lowerChar s \<noteq> s then Inl NotLowercase
      else Inr ())"

definition MaxAddressBytes :: nat where "MaxAddressBytes = 128"

definition ParseAddress :: "string \<Rightarrow> (address_error, string) result" where
  "ParseAddress s =
     (if s = [] then Inl AddressNone
      else if length s > MaxAddressBytes then Inl (AddressTooLong (length s))
      else if invisible_Has s then Inl AddressInvisible
      else Inr s)"

text \<open>
  \<open>NewID\<close>: random bytes in hexadecimal. What \<open>crypto/rand\<close> read is the argument, \<open>None\<close>
  where the read failed.
\<close>

definition newHex :: "byte list option \<Rightarrow> string option" where
  "newHex random = map_option hexEncode random"

definition NewID :: "byte list option \<Rightarrow> string option" where
  "NewID b = newHex b"

definition ParseID :: "string \<Rightarrow> (hex_error, string) result" where
  "ParseID s = (case hexOfLength s 32 of Inl e \<Rightarrow> Inl e | Inr _ \<Rightarrow> Inr s)"

lemma hexOfLength_Inr_iff:
  "hexOfLength s n = Inr u \<longleftrightarrow> length s = n \<and> hexDecodes s \<and> map lowerChar s = s"
  by (auto simp: hexOfLength_def)

lemma hexOfLength_hexEncode: "hexOfLength (hexEncode bs) (2 * length bs) = Inr ()"
  by (auto simp: hexOfLength_Inr_iff hexDecodes_def list_all_iff hexEncode_chars intro!: map_idI)

lemma ParseID_Inr_iff: "ParseID s = Inr t \<longleftrightarrow> t = s \<and> hexOfLength s 32 = Inr ()"
  by (auto simp: ParseID_def split: sum.splits)

lemma ParseAddress_Inr_iff:
  "ParseAddress s = Inr t \<longleftrightarrow>
     t = s \<and> s \<noteq> [] \<and> length s \<le> MaxAddressBytes \<and> \<not> invisible_Has s"
  by (auto simp: ParseAddress_def)

lemma ParseID_same: "ParseID s = Inr t \<Longrightarrow> t = s"
  by (simp add: ParseID_Inr_iff)

lemma ParseAddress_same: "ParseAddress s = Inr t \<Longrightarrow> t = s"
  by (simp add: ParseAddress_Inr_iff)

lemma NewID_parses: "NewID (Some bs) = Some s \<Longrightarrow> length bs = 16 \<Longrightarrow> ParseID s = Inr s"
  using hexOfLength_hexEncode [of bs] by (auto simp: NewID_def newHex_def ParseID_Inr_iff)

end
