(* ===== verification/Lifecycle.thy ===== *)
theory Lifecycle
  imports Prelude
begin

text \<open>
  What a lifecycle promises: a map of moves in which final states have none and every move goes
  up a rank. A payment and a refund are two of them. The lemmas are about any run of moves.
\<close>

locale lifecycle =
  fixes moves :: "'s \<Rightarrow> 's list"
    and final :: "'s \<Rightarrow> bool"
    and rank :: "'s \<Rightarrow> nat"
    and top :: nat
  assumes final_no_moves: "final s \<Longrightarrow> moves s = []"
    and moves_up: "t \<in> set (moves s) \<Longrightarrow> rank s < rank t"
    and rank_le: "rank s \<le> top"
begin

lemma run_rank: "(\<lambda>s t. t \<in> set (moves s))\<^sup>*\<^sup>* s t \<Longrightarrow> rank s \<le> rank t"
  by (induction rule: rtranclp_induct) (auto dest!: moves_up)

lemma final_stays: "(\<lambda>s t. t \<in> set (moves s))\<^sup>*\<^sup>* s t \<Longrightarrow> final s \<Longrightarrow> t = s"
  by (induction rule: converse_rtranclp_induct) (auto dest: final_no_moves)

lemma never_back:
  assumes "(\<lambda>s t. t \<in> set (moves s))\<^sup>*\<^sup>* s t" "(\<lambda>s t. t \<in> set (moves s))\<^sup>*\<^sup>* t s"
  shows "s = t"
  using assms(1)
proof (cases rule: converse_rtranclpE)
  case (step u)
  then have "rank s < rank u" "rank u \<le> rank t" by (auto dest: moves_up run_rank)
  with run_rank [OF assms(2)] show ?thesis by simp
qed

lemma run_bounded:
  "successively (\<lambda>s t. t \<in> set (moves s)) (s # ss) \<Longrightarrow> length ss + rank s \<le> top"
proof (induction ss arbitrary: s)
  case Nil
  then show ?case by (simp add: rank_le)
next
  case (Cons t ss)
  then have "rank s < rank t" "length ss + rank t \<le> top" by (auto dest: moves_up)
  then show ?case by simp
qed

end

end
