(* ===== verification/Payment.thy ===== *)
theory Payment
  imports Problems Lifecycle
begin

text \<open>
  Package payment, status.go and payment.go: the payment's lifecycle, and the aggregate with the
  checks that build it (\<open>New\<close>, \<open>Restore\<close>) and the moves it makes. Every error these report is a
  list of problems, so a failed call is \<open>Inl\<close> of that list and leaves the payment as it was.
\<close>

section \<open>Status (status.go)\<close>

text \<open>The map \<open>next\<close>; \<open>None\<close> is a status absent from it.\<close>

fun next_moves :: "status \<Rightarrow> status list option" where
  "next_moves Created = Some [AwaitingPayment]"
| "next_moves AwaitingPayment = Some [Succeeded, Failed, AwaitingFinality]"
| "next_moves AwaitingFinality = Some [Succeeded, Expired]"
| "next_moves _ = None"

definition Valid :: "status \<Rightarrow> bool" where
  "Valid s = (next_moves s \<noteq> None \<or> s = Succeeded \<or> s = Failed \<or> s = Expired)"

definition Final :: "status \<Rightarrow> bool" where
  "Final s = (next_moves s = None \<and> Valid s)"

definition movesOf :: "status \<Rightarrow> status list" where
  "movesOf s = (case next_moves s of None \<Rightarrow> [] | Some ts \<Rightarrow> ts)"

definition CanBecome :: "status \<Rightarrow> status \<Rightarrow> bool" where
  "CanBecome s want = List.member (movesOf s) want"

fun status_String :: "status \<Rightarrow> string" where
  "status_String Created = ''created''"
| "status_String AwaitingPayment = ''awaiting_payment''"
| "status_String AwaitingFinality = ''awaiting_finality''"
| "status_String Succeeded = ''succeeded''"
| "status_String Failed = ''failed''"
| "status_String Expired = ''expired''"
| "status_String (OtherStatus s) = s"

definition errTransition :: "status \<Rightarrow> status \<Rightarrow> problem list" where
  "errTransition from to =
     (if Final from then [Problem ''status'' (PaymentIsFinal from)]
      else [Problem ''status'' (PaymentCannotGo from to)])"

fun status_rank :: "status \<Rightarrow> nat" where
  "status_rank Created = 0"
| "status_rank AwaitingPayment = 1"
| "status_rank AwaitingFinality = 2"
| "status_rank _ = 3"

lemma Final_iff: "Final s \<longleftrightarrow> s = Succeeded \<or> s = Failed \<or> s = Expired"
  by (cases s) (simp_all add: Final_def Valid_def)

lemma Valid_iff: "Valid s \<longleftrightarrow> (\<forall>x. s \<noteq> OtherStatus x)"
  by (cases s) (simp_all add: Valid_def)

lemma CanBecome_iff: "CanBecome s t \<longleftrightarrow> t \<in> set (movesOf s)"
  by (simp add: CanBecome_def)

lemma movesOf_simps [simp]:
  "movesOf Created = [AwaitingPayment]"
  "movesOf AwaitingPayment = [Succeeded, Failed, AwaitingFinality]"
  "movesOf AwaitingFinality = [Succeeded, Expired]"
  "movesOf Succeeded = []" "movesOf Failed = []" "movesOf Expired = []"
  "movesOf (OtherStatus x) = []"
  by (simp_all add: movesOf_def)

interpretation pay_life: lifecycle movesOf Final status_rank 3
proof unfold_locales
  fix s t
  show "Final s \<Longrightarrow> movesOf s = []" by (auto simp: Final_iff)
  show "t \<in> set (movesOf s) \<Longrightarrow> status_rank s < status_rank t" by (cases s) auto
  show "status_rank s \<le> 3" by (cases s) auto
qed

section \<open>The aggregate (payment.go)\<close>

definition MaxMetadataEntries :: nat where "MaxMetadataEntries = 20"
definition MaxMetadataKeyBytes :: nat where "MaxMetadataKeyBytes = 64"
definition MaxMetadataValueSize :: nat where "MaxMetadataValueSize = 512"

text \<open>What merchants attach: a Go map, as its entries with each key once.\<close>

type_synonym metadata = "(string \<times> string) list"

record idempotency =
  idem_key :: string
  idem_bodyHash :: string

record checkout =
  ck_hash :: string
  ck_keyID :: string

definition idem_IsSet :: "idempotency \<Rightarrow> bool" where
  "idem_IsSet i = (idem_key i \<noteq> [] \<and> length (idem_bodyHash i) > 0)"

definition checkout_IsSet :: "checkout \<Rightarrow> bool" where
  "checkout_IsSet c = (length (ck_hash c) > 0)"

record payment =
  pay_id :: string
  pay_amount :: money
  pay_received :: money
  pay_destination :: string
  pay_status :: status
  pay_metadata :: metadata
  pay_createdAt :: gotime
  pay_expiresAt :: gotime
  pay_returnURL :: string
  pay_checkout :: checkout
  pay_idempotency :: idempotency
  pay_closedAt :: gotime

record request =
  rq_amount :: money
  rq_destination :: string
  rq_metadata :: metadata
  rq_expiresAt :: gotime
  rq_returnURL :: string
  rq_checkout :: checkout
  rq_idempotency :: idempotency

record stored =
  st_id :: string
  st_amount :: money
  st_received :: money
  st_destination :: string
  st_metadata :: metadata
  st_status :: status
  st_createdAt :: gotime
  st_expiresAt :: gotime
  st_returnURL :: string
  st_checkout :: checkout
  st_idempotency :: idempotency
  st_closedAt :: gotime

definition entryProblems :: "string \<Rightarrow> string \<Rightarrow> problem list" where
  "entryProblems key val =
     (let field = ''metadata.'' @ key in
      (if key = [] then [Problem ''metadata'' EmptyKey]
       else if length key > MaxMetadataKeyBytes then [Problem field (KeyTooLong (length key))]
       else if invisible_Has key then [Problem field KeyInvisible]
       else [])
      @ (if length val > MaxMetadataValueSize then [Problem field (ValueTooLong (length val))]
         else if invisible_Has val then [Problem field ValueInvisible]
         else []))"

definition metadataProblems :: "metadata \<Rightarrow> problem list" where
  "metadataProblems m =
     (if length m > MaxMetadataEntries then [Problem ''metadata'' (TooManyEntries (length m))] else [])
     @ concat (map (\<lambda>key. entryProblems key (the (map_of m key))) (sort (map fst m)))"

definition buildProblems :: "string \<Rightarrow> request \<Rightarrow> gotime \<Rightarrow> problem list" where
  "buildProblems pid r deadlineAfter =
     (case ParseID pid of Inl e \<Rightarrow> [Problem ''id'' (BadId e)] | Inr _ \<Rightarrow> [])
     @ (if \<not> money_IsSet (rq_amount r) then [Problem ''amount'' NoneGiven]
        else if Amount (rq_amount r) = 0 then [Problem ''amount'' ZeroAmount]
        else [])
     @ (case ParseAddress (rq_destination r) of
          Inl e \<Rightarrow> [Problem ''destination'' (BadAddress e)] | Inr _ \<Rightarrow> [])
     @ (if isZeroTime (rq_expiresAt r) then [Problem ''expires_at'' NoneGiven]
        else if \<not> deadlineAfter < rq_expiresAt r
          then [Problem ''expires_at'' (NotAfter (rq_expiresAt r) deadlineAfter)]
        else [])
     @ metadataProblems (rq_metadata r)"

definition build :: "string \<Rightarrow> request \<Rightarrow> status \<Rightarrow> gotime \<Rightarrow> gotime \<Rightarrow> (problem list, payment) result" where
  "build pid r status createdAt deadlineAfter =
     (if buildProblems pid r deadlineAfter \<noteq> [] then Inl (buildProblems pid r deadlineAfter)
      else Inr \<lparr>pay_id = pid, pay_amount = rq_amount r, pay_received = noMoney,
                pay_destination = rq_destination r, pay_status = status,
                pay_metadata = rq_metadata r,
                pay_createdAt = truncateTime createdAt Microsecond,
                pay_expiresAt = truncateTime (rq_expiresAt r) Microsecond,
                pay_returnURL = rq_returnURL r, pay_checkout = rq_checkout r,
                pay_idempotency = rq_idempotency r, pay_closedAt = 0\<rparr>)"

text \<open>
  \<open>New\<close> with what the random source read for the identifier. The one error of it that is not a
  list of problems, a random source that failed, is \<open>Inl None\<close>.
\<close>

definition New :: "byte list option \<Rightarrow> request \<Rightarrow> gotime \<Rightarrow> (problem list option, payment) result" where
  "New random r now =
     (case NewID random of
        None \<Rightarrow> Inl None
      | Some pid \<Rightarrow> mapErr Some (build pid r Created now now))"

definition CanReceive :: "payment \<Rightarrow> bool" where
  "CanReceive p = (pay_status p = AwaitingPayment \<or> pay_status p = AwaitingFinality)"

text \<open>\<open>record\<close>: an arrival, with no check of the status.\<close>

definition recordArrival :: "payment \<Rightarrow> money \<Rightarrow> (problem list, payment) result" where
  "recordArrival p m =
     (if \<not> money_IsSet m then Inl [Problem ''received'' NoneGiven]
      else if money_IsSet (pay_received p) then Inl [Problem ''received'' (AlreadyArrived (pay_received p))]
      else case Cmp m (pay_amount p) of
             Inl e \<Rightarrow> Inl [Problem ''received'' (MoneyError e)]
           | Inr _ \<Rightarrow> Inr (p\<lparr>pay_received := m\<rparr>))"

definition Receive :: "payment \<Rightarrow> money \<Rightarrow> (problem list, payment) result" where
  "Receive p m =
     (if \<not> CanReceive p then Inl [Problem ''received'' (NothingCanArrive (pay_status p))]
      else recordArrival p m)"

definition Unreceive :: "payment \<Rightarrow> (problem list, payment) result" where
  "Unreceive p =
     (if \<not> CanReceive p then Inl [Problem ''received'' (NothingTakenBack (pay_status p))]
      else if \<not> money_IsSet (pay_received p) then Inl [Problem ''received'' NothingArrived]
      else Inr (p\<lparr>pay_received := noMoney\<rparr>))"

text \<open>\<open>covered\<close>: no error (\<open>None\<close>) when what arrived is at least what was asked for.\<close>

definition covered :: "payment \<Rightarrow> problem list option" where
  "covered p =
     (if \<not> money_IsSet (pay_received p) then Some [Problem ''received'' NothingArrived]
      else case Cmp (pay_received p) (pay_amount p) of
             Inl e \<Rightarrow> Some [Problem ''received'' (MoneyError e)]
           | Inr c \<Rightarrow> if c < 0 then Some [Problem ''received'' (ShortOf (pay_received p) (pay_amount p))]
                      else None)"

definition moveTo :: "payment \<Rightarrow> status \<Rightarrow> (problem list, payment) result" where
  "moveTo p want =
     (if \<not> CanBecome (pay_status p) want then Inl (errTransition (pay_status p) want)
      else Inr (p\<lparr>pay_status := want\<rparr>))"

definition Await :: "payment \<Rightarrow> (problem list, payment) result" where
  "Await p = moveTo p AwaitingPayment"

definition Succeed :: "payment \<Rightarrow> (problem list, payment) result" where
  "Succeed p =
     (if \<not> CanBecome (pay_status p) Succeeded then Inl (errTransition (pay_status p) Succeeded)
      else case covered p of
             Some e \<Rightarrow> Inl e
           | None \<Rightarrow> moveTo p Succeeded)"

definition AwaitFinality :: "payment \<Rightarrow> gotime \<Rightarrow> (problem list, payment) result" where
  "AwaitFinality p now =
     (if now < pay_expiresAt p then Inl [Problem ''expires_at'' (DeadlineAhead (pay_expiresAt p) now)]
      else moveTo p AwaitingFinality)"

definition Fail :: "payment \<Rightarrow> (problem list, payment) result" where
  "Fail p = moveTo p Failed"

definition Expire :: "payment \<Rightarrow> (problem list, payment) result" where
  "Expire p = moveTo p Expired"

definition Restore :: "stored \<Rightarrow> (problem list, payment) result" where
  "Restore s =
     (if \<not> Valid (st_status s) then Inl [Problem ''status'' (NotAStatus (st_status s))]
      else case build (st_id s)
                  \<lparr>rq_amount = st_amount s, rq_destination = st_destination s,
                   rq_metadata = st_metadata s, rq_expiresAt = st_expiresAt s,
                   rq_returnURL = st_returnURL s, rq_checkout = st_checkout s,
                   rq_idempotency = st_idempotency s\<rparr>
                  (st_status s) (st_createdAt s) (st_createdAt s) of
             Inl e \<Rightarrow> Inl e
           | Inr p0 \<Rightarrow>
               let p1 = p0\<lparr>pay_closedAt := st_closedAt s\<rparr> in
               case (if money_IsSet (st_received s)
                     then (case recordArrival p1 (st_received s) of
                             Inl e \<Rightarrow> Inl e
                           | Inr p2 \<Rightarrow> if st_status s = Created
                               then Inl [Problem ''received'' (ArrivedWhileCreated (st_received s) (st_status s))]
                               else Inr p2)
                     else Inr p1) of
                 Inl e \<Rightarrow> Inl e
               | Inr p3 \<Rightarrow>
                   if st_status s = Succeeded
                   then (case covered p3 of Some e \<Rightarrow> Inl e | None \<Rightarrow> Inr p3)
                   else Inr p3)"

section \<open>Well-formed payments\<close>

text \<open>Money the program holds came from \<open>NewMoney\<close>, so it is not negative.\<close>

definition money_made :: "money \<Rightarrow> bool" where
  "money_made m = (money_IsSet m \<longrightarrow> money_ok m)"

text \<open>What \<open>New\<close> and \<open>Restore\<close> establish and every move keeps.\<close>

definition payment_wf :: "payment \<Rightarrow> bool" where
  "payment_wf p =
     (ParseID (pay_id p) = Inr (pay_id p)
      \<and> money_ok (pay_amount p) \<and> Amount (pay_amount p) \<noteq> 0
      \<and> ParseAddress (pay_destination p) = Inr (pay_destination p)
      \<and> metadataProblems (pay_metadata p) = []
      \<and> pay_createdAt p \<le> pay_expiresAt p
      \<and> Microsecond dvd pay_createdAt p \<and> Microsecond dvd pay_expiresAt p
      \<and> Valid (pay_status p)
      \<and> money_made (pay_received p)
      \<and> (money_IsSet (pay_received p) \<longrightarrow>
           comparable (pay_received p) (pay_amount p) = None \<and> pay_status p \<noteq> Created)
      \<and> (pay_status p = Succeeded \<longrightarrow> covered p = None))"

lemma buildProblems_Nil_iff:
  "buildProblems pid r da = [] \<longleftrightarrow>
     ParseID pid = Inr pid \<and> money_IsSet (rq_amount r) \<and> Amount (rq_amount r) \<noteq> 0
     \<and> ParseAddress (rq_destination r) = Inr (rq_destination r)
     \<and> rq_expiresAt r \<noteq> 0 \<and> da < rq_expiresAt r \<and> metadataProblems (rq_metadata r) = []"
  by (cases "ParseID pid"; cases "ParseAddress (rq_destination r)")
    (auto simp: buildProblems_def isZeroTime_def dest: ParseID_same ParseAddress_same)

lemma build_Inr_iff:
  "build pid r st c da = Inr p \<longleftrightarrow> buildProblems pid r da = []
     \<and> p = \<lparr>pay_id = pid, pay_amount = rq_amount r, pay_received = noMoney,
            pay_destination = rq_destination r, pay_status = st, pay_metadata = rq_metadata r,
            pay_createdAt = truncateTime c Microsecond,
            pay_expiresAt = truncateTime (rq_expiresAt r) Microsecond,
            pay_returnURL = rq_returnURL r, pay_checkout = rq_checkout r,
            pay_idempotency = rq_idempotency r, pay_closedAt = 0\<rparr>"
  by (auto simp: build_def)

lemma covered_None_iff:
  "covered p = None \<longleftrightarrow> money_IsSet (pay_received p)
     \<and> comparable (pay_received p) (pay_amount p) = None
     \<and> Amount (pay_amount p) \<le> Amount (pay_received p)"
  by (auto simp: covered_def Cmp_def sgn_if split: option.splits if_splits)

lemma recordArrival_Inr_iff:
  "recordArrival p m = Inr q \<longleftrightarrow> money_IsSet m \<and> \<not> money_IsSet (pay_received p)
     \<and> comparable m (pay_amount p) = None \<and> q = p\<lparr>pay_received := m\<rparr>"
  by (auto simp: recordArrival_def Cmp_def split: option.splits sum.splits)

lemma moveTo_Inr_iff:
  "moveTo p s = Inr q \<longleftrightarrow> CanBecome (pay_status p) s \<and> q = p\<lparr>pay_status := s\<rparr>"
  by (auto simp: moveTo_def)

lemma Receive_Inr_iff:
  "Receive p m = Inr q \<longleftrightarrow> CanReceive p \<and> recordArrival p m = Inr q"
  by (auto simp: Receive_def)

lemma Unreceive_Inr_iff:
  "Unreceive p = Inr q \<longleftrightarrow> CanReceive p \<and> money_IsSet (pay_received p) \<and> q = p\<lparr>pay_received := noMoney\<rparr>"
  by (auto simp: Unreceive_def)

lemma AwaitFinality_Inr_iff:
  "AwaitFinality p now = Inr q \<longleftrightarrow> pay_expiresAt p \<le> now \<and> moveTo p AwaitingFinality = Inr q"
  by (auto simp: AwaitFinality_def)

lemma Succeed_Inr_iff':
  "Succeed p = Inr q \<longleftrightarrow> CanBecome (pay_status p) Succeeded \<and> covered p = None
     \<and> q = p\<lparr>pay_status := Succeeded\<rparr>"
  by (auto simp: Succeed_def moveTo_Inr_iff split: option.splits)

lemmas payment_moves = Receive_Inr_iff Unreceive_Inr_iff AwaitFinality_Inr_iff Succeed_Inr_iff'
  recordArrival_Inr_iff moveTo_Inr_iff Await_def Fail_def Expire_def

lemma CanBecome_Succeeded: "CanBecome s Succeeded \<longleftrightarrow> s = AwaitingPayment \<or> s = AwaitingFinality"
  by (cases s) (auto simp: CanBecome_iff)

lemma CanBecome_simps:
  "CanBecome s AwaitingPayment \<longleftrightarrow> s = Created"
  "CanBecome s AwaitingFinality \<longleftrightarrow> s = AwaitingPayment"
  "CanBecome s Failed \<longleftrightarrow> s = AwaitingPayment"
  "CanBecome s Expired \<longleftrightarrow> s = AwaitingFinality"
  by (cases s; auto simp: CanBecome_iff)+

lemma covered_status [simp]: "covered (p\<lparr>pay_status := s\<rparr>) = covered p"
  by (cases "Cmp (pay_received p) (pay_amount p)") (simp_all add: covered_def)

lemma covered_frame: "covered (p\<lparr>pay_closedAt := t\<rparr>) = covered p" "covered (p\<lparr>pay_metadata := m\<rparr>) = covered p"
  by (cases "Cmp (pay_received p) (pay_amount p)"; simp add: covered_def)+

lemma build_wf:
  assumes "build pid r st c da = Inr p" "c \<le> da" "money_made (rq_amount r)" "Valid st" "st \<noteq> Succeeded"
  shows "payment_wf p"
proof -
  have b: "buildProblems pid r da = []" using assms(1) by (simp add: build_Inr_iff)
  then have "c < rq_expiresAt r" using assms(2) by (simp add: buildProblems_Nil_iff)
  then have "truncateTime c Microsecond \<le> truncateTime (rq_expiresAt r) Microsecond"
    by (intro truncateTime_mono) auto
  then show ?thesis
    using assms b by (auto simp: build_Inr_iff buildProblems_Nil_iff payment_wf_def money_made_def)
qed

lemma New_wf:
  assumes "New rnd r now = Inr p" "money_made (rq_amount r)"
  shows "payment_wf p \<and> pay_status p = Created \<and> \<not> money_IsSet (pay_received p)"
proof -
  obtain pid where "build pid r Created now now = Inr p"
    using assms(1) by (auto simp: New_def split: option.splits)
  then show ?thesis
    using build_wf [OF _ order_refl assms(2)] by (auto simp: build_Inr_iff Valid_def)
qed

section \<open>Runs of moves\<close>

text \<open>The moves a caller can make, so that a sequence of them is a list.\<close>

datatype pay_op =
  OpAwait | OpReceive money | OpUnreceive | OpSucceed | OpAwaitFinality gotime | OpFail | OpExpire

fun payOp :: "payment \<Rightarrow> pay_op \<Rightarrow> (problem list, payment) result" where
  "payOp p OpAwait = Await p"
| "payOp p (OpReceive m) = Receive p m"
| "payOp p OpUnreceive = Unreceive p"
| "payOp p OpSucceed = Succeed p"
| "payOp p (OpAwaitFinality now) = AwaitFinality p now"
| "payOp p OpFail = Fail p"
| "payOp p OpExpire = Expire p"

text \<open>A refused move leaves the payment where it was.\<close>

primrec payRun :: "payment \<Rightarrow> pay_op list \<Rightarrow> payment" where
  "payRun p [] = p"
| "payRun p (op # ops) = payRun (case payOp p op of Inl _ \<Rightarrow> p | Inr q \<Rightarrow> q) ops"

fun op_made :: "pay_op \<Rightarrow> bool" where
  "op_made (OpReceive m) = money_made m"
| "op_made _ = True"

lemma payOp_wf: "payOp p op = Inr q \<Longrightarrow> payment_wf p \<Longrightarrow> op_made op \<Longrightarrow> payment_wf q"
  by (cases op)
    (auto simp: payment_moves payment_wf_def CanBecome_simps CanBecome_Succeeded Valid_def CanReceive_def
      covered_None_iff money_made_def)

text \<open>What the moves never write.\<close>

definition same_terms :: "payment \<Rightarrow> payment \<Rightarrow> bool" where
  "same_terms p q =
     (q = p\<lparr>pay_status := pay_status q, pay_received := pay_received q\<rparr>)"

lemma same_terms_refl [simp]: "same_terms p p"
  by (simp add: same_terms_def)

lemma same_terms_trans: "same_terms p q \<Longrightarrow> same_terms q r \<Longrightarrow> same_terms p r"
  by (cases p; cases q; cases r) (simp add: same_terms_def)

lemma payOp_terms: "payOp p op = Inr q \<Longrightarrow> same_terms p q"
  by (cases op) (auto simp: payment_moves same_terms_def)

lemma payOp_status: "payOp p op = Inr q \<Longrightarrow> pay_status q = pay_status p \<or> pay_status q \<in> set (movesOf (pay_status p))"
  by (cases op) (auto simp: payment_moves CanBecome_iff)

lemma payRun_wf: "payment_wf p \<Longrightarrow> list_all op_made ops \<Longrightarrow> payment_wf (payRun p ops)"
  by (induction ops arbitrary: p) (auto split: sum.splits dest: payOp_wf)

lemma payRun_terms: "same_terms p (payRun p ops)"
proof (induction ops arbitrary: p)
  case (Cons op ops)
  show ?case
  proof (cases "payOp p op")
    case (Inr q)
    then show ?thesis using Cons [of q] payOp_terms [OF Inr] same_terms_trans by auto
  qed (use Cons in simp)
qed simp

lemma payRun_status: "(\<lambda>s t. t \<in> set (movesOf s))\<^sup>*\<^sup>* (pay_status p) (pay_status (payRun p ops))"
proof (induction ops arbitrary: p)
  case (Cons op ops)
  show ?case
  proof (cases "payOp p op")
    case (Inr q)
    then show ?thesis
      using Cons [of q] payOp_status [OF Inr] by (auto intro: converse_rtranclp_into_rtranclp)
  qed (use Cons in simp)
qed simp

lemma final_refuses: "Final (pay_status p) \<Longrightarrow> payOp p op = Inr q \<Longrightarrow> False"
  by (cases op) (auto simp: payment_moves Final_iff CanBecome_simps CanBecome_Succeeded CanReceive_def)

lemma payRun_final: "Final (pay_status p) \<Longrightarrow> payRun p ops = p"
  by (induction ops) (auto split: sum.splits dest: final_refuses)

lemma payRun_append: "payRun p (xs @ ys) = payRun (payRun p xs) ys"
  by (induction xs arbitrary: p) auto

section \<open>Storing and restoring\<close>

text \<open>A payment as its row holds it.\<close>

definition toStored :: "payment \<Rightarrow> stored" where
  "toStored p = \<lparr>st_id = pay_id p, st_amount = pay_amount p, st_received = pay_received p,
     st_destination = pay_destination p, st_metadata = pay_metadata p, st_status = pay_status p,
     st_createdAt = pay_createdAt p, st_expiresAt = pay_expiresAt p, st_returnURL = pay_returnURL p,
     st_checkout = pay_checkout p, st_idempotency = pay_idempotency p, st_closedAt = pay_closedAt p\<rparr>"

lemma truncateTime_fixed: "d dvd t \<Longrightarrow> truncateTime t d = t"
  by (simp add: truncateTime_def)

text \<open>\<open>Restore\<close> accepts a row exactly when these hold, and this is the payment it makes.\<close>

lemma Restore_Inr_iff:
  "Restore s = Inr p \<longleftrightarrow>
     Valid (st_status s)
     \<and> ParseID (st_id s) = Inr (st_id s) \<and> money_IsSet (st_amount s) \<and> Amount (st_amount s) \<noteq> 0
     \<and> ParseAddress (st_destination s) = Inr (st_destination s)
     \<and> st_expiresAt s \<noteq> 0 \<and> st_createdAt s < st_expiresAt s \<and> metadataProblems (st_metadata s) = []
     \<and> (money_IsSet (st_received s) \<longrightarrow>
          comparable (st_received s) (st_amount s) = None \<and> st_status s \<noteq> Created)
     \<and> (st_status s = Succeeded \<longrightarrow> covered p = None)
     \<and> p = \<lparr>pay_id = st_id s, pay_amount = st_amount s,
            pay_received = (if money_IsSet (st_received s) then st_received s else noMoney),
            pay_destination = st_destination s, pay_status = st_status s, pay_metadata = st_metadata s,
            pay_createdAt = truncateTime (st_createdAt s) Microsecond,
            pay_expiresAt = truncateTime (st_expiresAt s) Microsecond,
            pay_returnURL = st_returnURL s, pay_checkout = st_checkout s,
            pay_idempotency = st_idempotency s, pay_closedAt = st_closedAt s\<rparr>"
proof (cases "Valid (st_status s)")
  case True
  show ?thesis
    by (cases "money_IsSet (st_received s)"; cases "st_status s = Succeeded")
      (auto simp: Restore_def True Let_def build_Inr_iff buildProblems_Nil_iff recordArrival_Inr_iff
        res_simps)
qed (simp add: Restore_def)

lemma Restore_wf:
  assumes "Restore s = Inr p" "money_made (st_amount s)" "money_made (st_received s)"
  shows "payment_wf p"
proof -
  have "truncateTime (st_createdAt s) Microsecond \<le> truncateTime (st_expiresAt s) Microsecond"
    using assms(1) by (intro truncateTime_mono) (auto simp: Restore_Inr_iff)
  then show ?thesis
    using assms by (auto simp: Restore_Inr_iff payment_wf_def money_made_def)
qed

section \<open>A payment to evaluate\<close>

definition demo_asset :: asset where
  "demo_asset = \<lparr>as_network = ''polygon'', as_reference = ''0xE7C3'', as_symbol = ''JPYC'', as_decimals = 18\<rparr>"

definition demo_money :: "int \<Rightarrow> money" where
  "demo_money n = \<lparr>mo_amount = Some n, mo_asset = demo_asset\<rparr>"

definition demo_id :: string where
  "demo_id = hexEncode (replicate 16 1)"

definition demo_request :: request where
  "demo_request = \<lparr>rq_amount = demo_money 100, rq_destination = ''0xA11CE'', rq_metadata = [],
     rq_expiresAt = 900 * Second, rq_returnURL = [], rq_checkout = \<lparr>ck_hash = [], ck_keyID = []\<rparr>,
     rq_idempotency = \<lparr>idem_key = [], idem_bodyHash = []\<rparr>\<rparr>"

definition demo_payment :: "status \<Rightarrow> money \<Rightarrow> payment" where
  "demo_payment st received = \<lparr>pay_id = demo_id, pay_amount = demo_money 100, pay_received = received,
     pay_destination = ''0xA11CE'', pay_status = st, pay_metadata = [], pay_createdAt = Second,
     pay_expiresAt = 900 * Second, pay_returnURL = [], pay_checkout = \<lparr>ck_hash = [], ck_keyID = []\<rparr>,
     pay_idempotency = \<lparr>idem_key = [], idem_bodyHash = []\<rparr>, pay_closedAt = 0\<rparr>"

lemma demo_id_ok [simp]: "ParseID demo_id = Inr demo_id"
  by (rule NewID_parses [where bs = "replicate 16 1"]) (simp_all add: demo_id_def NewID_def newHex_def)

lemma demo_destination_ok [simp]: "ParseAddress ''0xA11CE'' = Inr ''0xA11CE''"
  by (simp add: ParseAddress_Inr_iff MaxAddressBytes_def invisible_Has_printable printable_def)

lemma demo_asset_ok [simp]: "asset_ok demo_asset" "asset_IsSet demo_asset"
  by (simp_all add: demo_asset_def asset_ok_def asset_IsSet_def MaxAssetDecimals_def
      invisible_Has_printable printable_def)

lemma demo_money_simps [simp]:
  "money_IsSet (demo_money n)" "Amount (demo_money n) = n" "mo_asset (demo_money n) = demo_asset"
  "comparable (demo_money n) (demo_money k) = None"
  by (simp_all add: demo_money_def money_IsSet_def Amount_def comparable_def Same_refl_iff)

lemma demo_money_ok [simp]: "money_ok (demo_money n) \<longleftrightarrow> 0 \<le> n" "money_made (demo_money n) \<longleftrightarrow> 0 \<le> n"
  by (simp_all add: money_ok_def money_made_def)

lemma metadataProblems_Nil [simp]: "metadataProblems [] = []"
  by (simp add: metadataProblems_def)

lemma demo_New: "New (Some (replicate 16 1)) demo_request Second = Inr (demo_payment Created noMoney)"
  by (simp add: New_def NewID_def newHex_def demo_id_def [symmetric] build_Inr_iff buildProblems_Nil_iff
      demo_request_def demo_payment_def truncateTime_def)

section \<open>Properties\<close>

text \<open>C1: The aggregate's invariant. A payment \<open>New\<close> opened, after any sequence of moves (refused
  ones included), still satisfies every check that opened it, still asks for what it asked for (only
  its status and what arrived ever change), and says it succeeded only if what arrived is at least
  what was asked for, in the same token.\<close>

theorem payment_run_safe:
  assumes "New rnd r now = Inr p" "money_made (rq_amount r)" "list_all op_made ops"
  shows "payment_wf (payRun p ops) \<and> same_terms p (payRun p ops)
    \<and> (pay_status (payRun p ops) = Succeeded \<longrightarrow>
         money_IsSet (pay_received (payRun p ops))
         \<and> Same (mo_asset (pay_received (payRun p ops))) (mo_asset (pay_amount p))
         \<and> Amount (pay_amount p) \<le> Amount (pay_received (payRun p ops)))"
proof -
  let ?q = "payRun p ops"
  have wf: "payment_wf ?q" using New_wf [OF assms(1,2)] payRun_wf assms(3) by blast
  have terms: "same_terms p ?q" by (rule payRun_terms)
  then have "pay_amount ?q = pay_amount p" by (metis payment.select_convs(2) payment.surjective payment.update_convs(3,5) same_terms_def)
  with wf terms show ?thesis
    by (auto simp: payment_wf_def covered_None_iff comparable_None_iff)
qed

theorem payment_run_safe_witness:
  "payRun (demo_payment Created noMoney) [OpAwait, OpReceive (demo_money 100), OpSucceed]
     = demo_payment Succeeded (demo_money 100)
   \<and> payment_wf (demo_payment Succeeded (demo_money 100))"
proof -
  let ?ops = "[OpAwait, OpReceive (demo_money 100), OpSucceed]"
  have run: "payRun (demo_payment Created noMoney) ?ops = demo_payment Succeeded (demo_money 100)"
    by (simp add: demo_payment_def Await_def moveTo_def CanBecome_iff Receive_def CanReceive_def
        recordArrival_def Cmp_def Succeed_def covered_def)
  have "payment_wf (payRun (demo_payment Created noMoney) ?ops)"
    using payment_run_safe [OF demo_New, of ?ops] by (simp add: demo_request_def)
  with run show ?thesis by simp
qed

text \<open>The lifecycle. A payment in a final status refuses every move and never changes again, and no
  payment ever comes back to a status it has left.\<close>

theorem payment_lifecycle:
  "(Final (pay_status p) \<longrightarrow> (\<forall>op. \<not> isOk (payOp p op)) \<and> payRun p ops = p)
   \<and> (pay_status (payRun p ops) \<noteq> pay_status p \<longrightarrow> pay_status (payRun p (ops @ rest)) \<noteq> pay_status p)"
proof (intro conjI impI)
  assume f: "Final (pay_status p)"
  then show "\<forall>op. \<not> isOk (payOp p op)" by (auto simp: isOk_iff dest: final_refuses)
  from f show "payRun p ops = p" by (rule payRun_final)
next
  assume left: "pay_status (payRun p ops) \<noteq> pay_status p"
  show "pay_status (payRun p (ops @ rest)) \<noteq> pay_status p"
  proof
    assume "pay_status (payRun p (ops @ rest)) = pay_status p"
    then show False
      using left pay_life.never_back [OF payRun_status [of p ops]] payRun_status [of "payRun p ops" rest]
      by (simp add: payRun_append)
  qed
qed

theorem payment_lifecycle_witness:
  "payRun (demo_payment Expired noMoney) [OpSucceed, OpReceive (demo_money 5)] = demo_payment Expired noMoney
   \<and> pay_status (payRun (demo_payment AwaitingPayment noMoney) ([OpFail] @ [OpAwait, OpSucceed])) \<noteq> AwaitingPayment"
proof -
  have "Final (pay_status (demo_payment Expired noMoney))" by (simp add: demo_payment_def Final_iff)
  then have 1: "payRun (demo_payment Expired noMoney) [OpSucceed, OpReceive (demo_money 5)] = demo_payment Expired noMoney"
    using payment_lifecycle [of "demo_payment Expired noMoney" "[OpSucceed, OpReceive (demo_money 5)]" "[]"]
    by blast
  have "pay_status (payRun (demo_payment AwaitingPayment noMoney) [OpFail]) \<noteq> pay_status (demo_payment AwaitingPayment noMoney)"
    by (simp add: demo_payment_def Fail_def moveTo_def CanBecome_iff)
  then have "pay_status (payRun (demo_payment AwaitingPayment noMoney) ([OpFail] @ [OpAwait, OpSucceed]))
      \<noteq> pay_status (demo_payment AwaitingPayment noMoney)"
    using payment_lifecycle [of "demo_payment AwaitingPayment noMoney" "[OpFail]" "[OpAwait, OpSucceed]"] by blast
  then show ?thesis using 1 by (simp add: demo_payment_def)
qed

lemma payRun_unset:
  "(\<not> money_IsSet (pay_received p) \<longrightarrow> pay_received p = noMoney) \<Longrightarrow>
     \<not> money_IsSet (pay_received (payRun p ops)) \<longrightarrow> pay_received (payRun p ops) = noMoney"
proof (induction ops arbitrary: p)
  case (Cons op ops)
  have "\<not> money_IsSet (pay_received q) \<longrightarrow> pay_received q = noMoney" if "payOp p op = Inr q" for q
    using that Cons.prems by (cases op) (auto simp: payment_moves)
  then show ?case using Cons by (auto split: sum.split)
qed simp

lemma Restore_toStored:
  assumes "payment_wf p" "pay_expiresAt p \<noteq> 0" "\<not> money_IsSet (pay_received p) \<longrightarrow> pay_received p = noMoney"
  shows "Restore (toStored p) = Inr q \<longleftrightarrow> pay_createdAt p < pay_expiresAt p \<and> q = p"
  using assms
  by (cases p) (auto simp: Restore_Inr_iff toStored_def payment_wf_def truncateTime_fixed money_ok_def)

lemma truncateTime_less: "now + Microsecond \<le> t \<Longrightarrow> truncateTime now Microsecond < truncateTime t Microsecond"
  by (simp add: truncateTime_def)

text \<open>C2: What is stored is what is restored. A payment \<open>New\<close> opened, after any moves, written down field by
  field, is rebuilt by \<open>Restore\<close> as itself exactly when its deadline is still after its creation once both are
  cut to the microsecond a row keeps, and is refused otherwise; so it is rebuilt whenever the deadline asked for
  is a microsecond or more ahead. A deadline nearer than that is taken by \<open>New\<close>, and the row is refused.\<close>

theorem restore_roundtrip:
  assumes "New rnd r now = Inr p" "money_made (rq_amount r)" "list_all op_made ops" "0 \<le> now"
  shows "(Restore (toStored (payRun p ops)) = Inr (payRun p ops))
      = (truncateTime now Microsecond < truncateTime (rq_expiresAt r) Microsecond)
    \<and> isOk (Restore (toStored (payRun p ops))) = (truncateTime now Microsecond < truncateTime (rq_expiresAt r) Microsecond)
    \<and> (now + Microsecond \<le> rq_expiresAt r \<longrightarrow> Restore (toStored (payRun p ops)) = Inr (payRun p ops))"
proof -
  let ?q = "payRun p ops"
  obtain pid where b: "build pid r Created now now = Inr p"
    using assms(1) by (auto simp: New_def split: option.splits)
  have p: "pay_createdAt p = truncateTime now Microsecond" "pay_expiresAt p = truncateTime (rq_expiresAt r) Microsecond"
      "pay_received p = noMoney"
    using b by (auto simp: build_Inr_iff)
  have q: "pay_createdAt ?q = pay_createdAt p" "pay_expiresAt ?q = pay_expiresAt p"
    using payRun_terms [of p ops] by (cases p; cases ?q; simp add: same_terms_def)+
  have wf: "payment_wf ?q" using New_wf [OF assms(1,2)] payRun_wf assms(3) by blast
  have unset: "\<not> money_IsSet (pay_received ?q) \<longrightarrow> pay_received ?q = noMoney" using payRun_unset p(3) by blast
  have main: "Restore (toStored ?q) = Inr x \<longleftrightarrow> pay_createdAt p < pay_expiresAt p \<and> x = ?q" for x
  proof (cases "pay_expiresAt p = 0")
    case True
    have "0 \<le> pay_createdAt p" using assms(4) by (simp add: p truncateTime_def zmod_le_nonneg_dividend)
    then show ?thesis using True q by (auto simp: Restore_Inr_iff toStored_def)
  next
    case False
    then show ?thesis using Restore_toStored [OF wf _ unset] q by simp
  qed
  then show ?thesis using truncateTime_less [of now "rq_expiresAt r"] by (auto simp: isOk_iff p)
qed

theorem restore_roundtrip_witness:
  "Restore (toStored (demo_payment Succeeded (demo_money 100))) = Inr (demo_payment Succeeded (demo_money 100))"
proof -
  let ?ops = "[OpAwait, OpReceive (demo_money 100), OpSucceed]"
  have run: "payRun (demo_payment Created noMoney) ?ops = demo_payment Succeeded (demo_money 100)"
    by (simp add: demo_payment_def Await_def moveTo_def CanBecome_iff Receive_def CanReceive_def
        recordArrival_def Cmp_def Succeed_def covered_def)
  have "Restore (toStored (payRun (demo_payment Created noMoney) ?ops)) = Inr (payRun (demo_payment Created noMoney) ?ops)"
    using restore_roundtrip [OF demo_New, of ?ops] by (simp add: demo_request_def)
  with run show ?thesis by simp
qed

end
