(* ===== verification/Attempt.thy ===== *)
theory Attempt
  imports Payment
begin

text \<open>
  Package payment, attempt.go: one payer's go at paying a payment, and the key it holds. The
  random source is an argument (\<open>None\<close> where reading it failed), as in \<open>Payment\<close>.
\<close>

definition EIP3009 :: string where "EIP3009 = ''eip3009''"

definition attempt_Valid :: "attempt_status \<Rightarrow> bool" where
  "attempt_Valid s = (s = Issued \<or> s = Confirming \<or> s = Superseded)"

fun attempt_status_String :: "attempt_status \<Rightarrow> string" where
  "attempt_status_String Issued = ''issued''"
| "attempt_status_String Confirming = ''confirming''"
| "attempt_status_String Superseded = ''superseded''"
| "attempt_status_String (OtherAttemptStatus s) = s"

record attempt =
  att_id :: string
  att_paymentID :: string
  att_scheme :: string
  att_network :: string
  att_key :: string
  att_authorizer :: string
  att_validBefore :: gotime
  att_status :: attempt_status
  att_createdAt :: gotime

text \<open>Why an attempt was not made or not rebuilt.\<close>

datatype attempt_error =
    AttemptProblems "problem list"
  | NoPaymentToAttempt
  | RandomFailed
  | AttemptBadID hex_error
  | AttemptBadPayment hex_error
  | NotAScheme string
  | AttemptNoNetwork
  | AttemptBadKey hex_error
  | NotAnAttemptStatus attempt_status
  | AttemptBadAuthorizer address_error
  | ConfirmingUnsigned
  | IssuedSigned

definition MinRemaining :: duration where "MinRemaining = 2 * Minute"

definition newAttemptID :: "byte list option \<Rightarrow> string option" where
  "newAttemptID b = newHex b"

definition newKey :: "byte list option \<Rightarrow> string option" where
  "newKey b = newHex b"

definition NewAttempt ::
  "byte list option \<Rightarrow> byte list option \<Rightarrow> payment option \<Rightarrow> gotime \<Rightarrow> (attempt_error, attempt) result" where
  "NewAttempt idBytes keyBytes po now =
     (case po of
        None \<Rightarrow> Inl NoPaymentToAttempt
      | Some p \<Rightarrow>
          if pay_status p \<noteq> AwaitingPayment
          then Inl (AttemptProblems [Problem ''status'' (PaymentIsNot (pay_status p) AwaitingPayment)])
          else if subTime (pay_expiresAt p) now < MinRemaining
          then Inl (AttemptProblems [Problem ''expires_at'' (ClosesTooSoon (subTime (pay_expiresAt p) now))])
          else case newAttemptID idBytes of
                 None \<Rightarrow> Inl RandomFailed
               | Some i \<Rightarrow>
                   (case newKey keyBytes of
                      None \<Rightarrow> Inl RandomFailed
                    | Some key \<Rightarrow>
                        Inr \<lparr>att_id = i, att_paymentID = pay_id p, att_scheme = EIP3009,
                             att_network = as_network (mo_asset (pay_amount p)), att_key = key,
                             att_authorizer = [],
                             att_validBefore = truncateTime (pay_expiresAt p) Second,
                             att_status = Issued, att_createdAt = truncateTime now Microsecond\<rparr>))"

text \<open>The row of an attempt has the attempt's fields, so \<open>StoredAttempt\<close> is the same record.\<close>

definition RestoreAttempt :: "attempt \<Rightarrow> (attempt_error, attempt) result" where
  "RestoreAttempt s =
     (case hexOfLength (att_id s) 32 of
        Inl e \<Rightarrow> Inl (AttemptBadID e)
      | Inr _ \<Rightarrow>
     (case ParseID (att_paymentID s) of
        Inl e \<Rightarrow> Inl (AttemptBadPayment e)
      | Inr _ \<Rightarrow>
      if att_scheme s \<noteq> EIP3009 then Inl (NotAScheme (att_scheme s))
      else if att_network s = [] then Inl AttemptNoNetwork
      else
     (case hexOfLength (att_key s) 64 of
        Inl e \<Rightarrow> Inl (AttemptBadKey e)
      | Inr _ \<Rightarrow>
      if \<not> attempt_Valid (att_status s) then Inl (NotAnAttemptStatus (att_status s))
      else
     (case (if att_authorizer s \<noteq> [] then ParseAddress (att_authorizer s) else Inr []) of
        Inl e \<Rightarrow> Inl (AttemptBadAuthorizer e)
      | Inr _ \<Rightarrow>
      if att_status s = Confirming \<and> att_authorizer s = [] then Inl ConfirmingUnsigned
      else if att_status s = Issued \<and> att_authorizer s \<noteq> [] then Inl IssuedSigned
      else Inr s))))"

definition Confirm :: "attempt \<Rightarrow> string \<Rightarrow> (problem list, attempt) result" where
  "Confirm a authorizer =
     (if att_status a \<noteq> Issued then Inl [Problem ''status'' (AttemptIsNot (att_status a) Issued)]
      else if authorizer = [] then Inl [Problem ''authorizer'' NobodySigned]
      else case ParseAddress authorizer of
             Inl e \<Rightarrow> Inl [Problem ''authorizer'' (BadAddress e)]
           | Inr _ \<Rightarrow> Inr (a\<lparr>att_authorizer := authorizer, att_status := Confirming\<rparr>))"

definition Unconfirm :: "attempt \<Rightarrow> (problem list, attempt) result" where
  "Unconfirm a =
     (if att_status a \<noteq> Confirming then Inl [Problem ''status'' (AttemptIsNot (att_status a) Confirming)]
      else Inr (a\<lparr>att_authorizer := [], att_status := Issued\<rparr>))"

definition Supersede :: "attempt \<Rightarrow> (problem list, attempt) result" where
  "Supersede a =
     (if att_status a \<noteq> Issued then Inl [Problem ''status'' (AttemptIsNot (att_status a) Issued)]
      else Inr (a\<lparr>att_status := Superseded\<rparr>))"

section \<open>What an attempt keeps\<close>

text \<open>The checks of \<open>RestoreAttempt\<close>, as a predicate.\<close>

definition attempt_wf :: "attempt \<Rightarrow> bool" where
  "attempt_wf a =
     (hexOfLength (att_id a) 32 = Inr () \<and> ParseID (att_paymentID a) = Inr (att_paymentID a)
      \<and> att_scheme a = EIP3009 \<and> att_network a \<noteq> [] \<and> hexOfLength (att_key a) 64 = Inr ()
      \<and> attempt_Valid (att_status a)
      \<and> (att_authorizer a \<noteq> [] \<longrightarrow> ParseAddress (att_authorizer a) = Inr (att_authorizer a))
      \<and> (att_status a = Confirming \<longrightarrow> att_authorizer a \<noteq> [])
      \<and> (att_status a = Issued \<longrightarrow> att_authorizer a = []))"

lemma RestoreAttempt_Inr_iff: "RestoreAttempt s = Inr a \<longleftrightarrow> a = s \<and> attempt_wf s"
  by (auto simp: RestoreAttempt_def attempt_wf_def res_simps ParseID_Inr_iff ParseAddress_Inr_iff)

lemma Confirm_Inr_iff:
  "Confirm a w = Inr b \<longleftrightarrow> att_status a = Issued \<and> ParseAddress w = Inr w
     \<and> b = a\<lparr>att_authorizer := w, att_status := Confirming\<rparr>"
  by (auto simp: Confirm_def res_simps ParseAddress_Inr_iff)

lemma Unconfirm_Inr_iff:
  "Unconfirm a = Inr b \<longleftrightarrow> att_status a = Confirming \<and> b = a\<lparr>att_authorizer := [], att_status := Issued\<rparr>"
  by (auto simp: Unconfirm_def)

lemma Supersede_Inr_iff:
  "Supersede a = Inr b \<longleftrightarrow> att_status a = Issued \<and> b = a\<lparr>att_status := Superseded\<rparr>"
  by (auto simp: Supersede_def)

lemmas attempt_moves = Confirm_Inr_iff Unconfirm_Inr_iff Supersede_Inr_iff

lemma attempt_moves_wf:
  "attempt_wf a \<Longrightarrow> Confirm a w = Inr b \<Longrightarrow> attempt_wf b"
  "attempt_wf a \<Longrightarrow> Unconfirm a = Inr b \<Longrightarrow> attempt_wf b"
  "attempt_wf a \<Longrightarrow> Supersede a = Inr b \<Longrightarrow> attempt_wf b"
  by (auto simp: attempt_moves attempt_wf_def attempt_Valid_def ParseAddress_Inr_iff)

lemma NewAttempt_Inr_iff:
  "NewAttempt ib kb po now = Inr a \<longleftrightarrow>
     (\<exists>p i k. po = Some p \<and> pay_status p = AwaitingPayment
        \<and> MinRemaining \<le> subTime (pay_expiresAt p) now
        \<and> newAttemptID ib = Some i \<and> newKey kb = Some k
        \<and> a = \<lparr>att_id = i, att_paymentID = pay_id p, att_scheme = EIP3009,
               att_network = as_network (mo_asset (pay_amount p)), att_key = k, att_authorizer = [],
               att_validBefore = truncateTime (pay_expiresAt p) Second,
               att_status = Issued, att_createdAt = truncateTime now Microsecond\<rparr>)"
  by (auto simp: NewAttempt_def res_simps not_less)

lemma newHex_ok: "newHex (Some bs) = Some s \<Longrightarrow> length bs = n \<Longrightarrow> hexOfLength s (2 * n) = Inr ()"
  using hexOfLength_hexEncode [of bs] by (auto simp: newHex_def)

text \<open>C3: An attempt is only ever issued on a payment that is open for payment with at least two minutes
  left, and it never outlives the payment: its authorisation dies on a whole second, at or less than a second
  before the payment's deadline and never after it, more than a minute from now. It is unsigned, names
  the payment and its network, and is one the store reads back.\<close>

theorem attempt_within_payment:
  assumes "NewAttempt (Some idb) (Some keyb) (Some p) now = Inr a"
    and "length idb = 16" "length keyb = 32" "payment_wf p"
  shows "pay_status p = AwaitingPayment \<and> att_paymentID a = pay_id p
    \<and> att_network a = as_network (mo_asset (pay_amount p))
    \<and> att_status a = Issued \<and> att_authorizer a = []
    \<and> att_validBefore a \<le> pay_expiresAt p \<and> pay_expiresAt p - Second < att_validBefore a
    \<and> Second dvd att_validBefore a \<and> now + Minute < att_validBefore a
    \<and> RestoreAttempt a = Inr a"
proof -
  from assms(1) obtain i k where a: "newAttemptID (Some idb) = Some i" "newKey (Some keyb) = Some k"
      "pay_status p = AwaitingPayment" "MinRemaining \<le> subTime (pay_expiresAt p) now"
      "a = \<lparr>att_id = i, att_paymentID = pay_id p, att_scheme = EIP3009,
            att_network = as_network (mo_asset (pay_amount p)), att_key = k, att_authorizer = [],
            att_validBefore = truncateTime (pay_expiresAt p) Second,
            att_status = Issued, att_createdAt = truncateTime now Microsecond\<rparr>"
    by (auto simp: NewAttempt_Inr_iff)
  have hex: "hexOfLength i 32 = Inr ()" "hexOfLength k 64 = Inr ()"
    using a(1,2) newHex_ok assms(2,3) by (fastforce simp: newAttemptID_def newKey_def)+
  have "asset_IsSet (mo_asset (pay_amount p))"
    using assms(4) by (simp add: payment_wf_def money_ok_def money_IsSet_def)
  then have wf: "attempt_wf a"
    using hex assms(4) by (simp add: a(5) attempt_wf_def attempt_Valid_def payment_wf_def asset_IsSet_def)
  have "2 * Minute \<le> pay_expiresAt p - now"
    using a(4) by (auto simp: MinRemaining_def subTime_def)
  moreover note truncateTime_le [of Second "pay_expiresAt p"] truncateTime_gt [of Second "pay_expiresAt p"]
  ultimately show ?thesis
    using a wf by (simp add: RestoreAttempt_Inr_iff)
qed

definition demo_attempt :: "attempt_status \<Rightarrow> string \<Rightarrow> attempt" where
  "demo_attempt st who = \<lparr>att_id = hexEncode (replicate 16 2), att_paymentID = demo_id, att_scheme = EIP3009,
     att_network = ''polygon'', att_key = hexEncode (replicate 32 3), att_authorizer = who,
     att_validBefore = 900 * Second, att_status = st, att_createdAt = 10 * Second\<rparr>"

lemma demo_payment_wf [simp]: "payment_wf (demo_payment AwaitingPayment noMoney)"
  by (simp add: payment_wf_def demo_payment_def Valid_def money_made_def)

theorem attempt_within_payment_witness:
  "NewAttempt (Some (replicate 16 2)) (Some (replicate 32 3))
      (Some (demo_payment AwaitingPayment noMoney)) (10 * Second) = Inr (demo_attempt Issued [])
   \<and> RestoreAttempt (demo_attempt Issued []) = Inr (demo_attempt Issued [])"
proof -
  have new: "NewAttempt (Some (replicate 16 2)) (Some (replicate 32 3))
      (Some (demo_payment AwaitingPayment noMoney)) (10 * Second) = Inr (demo_attempt Issued [])"
    by (simp add: NewAttempt_def demo_payment_def demo_attempt_def newAttemptID_def newKey_def newHex_def
        subTime_def MinRemaining_def truncateTime_def demo_money_def demo_asset_def)
  then show ?thesis using attempt_within_payment [OF new] by simp
qed

end
