(* ===== verification/Refund.thy ===== *)
theory Refund
  imports Attempt
begin

text \<open>
  Package payment, refund.go: a payment with the direction reversed. The ceiling a refund is
  measured against belongs to the store (\<open>Store_Refunds\<close>).
\<close>

text \<open>The map \<open>refundMoves\<close>; \<open>None\<close> is a status absent from it.\<close>

fun refundMoves :: "refund_status \<Rightarrow> refund_status list option" where
  "refundMoves RefundCreated = Some [RefundSucceeded, RefundAwaitingFinality]"
| "refundMoves RefundAwaitingFinality = Some [RefundSucceeded, RefundExpired]"
| "refundMoves RefundSucceeded = Some []"
| "refundMoves RefundExpired = Some []"
| "refundMoves (OtherRefundStatus _) = None"

definition refundMovesOf :: "refund_status \<Rightarrow> refund_status list" where
  "refundMovesOf s = (case refundMoves s of None \<Rightarrow> [] | Some ts \<Rightarrow> ts)"

definition refund_Valid :: "refund_status \<Rightarrow> bool" where
  "refund_Valid s = (refundMoves s \<noteq> None)"

definition refund_Final :: "refund_status \<Rightarrow> bool" where
  "refund_Final s = (s = RefundSucceeded \<or> s = RefundExpired)"

fun refund_status_String :: "refund_status \<Rightarrow> string" where
  "refund_status_String RefundCreated = ''created''"
| "refund_status_String RefundAwaitingFinality = ''awaiting_finality''"
| "refund_status_String RefundSucceeded = ''succeeded''"
| "refund_status_String RefundExpired = ''expired''"
| "refund_status_String (OtherRefundStatus s) = s"

fun refund_rank :: "refund_status \<Rightarrow> nat" where
  "refund_rank RefundCreated = 0"
| "refund_rank RefundAwaitingFinality = 1"
| "refund_rank _ = 2"

lemma refundMovesOf_simps [simp]:
  "refundMovesOf RefundCreated = [RefundSucceeded, RefundAwaitingFinality]"
  "refundMovesOf RefundAwaitingFinality = [RefundSucceeded, RefundExpired]"
  "refundMovesOf RefundSucceeded = []" "refundMovesOf RefundExpired = []"
  "refundMovesOf (OtherRefundStatus x) = []"
  by (simp_all add: refundMovesOf_def)

interpretation refund_life: lifecycle refundMovesOf refund_Final refund_rank 2
proof unfold_locales
  fix s t
  show "refund_Final s \<Longrightarrow> refundMovesOf s = []" by (auto simp: refund_Final_def)
  show "t \<in> set (refundMovesOf s) \<Longrightarrow> refund_rank s < refund_rank t" by (cases s) auto
  show "refund_rank s \<le> 2" by (cases s) auto
qed

definition RefundLife :: duration where "RefundLife = 30 * Minute"

record page_token =
  pt_hash :: string
  pt_keyID :: string

definition token_IsSet :: "page_token \<Rightarrow> bool" where
  "token_IsSet t = (length (pt_hash t) > 0 \<and> pt_keyID t \<noteq> [])"

record refund_request =
  rr_amount :: money
  rr_destination :: string
  rr_token :: page_token
  rr_idempotency :: idempotency

record refund =
  ref_id :: string
  ref_paymentID :: string
  ref_amount :: money
  ref_destination :: string
  ref_scheme :: string
  ref_network :: string
  ref_key :: string
  ref_expiresAt :: gotime
  ref_status :: refund_status
  ref_token :: page_token
  ref_idempotency :: idempotency
  ref_createdAt :: gotime
  ref_closedAt :: gotime

definition NewRefundID :: "byte list option \<Rightarrow> string option" where
  "NewRefundID b = newHex b"

definition ParseRefundID :: "string \<Rightarrow> (hex_error, string) result" where
  "ParseRefundID s = (case hexOfLength s 32 of Inl e \<Rightarrow> Inl e | Inr _ \<Rightarrow> Inr s)"

definition newRefundProblems :: "payment \<Rightarrow> string \<Rightarrow> refund_request \<Rightarrow> problem list" where
  "newRefundProblems p i r =
     (if pay_status p \<noteq> Succeeded then [Problem ''status'' (NotRefundable (pay_status p))] else [])
     @ (if \<not> money_IsSet (rr_amount r) then [Problem ''amount'' NoneGiven]
        else if Amount (rr_amount r) = 0 then [Problem ''amount'' ZeroAmount]
        else if \<not> Same (mo_asset (rr_amount r)) (mo_asset (pay_amount p))
          then [Problem ''amount'' (NotPaymentsAsset (as_symbol (mo_asset (rr_amount r))))]
        else [])
     @ (case ParseAddress (rr_destination r) of
          Inl e \<Rightarrow> [Problem ''destination'' (BadAddress e)] | Inr _ \<Rightarrow> [])
     @ (if \<not> token_IsSet (rr_token r) then [Problem ''token'' NoneGiven] else [])
     @ (case ParseRefundID i of Inl e \<Rightarrow> [Problem ''id'' (BadId e)] | Inr _ \<Rightarrow> [])"

text \<open>\<open>Inl None\<close> is the random source failing.\<close>

definition NewRefund ::
  "byte list option \<Rightarrow> payment option \<Rightarrow> string \<Rightarrow> refund_request \<Rightarrow> gotime \<Rightarrow> (problem list option, refund) result" where
  "NewRefund keyBytes po i r now =
     (case po of
        None \<Rightarrow> Inl (Some [Problem [] NoPaymentToRefund])
      | Some p \<Rightarrow>
          if newRefundProblems p i r \<noteq> [] then Inl (Some (newRefundProblems p i r))
          else case newKey keyBytes of
                 None \<Rightarrow> Inl None
               | Some key \<Rightarrow>
                   Inr \<lparr>ref_id = i, ref_paymentID = pay_id p, ref_amount = rr_amount r,
                        ref_destination = rr_destination r, ref_scheme = EIP3009,
                        ref_network = as_network (mo_asset (pay_amount p)), ref_key = key,
                        ref_expiresAt = truncateTime (now + RefundLife) Microsecond,
                        ref_status = RefundCreated, ref_token = rr_token r,
                        ref_idempotency = rr_idempotency r,
                        ref_createdAt = truncateTime now Microsecond, ref_closedAt = 0\<rparr>)"

text \<open>\<open>RefundStored\<close> has the refund's fields, so it is the same record.\<close>

definition restoreRefundProblems :: "refund \<Rightarrow> problem list" where
  "restoreRefundProblems s =
     (if \<not> refund_Valid (ref_status s) then [Problem ''status'' (NotARefundStatus (ref_status s))] else [])
     @ (if \<not> money_IsSet (ref_amount s) \<or> Amount (ref_amount s) = 0
        then [Problem ''amount'' NoneGiven] else [])
     @ (case ParseAddress (ref_destination s) of
          Inl e \<Rightarrow> [Problem ''destination'' (BadAddress e)] | Inr _ \<Rightarrow> [])"

definition RestoreRefund :: "refund \<Rightarrow> (problem list, refund) result" where
  "RestoreRefund s =
     (if restoreRefundProblems s \<noteq> [] then Inl (restoreRefundProblems s) else Inr s)"

definition refundMoveTo :: "refund \<Rightarrow> refund_status \<Rightarrow> (problem list, refund) result" where
  "refundMoveTo r s =
     (if \<not> List.member (refundMovesOf (ref_status r)) s
      then Inl [Problem ''status'' (RefundCannotBecome (ref_status r) s)]
      else Inr (r\<lparr>ref_status := s\<rparr>))"

definition Settle :: "refund \<Rightarrow> (problem list, refund) result" where
  "Settle r = refundMoveTo r RefundSucceeded"

definition refund_AwaitFinality :: "refund \<Rightarrow> (problem list, refund) result" where
  "refund_AwaitFinality r = refundMoveTo r RefundAwaitingFinality"

definition refund_Expire :: "refund \<Rightarrow> (problem list, refund) result" where
  "refund_Expire r = refundMoveTo r RefundExpired"

definition Holds :: "refund \<Rightarrow> bool" where
  "Holds r = (ref_status r \<noteq> RefundExpired)"

lemma refundMoveTo_Inr_iff:
  "refundMoveTo r s = Inr q \<longleftrightarrow> s \<in> set (refundMovesOf (ref_status r)) \<and> q = r\<lparr>ref_status := s\<rparr>"
  by (auto simp: refundMoveTo_def)

lemmas refund_moves = refundMoveTo_Inr_iff Settle_def refund_AwaitFinality_def refund_Expire_def

lemma ParseRefundID_Inr_iff: "ParseRefundID s = Inr t \<longleftrightarrow> t = s \<and> hexOfLength s 32 = Inr ()"
  by (auto simp: ParseRefundID_def split: sum.splits)

lemma ParseRefundID_same: "ParseRefundID s = Inr t \<Longrightarrow> t = s"
  by (simp add: ParseRefundID_Inr_iff)

lemma newRefundProblems_Nil_iff:
  "newRefundProblems p i r = [] \<longleftrightarrow>
     pay_status p = Succeeded \<and> money_IsSet (rr_amount r) \<and> Amount (rr_amount r) \<noteq> 0
     \<and> Same (mo_asset (rr_amount r)) (mo_asset (pay_amount p))
     \<and> ParseAddress (rr_destination r) = Inr (rr_destination r)
     \<and> token_IsSet (rr_token r) \<and> ParseRefundID i = Inr i"
  by (cases "ParseRefundID i"; cases "ParseAddress (rr_destination r)")
    (auto simp: newRefundProblems_def dest: ParseAddress_same ParseRefundID_same)

lemma NewRefund_Inr_iff:
  "NewRefund kb po i r now = Inr q \<longleftrightarrow>
     (\<exists>p key. po = Some p \<and> newRefundProblems p i r = [] \<and> newKey kb = Some key
        \<and> q = \<lparr>ref_id = i, ref_paymentID = pay_id p, ref_amount = rr_amount r,
               ref_destination = rr_destination r, ref_scheme = EIP3009,
               ref_network = as_network (mo_asset (pay_amount p)), ref_key = key,
               ref_expiresAt = truncateTime (now + RefundLife) Microsecond,
               ref_status = RefundCreated, ref_token = rr_token r, ref_idempotency = rr_idempotency r,
               ref_createdAt = truncateTime now Microsecond, ref_closedAt = 0\<rparr>)"
  by (auto simp: NewRefund_def res_simps)

lemma RestoreRefund_Inr_iff:
  "RestoreRefund s = Inr r \<longleftrightarrow> r = s \<and> refund_Valid (ref_status s) \<and> money_IsSet (ref_amount s)
     \<and> Amount (ref_amount s) \<noteq> 0 \<and> ParseAddress (ref_destination s) = Inr (ref_destination s)"
  by (cases "ParseAddress (ref_destination s)")
    (auto simp: RestoreRefund_def restoreRefundProblems_def dest: ParseAddress_same)

lemma refund_Valid_iff: "refund_Valid s \<longleftrightarrow> (\<forall>x. s \<noteq> OtherRefundStatus x)"
  by (cases s) (auto simp: refund_Valid_def)

end
