(* ===== verification/Evidence.thy ===== *)
theory Evidence
  imports Refund
begin

text \<open>
  Package payment, evidence.go and the values of repository.go: transfers as a chain wrote them, the
  rules that judge one against an attempt (\<open>Judge\<close>) or a refund (\<open>JudgeRefund\<close>), the gate before a
  row (\<open>screen\<close>), and the records a round passes around.
\<close>

record transfer =
  tr_scheme :: string
  tr_asset :: string
  tr_key :: string
  tr_authorizer :: string
  tr_from :: string
  tr_to :: string
  tr_value :: string
  tr_tx :: string
  tr_position :: int
  tr_blockHeight :: uint64
  tr_blockHash :: string
  tr_blockTime :: gotime

datatype reason = Matched | WrongAsset | WrongTo | Short | Late | Vanished | WrongFrom | Over

fun reason_String :: "reason \<Rightarrow> string" where
  "reason_String Matched = ''matched''"
| "reason_String WrongAsset = ''wrong_asset''"
| "reason_String WrongTo = ''wrong_to''"
| "reason_String Short = ''short''"
| "reason_String Late = ''late''"
| "reason_String Vanished = ''vanished''"
| "reason_String WrongFrom = ''wrong_from''"
| "reason_String Over = ''over''"

text \<open>\<open>None\<close> is the false the code answers for a transfer that is not the attempt's at all.\<close>

definition Judge :: "transfer \<Rightarrow> attempt option \<Rightarrow> payment option \<Rightarrow> reason option" where
  "Judge t ao po =
     (case (ao, po) of
        (Some a, Some p) \<Rightarrow>
          if tr_key t \<noteq> att_key a \<or> tr_scheme t \<noteq> att_scheme a
             \<or> att_network a \<noteq> as_network (mo_asset (pay_amount p)) then None
          else if tr_asset t \<noteq> as_reference (mo_asset (pay_amount p)) then Some WrongAsset
          else if tr_to t \<noteq> pay_destination p then Some WrongTo
          else (case ParseMoney (mo_asset (pay_amount p)) (tr_value t) of
                  Inl _ \<Rightarrow> Some Short
                | Inr paid \<Rightarrow>
                    (case Cmp paid (pay_amount p) of
                       Inl _ \<Rightarrow> Some Short
                     | Inr short \<Rightarrow>
                         if short < 0 then Some Short
                         else if \<not> tr_blockTime t < att_validBefore a then Some Late
                         else if \<not> CanReceive p then Some Late
                         else Some Matched))
      | _ \<Rightarrow> None)"

definition JudgeRefund :: "transfer \<Rightarrow> refund option \<Rightarrow> payment option \<Rightarrow> reason option" where
  "JudgeRefund t ro po =
     (case (ro, po) of
        (Some r, Some p) \<Rightarrow>
          if tr_key t \<noteq> ref_key r \<or> tr_scheme t \<noteq> ref_scheme r
             \<or> ref_network r \<noteq> as_network (mo_asset (pay_amount p)) then None
          else if tr_asset t \<noteq> as_reference (mo_asset (pay_amount p)) then Some WrongAsset
          else if tr_to t \<noteq> ref_destination r then Some WrongTo
          else if tr_from t \<noteq> pay_destination p then Some WrongFrom
          else (case ParseMoney (mo_asset (pay_amount p)) (tr_value t) of
                  Inl _ \<Rightarrow> Some Short
                | Inr sent \<Rightarrow>
                    (case Cmp sent (ref_amount r) of
                       Inl _ \<Rightarrow> Some Short
                     | Inr against \<Rightarrow>
                         if against < 0 then Some Short
                         else if against > 0 then Some Over
                         else if \<not> tr_blockTime t < ref_expiresAt r then Some Late
                         else Some Matched))
      | _ \<Rightarrow> None)"

section \<open>Records a round passes around\<close>

text \<open>A row as it stood when it was read: the identifier it was read under, and its version.\<close>

record revision =
  rev_id :: string
  rev_at :: int

record hit =
  hit_account :: string
  hit_attempt :: attempt
  hit_attemptAt :: revision
  hit_payment :: payment
  hit_paymentAt :: revision

record seen =
  seen_hit :: hit
  seen_transfer :: transfer
  seen_reason :: reason
  seen_implementation :: string

record refund_hit =
  rhit_account :: string
  rhit_refund :: refund
  rhit_refundAt :: revision
  rhit_payment :: payment
  rhit_paymentAt :: revision

record seen_refund =
  sref_hit :: refund_hit
  sref_transfer :: transfer
  sref_reason :: reason
  sref_implementation :: string

record candidate =
  cand_account :: string
  cand_payment :: payment
  cand_paymentAt :: revision
  cand_key :: string
  cand_tx :: string
  cand_blockHeight :: uint64
  cand_blockHash :: string

section \<open>The gate before a row\<close>

definition MaxTransferField :: nat where "MaxTransferField = 256"

datatype screen_error = NoBlockTime string | FieldTooLong string string nat | FieldInvisible string string

definition transferFields :: "transfer \<Rightarrow> (string \<times> string) list" where
  "transferFields t =
     [(''asset'', tr_asset t), (''key'', tr_key t), (''authorizer'', tr_authorizer t),
      (''from'', tr_from t), (''to'', tr_to t), (''value'', tr_value t), (''tx'', tr_tx t),
      (''block hash'', tr_blockHash t), (''scheme'', tr_scheme t)]"

text \<open>The loop over the fields, stopping at the first that is refused.\<close>

fun screenFields :: "string \<Rightarrow> (string \<times> string) list \<Rightarrow> screen_error option" where
  "screenFields tx [] = None"
| "screenFields tx ((name, val) # fs) =
     (if length val > MaxTransferField then Some (FieldTooLong tx name (length val))
      else if invisible_Has val then Some (FieldInvisible tx name)
      else screenFields tx fs)"

definition screen :: "transfer \<Rightarrow> screen_error option" where
  "screen t =
     (if isZeroTime (tr_blockTime t) then Some (NoBlockTime (tr_tx t))
      else screenFields (tr_tx t) (transferFields t))"

lemma screenFields_None_iff:
  "screenFields tx fs = None \<longleftrightarrow> (\<forall>(n, v)\<in>set fs. length v \<le> MaxTransferField \<and> \<not> invisible_Has v)"
  by (induction tx fs rule: screenFields.induct) auto

lemma screen_None_iff:
  "screen t = None \<longleftrightarrow> tr_blockTime t \<noteq> 0
     \<and> (\<forall>(n, v)\<in>set (transferFields t). length v \<le> MaxTransferField \<and> \<not> invisible_Has v)"
  by (simp add: screen_def screenFields_None_iff isZeroTime_def)

section \<open>What a matched transfer is\<close>

text \<open>The decimal digits of a transfer, read in the payment's asset.\<close>

definition carries :: "transfer \<Rightarrow> asset \<Rightarrow> int \<Rightarrow> bool" where
  "carries t a v = (length (tr_value t) \<le> MaxAmountDigits \<and> setString (tr_value t) = Some v \<and> 0 \<le> v)"

lemma ParseMoney_carries:
  "asset_IsSet a \<Longrightarrow> ParseMoney a (tr_value t) = Inr m \<longleftrightarrow>
     (\<exists>v. carries t a v \<and> m = \<lparr>mo_amount = Some v, mo_asset = a\<rparr>)"
  by (auto simp: ParseMoney_Inr_iff carries_def)

lemma Judge_Matched_iff:
  assumes "money_ok (pay_amount p)"
  shows "Judge t (Some a) (Some p) = Some Matched \<longleftrightarrow>
    tr_key t = att_key a \<and> tr_scheme t = att_scheme a
    \<and> att_network a = as_network (mo_asset (pay_amount p))
    \<and> tr_asset t = as_reference (mo_asset (pay_amount p)) \<and> tr_to t = pay_destination p
    \<and> (\<exists>v\<ge>Amount (pay_amount p). carries t (mo_asset (pay_amount p)) v)
    \<and> tr_blockTime t < att_validBefore a \<and> CanReceive p"
proof -
  have s: "asset_IsSet (mo_asset (pay_amount p))" "money_IsSet (pay_amount p)"
    using assms by (auto simp: money_ok_def money_IsSet_def)
  show ?thesis
  proof (cases "ParseMoney (mo_asset (pay_amount p)) (tr_value t)")
    case (Inl e)
    then have "\<not> (\<exists>v. carries t (mo_asset (pay_amount p)) v)"
      using ParseMoney_carries [OF s(1), of t] by (metis Inl_Inr_False)
    with Inl show ?thesis by (auto simp: Judge_def)
  next
    case (Inr m)
    then obtain v where v: "carries t (mo_asset (pay_amount p)) v"
        "m = \<lparr>mo_amount = Some v, mo_asset = mo_asset (pay_amount p)\<rparr>"
      using ParseMoney_carries [OF s(1)] by blast
    have u: "carries t (mo_asset (pay_amount p)) w \<longleftrightarrow> w = v" for w
      using v(1) by (auto simp: carries_def)
    have m: "money_IsSet m" "mo_asset m = mo_asset (pay_amount p)" "Amount m = v"
      using s by (simp_all add: v(2) money_IsSet_def Amount_def)
    have "Cmp m (pay_amount p) = Inr (sgn (v - Amount (pay_amount p)))"
      using Cmp_same_asset [OF m(1) s(2) m(2)] m(3) by simp
    with Inr show ?thesis by (auto simp: Judge_def u sgn_if)
  qed
qed

lemma JudgeRefund_Matched_iff:
  assumes "asset_IsSet (mo_asset (pay_amount p))" "money_IsSet (ref_amount r)"
  shows "JudgeRefund t (Some r) (Some p) = Some Matched \<longleftrightarrow>
    tr_key t = ref_key r \<and> tr_scheme t = ref_scheme r
    \<and> ref_network r = as_network (mo_asset (pay_amount p))
    \<and> tr_asset t = as_reference (mo_asset (pay_amount p)) \<and> tr_to t = ref_destination r
    \<and> tr_from t = pay_destination p
    \<and> carries t (mo_asset (pay_amount p)) (Amount (ref_amount r))
    \<and> Same (mo_asset (pay_amount p)) (mo_asset (ref_amount r))
    \<and> as_decimals (mo_asset (pay_amount p)) = as_decimals (mo_asset (ref_amount r))
    \<and> tr_blockTime t < ref_expiresAt r"
proof (cases "ParseMoney (mo_asset (pay_amount p)) (tr_value t)")
  case (Inl e)
  then have "\<not> (\<exists>v. carries t (mo_asset (pay_amount p)) v)"
    using ParseMoney_carries [OF assms(1), of t] by (metis Inl_Inr_False)
  with Inl show ?thesis by (auto simp: JudgeRefund_def)
next
  case (Inr m)
  then obtain v where v: "carries t (mo_asset (pay_amount p)) v"
      "m = \<lparr>mo_amount = Some v, mo_asset = mo_asset (pay_amount p)\<rparr>"
    using ParseMoney_carries [OF assms(1)] by blast
  have u: "carries t (mo_asset (pay_amount p)) w \<longleftrightarrow> w = v" for w
    using v(1) by (auto simp: carries_def)
  have m: "money_IsSet m" "mo_asset m = mo_asset (pay_amount p)" "Amount m = v"
    using assms by (simp_all add: v(2) money_IsSet_def Amount_def)
  have c: "comparable m (ref_amount r) = None \<longleftrightarrow> Same (mo_asset (pay_amount p)) (mo_asset (ref_amount r))
      \<and> as_decimals (mo_asset (pay_amount p)) = as_decimals (mo_asset (ref_amount r))"
    using m assms by (auto simp: comparable_None_iff)
  show ?thesis
  proof (cases "comparable m (ref_amount r)")
    case None
    then show ?thesis using Inr c m by (auto simp: JudgeRefund_def Cmp_def u sgn_if)
  next
    case (Some e)
    then show ?thesis using Inr c by (auto simp: JudgeRefund_def Cmp_def)
  qed
qed

definition demo_transfer :: "string \<Rightarrow> transfer" where
  "demo_transfer v = \<lparr>tr_scheme = EIP3009, tr_asset = ''0xE7C3'', tr_key = hexEncode (replicate 32 3),
     tr_authorizer = ''0xB0B'', tr_from = ''0xB0B'', tr_to = ''0xA11CE'', tr_value = v, tr_tx = ''0xT1'',
     tr_position = 0, tr_blockHeight = 7, tr_blockHash = ''0xH7'', tr_blockTime = 500 * Second\<rparr>"

lemma demo_carries: "carries (demo_transfer ''150'') demo_asset 150"
  by (simp add: carries_def demo_transfer_def MaxAmountDigits_def setString_def isDigit_def
      undec_def digitVal_def)

lemma demo_asset_fields [simp]: "as_network demo_asset = ''polygon''" "as_reference demo_asset = ''0xE7C3''"
  by (simp_all add: demo_asset_def)

text \<open>A transfer judged matched pays. For a well-formed payment nothing has arrived for yet, a transfer
  \<open>Judge\<close> calls matched carries an amount the payment takes as its arrival, the payment then succeeds,
  and what it says arrived is that amount, at least what it asked for.\<close>

theorem judge_matched_pays:
  assumes "payment_wf p" "\<not> money_IsSet (pay_received p)" "Judge t (Some a) (Some p) = Some Matched"
  shows "\<exists>m q. ParseMoney (mo_asset (pay_amount p)) (tr_value t) = Inr m \<and> Receive p m = Inr q
    \<and> Succeed q = Inr (q\<lparr>pay_status := Succeeded\<rparr>)
    \<and> pay_received q = m \<and> Amount (pay_amount p) \<le> Amount m"
proof -
  have ok: "money_ok (pay_amount p)" using assms(1) by (simp add: payment_wf_def)
  then have s: "asset_IsSet (mo_asset (pay_amount p))" "money_IsSet (pay_amount p)"
    by (auto simp: money_ok_def money_IsSet_def)
  obtain v where v: "Amount (pay_amount p) \<le> v" "carries t (mo_asset (pay_amount p)) v"
    using assms(3) Judge_Matched_iff [OF ok] by blast
  let ?m = "\<lparr>mo_amount = Some v, mo_asset = mo_asset (pay_amount p)\<rparr>"
  have parse: "ParseMoney (mo_asset (pay_amount p)) (tr_value t) = Inr ?m"
    using ParseMoney_carries [OF s(1)] v(2) by blast
  have m: "money_IsSet ?m" "Amount ?m = v" "comparable ?m (pay_amount p) = None"
    using s by (auto simp: money_IsSet_def Amount_def comparable_None_iff Same_refl_iff)
  have can: "CanReceive p" using assms(3) Judge_Matched_iff [OF ok] by blast
  then have "Receive p ?m = Inr (p\<lparr>pay_received := ?m\<rparr>)"
    using m assms(2) by (simp add: payment_moves)
  moreover have "Succeed (p\<lparr>pay_received := ?m\<rparr>) = Inr (p\<lparr>pay_received := ?m, pay_status := Succeeded\<rparr>)"
    using can m v(1) by (simp add: payment_moves CanReceive_def covered_None_iff CanBecome_Succeeded)
  ultimately show ?thesis using parse m v(1) by (intro exI [of _ ?m] exI) auto
qed

theorem judge_matched_pays_witness:
  "Judge (demo_transfer ''150'') (Some (demo_attempt Issued [])) (Some (demo_payment AwaitingPayment noMoney)) = Some Matched
   \<and> (\<exists>q. Receive (demo_payment AwaitingPayment noMoney) (demo_money 150) = Inr q \<and> isOk (Succeed q))"
proof -
  let ?t = "demo_transfer ''150''" and ?a = "demo_attempt Issued []" and ?p = "demo_payment AwaitingPayment noMoney"
  have ok: "money_ok (pay_amount ?p)" and a: "pay_amount ?p = demo_money 100" by (simp_all add: demo_payment_def)
  have j: "Judge ?t (Some ?a) (Some ?p) = Some Matched"
    unfolding Judge_Matched_iff [OF ok] a
    by (auto intro!: exI [of _ 150] demo_carries simp: demo_attempt_def demo_payment_def CanReceive_def)
      (simp_all add: demo_transfer_def)
  have "ParseMoney demo_asset (tr_value ?t) = Inr (demo_money 150)"
    using ParseMoney_carries [of demo_asset ?t] demo_carries by (auto simp: demo_money_def)
  then show ?thesis
    using j judge_matched_pays [OF demo_payment_wf _ j] by (auto simp: a) (auto simp: demo_payment_def)
qed

definition demo_refund :: "refund_status \<Rightarrow> int \<Rightarrow> refund" where
  "demo_refund st n = \<lparr>ref_id = hexEncode (replicate 16 5), ref_paymentID = demo_id, ref_amount = demo_money n,
     ref_destination = ''0xB0B'', ref_scheme = EIP3009, ref_network = ''polygon'',
     ref_key = hexEncode (replicate 32 6), ref_expiresAt = 3000 * Second, ref_status = st,
     ref_token = \<lparr>pt_hash = ''h'', pt_keyID = ''k''\<rparr>, ref_idempotency = \<lparr>idem_key = [], idem_bodyHash = []\<rparr>,
     ref_createdAt = 1200 * Second, ref_closedAt = 0\<rparr>"

text \<open>A refund is matched only by the very transfer the merchant signed for: its key, on the asset's own
  contract, out of the wallet the payment was paid to, to the refund's destination, of exactly the
  refund's amount in a token described as the payment's is, in a block before the refund's deadline; and
  every such transfer matches.\<close>

theorem judge_refund_exact:
  assumes "money_ok (pay_amount p)" "money_IsSet (ref_amount r)"
  shows "JudgeRefund t (Some r) (Some p) = Some Matched \<longleftrightarrow>
    tr_key t = ref_key r \<and> tr_scheme t = ref_scheme r
    \<and> ref_network r = as_network (mo_asset (pay_amount p))
    \<and> tr_asset t = as_reference (mo_asset (pay_amount p)) \<and> tr_to t = ref_destination r
    \<and> tr_from t = pay_destination p
    \<and> length (tr_value t) \<le> 78 \<and> setString (tr_value t) = Some (Amount (ref_amount r))
    \<and> 0 \<le> Amount (ref_amount r)
    \<and> Same (mo_asset (pay_amount p)) (mo_asset (ref_amount r))
    \<and> as_decimals (mo_asset (pay_amount p)) = as_decimals (mo_asset (ref_amount r))
    \<and> tr_blockTime t < ref_expiresAt r"
  using JudgeRefund_Matched_iff [of p r t] assms
  by (auto simp: carries_def MaxAmountDigits_def money_ok_def money_IsSet_def)

definition demo_sent :: "string \<Rightarrow> transfer" where
  "demo_sent v = (demo_transfer v)\<lparr>tr_key := hexEncode (replicate 32 6), tr_from := ''0xA11CE'', tr_to := ''0xB0B''\<rparr>"

theorem judge_refund_exact_witness:
  "JudgeRefund (demo_sent ''40'') (Some (demo_refund RefundCreated 40)) (Some (demo_payment Succeeded (demo_money 100))) = Some Matched
   \<and> JudgeRefund (demo_sent ''40'') (Some (demo_refund RefundCreated 39)) (Some (demo_payment Succeeded (demo_money 100))) \<noteq> Some Matched"
proof -
  have v: "setString ''40'' = Some 40"
    by (simp add: setString_def isDigit_def undec_def digitVal_def)
  let ?p = "demo_payment Succeeded (demo_money 100)"
  have p: "money_ok (pay_amount ?p)" by (simp add: demo_payment_def)
  have r: "money_IsSet (ref_amount (demo_refund RefundCreated n))" for n by (simp add: demo_refund_def)
  show ?thesis
    using judge_refund_exact [OF p r, of "demo_sent ''40''" 40] judge_refund_exact [OF p r, of "demo_sent ''40''" 39] v
    by (simp add: demo_refund_def demo_payment_def demo_sent_def demo_transfer_def Same_refl_iff)
qed

end
