(* ===== verification/Json.thy ===== *)
theory Json
  imports GoText
begin

text \<open>
  What the program uses of \<open>encoding/json\<close> and of \<open>time\<close>'s formatting. A struct handed to the
  encoder is a value of \<open>json\<close> with its fields in order; \<open>encode\<close> is the text the encoder
  writes with \<open>SetEscapeHTML(false)\<close>; \<open>json_Valid\<close> is \<open>json.Valid\<close>.
\<close>

datatype json = JNull | JStr string | JNum nat | JObj "(string \<times> json) list"

section \<open>Strings\<close>

definition hex2 :: "nat \<Rightarrow> string" where
  "hex2 b = [hexDigit (b div 16), hexDigit (b mod 16)]"

definition escByte :: "nat \<Rightarrow> string" where
  "escByte b =
     (if b = 0x22 then [CHR 0x5C, CHR 0x22]
      else if b = 0x5C then [CHR 0x5C, CHR 0x5C]
      else if b = 8 then [CHR 0x5C, CHR ''b'']
      else if b = 12 then [CHR 0x5C, CHR ''f'']
      else if b = 10 then [CHR 0x5C, CHR ''n'']
      else if b = 13 then [CHR 0x5C, CHR ''r'']
      else if b = 9 then [CHR 0x5C, CHR ''t'']
      else if b < 0x20 then CHR 0x5C # ''u00'' @ hex2 b
      else [char_of b])"

text \<open>Bytes that are not UTF-8 are written as the escape of the error rune, one at a time.\<close>

function escBytes :: "nat list \<Rightarrow> string" where
  "escBytes [] = []"
| "escBytes (b # bs) =
     (if b < 0x80 then escByte b @ escBytes bs
      else let (r, n) = decodeRune (b # bs) in
           (if r = RuneError \<and> n = 1 then CHR 0x5C # ''ufffd''
            else if r = 0x2028 then CHR 0x5C # ''u2028''
            else if r = 0x2029 then CHR 0x5C # ''u2029''
            else map char_of (take n (b # bs)))
           @ escBytes (drop (n - 1) bs))"
  by pat_completeness auto
termination by (relation "measure length") auto

definition quoteJson :: "string \<Rightarrow> string" where
  "quoteJson s = CHR 0x22 # escBytes (bytesOf s) @ [CHR 0x22]"

fun intercalate :: "string \<Rightarrow> string list \<Rightarrow> string" where
  "intercalate sep [] = []"
| "intercalate sep [x] = x"
| "intercalate sep (x # xs) = x @ sep @ intercalate sep xs"

fun encode :: "json \<Rightarrow> string" where
  "encode JNull = ''null''"
| "encode (JStr s) = quoteJson s"
| "encode (JNum n) = dec n"
| "encode (JObj kvs) =
     CHR ''{'' # intercalate '','' (map (\<lambda>(k, v). quoteJson k @ '':'' @ encode v) kvs) @ ''}''"

section \<open>json.Valid\<close>

text \<open>
  A recogniser: each function reads one construct off the front and hands back the rest. The
  fuel bounds the calls; \<open>json_Valid\<close> gives more of it than a text has characters to read.
\<close>

definition isSpace :: "char \<Rightarrow> bool" where
  "isSpace c = (c = CHR '' '' \<or> c = CHR 0x09 \<or> c = CHR 0x0A \<or> c = CHR 0x0D)"

definition skipWs :: "string \<Rightarrow> string" where
  "skipWs s = dropWhile isSpace s"

text \<open>The body of a string, after its opening quote.\<close>

fun strBody :: "string \<Rightarrow> string option" where
  "strBody [] = None"
| "strBody (c # cs) =
     (if c = CHR 0x22 then Some cs
      else if (of_char c :: nat) < 0x20 then None
      else if c = CHR 0x5C then
        (case cs of
           [] \<Rightarrow> None
         | e # ds \<Rightarrow>
             if e = CHR ''u'' then
               (case ds of
                  h1 # h2 # h3 # h4 # rest \<Rightarrow>
                    if isHexDigit h1 \<and> isHexDigit h2 \<and> isHexDigit h3 \<and> isHexDigit h4
                    then strBody rest else None
                | _ \<Rightarrow> None)
             else if e \<in> set (CHR 0x22 # CHR 0x5C # ''/bfnrt'') then strBody ds
             else None)
      else strBody cs)"

definition jnumber :: "string \<Rightarrow> string option" where
  "jnumber s0 =
     (let s1 = (if take 1 s0 = ''-'' then drop 1 s0 else s0);
          ds = takeWhile isDigit s1; s2 = dropWhile isDigit s1 in
      if ds = [] \<or> (hd ds = CHR ''0'' \<and> length ds > 1) then None
      else (case (if take 1 s2 = ''.''
                  then (if takeWhile isDigit (drop 1 s2) = [] then None
                        else Some (dropWhile isDigit (drop 1 s2)))
                  else Some s2) of
              None \<Rightarrow> None
            | Some s3 \<Rightarrow>
                if take 1 s3 = ''e'' \<or> take 1 s3 = ''E''
                then (let s4 = drop 1 s3;
                          s5 = (if take 1 s4 = ''+'' \<or> take 1 s4 = ''-'' then drop 1 s4 else s4) in
                      if takeWhile isDigit s5 = [] then None else Some (dropWhile isDigit s5))
                else Some s3))"

fun jval :: "nat \<Rightarrow> string \<Rightarrow> string option"
  and jmembers :: "nat \<Rightarrow> string \<Rightarrow> string option"
  and jelems :: "nat \<Rightarrow> string \<Rightarrow> string option" where
  "jval 0 s = None"
| "jval (Suc n) s =
     (case skipWs s of
        [] \<Rightarrow> None
      | c # cs \<Rightarrow>
          if c = CHR 0x22 then strBody cs
          else if c = CHR ''{'' then
            (case skipWs cs of
               [] \<Rightarrow> None
             | d # ds \<Rightarrow> if d = CHR ''}'' then Some ds else jmembers n (d # ds))
          else if c = CHR ''['' then
            (case skipWs cs of
               [] \<Rightarrow> None
             | d # ds \<Rightarrow> if d = CHR '']'' then Some ds else jelems n (d # ds))
          else if take 4 (c # cs) = ''null'' then Some (drop 4 (c # cs))
          else if take 4 (c # cs) = ''true'' then Some (drop 4 (c # cs))
          else if take 5 (c # cs) = ''false'' then Some (drop 5 (c # cs))
          else jnumber (c # cs))"
| "jmembers 0 s = None"
| "jmembers (Suc n) s =
     (case skipWs s of
        [] \<Rightarrow> None
      | c # cs \<Rightarrow>
          if c \<noteq> CHR 0x22 then None
          else case strBody cs of
                 None \<Rightarrow> None
               | Some t \<Rightarrow>
                   (case skipWs t of
                      [] \<Rightarrow> None
                    | d # ds \<Rightarrow>
                        if d \<noteq> CHR '':'' then None
                        else case jval n ds of
                               None \<Rightarrow> None
                             | Some u \<Rightarrow>
                                 (case skipWs u of
                                    [] \<Rightarrow> None
                                  | e # es \<Rightarrow>
                                      if e = CHR ''}'' then Some es
                                      else if e = CHR '','' then jmembers n es
                                      else None)))"
| "jelems 0 s = None"
| "jelems (Suc n) s =
     (case jval n s of
        None \<Rightarrow> None
      | Some u \<Rightarrow>
          (case skipWs u of
             [] \<Rightarrow> None
           | e # es \<Rightarrow>
               if e = CHR '']'' then Some es
               else if e = CHR '','' then jelems n es
               else None))"

definition json_Valid :: "string \<Rightarrow> bool" where
  "json_Valid s = (case jval (2 * length s + 2) s of None \<Rightarrow> False | Some rest \<Rightarrow> skipWs rest = [])"

section \<open>What the encoder writes is JSON\<close>

lemma char_of_lit_neq: "(of_char c :: nat) \<ge> 0x80 \<Longrightarrow> c \<noteq> CHR 0x22 \<and> c \<noteq> CHR 0x5C \<and> \<not> (of_char c :: nat) < 0x20"
  by auto

lemma strBody_high:
  "\<forall>c\<in>set xs. 0x80 \<le> (of_char c :: nat) \<Longrightarrow> strBody (xs @ ys) = strBody ys"
  by (induction xs) (auto dest: char_of_lit_neq)

lemma hexDigits_isHex [simp]: "d < 16 \<Longrightarrow> isHexDigit (hexDigit d)"
  using hexDigit_lower by blast

lemma of_char_char_of [simp]: "b < 256 \<Longrightarrow> (of_char (char_of b) :: nat) = b"
  by simp

lemma char_of_eq_lit: "b < 256 \<Longrightarrow> char_of b = c \<longleftrightarrow> b = (of_char c :: nat)"
  by auto

lemma isHexDigit_lits [simp]: "isHexDigit CHR ''0''" "isHexDigit CHR ''2''" "isHexDigit CHR ''8''"
  "isHexDigit CHR ''9''" "isHexDigit CHR ''d''" "isHexDigit CHR ''f''"
  by (simp_all add: isHexDigit_def isDigit_def)

lemma strBody_escByte: "b < 0x80 \<Longrightarrow> strBody (escByte b @ ys) = strBody ys"
  by (auto simp: escByte_def hex2_def char_of_eq_lit less_mult_imp_div_less)

lemma decodeRune_high:
  assumes "decodeRune (b # bs) = (r, n)" "0x80 \<le> b"
  shows "(r = RuneError \<and> n = 1) \<or> (\<forall>x\<in>set (take n (b # bs)). 0x80 \<le> x)"
  using assms by (auto simp: cont_def split: if_splits list.splits)

lemma escBytes_strBody:
  "\<forall>b\<in>set bs. b < 256 \<Longrightarrow> strBody (escBytes bs @ CHR 0x22 # rest) = Some rest"
proof (induction bs rule: escBytes.induct)
  case (2 b bs)
  show ?case
  proof (cases "b < 0x80")
    case True
    with 2 show ?thesis by (simp add: strBody_escByte)
  next
    case False
    obtain r n where d: "decodeRune (b # bs) = (r, n)" by fastforce
    have IH: "strBody (escBytes (drop (n - 1) bs) @ CHR 0x22 # rest) = Some rest"
      using 2(2) [OF False d [symmetric] refl] 2(3) by (auto dest: in_set_dropD)
    have esc: "strBody (CHR 0x5C # ''ufffd'' @ xs) = strBody xs" "strBody (CHR 0x5C # ''u2028'' @ xs) = strBody xs"
      "strBody (CHR 0x5C # ''u2029'' @ xs) = strBody xs" for xs
      by simp_all
    have small: "\<forall>x\<in>set (take n (b # bs)). x < 256"
      using 2(3) by (meson in_set_takeD)
    have high: "r = RuneError \<and> n = 1 \<or> (\<forall>c\<in>set (map char_of (take n (b # bs))). 0x80 \<le> (of_char (c :: char) :: nat))"
      using decodeRune_high [OF d] False small by (auto simp del: take.simps take_Cons')
    show ?thesis
    proof (cases "r = RuneError \<and> n = 1")
      case True
      then show ?thesis using False d IH esc by simp
    next
      case nerr: False
      then have h: "\<forall>c\<in>set (map char_of (take n (b # bs))). 0x80 \<le> (of_char (c :: char) :: nat)"
        using high by blast
      show ?thesis
        using False d IH esc nerr strBody_high [OF h] by (auto simp del: set_map take.simps)
    qed
  qed
qed simp

lemma strBody_quoteJson: "quoteJson k @ rest = CHR 0x22 # escBytes (bytesOf k) @ CHR 0x22 # rest
    \<and> strBody (escBytes (bytesOf k) @ CHR 0x22 # rest) = Some rest"
  using escBytes_strBody [of "bytesOf k" rest] by (simp add: quoteJson_def bytesOf_def)

lemma skipWs_quote [simp]: "skipWs (CHR 0x22 # xs) = CHR 0x22 # xs"
  "skipWs (CHR '','' # xs) = CHR '','' # xs" "skipWs (CHR '':'' # xs) = CHR '':'' # xs"
  "skipWs (CHR ''}'' # xs) = CHR ''}'' # xs" "skipWs (CHR ''{'' # xs) = CHR ''{'' # xs"
  "skipWs (CHR ''n'' # xs) = CHR ''n'' # xs" "skipWs [] = []"
  by (simp_all add: skipWs_def isSpace_def)

definition members :: "(string \<times> json) list \<Rightarrow> string" where
  "members kvs = intercalate '','' (map (\<lambda>(k, v). quoteJson k @ '':'' @ encode v) kvs)"

lemma members_simps:
  "members [(k, v)] = quoteJson k @ '':'' @ encode v"
  "members ((k, v) # kv # kvs) = quoteJson k @ '':'' @ encode v @ '','' @ members (kv # kvs)"
  by (auto simp: members_def split: prod.splits)

lemma members_start: "kvs \<noteq> [] \<Longrightarrow> \<exists>t. members kvs = CHR 0x22 # t"
  by (cases kvs rule: remdups_adj.cases) (auto simp: members_simps quoteJson_def)

text \<open>What may follow a value inside an object, or nothing.\<close>

definition followed :: "string \<Rightarrow> bool" where
  "followed rest = (rest = [] \<or> hd rest = CHR '','' \<or> hd rest = CHR ''}'')"

lemma followed_no_digit: "followed rest \<Longrightarrow> takeWhile isDigit rest = [] \<and> dropWhile isDigit rest = rest"
  by (cases rest) (auto simp: followed_def isDigit_def)

lemma dec_no_leading_zero: "10 \<le> n \<Longrightarrow> hd (dec n) \<noteq> CHR ''0''"
proof (induction n rule: dec.induct)
  case (1 n)
  have "dec n = dec (n div 10) @ [digitChar (n mod 10)]" using 1 by (simp add: dec.simps [of n])
  moreover have "hd (dec (n div 10)) \<noteq> CHR ''0''"
  proof (cases "10 \<le> n div 10")
    case False
    moreover have "0 < n div 10" using 1 by (simp add: div_greater_zero_iff)
    moreover have "0 < m \<Longrightarrow> m < 10 \<Longrightarrow> m \<in> {1, 2, 3, 4, 5, 6, 7, 8, 9}" for m :: nat by auto
    ultimately have "n div 10 \<in> {1, 2, 3, 4, 5, 6, 7, 8, 9}" by (meson not_le)
    then show ?thesis by (auto simp: dec.simps [of "n div 10"])
  qed (use 1 in auto)
  ultimately show ?case by simp
qed

lemma jnumber_dec: "followed rest \<Longrightarrow> jnumber (dec n @ rest) = Some rest"
proof -
  assume f: "followed rest"
  have d: "list_all isDigit (dec n)" by (rule dec_digits)
  obtain c cs where c: "dec n = c # cs" by (cases "dec n") auto
  have "takeWhile isDigit (dec n @ rest) = dec n" "dropWhile isDigit (dec n @ rest) = rest"
    using d followed_no_digit [OF f] by (simp_all add: list_all_iff takeWhile_append dropWhile_append)
  moreover have "take 1 (dec n @ rest) \<noteq> ''-''" using dec_head_digit [OF c] c by simp
  moreover have "\<not> (hd (dec n) = CHR ''0'' \<and> length (dec n) > 1)"
    using dec_no_leading_zero [of n] by (cases "10 \<le> n") (auto simp: dec.simps [of n])
  moreover have "take 1 rest \<noteq> ''.''" "take 1 rest \<noteq> ''e''" "take 1 rest \<noteq> ''E''"
    using f by (cases rest; auto simp: followed_def)+
  ultimately show ?thesis by (simp add: jnumber_def Let_def)
qed

lemma jval_number:
  assumes "followed rest"
  shows "jval (Suc n) (dec k @ rest) = Some rest"
proof -
  obtain c cs where c: "dec k = c # cs" by (cases "dec k") auto
  then have "isDigit c" using dec_digits [of k] by simp
  then have "skipWs (c # xs) = c # xs" "c \<noteq> CHR 0x22" "c \<noteq> CHR ''{''" "c \<noteq> CHR ''[''" "c \<noteq> CHR ''n''"
    "c \<noteq> CHR ''t''" "c \<noteq> CHR ''f''" for xs
    by (auto simp: skipWs_def isSpace_def isDigit_iff)
  then show ?thesis using jnumber_dec [OF assms, of k] by (simp add: c)
qed

lemma jval_encode:
  "(\<forall>v rest. followed rest \<longrightarrow> length (encode v) < n \<longrightarrow> jval n (encode v @ rest) = Some rest)
   \<and> (\<forall>kvs rest. kvs \<noteq> [] \<longrightarrow> length (members kvs) < n \<longrightarrow> jmembers n (members kvs @ CHR ''}'' # rest) = Some rest)"
proof (induction n)
  case (Suc n)
  have V: "jval n (encode v @ rest) = Some rest" if "followed rest" "length (encode v) < n" for v rest
    using Suc that by blast
  have M: "jmembers n (members kvs @ CHR ''}'' # rest) = Some rest"
    if "kvs \<noteq> []" "length (members kvs) < n" for kvs rest using Suc that by blast
  have "jval (Suc n) (encode v @ rest) = Some rest"
    if f: "followed rest" and l: "length (encode v) < Suc n" for v rest
  proof (cases v)
    case (JObj kvs)
    then have e: "encode v @ rest = CHR ''{'' # members kvs @ CHR ''}'' # rest" by (simp add: members_def)
    show ?thesis
    proof (cases "kvs = []")
      case True
      then show ?thesis by (simp add: e members_def)
    next
      case False
      then obtain t where "members kvs = CHR 0x22 # t" using members_start by blast
      moreover have "jmembers n (members kvs @ CHR ''}'' # rest) = Some rest"
        using False l JObj by (intro M) (auto simp: members_def)
      ultimately show ?thesis by (simp add: e)
    qed
  next
    case (JStr s)
    then show ?thesis using strBody_quoteJson [of s rest] by simp
  qed (use f jval_number in \<open>simp_all\<close>)
  moreover have "jmembers (Suc n) (members kvs @ CHR ''}'' # rest) = Some rest"
    if k: "kvs \<noteq> []" and l: "length (members kvs) < Suc n" for kvs rest
  proof -
    obtain k v tl where kvs: "kvs = (k, v) # tl" using k by (cases kvs) auto
    show ?thesis
    proof (cases tl)
      case Nil
      have "jval n (encode v @ CHR ''}'' # rest) = Some (CHR ''}'' # rest)"
        using l by (intro V) (auto simp: followed_def kvs Nil members_simps quoteJson_def)
      then show ?thesis
        using strBody_quoteJson [of k "CHR '':'' # encode v @ CHR ''}'' # rest"] by (simp add: kvs Nil members_simps)
    next
      case (Cons kv tl')
      have "jval n (encode v @ CHR '','' # members tl @ CHR ''}'' # rest)
          = Some (CHR '','' # members tl @ CHR ''}'' # rest)"
        using l by (intro V) (auto simp: followed_def kvs Cons members_simps quoteJson_def)
      moreover have "jmembers n (members tl @ CHR ''}'' # rest) = Some rest"
        using l Cons by (intro M) (auto simp: kvs members_simps quoteJson_def)
      ultimately show ?thesis
        using strBody_quoteJson [of k "CHR '':'' # encode v @ CHR '','' # members tl @ CHR ''}'' # rest"]
        by (simp add: kvs Cons members_simps)
    qed
  qed
  ultimately show ?case by blast
qed simp

lemma json_Valid_encode: "json_Valid (encode v)"
proof -
  have "jval (2 * length (encode v) + 2) (encode v @ []) = Some []"
    using jval_encode [of "2 * length (encode v) + 2"] by (auto simp: followed_def)
  then show ?thesis by (simp add: json_Valid_def)
qed

section \<open>How long a text is\<close>

text \<open>A byte is escaped by six at most, so a value's text is bounded by its parts.\<close>

lemma escByte_length: "length (escByte b) \<le> 6"
  by (simp add: escByte_def hex2_def)

lemma decodeRune_width: "decodeRune (b # bs) = (r, n) \<Longrightarrow> 1 \<le> n \<and> n \<le> Suc (length bs)"
  by (auto split: if_splits list.splits)

lemma escBytes_length: "length (escBytes bs) \<le> 6 * length bs"
proof (induction bs rule: escBytes.induct)
  case (2 b bs)
  show ?case
  proof (cases "b < 0x80")
    case True
    then show ?thesis using 2(1) escByte_length [of b] by simp
  next
    case False
    obtain r n where rn: "decodeRune (b # bs) = (r, n)" by (cases "decodeRune (b # bs)")
    note n = decodeRune_width [OF rn]
    have "length (escBytes (drop (n - 1) bs)) \<le> 6 * length (drop (n - 1) bs)"
      using 2(2) False rn by fastforce
    then show ?thesis using False rn n by (auto simp: Let_def simp del: decodeRune.simps)
  qed
qed simp

lemma quoteJson_length: "length (quoteJson s) \<le> 6 * length s + 2"
  using escBytes_length [of "bytesOf s"] by (simp add: quoteJson_def bytesOf_def)

lemma dec_length: "length (dec n) \<le> n + 1"
proof (induction n rule: dec.induct)
  case (1 n)
  then show ?case by (subst dec.simps) auto
qed

lemma intercalate_length: "length (intercalate [c] ss) \<le> sum_list (map (\<lambda>s. length s + 1) ss)"
  by (induction "[c]" ss rule: intercalate.induct) auto

fun jbound :: "json \<Rightarrow> nat" where
  "jbound JNull = 4"
| "jbound (JStr s) = 6 * length s + 2"
| "jbound (JNum n) = n + 1"
| "jbound (JObj kvs) = 2 + sum_list (map (\<lambda>(k, v). 6 * length k + 4 + jbound v) kvs)"

lemma encode_length: "length (encode v) \<le> jbound v"
proof (induction v rule: encode.induct)
  case (4 kvs)
  have "sum_list (map (\<lambda>s. length s + 1) (map (\<lambda>(k, v). quoteJson k @ '':'' @ encode v) kvs))
      \<le> sum_list (map (\<lambda>(k, v). 6 * length k + 4 + jbound v) kvs)"
    unfolding map_map comp_def
  proof (rule sum_list_mono)
    fix kv assume k: "kv \<in> set kvs"
    show "length (case kv of (k, v) \<Rightarrow> quoteJson k @ '':'' @ encode v) + 1
        \<le> (case kv of (k, v) \<Rightarrow> 6 * length k + 4 + jbound v)"
      using 4 [OF k, of "fst kv" "snd kv"] quoteJson_length [of "fst kv"] by (simp add: case_prod_beta)
  qed
  then show ?case
    using intercalate_length [of "CHR '',''" "map (\<lambda>(k, v). quoteJson k @ '':'' @ encode v) kvs"] by simp
qed (use quoteJson_length dec_length in auto)

section \<open>Instants as RFC 3339\<close>

text \<open>The civil date of a count of days since the first of January of year 1, Gregorian throughout.\<close>

definition civil :: "int \<Rightarrow> int \<times> int \<times> int" where
  "civil d =
     (let z = d + 306; era = z div 146097; doe = z mod 146097;
          yoe = (doe - doe div 1460 + doe div 36524 - doe div 146096) div 365;
          doy = doe - (365 * yoe + yoe div 4 - yoe div 100);
          mp = (5 * doy + 2) div 153;
          day = doy - (153 * mp + 2) div 5 + 1;
          month = (if mp < 10 then mp + 3 else mp - 9);
          year = yoe + era * 400 + (if month \<le> 2 then 1 else 0)
      in (year, month, day))"

definition padLeft :: "nat \<Rightarrow> string \<Rightarrow> string" where
  "padLeft k s = replicate (k - length s) CHR ''0'' @ s"

definition pad :: "nat \<Rightarrow> int \<Rightarrow> string" where
  "pad k n = padLeft k (dec (nat n))"

definition rightTrim :: "string \<Rightarrow> string" where
  "rightTrim s = rev (dropWhile (\<lambda>c. c = CHR ''0'') (rev s))"

text \<open>\<open>Time.MarshalJSON\<close> of a UTC instant; \<open>None\<close> is its refusal of a year beyond four digits.\<close>

definition rfc3339Nano :: "gotime \<Rightarrow> string option" where
  "rfc3339Nano t =
     (let days = t div (24 * Hour); rest = t mod (24 * Hour);
          (y, m, d) = civil days; frac = rightTrim (pad 9 (rest mod Second))
      in if y < 0 \<or> y > 9999 then None
         else Some (pad 4 y @ ''-'' @ pad 2 m @ ''-'' @ pad 2 d @ ''T''
                @ pad 2 (rest div Hour) @ '':'' @ pad 2 (rest mod Hour div Minute) @ '':''
                @ pad 2 (rest mod Minute div Second)
                @ (if frac = [] then [] else ''.'' @ frac) @ ''Z''))"

end
