(* ===== verification/Event.thy ===== *)
theory Event
  imports Evidence Json
begin

text \<open>
  The events a change produces (\<open>Event\<close> of repository.go) and how they are written:
  \<open>bodyJSON\<close>, \<open>told\<close>, \<open>Announce\<close> and \<open>AnnounceConfirming\<close> of http.go,
  \<open>AnnounceRefund\<close> of refundhttp.go, and the check before the outbox of postgres.go. An encoder
  refuses an instant whose year has more than four digits; that error is \<open>None\<close>.
\<close>

definition MaxEventBytes :: nat where "MaxEventBytes = 65536"
definition MaxEventNameBytes :: nat where "MaxEventNameBytes = 64"

record event =
  ev_name :: string
  ev_payload :: string

definition noEvent :: event where
  "noEvent = \<lparr>ev_name = [], ev_payload = []\<rparr>"

definition Produced :: "event \<Rightarrow> bool" where
  "Produced e = (ev_name e \<noteq> [])"

text \<open>\<open>transferJSON\<close> and \<open>shown\<close>: null for no transfer.\<close>

definition shownTransfer :: "transfer option \<Rightarrow> json option" where
  "shownTransfer to =
     (case to of
        None \<Rightarrow> Some JNull
      | Some t \<Rightarrow>
          (case rfc3339Nano (tr_blockTime t) of
             None \<Rightarrow> None
           | Some bt \<Rightarrow> Some (JObj
               [(''tx'', JStr (tr_tx t)), (''block_height'', JNum (unat (tr_blockHeight t))),
                (''block_hash'', JStr (tr_blockHash t)), (''block_time'', JStr bt),
                (''from'', JStr (tr_from t)), (''value'', JStr (tr_value t))])))"

definition assetJSON :: "asset \<Rightarrow> json" where
  "assetJSON a = JObj [(''network'', JStr (as_network a)), (''reference'', JStr (as_reference a)),
     (''symbol'', JStr (as_symbol a)), (''decimals'', JNum (unat (as_decimals a)))]"

text \<open>A Go map is encoded with its keys in order.\<close>

definition metadataJSON :: "metadata \<Rightarrow> json" where
  "metadataJSON m = JObj (map (\<lambda>k. (k, JStr (the (map_of m k)))) (sort (map fst m)))"

definition bodyJSON :: "payment \<Rightarrow> transfer option \<Rightarrow> json option" where
  "bodyJSON p to =
     (case rfc3339Nano (pay_expiresAt p) of None \<Rightarrow> None | Some expires \<Rightarrow>
     (case rfc3339Nano (pay_createdAt p) of None \<Rightarrow> None | Some created \<Rightarrow>
     (case shownTransfer to of None \<Rightarrow> None | Some transfer \<Rightarrow>
        Some (JObj
          [(''id'', JStr (pay_id p)),
           (''status'', JStr (status_String (pay_status p))),
           (''asset'', assetJSON (mo_asset (pay_amount p))),
           (''amount'', JStr (Units (pay_amount p))),
           (''received'', if money_IsSet (pay_received p) then JStr (Units (pay_received p)) else JNull),
           (''destination'', JStr (pay_destination p)),
           (''metadata'', metadataJSON (pay_metadata p)),
           (''expires_at'', JStr expires),
           (''created_at'', JStr created),
           (''return_url'', if pay_returnURL p \<noteq> [] then JStr (pay_returnURL p) else JNull),
           (''transfer'', transfer),
           (''refunded'', JStr ''0'')]))))"

definition told :: "payment \<Rightarrow> transfer option \<Rightarrow> string option" where
  "told p to = map_option encode (bodyJSON p to)"

definition Announce :: "payment \<Rightarrow> transfer option \<Rightarrow> event option" where
  "Announce p to =
     (case told p to of
        None \<Rightarrow> None
      | Some payload \<Rightarrow> Some \<lparr>ev_name = ''payment.'' @ status_String (pay_status p), ev_payload = payload\<rparr>)"

definition AnnounceConfirming :: "payment \<Rightarrow> transfer \<Rightarrow> event option" where
  "AnnounceConfirming p t =
     (case told p (Some t) of
        None \<Rightarrow> None
      | Some payload \<Rightarrow> Some \<lparr>ev_name = ''attempt.confirming'', ev_payload = payload\<rparr>)"

definition refundJSON :: "refund \<Rightarrow> transfer option \<Rightarrow> json option" where
  "refundJSON r to =
     (case rfc3339Nano (ref_expiresAt r) of None \<Rightarrow> None | Some expires \<Rightarrow>
     (case rfc3339Nano (ref_createdAt r) of None \<Rightarrow> None | Some created \<Rightarrow>
     (case shownTransfer to of None \<Rightarrow> None | Some transfer \<Rightarrow>
        Some (JObj
          [(''id'', JStr (ref_id r)), (''payment'', JStr (ref_paymentID r)),
           (''status'', JStr (refund_status_String (ref_status r))),
           (''amount'', JStr (Units (ref_amount r))),
           (''destination'', JStr (ref_destination r)),
           (''expires_at'', JStr expires), (''created_at'', JStr created),
           (''transfer'', transfer)]))))"

definition AnnounceRefund :: "refund \<Rightarrow> transfer option \<Rightarrow> event option" where
  "AnnounceRefund r to =
     (if \<not> refund_Final (ref_status r) then Some noEvent
      else case refundJSON r to of
             None \<Rightarrow> None
           | Some body \<Rightarrow> Some \<lparr>ev_name = ''refund.'' @ refund_status_String (ref_status r),
                               ev_payload = encode body\<rparr>)"

text \<open>\<open>checkEvent\<close> (postgres.go): no error, or why the outbox may not hold the event.\<close>

datatype event_error = HalfAnEvent bool | EventNameTooLong nat | EventTooLong nat | EventNotJSON

definition checkEvent :: "event \<Rightarrow> event_error option" where
  "checkEvent e =
     (if Produced e \<noteq> (length (ev_payload e) > 0) then Some (HalfAnEvent (Produced e))
      else if length (ev_name e) > MaxEventNameBytes then Some (EventNameTooLong (length (ev_name e)))
      else if length (ev_payload e) > MaxEventBytes then Some (EventTooLong (length (ev_payload e)))
      else if Produced e \<and> \<not> json_Valid (ev_payload e) then Some EventNotJSON
      else None)"

lemma encode_nonempty [simp]: "encode v \<noteq> []"
  by (cases v) (auto simp: quoteJson_def)

lemma checkEvent_noEvent [simp]: "checkEvent noEvent = None" "\<not> Produced noEvent"
  by (simp_all add: checkEvent_def noEvent_def Produced_def)

lemma status_String_short: "Valid s \<Longrightarrow> length (status_String s) \<le> 17"
  by (cases s) (auto simp: Valid_def)

lemma refund_status_String_short: "refund_Valid s \<Longrightarrow> length (refund_status_String s) \<le> 17"
  by (cases s) (auto simp: refund_Valid_def)

text \<open>What an announced event is: a name, and a body that is JSON.\<close>

definition announced :: "event \<Rightarrow> bool" where
  "announced e = (Produced e \<and> length (ev_name e) \<le> MaxEventNameBytes
     \<and> ev_payload e \<noteq> [] \<and> json_Valid (ev_payload e))"

lemma announced_checkEvent:
  "announced e \<Longrightarrow> checkEvent e = (if length (ev_payload e) > MaxEventBytes then Some (EventTooLong (length (ev_payload e))) else None)"
  by (auto simp: announced_def checkEvent_def)

lemma Announce_announced: "Announce p to = Some e \<Longrightarrow> Valid (pay_status p) \<Longrightarrow> announced e"
  using status_String_short [of "pay_status p"]
  by (auto simp: Announce_def told_def announced_def Produced_def json_Valid_encode MaxEventNameBytes_def
      split: option.splits)

lemma AnnounceConfirming_announced: "AnnounceConfirming p t = Some e \<Longrightarrow> announced e"
  by (auto simp: AnnounceConfirming_def told_def announced_def Produced_def json_Valid_encode
      MaxEventNameBytes_def split: option.splits)

lemma AnnounceRefund_announced:
  "AnnounceRefund r to = Some e \<Longrightarrow> refund_Valid (ref_status r) \<Longrightarrow>
     (if refund_Final (ref_status r) then announced e else e = noEvent)"
  using refund_status_String_short [of "ref_status r"]
  by (auto simp: AnnounceRefund_def announced_def Produced_def json_Valid_encode MaxEventNameBytes_def
      split: option.splits if_splits)

end
