(* ===== verification/Tables.thy ===== *)
theory Tables
  imports Event
begin

text \<open>
  The tables of the migrations the store of package payment reads and writes, and what a statement
  makes of them: rows in the order they were inserted, the rules of the schema checked in the order
  PostgreSQL checks them (the column's type, the check constraints by name, the primary key, the other
  unique indexes, the foreign keys), the first one broken naming the error. A transaction that fails is
  rolled back, so a failed operation is \<open>Inl\<close> and has no database of its own. A connection that
  fails is not modelled.

  A timestamp column holds microseconds. A text column refuses bytes that are not UTF-8 and the zero
  byte. Text is compared byte by byte, as under the C collation.
\<close>

section \<open>Errors\<close>

datatype store_error =
    ErrNotFound
  | ErrStale
  | ErrIdempotencyKeyUsed
  | ErrKeyTaken
  | ErrAttemptLive
  | ErrNotAwaiting status
  | ErrReissued
  | NoPosition string
  | RandomSourceFailed
  | StoreProblems "problem list"
  | AttemptRefused attempt_error
  | NothingToSave
  | EventRefused event_error
  | EncoderRefused
  | HalfIdempotencyKey
  | ConstraintBroken string
  | ValueRefused
  | RowMoney money_error
  | HeightTooLarge
  | HeightBelowZero
  | ScreenRefused screen_error
  | NotANumber string
  | ErrMoved

section \<open>Rows\<close>

record payment_row =
  prow_account :: string
  prow_id :: string
  prow_network :: string
  prow_reference :: string
  prow_symbol :: string
  prow_decimals :: byte
  prow_amount :: int
  prow_received :: "int option"
  prow_destination :: string
  prow_status :: status
  prow_metadata :: metadata
  prow_createdAt :: gotime
  prow_expiresAt :: gotime
  prow_version :: int
  prow_checkoutHash :: "string option"
  prow_checkoutKeyID :: "string option"
  prow_returnURL :: "string option"
  prow_closedAt :: "gotime option"
  prow_idempotencyKey :: "string option"
  prow_idempotencyBodyHash :: "string option"

text \<open>The columns of an attempt are its fields.\<close>

record attempt_row =
  arow_account :: string
  arow_attempt :: attempt
  arow_revision :: int

record refund_row =
  rrow_account :: string
  rrow_payment :: string
  rrow_id :: string
  rrow_amount :: int
  rrow_destination :: string
  rrow_scheme :: string
  rrow_network :: string
  rrow_key :: string
  rrow_expiresAt :: gotime
  rrow_status :: refund_status
  rrow_tokenHash :: string
  rrow_tokenKeyID :: string
  rrow_idempotencyKey :: "string option"
  rrow_idempotencyBodyHash :: "string option"
  rrow_createdAt :: gotime
  rrow_closedAt :: "gotime option"
  rrow_version :: int

record observation_row =
  ob_account :: string
  ob_payment :: string
  ob_attempt :: "string option"
  ob_refund :: "string option"
  ob_network :: string
  ob_key :: string
  ob_tx :: string
  ob_position :: int
  ob_height :: int
  ob_hash :: string
  ob_time :: gotime
  ob_asset :: string
  ob_authorizer :: string
  ob_sender :: string
  ob_recipient :: string
  ob_value :: int
  ob_reason :: reason
  ob_implementation :: string
  ob_seenAt :: gotime
  ob_finalAt :: "gotime option"
  ob_disagreedAt :: "gotime option"

record outbox_row =
  ox_account :: string
  ox_payment :: string
  ox_event :: string
  ox_payload :: string

record cursor_row =
  cur_network :: string
  cur_height :: int
  cur_hash :: string
  cur_time :: "gotime option"
  cur_updatedAt :: gotime

record lease_row =
  le_name :: string
  le_holder :: string
  le_expiresAt :: gotime

record db =
  db_accounts :: "string list"
  db_payments :: "payment_row list"
  db_attempts :: "attempt_row list"
  db_refunds :: "refund_row list"
  db_observations :: "observation_row list"
  db_outbox :: "outbox_row list"
  db_cursors :: "cursor_row list"
  db_leases :: "lease_row list"

section \<open>What a column makes of a value\<close>

text \<open>\<open>numeric(78, 0)\<close>.\<close>

definition numeric78 :: "int \<Rightarrow> bool" where
  "numeric78 v = (\<bar>v\<bar> < 10 ^ 78)"

text \<open>\<open>timestamptz\<close>.\<close>

definition stamp :: "gotime \<Rightarrow> gotime" where
  "stamp t = truncateTime t Microsecond"

text \<open>\<open>text\<close>.\<close>

function utf8 :: "nat list \<Rightarrow> bool" where
  "utf8 [] = True"
| "utf8 (b # bs) =
     (let (r, n) = decodeRune (b # bs) in
      if r = RuneError \<and> n = 1 then False else utf8 (drop (n - 1) bs))"
  by pat_completeness auto
termination by (relation "measure length") auto

definition storable :: "string \<Rightarrow> bool" where
  "storable s = (utf8 (bytesOf s) \<and> 0 \<notin> set (bytesOf s))"

lemma utf8_ascii: "\<forall>b\<in>set bs. b < 0x80 \<Longrightarrow> utf8 bs"
  by (induction bs) (auto simp: RuneError_def)

declare utf8.simps(2) [simp del]

lemma storable_printable: "\<forall>c\<in>set s. printable c \<Longrightarrow> storable s"
  by (fastforce simp: storable_def bytesOf_def printable_def intro: utf8_ascii)

text \<open>
  \<open>jsonb\<close>, which metadata is encoded into and decoded from: bytes that are not UTF-8 come back as the
  replacement character, and of two keys that then read alike the last one written stays.
\<close>

function coerceBytes :: "nat list \<Rightarrow> nat list" where
  "coerceBytes [] = []"
| "coerceBytes (b # bs) =
     (let (r, n) = decodeRune (b # bs) in
      (if r = RuneError \<and> n = 1 then [0xEF, 0xBF, 0xBD] else b # take (n - 1) bs)
      @ coerceBytes (drop (n - 1) bs))"
  by pat_completeness auto
termination by (relation "measure length") auto

definition coerceUTF8 :: "string \<Rightarrow> string" where
  "coerceUTF8 s = map char_of (coerceBytes (bytesOf s))"

fun lastWins :: "metadata \<Rightarrow> metadata" where
  "lastWins [] = []"
| "lastWins ((k, v) # m) = (if k \<in> fst ` set m then lastWins m else (k, v) # lastWins m)"

definition metadataColumn :: "metadata \<Rightarrow> metadata" where
  "metadataColumn m =
     lastWins (map (\<lambda>k. (coerceUTF8 k, coerceUTF8 (the (map_of m k)))) (sort (map fst m)))"

lemma coerceBytes_utf8: "utf8 bs \<Longrightarrow> coerceBytes bs = bs"
proof (induction bs rule: coerceBytes.induct)
  case (2 b bs)
  obtain r n where d: "decodeRune (b # bs) = (r, n)" by fastforce
  with 2 show ?case by (auto simp: utf8.simps(2) split: if_splits)
qed simp

declare coerceBytes.simps(2) [simp del]

lemma coerceUTF8_utf8: "utf8 (bytesOf s) \<Longrightarrow> coerceUTF8 s = s"
  by (simp add: coerceUTF8_def coerceBytes_utf8 bytesOf_def comp_def)

lemma lastWins_distinct: "distinct (map fst m) \<Longrightarrow> lastWins m = m"
  by (induction m) (auto simp: image_iff)

text \<open>Metadata that is UTF-8 is read back as the map it was, in the order of its keys.\<close>

definition metadata_utf8 :: "metadata \<Rightarrow> bool" where
  "metadata_utf8 m = (distinct (map fst m) \<and> list_all (\<lambda>(k, v). utf8 (bytesOf k) \<and> utf8 (bytesOf v)) m)"

lemma metadataColumn_sorted:
  assumes "metadata_utf8 m"
  shows "metadataColumn m = map (\<lambda>k. (k, the (map_of m k))) (sort (map fst m))"
proof -
  have keys: "coerceUTF8 k = k \<and> coerceUTF8 (the (map_of m k)) = the (map_of m k)" if k: "k \<in> set (map fst m)" for k
  proof -
    obtain v where v: "map_of m k = Some v"
      using k by (metis image_set map_of_eq_None_iff not_None_eq set_map)
    then have "(k, v) \<in> set m" by (rule map_of_SomeD)
    with v show ?thesis using assms by (auto simp: coerceUTF8_utf8 metadata_utf8_def list_all_iff)
  qed
  then have same: "map (\<lambda>k. (coerceUTF8 k, coerceUTF8 (the (map_of m k)))) (sort (map fst m))
      = map (\<lambda>k. (k, the (map_of m k))) (sort (map fst m))"
    by (intro map_cong) auto
  have "distinct (map fst (map (\<lambda>k. (k, the (map_of m k))) (sort (map fst m))))"
    using assms by (simp add: comp_def metadata_utf8_def)
  then show ?thesis unfolding metadataColumn_def same by (simp only: lastWins_distinct)
qed

lemma metadataColumn_same:
  assumes "metadata_utf8 m"
  shows "map_of (metadataColumn m) = map_of m"
proof (rule ext)
  fix x
  have "x \<in> fst ` set m \<longleftrightarrow> map_of m x \<noteq> None" by (metis map_of_eq_None_iff)
  then show "map_of (metadataColumn m) x = map_of m x"
    unfolding metadataColumn_sorted [OF assms] map_of_map_restrict [of "\<lambda>k. the (map_of m k)"]
    by (auto simp: restrict_map_def)
qed

lemma metadataProblems_column:
  assumes "metadata_utf8 m"
  shows "metadataProblems (metadataColumn m) = metadataProblems m"
proof -
  have "map fst (metadataColumn m) = sort (map fst m)" "length (metadataColumn m) = length m"
    by (simp_all add: metadataColumn_sorted [OF assms] comp_def)
  then show ?thesis
    by (simp add: metadataProblems_def metadataColumn_same [OF assms] sorted_sort_id)
qed

section \<open>The rules of the schema\<close>

text \<open>The first rule that does not hold.\<close>

primrec firstBroken :: "(string \<times> bool) list \<Rightarrow> string option" where
  "firstBroken [] = None"
| "firstBroken (c # cs) = (if snd c then firstBroken cs else Some (fst c))"

lemma firstBroken_None [res_simps]: "firstBroken cs = None \<longleftrightarrow> (\<forall>c\<in>set cs. snd c)"
  by (induction cs) auto

lemma firstBroken_Some: "firstBroken cs = Some n \<Longrightarrow> (n, False) \<in> set cs"
  by (induction cs) (auto split: if_splits)

definition paymentChecks :: "payment_row \<Rightarrow> (string \<times> bool) list" where
  "paymentChecks r =
     [(''payments_amount_is_not_negative'', 0 \<le> prow_amount r),
      (''payments_checkout_names_its_key'', (prow_checkoutHash r = None) = (prow_checkoutKeyID r = None)),
      (''payments_expires_after_creation'', prow_createdAt r < prow_expiresAt r),
      (''payments_idempotency_names_its_body'',
         (prow_idempotencyKey r = None) = (prow_idempotencyBodyHash r = None)),
      (''payments_received_is_not_negative'', case prow_received r of None \<Rightarrow> True | Some v \<Rightarrow> 0 \<le> v),
      (''payments_status_is_one_of_the_lifecycle'', Valid (prow_status r)),
      (''payments_succeeded_only_when_covered'',
         prow_status r \<noteq> Succeeded \<or> (case prow_received r of None \<Rightarrow> False | Some v \<Rightarrow> prow_amount r \<le> v))]"

definition paymentUniques :: "db \<Rightarrow> payment_row \<Rightarrow> (string \<times> bool) list" where
  "paymentUniques db r =
     [(''payments_pkey'',
         \<not> list_ex (\<lambda>x. prow_account x = prow_account r \<and> prow_id x = prow_id r) (db_payments db)),
      (''payments_by_checkout_hash'',
         prow_checkoutHash r = None
         \<or> \<not> list_ex (\<lambda>x. prow_checkoutHash x = prow_checkoutHash r) (db_payments db)),
      (''payments_by_idempotency_key'',
         prow_idempotencyKey r = None
         \<or> \<not> list_ex (\<lambda>x. prow_account x = prow_account r \<and> prow_idempotencyKey x = prow_idempotencyKey r)
              (db_payments db)),
      (''payments_account_id_fkey'', prow_account r \<in> set (db_accounts db))]"

definition live :: "attempt_status \<Rightarrow> bool" where
  "live s = (s = Issued \<or> s = Confirming)"

definition attemptRules :: "db \<Rightarrow> attempt_row \<Rightarrow> (string \<times> bool) list" where
  "attemptRules db r = (let a = arow_attempt r; rows = db_attempts db in
     [(''attempts_status_is_one_of_the_lifecycle'', attempt_Valid (att_status a)),
      (''attempts_pkey'',
         \<not> list_ex (\<lambda>x. arow_account x = arow_account r \<and> att_paymentID (arow_attempt x) = att_paymentID a
                      \<and> att_id (arow_attempt x) = att_id a) rows),
      (''attempts_network_key_key'',
         \<not> list_ex (\<lambda>x. att_network (arow_attempt x) = att_network a
                      \<and> att_key (arow_attempt x) = att_key a) rows),
      (''attempts_one_live_per_payment'',
         live (att_status a) \<longrightarrow>
           \<not> list_ex (\<lambda>x. arow_account x = arow_account r \<and> att_paymentID (arow_attempt x) = att_paymentID a
                        \<and> live (att_status (arow_attempt x))) rows),
      (''attempts_account_id_payment_id_fkey'',
         list_ex (\<lambda>x. prow_account x = arow_account r \<and> prow_id x = att_paymentID a) (db_payments db))])"

definition refundRules :: "db \<Rightarrow> refund_row \<Rightarrow> (string \<times> bool) list" where
  "refundRules db r = (let rows = db_refunds db in
     [(''refunds_amount_is_positive'', 0 < rrow_amount r),
      (''refunds_idempotency_names_its_body'',
         (rrow_idempotencyKey r = None) = (rrow_idempotencyBodyHash r = None)),
      (''refunds_pkey'',
         \<not> list_ex (\<lambda>x. rrow_account x = rrow_account r \<and> rrow_payment x = rrow_payment r
                      \<and> rrow_id x = rrow_id r) rows),
      (''refunds_by_key'',
         \<not> list_ex (\<lambda>x. rrow_network x = rrow_network r \<and> rrow_key x = rrow_key r) rows),
      (''refunds_by_token_hash'', \<not> list_ex (\<lambda>x. rrow_tokenHash x = rrow_tokenHash r) rows),
      (''refunds_by_idempotency_key'',
         rrow_idempotencyKey r = None
         \<or> \<not> list_ex (\<lambda>x. rrow_account x = rrow_account r \<and> rrow_idempotencyKey x = rrow_idempotencyKey r) rows),
      (''refunds_account_id_payment_id_fkey'',
         list_ex (\<lambda>x. prow_account x = rrow_account r \<and> prow_id x = rrow_payment r) (db_payments db))])"

text \<open>\<open>writeOutbox\<close> (postgres.go). The payload column is \<open>jsonb\<close>, which the text of an event is kept as.\<close>

definition writeOutbox :: "db \<Rightarrow> string \<Rightarrow> string \<Rightarrow> event \<Rightarrow> (store_error, db) result" where
  "writeOutbox db account pid e =
     (case checkEvent e of
        Some err \<Rightarrow> Inl (EventRefused err)
      | None \<Rightarrow>
     (case firstBroken
             [(''outbox_event_is_not_empty'', ev_name e \<noteq> []),
              (''outbox_account_id_payment_id_fkey'',
                 list_ex (\<lambda>x. prow_account x = account \<and> prow_id x = pid) (db_payments db))] of
        Some n \<Rightarrow> Inl (ConstraintBroken n)
      | None \<Rightarrow> Inr (db\<lparr>db_outbox := db_outbox db
                  @ [\<lparr>ox_account = account, ox_payment = pid, ox_event = ev_name e, ox_payload = ev_payload e\<rparr>]\<rparr>)))"

lemma writeOutbox_Inr_iff:
  "writeOutbox db account pid e = Inr db' \<longleftrightarrow> checkEvent e = None \<and> ev_name e \<noteq> []
     \<and> (\<exists>x\<in>set (db_payments db). prow_account x = account \<and> prow_id x = pid)
     \<and> db' = db\<lparr>db_outbox := db_outbox db
         @ [\<lparr>ox_account = account, ox_payment = pid, ox_event = ev_name e, ox_payload = ev_payload e\<rparr>]\<rparr>"
  by (auto simp: writeOutbox_def res_simps list_ex_iff)

end
