(* ===== verification/Versioned.thy ===== *)
theory Versioned
  imports Prelude
begin

text \<open>
  Optimistic locking, as every table of the store that is written back uses it: a row is read with its
  version and saved under it. What a provider promises is that a save goes through only at the version
  the row has, moves it on by one, and leaves every other row's version alone. What follows, for any
  interleaving of writers, is that of the writers holding one revision at most one gets through.
\<close>

text \<open>A sequence of writes by anybody, the refused ones leaving the database as it was: the database
  after it, and the writes that went through.\<close>

primrec writes :: "('op \<Rightarrow> 'db \<Rightarrow> ('e, 'db) result) \<Rightarrow> 'op list \<Rightarrow> 'db \<Rightarrow> 'db \<times> 'op list" where
  "writes save [] db = (db, [])"
| "writes save (w # ws) db =
     (case save w db of
        Inl _ \<Rightarrow> writes save ws db
      | Inr db' \<Rightarrow> (let (db'', won) = writes save ws db' in (db'', w # won)))"

locale versioned_store =
  fixes inv :: "'db \<Rightarrow> bool"
    and version :: "'db \<Rightarrow> 'k \<Rightarrow> int option"
    and key :: "'w \<Rightarrow> 'k"
    and at :: "'w \<Rightarrow> int"
    and save :: "'w \<Rightarrow> 'db \<Rightarrow> ('e, 'db) result"
  assumes save_inv: "inv db \<Longrightarrow> save w db = Inr db' \<Longrightarrow> inv db'"
    and save_current: "inv db \<Longrightarrow> save w db = Inr db' \<Longrightarrow> version db (key w) = Some (at w)"
    and save_next: "inv db \<Longrightarrow> save w db = Inr db' \<Longrightarrow> version db' (key w) = Some (at w + 1)"
    and save_frame: "inv db \<Longrightarrow> save w db = Inr db' \<Longrightarrow> k \<noteq> key w \<Longrightarrow> version db' k = version db k"
begin

lemma saved_step: "inv db \<Longrightarrow> save w db = Inr db' \<Longrightarrow> version db k = Some n \<Longrightarrow>
    \<exists>m\<ge>n. version db' k = Some m"
  using save_current [of db w db'] save_next [of db w db'] save_frame [of db w db' k]
  by (cases "k = key w") auto

lemma writes_version:
  "inv db \<Longrightarrow> version db k = Some n \<Longrightarrow> w \<in> set (snd (writes save ws db)) \<Longrightarrow> key w = k \<Longrightarrow> n \<le> at w"
proof (induction ws arbitrary: db n)
  case (Cons u ws)
  show ?case
  proof (cases "save u db")
    case (Inl e)
    then show ?thesis using Cons by auto
  next
    case (Inr db')
    obtain d won where r: "writes save ws db' = (d, won)" by fastforce
    obtain m where m: "n \<le> m" "version db' k = Some m" using saved_step Cons.prems Inr by blast
    have "w = u \<or> w \<in> set won" using Cons.prems(3) Inr r by auto
    then show ?thesis
      using Cons.IH [OF save_inv [OF Cons.prems(1) Inr] m(2)] m(1) r Cons.prems
        save_current [OF Cons.prems(1) Inr] by auto
  qed
qed simp

text \<open>Of all the writes that go through, no two were of the same row at the same version.\<close>

lemma one_winner: "inv db \<Longrightarrow> distinct (map (\<lambda>w. (key w, at w)) (snd (writes save ws db)))"
proof (induction ws arbitrary: db)
  case (Cons u ws)
  show ?case
  proof (cases "save u db")
    case (Inl e)
    then show ?thesis using Cons by simp
  next
    case (Inr db')
    obtain d won where r: "writes save ws db' = (d, won)" by fastforce
    have "at u + 1 \<le> at w" if "w \<in> set won" "key w = key u" for w
      using writes_version [OF save_inv [OF Cons.prems Inr] save_next [OF Cons.prems Inr], of w ws] that r by simp
    then have "(key w, at w) \<noteq> (key u, at u)" if "w \<in> set won" for w
      using that by force
    then have "(key u, at u) \<notin> (\<lambda>w. (key w, at w)) ` set won" by (metis (no_types, lifting) imageE)
    then show ?thesis using Cons.IH [OF save_inv [OF Cons.prems Inr]] Inr r by simp
  qed
qed simp

text \<open>The same write again is refused.\<close>

lemma no_second: "inv db \<Longrightarrow> save w db = Inr db' \<Longrightarrow> key w' = key w \<Longrightarrow> at w' = at w \<Longrightarrow> save w' db' \<noteq> Inr db''"
  using save_next [of db w db'] save_current [of db' w' db''] save_inv [of db w db'] by auto

end

end
