(* ===== verification/Store_Payments.thy ===== *)
theory Store_Payments
  imports Tables Versioned
begin

text \<open>
  Payments in the store (postgres.go): \<open>Create\<close>, the reads, and \<open>Save\<close>. The time of the database
  (\<open>now()\<close>) is an argument of what reads it.
\<close>

section \<open>Operations\<close>

text \<open>\<open>payer\<close>: the columns of a payment as \<open>Restore\<close> takes them, once the amounts are read.\<close>

definition storedOf :: "payment_row \<Rightarrow> money \<Rightarrow> money \<Rightarrow> stored" where
  "storedOf r amount received =
     \<lparr>st_id = prow_id r, st_amount = amount, st_received = received,
      st_destination = prow_destination r, st_metadata = prow_metadata r,
      st_status = prow_status r, st_createdAt = prow_createdAt r, st_expiresAt = prow_expiresAt r,
      st_returnURL = (case prow_returnURL r of None \<Rightarrow> [] | Some u \<Rightarrow> u),
      st_checkout = \<lparr>ck_hash = (case prow_checkoutHash r of None \<Rightarrow> [] | Some h \<Rightarrow> h),
                     ck_keyID = (case prow_checkoutKeyID r of None \<Rightarrow> [] | Some k \<Rightarrow> k)\<rparr>,
      st_idempotency = \<lparr>idem_key = (case prow_idempotencyKey r of None \<Rightarrow> [] | Some k \<Rightarrow> k),
                        idem_bodyHash = (case prow_idempotencyBodyHash r of None \<Rightarrow> [] | Some h \<Rightarrow> h)\<rparr>,
      st_closedAt = (case prow_closedAt r of None \<Rightarrow> 0 | Some t \<Rightarrow> t)\<rparr>"

text \<open>\<open>payer.payment\<close>: what the columns hold, rebuilt, and the revision they were read at.\<close>

definition rowPayment :: "payment_row \<Rightarrow> (store_error, payment \<times> revision) result" where
  "rowPayment r =
     (case NewAsset (prow_network r) (prow_reference r) (prow_symbol r) (prow_decimals r) of
        Inl e \<Rightarrow> Inl (RowMoney e)
      | Inr asset \<Rightarrow>
     (case ParseMoney asset (bigString (prow_amount r)) of
        Inl e \<Rightarrow> Inl (RowMoney e)
      | Inr amount \<Rightarrow>
     (case (case prow_received r of None \<Rightarrow> Inr noMoney | Some v \<Rightarrow> ParseMoney asset (bigString v)) of
        Inl e \<Rightarrow> Inl (RowMoney e)
      | Inr received \<Rightarrow>
     (case Restore (storedOf r amount received) of
        Inl ps \<Rightarrow> Inl (StoreProblems ps)
      | Inr p \<Rightarrow> Inr (p, \<lparr>rev_id = prow_id r, rev_at = prow_version r\<rparr>)))))"

definition isPayment :: "string \<Rightarrow> string \<Rightarrow> payment_row \<Rightarrow> bool" where
  "isPayment account pid r = (prow_account r = account \<and> prow_id r = pid)"

text \<open>\<open>find\<close>, which \<open>Find\<close> runs on the pool and a round on its transaction.\<close>

definition find_payment :: "db \<Rightarrow> string \<Rightarrow> string \<Rightarrow> (store_error, payment \<times> revision) result" where
  "find_payment db account pid =
     (case List.find (isPayment account pid) (db_payments db) of
        None \<Rightarrow> Inl ErrNotFound
      | Some r \<Rightarrow> rowPayment r)"

definition Find :: "db \<Rightarrow> string \<Rightarrow> string \<Rightarrow> (store_error, payment \<times> revision) result" where
  "Find db account pid = find_payment db account pid"

definition FindByKey :: "db \<Rightarrow> string \<Rightarrow> string \<Rightarrow> (store_error, payment \<times> revision) result" where
  "FindByKey db account key =
     (case List.find (\<lambda>r. prow_account r = account \<and> prow_idempotencyKey r = Some key) (db_payments db) of
        None \<Rightarrow> Inl ErrNotFound
      | Some r \<Rightarrow> find_payment db account (prow_id r))"

definition newPaymentRow :: "string \<Rightarrow> payment \<Rightarrow> payment_row" where
  "newPaymentRow account p =
     (let asset = mo_asset (pay_amount p); c = pay_checkout p; i = pay_idempotency p in
      \<lparr>prow_account = account, prow_id = pay_id p, prow_network = as_network asset,
       prow_reference = as_reference asset, prow_symbol = as_symbol asset,
       prow_decimals = as_decimals asset, prow_amount = Amount (pay_amount p), prow_received = None,
       prow_destination = pay_destination p, prow_status = pay_status p,
       prow_metadata = metadataColumn (pay_metadata p),
       prow_createdAt = stamp (pay_createdAt p), prow_expiresAt = stamp (pay_expiresAt p),
       prow_version = 1,
       prow_checkoutHash = (if checkout_IsSet c then Some (ck_hash c) else None),
       prow_checkoutKeyID = (if checkout_IsSet c then Some (ck_keyID c) else None),
       prow_returnURL = (if pay_returnURL p \<noteq> [] then Some (pay_returnURL p) else None),
       prow_closedAt = None,
       prow_idempotencyKey = (if idem_IsSet i then Some (idem_key i) else None),
       prow_idempotencyBodyHash = (if idem_IsSet i then Some (idem_bodyHash i) else None)\<rparr>)"

definition insertPayment :: "db \<Rightarrow> payment_row \<Rightarrow> (store_error, db) result" where
  "insertPayment db r =
     (if \<not> numeric78 (prow_amount r)
         \<or> \<not> list_all storable [prow_id r, prow_network r, prow_reference r, prow_symbol r,
              prow_destination r, status_String (prow_status r)]
         \<or> \<not> list_all (\<lambda>x. case x of None \<Rightarrow> True | Some s \<Rightarrow> storable s)
              [prow_checkoutKeyID r, prow_returnURL r, prow_idempotencyKey r]
      then Inl ValueRefused
      else case firstBroken (paymentChecks r @ paymentUniques db r) of
             Some n \<Rightarrow> Inl (ConstraintBroken n)
           | None \<Rightarrow> Inr (db\<lparr>db_payments := db_payments db @ [r]\<rparr>))"

definition Create :: "db \<Rightarrow> string \<Rightarrow> payment \<Rightarrow> (store_error, db) result" where
  "Create db account p =
     (let i = pay_idempotency p in
      if \<not> idem_IsSet i \<and> (idem_key i \<noteq> [] \<or> length (idem_bodyHash i) > 0) then Inl HalfIdempotencyKey
      else mapErr (\<lambda>e. if e = ConstraintBroken ''payments_by_idempotency_key''
                      then ErrIdempotencyKeyUsed else e)
             (insertPayment db (newPaymentRow account p)))"

text \<open>What \<open>savePayment\<close> writes into the row it selects.\<close>

definition rewritten :: "gotime \<Rightarrow> payment \<Rightarrow> payment_row \<Rightarrow> payment_row" where
  "rewritten clock p r =
     r\<lparr>prow_status := pay_status p,
       prow_received := (if money_IsSet (pay_received p) then Some (Amount (pay_received p)) else None),
       prow_version := prow_version r + 1,
       prow_closedAt := (case prow_closedAt r of
                           Some t \<Rightarrow> Some t
                         | None \<Rightarrow> if Final (pay_status p) then Some (stamp clock) else None)\<rparr>"

definition atRevision :: "string \<Rightarrow> string \<Rightarrow> int \<Rightarrow> payment_row \<Rightarrow> bool" where
  "atRevision account pid v r = (isPayment account pid r \<and> prow_version r = v)"

definition savePayment :: "gotime \<Rightarrow> db \<Rightarrow> string \<Rightarrow> payment \<Rightarrow> revision \<Rightarrow> (store_error, db) result" where
  "savePayment clock db account p at =
     (let P = atRevision account (pay_id p) (rev_at at); hits = filter P (db_payments db) in
      if hits \<noteq> [] \<and> money_IsSet (pay_received p) \<and> \<not> numeric78 (Amount (pay_received p)) then Inl ValueRefused
      else case firstBroken (concat (map (\<lambda>r. paymentChecks (rewritten clock p r)) hits)) of
             Some n \<Rightarrow> Inl (ConstraintBroken n)
           | None \<Rightarrow>
               if rowsAffected P (db_payments db) = 0 then Inl ErrStale
               else Inr (db\<lparr>db_payments := updateWhere P (rewritten clock p) (db_payments db)\<rparr>))"

definition Save :: "gotime \<Rightarrow> db \<Rightarrow> string \<Rightarrow> payment option \<Rightarrow> revision \<Rightarrow> event \<Rightarrow> (store_error, db) result" where
  "Save clock db account po at e =
     (case po of
        None \<Rightarrow> Inl NothingToSave
      | Some p \<Rightarrow>
     (case checkEvent e of
        Some err \<Rightarrow> Inl (EventRefused err)
      | None \<Rightarrow>
      if rev_id at \<noteq> pay_id p then Inl ErrStale
      else bindE (savePayment clock db account p at) (\<lambda>db1.
        if Produced e then writeOutbox db1 account (pay_id p) e else Inr db1)))"

text \<open>\<open>MatchedTransfer\<close>: the first matched row against an attempt, in the order the chain carried them.\<close>

definition rowTransfer :: "observation_row \<Rightarrow> (store_error, transfer) result" where
  "rowTransfer o1 =
     (if ob_height o1 < 0 then Inl HeightBelowZero
      else Inr \<lparr>tr_scheme = [], tr_asset = ob_asset o1, tr_key = ob_key o1, tr_authorizer = ob_authorizer o1,
                tr_from = ob_sender o1, tr_to = ob_recipient o1, tr_value = bigString (ob_value o1),
                tr_tx = ob_tx o1, tr_position = ob_position o1, tr_blockHeight = word_of_int (ob_height o1),
                tr_blockHash = ob_hash o1, tr_blockTime = ob_time o1\<rparr>)"

definition MatchedTransfer :: "db \<Rightarrow> string \<Rightarrow> string \<Rightarrow> (store_error, transfer option) result" where
  "MatchedTransfer db account pid =
     (case sort_key (\<lambda>o1. (ob_height o1, ob_tx o1, ob_position o1))
             (filter (\<lambda>o1. ob_account o1 = account \<and> ob_payment o1 = pid \<and> ob_reason o1 = Matched
                \<and> ob_attempt o1 \<noteq> None) (db_observations db)) of
        [] \<Rightarrow> Inr None
      | o1 # _ \<Rightarrow> bindE (rowTransfer o1) (\<lambda>t. Inr (Some t)))"

section \<open>Reading a row\<close>

definition rowAsset :: "payment_row \<Rightarrow> asset" where
  "rowAsset r = \<lparr>as_network = prow_network r, as_reference = prow_reference r,
                 as_symbol = prow_symbol r, as_decimals = prow_decimals r\<rparr>"

definition rowMoney :: "payment_row \<Rightarrow> int option \<Rightarrow> money" where
  "rowMoney r v = (case v of None \<Rightarrow> noMoney | Some n \<Rightarrow> \<lparr>mo_amount = Some n, mo_asset = rowAsset r\<rparr>)"

text \<open>The column what arrived is kept in.\<close>

definition receivedColumn :: "payment \<Rightarrow> int option" where
  "receivedColumn p = (if money_IsSet (pay_received p) then Some (Amount (pay_received p)) else None)"

lemma ParseMoney_column:
  "ParseMoney a (bigString v) = Inr m \<Longrightarrow> m = \<lparr>mo_amount = Some v, mo_asset = a\<rparr> \<and> 0 \<le> v \<and> asset_IsSet a"
  by (auto simp: ParseMoney_Inr_iff setString_bigString)

lemma rowMoney_simps [simp]:
  "rowMoney r None = noMoney" "mo_asset (rowMoney r (Some v)) = rowAsset r"
  "Amount (rowMoney r (Some v)) = v" "money_IsSet (rowMoney r (Some v)) \<longleftrightarrow> asset_IsSet (rowAsset r)"
  by (simp_all add: rowMoney_def Amount_def money_IsSet_def)

text \<open>What a row that is read back says.\<close>

lemma rowPayment_Inr:
  assumes "rowPayment r = Inr (p, at)"
  shows "payment_wf p" "pay_id p = prow_id r" "pay_status p = prow_status r"
    and "at = \<lparr>rev_id = prow_id r, rev_at = prow_version r\<rparr>"
    and "pay_amount p = rowMoney r (Some (prow_amount r))" "pay_received p = rowMoney r (prow_received r)"
    and "pay_destination p = prow_destination r" "pay_expiresAt p = stamp (prow_expiresAt r)"
    and "receivedColumn p = prow_received r" "asset_IsSet (rowAsset r)"
    and "prow_status r = Succeeded \<Longrightarrow> prow_received r \<noteq> None"
    and "idem_bodyHash (pay_idempotency p) = (case prow_idempotencyBodyHash r of None \<Rightarrow> [] | Some h \<Rightarrow> h)"
proof -
  let ?a = "rowAsset r"
  obtain amount received where m: "ParseMoney ?a (bigString (prow_amount r)) = Inr amount"
      "(case prow_received r of None \<Rightarrow> Inr noMoney | Some v \<Rightarrow> ParseMoney ?a (bigString v)) = Inr received"
      and at: "at = \<lparr>rev_id = prow_id r, rev_at = prow_version r\<rparr>"
      and res: "Restore (storedOf r amount received) = Inr p" (is "Restore ?s = _")
    using assms by (auto simp: rowPayment_def res_simps NewAsset_Inr_iff rowAsset_def [symmetric])
  have amt: "amount = rowMoney r (Some (prow_amount r))" and set: "asset_IsSet ?a" and "0 \<le> prow_amount r"
    using ParseMoney_column [OF m(1)] by (auto simp: rowMoney_def)
  have rec: "received = rowMoney r (prow_received r)" "case prow_received r of None \<Rightarrow> True | Some v \<Rightarrow> 0 \<le> v"
    using m(2) by (auto simp: rowMoney_def dest: ParseMoney_column split: option.splits)
  have made: "money_made (st_amount ?s)" "money_made (st_received ?s)"
    using amt rec \<open>0 \<le> prow_amount r\<close> by (auto simp: money_made_def money_ok_def storedOf_def split: option.splits)
  show "payment_wf p" by (rule Restore_wf [OF res made])
  note f = res [unfolded Restore_Inr_iff storedOf_def, simplified]
  show "at = \<lparr>rev_id = prow_id r, rev_at = prow_version r\<rparr>" by (rule at)
  show "asset_IsSet (rowAsset r)" by (rule set)
  show p: "pay_id p = prow_id r" "pay_status p = prow_status r" "pay_destination p = prow_destination r"
      "pay_amount p = rowMoney r (Some (prow_amount r))" "pay_expiresAt p = stamp (prow_expiresAt r)"
    using f amt by (auto simp: stamp_def)
  show r: "pay_received p = rowMoney r (prow_received r)"
    using f rec set by (auto split: option.splits)
  show "receivedColumn p = prow_received r"
    using r set by (cases "prow_received r") (auto simp: receivedColumn_def)
  show "idem_bodyHash (pay_idempotency p) = (case prow_idempotencyBodyHash r of None \<Rightarrow> [] | Some h \<Rightarrow> h)"
    using f by (auto split: option.splits)
  show "prow_status r = Succeeded \<Longrightarrow> prow_received r \<noteq> None"
    using f r by (auto simp: covered_None_iff) (cases "prow_received r"; simp)
qed

section \<open>How a row changes\<close>

text \<open>
  The contract every write of a payment's row keeps: its terms stay, its status moves along the
  lifecycle, its version only grows and tells two states of it apart, what arrived is fixed once it is
  final, and so is when it closed.
\<close>

definition evolves :: "payment_row \<Rightarrow> payment_row \<Rightarrow> bool" where
  "evolves r r' =
     (r' = r\<lparr>prow_status := prow_status r', prow_received := prow_received r',
             prow_version := prow_version r', prow_closedAt := prow_closedAt r'\<rparr>
      \<and> prow_version r \<le> prow_version r' \<and> (prow_version r' = prow_version r \<longrightarrow> r' = r)
      \<and> (\<lambda>s t. t \<in> set (movesOf s))\<^sup>*\<^sup>* (prow_status r) (prow_status r')
      \<and> (Final (prow_status r) \<longrightarrow> prow_received r' = prow_received r)
      \<and> (prow_closedAt r \<noteq> None \<longrightarrow> prow_closedAt r' = prow_closedAt r))"

lemma evolves_refl [simp]: "evolves r r"
  by (simp add: evolves_def)

lemma evolves_trans:
  assumes "evolves x y" "evolves y z"
  shows "evolves x z"
proof -
  have "z = x\<lparr>prow_status := prow_status z, prow_received := prow_received z,
             prow_version := prow_version z, prow_closedAt := prow_closedAt z\<rparr>"
    using assms by (cases x; cases y; cases z) (simp add: evolves_def)
  moreover have "Final (prow_status x) \<Longrightarrow> prow_status y = prow_status x"
    using assms(1) pay_life.final_stays by (auto simp: evolves_def)
  ultimately show ?thesis
    using assms unfolding evolves_def by (smt (verit) rtranclp_trans)
qed

lemma evolves_key: "evolves r r' \<Longrightarrow> isPayment account pid r' = isPayment account pid r"
  "evolves r r' \<Longrightarrow> prow_account r' = prow_account r" "evolves r r' \<Longrightarrow> prow_id r' = prow_id r"
  "evolves r r' \<Longrightarrow> prow_idempotencyKey r' = prow_idempotencyKey r"
  "evolves r r' \<Longrightarrow> prow_amount r' = prow_amount r"
  "evolves r r' \<Longrightarrow> prow_idempotencyBodyHash r' = prow_idempotencyBodyHash r"
  by (cases r; cases r'; simp add: evolves_def isPayment_def)+

lemma evolves_final:
  "evolves r r' \<Longrightarrow> Final (prow_status r) \<Longrightarrow> prow_status r' = prow_status r \<and> prow_received r' = prow_received r"
  using pay_life.final_stays by (auto simp: evolves_def)

text \<open>A copy a reader holds: what the row said, and the moves made on it since.\<close>

definition movedFrom :: "payment_row \<Rightarrow> payment \<Rightarrow> bool" where
  "movedFrom r p =
     (payment_wf p \<and> pay_id p = prow_id r \<and> pay_amount p = rowMoney r (Some (prow_amount r))
      \<and> (\<lambda>s t. t \<in> set (movesOf s))\<^sup>*\<^sup>* (prow_status r) (pay_status p)
      \<and> (Final (prow_status r) \<longrightarrow> receivedColumn p = prow_received r))"

lemma rowPayment_movedFrom: "rowPayment r = Inr (p, at) \<Longrightarrow> movedFrom r p"
  using rowPayment_Inr [of r p at] by (simp add: movedFrom_def)

lemma payOp_movedFrom:
  assumes "movedFrom r p" "payOp p op = Inr q" "op_made op"
  shows "movedFrom r q"
proof -
  have t: "same_terms p q" by (rule payOp_terms [OF assms(2)])
  have "\<not> Final (pay_status p)" using assms(2) final_refuses by blast
  then have "\<not> Final (prow_status r)"
    using assms(1) by (metis movedFrom_def pay_life.final_stays)
  moreover have "(\<lambda>s t. t \<in> set (movesOf s))\<^sup>*\<^sup>* (prow_status r) (pay_status q)"
    using assms(1) payOp_status [OF assms(2)] by (auto simp: movedFrom_def intro: rtranclp.rtrancl_into_rtrancl)
  moreover have "pay_id q = pay_id p" "pay_amount q = pay_amount p"
    using t by (cases p; cases q; simp add: same_terms_def)+
  ultimately show ?thesis
    using assms payOp_wf by (auto simp: movedFrom_def)
qed

lemma rewritten_simps [simp]:
  "prow_account (rewritten clock p r) = prow_account r" "prow_id (rewritten clock p r) = prow_id r"
  "prow_version (rewritten clock p r) = prow_version r + 1" "prow_status (rewritten clock p r) = pay_status p"
  "prow_received (rewritten clock p r) = receivedColumn p" "prow_amount (rewritten clock p r) = prow_amount r"
  "prow_idempotencyKey (rewritten clock p r) = prow_idempotencyKey r"
  "isPayment account pid (rewritten clock p r) = isPayment account pid r"
  "prow_network (rewritten clock p r) = prow_network r" "prow_reference (rewritten clock p r) = prow_reference r"
  "prow_symbol (rewritten clock p r) = prow_symbol r" "prow_decimals (rewritten clock p r) = prow_decimals r"
  "prow_expiresAt (rewritten clock p r) = prow_expiresAt r" "prow_destination (rewritten clock p r) = prow_destination r"
  by (simp_all add: rewritten_def receivedColumn_def isPayment_def)

lemma rewritten_evolves: "movedFrom r p \<Longrightarrow> evolves r (rewritten clock p r)"
  by (cases r) (auto simp: evolves_def movedFrom_def rewritten_def receivedColumn_def split: option.splits)

section \<open>What the operations do\<close>

text \<open>A payment is named by its account and identifier, and a merchant's idempotency key by its account.\<close>

definition payments_keyed :: "db \<Rightarrow> bool" where
  "payments_keyed db =
     (distinct (map (\<lambda>r. (prow_account r, prow_id r)) (db_payments db))
      \<and> distinct (map (\<lambda>r. (prow_account r, prow_idempotencyKey r))
           (filter (\<lambda>r. prow_idempotencyKey r \<noteq> None) (db_payments db)))
      \<and> (\<forall>r\<in>set (db_payments db). prow_account r \<in> set (db_accounts db)
           \<and> list_all snd (paymentChecks r)))"

lemma payments_keyed_frame [simp]:
  "payments_keyed (db\<lparr>db_attempts := as\<rparr>) = payments_keyed db"
  "payments_keyed (db\<lparr>db_refunds := rs\<rparr>) = payments_keyed db"
  "payments_keyed (db\<lparr>db_observations := os\<rparr>) = payments_keyed db"
  "payments_keyed (db\<lparr>db_outbox := xs\<rparr>) = payments_keyed db"
  "payments_keyed (db\<lparr>db_cursors := cs\<rparr>) = payments_keyed db"
  "payments_keyed (db\<lparr>db_leases := ls\<rparr>) = payments_keyed db"
  by (simp_all add: payments_keyed_def)

lemma keyed_unique:
  "payments_keyed db \<Longrightarrow> r \<in> set (db_payments db) \<Longrightarrow> r' \<in> set (db_payments db) \<Longrightarrow>
     prow_account r = prow_account r' \<Longrightarrow> prow_id r = prow_id r' \<Longrightarrow> r = r'"
  unfolding payments_keyed_def using distinct_key_unique [of "\<lambda>r. (prow_account r, prow_id r)"] by blast

lemma keyed_idempotency:
  assumes "payments_keyed db" "r \<in> set (db_payments db)" "r' \<in> set (db_payments db)"
    and "prow_account r = prow_account r'" "prow_idempotencyKey r = Some k" "prow_idempotencyKey r' = Some k"
  shows "r = r'"
  using distinct_key_unique [of "\<lambda>r. (prow_account r, prow_idempotencyKey r)"
      "filter (\<lambda>r. prow_idempotencyKey r \<noteq> None) (db_payments db)" r r'] assms
  by (simp add: payments_keyed_def)

lemma find_payment_row:
  "find_payment db account pid = Inr (p, at) \<Longrightarrow>
     \<exists>r\<in>set (db_payments db). isPayment account pid r \<and> rowPayment r = Inr (p, at)"
  by (auto simp: find_payment_def res_simps dest: find_SomeD)

lemma find_payment_id: "find_payment db account pid = Inr (p, at) \<Longrightarrow> pay_id p = pid \<and> rev_id at = pid \<and> payment_wf p"
  by (auto dest!: find_payment_row simp: isPayment_def dest: rowPayment_Inr)

lemma find_keyed:
  assumes "payments_keyed db" "r \<in> set (db_payments db)" "isPayment account pid r"
  shows "find_payment db account pid = rowPayment r"
proof -
  obtain r' where r': "List.find (isPayment account pid) (db_payments db) = Some r'"
    using assms(2,3) by (cases "List.find (isPayment account pid) (db_payments db)") (auto simp: find_None_iff)
  then have "r' = r"
    using keyed_unique [OF assms(1) _ assms(2)] find_SomeD [OF r'] assms(3) by (auto simp: isPayment_def)
  with r' show ?thesis by (simp add: find_payment_def)
qed

lemma savePayment_Inr_iff:
  "savePayment clock db account p at = Inr db' \<longleftrightarrow>
     (\<exists>r\<in>set (db_payments db). atRevision account (pay_id p) (rev_at at) r)
     \<and> (money_IsSet (pay_received p) \<longrightarrow> numeric78 (Amount (pay_received p)))
     \<and> (\<forall>r\<in>set (db_payments db). atRevision account (pay_id p) (rev_at at) r \<longrightarrow>
          list_all snd (paymentChecks (rewritten clock p r)))
     \<and> db' = db\<lparr>db_payments := updateWhere (atRevision account (pay_id p) (rev_at at)) (rewritten clock p) (db_payments db)\<rparr>"
  by (auto simp: savePayment_def Let_def res_simps filter_empty_conv list_all_iff)

lemma savePayment_keyed:
  assumes "savePayment clock db account p at = Inr db'" "payments_keyed db"
  shows "payments_keyed db'"
proof -
  let ?P = "atRevision account (pay_id p) (rev_at at)" and ?f = "rewritten clock p"
  have d: "db' = db\<lparr>db_payments := updateWhere ?P ?f (db_payments db)\<rparr>"
    using assms(1) by (simp add: savePayment_Inr_iff)
  have "filter (\<lambda>r. prow_idempotencyKey r \<noteq> None) (updateWhere ?P ?f (db_payments db))
      = updateWhere ?P ?f (filter (\<lambda>r. prow_idempotencyKey r \<noteq> None) (db_payments db))"
    by (rule filter_updateWhere_frame) simp
  then show ?thesis
    using assms unfolding payments_keyed_def d savePayment_Inr_iff
    by (auto simp: map_updateWhere_frame in_updateWhere)
qed

lemma Save_Inr_iff:
  "Save clock db account po at e = Inr db' \<longleftrightarrow>
     (\<exists>p db1. po = Some p \<and> checkEvent e = None \<and> rev_id at = pay_id p
        \<and> savePayment clock db account p at = Inr db1
        \<and> (if Produced e then writeOutbox db1 account (pay_id p) e = Inr db' else db' = db1))"
  by (auto simp: Save_def res_simps)

text \<open>A save writes its payment's row, and an outbox row exactly when there is an event; nothing else.\<close>

lemma Save_frame:
  assumes "Save clock db account (Some p) at e = Inr db'"
  shows "db' = db\<lparr>db_payments := db_payments db',
              db_outbox := db_outbox db @ (if Produced e
                then [\<lparr>ox_account = account, ox_payment = pay_id p, ox_event = ev_name e, ox_payload = ev_payload e\<rparr>]
                else [])\<rparr>"
    and "\<exists>db1. savePayment clock db account p at = Inr db1 \<and> db_payments db' = db_payments db1"
  using assms by (auto simp: Save_Inr_iff savePayment_Inr_iff writeOutbox_Inr_iff split: if_splits)

lemma Create_Inr_iff:
  "Create db account p = Inr db' \<longleftrightarrow>
     (idem_IsSet (pay_idempotency p) \<or> idem_key (pay_idempotency p) = [] \<and> idem_bodyHash (pay_idempotency p) = [])
     \<and> insertPayment db (newPaymentRow account p) = Inr db'"
  by (auto simp: Create_def Let_def res_simps)

lemma insertPayment_Inr:
  assumes "insertPayment db r = Inr db'"
  shows "db' = db\<lparr>db_payments := db_payments db @ [r]\<rparr>" "list_all snd (paymentChecks r)"
    and "\<forall>x\<in>set (db_payments db). \<not> isPayment (prow_account r) (prow_id r) x"
    and "prow_idempotencyKey r \<noteq> None \<Longrightarrow>
      \<forall>x\<in>set (db_payments db). prow_account x = prow_account r \<longrightarrow> prow_idempotencyKey x \<noteq> prow_idempotencyKey r"
    and "prow_account r \<in> set (db_accounts db)" "numeric78 (prow_amount r)"
  using assms
  by (auto simp: insertPayment_def res_simps list_all_iff paymentUniques_def list_ex_iff isPayment_def
      split: if_splits option.splits)

lemma Create_keyed:
  assumes "Create db account p = Inr db'" "payments_keyed db"
  shows "payments_keyed db'"
proof -
  let ?r = "newPaymentRow account p"
  note i = insertPayment_Inr [of db ?r db'] assms(1) [unfolded Create_Inr_iff]
  show ?thesis
    using i assms(2) unfolding payments_keyed_def
    by (auto simp: isPayment_def)
qed

section \<open>Growth, and the copies readers hold\<close>

lemma savePayment_grown:
  assumes "savePayment clock db account p at = Inr db'"
    and "\<And>r. r \<in> set (db_payments db) \<Longrightarrow> atRevision account (pay_id p) (rev_at at) r \<Longrightarrow> movedFrom r p"
  shows "grown evolves (db_payments db) (db_payments db')"
  using assms by (auto simp: savePayment_Inr_iff intro!: grown_update rewritten_evolves)

lemma Create_grown:
  "Create db account p = Inr db' \<Longrightarrow> grown evolves (db_payments db) (db_payments db')"
  using insertPayment_Inr(1) [of db "newPaymentRow account p" db'] by (auto simp: Create_Inr_iff intro!: grown_append)

text \<open>
  A copy somebody holds of a payment, with the revision it was read at: either the row has moved on,
  or the copy is the row and moves made on it.
\<close>

definition tracks :: "db \<Rightarrow> string \<Rightarrow> payment \<Rightarrow> revision \<Rightarrow> bool" where
  "tracks db account p at =
     (\<exists>r\<in>set (db_payments db). isPayment account (pay_id p) r \<and> rev_at at \<le> prow_version r
        \<and> (prow_version r = rev_at at \<longrightarrow> movedFrom r p))"

lemma rowPayment_tracks:
  "r \<in> set (db_payments db) \<Longrightarrow> rowPayment r = Inr (p, at) \<Longrightarrow> tracks db (prow_account r) p at"
  using rowPayment_Inr [of r p at] rowPayment_movedFrom [of r p at]
  by (auto simp: tracks_def isPayment_def intro!: bexI [of _ r])

lemma find_tracks: "find_payment db account pid = Inr (p, at) \<Longrightarrow> tracks db account p at"
  by (auto dest!: find_payment_row simp: isPayment_def dest: rowPayment_tracks)

lemma payOp_tracks:
  assumes "tracks db account p at" "payOp p op = Inr q" "op_made op"
  shows "tracks db account q at"
proof -
  have "pay_id q = pay_id p"
    using payOp_terms [OF assms(2)] by (cases p; cases q) (simp add: same_terms_def)
  then show ?thesis using assms payOp_movedFrom by (fastforce simp: tracks_def)
qed

lemma tracks_grown:
  assumes "tracks db account p at" "grown evolves (db_payments db) (db_payments db')"
  shows "tracks db' account p at"
proof -
  obtain r where r: "r \<in> set (db_payments db)" "isPayment account (pay_id p) r" "rev_at at \<le> prow_version r"
      "prow_version r = rev_at at \<longrightarrow> movedFrom r p"
    using assms(1) by (auto simp: tracks_def)
  obtain r' where r': "r' \<in> set (db_payments db')" "evolves r r'"
    using grown_row [OF assms(2) r(1)] by blast
  then have "isPayment account (pay_id p) r'" "prow_version r \<le> prow_version r'"
      "prow_version r' = prow_version r \<longrightarrow> r' = r"
    using r(2) evolves_key(1) by (auto simp: evolves_def)
  then show ?thesis using r r'(1) unfolding tracks_def by (intro bexI [of _ r']) auto
qed

lemma tracks_row:
  assumes "payments_keyed db" "tracks db account p at" "r \<in> set (db_payments db)"
    and "atRevision account (pay_id p) (rev_at at) r"
  shows "movedFrom r p"
proof -
  obtain r' where r': "r' \<in> set (db_payments db)" "isPayment account (pay_id p) r'"
      "prow_version r' = rev_at at \<longrightarrow> movedFrom r' p"
    using assms(2) by (auto simp: tracks_def)
  then have "r' = r"
    using keyed_unique [OF assms(1) r'(1) assms(3)] assms(4) by (auto simp: atRevision_def isPayment_def)
  with r' show ?thesis using assms(4) by (auto simp: atRevision_def)
qed

lemma Save_grown:
  assumes "Save clock db account (Some p) at e = Inr db'" "payments_keyed db" "tracks db account p at"
  shows "grown evolves (db_payments db) (db_payments db')"
  using Save_frame(2) [OF assms(1)] savePayment_grown tracks_row [OF assms(2,3)] by metis

lemma Save_keyed:
  assumes "Save clock db account (Some p) at e = Inr db'" "payments_keyed db"
  shows "payments_keyed db'"
proof -
  obtain db1 where d: "savePayment clock db account p at = Inr db1" "db_payments db' = db_payments db1"
    using Save_frame(2) [OF assms(1)] by blast
  have "db_accounts db' = db_accounts db1"
    using Save_frame(1) [OF assms(1)] d(1) by (metis (no_types, lifting) db.select_convs(1) db.surjective
        db.update_convs(2,6) savePayment_Inr_iff)
  then show ?thesis using savePayment_keyed [OF d(1) assms(2)] d(2) by (simp add: payments_keyed_def)
qed

section \<open>The store is versioned\<close>

type_synonym payment_write = "gotime \<times> string \<times> payment \<times> revision \<times> event"

definition saveWrite :: "payment_write \<Rightarrow> db \<Rightarrow> (store_error, db) result" where
  "saveWrite w db = (case w of (clock, account, p, at, e) \<Rightarrow> Save clock db account (Some p) at e)"

definition writeKey :: "payment_write \<Rightarrow> string \<times> string" where
  "writeKey w = (case w of (clock, account, p, at, e) \<Rightarrow> (account, pay_id p))"

definition writeAt :: "payment_write \<Rightarrow> int" where
  "writeAt w = (case w of (clock, account, p, at, e) \<Rightarrow> rev_at at)"

definition paymentVersion :: "db \<Rightarrow> string \<times> string \<Rightarrow> int option" where
  "paymentVersion db k = map_option prow_version (List.find (isPayment (fst k) (snd k)) (db_payments db))"

lemma paymentVersion_row:
  assumes "payments_keyed db" "r \<in> set (db_payments db)" "isPayment (fst k) (snd k) r"
  shows "paymentVersion db k = Some (prow_version r)"
proof -
  obtain r' where r': "List.find (isPayment (fst k) (snd k)) (db_payments db) = Some r'"
    using assms(2,3) by (cases "List.find (isPayment (fst k) (snd k)) (db_payments db)") (auto simp: find_None_iff)
  then have "r' = r"
    using keyed_unique [OF assms(1) _ assms(2)] find_SomeD [OF r'] assms(3) by (auto simp: isPayment_def)
  with r' show ?thesis by (simp add: paymentVersion_def)
qed

lemma savePayment_version:
  assumes "savePayment clock db account p at = Inr db'" "payments_keyed db"
  shows "paymentVersion db (account, pay_id p) = Some (rev_at at)"
    and "paymentVersion db' (account, pay_id p) = Some (rev_at at + 1)"
    and "k \<noteq> (account, pay_id p) \<Longrightarrow> paymentVersion db' k = paymentVersion db k"
proof -
  let ?P = "atRevision account (pay_id p) (rev_at at)"
  obtain r where r: "r \<in> set (db_payments db)" "?P r"
    using assms(1) by (auto simp: savePayment_Inr_iff)
  have d: "db_payments db' = updateWhere ?P (rewritten clock p) (db_payments db)"
    using assms(1) by (simp add: savePayment_Inr_iff)
  show "paymentVersion db (account, pay_id p) = Some (rev_at at)"
    using paymentVersion_row [OF assms(2) r(1)] r(2) by (simp add: atRevision_def)
  have "rewritten clock p r \<in> set (db_payments db')" using r by (auto simp: d in_updateWhere)
  then show "paymentVersion db' (account, pay_id p) = Some (rev_at at + 1)"
    using paymentVersion_row [OF savePayment_keyed [OF assms]] r(2) by (auto simp: atRevision_def)
  show "paymentVersion db' k = paymentVersion db k" if "k \<noteq> (account, pay_id p)"
  proof -
    have "find (isPayment (fst k) (snd k)) (updateWhere ?P (rewritten clock p) (db_payments db))
        = map_option (\<lambda>r. if ?P r then rewritten clock p r else r) (find (isPayment (fst k) (snd k)) (db_payments db))"
      by (rule find_updateWhere_frame) simp
    moreover have "\<not> ?P r" if "find (isPayment (fst k) (snd k)) (db_payments db) = Some r" for r
      using find_SomeD [OF that] \<open>k \<noteq> _\<close> by (cases k) (auto simp: atRevision_def isPayment_def)
    ultimately show ?thesis
      by (cases "find (isPayment (fst k) (snd k)) (db_payments db)") (auto simp: paymentVersion_def d)
  qed
qed

interpretation payment_store: versioned_store payments_keyed paymentVersion writeKey writeAt saveWrite
proof unfold_locales
  fix db db' :: db and w :: payment_write and k
  obtain clock account p at e where w: "w = (clock, account, p, at, e)" by (cases w)
  assume inv: "payments_keyed db" and s: "saveWrite w db = Inr db'"
  then have save: "Save clock db account (Some p) at e = Inr db'" by (simp add: w saveWrite_def)
  then obtain db1 where d: "savePayment clock db account p at = Inr db1" "db_payments db' = db_payments db1"
    using Save_frame(2) by blast
  then have v: "paymentVersion db' = paymentVersion db1" by (intro ext) (simp add: paymentVersion_def)
  show "payments_keyed db'" by (rule Save_keyed [OF save inv])
  show "paymentVersion db (writeKey w) = Some (writeAt w)" "paymentVersion db' (writeKey w) = Some (writeAt w + 1)"
    using savePayment_version [OF d(1) inv] v by (simp_all add: w writeKey_def writeAt_def)
  show "k \<noteq> writeKey w \<Longrightarrow> paymentVersion db' k = paymentVersion db k"
    using savePayment_version(3) [OF d(1) inv] v by (simp add: w writeKey_def)
qed

section \<open>Properties\<close>

definition demo_db :: "payment_row list \<Rightarrow> db" where
  "demo_db rows = \<lparr>db_accounts = [''acct''], db_payments = rows, db_attempts = [], db_refunds = [],
     db_observations = [], db_outbox = [], db_cursors = [], db_leases = []\<rparr>"

text \<open>What is created is found. A payment \<open>Create\<close> stored is read back by \<open>Find\<close> under the same account at
  revision 1 as it was, its metadata the same map; under an idempotency key it is also what \<open>FindByKey\<close>
  answers. The payment is a new one: well formed, nothing arrived, not closed, open for longer than a
  microsecond, with UTF-8 metadata and no checkout key without a checkout token.\<close>

theorem create_then_find:
  assumes "Create db account p = Inr db'" "payments_keyed db" "payment_wf p"
    and "pay_received p = noMoney" "pay_closedAt p = 0" "pay_createdAt p < pay_expiresAt p" "pay_expiresAt p \<noteq> 0"
    and "metadata_utf8 (pay_metadata p)" "checkout_IsSet (pay_checkout p) \<or> ck_keyID (pay_checkout p) = []"
    and "asset_ok (mo_asset (pay_amount p))"
  shows "\<exists>m. map_of m = map_of (pay_metadata p)
    \<and> Find db' account (pay_id p) = Inr (p\<lparr>pay_metadata := m\<rparr>, \<lparr>rev_id = pay_id p, rev_at = 1\<rparr>)
    \<and> (idem_IsSet (pay_idempotency p) \<longrightarrow>
         FindByKey db' account (idem_key (pay_idempotency p)) = Find db' account (pay_id p))"
proof -
  let ?r = "newPaymentRow account p" and ?m = "metadataColumn (pay_metadata p)"
  have ins: "insertPayment db ?r = Inr db'" and idem: "idem_IsSet (pay_idempotency p) \<or>
      idem_key (pay_idempotency p) = [] \<and> idem_bodyHash (pay_idempotency p) = []"
    using assms(1) by (auto simp: Create_Inr_iff)
  note i = insertPayment_Inr [OF ins]
  have keyed: "payments_keyed db'" by (rule Create_keyed [OF assms(1,2)])
  have in_db: "?r \<in> set (db_payments db')" by (simp add: i(1))
  have k: "prow_account ?r = account" "prow_id ?r = pay_id p" "prow_version ?r = 1"
    by (simp_all add: newPaymentRow_def Let_def)
  have amt: "ParseMoney (mo_asset (pay_amount p)) (bigString (Amount (pay_amount p))) = Inr (pay_amount p)"
    using assms(3) i(6) ParseMoney_bigString [of "pay_amount p"]
    by (simp add: payment_wf_def numeric78_def newPaymentRow_def Let_def MaxAmountDigits_def money_ok_def)
  have co: "\<lparr>ck_hash = (if checkout_IsSet (pay_checkout p) then ck_hash (pay_checkout p) else []),
        ck_keyID = (if checkout_IsSet (pay_checkout p) then ck_keyID (pay_checkout p) else [])\<rparr> = pay_checkout p"
    using assms(9) by (cases "pay_checkout p") (auto simp: checkout_IsSet_def)
  have ik: "\<lparr>idem_key = (if idem_IsSet (pay_idempotency p) then idem_key (pay_idempotency p) else []),
        idem_bodyHash = (if idem_IsSet (pay_idempotency p) then idem_bodyHash (pay_idempotency p) else [])\<rparr> = pay_idempotency p"
    using idem by (cases "pay_idempotency p") auto
  have stored: "storedOf ?r (pay_amount p) noMoney = (toStored (p\<lparr>pay_metadata := ?m\<rparr>))"
    using assms(3,4,5) co ik
    by (auto simp: storedOf_def newPaymentRow_def Let_def toStored_def stamp_def truncateTime_fixed payment_wf_def
        split: if_splits)
  have "Restore (toStored (p\<lparr>pay_metadata := ?m\<rparr>)) = Inr (p\<lparr>pay_metadata := ?m\<rparr>)"
    using assms(3-7) metadataProblems_column [OF assms(8)]
    by (cases p) (auto simp: Restore_Inr_iff toStored_def payment_wf_def truncateTime_fixed money_ok_def covered_def)
  then have row: "rowPayment ?r = Inr (p\<lparr>pay_metadata := ?m\<rparr>, \<lparr>rev_id = pay_id p, rev_at = 1\<rparr>)"
    using amt assms(10) stored k
    by (simp add: rowPayment_def) (simp add: newPaymentRow_def Let_def NewAsset_self)
  have found: "Find db' account (pay_id p) = Inr (p\<lparr>pay_metadata := ?m\<rparr>, \<lparr>rev_id = pay_id p, rev_at = 1\<rparr>)"
    using find_keyed [OF keyed in_db, of account "pay_id p"] row k by (simp add: Find_def isPayment_def)
  have key: "FindByKey db' account (idem_key (pay_idempotency p)) = Find db' account (pay_id p)"
    if s: "idem_IsSet (pay_idempotency p)"
  proof -
    let ?P = "\<lambda>r. prow_account r = account \<and> prow_idempotencyKey r = Some (idem_key (pay_idempotency p))"
    have rk: "prow_idempotencyKey ?r = Some (idem_key (pay_idempotency p))"
      using s by (simp add: newPaymentRow_def Let_def)
    have "List.find ?P (db_payments db) = None" using i(4) rk k by (auto simp: find_None_iff)
    then have "List.find ?P (db_payments db') = Some ?r" using rk k by (simp add: i(1) find_append)
    then show ?thesis using k by (simp add: FindByKey_def Find_def)
  qed
  show ?thesis using found key metadataColumn_same [OF assms(8)] by blast
qed

lemma demo_storable: "list_all storable [demo_id, ''polygon'', ''0xE7C3'', ''JPYC'', ''0xA11CE'', ''created'']"
proof -
  have "storable demo_id"
    by (rule storable_printable) (simp add: demo_id_def hexEncode_def hexDigit_def printable_def)
  then show ?thesis by (simp add: storable_printable printable_def)
qed

definition demo_row :: "status \<Rightarrow> int option \<Rightarrow> int \<Rightarrow> payment_row" where
  "demo_row st received v = (newPaymentRow ''acct'' (demo_payment Created noMoney))
     \<lparr>prow_status := st, prow_received := received, prow_version := v\<rparr>"

lemma demo_Create: "Create (demo_db []) ''acct'' (demo_payment Created noMoney) = Inr (demo_db [demo_row Created None 1])"
  using demo_storable
  by (simp add: Create_Inr_iff insertPayment_def demo_db_def demo_row_def newPaymentRow_def Let_def demo_payment_def
      checkout_IsSet_def idem_IsSet_def paymentChecks_def paymentUniques_def Valid_def numeric78_def stamp_def
      truncateTime_def demo_asset_def)

theorem create_then_find_witness:
  "\<exists>m. map_of m = map_of [] \<and> Find (demo_db [demo_row Created None 1]) ''acct'' demo_id
     = Inr (demo_payment Created noMoney\<lparr>pay_metadata := m\<rparr>, \<lparr>rev_id = demo_id, rev_at = 1\<rparr>)"
proof -
  let ?p = "demo_payment Created noMoney"
  have wf: "payment_wf ?p" by (simp add: payment_wf_def demo_payment_def Valid_def money_made_def)
  have "payments_keyed (demo_db [])" by (simp add: payments_keyed_def demo_db_def)
  then show ?thesis
    using create_then_find [OF demo_Create _ wf]
    by (simp add: demo_payment_def metadata_utf8_def checkout_IsSet_def idem_IsSet_def)
qed

text \<open>What arrived, as the store keeps it: nothing, or money of the payment's own asset.\<close>

definition received_own :: "payment \<Rightarrow> bool" where
  "received_own p = (pay_received p = noMoney
     \<or> money_IsSet (pay_received p) \<and> mo_asset (pay_received p) = mo_asset (pay_amount p))"

lemma payOp_own:
  "payOp p op = Inr q \<Longrightarrow> received_own p \<Longrightarrow> (\<forall>m. op = OpReceive m \<longrightarrow> mo_asset m = mo_asset (pay_amount p)) \<Longrightarrow>
     received_own q"
  by (cases op) (auto simp: payment_moves received_own_def)

lemma rowMoney_own: "asset_IsSet (rowAsset r) \<Longrightarrow> pay_amount p = rowMoney r (Some n) \<Longrightarrow>
    pay_received p = rowMoney r v \<Longrightarrow> received_own p"
  by (cases v) (auto simp: received_own_def)

lemma received_column: "received_own q \<Longrightarrow> mo_asset (pay_amount q) = rowAsset r \<Longrightarrow>
    pay_received q = rowMoney r (receivedColumn q)"
  by (cases "pay_received q") (auto simp: received_own_def receivedColumn_def rowMoney_def Amount_def money_IsSet_def noMoney_def)

text \<open>C6: What is saved is found. A payment that is found, moved once and saved at the revision it was found
  at is found again as the move left it, one revision on. When it closed is the clock of the save that
  first made it final, and no later save changes that. The save writes one outbox row exactly when the
  move produced an event, for that payment.\<close>

theorem save_then_find:
  assumes "payments_keyed db" "Find db account pid = Inr (p, at)" "payOp p op = Inr q" "op_made op"
    and "\<forall>m. op = OpReceive m \<longrightarrow> mo_asset m = mo_asset (pay_amount p)"
    and "Save clock db account (Some q) at e = Inr db'"
  shows "\<exists>t. Find db' account pid = Inr (q\<lparr>pay_closedAt := t\<rparr>, \<lparr>rev_id = pid, rev_at = rev_at at + 1\<rparr>)
      \<and> (pay_closedAt p \<noteq> 0 \<longrightarrow> t = pay_closedAt p) \<and> (\<not> Final (pay_status q) \<longrightarrow> t = pay_closedAt p)
      \<and> (Final (pay_status q) \<longrightarrow> t = pay_closedAt p \<or> t = stamp clock)
      \<and> db_outbox db' = db_outbox db @ (if Produced e
           then [\<lparr>ox_account = account, ox_payment = pid, ox_event = ev_name e, ox_payload = ev_payload e\<rparr>] else [])"
proof -
  obtain r where r: "r \<in> set (db_payments db)" "isPayment account pid r" "rowPayment r = Inr (p, at)"
    using find_payment_row [of db account pid p at] assms(2) by (auto simp: Find_def)
  note f = rowPayment_Inr [OF r(3)]
  have ids: "pay_id p = pid" "pay_id q = pid" "pay_amount q = pay_amount p"
    using r(2) f(2) payOp_terms [OF assms(3)] by (cases p; cases q; auto simp: same_terms_def isPayment_def)+
  obtain db1 where d: "savePayment clock db account q at = Inr db1" "db_payments db' = db_payments db1"
    using Save_frame(2) [OF assms(6)] by blast
  let ?r = "rewritten clock q r"
  have at: "atRevision account (pay_id q) (rev_at at) r" using r(2) f(4) ids by (simp add: atRevision_def)
  have in_db: "?r \<in> set (db_payments db')"
    using d at r(1) by (auto simp: savePayment_Inr_iff in_updateWhere)
  have num: "money_IsSet (pay_received q) \<longrightarrow> numeric78 (Amount (pay_received q))"
    and chk: "list_all snd (paymentChecks ?r)"
    using d(1) at r(1) by (auto simp: savePayment_Inr_iff)
  have wf: "payment_wf q" using payOp_wf assms(3,4) f(1) by blast
  have a: "mo_asset (pay_amount p) = rowAsset r" "pay_amount q = rowMoney r (Some (prow_amount r))"
    using f(5) ids by simp_all
  have rq: "pay_received q = rowMoney r (receivedColumn q)"
    using received_column payOp_own [OF assms(3) rowMoney_own [OF f(10,5,6)] assms(5)] a ids(3) by simp
  obtain amount received where res: "ParseMoney (rowAsset r) (bigString (prow_amount r)) = Inr amount"
      "Restore (storedOf r amount received) = Inr p" "NewAsset (prow_network r) (prow_reference r) (prow_symbol r) (prow_decimals r) = Inr (rowAsset r)"
    using r(3) by (auto simp: rowPayment_def res_simps NewAsset_Inr_iff rowAsset_def)
  have amt: "amount = pay_amount p" using ParseMoney_column [OF res(1)] f(5) by (simp add: rowMoney_def)
  have recq: "(case receivedColumn q of None \<Rightarrow> Inr noMoney | Some v \<Rightarrow> ParseMoney (rowAsset r) (bigString v)) = Inr (pay_received q)"
  proof (cases "receivedColumn q")
    case (Some v)
    then have "Amount (pay_received q) = v" "money_IsSet (pay_received q)" "mo_asset (pay_received q) = rowAsset r"
      using rq f(10) by simp_all
    then show ?thesis
      using ParseMoney_bigString [of "pay_received q"] num wf Some
      by (simp add: numeric78_def MaxAmountDigits_def payment_wf_def money_made_def)
  qed (use rq in simp)
  let ?t = "case prow_closedAt ?r of None \<Rightarrow> 0 | Some t \<Rightarrow> t"
  have st: "storedOf ?r amount (pay_received q)
      = storedOf r amount (pay_received q)\<lparr>st_status := pay_status q, st_closedAt := ?t\<rparr>"
    by (simp add: storedOf_def rewritten_def)
  have p: "p = p\<lparr>pay_closedAt := case prow_closedAt r of None \<Rightarrow> 0 | Some t \<Rightarrow> t\<rparr>"
    using res(2) by (auto simp: Restore_Inr_iff storedOf_def)
  have c: "covered (q\<lparr>pay_closedAt := ?t\<rparr>) = covered q" by (rule covered_frame)
  have q: "q = p\<lparr>pay_status := pay_status q, pay_received := pay_received q\<rparr>"
    using payOp_terms [OF assms(3)] by (simp add: same_terms_def)
  note rp = res(2) [unfolded Restore_Inr_iff]
  have own: "money_IsSet (pay_received q) \<or> pay_received q = noMoney"
    using payOp_own [OF assms(3) rowMoney_own [OF f(10,5,6)] assms(5)] by (auto simp: received_own_def)
  have rec: "q\<lparr>pay_closedAt := ?t\<rparr> = \<lparr>pay_id = prow_id r, pay_amount = amount,
      pay_received = (if money_IsSet (pay_received q) then pay_received q else noMoney),
      pay_destination = prow_destination r, pay_status = pay_status q, pay_metadata = prow_metadata r,
      pay_createdAt = truncateTime (prow_createdAt r) Microsecond,
      pay_expiresAt = truncateTime (prow_expiresAt r) Microsecond,
      pay_returnURL = st_returnURL (storedOf r amount received), pay_checkout = st_checkout (storedOf r amount received),
      pay_idempotency = st_idempotency (storedOf r amount received), pay_closedAt = ?t\<rparr>"
    using own by (subst q) (use rp in \<open>auto simp: storedOf_def\<close>)
  have "Restore (storedOf ?r amount (pay_received q)) = Inr (q\<lparr>pay_closedAt := ?t\<rparr>)"
    unfolding st Restore_Inr_iff c
    using rp wf rec ids(3) amt by (simp add: storedOf_def payment_wf_def)
  then have "rowPayment ?r = Inr (q\<lparr>pay_closedAt := ?t\<rparr>, \<lparr>rev_id = pid, rev_at = rev_at at + 1\<rparr>)"
    using res(1,3) recq r(2) f(4) by (simp add: rowPayment_def isPayment_def)
  then have "Find db' account pid = Inr (q\<lparr>pay_closedAt := ?t\<rparr>, \<lparr>rev_id = pid, rev_at = rev_at at + 1\<rparr>)"
    using find_keyed [OF Save_keyed [OF assms(6,1)] in_db, of account pid] r(2) by (simp add: Find_def)
  moreover have "db_outbox db' = db_outbox db @ (if Produced e
           then [\<lparr>ox_account = account, ox_payment = pid, ox_event = ev_name e, ox_payload = ev_payload e\<rparr>] else [])"
    using Save_frame(1) [OF assms(6)] ids(2) by (cases db'; cases db) simp
  moreover have "pay_closedAt p = (case prow_closedAt r of None \<Rightarrow> 0 | Some t \<Rightarrow> t)"
    using p by (metis payment.select_convs(12) payment.surjective payment.update_convs(12))
  ultimately show ?thesis
    by (intro exI [of _ ?t]) (auto simp: rewritten_def split: option.splits)
qed

lemma demo_amount: "0 \<le> n \<Longrightarrow> n < 10 ^ 78 \<Longrightarrow> ParseMoney demo_asset (bigString n) = Inr (demo_money n)"
  using ParseMoney_bigString [of "demo_money n"] by (simp add: MaxAmountDigits_def)

lemma demo_row_simps [simp]:
  "prow_account (demo_row st v n) = ''acct''" "prow_id (demo_row st v n) = demo_id"
  "prow_status (demo_row st v n) = st" "prow_received (demo_row st v n) = v" "prow_version (demo_row st v n) = n"
  "rowAsset (demo_row st v n) = demo_asset" "prow_amount (demo_row st v n) = 100"
  "prow_idempotencyKey (demo_row st v n) = None" "prow_closedAt (demo_row st v n) = None"
  "prow_network (demo_row st v n) = ''polygon''" "prow_expiresAt (demo_row st v n) = 900 * Second"
  "prow_destination (demo_row st v n) = ''0xA11CE''"
  by (simp_all add: demo_row_def newPaymentRow_def Let_def demo_payment_def rowAsset_def demo_asset_def idem_IsSet_def
      stamp_def truncateTime_def)

lemma demo_row_read:
  assumes "Valid st" "st = Succeeded \<longrightarrow> v = Some 100"
    and "case v of None \<Rightarrow> True | Some n \<Rightarrow> 0 \<le> n \<and> n < 10 ^ 78 \<and> st \<noteq> Created"
  shows "rowPayment (demo_row st v k)
    = Inr (demo_payment st (case v of None \<Rightarrow> noMoney | Some n \<Rightarrow> demo_money n), \<lparr>rev_id = demo_id, rev_at = k\<rparr>)"
proof -
  let ?r = "demo_row st v k" and ?m = "case v of None \<Rightarrow> noMoney | Some n \<Rightarrow> demo_money n"
  have a: "NewAsset (prow_network ?r) (prow_reference ?r) (prow_symbol ?r) (prow_decimals ?r) = Inr demo_asset"
    using NewAsset_self [OF demo_asset_ok(1)]
    by (simp add: demo_row_def newPaymentRow_def Let_def demo_payment_def)
  have r: "(case v of None \<Rightarrow> Inr noMoney | Some n \<Rightarrow> ParseMoney demo_asset (bigString n)) = Inr ?m"
    using assms(3) by (auto simp: demo_amount split: option.splits)
  have "Restore (storedOf ?r (demo_money 100) ?m) = Inr (demo_payment st ?m)"
    using assms
    by (auto simp: Restore_Inr_iff storedOf_def demo_row_def newPaymentRow_def Let_def demo_payment_def stamp_def
        truncateTime_def metadataColumn_def checkout_IsSet_def idem_IsSet_def covered_None_iff split: option.splits)
  then show ?thesis using a r demo_amount [of 100] by (simp add: rowPayment_def)
qed

lemma demo_keyed:
  assumes "Valid st" "st = Succeeded \<longrightarrow> v = Some 100" "case v of None \<Rightarrow> True | Some n \<Rightarrow> 0 \<le> n"
  shows "payments_keyed (demo_db [demo_row st v k])"
  using assms
  by (auto simp: payments_keyed_def demo_db_def paymentChecks_def demo_row_def newPaymentRow_def Let_def
      demo_payment_def checkout_IsSet_def idem_IsSet_def stamp_def truncateTime_def split: option.splits)

lemma demo_savePayment:
  assumes "p = demo_payment st (case v of None \<Rightarrow> noMoney | Some n \<Rightarrow> demo_money n)"
    and "Valid st" "st = Succeeded \<longrightarrow> v = Some 100" "case v of None \<Rightarrow> True | Some n \<Rightarrow> 0 \<le> n \<and> n < 10 ^ 78"
  shows "savePayment clock (demo_db [demo_row st0 v0 k]) ''acct'' p \<lparr>rev_id = demo_id, rev_at = k\<rparr>
    = Inr (demo_db [rewritten clock p (demo_row st0 v0 k)])"
proof -
  have id: "pay_id p = demo_id" and "pay_status p = st" by (simp_all add: assms(1) demo_payment_def)
  have col: "receivedColumn p = v"
    using assms(1,4) by (auto simp: receivedColumn_def demo_payment_def split: option.splits)
  have num: "money_IsSet (pay_received p) \<longrightarrow> numeric78 (Amount (pay_received p))"
    using assms(1,4) by (auto simp: demo_payment_def numeric78_def split: option.splits)
  have "list_all snd (paymentChecks (rewritten clock p (demo_row st0 v0 k)))"
    using assms(2-4) \<open>pay_status p = st\<close> col
    by (auto simp: paymentChecks_def)
      (auto simp: rewritten_def demo_row_def newPaymentRow_def Let_def demo_payment_def checkout_IsSet_def
        idem_IsSet_def stamp_def truncateTime_def split: option.splits)
  then show ?thesis
    unfolding savePayment_Inr_iff using num id
    by (simp add: demo_db_def atRevision_def isPayment_def)
qed

lemma demo_find:
  "Valid st \<Longrightarrow> st \<noteq> Succeeded \<Longrightarrow> Find (demo_db [demo_row st None k]) ''acct'' demo_id
    = Inr (demo_payment st noMoney, \<lparr>rev_id = demo_id, rev_at = k\<rparr>)"
  using demo_row_read [of st None k]
  by (simp add: Find_def find_payment_def demo_db_def isPayment_def)

theorem save_then_find_witness:
  "\<exists>db' t. Save 0 (demo_db [demo_row AwaitingPayment None 4]) ''acct''
        (Some (demo_payment AwaitingPayment (demo_money 100))) \<lparr>rev_id = demo_id, rev_at = 4\<rparr> noEvent = Inr db'
     \<and> Find db' ''acct'' demo_id = Inr (demo_payment AwaitingPayment (demo_money 100)\<lparr>pay_closedAt := t\<rparr>,
         \<lparr>rev_id = demo_id, rev_at = 5\<rparr>)"
proof -
  let ?p = "demo_payment AwaitingPayment noMoney" and ?q = "demo_payment AwaitingPayment (demo_money 100)"
  have v: "Valid AwaitingPayment" by (simp add: Valid_def)
  have op: "payOp ?p (OpReceive (demo_money 100)) = Inr ?q"
    by (simp add: payment_moves CanReceive_def demo_payment_def)
  have save: "Save 0 (demo_db [demo_row AwaitingPayment None 4]) ''acct'' (Some ?q) \<lparr>rev_id = demo_id, rev_at = 4\<rparr> noEvent
      = Inr (demo_db [rewritten 0 ?q (demo_row AwaitingPayment None 4)])"
    using demo_savePayment [of ?q AwaitingPayment "Some 100" 0 AwaitingPayment None 4] v
    by (simp add: Save_Inr_iff) (simp add: demo_payment_def)
  show ?thesis
    using save_then_find [OF demo_keyed [OF v] demo_find [OF v] op _ _ save] save by (auto simp: demo_payment_def)
qed

text \<open>C7: Of all the writers holding one revision of a payment at most one gets through, whatever order they
  write in and whatever else is written between them: in any sequence of saves by anybody, no two of those
  that went through were of the same payment at the same revision.\<close>

theorem payment_one_winner:
  "payments_keyed db \<Longrightarrow>
     distinct (map (\<lambda>w. (writeKey w, writeAt w)) (snd (writes saveWrite ws db)))"
  by (rule payment_store.one_winner)

theorem payment_one_winner_witness:
  "length (snd (writes saveWrite
     [(0, ''acct'', demo_payment Failed noMoney, \<lparr>rev_id = demo_id, rev_at = 4\<rparr>, noEvent),
      (1, ''acct'', demo_payment AwaitingFinality noMoney, \<lparr>rev_id = demo_id, rev_at = 4\<rparr>, noEvent)]
     (demo_db [demo_row AwaitingPayment None 4]))) = 1" (is "length (snd (writes _ [?a, ?b] ?db)) = 1")
proof -
  have d: "distinct (map (\<lambda>w. (writeKey w, writeAt w)) (snd (writes saveWrite [?a, ?b] ?db)))"
    by (rule payment_one_winner [OF demo_keyed]) (simp_all add: Valid_def)
  have s: "saveWrite ?a ?db = Inr (demo_db [rewritten 0 (demo_payment Failed noMoney) (demo_row AwaitingPayment None 4)])" (is "_ = Inr ?db1")
    using demo_savePayment [of "demo_payment Failed noMoney" Failed None 0 AwaitingPayment None 4]
    by (simp add: saveWrite_def Save_Inr_iff Valid_def) (simp add: demo_payment_def)
  have k: "writeKey ?a = writeKey ?b" "writeAt ?a = writeAt ?b"
    by (simp_all add: writeKey_def writeAt_def demo_payment_def)
  show ?thesis
  proof (cases "saveWrite ?b ?db1")
    case (Inr db2)
    then show ?thesis using d s k by simp
  qed (use s in simp)
qed

end
