(* ===== verification/Store_Attempts.thy ===== *)
theory Store_Attempts
  imports Store_Payments
begin

text \<open>
  Attempts in the store (postgres.go): \<open>Issue\<close>, the reads, \<open>SaveAttempt\<close> and the write a round
  makes inside its own transaction.
\<close>

section \<open>Operations\<close>

definition isAttempt :: "string \<Rightarrow> string \<Rightarrow> string \<Rightarrow> attempt_row \<Rightarrow> bool" where
  "isAttempt account pid aid r =
     (arow_account r = account \<and> att_paymentID (arow_attempt r) = pid \<and> att_id (arow_attempt r) = aid)"

definition ofPayment :: "string \<Rightarrow> string \<Rightarrow> attempt_row \<Rightarrow> bool" where
  "ofPayment account pid r = (arow_account r = account \<and> att_paymentID (arow_attempt r) = pid)"

definition newAttemptRow :: "string \<Rightarrow> attempt \<Rightarrow> attempt_row" where
  "newAttemptRow account a =
     \<lparr>arow_account = account,
      arow_attempt = a\<lparr>att_validBefore := stamp (att_validBefore a), att_createdAt := stamp (att_createdAt a)\<rparr>,
      arow_revision = 1\<rparr>"

definition insertAttempt :: "db \<Rightarrow> attempt_row \<Rightarrow> (store_error, db) result" where
  "insertAttempt db r =
     (let a = arow_attempt r in
      if \<not> list_all storable [att_paymentID a, att_id a, att_scheme a, att_network a, att_key a, att_authorizer a,
              attempt_status_String (att_status a)]
      then Inl ValueRefused
      else case firstBroken (attemptRules db r) of
             Some n \<Rightarrow> Inl (ConstraintBroken n)
           | None \<Rightarrow> Inr (db\<lparr>db_attempts := db_attempts db @ [r]\<rparr>))"

definition issueError :: "store_error \<Rightarrow> store_error" where
  "issueError e =
     (if e = ConstraintBroken ''attempts_network_key_key'' then ErrKeyTaken
      else if e = ConstraintBroken ''attempts_one_live_per_payment'' then ErrAttemptLive
      else e)"

definition Issue :: "db \<Rightarrow> string \<Rightarrow> attempt option \<Rightarrow> (store_error, db) result" where
  "Issue db account ao =
     (case ao of
        None \<Rightarrow> Inl NothingToSave
      | Some a \<Rightarrow> mapErr issueError (insertAttempt db (newAttemptRow account a)))"

definition scanAttempt :: "attempt_row option \<Rightarrow> (store_error, attempt \<times> revision) result" where
  "scanAttempt ro =
     (case ro of
        None \<Rightarrow> Inl ErrNotFound
      | Some r \<Rightarrow>
          (case RestoreAttempt (arow_attempt r) of
             Inl e \<Rightarrow> Inl (AttemptRefused e)
           | Inr a \<Rightarrow> Inr (a, \<lparr>rev_id = att_id (arow_attempt r), rev_at = arow_revision r\<rparr>)))"

definition FindAttempt :: "db \<Rightarrow> string \<Rightarrow> string \<Rightarrow> string \<Rightarrow> (store_error, attempt \<times> revision) result" where
  "FindAttempt db account pid aid = scanAttempt (List.find (isAttempt account pid aid) (db_attempts db))"

definition Live :: "db \<Rightarrow> string \<Rightarrow> string \<Rightarrow> (store_error, (attempt \<times> revision) option) result" where
  "Live db account pid =
     (case scanAttempt (List.find (\<lambda>r. ofPayment account pid r \<and> live (att_status (arow_attempt r)))
                          (db_attempts db)) of
        Inl e \<Rightarrow> if e = ErrNotFound then Inr None else Inl e
      | Inr ar \<Rightarrow> Inr (Some ar))"

definition attemptAt :: "string \<Rightarrow> attempt \<Rightarrow> int \<Rightarrow> attempt_row \<Rightarrow> bool" where
  "attemptAt account a v r = (isAttempt account (att_paymentID a) (att_id a) r \<and> arow_revision r = v)"

definition restatused :: "attempt \<Rightarrow> attempt_row \<Rightarrow> attempt_row" where
  "restatused a r =
     r\<lparr>arow_attempt := (arow_attempt r)\<lparr>att_status := att_status a, att_authorizer := att_authorizer a\<rparr>,
       arow_revision := arow_revision r + 1\<rparr>"

text \<open>\<open>saveAttempt\<close>. The check is the status's, and the partial unique index over live attempts.\<close>

definition saveAttempt :: "db \<Rightarrow> string \<Rightarrow> attempt \<Rightarrow> revision \<Rightarrow> (store_error, db) result" where
  "saveAttempt db account a at =
     (let P = attemptAt account a (rev_at at); rows = db_attempts db in
      if rowsAffected P rows = 0 then Inl ErrStale
      else if \<not> storable (att_authorizer a) then Inl ValueRefused
      else case firstBroken
             [(''attempts_status_is_one_of_the_lifecycle'', attempt_Valid (att_status a)),
              (''attempts_one_live_per_payment'',
                 live (att_status a) \<longrightarrow>
                   \<not> list_ex (\<lambda>x. ofPayment account (att_paymentID a) x \<and> \<not> P x \<and> live (att_status (arow_attempt x))) rows)] of
             Some n \<Rightarrow> Inl (ConstraintBroken n)
           | None \<Rightarrow> Inr (db\<lparr>db_attempts := updateWhere P (restatused a) rows\<rparr>))"

definition SaveAttempt :: "db \<Rightarrow> string \<Rightarrow> attempt option \<Rightarrow> revision \<Rightarrow> (store_error, db) result" where
  "SaveAttempt db account ao at =
     (case ao of
        None \<Rightarrow> Inl NothingToSave
      | Some a \<Rightarrow> if rev_id at \<noteq> att_id a then Inl ErrStale else saveAttempt db account a at)"

definition Attempted :: "db \<Rightarrow> string \<Rightarrow> string \<Rightarrow> nat" where
  "Attempted db account pid = rowsAffected (ofPayment account pid) (db_attempts db)"

section \<open>What a row says, and how it changes\<close>

lemma scanAttempt_Inr:
  "scanAttempt ro = Inr (a, at) \<longleftrightarrow>
     (\<exists>r. ro = Some r \<and> a = arow_attempt r \<and> attempt_wf a \<and> at = \<lparr>rev_id = att_id a, rev_at = arow_revision r\<rparr>)"
  by (auto simp: scanAttempt_def RestoreAttempt_Inr_iff res_simps split: option.splits sum.splits)

text \<open>
  The contract of every write of an attempt's row: its terms stay, its revision tells two states of it
  apart, and an attempt that was superseded stays so.
\<close>

definition aevolves :: "attempt_row \<Rightarrow> attempt_row \<Rightarrow> bool" where
  "aevolves r r' =
     (arow_account r' = arow_account r
      \<and> (\<exists>st who. arow_attempt r' = (arow_attempt r)\<lparr>att_status := st, att_authorizer := who\<rparr>)
      \<and> arow_revision r \<le> arow_revision r' \<and> (arow_revision r' = arow_revision r \<longrightarrow> r' = r)
      \<and> (\<not> live (att_status (arow_attempt r)) \<longrightarrow> att_status (arow_attempt r') = att_status (arow_attempt r)))"

lemma aevolves_refl [simp]: "aevolves r r"
  unfolding aevolves_def
  by (auto intro!: exI [of _ "att_status (arow_attempt r)"] exI [of _ "att_authorizer (arow_attempt r)"])

lemma aevolves_trans:
  assumes "aevolves x y" "aevolves y z"
  shows "aevolves x z"
proof -
  obtain st who where y: "arow_attempt y = (arow_attempt x)\<lparr>att_status := st, att_authorizer := who\<rparr>"
    using assms(1) by (auto simp: aevolves_def)
  obtain st' who' where z: "arow_attempt z = (arow_attempt y)\<lparr>att_status := st', att_authorizer := who'\<rparr>"
    using assms(2) by (auto simp: aevolves_def)
  have "arow_attempt z = (arow_attempt x)\<lparr>att_status := st', att_authorizer := who'\<rparr>"
    unfolding z y by simp
  moreover have "arow_account z = arow_account x" "arow_revision x \<le> arow_revision z"
      "arow_revision z = arow_revision x \<longrightarrow> z = x"
      "\<not> live (att_status (arow_attempt x)) \<longrightarrow> att_status (arow_attempt z) = att_status (arow_attempt x)"
    using assms by (auto simp: aevolves_def)
  ultimately show ?thesis unfolding aevolves_def by blast
qed

text \<open>A write that leaves an attempt live or superseded as it was: what a round makes.\<close>

definition asettles :: "attempt_row \<Rightarrow> attempt_row \<Rightarrow> bool" where
  "asettles r r' = (aevolves r r' \<and> live (att_status (arow_attempt r')) = live (att_status (arow_attempt r)))"

lemma asettles_refl [simp]: "asettles r r"
  by (simp add: asettles_def)

lemma asettles_trans: "asettles x y \<Longrightarrow> asettles y z \<Longrightarrow> asettles x z"
  using aevolves_trans by (auto simp: asettles_def)

lemma aevolves_key:
  assumes "aevolves r r'"
  shows "arow_account r' = arow_account r" "att_id (arow_attempt r') = att_id (arow_attempt r)"
    "att_paymentID (arow_attempt r') = att_paymentID (arow_attempt r)"
    "att_network (arow_attempt r') = att_network (arow_attempt r)" "att_key (arow_attempt r') = att_key (arow_attempt r)"
    "isAttempt account pid aid r' = isAttempt account pid aid r" "ofPayment account pid r' = ofPayment account pid r"
proof -
  obtain st who where "arow_attempt r' = (arow_attempt r)\<lparr>att_status := st, att_authorizer := who\<rparr>"
    and "arow_account r' = arow_account r"
    using assms by (auto simp: aevolves_def)
  then show "arow_account r' = arow_account r" "att_id (arow_attempt r') = att_id (arow_attempt r)"
    "att_paymentID (arow_attempt r') = att_paymentID (arow_attempt r)"
    "att_network (arow_attempt r') = att_network (arow_attempt r)" "att_key (arow_attempt r') = att_key (arow_attempt r)"
    "isAttempt account pid aid r' = isAttempt account pid aid r" "ofPayment account pid r' = ofPayment account pid r"
    by (simp_all add: isAttempt_def ofPayment_def)
qed

definition amovedFrom :: "attempt_row \<Rightarrow> attempt \<Rightarrow> bool" where
  "amovedFrom r a =
     (attempt_wf a
      \<and> (\<exists>st who. a = (arow_attempt r)\<lparr>att_status := st, att_authorizer := who\<rparr>)
      \<and> (\<not> live (att_status (arow_attempt r)) \<longrightarrow> att_status a = att_status (arow_attempt r)))"

lemma amovedFrom_moves:
  assumes "amovedFrom r a" "Confirm a who = Inr b \<or> Unconfirm a = Inr b \<or> Supersede a = Inr b"
  shows "amovedFrom r b"
proof -
  have "attempt_wf a" using assms(1) by (simp add: amovedFrom_def)
  with assms(2) have wf: "attempt_wf b" by (metis attempt_moves_wf)
  obtain st who where a: "a = (arow_attempt r)\<lparr>att_status := st, att_authorizer := who\<rparr>"
    using assms(1) by (auto simp: amovedFrom_def)
  obtain st' who' where b: "b = a\<lparr>att_status := st', att_authorizer := who'\<rparr>"
    using assms(2) by (cases a) (auto simp: attempt_moves)
  have "live (att_status a)" using assms(2) by (auto simp: attempt_moves live_def)
  then have "live (att_status (arow_attempt r))" using assms(1) by (auto simp: amovedFrom_def)
  moreover have "b = (arow_attempt r)\<lparr>att_status := st', att_authorizer := who'\<rparr>" unfolding b a by simp
  ultimately show ?thesis using wf unfolding amovedFrom_def by blast
qed

lemma restatused_simps [simp]:
  "arow_account (restatused a r) = arow_account r" "arow_revision (restatused a r) = arow_revision r + 1"
  "att_id (arow_attempt (restatused a r)) = att_id (arow_attempt r)"
  "att_paymentID (arow_attempt (restatused a r)) = att_paymentID (arow_attempt r)"
  "att_network (arow_attempt (restatused a r)) = att_network (arow_attempt r)"
  "att_key (arow_attempt (restatused a r)) = att_key (arow_attempt r)"
  "att_status (arow_attempt (restatused a r)) = att_status a"
  "isAttempt account pid aid (restatused a r) = isAttempt account pid aid r"
  "ofPayment account pid (restatused a r) = ofPayment account pid r"
  by (simp_all add: restatused_def isAttempt_def ofPayment_def)

lemma restatused_aevolves: "amovedFrom r a \<Longrightarrow> aevolves r (restatused a r)"
  by (fastforce simp: aevolves_def amovedFrom_def restatused_def)

section \<open>What the operations do\<close>

definition attempts_keyed :: "db \<Rightarrow> bool" where
  "attempts_keyed db =
     (distinct (map (\<lambda>r. (arow_account r, att_paymentID (arow_attempt r), att_id (arow_attempt r))) (db_attempts db))
      \<and> distinct (map (\<lambda>r. (att_network (arow_attempt r), att_key (arow_attempt r))) (db_attempts db))
      \<and> (\<forall>r\<in>set (db_attempts db). attempt_Valid (att_status (arow_attempt r)))
      \<and> (\<forall>r\<in>set (db_attempts db). \<forall>r'\<in>set (db_attempts db).
           live (att_status (arow_attempt r)) \<and> live (att_status (arow_attempt r'))
           \<and> arow_account r = arow_account r' \<and> att_paymentID (arow_attempt r) = att_paymentID (arow_attempt r')
           \<longrightarrow> r = r'))"

lemma attempts_keyed_frame [simp]:
  "attempts_keyed (db\<lparr>db_payments := ps\<rparr>) = attempts_keyed db"
  "attempts_keyed (db\<lparr>db_refunds := rs\<rparr>) = attempts_keyed db"
  "attempts_keyed (db\<lparr>db_observations := os\<rparr>) = attempts_keyed db"
  "attempts_keyed (db\<lparr>db_outbox := xs\<rparr>) = attempts_keyed db"
  "attempts_keyed (db\<lparr>db_cursors := cs\<rparr>) = attempts_keyed db"
  "attempts_keyed (db\<lparr>db_leases := ls\<rparr>) = attempts_keyed db"
  by (simp_all add: attempts_keyed_def)

lemma attempts_unique:
  "attempts_keyed db \<Longrightarrow> r \<in> set (db_attempts db) \<Longrightarrow> r' \<in> set (db_attempts db) \<Longrightarrow>
     isAttempt account pid aid r \<Longrightarrow> isAttempt account pid aid r' \<Longrightarrow> r = r'"
  unfolding attempts_keyed_def isAttempt_def
  using distinct_key_unique [of "\<lambda>r. (arow_account r, att_paymentID (arow_attempt r), att_id (arow_attempt r))" "db_attempts db" r r']
  by simp

lemma Issue_Inr:
  assumes "Issue db account (Some a) = Inr db'"
  shows "db' = db\<lparr>db_attempts := db_attempts db @ [newAttemptRow account a]\<rparr>"
    and "attempt_Valid (att_status a)"
    and "\<forall>x\<in>set (db_attempts db). \<not> isAttempt account (att_paymentID a) (att_id a) x"
    and "\<forall>x\<in>set (db_attempts db). \<not> (att_network (arow_attempt x) = att_network a \<and> att_key (arow_attempt x) = att_key a)"
    and "live (att_status a) \<Longrightarrow> \<forall>x\<in>set (db_attempts db). ofPayment account (att_paymentID a) x \<longrightarrow> \<not> live (att_status (arow_attempt x))"
    and "\<exists>x\<in>set (db_payments db). isPayment account (att_paymentID a) x"
  using assms
  by (auto simp: Issue_def insertAttempt_def Let_def res_simps attemptRules_def list_ex_iff isAttempt_def
      ofPayment_def newAttemptRow_def isPayment_def simp del: firstBroken.simps)

lemma newAttemptRow_simps [simp]:
  "arow_account (newAttemptRow account a) = account" "arow_revision (newAttemptRow account a) = 1"
  "att_id (arow_attempt (newAttemptRow account a)) = att_id a"
  "att_paymentID (arow_attempt (newAttemptRow account a)) = att_paymentID a"
  "att_network (arow_attempt (newAttemptRow account a)) = att_network a"
  "att_key (arow_attempt (newAttemptRow account a)) = att_key a"
  "att_status (arow_attempt (newAttemptRow account a)) = att_status a"
  by (simp_all add: newAttemptRow_def)

lemma Issue_keyed:
  assumes "Issue db account (Some a) = Inr db'" "attempts_keyed db"
  shows "attempts_keyed db'"
proof -
  note i = Issue_Inr [OF assms(1)]
  show ?thesis
    unfolding attempts_keyed_def i(1) using assms(2) i(2-5)
    by (simp add: attempts_keyed_def isAttempt_def ofPayment_def) fastforce
qed

lemma saveAttempt_Inr_iff:
  "saveAttempt db account a at = Inr db' \<longleftrightarrow>
     (\<exists>r\<in>set (db_attempts db). attemptAt account a (rev_at at) r) \<and> storable (att_authorizer a)
     \<and> attempt_Valid (att_status a)
     \<and> (live (att_status a) \<longrightarrow> (\<forall>x\<in>set (db_attempts db). ofPayment account (att_paymentID a) x
          \<and> \<not> attemptAt account a (rev_at at) x \<longrightarrow> \<not> live (att_status (arow_attempt x))))
     \<and> db' = db\<lparr>db_attempts := updateWhere (attemptAt account a (rev_at at)) (restatused a) (db_attempts db)\<rparr>"
  by (auto simp: saveAttempt_def Let_def res_simps list_ex_iff)

lemma saveAttempt_keyed:
  assumes "saveAttempt db account a at = Inr db'" "attempts_keyed db"
  shows "attempts_keyed db'"
proof -
  let ?P = "attemptAt account a (rev_at at)"
  have d: "db_attempts db' = updateWhere ?P (restatused a) (db_attempts db)"
    using assms(1) by (simp add: saveAttempt_Inr_iff)
  have one: "r = r'" if "r \<in> set (db_attempts db)" "r' \<in> set (db_attempts db)" "?P r" "?P r'" for r r'
    using attempts_unique [OF assms(2) that(1,2)] that(3,4) by (auto simp: attemptAt_def)
  have lone: "live (att_status a) \<Longrightarrow> x \<in> set (db_attempts db) \<Longrightarrow> ofPayment account (att_paymentID a) x \<Longrightarrow> \<not> ?P x
      \<Longrightarrow> \<not> live (att_status (arow_attempt x))" for x
    using assms(1) by (simp add: saveAttempt_Inr_iff)
  have of: "?P r \<Longrightarrow> ofPayment account (att_paymentID a) r" for r by (simp add: attemptAt_def isAttempt_def ofPayment_def)
  have "\<forall>r\<in>set (db_attempts db'). \<forall>r'\<in>set (db_attempts db').
           live (att_status (arow_attempt r)) \<and> live (att_status (arow_attempt r'))
           \<and> arow_account r = arow_account r' \<and> att_paymentID (arow_attempt r) = att_paymentID (arow_attempt r')
           \<longrightarrow> r = r'"
  proof (intro ballI impI)
    fix r r' assume r: "r \<in> set (db_attempts db')" "r' \<in> set (db_attempts db')"
      and l: "live (att_status (arow_attempt r)) \<and> live (att_status (arow_attempt r'))
           \<and> arow_account r = arow_account r' \<and> att_paymentID (arow_attempt r) = att_paymentID (arow_attempt r')"
    obtain s where s: "s \<in> set (db_attempts db)" "r = (if ?P s then restatused a s else s)" using r(1) by (auto simp: d in_updateWhere)
    obtain s' where s': "s' \<in> set (db_attempts db)" "r' = (if ?P s' then restatused a s' else s')" using r(2) by (auto simp: d in_updateWhere)
    have contra: False
      if "?P x" "\<not> ?P y" "y \<in> set (db_attempts db)" "live (att_status a)" "live (att_status (arow_attempt y))"
        "arow_account x = arow_account y" "att_paymentID (arow_attempt x) = att_paymentID (arow_attempt y)" for x y
      using lone [OF that(4,3) _ that(2)] of [OF that(1)] that(5-7) by (simp add: ofPayment_def)
    consider "?P s" "?P s'" | "?P s" "\<not> ?P s'" | "\<not> ?P s" "?P s'" | "\<not> ?P s" "\<not> ?P s'" by blast
    then show "r = r'"
    proof cases
      case 1 then show ?thesis using one [OF s(1) s'(1)] s s' by simp
    next
      case 2 then show ?thesis using contra [OF 2 s'(1)] l s(2) s'(2) by simp
    next
      case 3 then show ?thesis using contra [OF 3(2,1) s(1)] l s(2) s'(2) by simp
    next
      case 4 then show ?thesis using assms(2) l s s' by (simp add: attempts_keyed_def)
    qed
  qed
  moreover have "\<forall>r\<in>set (db_attempts db'). attempt_Valid (att_status (arow_attempt r))"
    using assms by (auto simp: d in_updateWhere attempts_keyed_def saveAttempt_Inr_iff)
  ultimately show ?thesis
    using assms(2) unfolding attempts_keyed_def by (simp add: d map_updateWhere_frame)
qed

section \<open>Growth, and the copies readers hold\<close>

lemma Issue_grown: "Issue db account (Some a) = Inr db' \<Longrightarrow> grown aevolves (db_attempts db) (db_attempts db')"
  using Issue_Inr(1) [of db account a db'] by (auto intro!: grown_append)

lemma saveAttempt_grown:
  assumes "saveAttempt db account a at = Inr db'"
    and "\<And>r. r \<in> set (db_attempts db) \<Longrightarrow> attemptAt account a (rev_at at) r \<Longrightarrow> amovedFrom r a"
  shows "grown aevolves (db_attempts db) (db_attempts db')"
  using assms by (auto simp: saveAttempt_Inr_iff intro!: grown_update restatused_aevolves)

definition atracks :: "db \<Rightarrow> string \<Rightarrow> attempt \<Rightarrow> revision \<Rightarrow> bool" where
  "atracks db account a at =
     (\<exists>r\<in>set (db_attempts db). isAttempt account (att_paymentID a) (att_id a) r \<and> rev_at at \<le> arow_revision r
        \<and> (arow_revision r = rev_at at \<longrightarrow> amovedFrom r a))"

lemma row_atracks:
  assumes "r \<in> set (db_attempts db)" "attempt_wf (arow_attempt r)" "rev_at at = arow_revision r"
  shows "atracks db (arow_account r) (arow_attempt r) at"
proof -
  have "amovedFrom r (arow_attempt r)" unfolding amovedFrom_def
    using assms(2) by (auto intro!: exI [of _ "att_status (arow_attempt r)"] exI [of _ "att_authorizer (arow_attempt r)"])
  then show ?thesis using assms by (auto simp: atracks_def isAttempt_def)
qed

lemma scan_atracks:
  assumes "scanAttempt (List.find P (db_attempts db)) = Inr (a, at)"
    and "\<And>r. P r \<Longrightarrow> arow_account r = account"
  shows "atracks db account a at"
proof -
  obtain r where r: "List.find P (db_attempts db) = Some r" "a = arow_attempt r" "attempt_wf a"
      "at = \<lparr>rev_id = att_id a, rev_at = arow_revision r\<rparr>"
    using assms(1) by (auto simp: scanAttempt_Inr)
  then show ?thesis
    using row_atracks [of r db at] find_SomeD [OF r(1)] assms(2) by auto
qed

lemma FindAttempt_atracks: "FindAttempt db account pid aid = Inr (a, at) \<Longrightarrow>
    atracks db account a at \<and> att_paymentID a = pid \<and> att_id a = aid \<and> rev_id at = aid"
  unfolding FindAttempt_def
  by (intro conjI scan_atracks [where P = "isAttempt account pid aid"])
    (auto simp: isAttempt_def scanAttempt_Inr dest: find_SomeD)

lemma Live_Some:
  "Live db account pid = Inr (Some (a, at)) \<longleftrightarrow>
     scanAttempt (List.find (\<lambda>r. ofPayment account pid r \<and> live (att_status (arow_attempt r))) (db_attempts db)) = Inr (a, at)"
  by (auto simp: Live_def res_simps split: sum.splits if_splits)

lemma Live_atracks: "Live db account pid = Inr (Some (a, at)) \<Longrightarrow>
    atracks db account a at \<and> att_paymentID a = pid \<and> live (att_status a) \<and> rev_id at = att_id a"
  unfolding Live_Some
  by (intro conjI scan_atracks [where P = "\<lambda>r. ofPayment account pid r \<and> live (att_status (arow_attempt r))"])
    (auto simp: ofPayment_def scanAttempt_Inr dest: find_SomeD)

lemma Live_None:
  assumes "Live db account pid = Inr None" "r \<in> set (db_attempts db)" "ofPayment account pid r"
  shows "\<not> live (att_status (arow_attempt r))"
proof -
  have "scanAttempt (List.find (\<lambda>r. ofPayment account pid r \<and> live (att_status (arow_attempt r))) (db_attempts db)) = Inl ErrNotFound"
    using assms(1) by (auto simp: Live_def split: sum.splits if_splits)
  then have "List.find (\<lambda>r. ofPayment account pid r \<and> live (att_status (arow_attempt r))) (db_attempts db) = None"
    by (auto simp: scanAttempt_def split: option.splits sum.splits)
  then show ?thesis using assms(2,3) by (auto simp: find_None_iff)
qed

lemma atracks_moves:
  assumes "atracks db account a at" "Confirm a who = Inr b \<or> Unconfirm a = Inr b \<or> Supersede a = Inr b"
  shows "atracks db account b at"
proof -
  have "att_id b = att_id a" "att_paymentID b = att_paymentID a"
    using assms(2) by (auto simp: attempt_moves)
  then show ?thesis using assms(1) amovedFrom_moves [OF _ assms(2)] by (auto simp: atracks_def)
qed

lemma atracks_grown:
  assumes "atracks db account a at" "grown aevolves (db_attempts db) (db_attempts db')"
  shows "atracks db' account a at"
proof -
  obtain r where r: "r \<in> set (db_attempts db)" "isAttempt account (att_paymentID a) (att_id a) r"
      "rev_at at \<le> arow_revision r" "arow_revision r = rev_at at \<longrightarrow> amovedFrom r a"
    using assms(1) by (auto simp: atracks_def)
  obtain r' where r': "r' \<in> set (db_attempts db')" "aevolves r r'"
    using grown_row [OF assms(2) r(1)] by blast
  have "isAttempt account (att_paymentID a) (att_id a) r'" using r(2) aevolves_key(6) [OF r'(2)] by simp
  moreover have "arow_revision r \<le> arow_revision r'" "arow_revision r' = arow_revision r \<longrightarrow> r' = r"
    using r'(2) by (simp_all add: aevolves_def)
  ultimately show ?thesis using r r'(1) unfolding atracks_def by (intro bexI [of _ r']) auto
qed

lemma atracks_row:
  assumes "attempts_keyed db" "atracks db account a at" "r \<in> set (db_attempts db)" "attemptAt account a (rev_at at) r"
  shows "amovedFrom r a"
proof -
  obtain r' where r': "r' \<in> set (db_attempts db)" "isAttempt account (att_paymentID a) (att_id a) r'"
      "arow_revision r' = rev_at at \<longrightarrow> amovedFrom r' a"
    using assms(2) by (auto simp: atracks_def)
  then have "r' = r"
    using attempts_unique [OF assms(1) r'(1) assms(3) r'(2)] assms(4) by (auto simp: attemptAt_def)
  with r' show ?thesis using assms(4) by (auto simp: attemptAt_def)
qed

lemma saveAttempt_tracked:
  assumes "saveAttempt db account a at = Inr db'" "attempts_keyed db" "atracks db account a at"
  shows "grown aevolves (db_attempts db) (db_attempts db')"
  using saveAttempt_grown [OF assms(1)] atracks_row [OF assms(2,3)] by blast

lemma amovedFrom_live: "amovedFrom r a \<Longrightarrow> live (att_status a) \<Longrightarrow> live (att_status (arow_attempt r))"
  by (auto simp: amovedFrom_def)

lemma saveAttempt_settles:
  assumes "saveAttempt db account a at = Inr db'" "attempts_keyed db" "atracks db account a at" "live (att_status a)"
  shows "list_all2 asettles (db_attempts db) (db_attempts db')"
proof -
  have d: "db_attempts db' = updateWhere (attemptAt account a (rev_at at)) (restatused a) (db_attempts db)"
    using assms(1) by (simp add: saveAttempt_Inr_iff)
  have "asettles r (restatused a r)" if "r \<in> set (db_attempts db)" "attemptAt account a (rev_at at) r" for r
    using restatused_aevolves amovedFrom_live atracks_row [OF assms(2,3) that] assms(4)
    by (simp add: asettles_def)
  then show ?thesis
    unfolding d updateWhere_def list_all2_map2 by (intro list_all2_same [THEN iffD2]) auto
qed

section \<open>The store is versioned\<close>

type_synonym attempt_write = "string \<times> attempt \<times> revision"

definition attemptWrite :: "attempt_write \<Rightarrow> db \<Rightarrow> (store_error, db) result" where
  "attemptWrite w db = (case w of (account, a, at) \<Rightarrow> SaveAttempt db account (Some a) at)"

definition attemptKey :: "attempt_write \<Rightarrow> string \<times> string \<times> string" where
  "attemptKey w = (case w of (account, a, at) \<Rightarrow> (account, att_paymentID a, att_id a))"

definition attemptWriteAt :: "attempt_write \<Rightarrow> int" where
  "attemptWriteAt w = (case w of (account, a, at) \<Rightarrow> rev_at at)"

definition attemptVersion :: "db \<Rightarrow> string \<times> string \<times> string \<Rightarrow> int option" where
  "attemptVersion db k =
     (case k of (account, pid, aid) \<Rightarrow> map_option arow_revision (List.find (isAttempt account pid aid) (db_attempts db)))"

lemma attemptVersion_row:
  assumes "attempts_keyed db" "r \<in> set (db_attempts db)" "isAttempt account pid aid r"
  shows "attemptVersion db (account, pid, aid) = Some (arow_revision r)"
proof -
  obtain r' where r': "List.find (isAttempt account pid aid) (db_attempts db) = Some r'"
    using assms(2,3) by (cases "List.find (isAttempt account pid aid) (db_attempts db)") (auto simp: find_None_iff)
  then have "r' = r"
    using attempts_unique [OF assms(1) _ assms(2) _ assms(3)] find_SomeD [OF r'] by auto
  with r' show ?thesis by (simp add: attemptVersion_def)
qed

interpretation attempt_store: versioned_store attempts_keyed attemptVersion attemptKey attemptWriteAt attemptWrite
proof unfold_locales
  fix db db' :: db and w :: attempt_write and k
  obtain account a at where w: "w = (account, a, at)" by (cases w)
  assume inv: "attempts_keyed db" and "attemptWrite w db = Inr db'"
  then have s: "saveAttempt db account a at = Inr db'"
    by (simp add: w attemptWrite_def SaveAttempt_def split: if_splits)
  let ?P = "attemptAt account a (rev_at at)"
  obtain r where r: "r \<in> set (db_attempts db)" "?P r" using s by (auto simp: saveAttempt_Inr_iff)
  have d: "db_attempts db' = updateWhere ?P (restatused a) (db_attempts db)" using s by (simp add: saveAttempt_Inr_iff)
  show keyed: "attempts_keyed db'" by (rule saveAttempt_keyed [OF s inv])
  show "attemptVersion db (attemptKey w) = Some (attemptWriteAt w)"
    using attemptVersion_row [OF inv r(1)] r(2) by (simp add: w attemptKey_def attemptWriteAt_def attemptAt_def)
  have "restatused a r \<in> set (db_attempts db')" using r by (auto simp: d in_updateWhere)
  then show "attemptVersion db' (attemptKey w) = Some (attemptWriteAt w + 1)"
    using attemptVersion_row [OF keyed, of "restatused a r"] r(2)
    by (simp add: w attemptKey_def attemptWriteAt_def attemptAt_def)
  assume k: "k \<noteq> attemptKey w"
  obtain ka kp ki where kk: "k = (ka, kp, ki)" by (cases k)
  have "List.find (isAttempt ka kp ki) (updateWhere ?P (restatused a) (db_attempts db))
      = map_option (\<lambda>r. if ?P r then restatused a r else r) (List.find (isAttempt ka kp ki) (db_attempts db))"
    by (rule find_updateWhere_frame) simp
  moreover have "\<not> ?P r" if "List.find (isAttempt ka kp ki) (db_attempts db) = Some r" for r
    using find_SomeD [OF that] k by (auto simp: kk w attemptKey_def attemptAt_def isAttempt_def)
  ultimately show "attemptVersion db' k = attemptVersion db k"
    by (cases "List.find (isAttempt ka kp ki) (db_attempts db)") (auto simp: attemptVersion_def d kk)
qed

end
