(* ===== verification/Store_Refunds.thy ===== *)
theory Store_Refunds
  imports Store_Attempts
begin

text \<open>
  Refunds in the store (postgres.go): \<open>CreateRefund\<close> and the ceiling it measures under the payment's
  lock, the reads, and \<open>SaveRefund\<close>.
\<close>

section \<open>Operations\<close>

text \<open>\<open>refunder.refund\<close>: a refund's row, with the asset of the payment's row it is joined to.\<close>

definition rowRefund :: "refund_row \<Rightarrow> payment_row \<Rightarrow> (store_error, refund \<times> revision) result" where
  "rowRefund r p =
     (case NewAsset (prow_network p) (prow_reference p) (prow_symbol p) (prow_decimals p) of
        Inl e \<Rightarrow> Inl (RowMoney e)
      | Inr asset \<Rightarrow>
     (case ParseMoney asset (bigString (rrow_amount r)) of
        Inl e \<Rightarrow> Inl (RowMoney e)
      | Inr amount \<Rightarrow>
     (case RestoreRefund
             \<lparr>ref_id = rrow_id r, ref_paymentID = rrow_payment r, ref_amount = amount,
              ref_destination = rrow_destination r, ref_scheme = rrow_scheme r, ref_network = rrow_network r,
              ref_key = rrow_key r, ref_expiresAt = rrow_expiresAt r, ref_status = rrow_status r,
              ref_token = \<lparr>pt_hash = rrow_tokenHash r, pt_keyID = rrow_tokenKeyID r\<rparr>,
              ref_idempotency = \<lparr>idem_key = (case rrow_idempotencyKey r of None \<Rightarrow> [] | Some k \<Rightarrow> k),
                                 idem_bodyHash = (case rrow_idempotencyBodyHash r of None \<Rightarrow> [] | Some h \<Rightarrow> h)\<rparr>,
              ref_createdAt = rrow_createdAt r,
              ref_closedAt = (case rrow_closedAt r of None \<Rightarrow> 0 | Some t \<Rightarrow> t)\<rparr> of
        Inl ps \<Rightarrow> Inl (StoreProblems ps)
      | Inr q \<Rightarrow> Inr (q, \<lparr>rev_id = rrow_id r, rev_at = rrow_version r\<rparr>))))"

text \<open>The join every read of a refund makes.\<close>

definition paymentOf :: "db \<Rightarrow> refund_row \<Rightarrow> payment_row option" where
  "paymentOf db r = List.find (isPayment (rrow_account r) (rrow_payment r)) (db_payments db)"

definition isRefund :: "string \<Rightarrow> string \<Rightarrow> string \<Rightarrow> refund_row \<Rightarrow> bool" where
  "isRefund account pid rid r = (rrow_account r = account \<and> rrow_payment r = pid \<and> rrow_id r = rid)"

definition FindRefund :: "db \<Rightarrow> string \<Rightarrow> string \<Rightarrow> string \<Rightarrow> (store_error, refund \<times> revision) result" where
  "FindRefund db account pid rid =
     (case List.find (isRefund account pid rid) (db_refunds db) of
        None \<Rightarrow> Inl ErrNotFound
      | Some r \<Rightarrow> (case paymentOf db r of None \<Rightarrow> Inl ErrNotFound | Some p \<Rightarrow> rowRefund r p))"

definition FindRefundByKey :: "db \<Rightarrow> string \<Rightarrow> string \<Rightarrow> (store_error, refund \<times> revision) result" where
  "FindRefundByKey db account key =
     (case List.find (\<lambda>r. rrow_account r = account \<and> rrow_idempotencyKey r = Some key) (db_refunds db) of
        None \<Rightarrow> Inl ErrNotFound
      | Some r \<Rightarrow> FindRefund db account (rrow_payment r) (rrow_id r))"

text \<open>The row whose transfer was seen last is the one a refund is answered with.\<close>

definition RefundTransfer :: "db \<Rightarrow> string \<Rightarrow> string \<Rightarrow> string \<Rightarrow> (store_error, transfer option) result" where
  "RefundTransfer db account pid rid =
     (case sort_key (\<lambda>o1. - ob_seenAt o1)
             (filter (\<lambda>o1. ob_account o1 = account \<and> ob_payment o1 = pid \<and> ob_refund o1 = Some rid
                \<and> ob_reason o1 = Matched) (db_observations db)) of
        [] \<Rightarrow> Inr None
      | o1 # _ \<Rightarrow> bindE (rowTransfer o1) (\<lambda>t. Inr (Some t)))"

definition holdsAgainst :: "string \<Rightarrow> string \<Rightarrow> refund_row \<Rightarrow> bool" where
  "holdsAgainst account pid r =
     (rrow_account r = account \<and> rrow_payment r = pid \<and> rrow_status r \<noteq> RefundExpired)"

definition heldSum :: "db \<Rightarrow> string \<Rightarrow> string \<Rightarrow> int" where
  "heldSum db account pid = sum_list (map rrow_amount (filter (holdsAgainst account pid) (db_refunds db)))"

text \<open>\<open>refunded\<close>: the sum as PostgreSQL writes it out.\<close>

definition refunded :: "db \<Rightarrow> string \<Rightarrow> string \<Rightarrow> string" where
  "refunded db account pid = bigString (heldSum db account pid)"

definition Refunded :: "db \<Rightarrow> string \<Rightarrow> string \<Rightarrow> string" where
  "Refunded db account pid = refunded db account pid"

definition remaining :: "string \<Rightarrow> string \<Rightarrow> (store_error, int) result" where
  "remaining arrived held =
     (case setString arrived of
        None \<Rightarrow> Inl (NotANumber arrived)
      | Some came \<Rightarrow>
     (case setString held of
        None \<Rightarrow> Inl (NotANumber held)
      | Some out \<Rightarrow> Inr (came - out)))"

definition newRefundRow :: "string \<Rightarrow> refund \<Rightarrow> refund_row" where
  "newRefundRow account r =
     (let i = ref_idempotency r in
      \<lparr>rrow_account = account, rrow_payment = ref_paymentID r, rrow_id = ref_id r,
       rrow_amount = Amount (ref_amount r), rrow_destination = ref_destination r, rrow_scheme = ref_scheme r,
       rrow_network = ref_network r, rrow_key = ref_key r, rrow_expiresAt = stamp (ref_expiresAt r),
       rrow_status = ref_status r, rrow_tokenHash = pt_hash (ref_token r), rrow_tokenKeyID = pt_keyID (ref_token r),
       rrow_idempotencyKey = (if idem_IsSet i then Some (idem_key i) else None),
       rrow_idempotencyBodyHash = (if idem_IsSet i then Some (idem_bodyHash i) else None),
       rrow_createdAt = stamp (ref_createdAt r), rrow_closedAt = None, rrow_version = 1\<rparr>)"

definition insertRefund :: "db \<Rightarrow> refund_row \<Rightarrow> (store_error, db) result" where
  "insertRefund db r =
     (if \<not> numeric78 (rrow_amount r)
         \<or> \<not> list_all storable [rrow_payment r, rrow_id r, rrow_destination r, rrow_scheme r, rrow_network r,
              rrow_key r, refund_status_String (rrow_status r), rrow_tokenKeyID r]
         \<or> \<not> (case rrow_idempotencyKey r of None \<Rightarrow> True | Some k \<Rightarrow> storable k)
      then Inl ValueRefused
      else case firstBroken (refundRules db r) of
             Some n \<Rightarrow> Inl (ConstraintBroken n)
           | None \<Rightarrow> Inr (db\<lparr>db_refunds := db_refunds db @ [r]\<rparr>))"

definition refundError :: "store_error \<Rightarrow> store_error" where
  "refundError e =
     (if e = ConstraintBroken ''refunds_by_idempotency_key'' then ErrIdempotencyKeyUsed
      else if e = ConstraintBroken ''refunds_by_key'' then ErrKeyTaken
      else e)"

text \<open>The refusal of \<open>CreateRefund\<close>: nothing left is nothing left, never less.\<close>

definition tooMuch :: "refund \<Rightarrow> int \<Rightarrow> store_error" where
  "tooMuch r left =
     (case NewMoney (mo_asset (ref_amount r)) (Some (if left < 0 then 0 else left)) of
        Inl e \<Rightarrow> RowMoney e
      | Inr rest \<Rightarrow> StoreProblems [Problem ''amount'' (MoreThanLeft (Units (ref_amount r)) (Units rest))])"

definition CreateRefund :: "db \<Rightarrow> string \<Rightarrow> refund option \<Rightarrow> (store_error, db) result" where
  "CreateRefund db account ro =
     (case ro of
        None \<Rightarrow> Inl NothingToSave
      | Some r \<Rightarrow>
     (case List.find (isPayment account (ref_paymentID r)) (db_payments db) of
        None \<Rightarrow> Inl ErrNotFound
      | Some p \<Rightarrow>
          if prow_status p \<noteq> Succeeded
          then Inl (StoreProblems [Problem ''status'' (NotRefundable (prow_status p))])
          else
     (case prow_received p of
        None \<Rightarrow> Inl (StoreProblems [Problem ''status'' NothingArrived])
      | Some received \<Rightarrow>
     (case remaining (bigString received) (refunded db account (ref_paymentID r)) of
        Inl e \<Rightarrow> Inl e
      | Inr left \<Rightarrow>
          if left < Amount (ref_amount r)
          then Inl (tooMuch r left)
          else mapErr refundError (insertRefund db (newRefundRow account r))))))"

definition refundAt :: "string \<Rightarrow> string \<Rightarrow> int \<Rightarrow> refund_row \<Rightarrow> bool" where
  "refundAt account rid v r = (rrow_account r = account \<and> rrow_id r = rid \<and> rrow_version r = v)"

definition resettled :: "gotime \<Rightarrow> refund \<Rightarrow> refund_row \<Rightarrow> refund_row" where
  "resettled clock q r =
     r\<lparr>rrow_status := ref_status q, rrow_version := rrow_version r + 1,
       rrow_closedAt := (case rrow_closedAt r of
                           Some t \<Rightarrow> Some t
                         | None \<Rightarrow> if refund_Final (ref_status q) then Some (stamp clock) else None)\<rparr>"

definition SaveRefund :: "gotime \<Rightarrow> db \<Rightarrow> string \<Rightarrow> refund option \<Rightarrow> revision \<Rightarrow> event \<Rightarrow> (store_error, db) result" where
  "SaveRefund clock db account ro at e =
     (case ro of
        None \<Rightarrow> Inl NothingToSave
      | Some q \<Rightarrow>
          let P = refundAt account (ref_id q) (rev_at at) in
          if rowsAffected P (db_refunds db) = 0 then Inl ErrStale
          else let db1 = db\<lparr>db_refunds := updateWhere P (resettled clock q) (db_refunds db)\<rparr> in
               if ev_name e \<noteq> [] \<or> length (ev_payload e) > 0
               then writeOutbox db1 account (ref_paymentID q) e
               else Inr db1)"

section \<open>How a refund's row changes\<close>

definition revolves :: "refund_row \<Rightarrow> refund_row \<Rightarrow> bool" where
  "revolves r r' =
     (r' = r\<lparr>rrow_status := rrow_status r', rrow_version := rrow_version r', rrow_closedAt := rrow_closedAt r'\<rparr>
      \<and> rrow_version r \<le> rrow_version r' \<and> (rrow_version r' = rrow_version r \<longrightarrow> r' = r)
      \<and> (\<lambda>s t. t \<in> set (refundMovesOf s))\<^sup>*\<^sup>* (rrow_status r) (rrow_status r'))"

lemma revolves_refl [simp]: "revolves r r"
  by (simp add: revolves_def)

lemma revolves_trans:
  assumes "revolves x y" "revolves y z"
  shows "revolves x z"
proof -
  have "z = x\<lparr>rrow_status := rrow_status z, rrow_version := rrow_version z, rrow_closedAt := rrow_closedAt z\<rparr>"
    using assms by (cases x; cases y; cases z) (simp add: revolves_def)
  then show ?thesis
    using assms unfolding revolves_def by (smt (verit) rtranclp_trans)
qed

lemma revolves_key:
  assumes "revolves r r'"
  shows "rrow_account r' = rrow_account r" "rrow_payment r' = rrow_payment r" "rrow_id r' = rrow_id r"
    "rrow_network r' = rrow_network r" "rrow_key r' = rrow_key r" "rrow_amount r' = rrow_amount r"
    "isRefund account pid rid r' = isRefund account pid rid r"
  using assms by (cases r; cases r'; simp add: revolves_def isRefund_def)+

text \<open>A refund that expired stays expired, so what is held against a payment never comes back.\<close>

lemma revolves_holds:
  assumes "revolves r r'" "holdsAgainst account pid r'"
  shows "holdsAgainst account pid r"
proof -
  have "(\<lambda>s t. t \<in> set (refundMovesOf s))\<^sup>*\<^sup>* (rrow_status r) (rrow_status r')"
    using assms(1) unfolding revolves_def by blast
  from refund_life.final_stays [OF this] show ?thesis
    using assms(2) revolves_key(1,2) [OF assms(1)] by (auto simp: holdsAgainst_def refund_Final_def)
qed

definition rmovedFrom :: "refund_row \<Rightarrow> refund \<Rightarrow> bool" where
  "rmovedFrom r q =
     (ref_id q = rrow_id r \<and> ref_paymentID q = rrow_payment r
      \<and> (\<lambda>s t. t \<in> set (refundMovesOf s))\<^sup>*\<^sup>* (rrow_status r) (ref_status q))"

lemma rowRefund_Inr:
  assumes "rowRefund r p = Inr (q, at)"
  shows "rmovedFrom r q" "at = \<lparr>rev_id = rrow_id r, rev_at = rrow_version r\<rparr>" "ref_status q = rrow_status r"
    and "ref_id q = rrow_id r" "ref_paymentID q = rrow_payment r" "ref_expiresAt q = rrow_expiresAt r"
    and "ref_key q = rrow_key r" "ref_network q = rrow_network r"
proof -
  obtain amount where q: "q = \<lparr>ref_id = rrow_id r, ref_paymentID = rrow_payment r, ref_amount = amount,
              ref_destination = rrow_destination r, ref_scheme = rrow_scheme r, ref_network = rrow_network r,
              ref_key = rrow_key r, ref_expiresAt = rrow_expiresAt r, ref_status = rrow_status r,
              ref_token = \<lparr>pt_hash = rrow_tokenHash r, pt_keyID = rrow_tokenKeyID r\<rparr>,
              ref_idempotency = \<lparr>idem_key = (case rrow_idempotencyKey r of None \<Rightarrow> [] | Some k \<Rightarrow> k),
                                 idem_bodyHash = (case rrow_idempotencyBodyHash r of None \<Rightarrow> [] | Some h \<Rightarrow> h)\<rparr>,
              ref_createdAt = rrow_createdAt r,
              ref_closedAt = (case rrow_closedAt r of None \<Rightarrow> 0 | Some t \<Rightarrow> t)\<rparr>"
      and at: "at = \<lparr>rev_id = rrow_id r, rev_at = rrow_version r\<rparr>"
    using assms by (auto simp: rowRefund_def res_simps RestoreRefund_Inr_iff)
  show "rmovedFrom r q" "at = \<lparr>rev_id = rrow_id r, rev_at = rrow_version r\<rparr>" "ref_status q = rrow_status r"
    "ref_id q = rrow_id r" "ref_paymentID q = rrow_payment r" "ref_expiresAt q = rrow_expiresAt r"
    "ref_key q = rrow_key r" "ref_network q = rrow_network r"
    by (simp_all add: q at rmovedFrom_def)
qed

lemma refundMove_rmovedFrom:
  assumes "rmovedFrom r q" "refundMoveTo q s = Inr q'"
  shows "rmovedFrom r q'"
proof -
  have q': "q' = q\<lparr>ref_status := s\<rparr>" and move: "s \<in> set (refundMovesOf (ref_status q))"
    using assms(2) by (simp_all add: refundMoveTo_Inr_iff)
  have "(\<lambda>s t. t \<in> set (refundMovesOf s))\<^sup>*\<^sup>* (rrow_status r) (ref_status q)"
    using assms(1) by (simp add: rmovedFrom_def)
  from rtranclp.rtrancl_into_rtrancl [OF this] move
  have "(\<lambda>s t. t \<in> set (refundMovesOf s))\<^sup>*\<^sup>* (rrow_status r) s" by blast
  then show ?thesis using assms(1) by (simp add: rmovedFrom_def q')
qed

lemma resettled_simps [simp]:
  "rrow_account (resettled clock q r) = rrow_account r" "rrow_payment (resettled clock q r) = rrow_payment r"
  "rrow_id (resettled clock q r) = rrow_id r" "rrow_version (resettled clock q r) = rrow_version r + 1"
  "rrow_status (resettled clock q r) = ref_status q" "rrow_amount (resettled clock q r) = rrow_amount r"
  "rrow_network (resettled clock q r) = rrow_network r" "rrow_key (resettled clock q r) = rrow_key r"
  "rrow_tokenHash (resettled clock q r) = rrow_tokenHash r"
  "rrow_idempotencyKey (resettled clock q r) = rrow_idempotencyKey r"
  by (simp_all add: resettled_def)

lemma resettled_revolves: "rmovedFrom r q \<Longrightarrow> revolves r (resettled clock q r)"
  by (cases r) (auto simp: revolves_def rmovedFrom_def resettled_def)

section \<open>What the operations do\<close>

text \<open>
  Under one account a refund is named by its identifier alone: it is 128 random bits. The schema keys
  a refund by its payment as well, so this is what the identifiers promise and not what the schema does.
\<close>

definition refunds_keyed :: "db \<Rightarrow> bool" where
  "refunds_keyed db =
     (distinct (map (\<lambda>r. (rrow_account r, rrow_id r)) (db_refunds db))
      \<and> distinct (map (\<lambda>r. (rrow_network r, rrow_key r)) (db_refunds db))
      \<and> (\<forall>r\<in>set (db_refunds db). 0 < rrow_amount r))"

lemma refunds_keyed_frame [simp]:
  "refunds_keyed (db\<lparr>db_payments := ps\<rparr>) = refunds_keyed db"
  "refunds_keyed (db\<lparr>db_attempts := as\<rparr>) = refunds_keyed db"
  "refunds_keyed (db\<lparr>db_observations := os\<rparr>) = refunds_keyed db"
  "refunds_keyed (db\<lparr>db_outbox := xs\<rparr>) = refunds_keyed db"
  "refunds_keyed (db\<lparr>db_cursors := cs\<rparr>) = refunds_keyed db"
  "refunds_keyed (db\<lparr>db_leases := ls\<rparr>) = refunds_keyed db"
  by (simp_all add: refunds_keyed_def)

lemma refunds_unique:
  "refunds_keyed db \<Longrightarrow> r \<in> set (db_refunds db) \<Longrightarrow> r' \<in> set (db_refunds db) \<Longrightarrow>
     rrow_account r = rrow_account r' \<Longrightarrow> rrow_id r = rrow_id r' \<Longrightarrow> r = r'"
  unfolding refunds_keyed_def
  using distinct_key_unique [of "\<lambda>r. (rrow_account r, rrow_id r)" "db_refunds db" r r'] by simp

lemma newRefundRow_simps [simp]:
  "rrow_account (newRefundRow account r) = account" "rrow_payment (newRefundRow account r) = ref_paymentID r"
  "rrow_id (newRefundRow account r) = ref_id r" "rrow_amount (newRefundRow account r) = Amount (ref_amount r)"
  "rrow_status (newRefundRow account r) = ref_status r" "rrow_version (newRefundRow account r) = 1"
  "rrow_network (newRefundRow account r) = ref_network r" "rrow_key (newRefundRow account r) = ref_key r"
  by (simp_all add: newRefundRow_def Let_def)

lemma remaining_bigString [simp]: "remaining (bigString a) (bigString b) = Inr (a - b)"
  by (simp add: remaining_def setString_bigString)

lemma insertRefund_Inr:
  assumes "insertRefund db r = Inr db'"
  shows "db' = db\<lparr>db_refunds := db_refunds db @ [r]\<rparr>" "0 < rrow_amount r"
    and "\<forall>x\<in>set (db_refunds db). \<not> isRefund (rrow_account r) (rrow_payment r) (rrow_id r) x"
    and "\<forall>x\<in>set (db_refunds db). \<not> (rrow_network x = rrow_network r \<and> rrow_key x = rrow_key r)"
  using assms
  by (auto simp: insertRefund_def refundRules_def Let_def res_simps list_ex_iff isRefund_def simp del: firstBroken.simps)

lemma CreateRefund_Inr:
  assumes "CreateRefund db account (Some r) = Inr db'"
  shows "insertRefund db (newRefundRow account r) = Inr db'"
    and "\<exists>p\<in>set (db_payments db). isPayment account (ref_paymentID r) p \<and> prow_status p = Succeeded
       \<and> (\<exists>v. prow_received p = Some v \<and> heldSum db account (ref_paymentID r) + Amount (ref_amount r) \<le> v)"
  using assms
  by (auto simp: CreateRefund_def refunded_def res_simps split: option.splits sum.splits if_splits dest!: find_SomeD)

lemma CreateRefund_grown:
  "CreateRefund db account (Some r) = Inr db' \<Longrightarrow> grown revolves (db_refunds db) (db_refunds db')"
  using CreateRefund_Inr(1) [of db account r db'] insertRefund_Inr(1) [of db "newRefundRow account r" db']
  by (auto intro!: grown_append)

lemma CreateRefund_keyed:
  assumes "CreateRefund db account (Some r) = Inr db'" "refunds_keyed db"
    and "\<forall>x\<in>set (db_refunds db). rrow_account x = account \<longrightarrow> rrow_id x \<noteq> ref_id r"
  shows "refunds_keyed db'"
proof -
  note i = insertRefund_Inr [OF CreateRefund_Inr(1) [OF assms(1)]]
  show ?thesis
    unfolding refunds_keyed_def i(1) using assms(2,3) i(2-4) by (auto simp: refunds_keyed_def)
qed

lemma SaveRefund_Inr_iff:
  "SaveRefund clock db account (Some q) at e = Inr db' \<longleftrightarrow>
     (\<exists>r\<in>set (db_refunds db). refundAt account (ref_id q) (rev_at at) r)
     \<and> (let db1 = db\<lparr>db_refunds := updateWhere (refundAt account (ref_id q) (rev_at at)) (resettled clock q) (db_refunds db)\<rparr> in
        if ev_name e \<noteq> [] \<or> ev_payload e \<noteq> [] then writeOutbox db1 account (ref_paymentID q) e = Inr db' else db' = db1)"
  by (auto simp: SaveRefund_def Let_def res_simps)

lemma SaveRefund_frame:
  assumes "SaveRefund clock db account (Some q) at e = Inr db'"
  shows "db' = db\<lparr>db_refunds := updateWhere (refundAt account (ref_id q) (rev_at at)) (resettled clock q) (db_refunds db),
              db_outbox := db_outbox db @ (if Produced e
                then [\<lparr>ox_account = account, ox_payment = ref_paymentID q, ox_event = ev_name e, ox_payload = ev_payload e\<rparr>]
                else [])\<rparr>"
    and "Produced e \<Longrightarrow> checkEvent e = None"
  using assms
  by (auto simp: SaveRefund_Inr_iff Let_def writeOutbox_Inr_iff Produced_def checkEvent_def split: if_splits)

lemma SaveRefund_keyed:
  "SaveRefund clock db account (Some q) at e = Inr db' \<Longrightarrow> refunds_keyed db \<Longrightarrow> refunds_keyed db'"
  using SaveRefund_frame(1) [of clock db account q at e db']
  by (auto simp: refunds_keyed_def map_updateWhere_frame in_updateWhere)

text \<open>A copy somebody holds of a refund.\<close>

definition rtracks :: "db \<Rightarrow> string \<Rightarrow> refund \<Rightarrow> revision \<Rightarrow> bool" where
  "rtracks db account q at =
     (\<exists>r\<in>set (db_refunds db). isRefund account (ref_paymentID q) (ref_id q) r \<and> rev_at at \<le> rrow_version r
        \<and> (rrow_version r = rev_at at \<longrightarrow> rmovedFrom r q))"

lemma rowRefund_rtracks:
  "r \<in> set (db_refunds db) \<Longrightarrow> rowRefund r p = Inr (q, at) \<Longrightarrow> rtracks db (rrow_account r) q at"
  using rowRefund_Inr [of r p q at] by (auto simp: rtracks_def isRefund_def)

lemma FindRefund_row:
  "FindRefund db account pid rid = Inr (q, at) \<Longrightarrow>
     \<exists>r\<in>set (db_refunds db). \<exists>p. isRefund account pid rid r \<and> paymentOf db r = Some p \<and> rowRefund r p = Inr (q, at)"
  by (auto simp: FindRefund_def res_simps dest!: find_SomeD split: option.splits)

lemma FindRefund_rtracks: "FindRefund db account pid rid = Inr (q, at) \<Longrightarrow> rtracks db account q at"
  by (auto dest!: FindRefund_row simp: isRefund_def dest: rowRefund_rtracks)

lemma refundMove_rtracks:
  assumes "rtracks db account q at" "refundMoveTo q s = Inr q'"
  shows "rtracks db account q' at"
  using assms refundMove_rmovedFrom [OF _ assms(2)] by (auto simp: rtracks_def refundMoveTo_Inr_iff)

lemma rtracks_grown:
  assumes "rtracks db account q at" "grown revolves (db_refunds db) (db_refunds db')"
  shows "rtracks db' account q at"
proof -
  obtain r where r: "r \<in> set (db_refunds db)" "isRefund account (ref_paymentID q) (ref_id q) r"
      "rev_at at \<le> rrow_version r" "rrow_version r = rev_at at \<longrightarrow> rmovedFrom r q"
    using assms(1) by (auto simp: rtracks_def)
  obtain r' where r': "r' \<in> set (db_refunds db')" "revolves r r'"
    using grown_row [OF assms(2) r(1)] by blast
  have "isRefund account (ref_paymentID q) (ref_id q) r'" using r(2) revolves_key(7) [OF r'(2)] by simp
  moreover have "rrow_version r \<le> rrow_version r'" "rrow_version r' = rrow_version r \<longrightarrow> r' = r"
    using r'(2) by (simp_all add: revolves_def)
  ultimately show ?thesis using r r'(1) unfolding rtracks_def by (intro bexI [of _ r']) auto
qed

lemma rtracks_row:
  assumes "refunds_keyed db" "rtracks db account q at" "r \<in> set (db_refunds db)" "refundAt account (ref_id q) (rev_at at) r"
  shows "rmovedFrom r q"
proof -
  obtain r' where r': "r' \<in> set (db_refunds db)" "isRefund account (ref_paymentID q) (ref_id q) r'"
      "rrow_version r' = rev_at at \<longrightarrow> rmovedFrom r' q"
    using assms(2) by (auto simp: rtracks_def)
  then have "r' = r"
    using refunds_unique [OF assms(1) r'(1) assms(3)] assms(4) by (auto simp: refundAt_def isRefund_def)
  with r' show ?thesis using assms(4) by (auto simp: refundAt_def)
qed

lemma SaveRefund_grown:
  assumes "SaveRefund clock db account (Some q) at e = Inr db'" "refunds_keyed db" "rtracks db account q at"
  shows "grown revolves (db_refunds db) (db_refunds db')"
  using SaveRefund_frame(1) [OF assms(1)] rtracks_row [OF assms(2,3)]
  by (auto intro!: grown_update resettled_revolves)

section \<open>The ceiling\<close>

lemma heldSum_append:
  "heldSum (db\<lparr>db_refunds := db_refunds db @ [r]\<rparr>) account pid
     = heldSum db account pid + (if holdsAgainst account pid r then rrow_amount r else 0)"
  by (simp add: heldSum_def)

text \<open>Whatever is done to refunds that are there, less is held against a payment than before, or as much.\<close>

lemma held_shrinks:
  assumes "list_all2 revolves xs ys" "\<forall>r\<in>set xs. 0 < rrow_amount r"
  shows "sum_list (map rrow_amount (filter (holdsAgainst account pid) ys))
      \<le> sum_list (map rrow_amount (filter (holdsAgainst account pid) xs))"
  using assms
proof (induction rule: list_all2_induct)
  case (Cons x xs y ys)
  then show ?case using revolves_holds [of x y account pid] revolves_key(6) [of x y] by auto
qed simp

lemma heldSum_updated:
  assumes "db_refunds db' = updateWhere P f (db_refunds db)" "\<And>r. r \<in> set (db_refunds db) \<Longrightarrow> P r \<Longrightarrow> revolves r (f r)"
    and "refunds_keyed db"
  shows "heldSum db' account pid \<le> heldSum db account pid"
proof -
  have "list_all2 revolves (db_refunds db) (db_refunds db')"
    unfolding assms(1) updateWhere_def list_all2_map2 using assms(2) by (intro list_all2_same [THEN iffD2]) auto
  then show ?thesis using held_shrinks assms(3) by (auto simp: heldSum_def refunds_keyed_def)
qed

section \<open>The store is versioned\<close>

type_synonym refund_write = "gotime \<times> string \<times> refund \<times> revision \<times> event"

definition refundWrite :: "refund_write \<Rightarrow> db \<Rightarrow> (store_error, db) result" where
  "refundWrite w db = (case w of (clock, account, q, at, e) \<Rightarrow> SaveRefund clock db account (Some q) at e)"

definition refundKey :: "refund_write \<Rightarrow> string \<times> string" where
  "refundKey w = (case w of (clock, account, q, at, e) \<Rightarrow> (account, ref_id q))"

definition refundWriteAt :: "refund_write \<Rightarrow> int" where
  "refundWriteAt w = (case w of (clock, account, q, at, e) \<Rightarrow> rev_at at)"

definition isNamed :: "string \<times> string \<Rightarrow> refund_row \<Rightarrow> bool" where
  "isNamed k r = (rrow_account r = fst k \<and> rrow_id r = snd k)"

definition refundVersion :: "db \<Rightarrow> string \<times> string \<Rightarrow> int option" where
  "refundVersion db k = map_option rrow_version (List.find (isNamed k) (db_refunds db))"

lemma refundVersion_row:
  assumes "refunds_keyed db" "r \<in> set (db_refunds db)" "isNamed k r"
  shows "refundVersion db k = Some (rrow_version r)"
proof -
  obtain r' where r': "List.find (isNamed k) (db_refunds db) = Some r'"
    using assms(2,3) by (cases "List.find (isNamed k) (db_refunds db)") (auto simp: find_None_iff)
  then have "r' = r"
    using refunds_unique [OF assms(1) _ assms(2)] find_SomeD [OF r'] assms(3) by (auto simp: isNamed_def)
  with r' show ?thesis by (simp add: refundVersion_def)
qed

interpretation refund_store: versioned_store refunds_keyed refundVersion refundKey refundWriteAt refundWrite
proof unfold_locales
  fix db db' :: db and w :: refund_write and k
  obtain clock account q at e where w: "w = (clock, account, q, at, e)" by (cases w)
  assume inv: "refunds_keyed db" and "refundWrite w db = Inr db'"
  then have s: "SaveRefund clock db account (Some q) at e = Inr db'" by (simp add: w refundWrite_def)
  let ?P = "refundAt account (ref_id q) (rev_at at)"
  obtain r where r: "r \<in> set (db_refunds db)" "?P r" using s by (auto simp: SaveRefund_Inr_iff)
  have d: "db_refunds db' = updateWhere ?P (resettled clock q) (db_refunds db)"
    using SaveRefund_frame(1) [OF s] by (cases db') simp
  show keyed: "refunds_keyed db'" by (rule SaveRefund_keyed [OF s inv])
  show "refundVersion db (refundKey w) = Some (refundWriteAt w)"
    using refundVersion_row [OF inv r(1), of "(account, ref_id q)"] r(2)
    by (simp add: w refundKey_def refundWriteAt_def refundAt_def isNamed_def)
  have "resettled clock q r \<in> set (db_refunds db')" using r by (auto simp: d in_updateWhere)
  then show "refundVersion db' (refundKey w) = Some (refundWriteAt w + 1)"
    using refundVersion_row [OF keyed, of "resettled clock q r" "(account, ref_id q)"] r(2)
    by (simp add: w refundKey_def refundWriteAt_def refundAt_def isNamed_def)
  assume k: "k \<noteq> refundKey w"
  have "List.find (isNamed k) (updateWhere ?P (resettled clock q) (db_refunds db))
      = map_option (\<lambda>r. if ?P r then resettled clock q r else r) (List.find (isNamed k) (db_refunds db))"
    by (rule find_updateWhere_frame) (simp add: isNamed_def)
  moreover have "\<not> ?P r" if "List.find (isNamed k) (db_refunds db) = Some r" for r
    using find_SomeD [OF that] k by (cases k) (auto simp: w refundKey_def refundAt_def isNamed_def)
  ultimately show "refundVersion db' k = refundVersion db k"
    by (cases "List.find (isNamed k) (db_refunds db)") (auto simp: refundVersion_def d)
qed

end
