(* ===== verification/Observations.thy ===== *)
theory Observations
  imports Store_Refunds
begin

text \<open>
  What a round of observation writes (postgres.go): \<open>Consumed\<close> and \<open>RefundsConsumed\<close>, which look a
  scan's keys up; \<open>Record\<close>, which writes what was seen and moves the attempts and payments it is
  about; and \<open>Vanish\<close>, which takes one transfer back. All of a call is one transaction.

  What \<open>numeric(78, 0)\<close> makes of the digits a chain wrote is PostgreSQL's, and is the argument
  \<open>numeric_in\<close>: \<open>None\<close> where the column refuses them.
\<close>

section \<open>Looking keys up\<close>

text \<open>The columns a join reads of a payment: not its checkout, return URL, key or closing time.\<close>

definition narrow :: "payment_row \<Rightarrow> payment_row" where
  "narrow r = r\<lparr>prow_checkoutHash := None, prow_checkoutKeyID := None, prow_returnURL := None,
                prow_closedAt := None, prow_idempotencyKey := None, prow_idempotencyBodyHash := None\<rparr>"

text \<open>A loop over rows that stops at the first that fails.\<close>

primrec eachRow :: "('r \<Rightarrow> ('e, 'a) result) \<Rightarrow> 'r list \<Rightarrow> ('e, 'a list) result" where
  "eachRow f [] = Inr []"
| "eachRow f (r # rs) = bindE (f r) (\<lambda>a. bindE (eachRow f rs) (\<lambda>as. Inr (a # as)))"

definition attemptPayment :: "db \<Rightarrow> attempt_row \<Rightarrow> payment_row option" where
  "attemptPayment db r = List.find (isPayment (arow_account r) (att_paymentID (arow_attempt r))) (db_payments db)"

definition hitOf :: "attempt_row \<times> payment_row \<Rightarrow> (store_error, hit) result" where
  "hitOf rp = (case rp of (r, p) \<Rightarrow>
     (case RestoreAttempt (arow_attempt r) of
        Inl e \<Rightarrow> Inl (AttemptRefused e)
      | Inr a \<Rightarrow>
     (case rowPayment (narrow p) of
        Inl e \<Rightarrow> Inl e
      | Inr (q, at) \<Rightarrow>
          Inr \<lparr>hit_account = arow_account r, hit_attempt = a,
               hit_attemptAt = \<lparr>rev_id = att_id (arow_attempt r), rev_at = arow_revision r\<rparr>,
               hit_payment = q, hit_paymentAt = at\<rparr>)))"

definition joined :: "('r \<Rightarrow> payment_row option) \<Rightarrow> 'r list \<Rightarrow> ('r \<times> payment_row) list" where
  "joined paymentFor rows = concat (map (\<lambda>r. case paymentFor r of None \<Rightarrow> [] | Some p \<Rightarrow> [(r, p)]) rows)"

definition Consumed :: "db \<Rightarrow> string \<Rightarrow> string list \<Rightarrow> (store_error, hit list) result" where
  "Consumed db network keys =
     eachRow hitOf (joined (attemptPayment db)
       (filter (\<lambda>r. att_network (arow_attempt r) = network \<and> List.member keys (att_key (arow_attempt r)))
          (db_attempts db)))"

definition refundHitOf :: "refund_row \<times> payment_row \<Rightarrow> (store_error, refund_hit) result" where
  "refundHitOf rp = (case rp of (r, p) \<Rightarrow>
     (case rowPayment (narrow p) of
        Inl e \<Rightarrow> Inl e
      | Inr (q, at) \<Rightarrow>
     (case rowRefund r p of
        Inl e \<Rightarrow> Inl e
      | Inr (f, rat) \<Rightarrow>
          Inr \<lparr>rhit_account = rrow_account r, rhit_refund = f, rhit_refundAt = rat,
               rhit_payment = q, rhit_paymentAt = at\<rparr>)))"

definition RefundsConsumed :: "db \<Rightarrow> string \<Rightarrow> string list \<Rightarrow> (store_error, refund_hit list) result" where
  "RefundsConsumed db network keys =
     eachRow refundHitOf (joined (paymentOf db)
       (filter (\<lambda>r. rrow_network r = network \<and> List.member keys (rrow_key r)) (db_refunds db)))"

section \<open>Writing one transfer\<close>

text \<open>\<open>observation\<close>: what a row stands against, an attempt or a refund.\<close>

record observation =
  obs_account :: string
  obs_payment :: string
  obs_attempt :: "string option"
  obs_refund :: "string option"
  obs_transfer :: transfer
  obs_reason :: reason
  obs_implementation :: string

definition seenAgainstAttempt :: "seen \<Rightarrow> observation" where
  "seenAgainstAttempt s =
     \<lparr>obs_account = hit_account (seen_hit s), obs_payment = pay_id (hit_payment (seen_hit s)),
      obs_attempt = Some (att_id (hit_attempt (seen_hit s))), obs_refund = None,
      obs_transfer = seen_transfer s, obs_reason = seen_reason s, obs_implementation = seen_implementation s\<rparr>"

definition seenAgainstRefund :: "seen_refund \<Rightarrow> observation" where
  "seenAgainstRefund s =
     \<lparr>obs_account = rhit_account (sref_hit s), obs_payment = ref_paymentID (rhit_refund (sref_hit s)),
      obs_attempt = None, obs_refund = Some (ref_id (rhit_refund (sref_hit s))),
      obs_transfer = sref_transfer s, obs_reason = sref_reason s, obs_implementation = sref_implementation s\<rparr>"

definition MaxInt64 :: nat where "MaxInt64 = 2 ^ 63 - 1"

definition blockHeight :: "transfer \<Rightarrow> (store_error, int) result" where
  "blockHeight t =
     (if unat (tr_blockHeight t) > MaxInt64 then Inl HeightTooLarge else Inr (int (unat (tr_blockHeight t))))"

definition span :: "uint64 \<Rightarrow> uint64 \<Rightarrow> (store_error, int \<times> int) result" where
  "span lo hi =
     (if unat lo > MaxInt64 \<or> unat hi > MaxInt64 then Inl HeightTooLarge
      else Inr (int (unat lo), int (unat hi)))"

definition isObservation :: "string \<Rightarrow> string \<Rightarrow> string \<Rightarrow> observation_row \<Rightarrow> bool" where
  "isObservation network key tx r = (ob_network r = network \<and> ob_key r = key \<and> ob_tx r = tx)"

definition newObservationRow :: "string \<Rightarrow> observation \<Rightarrow> int \<Rightarrow> int \<Rightarrow> bool \<Rightarrow> gotime \<Rightarrow> observation_row" where
  "newObservationRow network one height v final now =
     (let t = obs_transfer one in
      \<lparr>ob_account = obs_account one, ob_payment = obs_payment one, ob_attempt = obs_attempt one,
       ob_refund = obs_refund one, ob_network = network, ob_key = tr_key t, ob_tx = tr_tx t,
       ob_position = tr_position t, ob_height = height, ob_hash = tr_blockHash t, ob_time = stamp (tr_blockTime t),
       ob_asset = tr_asset t, ob_authorizer = tr_authorizer t, ob_sender = tr_from t, ob_recipient = tr_to t,
       ob_value = v, ob_reason = obs_reason one, ob_implementation = obs_implementation one,
       ob_seenAt = stamp now, ob_finalAt = (if final then Some (stamp now) else None), ob_disagreedAt = None\<rparr>)"

text \<open>What \<open>on conflict do update\<close> sets: not whom the row is against, and the final stamp only once.\<close>

definition reseen :: "observation_row \<Rightarrow> observation_row \<Rightarrow> observation_row" where
  "reseen new r =
     r\<lparr>ob_position := ob_position new, ob_height := ob_height new, ob_hash := ob_hash new, ob_time := ob_time new,
       ob_asset := ob_asset new, ob_authorizer := ob_authorizer new, ob_sender := ob_sender new,
       ob_recipient := ob_recipient new, ob_value := ob_value new, ob_reason := ob_reason new,
       ob_implementation := ob_implementation new, ob_seenAt := ob_seenAt new,
       ob_finalAt := (case ob_finalAt r of Some t \<Rightarrow> Some t | None \<Rightarrow> ob_finalAt new)\<rparr>"

definition observationChecks :: "observation_row \<Rightarrow> (string \<times> bool) list" where
  "observationChecks r =
     [(''observations_stand_against_one_thing'', (ob_attempt r = None) \<noteq> (ob_refund r = None)),
      (''observations_value_is_not_negative'', 0 \<le> ob_value r)]"

text \<open>A foreign key with a null among its columns is not checked.\<close>

definition observationKeys :: "db \<Rightarrow> observation_row \<Rightarrow> (string \<times> bool) list" where
  "observationKeys db r =
     [(''observations_account_id_payment_id_attempt_id_fkey'',
         case ob_attempt r of None \<Rightarrow> True
         | Some a \<Rightarrow> list_ex (isAttempt (ob_account r) (ob_payment r) a) (db_attempts db)),
      (''observations_account_id_payment_id_refund_id_fkey'',
         case ob_refund r of None \<Rightarrow> True
         | Some f \<Rightarrow> list_ex (isRefund (ob_account r) (ob_payment r) f) (db_refunds db))]"

definition upsertObservation :: "db \<Rightarrow> observation_row \<Rightarrow> (store_error, db) result" where
  "upsertObservation db r =
     (let P = isObservation (ob_network r) (ob_key r) (ob_tx r); rows = db_observations db in
      if \<not> list_all storable [ob_key r, ob_tx r, ob_hash r, ob_asset r, ob_authorizer r, ob_sender r, ob_recipient r,
              ob_implementation r]
         \<or> \<not> numeric78 (ob_value r) \<or> ob_position r < - (2 ^ 31) \<or> 2 ^ 31 \<le> ob_position r
      then Inl ValueRefused
      else case firstBroken (observationChecks r) of
             Some n \<Rightarrow> Inl (ConstraintBroken n)
           | None \<Rightarrow>
               if rowsAffected P rows > 0
               then Inr (db\<lparr>db_observations := updateWhere P (reseen r) rows\<rparr>)
               else case firstBroken (observationKeys db r) of
                      Some n \<Rightarrow> Inl (ConstraintBroken n)
                    | None \<Rightarrow> Inr (db\<lparr>db_observations := rows @ [r]\<rparr>))"

definition recordOne ::
  "(string \<Rightarrow> int option) \<Rightarrow> db \<Rightarrow> string \<Rightarrow> observation \<Rightarrow> bool \<Rightarrow> gotime \<Rightarrow> (store_error, db) result" where
  "recordOne numeric_in db network one final now =
     (let t = obs_transfer one in
      case screen t of
        Some e \<Rightarrow> Inl (ScreenRefused e)
      | None \<Rightarrow>
     (case blockHeight t of
        Inl e \<Rightarrow> Inl e
      | Inr height \<Rightarrow>
     (case numeric_in (tr_value t) of
        None \<Rightarrow> Inl ValueRefused
      | Some v \<Rightarrow> upsertObservation db (newObservationRow network one height v final now))))"

text \<open>A loop over values that writes and stops at the first that fails.\<close>

primrec each :: "(db \<Rightarrow> 'a \<Rightarrow> (store_error, db) result) \<Rightarrow> db \<Rightarrow> 'a list \<Rightarrow> (store_error, db) result" where
  "each f db [] = Inr db"
| "each f db (x # xs) = bindE (f db x) (\<lambda>db'. each f db' xs)"

section \<open>Taking back\<close>

record gone =
  gone_account :: string
  gone_payment :: string
  gone_attempt :: string

definition standsFor :: "gone \<Rightarrow> observation_row \<Rightarrow> bool" where
  "standsFor one r = (ob_account r = gone_account one \<and> ob_payment r = gone_payment one)"

definition unconfirm :: "db \<Rightarrow> gone \<Rightarrow> (store_error, db) result" where
  "unconfirm db one =
     (if rowsAffected (\<lambda>r. standsFor one r \<and> ob_attempt r = Some (gone_attempt one) \<and> ob_reason r = Matched)
           (db_observations db) > 0
      then Inr db
      else case FindAttempt db (gone_account one) (gone_payment one) (gone_attempt one) of
             Inl e \<Rightarrow> Inl e
           | Inr (a, at) \<Rightarrow>
               (case Unconfirm a of
                  Inl _ \<Rightarrow> Inr db
                | Inr b \<Rightarrow> saveAttempt db (gone_account one) b at))"

definition unreceive :: "gotime \<Rightarrow> db \<Rightarrow> gone \<Rightarrow> (store_error, db) result" where
  "unreceive clock db one =
     (if rowsAffected (\<lambda>r. standsFor one r \<and> (ob_reason r = Matched \<or> ob_reason r = Short)) (db_observations db) > 0
      then Inr db
      else case find_payment db (gone_account one) (gone_payment one) of
             Inl e \<Rightarrow> Inl e
           | Inr (p, at) \<Rightarrow>
               (case Unreceive p of
                  Inl _ \<Rightarrow> Inr db
                | Inr q \<Rightarrow> savePayment clock db (gone_account one) q at))"

definition taken :: "gotime \<Rightarrow> db \<Rightarrow> gone \<Rightarrow> (store_error, db) result" where
  "taken clock db one = bindE (unconfirm db one) (\<lambda>db'. unreceive clock db' one)"

definition vanished :: "gotime \<Rightarrow> observation_row \<Rightarrow> observation_row" where
  "vanished now r = r\<lparr>ob_reason := Vanished, ob_seenAt := stamp now\<rparr>"

definition goneOf :: "observation_row \<Rightarrow> gone list" where
  "goneOf r = (case ob_attempt r of
       None \<Rightarrow> []
     | Some a \<Rightarrow> [\<lparr>gone_account = ob_account r, gone_payment = ob_payment r, gone_attempt = a\<rparr>])"

definition vanish ::
  "gotime \<Rightarrow> db \<Rightarrow> string \<Rightarrow> uint64 \<Rightarrow> uint64 \<Rightarrow> string list \<Rightarrow> gotime \<Rightarrow> (store_error, db) result" where
  "vanish clock db network lo hi txs now =
     (case span lo hi of
        Inl e \<Rightarrow> Inl e
      | Inr (low, high) \<Rightarrow>
          let P = (\<lambda>r. ob_network r = network \<and> low \<le> ob_height r \<and> ob_height r \<le> high
                     \<and> \<not> List.member txs (ob_tx r) \<and> ob_reason r \<noteq> Vanished);
              lost = concat (map goneOf (filter P (db_observations db)));
              db1 = db\<lparr>db_observations := updateWhere P (vanished now) (db_observations db)\<rparr>
          in each (taken clock) db1 lost)"

definition Vanish :: "gotime \<Rightarrow> db \<Rightarrow> string \<Rightarrow> string \<Rightarrow> string \<Rightarrow> gotime \<Rightarrow> (store_error, db) result" where
  "Vanish clock db network key tx now =
     (case List.find (\<lambda>r. isObservation network key tx r \<and> ob_reason r \<noteq> Vanished) (db_observations db) of
        None \<Rightarrow> Inr db
      | Some r \<Rightarrow>
          let db1 = db\<lparr>db_observations := updateWhere (isObservation network key tx) (vanished now) (db_observations db)\<rparr>
          in each (taken clock) db1 (goneOf r))"

section \<open>Record\<close>

definition arrived :: "gotime \<Rightarrow> db \<Rightarrow> seen \<Rightarrow> (store_error, db) result" where
  "arrived clock db one =
     (if seen_reason one \<noteq> Matched \<and> seen_reason one \<noteq> Short then Inr db
      else let account = hit_account (seen_hit one) in
      case find_payment db account (pay_id (hit_payment (seen_hit one))) of
        Inl e \<Rightarrow> Inl e
      | Inr (p, at) \<Rightarrow>
          if \<not> CanReceive p \<or> money_IsSet (pay_received p) then Inr db
          else (case ParseMoney (mo_asset (pay_amount p)) (tr_value (seen_transfer one)) of
                  Inl _ \<Rightarrow> Inr db
                | Inr m \<Rightarrow>
                    (case Receive p m of
                       Inl ps \<Rightarrow> Inl (StoreProblems ps)
                     | Inr q \<Rightarrow> savePayment clock db account q at)))"

text \<open>
  The last loop. An attempt is one object however many of the round's transfers name it, so a transfer
  confirming it is seen by those after it: the attempts confirmed so far go with the loop.
\<close>

definition confirmOne ::
  "db \<times> attempt list \<Rightarrow> seen \<Rightarrow> (store_error, db \<times> attempt list) result" where
  "confirmOne st one =
     (case st of (db, confirmed) \<Rightarrow>
      if seen_reason one \<noteq> Matched then Inr st
      else
        let h = seen_hit one; account = hit_account h;
            a = (case List.find (\<lambda>c. att_key c = att_key (hit_attempt h)) confirmed of
                   None \<Rightarrow> hit_attempt h | Some c \<Rightarrow> c)
        in case Confirm a (tr_authorizer (seen_transfer one)) of
             Inl _ \<Rightarrow> Inr st
           | Inr b \<Rightarrow>
               bindE (saveAttempt db account b (hit_attemptAt h)) (\<lambda>db1.
               bindE (find_payment db1 account (pay_id (hit_payment h))) (\<lambda>(p, _).
               (case AnnounceConfirming p (seen_transfer one) of
                  None \<Rightarrow> Inl EncoderRefused
                | Some e \<Rightarrow>
                    bindE (writeOutbox db1 account (pay_id p) e) (\<lambda>db2. Inr (db2, b # confirmed))))))"

primrec confirmEach :: "db \<times> attempt list \<Rightarrow> seen list \<Rightarrow> (store_error, db \<times> attempt list) result" where
  "confirmEach st [] = Inr st"
| "confirmEach st (one # rest) = bindE (confirmOne st one) (\<lambda>st'. confirmEach st' rest)"

definition Record ::
  "(string \<Rightarrow> int option) \<Rightarrow> gotime \<Rightarrow> db \<Rightarrow> string \<Rightarrow> uint64 \<Rightarrow> uint64 \<Rightarrow> bool \<Rightarrow> seen list \<Rightarrow> seen_refund list \<Rightarrow> gotime
     \<Rightarrow> (store_error, db) result" where
  "Record numeric_in clock db network lo hi final seen sent now =
     (let txs = map (\<lambda>s. tr_tx (seen_transfer s)) seen @ map (\<lambda>s. tr_tx (sref_transfer s)) sent in
      bindE (each (\<lambda>d s. recordOne numeric_in d network (seenAgainstAttempt s) final now) db seen) (\<lambda>db1.
      bindE (each (\<lambda>d s. recordOne numeric_in d network (seenAgainstRefund s) final now) db1 sent) (\<lambda>db2.
      bindE (if final then vanish clock db2 network lo hi txs now else Inr db2) (\<lambda>db3.
      bindE (each (arrived clock) db3 seen) (\<lambda>db4.
      bindE (confirmEach (db4, []) seen) (\<lambda>(db5, _). Inr db5))))))"

section \<open>What the endpoints made of a row\<close>

definition Disagree :: "db \<Rightarrow> string \<Rightarrow> string \<Rightarrow> string \<Rightarrow> gotime \<Rightarrow> db" where
  "Disagree db network key tx now =
     db\<lparr>db_observations := updateWhere (isObservation network key tx)
         (\<lambda>r. r\<lparr>ob_disagreedAt := (case ob_disagreedAt r of Some t \<Rightarrow> Some t | None \<Rightarrow> Some (stamp now))\<rparr>)
         (db_observations db)\<rparr>"

definition Agree :: "db \<Rightarrow> string \<Rightarrow> string \<Rightarrow> string \<Rightarrow> db" where
  "Agree db network key tx =
     db\<lparr>db_observations := updateWhere (isObservation network key tx) (\<lambda>r. r\<lparr>ob_disagreedAt := None\<rparr>)
         (db_observations db)\<rparr>"

end
