(* ===== verification/Rounds.thy ===== *)
theory Rounds
  imports Observations
begin

text \<open>
  What a round does to the store: every write it makes keeps the contracts of the payments' and the
  attempts' rows, leaves refunds alone and tells a merchant of nothing but a confirming attempt. And
  the evidence itself: what recording the same transfer twice does, and what taking one back does.
\<close>

section \<open>The contract of a round\<close>

definition advances :: "db \<Rightarrow> db \<Rightarrow> bool" where
  "advances db db' =
     (payments_keyed db' \<and> attempts_keyed db'
      \<and> grown evolves (db_payments db) (db_payments db') \<and> list_all2 asettles (db_attempts db) (db_attempts db')
      \<and> db_refunds db' = db_refunds db \<and> db_accounts db' = db_accounts db \<and> db_leases db' = db_leases db
      \<and> db_cursors db' = db_cursors db
      \<and> (\<exists>new. db_outbox db' = db_outbox db @ new \<and> (\<forall>x\<in>set new. ox_event x = ''attempt.confirming'')))"

lemma advances_refl: "payments_keyed db \<Longrightarrow> attempts_keyed db \<Longrightarrow> advances db db"
  by (auto simp: advances_def intro!: grown_refl list.rel_refl)

lemma grown_evolves_trans:
  "grown evolves xs ys \<Longrightarrow> grown evolves ys zs \<Longrightarrow> grown evolves xs zs"
  by (rule grown_trans) (rule evolves_trans)

lemma settles_trans:
  "list_all2 asettles xs ys \<Longrightarrow> list_all2 asettles ys zs \<Longrightarrow> list_all2 asettles xs zs"
  by (rule list_all2_trans [of asettles asettles asettles]) (rule asettles_trans)

lemma settles_grown: "list_all2 asettles xs ys \<Longrightarrow> grown aevolves xs ys"
  unfolding grown_def by (intro exI [of _ ys] exI [of _ "[]"]) (auto elim: list_all2_mono simp: asettles_def)

lemma advances_trans:
  assumes "advances a b" "advances b c"
  shows "advances a c"
proof -
  have "grown evolves (db_payments a) (db_payments c)"
    using assms grown_evolves_trans unfolding advances_def by blast
  moreover have "list_all2 asettles (db_attempts a) (db_attempts c)"
    using assms settles_trans unfolding advances_def by blast
  moreover obtain new new' where "db_outbox b = db_outbox a @ new" "\<forall>x\<in>set new. ox_event x = ''attempt.confirming''"
      "db_outbox c = db_outbox b @ new'" "\<forall>x\<in>set new'. ox_event x = ''attempt.confirming''"
    using assms unfolding advances_def by blast
  then have "\<exists>n. db_outbox c = db_outbox a @ n \<and> (\<forall>x\<in>set n. ox_event x = ''attempt.confirming'')"
    by (intro exI [of _ "new @ new'"]) auto
  ultimately show ?thesis using assms unfolding advances_def by simp
qed

lemma advances_keyed: "advances a b \<Longrightarrow> payments_keyed b" "advances a b \<Longrightarrow> attempts_keyed b"
  by (simp_all add: advances_def)

lemma each_rel:
  assumes "each f db xs = Inr db'" "R db"
    and "\<And>d x d'. x \<in> set xs \<Longrightarrow> R d \<Longrightarrow> f d x = Inr d' \<Longrightarrow> R d'"
  shows "R db'"
  using assms
proof (induction xs arbitrary: db)
  case (Cons x xs)
  then obtain d where "f db x = Inr d" "each f d xs = Inr db'" by (auto simp: res_simps)
  with Cons show ?case by (metis list.set_intros)
qed simp

lemma recordOne_Inr:
  assumes "recordOne numeric_in db network one final now = Inr db'"
  shows "\<exists>obs. db' = db\<lparr>db_observations := obs\<rparr>"
  using assms
  by (auto simp: recordOne_def Let_def upsertObservation_def res_simps split: if_splits option.splits)

lemma observations_advance:
  "advances db d \<Longrightarrow> advances db (d\<lparr>db_observations := obs\<rparr>)"
  by (simp add: advances_def)

lemma savePayment_advances:
  assumes "savePayment clock db account p at = Inr db'" "payments_keyed db" "attempts_keyed db" "tracks db account p at"
  shows "advances db db'"
proof -
  have "grown evolves (db_payments db) (db_payments db')"
    using savePayment_grown [OF assms(1)] tracks_row [OF assms(2,4)] by blast
  moreover have "payments_keyed db'" by (rule savePayment_keyed [OF assms(1,2)])
  ultimately show ?thesis
    using assms(1,3) by (auto simp: advances_def savePayment_Inr_iff intro!: list.rel_refl)
qed

lemma saveAttempt_advances:
  assumes "saveAttempt db account a at = Inr db'" "payments_keyed db" "attempts_keyed db" "atracks db account a at"
    and "live (att_status a)"
  shows "advances db db'"
proof -
  have "list_all2 asettles (db_attempts db) (db_attempts db')"
    by (rule saveAttempt_settles [OF assms(1,3,4,5)])
  moreover have "attempts_keyed db'" by (rule saveAttempt_keyed [OF assms(1,3)])
  ultimately show ?thesis
    using assms(1,2) by (auto simp: advances_def saveAttempt_Inr_iff intro!: grown_refl)
qed

lemma unconfirm_advances:
  assumes "unconfirm db one = Inr db'" "payments_keyed db" "attempts_keyed db"
  shows "advances db db'"
proof -
  consider "db' = db" | a at b where "FindAttempt db (gone_account one) (gone_payment one) (gone_attempt one) = Inr (a, at)"
      "Unconfirm a = Inr b" "saveAttempt db (gone_account one) b at = Inr db'"
    using assms(1) by (auto simp: unconfirm_def res_simps split: if_splits)
  then show ?thesis
  proof cases
    case 2
    have "atracks db (gone_account one) b at"
      using FindAttempt_atracks [OF 2(1)] 2(2) atracks_moves by blast
    moreover have "live (att_status b)" using 2(2) by (auto simp: Unconfirm_Inr_iff live_def)
    ultimately show ?thesis by (rule saveAttempt_advances [OF 2(3) assms(2,3)])
  qed (use assms advances_refl in simp)
qed

lemma unreceive_advances:
  assumes "unreceive clock db one = Inr db'" "payments_keyed db" "attempts_keyed db"
  shows "advances db db'"
proof -
  consider "db' = db" | p at q where "find_payment db (gone_account one) (gone_payment one) = Inr (p, at)"
      "payOp p OpUnreceive = Inr q" "savePayment clock db (gone_account one) q at = Inr db'"
    using assms(1) by (auto simp: unreceive_def res_simps split: if_splits)
  then show ?thesis
  proof cases
    case 2
    have "tracks db (gone_account one) q at"
      by (rule payOp_tracks [OF find_tracks [OF 2(1)] 2(2)]) simp
    from savePayment_advances [OF 2(3) assms(2,3) this] show ?thesis .
  qed (use assms advances_refl in simp)
qed

lemma taken_advances:
  assumes "taken clock db one = Inr db'" "payments_keyed db" "attempts_keyed db"
  shows "advances db db'"
proof -
  obtain d where d: "unconfirm db one = Inr d" "unreceive clock d one = Inr db'"
    using assms(1) by (auto simp: taken_def res_simps)
  have "advances db d" by (rule unconfirm_advances [OF d(1) assms(2,3)])
  with unreceive_advances [OF d(2)] show ?thesis using advances_trans advances_keyed by blast
qed

lemma each_taken_advances:
  assumes "each (taken clock) d xs = Inr db'" "advances db d"
  shows "advances db db'"
  by (rule each_rel [where R = "advances db", OF assms]) (use taken_advances advances_trans advances_keyed in blast)

lemma arrived_advances:
  assumes "arrived clock db one = Inr db'" "payments_keyed db" "attempts_keyed db"
  shows "advances db db'"
proof -
  let ?acc = "hit_account (seen_hit one)"
  consider "db' = db" | p at m q where "find_payment db ?acc (pay_id (hit_payment (seen_hit one))) = Inr (p, at)"
      "ParseMoney (mo_asset (pay_amount p)) (tr_value (seen_transfer one)) = Inr m"
      "payOp p (OpReceive m) = Inr q" "savePayment clock db ?acc q at = Inr db'"
    using assms(1) by (auto simp: arrived_def Let_def res_simps split: if_splits)
  then show ?thesis
  proof cases
    case 2
    have "op_made (OpReceive m)" using ParseMoney_ok [OF 2(2)] by (simp add: money_made_def)
    then have "tracks db ?acc q at"
      by (rule payOp_tracks [OF find_tracks [OF 2(1)] 2(3)])
    from savePayment_advances [OF 2(4) assms(2,3) this] show ?thesis .
  qed (use assms advances_refl in simp)
qed

lemma writeOutbox_advances:
  assumes "writeOutbox d account pid e = Inr db'" "advances db d" "ev_name e = ''attempt.confirming''"
  shows "advances db db'"
proof -
  obtain new where n: "db_outbox d = db_outbox db @ new" "\<forall>x\<in>set new. ox_event x = ''attempt.confirming''"
    using assms(2) unfolding advances_def by blast
  let ?row = "\<lparr>ox_account = account, ox_payment = pid, ox_event = ev_name e, ox_payload = ev_payload e\<rparr>"
  have "\<exists>n. db_outbox db @ new @ [?row] = db_outbox db @ n \<and> (\<forall>x\<in>set n. ox_event x = ''attempt.confirming'')"
    using n(2) assms(3) by (intro exI [of _ "new @ [?row]"]) auto
  then show ?thesis
    using assms(1,2) n(1) by (auto simp: writeOutbox_Inr_iff advances_def)
qed

text \<open>A round's hits are copies read before it began, and the attempts it confirmed are moved copies.\<close>

definition confirmingTracked :: "db \<Rightarrow> db \<times> attempt list \<Rightarrow> bool" where
  "confirmingTracked db st =
     (advances db (fst st) \<and> (\<forall>c\<in>set (snd st). att_status c = Confirming))"

lemma confirmOne_advances:
  assumes "confirmOne st one = Inr st'" "confirmingTracked db st"
    and "atracks db (hit_account (seen_hit one)) (hit_attempt (seen_hit one)) (hit_attemptAt (seen_hit one))"
  shows "confirmingTracked db st'"
proof -
  obtain d confirmed where st: "st = (d, confirmed)" by (cases st)
  have adv: "advances db d" and conf: "\<forall>c\<in>set confirmed. att_status c = Confirming"
    using assms(2) by (simp_all add: confirmingTracked_def st)
  let ?h = "seen_hit one" and ?acc = "hit_account (seen_hit one)"
  let ?c = "List.find (\<lambda>c. att_key c = att_key (hit_attempt ?h)) confirmed"
  consider "st' = st" | a b d1 p e d2 where
      "a = (case ?c of None \<Rightarrow> hit_attempt ?h | Some c \<Rightarrow> c)"
      "Confirm a (tr_authorizer (seen_transfer one)) = Inr b"
      "saveAttempt d ?acc b (hit_attemptAt ?h) = Inr d1" "AnnounceConfirming p (seen_transfer one) = Some e"
      "writeOutbox d1 ?acc (pay_id p) e = Inr d2" "st' = (d2, b # confirmed)"
    using assms(1) by (auto simp: confirmOne_def st Let_def res_simps split: if_splits)
  then show ?thesis
  proof cases
    case 2
    have "?c = None"
    proof (rule ccontr)
      assume "?c \<noteq> None"
      then obtain c where c: "?c = Some c" by blast
      then have "att_status c = Confirming" using find_SomeD [OF c] conf by blast
      then show False using 2(1,2) c by (simp add: Confirm_Inr_iff)
    qed
    then have a: "a = hit_attempt ?h" using 2(1) by simp
    have "atracks d ?acc a (hit_attemptAt ?h)"
      using assms(3) atracks_grown settles_grown adv unfolding a advances_def by blast
    then have "atracks d ?acc b (hit_attemptAt ?h)" using atracks_moves 2(2) by blast
    moreover have "live (att_status b)" using 2(2) by (auto simp: Confirm_Inr_iff live_def)
    ultimately have "advances db d1"
      using saveAttempt_advances [OF 2(3)] adv advances_keyed advances_trans by blast
    then have "advances db d2"
      using writeOutbox_advances [OF 2(5)] 2(4) by (auto simp: AnnounceConfirming_def split: option.splits)
    then show ?thesis using 2(2,6) conf by (simp add: confirmingTracked_def Confirm_Inr_iff)
  qed (use assms(2) in simp)
qed

lemma confirmEach_advances:
  assumes "confirmEach st seen = Inr st'" "confirmingTracked db st"
    and "\<forall>one\<in>set seen. atracks db (hit_account (seen_hit one)) (hit_attempt (seen_hit one)) (hit_attemptAt (seen_hit one))"
  shows "confirmingTracked db st'"
  using assms
proof (induction seen arbitrary: st)
  case (Cons one rest)
  then obtain s where "confirmOne st one = Inr s" "confirmEach s rest = Inr st'" by (auto simp: res_simps)
  with Cons confirmOne_advances show ?case by (metis list.set_intros)
qed simp

lemma vanish_advances:
  assumes "vanish clock d network lo hi txs now = Inr db'" "advances db d"
  shows "advances db db'"
  using assms(1) each_taken_advances observations_advance [OF assms(2)]
  by (auto simp: vanish_def Let_def res_simps split: prod.splits)

lemma Vanish_advances:
  assumes "Vanish clock db network key tx now = Inr db'" "payments_keyed db" "attempts_keyed db"
  shows "advances db db'"
  using assms(1) each_taken_advances observations_advance [OF advances_refl [OF assms(2,3)]] advances_refl [OF assms(2,3)]
  by (auto simp: Vanish_def Let_def split: option.splits)

lemma Record_advances:
  assumes "Record numeric_in clock db network lo hi final seen sent now = Inr db'"
    and "payments_keyed db" "attempts_keyed db"
    and "\<forall>one\<in>set seen. atracks db (hit_account (seen_hit one)) (hit_attempt (seen_hit one)) (hit_attemptAt (seen_hit one))"
  shows "advances db db'"
proof -
  let ?txs = "map (\<lambda>s. tr_tx (seen_transfer s)) seen @ map (\<lambda>s. tr_tx (sref_transfer s)) sent"
  obtain d1 d2 d3 d4 c where d:
      "each (\<lambda>d s. recordOne numeric_in d network (seenAgainstAttempt s) final now) db seen = Inr d1"
      "each (\<lambda>d s. recordOne numeric_in d network (seenAgainstRefund s) final now) d1 sent = Inr d2"
      "(if final then vanish clock d2 network lo hi ?txs now else Inr d2) = Inr d3"
      "each (arrived clock) d3 seen = Inr d4" "confirmEach (d4, []) seen = Inr (db', c)"
    using assms(1) by (auto simp: Record_def Let_def res_simps)
  have a0: "advances db db" by (rule advances_refl [OF assms(2,3)])
  have a1: "advances db d1"
    by (rule each_rel [where R = "advances db", OF d(1) a0]) (use recordOne_Inr observations_advance in metis)
  have a2: "advances db d2"
    by (rule each_rel [where R = "advances db", OF d(2) a1]) (use recordOne_Inr observations_advance in metis)
  have a3: "advances db d3" using d(3) vanish_advances a2 by (auto split: if_splits)
  have a4: "advances db d4"
    by (rule each_rel [where R = "advances db", OF d(4) a3]) (use arrived_advances advances_trans advances_keyed in blast)
  then have "confirmingTracked db (d4, [])" by (simp add: confirmingTracked_def)
  from confirmEach_advances [OF d(5) this assms(4)] show ?thesis by (simp add: confirmingTracked_def)
qed

end
