(* ===== verification/Cursors.thy ===== *)
theory Cursors
  imports Observations
begin

text \<open>
  Package observe, cursor.go and lease.go: the position a network has been read to, and the lease that
  lets one instance read it. The database's clock (\<open>now()\<close>) is an argument of the lease's
  statements; the observer's clock is an argument of the cursor's.
\<close>

section \<open>Positions\<close>

text \<open>The zero time is a time that is not known.\<close>

record position =
  pos_height :: uint64
  pos_hash :: string
  pos_time :: gotime

definition blockTime :: "gotime \<Rightarrow> gotime option" where
  "blockTime t = (if isZeroTime t then None else Some (stamp t))"

definition bigint :: "position \<Rightarrow> (store_error, int) result" where
  "bigint at = (if unat (pos_height at) > MaxInt64 then Inl HeightTooLarge else Inr (int (unat (pos_height at))))"

definition ofNetwork :: "string \<Rightarrow> cursor_row \<Rightarrow> bool" where
  "ofNetwork network r = (cur_network r = network)"

definition rowPosition :: "cursor_row \<Rightarrow> (store_error, position) result" where
  "rowPosition r =
     (if cur_height r < 0 then Inl HeightBelowZero
      else Inr \<lparr>pos_height = word_of_int (cur_height r), pos_hash = cur_hash r,
                pos_time = (case cur_time r of None \<Rightarrow> 0 | Some t \<Rightarrow> t)\<rparr>)"

definition Get :: "db \<Rightarrow> string \<Rightarrow> (store_error, position option) result" where
  "Get db network =
     (case List.find (ofNetwork network) (db_cursors db) of
        None \<Rightarrow> Inr None
      | Some r \<Rightarrow> bindE (rowPosition r) (\<lambda>p. Inr (Some p)))"

definition Has :: "db \<Rightarrow> string \<Rightarrow> (store_error, bool) result" where
  "Has db network = bindE (Get db network) (\<lambda>p. Inr (p \<noteq> None))"

definition Touched :: "db \<Rightarrow> string \<Rightarrow> gotime option" where
  "Touched db network = map_option cur_updatedAt (List.find (ofNetwork network) (db_cursors db))"

definition cursorRow :: "string \<Rightarrow> int \<Rightarrow> position \<Rightarrow> gotime \<Rightarrow> cursor_row" where
  "cursorRow network height at now =
     \<lparr>cur_network = network, cur_height = height, cur_hash = pos_hash at, cur_time = blockTime (pos_time at),
      cur_updatedAt = stamp now\<rparr>"

definition Init :: "db \<Rightarrow> string \<Rightarrow> position \<Rightarrow> gotime \<Rightarrow> (store_error, db) result" where
  "Init db network at now =
     (case bigint at of
        Inl e \<Rightarrow> Inl e
      | Inr height \<Rightarrow>
          if \<not> storable (pos_hash at) then Inl ValueRefused
          else if rowsAffected (ofNetwork network) (db_cursors db) > 0 then Inr db
          else Inr (db\<lparr>db_cursors := db_cursors db @ [cursorRow network height at now]\<rparr>))"

definition sitsOn :: "string \<Rightarrow> int \<Rightarrow> string \<Rightarrow> cursor_row \<Rightarrow> bool" where
  "sitsOn network height hash r = (cur_network r = network \<and> cur_height r = height \<and> cur_hash r = hash)"

definition Advance :: "db \<Rightarrow> string \<Rightarrow> position \<Rightarrow> position \<Rightarrow> gotime \<Rightarrow> (store_error, db) result" where
  "Advance db network from to now =
     (case bigint from of
        Inl e \<Rightarrow> Inl e
      | Inr was \<Rightarrow>
     (case bigint to of
        Inl e \<Rightarrow> Inl e
      | Inr next \<Rightarrow>
          let P = sitsOn network was (pos_hash from) in
          if rowsAffected P (db_cursors db) = 0 then Inl ErrMoved
          else if \<not> storable (pos_hash to) then Inl ValueRefused
          else Inr (db\<lparr>db_cursors := updateWhere P (\<lambda>r. cursorRow network next to now) (db_cursors db)\<rparr>)))"

text \<open>
  \<open>Set\<close>: the position is put somewhere, and what it replaced is answered. The answer is read after the
  write is committed, so it can be an error beside a position that moved.
\<close>

definition Set_position ::
  "db \<Rightarrow> string \<Rightarrow> position \<Rightarrow> gotime \<Rightarrow> (store_error, db \<times> (store_error, position option) result) result" where
  "Set_position db network at now =
     (case bigint at of
        Inl e \<Rightarrow> Inl e
      | Inr next \<Rightarrow>
          if \<not> storable (pos_hash at) then Inl ValueRefused
          else case List.find (ofNetwork network) (db_cursors db) of
                 None \<Rightarrow> Inr (db\<lparr>db_cursors := db_cursors db @ [cursorRow network next at now]\<rparr>, Inr None)
               | Some r \<Rightarrow>
                   Inr (db\<lparr>db_cursors := updateWhere (ofNetwork network) (\<lambda>r. cursorRow network next at now)
                                            (db_cursors db)\<rparr>,
                        bindE (rowPosition r) (\<lambda>before. Inr (Some before))))"

section \<open>Leases\<close>

definition LeaseTTL :: duration where "LeaseTTL = 30 * Second"

definition ofName :: "string \<Rightarrow> lease_row \<Rightarrow> bool" where
  "ofName name r = (le_name r = name)"

text \<open>What a call answers: the leases after it, and whether the caller holds the lease.\<close>

definition Acquire :: "string \<Rightarrow> gotime \<Rightarrow> lease_row list \<Rightarrow> string \<Rightarrow> lease_row list \<times> bool" where
  "Acquire holder clock rows name =
     (let mine = \<lparr>le_name = name, le_holder = holder, le_expiresAt = clock + LeaseTTL\<rparr>;
          P = (\<lambda>r. le_name r = name \<and> (le_expiresAt r < clock \<or> le_holder r = holder)) in
      if rowsAffected (ofName name) rows = 0 then (rows @ [mine], True)
      else (updateWhere P (\<lambda>r. mine) rows, rowsAffected P rows = 1))"

definition Renew :: "string \<Rightarrow> gotime \<Rightarrow> lease_row list \<Rightarrow> string \<Rightarrow> lease_row list \<times> bool" where
  "Renew holder clock rows name =
     (let P = (\<lambda>r. le_name r = name \<and> le_holder r = holder) in
      (updateWhere P (\<lambda>r. r\<lparr>le_expiresAt := clock + LeaseTTL\<rparr>) rows, rowsAffected P rows = 1))"

definition Release :: "string \<Rightarrow> gotime \<Rightarrow> lease_row list \<Rightarrow> string \<Rightarrow> lease_row list \<times> bool" where
  "Release holder clock rows name =
     (filter (\<lambda>r. \<not> (le_name r = name \<and> le_holder r = holder)) rows, False)"

text \<open>
  The interface a holder relies on: a call answers the state after it and whether the caller has the
  lease; while somebody's lease runs, nobody else's call changes it or is answered yes.
\<close>

primrec calls :: "('c \<Rightarrow> 's \<Rightarrow> 's \<times> bool) \<Rightarrow> 'c list \<Rightarrow> 's \<Rightarrow> 's \<times> ('c \<times> bool) list" where
  "calls call [] s = (s, [])"
| "calls call (c # cs) s = (let (s', ok) = call c s; (s'', as) = calls call cs s' in (s'', (c, ok) # as))"

locale lease_service =
  fixes inv :: "'s \<Rightarrow> bool"
    and granted :: "'s \<Rightarrow> 'n \<Rightarrow> 'h \<Rightarrow> gotime \<Rightarrow> bool"
    and call :: "'c \<Rightarrow> 's \<Rightarrow> 's \<times> bool"
    and caller :: "'c \<Rightarrow> 'h"
    and name :: "'c \<Rightarrow> 'n"
    and at :: "'c \<Rightarrow> gotime"
    and ttl :: duration
  assumes keeps: "inv s \<Longrightarrow> inv (fst (call c s))"
    and grants: "inv s \<Longrightarrow> snd (call c s) \<Longrightarrow> granted (fst (call c s)) (name c) (caller c) (at c + ttl)"
    and others_wait: "inv s \<Longrightarrow> granted s n h u \<Longrightarrow> caller c \<noteq> h \<Longrightarrow> at c \<le> u \<Longrightarrow>
      granted (fst (call c s)) n h u \<and> (name c = n \<longrightarrow> \<not> snd (call c s))"
begin

lemma held_on:
  "inv s \<Longrightarrow> granted s n h u \<Longrightarrow> \<forall>c\<in>set cs. caller c \<noteq> h \<and> at c \<le> u \<Longrightarrow>
     granted (fst (calls call cs s)) n h u \<and> (\<forall>(c, ok)\<in>set (snd (calls call cs s)). name c = n \<longrightarrow> \<not> ok)"
proof (induction cs arbitrary: s)
  case (Cons c cs)
  obtain s' ok where c: "call c s = (s', ok)" by fastforce
  obtain s'' as where cs: "calls call cs s' = (s'', as)" by fastforce
  have "inv s'" "granted s' n h u" "name c = n \<longrightarrow> \<not> ok"
    using keeps [OF Cons.prems(1), of c] others_wait [OF Cons.prems(1,2), of c] Cons.prems(3) c by auto
  then show ?case using Cons.IH [of s'] Cons.prems(3) c cs by auto
qed simp

lemma exclusive:
  assumes "inv s" "call c s = (s', True)" "\<forall>d\<in>set cs. caller d \<noteq> caller c \<and> at d \<le> at c + ttl"
  shows "granted (fst (calls call cs s')) (name c) (caller c) (at c + ttl)
    \<and> (\<forall>(d, ok)\<in>set (snd (calls call cs s')). name d = name c \<longrightarrow> \<not> ok)"
proof -
  have "inv s'" "granted s' (name c) (caller c) (at c + ttl)"
    using keeps [OF assms(1), of c] grants [OF assms(1), of c] assms(2) by simp_all
  from held_on [OF this assms(3)] show ?thesis .
qed

end

datatype lease_call = CallAcquire string gotime string | CallRenew string gotime string | CallRelease string gotime string

fun leaseCall :: "lease_call \<Rightarrow> lease_row list \<Rightarrow> lease_row list \<times> bool" where
  "leaseCall (CallAcquire holder clock name) rows = Acquire holder clock rows name"
| "leaseCall (CallRenew holder clock name) rows = Renew holder clock rows name"
| "leaseCall (CallRelease holder clock name) rows = Release holder clock rows name"

fun leaseCaller :: "lease_call \<Rightarrow> string" where
  "leaseCaller (CallAcquire h _ _) = h" | "leaseCaller (CallRenew h _ _) = h" | "leaseCaller (CallRelease h _ _) = h"

fun leaseName :: "lease_call \<Rightarrow> string" where
  "leaseName (CallAcquire _ _ n) = n" | "leaseName (CallRenew _ _ n) = n" | "leaseName (CallRelease _ _ n) = n"

fun leaseClock :: "lease_call \<Rightarrow> gotime" where
  "leaseClock (CallAcquire _ t _) = t" | "leaseClock (CallRenew _ t _) = t" | "leaseClock (CallRelease _ t _) = t"

text \<open>A lease's row is keyed by its name. It is granted to a holder until then when the row says so.\<close>

definition leases_keyed :: "lease_row list \<Rightarrow> bool" where
  "leases_keyed rows = distinct (map le_name rows)"

definition leaseGranted :: "lease_row list \<Rightarrow> string \<Rightarrow> string \<Rightarrow> gotime \<Rightarrow> bool" where
  "leaseGranted rows n h u = (\<exists>r\<in>set rows. le_name r = n \<and> le_holder r = h \<and> u \<le> le_expiresAt r)"

lemma lease_unique:
  "leases_keyed rows \<Longrightarrow> r \<in> set rows \<Longrightarrow> r' \<in> set rows \<Longrightarrow> le_name r = le_name r' \<Longrightarrow> r = r'"
  unfolding leases_keyed_def using distinct_key_unique [of le_name rows r r'] by blast

lemma affected_some: "rowsAffected P rows \<noteq> 0 \<Longrightarrow> \<exists>r\<in>set rows. P r"
  by (metis rowsAffected_0)

lemma leaseCall_keyed: "leases_keyed rows \<Longrightarrow> leases_keyed (fst (leaseCall c rows))"
proof (cases c)
  case (CallAcquire h t n)
  assume k: "leases_keyed rows"
  have "map le_name (updateWhere (\<lambda>r. le_name r = n \<and> (le_expiresAt r < t \<or> le_holder r = h))
      (\<lambda>r. \<lparr>le_name = n, le_holder = h, le_expiresAt = t + LeaseTTL\<rparr>) rows) = map le_name rows"
    by (rule map_updateWhere_frame) simp
  then show ?thesis using k CallAcquire by (auto simp: Acquire_def Let_def leases_keyed_def ofName_def)
qed (auto simp: Renew_def Release_def Let_def leases_keyed_def map_updateWhere_frame distinct_map_filter)

lemma leaseCall_grants:
  assumes "snd (leaseCall c rows)"
  shows "leaseGranted (fst (leaseCall c rows)) (leaseName c) (leaseCaller c) (leaseClock c + LeaseTTL)"
proof (cases c)
  case (CallAcquire h t n)
  let ?mine = "\<lparr>le_name = n, le_holder = h, le_expiresAt = t + LeaseTTL\<rparr>"
    and ?P = "\<lambda>r. le_name r = n \<and> (le_expiresAt r < t \<or> le_holder r = h)"
  show ?thesis
  proof (cases "rowsAffected (ofName n) rows = 0")
    case False
    then have "rowsAffected ?P rows = 1"
      using assms CallAcquire by (simp add: Acquire_def Let_def del: rowsAffected_0)
    then have "\<exists>r\<in>set rows. ?P r" using affected_some [of ?P rows] by simp
    then have "?mine \<in> set (updateWhere ?P (\<lambda>r. ?mine) rows)" by (auto simp: in_updateWhere)
    then have "leaseGranted (updateWhere ?P (\<lambda>r. ?mine) rows) n h (t + LeaseTTL)"
      unfolding leaseGranted_def by (intro bexI [of _ ?mine]) simp_all
    then show ?thesis using CallAcquire False by (simp add: Acquire_def Let_def del: rowsAffected_0)
  qed (use CallAcquire in \<open>simp add: Acquire_def Let_def leaseGranted_def\<close>)
next
  case (CallRenew h t n)
  let ?P = "\<lambda>r. le_name r = n \<and> le_holder r = h"
  have "rowsAffected ?P rows = 1" using assms CallRenew by (simp add: Renew_def Let_def)
  then obtain r where "r \<in> set rows" "?P r" using affected_some [of ?P rows] by auto
  then have "r\<lparr>le_expiresAt := t + LeaseTTL\<rparr> \<in> set (updateWhere ?P (\<lambda>r. r\<lparr>le_expiresAt := t + LeaseTTL\<rparr>) rows)"
    by (auto simp: in_updateWhere)
  then have "leaseGranted (updateWhere ?P (\<lambda>r. r\<lparr>le_expiresAt := t + LeaseTTL\<rparr>) rows) n h (t + LeaseTTL)"
    using \<open>?P r\<close> unfolding leaseGranted_def by (intro bexI [of _ "r\<lparr>le_expiresAt := t + LeaseTTL\<rparr>"]) simp_all
  then show ?thesis using CallRenew by (simp add: Renew_def Let_def)
qed (use assms in \<open>simp add: Release_def\<close>)

lemma leaseCall_others_wait:
  assumes "leases_keyed rows" "leaseGranted rows n h u" "leaseCaller c \<noteq> h" "leaseClock c \<le> u"
  shows "leaseGranted (fst (leaseCall c rows)) n h u \<and> (leaseName c = n \<longrightarrow> \<not> snd (leaseCall c rows))"
proof -
  obtain r where r: "r \<in> set rows" "le_name r = n" "le_holder r = h" "u \<le> le_expiresAt r"
    using assms(2) by (auto simp: leaseGranted_def)
  have only: "x = r" if "x \<in> set rows" "le_name x = n" for x
    using lease_unique [OF assms(1) that(1) r(1)] that(2) r(2) by simp
  have keep: "leaseGranted rows' n h u" if "r \<in> set rows'" for rows'
    using r that by (auto simp: leaseGranted_def)
  show ?thesis
  proof (cases c)
    case (CallAcquire g t m)
    let ?mine = "\<lparr>le_name = m, le_holder = g, le_expiresAt = t + LeaseTTL\<rparr>"
      and ?P = "\<lambda>r. le_name r = m \<and> (le_expiresAt r < t \<or> le_holder r = g)"
    have "\<not> ?P r" using assms(3,4) CallAcquire r by simp
    then have "r \<in> set (updateWhere ?P (\<lambda>r. ?mine) rows)" using r(1) by (simp add: in_updateWhere)
    moreover have "rowsAffected ?P rows = 0" if "m = n"
      using only that \<open>\<not> ?P r\<close> by auto
    moreover have "rowsAffected (ofName m) rows \<noteq> 0" if "m = n"
      using r that by (auto simp: ofName_def)
    ultimately show ?thesis
      using CallAcquire keep r(1) by (auto simp: Acquire_def Let_def simp del: rowsAffected_0)
  next
    case (CallRenew g t m)
    let ?P = "\<lambda>r. le_name r = m \<and> le_holder r = g"
    have "\<not> ?P r" using assms(3) CallRenew r by simp
    then have "r \<in> set (updateWhere ?P (\<lambda>r. r\<lparr>le_expiresAt := t + LeaseTTL\<rparr>) rows)"
      using r(1) by (simp add: in_updateWhere)
    moreover have "rowsAffected ?P rows = 0" if "m = n"
      using only that \<open>\<not> ?P r\<close> by auto
    ultimately show ?thesis
      using CallRenew keep by (auto simp: Renew_def Let_def simp del: rowsAffected_0)
  next
    case (CallRelease g t m)
    then have "r \<in> set (fst (leaseCall c rows))" using r assms(3) by (simp add: Release_def)
    then show ?thesis using CallRelease keep by (simp add: Release_def)
  qed
qed

interpretation lease_table: lease_service leases_keyed leaseGranted leaseCall leaseCaller leaseName leaseClock LeaseTTL
  by unfold_locales (rule leaseCall_keyed leaseCall_grants leaseCall_others_wait; assumption)+

text \<open>C8: One reader at a time. Once an instance has been granted a lease, and until that lease's thirty
  seconds are over by the database's clock, no call another instance makes for it is granted, however many
  of them ask, renew or release and in whatever order; and the row stays the holder's.\<close>

theorem lease_exclusive:
  assumes "leases_keyed rows" "leaseCall c rows = (rows', True)"
    and "\<forall>d\<in>set cs. leaseCaller d \<noteq> leaseCaller c \<and> leaseClock d \<le> leaseClock c + LeaseTTL"
  shows "leaseGranted (fst (calls leaseCall cs rows')) (leaseName c) (leaseCaller c) (leaseClock c + LeaseTTL)
    \<and> (\<forall>(d, ok)\<in>set (snd (calls leaseCall cs rows')). leaseName d = leaseName c \<longrightarrow> \<not> ok)"
  by (rule lease_table.exclusive [OF assms])

theorem lease_exclusive_witness:
  "snd (calls leaseCall [CallAcquire ''b'' (20 * Second) ''polygon'', CallRelease ''b'' (21 * Second) ''polygon'',
      CallAcquire ''b'' (31 * Second) ''amoy''] [\<lparr>le_name = ''polygon'', le_holder = ''a'', le_expiresAt = 31 * Second\<rparr>])
   = [(CallAcquire ''b'' (20 * Second) ''polygon'', False), (CallRelease ''b'' (21 * Second) ''polygon'', False),
      (CallAcquire ''b'' (31 * Second) ''amoy'', True)]
   \<and> leaseGranted (fst (calls leaseCall [CallAcquire ''b'' (20 * Second) ''polygon'']
       [\<lparr>le_name = ''polygon'', le_holder = ''a'', le_expiresAt = 31 * Second\<rparr>])) ''polygon'' ''a'' (31 * Second)"
proof -
  have "leaseCall (CallAcquire ''a'' (1 * Second) ''polygon'') []
      = ([\<lparr>le_name = ''polygon'', le_holder = ''a'', le_expiresAt = 31 * Second\<rparr>], True)"
    by (simp add: Acquire_def Let_def LeaseTTL_def)
  from lease_exclusive [OF _ this, of "[CallAcquire ''b'' (20 * Second) ''polygon'']"]
  show ?thesis
    by (simp add: leases_keyed_def LeaseTTL_def) (simp add: Acquire_def Release_def Let_def LeaseTTL_def ofName_def
        rowsAffected_def)
qed

section \<open>The position moves from where it was read\<close>

definition cursors_keyed :: "db \<Rightarrow> bool" where
  "cursors_keyed db = distinct (map cur_network (db_cursors db))"

text \<open>A position as the row keeps it.\<close>

definition kept :: "position \<Rightarrow> position" where
  "kept p = p\<lparr>pos_time := (if isZeroTime (pos_time p) then 0 else stamp (pos_time p))\<rparr>"

lemma bigint_Inr_iff: "bigint p = Inr h \<longleftrightarrow> unat (pos_height p) \<le> MaxInt64 \<and> h = int (unat (pos_height p))"
  by (auto simp: bigint_def)

lemma Advance_Inr_iff:
  "Advance db n from to now = Inr db' \<longleftrightarrow>
     (\<exists>was next. bigint from = Inr was \<and> bigint to = Inr next \<and> storable (pos_hash to)
        \<and> (\<exists>r\<in>set (db_cursors db). sitsOn n was (pos_hash from) r)
        \<and> db' = db\<lparr>db_cursors := updateWhere (sitsOn n was (pos_hash from)) (\<lambda>r. cursorRow n next to now) (db_cursors db)\<rparr>)"
  by (auto simp: Advance_def Let_def res_simps)

lemma Get_row:
  assumes "cursors_keyed db" "r \<in> set (db_cursors db)" "cur_network r = n"
  shows "Get db n = bindE (rowPosition r) (\<lambda>p. Inr (Some p))"
proof -
  have "List.find (\<lambda>x. cur_network x = cur_network r) (db_cursors db) = Some r"
    using assms(1,2) find_by_key [of cur_network "db_cursors db" r] by (simp add: cursors_keyed_def)
  then have "List.find (ofNetwork n) (db_cursors db) = Some r"
    using assms(3) by (simp add: ofNetwork_def [abs_def])
  then show ?thesis by (simp add: Get_def)
qed

text \<open>A position moves only from where it was read. When a round advances a network's position, the position
  is afterwards the one it read to, every other network's row is untouched, and no other round that read
  the old position can advance it any more, nor can starting over put it back.\<close>

theorem cursor_advances_once:
  assumes "cursors_keyed db" "Advance db n from to now = Inr db'"
    and "(pos_height from, pos_hash from) \<noteq> (pos_height to, pos_hash to)"
  shows "Get db' n = Inr (Some (kept to))
    \<and> filter (\<lambda>r. cur_network r \<noteq> n) (db_cursors db') = filter (\<lambda>r. cur_network r \<noteq> n) (db_cursors db)
    \<and> \<not> isOk (Advance db' n from other later)
    \<and> (isOk (Init db' n from later) \<longrightarrow> Init db' n from later = Inr db')"
proof -
  obtain was nx r where a: "bigint from = Inr was" "bigint to = Inr nx" "r \<in> set (db_cursors db)"
      "sitsOn n was (pos_hash from) r"
      "db' = db\<lparr>db_cursors := updateWhere (sitsOn n was (pos_hash from)) (\<lambda>r. cursorRow n nx to now) (db_cursors db)\<rparr>"
    using assms(2) by (auto simp: Advance_Inr_iff)
  let ?P = "sitsOn n was (pos_hash from)" and ?new = "cursorRow n nx to now"
  have "map cur_network (updateWhere ?P (\<lambda>r. ?new) (db_cursors db)) = map cur_network (db_cursors db)"
    by (rule map_updateWhere_frame) (simp add: sitsOn_def cursorRow_def)
  then have k: "cursors_keyed db'"
    using assms(1) by (simp add: cursors_keyed_def a(5))
  have in_db: "?new \<in> set (db_cursors db')" using a(3,4) by (auto simp: a(5) in_updateWhere)
  have new: "cur_network ?new = n" "cur_height ?new = nx" "cur_hash ?new = pos_hash to"
    by (simp_all add: cursorRow_def)
  have "word_of_int nx = pos_height to" using a(2) by (simp add: bigint_Inr_iff)
  then have "rowPosition ?new = Inr (kept to)"
    using a(2) by (auto simp: rowPosition_def cursorRow_def kept_def blockTime_def bigint_Inr_iff)
  then have get: "Get db' n = Inr (Some (kept to))"
    using Get_row [OF k in_db new(1)] by simp
  have rest: "filter (\<lambda>r. cur_network r \<noteq> n) (db_cursors db') = filter (\<lambda>r. cur_network r \<noteq> n) (db_cursors db)"
    unfolding a(5) db.select_convs db.update_convs
    by (simp, rule filter_updateWhere_out) (simp add: sitsOn_def cursorRow_def)
  have moved: "(nx, pos_hash to) \<noteq> (was, pos_hash from)"
    using assms(3) a(1,2) by (auto simp: bigint_Inr_iff word_uint_eq_iff)
  have "\<not> ?P x" if "x \<in> set (db_cursors db')" for x
  proof
    assume "?P x"
    then have "cur_network x = cur_network ?new" using new(1) by (simp add: sitsOn_def)
    then have "x = ?new"
      using distinct_key_unique [OF k [unfolded cursors_keyed_def] that in_db] by simp
    with \<open>?P x\<close> show False using new moved by (simp add: sitsOn_def)
  qed
  then have stay: "\<not> isOk (Advance db' n from other later)"
    using a(1) by (auto simp: isOk_iff Advance_Inr_iff)
  have "isOk (Init db' n from later) \<longrightarrow> Init db' n from later = Inr db'"
    using in_db new(1) by (auto simp: Init_def ofNetwork_def split: sum.splits)
  with get rest stay show ?thesis by blast
qed

definition demo_position :: "uint64 \<Rightarrow> string \<Rightarrow> position" where
  "demo_position h x = \<lparr>pos_height = h, pos_hash = x, pos_time = 40 * Second\<rparr>"

definition demo_cursors :: "position \<Rightarrow> db" where
  "demo_cursors p = \<lparr>db_accounts = [], db_payments = [], db_attempts = [], db_refunds = [], db_observations = [],
     db_outbox = [], db_cursors = [cursorRow ''polygon'' (int (unat (pos_height p))) p 0], db_leases = []\<rparr>"

theorem cursor_advances_once_witness:
  "Get (demo_cursors (demo_position 9 ''0xH9'')) ''polygon'' = Inr (Some (demo_position 9 ''0xH9''))
   \<and> \<not> isOk (Advance (demo_cursors (demo_position 9 ''0xH9'')) ''polygon'' (demo_position 7 ''0xH7'') (demo_position 8 ''0xH8'') 1)"
proof -
  let ?a = "demo_position 7 ''0xH7''" and ?b = "demo_position 9 ''0xH9''"
  have adv: "Advance (demo_cursors ?a) ''polygon'' ?a ?b 0 = Inr (demo_cursors ?b)"
    by (simp add: Advance_Inr_iff demo_cursors_def bigint_Inr_iff demo_position_def sitsOn_def cursorRow_def
        storable_printable printable_def MaxInt64_def)
  have "cursors_keyed (demo_cursors ?a)" by (simp add: cursors_keyed_def demo_cursors_def)
  from cursor_advances_once [OF this adv, of "demo_position 8 ''0xH8''" 1]
  show ?thesis by (simp add: demo_position_def kept_def isZeroTime_def stamp_def truncateTime_def)
qed

end
