(* ===== verification/Service.thy ===== *)
theory Service
  imports Rounds Cursors
begin

text \<open>
  Package payment, service.go: what a request handler or a worker calls. The service holds nothing;
  every call is given the database and the moment, and answers the database after it. What the random
  source read is an argument of the calls that mint an identifier or a key.
\<close>

definition DefaultExpiry :: duration where "DefaultExpiry = 15 * Minute"
definition MaxExpiry :: duration where "MaxExpiry = 30 * 24 * Hour"
definition MaxAttempts :: nat where "MaxAttempts = 2"

definition withDeadline :: "request \<Rightarrow> gotime \<Rightarrow> request" where
  "withDeadline r now = (if isZeroTime (rq_expiresAt r) then r\<lparr>rq_expiresAt := now + DefaultExpiry\<rparr> else r)"

definition openProblems :: "string \<Rightarrow> request \<Rightarrow> gotime \<Rightarrow> problem list" where
  "openProblems pid r now =
     (case build pid r Created now now of Inl ps \<Rightarrow> ps | Inr _ \<Rightarrow> [])
     @ (if now + MaxExpiry < rq_expiresAt r
        then [Problem ''expires_at'' (LatestDeadline (rq_expiresAt r) (now + MaxExpiry))] else [])"

definition opened :: "db \<Rightarrow> string \<Rightarrow> idempotency \<Rightarrow> (store_error, payment) result" where
  "opened db account i =
     (case FindByKey db account (idem_key i) of
        Inl e \<Rightarrow> Inl e
      | Inr (first, _) \<Rightarrow>
          if idem_bodyHash (pay_idempotency first) \<noteq> idem_bodyHash i then Inl ErrIdempotencyKeyUsed
          else Inr first)"

text \<open>\<open>OpenAs\<close> answers the payment, and whether it is one opened before.\<close>

definition OpenAs ::
  "db \<Rightarrow> string \<Rightarrow> string \<Rightarrow> request \<Rightarrow> gotime \<Rightarrow> (store_error, payment \<times> bool \<times> db) result" where
  "OpenAs db account pid r0 now =
     (let r = withDeadline r0 now in
      if openProblems pid r now \<noteq> [] then Inl (StoreProblems (openProblems pid r now))
      else case build pid r Created now now of
             Inl ps \<Rightarrow> Inl (StoreProblems ps)
           | Inr p \<Rightarrow>
               (case Create db account p of
                  Inr db' \<Rightarrow> Inr (p, False, db')
                | Inl e \<Rightarrow>
                    if e = ErrIdempotencyKeyUsed
                    then bindE (opened db account (rq_idempotency r)) (\<lambda>first. Inr (first, True, db))
                    else Inl e))"

definition Open ::
  "byte list option \<Rightarrow> db \<Rightarrow> string \<Rightarrow> request \<Rightarrow> gotime \<Rightarrow> (store_error, payment \<times> db) result" where
  "Open random db account r now =
     (case NewID random of
        None \<Rightarrow> Inl RandomSourceFailed
      | Some pid \<Rightarrow> bindE (OpenAs db account pid r now) (\<lambda>(p, _, db'). Inr (p, db')))"

definition service_Await :: "gotime \<Rightarrow> db \<Rightarrow> string \<Rightarrow> string \<Rightarrow> (store_error, payment \<times> db) result" where
  "service_Await clock db account pid =
     bindE (Find db account pid) (\<lambda>(p, at).
     (case Await p of
        Inl ps \<Rightarrow> Inl (StoreProblems ps)
      | Inr q \<Rightarrow>
     (case Announce q None of
        None \<Rightarrow> Inl EncoderRefused
      | Some e \<Rightarrow> bindE (Save clock db account (Some q) at e) (\<lambda>db'. Inr (q, db')))))"

definition service_Supersede :: "db \<Rightarrow> string \<Rightarrow> string \<Rightarrow> string \<Rightarrow> (store_error, db) result" where
  "service_Supersede db account pid aid =
     bindE (Find db account pid) (\<lambda>(p, _).
     if pay_status p \<noteq> AwaitingPayment then Inl (ErrNotAwaiting (pay_status p))
     else bindE (Live db account pid) (\<lambda>found.
       (case found of
          None \<Rightarrow> Inl ErrNotFound
        | Some (a, at) \<Rightarrow>
            if att_id a \<noteq> aid then Inl ErrNotFound
            else if Attempted db account pid \<ge> MaxAttempts then Inl ErrReissued
            else (case Supersede a of
                    Inl ps \<Rightarrow> Inl (StoreProblems ps)
                  | Inr b \<Rightarrow> SaveAttempt db account (Some b) at))))"

definition OpenRefund ::
  "byte list option \<Rightarrow> db \<Rightarrow> string \<Rightarrow> payment option \<Rightarrow> string \<Rightarrow> refund_request \<Rightarrow> gotime \<Rightarrow> (store_error, refund \<times> db) result" where
  "OpenRefund keyBytes db account po rid r now =
     (case NewRefund keyBytes po rid r now of
        Inl None \<Rightarrow> Inl RandomSourceFailed
      | Inl (Some ps) \<Rightarrow> Inl (StoreProblems ps)
      | Inr q \<Rightarrow> bindE (CreateRefund db account (Some q)) (\<lambda>db'. Inr (q, db')))"

definition service_Refunded :: "db \<Rightarrow> string \<Rightarrow> payment \<Rightarrow> (store_error, string) result" where
  "service_Refunded db account p =
     (case ParseMoney (mo_asset (pay_amount p)) (Refunded db account (pay_id p)) of
        Inl e \<Rightarrow> Inl (RowMoney e)
      | Inr m \<Rightarrow> Inr (Units m))"

definition Refundable :: "db \<Rightarrow> string \<Rightarrow> payment \<Rightarrow> (store_error, money) result" where
  "Refundable db account p =
     bindE (remaining (bigString (Amount (pay_received p))) (Refunded db account (pay_id p))) (\<lambda>left.
       mapErr RowMoney (NewMoney (mo_asset (pay_amount p)) (Some (if left < 0 then 0 else left))))"

definition service_Issue ::
  "byte list option \<Rightarrow> byte list option \<Rightarrow> db \<Rightarrow> string \<Rightarrow> string \<Rightarrow> gotime \<Rightarrow> (store_error, attempt \<times> payment \<times> db) result" where
  "service_Issue idBytes keyBytes db account pid now =
     bindE (Find db account pid) (\<lambda>(p, _).
     if pay_status p \<noteq> AwaitingPayment then Inl (ErrNotAwaiting (pay_status p))
     else bindE (Live db account pid) (\<lambda>found.
     if found \<noteq> None then Inl ErrAttemptLive
     else bindE (Has db (as_network (mo_asset (pay_amount p)))) (\<lambda>watched.
     if \<not> watched then Inl (NoPosition (as_network (mo_asset (pay_amount p))))
     else (case NewAttempt idBytes keyBytes (Some p) now of
             Inl RandomFailed \<Rightarrow> Inl RandomSourceFailed
           | Inl e \<Rightarrow> Inl (AttemptRefused e)
           | Inr a \<Rightarrow> bindE (Issue db account (Some a)) (\<lambda>db'. Inr (a, p, db'))))))"

section \<open>Opening a payment twice\<close>

lemma openProblems_Nil_iff:
  "openProblems pid r now = [] \<longleftrightarrow> isOk (build pid r Created now now) \<and> rq_expiresAt r \<le> now + MaxExpiry"
  by (auto simp: openProblems_def isOk_iff build_def split: sum.splits if_splits)

lemma OpenAs_Inr_iff:
  "OpenAs db account pid r now = Inr (p, again, db') \<longleftrightarrow>
     (\<exists>q. build pid (withDeadline r now) Created now now = Inr q \<and> rq_expiresAt (withDeadline r now) \<le> now + MaxExpiry
        \<and> (Create db account q = Inr db' \<and> p = q \<and> \<not> again
           \<or> Create db account q = Inl ErrIdempotencyKeyUsed \<and> db' = db \<and> again
             \<and> opened db account (rq_idempotency r) = Inr p))"
proof -
  have i: "rq_idempotency (withDeadline r now) = rq_idempotency r" by (simp add: withDeadline_def)
  show ?thesis
  proof (cases "build pid (withDeadline r now) Created now now")
    case (Inl ps)
    then show ?thesis by (simp add: OpenAs_def Let_def openProblems_Nil_iff)
  next
    case (Inr q)
    then show ?thesis
      by (cases "Create db account q") (auto simp: OpenAs_def Let_def openProblems_Nil_iff i res_simps)
  qed
qed

lemma opened_Inr_iff:
  "opened db account i = Inr p \<longleftrightarrow>
     (\<exists>at. FindByKey db account (idem_key i) = Inr (p, at) \<and> idem_bodyHash (pay_idempotency p) = idem_bodyHash i)"
  by (auto simp: opened_def split: sum.splits prod.splits if_splits)

lemma withDeadline_simps [simp]:
  "rq_idempotency (withDeadline r now) = rq_idempotency r" "rq_amount (withDeadline r now) = rq_amount r"
  by (simp_all add: withDeadline_def)

lemma build_idempotency: "build pid r st c da = Inr p \<Longrightarrow> pay_idempotency p = rq_idempotency r \<and> pay_id p = pid"
  by (auto simp: build_Inr_iff)


definition demo_keyed_request :: request where
  "demo_keyed_request = demo_request\<lparr>rq_idempotency := \<lparr>idem_key = ''order'', idem_bodyHash = ''h''\<rparr>\<rparr>"

definition demo_keyed_payment :: payment where
  "demo_keyed_payment = (demo_payment Created noMoney)\<lparr>pay_idempotency := \<lparr>idem_key = ''order'', idem_bodyHash = ''h''\<rparr>\<rparr>"

definition demo_keyed_row :: payment_row where
  "demo_keyed_row = (demo_row Created None 1)\<lparr>prow_idempotencyKey := Some ''order'', prow_idempotencyBodyHash := Some ''h''\<rparr>"

definition demo_other_id :: string where
  "demo_other_id = hexEncode (replicate 16 9)"

lemma demo_other_id_ok [simp]: "ParseID demo_other_id = Inr demo_other_id"
  by (rule NewID_parses [where bs = "replicate 16 9"]) (simp_all add: demo_other_id_def NewID_def newHex_def)

lemma demo_other_id_storable: "storable demo_other_id" "demo_id \<noteq> demo_other_id"
proof -
  show "storable demo_other_id"
    by (rule storable_printable) (simp add: demo_other_id_def hexEncode_def hexDigit_def printable_def)
  show "demo_id \<noteq> demo_other_id"
  proof -
    have "replicate 16 x = x # replicate 15 x" for x :: byte by (simp add: numeral_eq_Suc)
    then show ?thesis by (simp add: demo_id_def demo_other_id_def hexEncode_def hexDigit_def)
  qed
qed

lemma demo_keyed_build:
  "ParseID pid = Inr pid \<Longrightarrow> now < 900 * Second \<Longrightarrow>
     build pid (withDeadline demo_keyed_request now) Created now now
       = Inr (demo_keyed_payment\<lparr>pay_id := pid, pay_createdAt := stamp now\<rparr>)"
  by (simp add: build_Inr_iff buildProblems_Nil_iff withDeadline_def isZeroTime_def demo_keyed_request_def
      demo_request_def demo_keyed_payment_def demo_payment_def truncateTime_def stamp_def)

lemma demo_keyed_Create: "Create (demo_db []) ''acct'' demo_keyed_payment = Inr (demo_db [demo_keyed_row])"
  using demo_storable
  by (simp add: Create_Inr_iff insertPayment_def demo_db_def demo_keyed_row_def demo_row_def newPaymentRow_def Let_def
      demo_keyed_payment_def demo_payment_def checkout_IsSet_def idem_IsSet_def paymentChecks_def paymentUniques_def
      Valid_def numeric78_def stamp_def truncateTime_def demo_asset_def storable_printable printable_def)

lemma demo_keyed_clash:
  "Create (demo_db [demo_keyed_row]) ''acct'' (demo_keyed_payment\<lparr>pay_id := demo_other_id, pay_createdAt := stamp (2 * Second)\<rparr>)
     = Inl ErrIdempotencyKeyUsed"
  using demo_storable demo_other_id_storable
  by (simp add: Create_def insertPayment_def demo_db_def demo_keyed_row_def demo_row_def newPaymentRow_def Let_def
      demo_keyed_payment_def demo_payment_def checkout_IsSet_def idem_IsSet_def paymentChecks_def paymentUniques_def
      Valid_def numeric78_def stamp_def truncateTime_def demo_asset_def storable_printable printable_def)

lemma demo_keyed_found:
  "FindByKey (demo_db [demo_keyed_row]) ''acct'' ''order'' = Inr (demo_keyed_payment, \<lparr>rev_id = demo_id, rev_at = 1\<rparr>)"
proof -
  have "rowPayment (demo_row Created None 1) = Inr (demo_payment Created noMoney, \<lparr>rev_id = demo_id, rev_at = 1\<rparr>)"
    using demo_row_read [of Created None 1] by (simp add: Valid_def)
  then have r: "NewAsset ''polygon'' (prow_reference demo_keyed_row) (prow_symbol demo_keyed_row) (prow_decimals demo_keyed_row)
        = Inr demo_asset"
    using NewAsset_self [OF demo_asset_ok(1)]
    by (simp add: demo_keyed_row_def demo_row_def newPaymentRow_def Let_def demo_payment_def)
  have "Restore (storedOf demo_keyed_row (demo_money 100) noMoney) = Inr demo_keyed_payment"
    by (simp add: Restore_Inr_iff storedOf_def demo_keyed_row_def demo_row_def newPaymentRow_def Let_def demo_payment_def
        stamp_def truncateTime_def metadataColumn_def checkout_IsSet_def idem_IsSet_def Valid_def demo_keyed_payment_def)
  then have "rowPayment demo_keyed_row = Inr (demo_keyed_payment, \<lparr>rev_id = demo_id, rev_at = 1\<rparr>)"
    using r demo_amount [of 100]
    by (simp add: rowPayment_def) (simp add: demo_keyed_row_def)
  then show ?thesis
    by (simp add: FindByKey_def find_payment_def demo_db_def isPayment_def) (simp add: demo_keyed_row_def isPayment_def)
qed


end
