(* ===== verification/World.thy ===== *)
theory World
  imports Service
begin

text \<open>
  Everything at once. The API server, the observer and the worker of finality run beside each other over
  one database, each holding copies it read a while ago. A world is the database and every copy anybody
  holds with the revision it was read at; a step is one statement, or one transaction, of any of them.
  The runs of this relation are every interleaving of the calls of service.go, of an observer's rounds
  and of a worker's, and the lemmas are what no interleaving breaks.
\<close>

section \<open>The world and its steps\<close>

record world =
  w_db :: db
  w_payments :: "(string \<times> payment \<times> revision) set"
  w_attempts :: "(string \<times> attempt \<times> revision) set"
  w_refunds :: "(string \<times> refund \<times> revision) set"
  w_permits :: "(string \<times> attempt \<times> revision) set"

text \<open>The moves a handler or a worker makes on a payment; what arrives is written by rounds alone.\<close>

fun outcome_op :: "pay_op \<Rightarrow> bool" where
  "outcome_op (OpReceive m) = False"
| "outcome_op OpUnreceive = False"
| "outcome_op _ = True"

text \<open>
  \<open>read_payment\<close> covers \<open>Find\<close> and the sweeps, which read a row whole or without the columns the
  selection leaves out; \<open>supersede_permit\<close> is \<open>Service.Supersede\<close> up to its count, on a copy \<open>Live\<close>
  answered, and \<open>supersede\<close> its save.
\<close>

inductive step :: "world \<Rightarrow> world \<Rightarrow> bool" where
  read_payment: "r \<in> set (db_payments (w_db w)) \<Longrightarrow> rowPayment r = Inr (p, at) \<or> rowPayment (narrow r) = Inr (p, at) \<Longrightarrow>
     step w (w\<lparr>w_payments := insert (prow_account r, p, at) (w_payments w)\<rparr>)"
| open_payment: "build pid rq Created now now = Inr p \<Longrightarrow> Create (w_db w) account p = Inr db' \<Longrightarrow>
     step w (w\<lparr>w_db := db'\<rparr>)"
| move_payment: "(account, p, at) \<in> w_payments w \<Longrightarrow> outcome_op op \<Longrightarrow> payOp p op = Inr q \<Longrightarrow> Announce q t = Some e \<Longrightarrow>
     Save clock (w_db w) account (Some q) at e = Inr db' \<Longrightarrow> step w (w\<lparr>w_db := db'\<rparr>)"
| read_attempt: "r \<in> set (db_attempts (w_db w)) \<Longrightarrow> scanAttempt (Some r) = Inr (a, at) \<Longrightarrow>
     step w (w\<lparr>w_attempts := insert (arow_account r, a, at) (w_attempts w)\<rparr>)"
| issue: "(account, p, at) \<in> w_payments w \<Longrightarrow> NewAttempt idBytes keyBytes (Some p) now = Inr a \<Longrightarrow>
     Issue (w_db w) account (Some a) = Inr db' \<Longrightarrow> step w (w\<lparr>w_db := db'\<rparr>)"
| supersede_permit: "(account, a, at) \<in> w_attempts w \<Longrightarrow> live (att_status a) \<Longrightarrow>
     Attempted (w_db w) account (att_paymentID a) < MaxAttempts \<Longrightarrow>
     step w (w\<lparr>w_permits := insert (account, a, at) (w_permits w)\<rparr>)"
| supersede: "(account, a, at) \<in> w_permits w \<Longrightarrow> Supersede a = Inr b \<Longrightarrow>
     SaveAttempt (w_db w) account (Some b) at = Inr db' \<Longrightarrow> step w (w\<lparr>w_db := db'\<rparr>)"
| open_refund: "(account, p, at) \<in> w_payments w \<Longrightarrow> NewRefund keyBytes (Some p) rid rq now = Inr q \<Longrightarrow>
     \<forall>x\<in>set (db_refunds (w_db w)). rrow_account x = account \<longrightarrow> rrow_id x \<noteq> rid \<Longrightarrow>
     CreateRefund (w_db w) account (Some q) = Inr db' \<Longrightarrow> step w (w\<lparr>w_db := db'\<rparr>)"
| read_refund: "r \<in> set (db_refunds (w_db w)) \<Longrightarrow> rowRefund r p = Inr (q, at) \<Longrightarrow>
     step w (w\<lparr>w_refunds := insert (rrow_account r, q, at) (w_refunds w)\<rparr>)"
| move_refund: "(account, q, at) \<in> w_refunds w \<Longrightarrow> refundMoveTo q s = Inr q' \<Longrightarrow> AnnounceRefund q' t = Some e \<Longrightarrow>
     SaveRefund clock (w_db w) account (Some q') at e = Inr db' \<Longrightarrow> step w (w\<lparr>w_db := db'\<rparr>)"
| record_round: "\<forall>one\<in>set seen. (hit_account (seen_hit one), hit_attempt (seen_hit one), hit_attemptAt (seen_hit one)) \<in> w_attempts w \<Longrightarrow>
     Record numeric_in clock (w_db w) network lo hi final seen sent now = Inr db' \<Longrightarrow> step w (w\<lparr>w_db := db'\<rparr>)"
| give_up: "Vanish clock (w_db w) network key tx now = Inr db' \<Longrightarrow> step w (w\<lparr>w_db := db'\<rparr>)"
| mark: "db' = Disagree (w_db w) network key tx now \<or> db' = Agree (w_db w) network key tx \<Longrightarrow>
     step w (w\<lparr>w_db := db'\<rparr>)"
| place_cursor: "Init (w_db w) network pos now = Inr db' \<or> Advance (w_db w) network from pos now = Inr db'
       \<or> Set_position (w_db w) network pos now = Inr (db', before) \<Longrightarrow>
     step w (w\<lparr>w_db := db'\<rparr>)"
| lease: "step w (w\<lparr>w_db := (w_db w)\<lparr>db_leases := fst (leaseCall c (db_leases (w_db w)))\<rparr>\<rparr>)"
| new_account: "step w (w\<lparr>w_db := (w_db w)\<lparr>db_accounts := account # db_accounts (w_db w)\<rparr>\<rparr>)"

text \<open>A deployment starts with no payments and nobody holding anything.\<close>

definition started :: "world \<Rightarrow> bool" where
  "started w =
     (db_payments (w_db w) = [] \<and> db_attempts (w_db w) = [] \<and> db_refunds (w_db w) = [] \<and> db_outbox (w_db w) = []
      \<and> w_payments w = {} \<and> w_attempts w = {} \<and> w_refunds w = {} \<and> w_permits w = {})"

inductive reachable :: "world \<Rightarrow> bool" where
  start: "started w \<Longrightarrow> reachable w"
| go: "reachable w \<Longrightarrow> step w w' \<Longrightarrow> reachable w'"

section \<open>The invariant\<close>

definition soundDb :: "db \<Rightarrow> bool" where
  "soundDb db = (payments_keyed db \<and> attempts_keyed db \<and> refunds_keyed db)"

text \<open>What is held against a payment never exceeds what arrived for it, and only a succeeded one has any.\<close>

definition ceiling :: "db \<Rightarrow> bool" where
  "ceiling db =
     (\<forall>account pid. heldSum db account pid = 0
        \<or> (\<exists>r\<in>set (db_payments db). isPayment account pid r \<and> prow_status r = Succeeded
             \<and> (\<exists>v. prow_received r = Some v \<and> heldSum db account pid \<le> v)))"

text \<open>No two superseded attempts of one payment.\<close>

definition superseded_once :: "db \<Rightarrow> bool" where
  "superseded_once db =
     (\<forall>r\<in>set (db_attempts db). \<forall>r'\<in>set (db_attempts db).
        \<not> live (att_status (arow_attempt r)) \<and> \<not> live (att_status (arow_attempt r'))
        \<and> arow_account r = arow_account r' \<and> att_paymentID (arow_attempt r) = att_paymentID (arow_attempt r')
        \<longrightarrow> r = r')"

definition payment_told :: "db \<Rightarrow> string \<Rightarrow> string \<Rightarrow> status \<Rightarrow> nat" where
  "payment_told db account pid s =
     rowsAffected (\<lambda>x. ox_account x = account \<and> ox_payment x = pid \<and> ox_event x = ''payment.'' @ status_String s) (db_outbox db)"

definition reached :: "db \<Rightarrow> string \<Rightarrow> string \<Rightarrow> status \<Rightarrow> bool" where
  "reached db account pid s =
     (\<exists>r\<in>set (db_payments db). isPayment account pid r \<and> (\<lambda>s t. t \<in> set (movesOf s))\<^sup>*\<^sup>* s (prow_status r))"

text \<open>A status is told of once, and only once it is reached.\<close>

definition told_once :: "db \<Rightarrow> bool" where
  "told_once db =
     (\<forall>account pid s. Valid s \<longrightarrow> payment_told db account pid s \<le> 1
        \<and> (0 < payment_told db account pid s \<longrightarrow> reached db account pid s))"

definition dbInv :: "db \<Rightarrow> bool" where
  "dbInv db = (soundDb db \<and> ceiling db \<and> superseded_once db \<and> told_once db)"

text \<open>
  A permit to supersede: while the row is still as it was when the attempts of its payment were counted,
  it is the only one.
\<close>

definition permitted :: "db \<Rightarrow> string \<Rightarrow> attempt \<Rightarrow> revision \<Rightarrow> bool" where
  "permitted db account a at =
     (atracks db account a at \<and> live (att_status a)
      \<and> (\<forall>r\<in>set (db_attempts db). attemptAt account a (rev_at at) r \<longrightarrow>
           (\<forall>x\<in>set (db_attempts db). ofPayment account (att_paymentID a) x \<longrightarrow> x = r)))"

definition worldInv :: "world \<Rightarrow> bool" where
  "worldInv w =
     (dbInv (w_db w)
      \<and> (\<forall>(account, p, at) \<in> w_payments w. tracks (w_db w) account p at)
      \<and> (\<forall>(account, a, at) \<in> w_attempts w. atracks (w_db w) account a at)
      \<and> (\<forall>(account, q, at) \<in> w_refunds w. rtracks (w_db w) account q at)
      \<and> (\<forall>(account, a, at) \<in> w_permits w. permitted (w_db w) account a at))"

section \<open>What a step may do to the database\<close>

text \<open>
  The contract of one write: every row is one that was there, changed within its own contract, or a new
  one. The parts of the invariant follow from a write's own obligations.
\<close>

definition onward :: "db \<Rightarrow> db \<Rightarrow> bool" where
  "onward db db' =
     (soundDb db' \<and> grown evolves (db_payments db) (db_payments db') \<and> grown aevolves (db_attempts db) (db_attempts db')
      \<and> grown revolves (db_refunds db) (db_refunds db'))"

lemma list_all2_preimage: "list_all2 R xs ys \<Longrightarrow> y \<in> set ys \<Longrightarrow> \<exists>x\<in>set xs. R x y"
  by (induction rule: list_all2_induct) auto

lemma started_inv: "started w \<Longrightarrow> worldInv w"
  by (simp add: worldInv_def started_def dbInv_def soundDb_def ceiling_def superseded_once_def told_once_def
      payments_keyed_def attempts_keyed_def refunds_keyed_def heldSum_def payment_told_def rowsAffected_def)

lemma reached_grown:
  assumes "reached db account pid s" "grown evolves (db_payments db) (db_payments db')"
  shows "reached db' account pid s"
proof -
  obtain r where r: "r \<in> set (db_payments db)" "isPayment account pid r" "(\<lambda>s t. t \<in> set (movesOf s))\<^sup>*\<^sup>* s (prow_status r)"
    using assms(1) by (auto simp: reached_def)
  obtain r' where r': "r' \<in> set (db_payments db')" "evolves r r'"
    using grown_row [OF assms(2) r(1)] by blast
  have "isPayment account pid r'" using r(2) evolves_key(1) [OF r'(2)] by simp
  moreover have "(\<lambda>s t. t \<in> set (movesOf s))\<^sup>*\<^sup>* s (prow_status r')"
    using r(3) r'(2) unfolding evolves_def by (meson rtranclp_trans)
  ultimately show ?thesis using r'(1) by (auto simp: reached_def)
qed

lemma ceiling_kept:
  assumes "ceiling db" "grown evolves (db_payments db) (db_payments db')"
    and "\<And>account pid. 0 \<le> heldSum db' account pid" "\<And>account pid. heldSum db' account pid \<le> heldSum db account pid"
  shows "ceiling db'"
  unfolding ceiling_def
proof (intro allI)
  fix account pid
  show "heldSum db' account pid = 0 \<or> (\<exists>r\<in>set (db_payments db'). isPayment account pid r \<and> prow_status r = Succeeded
             \<and> (\<exists>v. prow_received r = Some v \<and> heldSum db' account pid \<le> v))"
  proof (cases "heldSum db account pid = 0")
    case True
    then show ?thesis using assms(3,4) [of account pid] by simp
  next
    case False
    then obtain r v where r: "r \<in> set (db_payments db)" "isPayment account pid r" "prow_status r = Succeeded"
        "prow_received r = Some v" "heldSum db account pid \<le> v"
      using assms(1) unfolding ceiling_def by blast
    obtain r' where r': "r' \<in> set (db_payments db')" "evolves r r'"
      using grown_row [OF assms(2) r(1)] by blast
    have "prow_status r' = Succeeded" "prow_received r' = Some v"
      using evolves_final [OF r'(2)] r(3,4) by (simp_all add: Final_iff)
    moreover have "isPayment account pid r'" using r(2) evolves_key(1) [OF r'(2)] by simp
    moreover have "heldSum db' account pid \<le> v" using assms(4) r(5) order_trans by blast
    ultimately show ?thesis using r'(1) by blast
  qed
qed

lemma heldSum_nonneg: "refunds_keyed db \<Longrightarrow> 0 \<le> heldSum db account pid"
  by (auto simp: heldSum_def refunds_keyed_def less_imp_le intro!: sum_list_nonneg)

lemma permitted_grown:
  assumes "permitted db account a at" "grown aevolves (db_attempts db) (db_attempts db')" "attempts_keyed db'"
    and "\<And>x. x \<in> set (drop (length (db_attempts db)) (db_attempts db')) \<Longrightarrow> ofPayment account (att_paymentID a) x \<Longrightarrow>
         \<forall>r\<in>set (db_attempts db). ofPayment account (att_paymentID a) r \<longrightarrow> \<not> live (att_status (arow_attempt r))"
  shows "permitted db' account a at"
proof -
  obtain us vs where uv: "db_attempts db' = us @ vs" "list_all2 aevolves (db_attempts db) us"
    using assms(2) by (auto simp: grown_def)
  have len: "length us = length (db_attempts db)" using uv(2) by (simp add: list_all2_lengthD)
  have tr: "atracks db account a at" and lv: "live (att_status a)"
    and only: "\<And>r x. r \<in> set (db_attempts db) \<Longrightarrow> attemptAt account a (rev_at at) r \<Longrightarrow> x \<in> set (db_attempts db) \<Longrightarrow>
        ofPayment account (att_paymentID a) x \<Longrightarrow> x = r"
    using assms(1) by (auto simp: permitted_def)
  obtain s where s: "s \<in> set (db_attempts db)" "isAttempt account (att_paymentID a) (att_id a) s"
      "rev_at at \<le> arow_revision s" "arow_revision s = rev_at at \<longrightarrow> amovedFrom s a"
    using tr by (auto simp: atracks_def)
  obtain s' where s': "s' \<in> set us" "aevolves s s'"
    using uv(2) s(1) by (auto simp: list_all2_conv_all_nth in_set_conv_nth) blast
  have "x = r" if r: "r \<in> set (db_attempts db')" "attemptAt account a (rev_at at) r"
      and x: "x \<in> set (db_attempts db')" "ofPayment account (att_paymentID a) x" for r x
  proof -
    have "isAttempt account (att_paymentID a) (att_id a) s'" using s(2) aevolves_key(6) [OF s'(2)] by simp
    then have rs': "r = s'"
      using attempts_unique [OF assms(3) r(1), of s'] s'(1) r(2) uv(1) by (auto simp: attemptAt_def)
    then have "arow_revision s' = rev_at at" using r(2) by (simp add: attemptAt_def)
    then have ss': "s' = s" using s'(2) s(3) by (simp add: aevolves_def)
    have sat: "attemptAt account a (rev_at at) s" using r(2) rs' ss' by simp
    have sl: "live (att_status (arow_attempt s))"
      using s(4) lv amovedFrom_live \<open>arow_revision s' = rev_at at\<close> ss' by auto
    have sof: "ofPayment account (att_paymentID a) s" using sat by (simp add: attemptAt_def isAttempt_def ofPayment_def)
    have "x \<notin> set vs"
    proof
      assume "x \<in> set vs"
      then have "x \<in> set (drop (length (db_attempts db)) (db_attempts db'))" using uv(1) len by simp
      with assms(4) [OF this x(2)] s(1) sof sl show False by blast
    qed
    then have "x \<in> set us" using x(1) uv(1) by simp
    then obtain y where y: "y \<in> set (db_attempts db)" "aevolves y x"
      using list_all2_preimage [OF uv(2)] by blast
    have "ofPayment account (att_paymentID a) y" using x(2) aevolves_key(7) [OF y(2)] by simp
    then have ys: "y = s" using only [OF s(1) sat y(1)] by simp
    then have "isAttempt account (att_paymentID a) (att_id a) x" using aevolves_key(6) [OF y(2)] s(2) by simp
    then show "x = r"
      using attempts_unique [OF assms(3) x(1) r(1), of account "att_paymentID a" "att_id a"] r(2)
      by (simp add: attemptAt_def)
  qed
  then show ?thesis
    using atracks_grown [OF tr assms(2)] lv by (auto simp: permitted_def)
qed


section \<open>Every write keeps the invariant\<close>

definition write_ok :: "db \<Rightarrow> db \<Rightarrow> bool" where
  "write_ok db db' =
     (onward db db' \<and> ceiling db' \<and> superseded_once db' \<and> told_once db'
      \<and> (\<forall>x\<in>set (drop (length (db_attempts db)) (db_attempts db')). \<forall>r\<in>set (db_attempts db).
           ofPayment (arow_account x) (att_paymentID (arow_attempt x)) r \<longrightarrow> \<not> live (att_status (arow_attempt r))))"

lemma inv_write:
  assumes "worldInv w" "write_ok (w_db w) db'"
  shows "worldInv (w\<lparr>w_db := db'\<rparr>)"
proof -
  have on: "onward (w_db w) db'" and new: "\<forall>x\<in>set (drop (length (db_attempts (w_db w))) (db_attempts db')).
      \<forall>r\<in>set (db_attempts (w_db w)). ofPayment (arow_account x) (att_paymentID (arow_attempt x)) r
        \<longrightarrow> \<not> live (att_status (arow_attempt r))"
    using assms(2) by (simp_all add: write_ok_def)
  have "permitted db' account a at" if "permitted (w_db w) account a at" for account a at
    by (rule permitted_grown [OF that]) (use on new in \<open>auto simp: onward_def soundDb_def ofPayment_def\<close>)
  moreover have "tracks db' account p at" if "tracks (w_db w) account p at" for account p at
    using tracks_grown [OF that] on by (simp add: onward_def)
  moreover have "atracks db' account a at" if "atracks (w_db w) account a at" for account a at
    using atracks_grown [OF that] on by (simp add: onward_def)
  moreover have "rtracks db' account q at" if "rtracks (w_db w) account q at" for account q at
    using rtracks_grown [OF that] on by (simp add: onward_def)
  moreover have "dbInv db'" using assms(2) by (simp add: write_ok_def dbInv_def onward_def)
  ultimately show ?thesis using assms(1) by (fastforce simp: worldInv_def)
qed

lemma superseded_settles:
  assumes "superseded_once db" "list_all2 asettles (db_attempts db) (db_attempts db')" "attempts_keyed db'"
  shows "superseded_once db'"
proof -
  have pre: "\<exists>y\<in>set (db_attempts db). aevolves y x \<and> live (att_status (arow_attempt y)) = live (att_status (arow_attempt x))"
    if "x \<in> set (db_attempts db')" for x
    using list_all2_preimage [OF assms(2) that] by (auto simp: asettles_def)
  show ?thesis
    unfolding superseded_once_def
  proof (intro ballI impI, elim conjE)
    fix r r'
    assume r: "r \<in> set (db_attempts db')" "r' \<in> set (db_attempts db')"
      and nl: "\<not> live (att_status (arow_attempt r))" "\<not> live (att_status (arow_attempt r'))"
      and same: "arow_account r = arow_account r'" "att_paymentID (arow_attempt r) = att_paymentID (arow_attempt r')"
    obtain y where y: "y \<in> set (db_attempts db)" "aevolves y r" "live (att_status (arow_attempt y)) = live (att_status (arow_attempt r))"
      using pre [OF r(1)] by blast
    obtain y' where y': "y' \<in> set (db_attempts db)" "aevolves y' r'" "live (att_status (arow_attempt y')) = live (att_status (arow_attempt r'))"
      using pre [OF r(2)] by blast
    have "y = y'"
      using assms(1) y(1,3) y'(1,3) nl same aevolves_key(1,3) [OF y(2)] aevolves_key(1,3) [OF y'(2)]
      unfolding superseded_once_def by simp
    then show "r = r'"
      using attempts_unique [OF assms(3) r, of "arow_account r" "att_paymentID (arow_attempt r)" "att_id (arow_attempt r)"]
        same aevolves_key(2) [OF y(2)] aevolves_key(2) [OF y'(2)] by (simp add: isAttempt_def)
  qed
qed

text \<open>Writing no payment's event leaves what was told as it was.\<close>

definition payment_event :: "string \<Rightarrow> bool" where
  "payment_event name = (take 8 name = ''payment.'')"

lemma payment_told_append:
  "payment_told (db\<lparr>db_outbox := db_outbox db @ new\<rparr>) account pid s = payment_told db account pid s
     + rowsAffected (\<lambda>x. ox_account x = account \<and> ox_payment x = pid \<and> ox_event x = ''payment.'' @ status_String s) new"
  by (simp add: payment_told_def rowsAffected_def)

lemma payment_told_cong: "db_outbox db' = db_outbox db \<Longrightarrow> payment_told db' account pid s = payment_told db account pid s"
  by (simp add: payment_told_def)

lemma told_kept:
  assumes "told_once db" "grown evolves (db_payments db) (db_payments db')"
    and "db_outbox db' = db_outbox db @ new" "\<forall>x\<in>set new. \<not> payment_event (ox_event x)"
  shows "told_once db'"
proof -
  have "payment_told db' account pid s = payment_told db account pid s" for account pid s
    using assms(4) payment_told_cong [of db' "db\<lparr>db_outbox := db_outbox db @ new\<rparr>"] assms(3)
    by (auto simp: payment_told_append rowsAffected_def payment_event_def filter_empty_conv)
  then show ?thesis
    using assms(1) reached_grown [OF _ assms(2)] by (simp add: told_once_def)
qed

lemma status_String_inj: "Valid s \<Longrightarrow> Valid t \<Longrightarrow> status_String s = status_String t \<Longrightarrow> s = t"
  by (cases s; cases t) (auto simp: Valid_def)


section \<open>One lemma for each kind of step\<close>

lemma frame_ok:
  assumes "dbInv db" "db_payments db' = db_payments db" "db_attempts db' = db_attempts db"
    and "db_refunds db' = db_refunds db" "db_outbox db' = db_outbox db" "set (db_accounts db) \<subseteq> set (db_accounts db')"
  shows "write_ok db db'"
proof -
  have "soundDb db'" using assms by (auto simp: dbInv_def soundDb_def payments_keyed_def attempts_keyed_def refunds_keyed_def)
  moreover have "ceiling db'" using assms by (simp add: dbInv_def ceiling_def heldSum_def)
  moreover have "told_once db'" using assms by (simp add: dbInv_def told_once_def payment_told_def reached_def)
  moreover have "superseded_once db'" using assms by (simp add: dbInv_def superseded_once_def)
  ultimately show ?thesis
    using assms(2-4) by (auto simp: write_ok_def onward_def intro!: grown_refl)
qed

lemma advances_ok:
  assumes "dbInv db" "advances db db'"
  shows "write_ok db db'"
proof -
  note a = assms(2) [unfolded advances_def]
  have r: "db_refunds db' = db_refunds db" and g: "grown evolves (db_payments db) (db_payments db')" using a by auto
  have held: "heldSum db' account pid = heldSum db account pid" for account pid by (simp add: heldSum_def r)
  have "ceiling db'"
    by (rule ceiling_kept [OF _ g]) (use assms(1) held heldSum_nonneg in \<open>auto simp: dbInv_def soundDb_def\<close>)
  moreover obtain new where "db_outbox db' = db_outbox db @ new" "\<forall>x\<in>set new. ox_event x = ''attempt.confirming''"
    using a by blast
  then have "told_once db'"
    using assms(1) by (intro told_kept [OF _ g, of new]) (auto simp: dbInv_def payment_event_def)
  moreover have "superseded_once db'"
    using assms(1) a superseded_settles by (auto simp: dbInv_def)
  moreover have "refunds_keyed db'" using assms(1) r by (simp add: dbInv_def soundDb_def refunds_keyed_def)
  moreover have "length (db_attempts db') = length (db_attempts db)" using list_all2_lengthD [of asettles "db_attempts db" "db_attempts db'"] a by simp
  ultimately show ?thesis
    using a r by (simp add: write_ok_def onward_def soundDb_def settles_grown grown_refl)
qed

lemma Create_ok:
  assumes "dbInv db" "Create db account p = Inr db'"
  shows "write_ok db db'"
proof -
  have d: "db' = db\<lparr>db_payments := db_payments db @ [newPaymentRow account p]\<rparr>"
    using assms(2) insertPayment_Inr(1) by (simp add: Create_Inr_iff)
  have k: "payments_keyed db'" using Create_keyed [OF assms(2)] assms(1) by (simp add: dbInv_def soundDb_def)
  have g: "grown evolves (db_payments db) (db_payments db')" by (rule Create_grown [OF assms(2)])
  have "ceiling db'"
    by (rule ceiling_kept [OF _ g]) (use assms(1) d heldSum_nonneg in \<open>auto simp: dbInv_def soundDb_def heldSum_def\<close>)
  moreover have "told_once db'" by (rule told_kept [OF _ g, of "[]"]) (use assms(1) d in \<open>auto simp: dbInv_def\<close>)
  ultimately show ?thesis
    using assms(1) d g k
    by (simp add: write_ok_def onward_def soundDb_def dbInv_def superseded_once_def grown_refl)
qed

lemma Issue_ok:
  assumes "dbInv db" "Issue db account (Some a) = Inr db'" "live (att_status a)"
  shows "write_ok db db'"
proof -
  note i = Issue_Inr [OF assms(2)]
  have k: "attempts_keyed db'" using Issue_keyed [OF assms(2)] assms(1) by (simp add: dbInv_def soundDb_def)
  have g: "grown evolves (db_payments db) (db_payments db')" using i(1) by (simp add: grown_refl)
  have "ceiling db'"
    by (rule ceiling_kept [OF _ g]) (use assms(1) i(1) heldSum_nonneg in \<open>auto simp: dbInv_def soundDb_def heldSum_def\<close>)
  moreover have "told_once db'" by (rule told_kept [OF _ g, of "[]"]) (use assms(1) i(1) in \<open>auto simp: dbInv_def\<close>)
  moreover have "superseded_once db'"
    using assms(1,3) i(1) by (auto simp: superseded_once_def dbInv_def)
  ultimately show ?thesis
    using assms(1,3) i(1,5) g k Issue_grown [OF assms(2)]
    by (simp add: write_ok_def onward_def soundDb_def dbInv_def grown_refl)
qed

lemma CreateRefund_ok:
  assumes "dbInv db" "CreateRefund db account (Some q) = Inr db'"
    and "\<forall>x\<in>set (db_refunds db). rrow_account x = account \<longrightarrow> rrow_id x \<noteq> ref_id q"
  shows "write_ok db db'"
proof -
  note i = insertRefund_Inr [OF CreateRefund_Inr(1) [OF assms(2)]]
  have k: "refunds_keyed db'" using CreateRefund_keyed [OF assms(2)] assms(1,3) by (simp add: dbInv_def soundDb_def)
  have g: "grown evolves (db_payments db) (db_payments db')" using i(1) by (simp add: grown_refl)
  obtain p v where p: "p \<in> set (db_payments db)" "isPayment account (ref_paymentID q) p" "prow_status p = Succeeded"
      "prow_received p = Some v" "heldSum db account (ref_paymentID q) + Amount (ref_amount q) \<le> v"
    using CreateRefund_Inr(2) [OF assms(2)] by blast
  have c: "ceiling db" using assms(1) by (simp add: dbInv_def)
  have "ceiling db'"
    unfolding ceiling_def
  proof (intro allI)
    fix acc pid
    show "heldSum db' acc pid = 0 \<or> (\<exists>r\<in>set (db_payments db'). isPayment acc pid r \<and> prow_status r = Succeeded
             \<and> (\<exists>v. prow_received r = Some v \<and> heldSum db' acc pid \<le> v))"
    proof (cases "holdsAgainst acc pid (newRefundRow account q)")
      case True
      then have "acc = account" "pid = ref_paymentID q" by (auto simp: holdsAgainst_def)
      then show ?thesis using p True i(1) by (auto simp: heldSum_append)
    next
      case False
      then show ?thesis using c i(1) by (simp add: heldSum_append ceiling_def)
    qed
  qed
  moreover have "told_once db'" by (rule told_kept [OF _ g, of "[]"]) (use assms(1) i(1) in \<open>auto simp: dbInv_def\<close>)
  ultimately show ?thesis
    using assms(1) i(1) g k CreateRefund_grown [OF assms(2)]
    by (simp add: write_ok_def onward_def soundDb_def dbInv_def superseded_once_def grown_refl)
qed

lemma refund_not_payment_event: "AnnounceRefund q t = Some e \<Longrightarrow> \<not> payment_event (ev_name e)"
  by (auto simp: AnnounceRefund_def noEvent_def payment_event_def split: if_splits option.splits)

lemma SaveRefund_ok:
  assumes "dbInv db" "SaveRefund clock db account (Some q) at e = Inr db'" "rtracks db account q at"
    and "AnnounceRefund q t = Some e"
  shows "write_ok db db'"
proof -
  let ?P = "refundAt account (ref_id q) (rev_at at)"
  have rk: "refunds_keyed db" using assms(1) by (simp add: dbInv_def soundDb_def)
  obtain new where d: "db' = db\<lparr>db_refunds := updateWhere ?P (resettled clock q) (db_refunds db), db_outbox := db_outbox db @ new\<rparr>"
      "\<forall>x\<in>set new. ox_event x = ev_name e"
    using SaveRefund_frame(1) [OF assms(2)] by (rule that) simp
  have k: "refunds_keyed db'" by (rule SaveRefund_keyed [OF assms(2) rk])
  have g: "grown evolves (db_payments db) (db_payments db')" using d(1) by (simp add: grown_refl)
  have held: "heldSum db' acc pid \<le> heldSum db acc pid" for acc pid
    by (rule heldSum_updated [of db' ?P "resettled clock q", OF _ _ rk])
      (use d(1) rtracks_row [OF rk assms(3)] resettled_revolves in auto)
  have "ceiling db'"
    by (rule ceiling_kept [OF _ g]) (use assms(1) held heldSum_nonneg [OF k] in \<open>auto simp: dbInv_def\<close>)
  moreover have "told_once db'"
    by (rule told_kept [OF _ g, of new]) (use assms(1) d refund_not_payment_event [OF assms(4)] in \<open>auto simp: dbInv_def\<close>)
  ultimately show ?thesis
    using assms(1) d g k SaveRefund_grown [OF assms(2) rk assms(3)]
    by (simp add: write_ok_def onward_def soundDb_def dbInv_def superseded_once_def grown_refl)
qed


lemma SaveAttempt_ok:
  assumes "dbInv db" "permitted db account a at" "Supersede a = Inr b" "SaveAttempt db account (Some b) at = Inr db'"
  shows "write_ok db db'"
proof -
  have b: "att_id b = att_id a" "att_paymentID b = att_paymentID a" "\<not> live (att_status b)"
    using assms(3) by (auto simp: Supersede_Inr_iff live_def)
  have save: "saveAttempt db account b at = Inr db'"
    using assms(4) by (simp add: SaveAttempt_def split: if_splits)
  have ak: "attempts_keyed db" using assms(1) by (simp add: dbInv_def soundDb_def)
  have tr: "atracks db account b at"
    using assms(2,3) atracks_moves unfolding permitted_def by blast
  let ?P = "attemptAt account b (rev_at at)"
  have P: "?P = attemptAt account a (rev_at at)" by (rule ext) (simp add: attemptAt_def b)
  have d: "db' = db\<lparr>db_attempts := updateWhere ?P (restatused b) (db_attempts db)\<rparr>"
    using save by (simp add: saveAttempt_Inr_iff)
  obtain r where r: "r \<in> set (db_attempts db)" "?P r" using save by (auto simp: saveAttempt_Inr_iff)
  have only: "x = r" if "x \<in> set (db_attempts db)" "ofPayment account (att_paymentID a) x" for x
    using assms(2) r that unfolding permitted_def P by blast
  have k: "attempts_keyed db'" by (rule saveAttempt_keyed [OF save ak])
  have g: "grown evolves (db_payments db) (db_payments db')" using d by (simp add: grown_refl)
  have "ceiling db'"
    by (rule ceiling_kept [OF _ g]) (use assms(1) d heldSum_nonneg in \<open>auto simp: dbInv_def soundDb_def heldSum_def\<close>)
  moreover have "told_once db'" by (rule told_kept [OF _ g, of "[]"]) (use assms(1) d in \<open>auto simp: dbInv_def\<close>)
  moreover have "superseded_once db'"
    unfolding superseded_once_def
  proof (intro ballI impI, elim conjE)
    fix x y
    assume xy: "x \<in> set (db_attempts db')" "y \<in> set (db_attempts db')"
      and nl: "\<not> live (att_status (arow_attempt x))" "\<not> live (att_status (arow_attempt y))"
      and same: "arow_account x = arow_account y" "att_paymentID (arow_attempt x) = att_paymentID (arow_attempt y)"
    obtain u where u: "u \<in> set (db_attempts db)" "x = (if ?P u then restatused b u else u)" using xy(1) d by (auto simp: in_updateWhere)
    obtain v where v: "v \<in> set (db_attempts db)" "y = (if ?P v then restatused b v else v)" using xy(2) d by (auto simp: in_updateWhere)
    have key: "arow_account u = arow_account v" "att_paymentID (arow_attempt u) = att_paymentID (arow_attempt v)"
      using same u(2) v(2) by (auto split: if_splits)
    show "x = y"
    proof (cases "ofPayment account (att_paymentID a) u")
      case True
      then have "ofPayment account (att_paymentID a) v" using key by (simp add: ofPayment_def)
      with True have "u = v" using only u(1) v(1) by blast
      then show ?thesis using u(2) v(2) by simp
    next
      case False
      then have "\<not> ofPayment account (att_paymentID a) v" using key by (simp add: ofPayment_def)
      with False have "\<not> ?P u" "\<not> ?P v" by (auto simp: attemptAt_def isAttempt_def ofPayment_def b)
      then have "x = u" "y = v" using u(2) v(2) by simp_all
      then show ?thesis using assms(1) nl same u(1) v(1) unfolding dbInv_def superseded_once_def by blast
    qed
  qed
  ultimately show ?thesis
    using assms(1) d g k saveAttempt_tracked [OF save ak tr]
    by (simp add: write_ok_def onward_def soundDb_def dbInv_def grown_refl)
qed

lemma outcome_op_moves: "payOp p op = Inr q \<Longrightarrow> outcome_op op \<Longrightarrow> pay_status q \<in> set (movesOf (pay_status p))"
  by (cases op) (auto simp: payment_moves CanBecome_iff)

lemma Save_ok:
  assumes "dbInv db" "tracks db account p at" "outcome_op op" "payOp p op = Inr q" "Announce q t = Some e"
    and "Save clock db account (Some q) at e = Inr db'"
  shows "write_ok db db'"
proof -
  have pk: "payments_keyed db" using assms(1) by (simp add: dbInv_def soundDb_def)
  have om: "op_made op" using assms(3) by (cases op) auto
  have tq: "tracks db account q at" by (rule payOp_tracks [OF assms(2,4) om])
  have idq: "pay_id q = pay_id p"
    using payOp_terms [OF assms(4)] by (cases p; cases q) (simp add: same_terms_def)
  have e: "ev_name e = ''payment.'' @ status_String (pay_status q)" "Produced e"
    using assms(5) by (auto simp: Announce_def Produced_def split: option.splits)
  let ?x = "\<lparr>ox_account = account, ox_payment = pay_id q, ox_event = ev_name e, ox_payload = ev_payload e\<rparr>"
  note f = Save_frame [OF assms(6)]
  have d: "db' = db\<lparr>db_payments := db_payments db', db_outbox := db_outbox db @ [?x]\<rparr>" using f(1) e(2) by simp
  obtain db1 where s: "savePayment clock db account q at = Inr db1" "db_payments db' = db_payments db1" using f(2) by blast
  let ?P = "atRevision account (pay_id q) (rev_at at)"
  obtain r where r: "r \<in> set (db_payments db)" "?P r" using s(1) by (auto simp: savePayment_Inr_iff)
  have ps: "db_payments db' = updateWhere ?P (rewritten clock q) (db_payments db)" using s by (auto simp: savePayment_Inr_iff)
  have mp: "movedFrom r p" using tracks_row [OF pk assms(2) r(1)] r(2) idq by simp
  have mq: "movedFrom r q" by (rule tracks_row [OF pk tq r])
  have k: "payments_keyed db'" by (rule Save_keyed [OF assms(6) pk])
  have g: "grown evolves (db_payments db) (db_payments db')" by (rule Save_grown [OF assms(6) pk tq])
  have refs: "db_refunds db' = db_refunds db" "db_attempts db' = db_attempts db"
    "db_outbox db' = db_outbox db @ [?x]"
    by (subst d, simp)+
  have "ceiling db'"
    by (rule ceiling_kept [OF _ g]) (use assms(1) refs heldSum_nonneg in \<open>auto simp: dbInv_def soundDb_def heldSum_def\<close>)
  moreover have "told_once db'"
    unfolding told_once_def
  proof (intro allI impI)
    fix acc pid st assume vs: "Valid st"
    have vq: "Valid (pay_status q)" using mq by (simp add: movedFrom_def payment_wf_def)
    have told: "payment_told db acc pid st \<le> 1" "0 < payment_told db acc pid st \<Longrightarrow> reached db acc pid st"
      using assms(1) vs by (auto simp: dbInv_def told_once_def)
    have more: "payment_told db' acc pid st = payment_told db acc pid st
        + (if acc = account \<and> pid = pay_id q \<and> st = pay_status q then 1 else 0)"
      using status_String_inj [OF vs vq] by (auto simp: payment_told_def refs(3) rowsAffected_def e(1))
    show "payment_told db' acc pid st \<le> 1 \<and> (0 < payment_told db' acc pid st \<longrightarrow> reached db' acc pid st)"
    proof (cases "acc = account \<and> pid = pay_id q \<and> st = pay_status q")
      case True
      have "\<not> reached db acc pid st"
      proof
        assume "reached db acc pid st"
        then obtain r' where r': "r' \<in> set (db_payments db)" "isPayment acc pid r'"
            "(\<lambda>s t. t \<in> set (movesOf s))\<^sup>*\<^sup>* st (prow_status r')" by (auto simp: reached_def)
        have "r' = r" using keyed_unique [OF pk r'(1) r(1)] r'(2) r(2) True by (simp add: isPayment_def atRevision_def)
        then have "(\<lambda>s t. t \<in> set (movesOf s))\<^sup>*\<^sup>* (pay_status q) (pay_status p)"
          using r'(3) mp True unfolding movedFrom_def by (auto intro: rtranclp_trans)
        moreover have m: "pay_status q \<in> set (movesOf (pay_status p))" by (rule outcome_op_moves [OF assms(4,3)])
        ultimately show False using pay_life.run_rank pay_life.moves_up by (meson not_less)
      qed
      then have "payment_told db acc pid st = 0" using told(2) by blast
      moreover have "reached db' acc pid st"
        unfolding reached_def ps using r True
        by (intro bexI [of _ "rewritten clock q r"]) (auto simp: in_updateWhere atRevision_def isPayment_def)
      ultimately show ?thesis using more True by simp
    next
      case False
      then show ?thesis using more told reached_grown [OF _ g] by auto
    qed
  qed
  ultimately show ?thesis
    using assms(1) refs g k
    by (simp add: write_ok_def onward_def soundDb_def dbInv_def superseded_once_def grown_refl attempts_keyed_def refunds_keyed_def)
qed


section \<open>Every reachable world\<close>

lemma narrow_movedFrom: "movedFrom (narrow r) p = movedFrom r p"
  by (simp add: movedFrom_def narrow_def rowMoney_def rowAsset_def)

lemma read_tracks:
  assumes "r \<in> set (db_payments db)" "rowPayment r = Inr (p, at) \<or> rowPayment (narrow r) = Inr (p, at)"
  shows "tracks db (prow_account r) p at"
  using assms(2)
proof
  assume n: "rowPayment (narrow r) = Inr (p, at)"
  have "movedFrom r p" using rowPayment_movedFrom [OF n] by (simp add: narrow_movedFrom)
  then show ?thesis
    using assms(1) rowPayment_Inr(2,4) [OF n] by (auto simp: tracks_def isPayment_def narrow_def intro!: bexI [of _ r])
qed (use assms(1) rowPayment_tracks in blast)

lemma permit_ok:
  assumes "dbInv db" "atracks db account a at" "live (att_status a)" "Attempted db account (att_paymentID a) < MaxAttempts"
  shows "permitted db account a at"
proof -
  have "x = r" if r: "r \<in> set (db_attempts db)" "attemptAt account a (rev_at at) r"
    and x: "x \<in> set (db_attempts db)" "ofPayment account (att_paymentID a) x" for r x
  proof (rule ccontr)
    assume "x \<noteq> r"
    have "r \<in> set (filter (ofPayment account (att_paymentID a)) (db_attempts db))"
      using r by (simp add: attemptAt_def isAttempt_def ofPayment_def)
    moreover have "x \<in> set (filter (ofPayment account (att_paymentID a)) (db_attempts db))" using x by simp
    ultimately have "{x, r} \<subseteq> set (filter (ofPayment account (att_paymentID a)) (db_attempts db))" by simp
    then have "card {x, r} \<le> length (filter (ofPayment account (att_paymentID a)) (db_attempts db))"
      by (meson List.finite_set card_length card_mono order_trans)
    with \<open>x \<noteq> r\<close> assms(4) show False by (simp add: Attempted_def rowsAffected_def MaxAttempts_def)
  qed
  then show ?thesis using assms(2,3) by (auto simp: permitted_def)
qed

lemma cursor_frames:
  "Init db network pos now = Inr db' \<Longrightarrow> \<exists>cs. db' = db\<lparr>db_cursors := cs\<rparr>"
  "Advance db network from pos now = Inr db' \<Longrightarrow> \<exists>cs. db' = db\<lparr>db_cursors := cs\<rparr>"
  "Set_position db network pos now = Inr (db', before) \<Longrightarrow> \<exists>cs. db' = db\<lparr>db_cursors := cs\<rparr>"
proof -
  have same: "\<exists>cs. db = db\<lparr>db_cursors := cs\<rparr>" for db :: db by (rule exI [of _ "db_cursors db"]) simp
  show "Init db network pos now = Inr db' \<Longrightarrow> \<exists>cs. db' = db\<lparr>db_cursors := cs\<rparr>"
    using same [of db] by (auto simp: Init_def split: sum.splits if_splits)
  show "Advance db network from pos now = Inr db' \<Longrightarrow> \<exists>cs. db' = db\<lparr>db_cursors := cs\<rparr>"
    by (auto simp: Advance_def Let_def split: sum.splits if_splits)
  show "Set_position db network pos now = Inr (db', before) \<Longrightarrow> \<exists>cs. db' = db\<lparr>db_cursors := cs\<rparr>"
    by (auto simp: Set_position_def split: sum.splits if_splits option.splits)
qed

lemma step_inv:
  assumes "step w w'" "worldInv w"
  shows "worldInv w'"
  using assms
proof (induction rule: step.induct)
  case (read_payment r w p at)
  then show ?case using read_tracks [OF read_payment(1,2)] by (auto simp: worldInv_def)
next
  case (open_payment pid rq now p w account db')
  then show ?case by (intro inv_write Create_ok) (auto simp: worldInv_def)
next
  case (move_payment account p at w op q t e clock db')
  then have "tracks (w_db w) account p at" by (auto simp: worldInv_def)
  with move_payment show ?case by (intro inv_write) (auto simp: worldInv_def intro: Save_ok)
next
  case (read_attempt r w a at)
  then have "atracks (w_db w) (arow_account r) a at"
    using row_atracks [of r "w_db w" at] by (auto simp: scanAttempt_Inr)
  with read_attempt show ?case by (auto simp: worldInv_def)
next
  case (issue account p at w idBytes keyBytes now a db')
  then have "live (att_status a)" by (auto simp: NewAttempt_Inr_iff live_def)
  with issue show ?case by (intro inv_write Issue_ok) (auto simp: worldInv_def)
next
  case (supersede_permit account a at w)
  then have "permitted (w_db w) account a at" by (intro permit_ok) (auto simp: worldInv_def)
  with supersede_permit show ?case by (auto simp: worldInv_def)
next
  case (supersede account a at w b db')
  then have "permitted (w_db w) account a at" by (auto simp: worldInv_def)
  with supersede show ?case by (intro inv_write) (auto simp: worldInv_def intro: SaveAttempt_ok)
next
  case (open_refund account p at w keyBytes rid rq now q db')
  then have "ref_id q = rid" by (auto simp: NewRefund_Inr_iff)
  with open_refund show ?case by (intro inv_write CreateRefund_ok) (auto simp: worldInv_def)
next
  case (read_refund r w p q at)
  then show ?case using rowRefund_rtracks [OF read_refund(1,2)] by (auto simp: worldInv_def)
next
  case (move_refund account q at w s q' t e clock db')
  then have "rtracks (w_db w) account q at" by (auto simp: worldInv_def)
  then have "rtracks (w_db w) account q' at" by (rule refundMove_rtracks [OF _ move_refund(2)])
  with move_refund show ?case by (intro inv_write) (auto simp: worldInv_def intro: SaveRefund_ok)
next
  case (record_round seen w numeric_in clock network lo hi final sent now db')
  have i: "dbInv (w_db w)" "payments_keyed (w_db w)" "attempts_keyed (w_db w)"
    using record_round(3) by (auto simp: worldInv_def dbInv_def soundDb_def)
  have "\<forall>one\<in>set seen. atracks (w_db w) (hit_account (seen_hit one)) (hit_attempt (seen_hit one)) (hit_attemptAt (seen_hit one))"
    using record_round(1,3) by (fastforce simp: worldInv_def)
  with record_round(2,3) i show ?case by (intro inv_write advances_ok Record_advances)
next
  case (give_up clock w network key tx now db')
  have i: "dbInv (w_db w)" "payments_keyed (w_db w)" "attempts_keyed (w_db w)"
    using give_up(2) by (auto simp: worldInv_def dbInv_def soundDb_def)
  with give_up show ?case by (intro inv_write advances_ok Vanish_advances)
next
  case (mark db' w network key tx now)
  then show ?case by (intro inv_write frame_ok) (auto simp: worldInv_def Disagree_def Agree_def)
next
  case (place_cursor w network pos now db' "from" before)
  then obtain cs where "db' = (w_db w)\<lparr>db_cursors := cs\<rparr>"
    using cursor_frames by blast
  with place_cursor show ?case by (intro inv_write frame_ok) (auto simp: worldInv_def)
next
  case (lease w c)
  then show ?case by (intro inv_write frame_ok) (auto simp: worldInv_def)
next
  case (new_account w account)
  then show ?case by (intro inv_write frame_ok) (auto simp: worldInv_def)
qed

lemma reachable_inv: "reachable w \<Longrightarrow> worldInv w"
  by (induction rule: reachable.induct) (auto intro: started_inv step_inv)

end
