(* ===== verification/Runs.thy ===== *)
theory Runs
  imports World
begin

text \<open>
  The calls of service.go as runs of the world's steps, a run from an empty deployment to a refund, and
  what holds of every reachable world.
\<close>

section \<open>The service's calls are runs\<close>

text \<open>Some reachable world has this database.\<close>

definition reaches :: "db \<Rightarrow> bool" where
  "reaches db = (\<exists>w. reachable w \<and> w_db w = db)"

lemma reaches_start: "started w \<Longrightarrow> reaches (w_db w)"
  by (auto simp: reaches_def intro: reachable.start)

lemma reaches_write: "reachable w \<Longrightarrow> step w (w\<lparr>w_db := db'\<rparr>) \<Longrightarrow> reaches db'"
  unfolding reaches_def by (intro exI [of _ "w\<lparr>w_db := db'\<rparr>"]) (simp add: reachable.go)

lemma reaches_open:
  "reaches db \<Longrightarrow> build pid rq Created now now = Inr p \<Longrightarrow> Create db account p = Inr db' \<Longrightarrow> reaches db'"
  by (auto simp: reaches_def [of db] intro: reaches_write step.open_payment)

text \<open>A read and the write that follows it, whatever came between being another run.\<close>

lemma reaches_read:
  assumes "reaches db" "r \<in> set (db_payments db)" "rowPayment r = Inr (p, at) \<or> rowPayment (narrow r) = Inr (p, at)"
  shows "\<exists>w. reachable w \<and> w_db w = db \<and> (prow_account r, p, at) \<in> w_payments w"
proof -
  obtain w where w: "reachable w" "w_db w = db" using assms(1) by (auto simp: reaches_def)
  have "step w (w\<lparr>w_payments := insert (prow_account r, p, at) (w_payments w)\<rparr>)"
    using assms(2,3) w(2) by (intro step.read_payment) auto
  with w show ?thesis
    by (intro exI [of _ "w\<lparr>w_payments := insert (prow_account r, p, at) (w_payments w)\<rparr>"]) (auto intro: reachable.go)
qed

lemma reaches_find:
  "reaches db \<Longrightarrow> find_payment db account pid = Inr (p, at) \<Longrightarrow>
     \<exists>w. reachable w \<and> w_db w = db \<and> (account, p, at) \<in> w_payments w"
  by (auto dest!: find_payment_row simp: isPayment_def) (metis reaches_read)

lemma reaches_move:
  assumes "reaches db" "r \<in> set (db_payments db)" "rowPayment r = Inr (p, at) \<or> rowPayment (narrow r) = Inr (p, at)"
    and "outcome_op op" "payOp p op = Inr q" "Announce q t = Some e" "Save clock db (prow_account r) (Some q) at e = Inr db'"
  shows "reaches db'"
  using reaches_read [OF assms(1-3)] assms(4-7) by (auto intro!: reaches_write step.move_payment)

lemma reaches_issue:
  assumes "reaches db" "r \<in> set (db_payments db)" "rowPayment r = Inr (p, at) \<or> rowPayment (narrow r) = Inr (p, at)"
    and "NewAttempt idBytes keyBytes (Some p) now = Inr a" "Issue db (prow_account r) (Some a) = Inr db'"
  shows "reaches db'"
  using reaches_read [OF assms(1-3)] assms(4-5) by (auto intro!: reaches_write step.issue)

lemma reaches_refund:
  assumes "reaches db" "r \<in> set (db_payments db)" "rowPayment r = Inr (p, at) \<or> rowPayment (narrow r) = Inr (p, at)"
    and "NewRefund keyBytes (Some p) rid rq now = Inr q" "CreateRefund db (prow_account r) (Some q) = Inr db'"
    and "\<forall>x\<in>set (db_refunds db). rrow_account x = prow_account r \<longrightarrow> rrow_id x \<noteq> rid"
  shows "reaches db'"
  using reaches_read [OF assms(1-3)] assms(4-6) by (auto intro!: reaches_write step.open_refund)

lemma reaches_read_attempt:
  assumes "reaches db" "scanAttempt (Some r) = Inr (a, at)" "r \<in> set (db_attempts db)"
  shows "\<exists>w. reachable w \<and> w_db w = db \<and> (arow_account r, a, at) \<in> w_attempts w"
proof -
  obtain w where w: "reachable w" "w_db w = db" using assms(1) by (auto simp: reaches_def)
  have "step w (w\<lparr>w_attempts := insert (arow_account r, a, at) (w_attempts w)\<rparr>)"
    using assms(2,3) w(2) by (intro step.read_attempt) auto
  with w show ?thesis
    by (intro exI [of _ "w\<lparr>w_attempts := insert (arow_account r, a, at) (w_attempts w)\<rparr>"]) (auto intro: reachable.go)
qed

lemma reaches_live:
  assumes "reaches db" "Live db account pid = Inr (Some (a, at))"
  shows "\<exists>w. reachable w \<and> w_db w = db \<and> (account, a, at) \<in> w_attempts w"
proof -
  have s: "scanAttempt (List.find (\<lambda>r. ofPayment account pid r \<and> live (att_status (arow_attempt r))) (db_attempts db)) = Inr (a, at)"
    using assms(2) by (simp add: Live_Some)
  then obtain r where r: "List.find (\<lambda>r. ofPayment account pid r \<and> live (att_status (arow_attempt r))) (db_attempts db) = Some r"
    by (auto simp: scanAttempt_Inr)
  then show ?thesis
    using reaches_read_attempt [OF assms(1), of r a at] s find_SomeD [OF r] by (auto simp: ofPayment_def)
qed

lemma reaches_supersede:
  assumes "reaches db" "Live db account pid = Inr (Some (a, at))" "Attempted db account pid < MaxAttempts"
    and "Supersede a = Inr b" "SaveAttempt db account (Some b) at = Inr db'"
  shows "reaches db'"
proof -
  obtain w where w: "reachable w" "w_db w = db" "(account, a, at) \<in> w_attempts w"
    using reaches_live [OF assms(1,2)] by blast
  have l: "att_paymentID a = pid" "live (att_status a)" using Live_atracks [OF assms(2)] by auto
  let ?w = "w\<lparr>w_permits := insert (account, a, at) (w_permits w)\<rparr>"
  have "step w ?w" using w l assms(3) by (intro step.supersede_permit) auto
  then have "reachable ?w" by (rule reachable.go [OF w(1)])
  moreover have "step ?w (?w\<lparr>w_db := db'\<rparr>)" using w(2) assms(4,5) by (intro step.supersede [of account a at]) auto
  ultimately show ?thesis by (rule reaches_write)
qed


lemma OpenAs_reaches: "reaches db \<Longrightarrow> OpenAs db account pid r now = Inr (p, again, db') \<Longrightarrow> reaches db'"
  by (auto simp: OpenAs_Inr_iff intro: reaches_open)

lemma service_Await_reaches:
  assumes "reaches db" "service_Await clock db account pid = Inr (q, db')"
  shows "reaches db'"
proof -
  obtain p at e where f: "find_payment db account pid = Inr (p, at)" "Await p = Inr q" "Announce q None = Some e"
      "Save clock db account (Some q) at e = Inr db'"
    using assms(2) by (auto simp: service_Await_def res_simps Find_def)
  obtain w where "reachable w" "w_db w = db" "(account, p, at) \<in> w_payments w"
    using reaches_find [OF assms(1) f(1)] by blast
  moreover from this f have "step w (w\<lparr>w_db := db'\<rparr>)"
    by (intro step.move_payment [where op = OpAwait and t = None]) auto
  ultimately show ?thesis by (auto intro: reaches_write)
qed

lemma attempt_case_Inr:
  "(case x of Inl RandomFailed \<Rightarrow> Inl d | Inl e \<Rightarrow> Inl (f e) | Inr a \<Rightarrow> g a) = Inr y \<longleftrightarrow> (\<exists>a. x = Inr a \<and> g a = Inr y)"
  by (auto split: sum.splits attempt_error.splits)

lemma service_Issue_reaches:
  assumes "reaches db" "service_Issue idBytes keyBytes db account pid now = Inr (a, p, db')"
  shows "reaches db'"
proof -
  obtain at where f: "find_payment db account pid = Inr (p, at)" "NewAttempt idBytes keyBytes (Some p) now = Inr a"
      "Issue db account (Some a) = Inr db'"
    using assms(2) by (auto simp: service_Issue_def res_simps attempt_case_Inr Find_def)
  obtain w where "reachable w" "w_db w = db" "(account, p, at) \<in> w_payments w"
    using reaches_find [OF assms(1) f(1)] by blast
  then show ?thesis using f by (auto intro!: reaches_write step.issue)
qed

lemma service_Supersede_reaches:
  assumes "reaches db" "service_Supersede db account pid aid = Inr db'"
  shows "reaches db'"
proof -
  obtain a at b where f: "Live db account pid = Inr (Some (a, at))" "Attempted db account pid < MaxAttempts"
      "Supersede a = Inr b" "SaveAttempt db account (Some b) at = Inr db'"
    using assms(2) by (auto simp: service_Supersede_def res_simps not_le split: if_splits option.splits sum.splits)
  then show ?thesis by (rule reaches_supersede [OF assms(1)])
qed

lemma OpenRefund_reaches:
  assumes "reaches db" "find_payment db account pid = Inr (p, at)" "OpenRefund keyBytes db account (Some p) rid r now = Inr (q, db')"
    and "\<forall>x\<in>set (db_refunds db). rrow_account x = account \<longrightarrow> rrow_id x \<noteq> rid"
  shows "reaches db'"
proof -
  have f: "NewRefund keyBytes (Some p) rid r now = Inr q" "CreateRefund db account (Some q) = Inr db'"
    using assms(3) by (auto simp: OpenRefund_def res_simps split: sum.splits option.splits)
  obtain w where "reachable w" "w_db w = db" "(account, p, at) \<in> w_payments w"
    using reaches_find [OF assms(1,2)] by blast
  then show ?thesis using f assms(4) by (auto intro!: reaches_write step.open_refund)
qed

section \<open>A run from an empty deployment to a refund\<close>

lemma civil_0: "civil 0 = (1, 1, 1)" by code_simp
lemma pad_texts: "pad 2 0 = ''00''" "pad 2 1 = ''01''" "pad 4 1 = ''0001''" "pad 2 15 = ''15''" "rightTrim (pad 9 0) = []"
  by code_simp+
lemma demo_created_text: "rfc3339Nano Second = Some ''0001-01-01T00:00:01Z''" 
 by (simp add: rfc3339Nano_def civil_0 pad_texts)
lemma demo_expires_text: "rfc3339Nano (900*Second) = Some ''0001-01-01T00:15:00Z''" 
 by (simp add: rfc3339Nano_def civil_0 pad_texts)
lemma demo_hundred: "bigString 100 = ''100''" 
 by code_simp

lemma demo_units: "Units (demo_money 100) = ''0.0000000000000001''"
  by code_simp


lemma demo_payment_simps:
  "pay_id (demo_payment st m) = demo_id" "pay_status (demo_payment st m) = st" "pay_amount (demo_payment st m) = demo_money 100"
  "pay_received (demo_payment st m) = m" "pay_destination (demo_payment st m) = ''0xA11CE''" "pay_metadata (demo_payment st m) = []"
  "pay_createdAt (demo_payment st m) = Second" "pay_expiresAt (demo_payment st m) = 900 * Second" "pay_returnURL (demo_payment st m) = []"
  by (simp_all add: demo_payment_def)

lemma demo_id_length: "length demo_id = 32"
  by code_simp

lemma demo_told:
  assumes "Valid st" "m = noMoney \<or> m = demo_money 100"
  shows "\<exists>e. Announce (demo_payment st m) None = Some e \<and> checkEvent e = None \<and> Produced e
    \<and> ev_name e = ''payment.'' @ status_String st"
proof -
  have st: "length (status_String st) \<le> 17" by (rule status_String_short [OF assms(1)])
  have n: "\<not> money_IsSet noMoney" by (simp add: noMoney_def money_IsSet_def)
  obtain b where b: "bodyJSON (demo_payment st m) None = Some b"
    by (simp add: bodyJSON_def demo_payment_simps demo_created_text demo_expires_text [simplified] shownTransfer_def)
  then have "jbound b \<le> 5000"
    using assms(2) n st
    by (auto simp: bodyJSON_def demo_payment_simps demo_created_text demo_expires_text [simplified] shownTransfer_def assetJSON_def demo_units metadataJSON_def
        demo_id_length demo_asset_def)
  then have "length (encode b) \<le> MaxEventBytes" using encode_length [of b] by (simp add: MaxEventBytes_def)
  moreover have e: "Announce (demo_payment st m) None = Some e" "ev_payload e = encode b"
      "ev_name e = ''payment.'' @ status_String st"
    if "e = \<lparr>ev_name = ''payment.'' @ status_String st, ev_payload = encode b\<rparr>" for e
    using b that by (simp_all add: Announce_def told_def demo_payment_simps)
  moreover have "announced e" if "e = \<lparr>ev_name = ''payment.'' @ status_String st, ev_payload = encode b\<rparr>" for e
    by (rule Announce_announced [OF e(1) [OF that]]) (simp add: assms(1) demo_payment_simps)
  ultimately show ?thesis using announced_checkEvent by (auto simp: announced_def)
qed


definition demo_told_row :: "status \<Rightarrow> money \<Rightarrow> outbox_row" where
  "demo_told_row st m = (let e = the (Announce (demo_payment st m) None) in
     \<lparr>ox_account = ''acct'', ox_payment = demo_id, ox_event = ev_name e, ox_payload = ev_payload e\<rparr>)"

lemma demo_empty: "reaches (demo_db [])"
  using reaches_start [of "\<lparr>w_db = demo_db [], w_payments = {}, w_attempts = {}, w_refunds = {}, w_permits = {}\<rparr>"]
  by (simp add: started_def demo_db_def)

lemma demo_opened: "reaches (demo_db [demo_row Created None 1])"
proof -
  have "build demo_id demo_request Created Second Second = Inr (demo_payment Created noMoney)"
    by (simp add: build_Inr_iff buildProblems_Nil_iff demo_request_def demo_payment_def truncateTime_def)
  from reaches_open [OF demo_empty this demo_Create] show ?thesis .
qed

lemma demo_rewritten:
  "\<not> Final st \<Longrightarrow> m = (case v of None \<Rightarrow> noMoney | Some n \<Rightarrow> demo_money n) \<Longrightarrow>
     rewritten clock (demo_payment st m) (demo_row st0 v0 k) = demo_row st v (k + 1)"
  by (auto simp: rewritten_def demo_row_def receivedColumn_def demo_payment_def newPaymentRow_def Let_def noMoney_def money_IsSet_def
      demo_money_def Amount_def split: option.splits)

lemma demo_awaiting: "reaches ((demo_db [demo_row AwaitingPayment None 2])\<lparr>db_outbox := [demo_told_row AwaitingPayment noMoney]\<rparr>)"
proof -
  obtain e where e: "Announce (demo_payment AwaitingPayment noMoney) None = Some e" "checkEvent e = None" "Produced e"
      "ev_name e = ''payment.awaiting_payment''"
    using demo_told [of AwaitingPayment noMoney] by (auto simp: Valid_def)
  have s: "savePayment 0 (demo_db [demo_row Created None 1]) ''acct'' (demo_payment AwaitingPayment noMoney) \<lparr>rev_id = demo_id, rev_at = 1\<rparr>
      = Inr (demo_db [demo_row AwaitingPayment None 2])"
    using demo_savePayment [of "demo_payment AwaitingPayment noMoney" AwaitingPayment None 0 Created None 1]
      demo_rewritten [of AwaitingPayment noMoney None 0 Created None 1] by (simp add: Valid_def Final_iff)
  have "Save 0 (demo_db [demo_row Created None 1]) ''acct'' (Some (demo_payment AwaitingPayment noMoney)) \<lparr>rev_id = demo_id, rev_at = 1\<rparr> e
      = Inr ((demo_db [demo_row AwaitingPayment None 2])\<lparr>db_outbox := [demo_told_row AwaitingPayment noMoney]\<rparr>)"
    using s e by (simp add: Save_Inr_iff writeOutbox_Inr_iff demo_payment_simps demo_told_row_def demo_db_def isPayment_def)
  then show ?thesis
    using e(1) demo_row_read [of Created None 1]
    by (intro reaches_move [OF demo_opened, where r = "demo_row Created None 1" and op = OpAwait and clock = 0 and e = e])
      (auto simp: demo_db_def Valid_def payment_moves demo_payment_def CanBecome_iff)
qed

text \<open>An attempt is issued, a transfer of the whole amount is seen for it, the payment succeeds.\<close>

definition demo_paid :: "status \<Rightarrow> int option \<Rightarrow> int \<Rightarrow> db" where
  "demo_paid st v k = (demo_db [demo_row st v k])\<lparr>db_attempts := [newAttemptRow ''acct'' (demo_attempt Issued [])],
     db_outbox := [demo_told_row AwaitingPayment noMoney]\<rparr>"

lemma demo_att_storable: "storable (hexEncode (replicate 16 2))" "storable (hexEncode (replicate 32 3))"
  by (rule storable_printable; code_simp)+

lemma demo_issued: "reaches (demo_paid AwaitingPayment None 2)"
proof -
  have new: "NewAttempt (Some (replicate 16 2)) (Some (replicate 32 3))
      (Some (demo_payment AwaitingPayment noMoney)) (10 * Second) = Inr (demo_attempt Issued [])"
    by (simp add: NewAttempt_def demo_payment_def demo_attempt_def newAttemptID_def newKey_def newHex_def
        subTime_def MinRemaining_def truncateTime_def demo_money_def demo_asset_def)
  have "Issue ((demo_db [demo_row AwaitingPayment None 2])\<lparr>db_outbox := [demo_told_row AwaitingPayment noMoney]\<rparr>) ''acct''
      (Some (demo_attempt Issued [])) = Inr (demo_paid AwaitingPayment None 2)"
    using demo_storable demo_att_storable
    by (simp add: Issue_def insertAttempt_def Let_def attemptRules_def demo_paid_def demo_db_def demo_attempt_def newAttemptRow_def
        live_def attempt_Valid_def storable_printable printable_def EIP3009_def isPayment_def stamp_def truncateTime_def)
  then show ?thesis
    using demo_row_read [of AwaitingPayment None 2] new
    by (intro reaches_issue [OF demo_awaiting, where r = "demo_row AwaitingPayment None 2"])
      (auto simp: demo_db_def Valid_def)
qed

definition demo_seen :: seen where
  "demo_seen = \<lparr>seen_hit = \<lparr>hit_account = ''acct'', hit_attempt = arow_attempt (newAttemptRow ''acct'' (demo_attempt Issued [])),
       hit_attemptAt = \<lparr>rev_id = att_id (demo_attempt Issued []), rev_at = 1\<rparr>,
       hit_payment = demo_payment AwaitingPayment noMoney, hit_paymentAt = \<lparr>rev_id = demo_id, rev_at = 2\<rparr>\<rparr>,
     seen_transfer = demo_transfer ''100'', seen_reason = Short, seen_implementation = ''evm''\<rparr>"

definition demo_obs :: observation_row where
  "demo_obs = newObservationRow ''polygon'' (seenAgainstAttempt demo_seen) 7 100 False (501 * Second)"

lemma demo_key_fields: "invisible_Has (hexEncode (replicate 32 3)) = False" "length (hexEncode (replicate 32 3)) = 64"
  by (rule eq_False [THEN iffD2, OF invisible_Has_printable]; code_simp) code_simp

lemma demo_screen: "screen (demo_transfer ''100'') = None"
  by (simp add: screen_None_iff transferFields_def demo_transfer_def demo_key_fields invisible_Has_printable printable_def
      MaxTransferField_def EIP3009_def)

lemma demo_obs_simps:
  "ob_network demo_obs = ''polygon''" "ob_key demo_obs = hexEncode (replicate 32 3)" "ob_tx demo_obs = ''0xT1''"
  "ob_hash demo_obs = ''0xH7''" "ob_asset demo_obs = ''0xE7C3''" "ob_authorizer demo_obs = ''0xB0B''"
  "ob_sender demo_obs = ''0xB0B''" "ob_recipient demo_obs = ''0xA11CE''" "ob_implementation demo_obs = ''evm''"
  "ob_value demo_obs = 100" "ob_position demo_obs = 0" "ob_attempt demo_obs = Some (att_id (demo_attempt Issued []))"
  "ob_refund demo_obs = None" "ob_account demo_obs = ''acct''" "ob_payment demo_obs = demo_id"
  by (simp_all add: demo_obs_def newObservationRow_def Let_def seenAgainstAttempt_def demo_seen_def demo_transfer_def
      demo_payment_def)

lemma demo_recorded:
  "recordOne (\<lambda>_. Some 100) (demo_paid AwaitingPayment None 2) ''polygon'' (seenAgainstAttempt demo_seen) False (501 * Second)
     = Inr ((demo_paid AwaitingPayment None 2)\<lparr>db_observations := [demo_obs]\<rparr>)"
proof -
  have t: "obs_transfer (seenAgainstAttempt demo_seen) = demo_transfer ''100''"
    by (simp add: seenAgainstAttempt_def demo_seen_def)
  have h: "blockHeight (demo_transfer ''100'') = Inr 7"
    by (simp add: blockHeight_def demo_transfer_def MaxInt64_def)
  have "upsertObservation (demo_paid AwaitingPayment None 2) demo_obs
      = Inr ((demo_paid AwaitingPayment None 2)\<lparr>db_observations := [demo_obs]\<rparr>)"
    using demo_att_storable
    by (simp add: upsertObservation_def Let_def demo_obs_simps storable_printable printable_def numeric78_def observationChecks_def
        observationKeys_def demo_paid_def demo_db_def isAttempt_def rowsAffected_def) (simp add: demo_attempt_def)
  then show ?thesis by (simp add: recordOne_def Let_def t demo_screen h demo_obs_def)
qed

lemma demo_hex: "hexOfLength (hexEncode (replicate 16 2)) 32 = Inr ()" "hexOfLength (hexEncode (replicate 32 3)) 64 = Inr ()"
  "hexOfLength (hexEncode (replicate 16 5)) 32 = Inr ()"
  by code_simp+

lemma demo_refund_storable: "storable (hexEncode (replicate 16 5))" "storable (hexEncode (replicate 32 6))"
  by (rule storable_printable; code_simp)+

lemma demo_round: "reaches ((demo_paid AwaitingPayment (Some 100) 3)\<lparr>db_observations := [demo_obs]\<rparr>)" (is "reaches ?db'")
proof -
  let ?db = "demo_paid AwaitingPayment None 2" and ?r = "newAttemptRow ''acct'' (demo_attempt Issued [])"
  let ?db1 = "?db\<lparr>db_observations := [demo_obs]\<rparr>" and ?q = "demo_payment AwaitingPayment (demo_money 100)"
  have "arow_attempt ?r = demo_attempt Issued []"
    by (simp add: newAttemptRow_def demo_attempt_def stamp_def truncateTime_def)
  then have "scanAttempt (Some ?r) = Inr (arow_attempt ?r, \<lparr>rev_id = att_id (demo_attempt Issued []), rev_at = 1\<rparr>)"
    using demo_hex by (simp add: scanAttempt_Inr attempt_wf_def) (simp add: demo_attempt_def attempt_Valid_def)
  then obtain w where w: "reachable w" "w_db w = ?db" "(''acct'', hit_attempt (seen_hit demo_seen), hit_attemptAt (seen_hit demo_seen)) \<in> w_attempts w"
    using reaches_read_attempt [OF demo_issued, of ?r] by (auto simp: demo_paid_def demo_seen_def)
  have f: "find_payment ?db1 ''acct'' demo_id = Inr (demo_payment AwaitingPayment noMoney, \<lparr>rev_id = demo_id, rev_at = 2\<rparr>)"
    using demo_row_read [of AwaitingPayment None 2] by (simp add: find_payment_def demo_paid_def demo_db_def isPayment_def Valid_def)
  have m: "ParseMoney demo_asset ''100'' = Inr (demo_money 100)"
    using demo_amount [of 100] by (simp add: demo_hundred)
  have rec: "Receive (demo_payment AwaitingPayment noMoney) (demo_money 100) = Inr ?q"
    by (simp add: demo_payment_def Receive_def CanReceive_def recordArrival_def Cmp_def)
  have save: "savePayment 0 ?db1 ''acct'' ?q \<lparr>rev_id = demo_id, rev_at = 2\<rparr> = Inr ?db'"
    using demo_keyed [of AwaitingPayment "Some 100" 3]
      demo_rewritten [of AwaitingPayment "demo_money 100" "Some 100" 0 AwaitingPayment None 2]
    by (simp add: savePayment_Inr_iff payments_keyed_def numeric78_def isPayment_def atRevision_def demo_paid_def demo_db_def Valid_def Final_iff updateWhere_def demo_payment_simps split: if_splits)
  have "arrived 0 ?db1 demo_seen = Inr ?db'"
    using f m rec save
    by (simp add: arrived_def demo_seen_def demo_payment_simps demo_transfer_def CanReceive_def noMoney_def money_IsSet_def)
  then have "Record (\<lambda>_. Some 100) 0 ?db ''polygon'' 0 9 False [demo_seen] [] (501 * Second) = Inr ?db'"
    using demo_recorded by (simp add: Record_def Let_def confirmOne_def demo_seen_def [THEN arg_cong [of _ _ seen_reason]])
  then have "step w (w\<lparr>w_db := ?db'\<rparr>)"
    using w by (intro step.record_round [where seen = "[demo_seen]" and sent = "[]"]) (auto simp: demo_seen_def)
  then show ?thesis by (rule reaches_write [OF w(1)])
qed


definition demo_closed :: payment_row where
  "demo_closed = (demo_row Succeeded (Some 100) 4)\<lparr>prow_closedAt := Some 0\<rparr>"

definition demo_done :: db where
  "demo_done = (demo_paid AwaitingPayment (Some 100) 3)\<lparr>db_observations := [demo_obs], db_payments := [demo_closed],
     db_outbox := [demo_told_row AwaitingPayment noMoney, demo_told_row Succeeded (demo_money 100)]\<rparr>"

lemma demo_succeeded: "reaches demo_done"
proof -
  let ?db = "(demo_paid AwaitingPayment (Some 100) 3)\<lparr>db_observations := [demo_obs]\<rparr>"
  let ?p = "demo_payment AwaitingPayment (demo_money 100)" and ?q = "demo_payment Succeeded (demo_money 100)"
  obtain e where e: "Announce ?q None = Some e" "checkEvent e = None" "Produced e" "ev_name e = ''payment.succeeded''"
    using demo_told [of Succeeded "demo_money 100"] by (auto simp: Valid_def)
  have new: "rewritten 0 ?q (demo_row AwaitingPayment (Some 100) 3) = demo_closed"
    by (simp add: rewritten_def demo_closed_def demo_row_def newPaymentRow_def Let_def demo_payment_def receivedColumn_def
        Final_iff stamp_def truncateTime_def)
  have save: "savePayment 0 ?db ''acct'' ?q \<lparr>rev_id = demo_id, rev_at = 3\<rparr> = Inr (?db\<lparr>db_payments := [demo_closed]\<rparr>)"
    using demo_savePayment [of ?q Succeeded "Some 100" 0 AwaitingPayment "Some 100" 3] new
    by (simp add: savePayment_Inr_iff atRevision_def demo_paid_def demo_db_def Valid_def updateWhere_def demo_payment_simps split: if_splits)
  have "Save 0 ?db ''acct'' (Some ?q) \<lparr>rev_id = demo_id, rev_at = 3\<rparr> e = Inr demo_done"
    using save e by (simp add: Save_Inr_iff writeOutbox_Inr_iff demo_payment_simps demo_told_row_def demo_done_def demo_paid_def
        demo_closed_def demo_db_def)
  moreover have "payOp ?p OpSucceed = Inr ?q"
    by (simp add: payment_moves demo_payment_def CanBecome_iff covered_def Cmp_def)
  ultimately show ?thesis
    using e(1) demo_row_read [of AwaitingPayment "Some 100" 3]
    by (intro reaches_move [OF demo_round, where r = "demo_row AwaitingPayment (Some 100) 3" and op = OpSucceed and clock = 0 and e = e])
      (auto simp: demo_paid_def demo_db_def Valid_def)
qed

definition demo_refunded :: db where
  "demo_refunded = demo_done\<lparr>db_refunds := [newRefundRow ''acct'' (demo_refund RefundCreated 40)]\<rparr>"

lemma demo_refund_run: "reaches demo_refunded"
proof -
  let ?p = "demo_payment Succeeded (demo_money 100)" and ?q = "demo_refund RefundCreated 40"
  have q: "NewRefund (Some (replicate 32 6)) (Some ?p) (ref_id ?q)
      \<lparr>rr_amount = demo_money 40, rr_destination = ''0xB0B'', rr_token = ref_token ?q, rr_idempotency = ref_idempotency ?q\<rparr>
      (ref_createdAt ?q) = Inr ?q"
    by (simp add: NewRefund_Inr_iff newRefundProblems_Nil_iff demo_payment_simps demo_refund_def demo_hex token_IsSet_def
        ParseRefundID_Inr_iff newKey_def newHex_def RefundLife_def truncateTime_def Same_refl_iff
        ParseAddress_Inr_iff MaxAddressBytes_def invisible_Has_printable printable_def)
  have "CreateRefund demo_done ''acct'' (Some ?q) = Inr demo_refunded"
    using demo_storable demo_refund_storable
    by (simp add: CreateRefund_def demo_done_def demo_paid_def demo_db_def isPayment_def refunded_def heldSum_def demo_closed_def
       insertRefund_def refundRules_def Let_def newRefundRow_def demo_refund_def demo_refunded_def storable_printable printable_def EIP3009_def
       numeric78_def idem_IsSet_def)
  moreover have "narrow demo_closed = demo_row Succeeded (Some 100) 4"
    by (simp add: narrow_def demo_closed_def demo_row_def newPaymentRow_def Let_def demo_payment_def checkout_IsSet_def idem_IsSet_def)
  ultimately show ?thesis
    using demo_row_read [of Succeeded "Some 100" 4] q
    by (intro reaches_refund [OF demo_succeeded, where r = demo_closed])
      (auto simp: demo_done_def demo_paid_def demo_db_def Valid_def demo_closed_def)
qed


section \<open>Properties of every reachable world\<close>

lemma reaches_inv: "reaches db \<Longrightarrow> dbInv db"
  using reachable_inv by (auto simp: reaches_def worldInv_def)

text \<open>C9: No more goes back than came in. Whatever the server, the observer and the worker do beside each
  other, in any interleaving and on copies however old, what is held against a payment (every refund of it that
  has not expired) is nothing, or the payment succeeded and it is at most what arrived for it.\<close>

theorem refunds_within_received:
  assumes "reachable w"
  shows "heldSum (w_db w) account pid = 0
    \<or> (\<exists>r\<in>set (db_payments (w_db w)). isPayment account pid r \<and> prow_status r = Succeeded
         \<and> (\<exists>v. prow_received r = Some v \<and> prow_amount r \<le> v \<and> heldSum (w_db w) account pid \<le> v))"
proof -
  have i: "ceiling (w_db w)" "payments_keyed (w_db w)"
    using reachable_inv [OF assms] by (simp_all add: worldInv_def dbInv_def soundDb_def)
  have "prow_amount r \<le> v" if "r \<in> set (db_payments (w_db w))" "prow_status r = Succeeded" "prow_received r = Some v" for r v
    using i(2) that by (auto simp: payments_keyed_def paymentChecks_def)
  then show ?thesis using i(1) unfolding ceiling_def by blast
qed

theorem refunds_within_received_witness:
  "\<exists>w. reachable w \<and> heldSum (w_db w) ''acct'' demo_id = 40
     \<and> (\<exists>r\<in>set (db_payments (w_db w)). prow_status r = Succeeded \<and> (\<exists>v. prow_received r = Some v \<and> 40 \<le> v))"
proof -
  obtain w where w: "reachable w" "w_db w = demo_refunded" using demo_refund_run by (auto simp: reaches_def)
  have "heldSum demo_refunded ''acct'' demo_id = 40"
    by (simp add: heldSum_def demo_refunded_def holdsAgainst_def demo_refund_def)
  then show ?thesis using refunds_within_received [OF w(1), of "''acct''" demo_id] w by fastforce
qed

text \<open>C10: A payment is attempted twice at the most, and one attempt is live at a time, whoever issues and
  supersedes and however their reads and writes interleave.\<close>

theorem attempts_at_most_two:
  assumes "reachable w"
  shows "Attempted (w_db w) account pid \<le> MaxAttempts
    \<and> length (filter (\<lambda>r. ofPayment account pid r \<and> live (att_status (arow_attempt r))) (db_attempts (w_db w))) \<le> 1"
proof -
  let ?of = "filter (ofPayment account pid) (db_attempts (w_db w))"
  let ?live = "\<lambda>r. live (att_status (arow_attempt r))"
  have k: "attempts_keyed (w_db w)" and s: "superseded_once (w_db w)"
    using reachable_inv [OF assms] by (simp_all add: worldInv_def dbInv_def soundDb_def)
  have d: "distinct (db_attempts (w_db w))" using k by (simp add: attempts_keyed_def distinct_map)
  have one: "length (filter P ?of) \<le> 1" if "\<And>x y. x \<in> set ?of \<Longrightarrow> y \<in> set ?of \<Longrightarrow> P x \<Longrightarrow> P y \<Longrightarrow> x = y" for P
  proof -
    have "card (set (filter P ?of)) \<le> 1" using that by (auto simp: card_le_Suc0_iff_eq)
    then show ?thesis using distinct_card [of "filter P ?of"] d by simp
  qed
  have l: "length (filter ?live ?of) \<le> 1"
    using k by (intro one) (auto simp: attempts_keyed_def ofPayment_def)
  moreover have "length (filter (\<lambda>r. \<not> ?live r) ?of) \<le> 1"
    using s by (intro one) (auto simp: superseded_once_def ofPayment_def)
  ultimately have "length ?of \<le> MaxAttempts"
    using sum_length_filter_compl [of ?live ?of] by (simp add: MaxAttempts_def)
  then show ?thesis using l by (simp add: Attempted_def rowsAffected_def filter_filter conj_commute)
qed

theorem attempts_at_most_two_witness:
  "\<exists>w. reachable w \<and> Attempted (w_db w) ''acct'' demo_id = 1 \<and> Attempted (w_db w) ''acct'' demo_id \<le> MaxAttempts"
proof -
  obtain w where w: "reachable w" "w_db w = demo_refunded" using demo_refund_run by (auto simp: reaches_def)
  have "Attempted demo_refunded ''acct'' demo_id = 1"
    by (simp add: Attempted_def rowsAffected_def demo_refunded_def demo_done_def demo_paid_def ofPayment_def) (simp add: demo_attempt_def)
  then show ?thesis using attempts_at_most_two [OF w(1), of "''acct''" demo_id] w by auto
qed

text \<open>C11: A merchant is told of each status of a payment once, only after the payment reached it, never of two
  ends of one payment, and never that it succeeded unless what is recorded as arrived covers it.\<close>

theorem payment_told_once:
  assumes "reachable w" "Valid s"
  shows "payment_told (w_db w) account pid s \<le> 1
    \<and> (0 < payment_told (w_db w) account pid s \<longrightarrow> reached (w_db w) account pid s)
    \<and> (Final s \<and> Final t \<and> Valid t \<and> 0 < payment_told (w_db w) account pid s \<and> 0 < payment_told (w_db w) account pid t \<longrightarrow> s = t)
    \<and> (s = Succeeded \<and> 0 < payment_told (w_db w) account pid s \<longrightarrow>
         (\<exists>r\<in>set (db_payments (w_db w)). isPayment account pid r \<and> (\<exists>v. prow_received r = Some v \<and> prow_amount r \<le> v)))"
proof -
  have i: "told_once (w_db w)" "payments_keyed (w_db w)"
    using reachable_inv [OF assms(1)] by (simp_all add: worldInv_def dbInv_def soundDb_def)
  have told: "payment_told (w_db w) account pid u \<le> 1" "0 < payment_told (w_db w) account pid u \<Longrightarrow> reached (w_db w) account pid u"
    if "Valid u" for u
    using i(1) that by (auto simp: told_once_def)
  have final: "\<exists>r\<in>set (db_payments (w_db w)). isPayment account pid r \<and> prow_status r = u"
    if "Final u" "reached (w_db w) account pid u" for u
    using that pay_life.final_stays unfolding reached_def by blast
  have "s = t" if "Final s" "Final t" "reached (w_db w) account pid s" "reached (w_db w) account pid t"
    using final [OF that(1,3)] final [OF that(2,4)] keyed_unique [OF i(2)] by (fastforce simp: isPayment_def)
  moreover have "\<exists>r\<in>set (db_payments (w_db w)). isPayment account pid r \<and> (\<exists>v. prow_received r = Some v \<and> prow_amount r \<le> v)"
    if succeeded: "reached (w_db w) account pid Succeeded"
  proof -
    obtain r where r: "r \<in> set (db_payments (w_db w))" "isPayment account pid r" "prow_status r = Succeeded"
      using final [OF _ succeeded] by (auto simp: Final_iff)
    then have "list_all snd (paymentChecks r)" using i(2) by (simp add: payments_keyed_def)
    then show ?thesis using r by (auto simp: paymentChecks_def split: option.splits)
  qed
  ultimately show ?thesis using told assms(2) by blast
qed

theorem payment_told_once_witness:
  "\<exists>w. reachable w \<and> payment_told (w_db w) ''acct'' demo_id Succeeded = 1 \<and> payment_told (w_db w) ''acct'' demo_id Succeeded \<le> 1"
proof -
  obtain w where w: "reachable w" "w_db w = demo_refunded" using demo_refund_run by (auto simp: reaches_def)
  have v: "Valid Succeeded" "Valid AwaitingPayment" by (simp_all add: Valid_def)
  have "ox_event (demo_told_row Succeeded (demo_money 100)) = ''payment.'' @ status_String Succeeded"
    "ox_event (demo_told_row AwaitingPayment noMoney) = ''payment.'' @ status_String AwaitingPayment"
    using demo_told [OF v(1), of "demo_money 100"] demo_told [OF v(2), of noMoney] by (auto simp: demo_told_row_def Let_def)
  then have "payment_told demo_refunded ''acct'' demo_id Succeeded = 1"
    by (simp add: payment_told_def rowsAffected_def demo_refunded_def demo_done_def) (simp add: demo_told_row_def Let_def)
  then show ?thesis using payment_told_once [OF w(1) v(1), of "''acct''" demo_id] w by auto
qed

text \<open>C12: The service implements the world's steps: from a database the steps reach, a call of the service that
  goes through leaves one they reach, whatever else was written before it began. So what holds of every reachable
  world holds after any sequence of the service's calls.\<close>

theorem service_calls_are_runs:
  assumes "reaches db"
  shows "(OpenAs db account pid r now = Inr (p, again, db1) \<longrightarrow> reaches db1)
    \<and> (service_Await clock db account pid = Inr (p, db1) \<longrightarrow> reaches db1)
    \<and> (service_Issue idBytes keyBytes db account pid now = Inr (a, p, db1) \<longrightarrow> reaches db1)
    \<and> (service_Supersede db account pid aid = Inr db1 \<longrightarrow> reaches db1)
    \<and> (find_payment db account pid = Inr (p, at)
         \<and> (\<forall>x\<in>set (db_refunds db). rrow_account x = account \<longrightarrow> rrow_id x \<noteq> rid)
         \<and> OpenRefund keyBytes db account (Some p) rid rq now = Inr (q, db1) \<longrightarrow> reaches db1)"
proof (intro conjI impI)
  show "reaches db1" if "OpenAs db account pid r now = Inr (p, again, db1)"
    by (rule OpenAs_reaches [OF assms that])
  show "reaches db1" if "service_Await clock db account pid = Inr (p, db1)"
    by (rule service_Await_reaches [OF assms that])
  show "reaches db1" if "service_Issue idBytes keyBytes db account pid now = Inr (a, p, db1)"
    by (rule service_Issue_reaches [OF assms that])
  show "reaches db1" if "service_Supersede db account pid aid = Inr db1"
    by (rule service_Supersede_reaches [OF assms that])
  show "reaches db1" if "find_payment db account pid = Inr (p, at)
         \<and> (\<forall>x\<in>set (db_refunds db). rrow_account x = account \<longrightarrow> rrow_id x \<noteq> rid)
         \<and> OpenRefund keyBytes db account (Some p) rid rq now = Inr (q, db1)"
    by (rule OpenRefund_reaches [OF assms conjunct1 [OF that] conjunct2 [OF conjunct2 [OF that]] conjunct1 [OF conjunct2 [OF that]]])
qed

theorem service_calls_are_runs_witness:
  "\<exists>db1. OpenAs (demo_db []) ''acct'' demo_id demo_request Second = Inr (demo_payment Created noMoney, False, db1) \<and> reaches db1"
proof -
  have "build demo_id demo_request Created Second Second = Inr (demo_payment Created noMoney)"
    by (simp add: build_Inr_iff buildProblems_Nil_iff demo_request_def demo_payment_def truncateTime_def)
  then have o: "OpenAs (demo_db []) ''acct'' demo_id demo_request Second
      = Inr (demo_payment Created noMoney, False, demo_db [demo_row Created None 1])"
    by (simp add: OpenAs_Inr_iff demo_Create withDeadline_def isZeroTime_def demo_request_def MaxExpiry_def)
  then show ?thesis using service_calls_are_runs [OF demo_empty] by blast
qed

end
