(* ===== verification/Sweeps.thy ===== *)
theory Sweeps
  imports Runs
begin

text \<open>
  Package payment, the rest of postgres.go: what the worker of finality reads. The transfers that would
  settle a payment or a refund, read a page at a time in the order the chain carried them, and the
  payments and refunds the clock has passed by. Texts are ordered by their bytes.
\<close>

section \<open>Places and what is read\<close>

record place =
  pl_height :: uint64
  pl_tx :: string

definition beginning :: place where
  "beginning = \<lparr>pl_height = 0, pl_tx = []\<rparr>"

record due =
  due_account :: string
  due_payment :: payment
  due_paymentAt :: revision

record refund_due =
  rdue_account :: string
  rdue_refund :: refund
  rdue_refundAt :: revision

record refund_candidate =
  rcand_account :: string
  rcand_refund :: refund
  rcand_refundAt :: revision
  rcand_key :: string
  rcand_tx :: string
  rcand_blockHeight :: uint64
  rcand_blockHash :: string

definition openForPayment :: "status \<Rightarrow> bool" where
  "openForPayment s = (s = AwaitingPayment \<or> s = AwaitingFinality)"

definition openForReturn :: "refund_status \<Rightarrow> bool" where
  "openForReturn s = (s = RefundCreated \<or> s = RefundAwaitingFinality)"

text \<open>A row the endpoints are asked about: matched, and seen where the chain keeps it.\<close>

definition settleable :: "string \<Rightarrow> observation_row \<Rightarrow> bool" where
  "settleable network o1 = (ob_network o1 = network \<and> ob_reason o1 = Matched \<and> ob_finalAt o1 \<noteq> None)"

definition observedPayment :: "db \<Rightarrow> observation_row \<Rightarrow> payment_row option" where
  "observedPayment db o1 = List.find (isPayment (ob_account o1) (ob_payment o1)) (db_payments db)"

definition observedRefund :: "db \<Rightarrow> observation_row \<Rightarrow> refund_row option" where
  "observedRefund db o1 =
     (case ob_refund o1 of
        None \<Rightarrow> None
      | Some rid \<Rightarrow> List.find (isRefund (ob_account o1) (ob_payment o1) rid) (db_refunds db))"

section \<open>Candidates\<close>

definition waitingRows :: "db \<Rightarrow> string \<Rightarrow> (observation_row \<times> payment_row) list" where
  "waitingRows db network =
     filter (\<lambda>(o1, p). openForPayment (prow_status p))
       (joined (observedPayment db) (filter (settleable network) (db_observations db)))"

definition placeOf :: "observation_row \<Rightarrow> int \<times> string" where
  "placeOf o1 = (ob_height o1, ob_tx o1)"

definition rowPlace :: "observation_row \<times> 'b \<Rightarrow> int \<times> string" where
  "rowPlace row = placeOf (fst row)"

text \<open>The page after a place: in order, and at most so many.\<close>

definition pageAfter :: "('r \<Rightarrow> int \<times> string) \<Rightarrow> int \<times> string \<Rightarrow> nat \<Rightarrow> 'r list \<Rightarrow> 'r list" where
  "pageAfter pos from limit rows = take limit (sort_key pos (filter (\<lambda>r. from < pos r) rows))"

definition candidateOf :: "observation_row \<times> payment_row \<Rightarrow> (store_error, candidate) result" where
  "candidateOf op = (case op of (o1, p) \<Rightarrow>
     if ob_height o1 < 0 then Inl HeightBelowZero
     else bindE (rowPayment (narrow p)) (\<lambda>(q, at).
       Inr \<lparr>cand_account = ob_account o1, cand_payment = q, cand_paymentAt = at, cand_key = ob_key o1,
            cand_tx = ob_tx o1, cand_blockHeight = word_of_int (ob_height o1), cand_blockHash = ob_hash o1\<rparr>))"

definition Candidates :: "db \<Rightarrow> string \<Rightarrow> place \<Rightarrow> nat \<Rightarrow> (store_error, candidate list) result" where
  "Candidates db network from limit =
     (if unat (pl_height from) > MaxInt64 then Inl ValueRefused
      else eachRow candidateOf
             (pageAfter rowPlace (int (unat (pl_height from)), pl_tx from) limit (waitingRows db network)))"

definition Undecided :: "db \<Rightarrow> string \<Rightarrow> nat" where
  "Undecided db network = length (waitingRows db network)"

definition Disagreeing :: "db \<Rightarrow> string \<Rightarrow> nat" where
  "Disagreeing db network = length (filter (\<lambda>(o1, p). ob_disagreedAt o1 \<noteq> None) (waitingRows db network))"

definition returnRows :: "db \<Rightarrow> string \<Rightarrow> (observation_row \<times> refund_row \<times> payment_row) list" where
  "returnRows db network =
     concat (map (\<lambda>o1. case observedRefund db o1 of
                         None \<Rightarrow> []
                       | Some r \<Rightarrow>
                           (case paymentOf db r of
                              None \<Rightarrow> []
                            | Some p \<Rightarrow> if openForReturn (rrow_status r) then [(o1, r, p)] else []))
       (filter (settleable network) (db_observations db)))"

definition refundCandidateOf :: "observation_row \<times> refund_row \<times> payment_row \<Rightarrow> (store_error, refund_candidate) result" where
  "refundCandidateOf orp = (case orp of (o1, r, p) \<Rightarrow>
     if ob_height o1 < 0 then Inl HeightBelowZero
     else bindE (rowRefund r p) (\<lambda>(q, at).
       Inr \<lparr>rcand_account = rrow_account r, rcand_refund = q, rcand_refundAt = at, rcand_key = ob_key o1,
            rcand_tx = ob_tx o1, rcand_blockHeight = word_of_int (ob_height o1), rcand_blockHash = ob_hash o1\<rparr>))"

definition RefundCandidates :: "db \<Rightarrow> string \<Rightarrow> place \<Rightarrow> nat \<Rightarrow> (store_error, refund_candidate list) result" where
  "RefundCandidates db network from limit =
     (if unat (pl_height from) > MaxInt64 then Inl ValueRefused
      else eachRow refundCandidateOf
             (pageAfter rowPlace (int (unat (pl_height from)), pl_tx from) limit (returnRows db network)))"

section \<open>The sweeps of the clock\<close>

definition OpenPayments :: "db \<Rightarrow> string \<Rightarrow> nat" where
  "OpenPayments db network =
     rowsAffected (\<lambda>p. prow_network p = network \<and> openForPayment (prow_status p)) (db_payments db)"

definition OpenRefunds :: "db \<Rightarrow> string \<Rightarrow> nat" where
  "OpenRefunds db network =
     rowsAffected (\<lambda>r. rrow_network r = network \<and> openForReturn (rrow_status r)) (db_refunds db)"

definition dueOf :: "payment_row \<Rightarrow> (store_error, due) result" where
  "dueOf p = bindE (rowPayment (narrow p)) (\<lambda>(q, at).
     Inr \<lparr>due_account = prow_account p, due_payment = q, due_paymentAt = at\<rparr>)"

definition Overdue :: "db \<Rightarrow> string \<Rightarrow> gotime \<Rightarrow> nat \<Rightarrow> (store_error, due list) result" where
  "Overdue db network now limit =
     eachRow dueOf (take limit (sort_key (\<lambda>p. (prow_expiresAt p, prow_id p))
       (filter (\<lambda>p. prow_network p = network \<and> prow_status p = AwaitingPayment \<and> prow_expiresAt p \<le> stamp now)
          (db_payments db))))"

text \<open>Read past a deadline: the block the network's position sits on is stamped at it or after.\<close>

definition readPast :: "db \<Rightarrow> string \<Rightarrow> gotime \<Rightarrow> bool" where
  "readPast db network deadline =
     list_ex (\<lambda>c. cur_network c = network \<and> (case cur_time c of None \<Rightarrow> False | Some t \<Rightarrow> deadline \<le> t)) (db_cursors db)"

definition mayPay :: "db \<Rightarrow> payment_row \<Rightarrow> bool" where
  "mayPay db p = list_ex (\<lambda>o1. ob_account o1 = prow_account p \<and> ob_payment o1 = prow_id p \<and> ob_reason o1 = Matched)
     (db_observations db)"

definition Unsettled :: "db \<Rightarrow> string \<Rightarrow> nat \<Rightarrow> (store_error, due list) result" where
  "Unsettled db network limit =
     eachRow dueOf (take limit (sort_key (\<lambda>p. (prow_expiresAt p, prow_id p))
       (filter (\<lambda>p. prow_network p = network \<and> prow_status p = AwaitingFinality
                  \<and> readPast db network (prow_expiresAt p) \<and> \<not> mayPay db p)
          (db_payments db))))"

definition refundDueOf :: "refund_row \<times> payment_row \<Rightarrow> (store_error, refund_due) result" where
  "refundDueOf rp = (case rp of (r, p) \<Rightarrow> bindE (rowRefund r p) (\<lambda>(q, at).
     Inr \<lparr>rdue_account = rrow_account r, rdue_refund = q, rdue_refundAt = at\<rparr>))"

definition OverdueRefunds :: "db \<Rightarrow> string \<Rightarrow> gotime \<Rightarrow> nat \<Rightarrow> (store_error, refund_due list) result" where
  "OverdueRefunds db network now limit =
     eachRow refundDueOf (take limit (sort_key (\<lambda>(r, p). (rrow_expiresAt r, rrow_id r))
       (filter (\<lambda>(r, p). rrow_network r = network \<and> rrow_status r = RefundCreated \<and> rrow_expiresAt r \<le> stamp now)
          (joined (paymentOf db) (db_refunds db)))))"

text \<open>What holds a refund open: its key was seen to move money out of the wallet it comes from.\<close>

definition moneyLeft :: "db \<Rightarrow> refund_row \<Rightarrow> payment_row \<Rightarrow> bool" where
  "moneyLeft db r p =
     list_ex (\<lambda>o1. ob_account o1 = rrow_account r \<and> ob_payment o1 = rrow_payment r \<and> ob_refund o1 = Some (rrow_id r)
                \<and> ob_reason o1 \<noteq> Vanished \<and> ob_sender o1 = prow_destination p) (db_observations db)"

definition UnsettledRefunds :: "db \<Rightarrow> string \<Rightarrow> nat \<Rightarrow> (store_error, refund_due list) result" where
  "UnsettledRefunds db network limit =
     eachRow refundDueOf (take limit (sort_key (\<lambda>(r, p). (rrow_expiresAt r, rrow_id r))
       (filter (\<lambda>(r, p). rrow_network r = network \<and> rrow_status r = RefundAwaitingFinality
                  \<and> readPast db network (rrow_expiresAt r) \<and> \<not> moneyLeft db r p)
          (joined (paymentOf db) (db_refunds db)))))"

section \<open>What the reads answer\<close>

lemma eachRow_Inr:
  "eachRow f rows = Inr xs \<Longrightarrow> x \<in> set xs \<Longrightarrow> \<exists>r\<in>set rows. f r = Inr x"
  by (induction rows arbitrary: xs) (auto simp: res_simps)

lemma eachRow_length: "eachRow f rows = Inr xs \<Longrightarrow> length xs = length rows"
  by (induction rows arbitrary: xs) (auto simp: res_simps)

lemma eachRow_append: "eachRow f (xs @ ys) = bindE (eachRow f xs) (\<lambda>as. bindE (eachRow f ys) (\<lambda>bs. Inr (as @ bs)))"
  by (induction xs) (auto simp: bindE_def split: sum.splits)

lemma joined_in: "(r, p) \<in> set (joined f rows) \<Longrightarrow> r \<in> set rows \<and> f r = Some p"
  by (auto simp: joined_def split: option.splits)

lemma Unsettled_row:
  assumes "Unsettled db network limit = Inr ds" "d \<in> set ds"
  shows "\<exists>p\<in>set (db_payments db). rowPayment (narrow p) = Inr (due_payment d, due_paymentAt d)
    \<and> due_account d = prow_account p \<and> prow_network p = network \<and> prow_status p = AwaitingFinality
    \<and> readPast db network (prow_expiresAt p) \<and> \<not> mayPay db p"
proof -
  obtain p where p: "p \<in> set (take limit (sort_key (\<lambda>p. (prow_expiresAt p, prow_id p))
       (filter (\<lambda>p. prow_network p = network \<and> prow_status p = AwaitingFinality
                  \<and> readPast db network (prow_expiresAt p) \<and> \<not> mayPay db p) (db_payments db))))" "dueOf p = Inr d"
    using eachRow_Inr [OF assms(1) [unfolded Unsettled_def] assms(2)] by blast
  then show ?thesis using in_set_takeD [OF p(1)] by (auto simp: dueOf_def res_simps)
qed

end
