(* ===== verification/Chain.thy ===== *)
theory Chain
  imports Prelude
begin

text \<open>
  Package chain, chain.go: what a network is read through. A chain is the answers it would give now to
  each call of the interface, an error or a value; what an adapter for one kind of chain answers is the
  theories of that kind, and everywhere else a chain is arbitrary.
\<close>

datatype chain_error =
    ErrTooWide
  | ErrNoFinal
  | ErrNoTransaction
  | ErrNoDomain
  | ErrNoSeparator
  | RateLimited duration
  | CallFailed string

record block =
  bl_height :: uint64
  bl_hash :: string
  bl_parent :: string
  bl_time :: gotime

record head =
  hd_latest :: block
  hd_final :: block

record consumed =
  con_key :: string
  con_tx :: string

record scan =
  sc_consumed :: "consumed list"
  sc_changed :: "string list"

record chain_transfer =
  ct_scheme :: string
  ct_asset :: string
  ct_key :: string
  ct_authorizer :: string
  ct_from :: string
  ct_to :: string
  ct_value :: string
  ct_tx :: string
  ct_position :: int
  ct_block :: block

record chain =
  ch_Identity :: "(chain_error, string) result"
  ch_Head :: "(chain_error, head) result"
  ch_Block :: "uint64 \<Rightarrow> (chain_error, block) result"
  ch_Keys :: "uint64 \<Rightarrow> uint64 \<Rightarrow> string list \<Rightarrow> (chain_error, scan) result"
  ch_Receipt :: "string \<Rightarrow> (chain_error, chain_transfer list) result"
  ch_Implementation :: "string \<Rightarrow> (chain_error, string) result"
  ch_DomainSeparator :: "string \<Rightarrow> (chain_error, byte list) result"
  ch_Name :: "string \<Rightarrow> (chain_error, string) result"
  ch_Paused :: "string \<Rightarrow> (chain_error, bool) result"
  ch_Blocklisted :: "string \<Rightarrow> string \<Rightarrow> (chain_error, bool) result"

end
