(* ===== verification/Finality.thy ===== *)
theory Finality
  imports Sweeps Chain
begin

text \<open>
  Package finality. \<open>Ask\<close> (finality.go) puts a recorded transfer to the endpoints until as many as
  agreement takes have said the same; the worker (worker.go) asks about every transfer that would settle
  something, writes what the answers settle, and moves what the clock has passed by.
\<close>

section \<open>Asking\<close>

record recorded_transfer =
  fr_tx :: string
  fr_height :: uint64
  fr_hash :: string

datatype verdict = VFinal | VWaiting | VElsewhere | VGone | VDisagreed | VUnanswered | VNone

record answers =
  an_verdict :: verdict
  an_answered :: int
  an_agreed :: int
  an_silent :: "nat list"

datatype finality_error = MustAgree int | NoEndpoint | Stopped | FromStore store_error | GivenUpAfter int

definition settled :: "chain \<Rightarrow> uint64 \<Rightarrow> verdict \<Rightarrow> (chain_error, verdict) result" where
  "settled endpoint height next =
     (case ch_Head endpoint of
        Inl e \<Rightarrow> Inl e
      | Inr h \<Rightarrow> if bl_height (hd_final h) < height then Inr VWaiting else Inr next)"

definition asked :: "chain \<Rightarrow> recorded_transfer \<Rightarrow> (chain_error, verdict) result" where
  "asked endpoint r =
     (case (case ch_Receipt endpoint (fr_tx r) of Inl ErrNoTransaction \<Rightarrow> Inr [] | said \<Rightarrow> said) of
        Inl e \<Rightarrow> Inl e
      | Inr [] \<Rightarrow> settled endpoint (fr_height r) VGone
      | Inr (t # _) \<Rightarrow>
          if bl_height (ct_block t) \<noteq> fr_height r \<or> bl_hash (ct_block t) \<noteq> fr_hash r then Inr VElsewhere
          else settled endpoint (bl_height (ct_block t)) VFinal)"

text \<open>
  The loop of \<open>Ask\<close>. \<open>stopped\<close> says, for each time the context is looked at, whether the caller has
  stopped waiting by then: before an endpoint is asked, and after one that failed.
\<close>

fun AskLoop ::
  "(nat \<Rightarrow> bool) \<Rightarrow> int \<Rightarrow> recorded_transfer \<Rightarrow> nat \<Rightarrow> chain list \<Rightarrow> answers \<Rightarrow> (finality_error, answers) result" where
  "AskLoop stopped need r i [] a = Inr (a\<lparr>an_verdict := VUnanswered\<rparr>)"
| "AskLoop stopped need r i (endpoint # rest) a =
     (if stopped (2 * i) then Inl Stopped
      else case asked endpoint r of
             Inl _ \<Rightarrow>
               if stopped (2 * i + 1) then Inl Stopped
               else AskLoop stopped need r (i + 1) rest (a\<lparr>an_silent := an_silent a @ [i]\<rparr>)
           | Inr said \<Rightarrow>
               let n = an_answered a + 1 in
               if n \<noteq> 1 \<and> said \<noteq> an_verdict a
               then Inr \<lparr>an_verdict = VDisagreed, an_answered = n, an_agreed = 0, an_silent = an_silent a\<rparr>
               else let b = a\<lparr>an_answered := n, an_verdict := said, an_agreed := an_agreed a + 1\<rparr> in
                    if an_agreed b = need then Inr b else AskLoop stopped need r (i + 1) rest b)"

definition noAnswers :: answers where
  "noAnswers = \<lparr>an_verdict = VNone, an_answered = 0, an_agreed = 0, an_silent = []\<rparr>"

definition Ask :: "(nat \<Rightarrow> bool) \<Rightarrow> chain list \<Rightarrow> int \<Rightarrow> recorded_transfer \<Rightarrow> (finality_error, answers) result" where
  "Ask stopped endpoints need r =
     (if need < 1 then Inl (MustAgree need)
      else if endpoints = [] then Inl NoEndpoint
      else AskLoop stopped need r 0 endpoints noAnswers)"

section \<open>The worker's state\<close>

definition Agreements :: int where "Agreements = 2"
definition maxSkip :: int where "maxSkip = 60"
definition staleAfter :: int where "staleAfter = 3"
definition perRound :: nat where "perRound = 100"

datatype word = Deciding | NoRound | WaitingLease | Unreachable | Stalled | TooFew

record net =
  net_name :: string
  net_agreements :: int
  net_recheck :: duration
  net_misses :: int

text \<open>What was said about one transfer: the verdict, for how many passes in a row, and how many to skip.\<close>

record said =
  sa_verdict :: verdict
  sa_rounds :: int
  sa_skip :: int

type_synonym heard = "(string \<times> string) \<Rightarrow> said option"

record worker =
  wk_answers :: heard
  wk_pass :: heard
  wk_from :: place
  wk_back :: place
  wk_word :: word
  wk_finished :: gotime

definition newWorker :: worker where
  "newWorker = \<lparr>wk_answers = Map.empty, wk_pass = Map.empty, wk_from = beginning, wk_back = beginning,
     wk_word = NoRound, wk_finished = 0\<rparr>"

definition Word :: "net \<Rightarrow> gotime \<Rightarrow> worker \<Rightarrow> word" where
  "Word n now w =
     (if (wk_word w = Deciding \<or> wk_word w = TooFew) \<and> now - wk_finished w > staleAfter * net_recheck n
      then Stalled else wk_word w)"

definition says :: "gotime \<Rightarrow> word \<Rightarrow> worker \<Rightarrow> worker" where
  "says now x w =
     (if x = Deciding \<or> x = TooFew then w\<lparr>wk_word := x, wk_finished := now\<rparr> else w\<lparr>wk_word := x\<rparr>)"

definition finality_lease :: "string \<Rightarrow> string" where
  "finality_lease name = ''finality.'' @ name"

datatype standing_for = ForPayment candidate | ForRefund refund_candidate

record standing =
  sd_key :: string
  sd_tx :: string
  sd_height :: uint64
  sd_hash :: string
  sd_for :: standing_for

definition standingPayment :: "candidate \<Rightarrow> standing" where
  "standingPayment c = \<lparr>sd_key = cand_key c, sd_tx = cand_tx c, sd_height = cand_blockHeight c,
     sd_hash = cand_blockHash c, sd_for = ForPayment c\<rparr>"

definition standingRefund :: "refund_candidate \<Rightarrow> standing" where
  "standingRefund c = \<lparr>sd_key = rcand_key c, sd_tx = rcand_tx c, sd_height = rcand_blockHeight c,
     sd_hash = rcand_blockHash c, sd_for = ForRefund c\<rparr>"

definition work :: "candidate list \<Rightarrow> refund_candidate list \<Rightarrow> standing list" where
  "work payments refunds = map standingPayment payments @ map standingRefund refunds"

section \<open>Writing what is decided\<close>

text \<open>\<open>told\<close> and \<open>returned\<close>: a write that lost its race is passed over.\<close>

definition passStale :: "db \<Rightarrow> (store_error, db) result \<Rightarrow> (store_error, db) result" where
  "passStale db res = (if res = Inl ErrStale then Inr db else res)"

definition worker_told :: "gotime \<Rightarrow> db \<Rightarrow> string \<Rightarrow> payment \<Rightarrow> revision \<Rightarrow> (store_error, db) result" where
  "worker_told clock db account p at =
     bindE (MatchedTransfer db account (pay_id p)) (\<lambda>seen.
     (case Announce p seen of
        None \<Rightarrow> Inl EncoderRefused
      | Some e \<Rightarrow> passStale db (Save clock db account (Some p) at e)))"

definition returned :: "gotime \<Rightarrow> db \<Rightarrow> string \<Rightarrow> refund \<Rightarrow> revision \<Rightarrow> (store_error, db) result" where
  "returned clock db account r at =
     bindE (RefundTransfer db account (ref_paymentID r) (ref_id r)) (\<lambda>sent.
     (case AnnounceRefund r sent of
        None \<Rightarrow> Inl EncoderRefused
      | Some e \<Rightarrow> passStale db (SaveRefund clock db account (Some r) at e)))"

definition pay :: "gotime \<Rightarrow> db \<Rightarrow> candidate \<Rightarrow> (store_error, db) result" where
  "pay clock db c =
     (case Succeed (cand_payment c) of
        Inl _ \<Rightarrow> Inr db
      | Inr q \<Rightarrow> worker_told clock db (cand_account c) q (cand_paymentAt c))"

definition settle :: "gotime \<Rightarrow> db \<Rightarrow> refund_candidate \<Rightarrow> (store_error, db) result" where
  "settle clock db c =
     (case Settle (rcand_refund c) of
        Inl _ \<Rightarrow> Inr db
      | Inr q \<Rightarrow> returned clock db (rcand_account c) q (rcand_refundAt c))"

definition decided :: "net \<Rightarrow> gotime \<Rightarrow> gotime \<Rightarrow> db \<Rightarrow> standing \<Rightarrow> said \<Rightarrow> (store_error, db) result" where
  "decided n clock now db c s =
     (case sa_verdict s of
        VFinal \<Rightarrow> (case sd_for c of ForRefund r \<Rightarrow> settle clock db r | ForPayment p \<Rightarrow> pay clock db p)
      | VGone \<Rightarrow>
          if sa_rounds s < net_misses n then Inr db
          else Vanish clock db (net_name n) (sd_key c) (sd_tx c) now
      | _ \<Rightarrow> Inr db)"

text \<open>A loop that keeps what it wrote when it stops: each write is a transaction of its own.\<close>

primrec eachKept :: "(db \<Rightarrow> 'a \<Rightarrow> (store_error, db) result) \<Rightarrow> db \<Rightarrow> 'a list \<Rightarrow> db \<times> store_error option" where
  "eachKept f db [] = (db, None)"
| "eachKept f db (x # xs) = (case f db x of Inl e \<Rightarrow> (db, Some e) | Inr db' \<Rightarrow> eachKept f db' xs)"

definition awaitDue :: "gotime \<Rightarrow> gotime \<Rightarrow> db \<Rightarrow> due \<Rightarrow> (store_error, db) result" where
  "awaitDue clock now db d =
     (case AwaitFinality (due_payment d) now of
        Inl ps \<Rightarrow> Inl (StoreProblems ps)
      | Inr q \<Rightarrow> worker_told clock db (due_account d) q (due_paymentAt d))"

definition expireDue :: "gotime \<Rightarrow> db \<Rightarrow> due \<Rightarrow> (store_error, db) result" where
  "expireDue clock db d =
     (case Expire (due_payment d) of
        Inl ps \<Rightarrow> Inl (StoreProblems ps)
      | Inr q \<Rightarrow> worker_told clock db (due_account d) q (due_paymentAt d))"

definition awaitRefund :: "gotime \<Rightarrow> db \<Rightarrow> refund_due \<Rightarrow> (store_error, db) result" where
  "awaitRefund clock db d =
     (case refund_AwaitFinality (rdue_refund d) of
        Inl ps \<Rightarrow> Inl (StoreProblems ps)
      | Inr q \<Rightarrow> returned clock db (rdue_account d) q (rdue_refundAt d))"

definition expireRefund :: "gotime \<Rightarrow> db \<Rightarrow> refund_due \<Rightarrow> (store_error, db) result" where
  "expireRefund clock db d =
     (case refund_Expire (rdue_refund d) of
        Inl ps \<Rightarrow> Inl (StoreProblems ps)
      | Inr q \<Rightarrow> returned clock db (rdue_account d) q (rdue_refundAt d))"

definition sweep ::
  "(store_error, 'a list) result \<Rightarrow> (db \<Rightarrow> 'a \<Rightarrow> (store_error, db) result) \<Rightarrow> db \<Rightarrow> db \<times> store_error option" where
  "sweep found f db = (case found of Inl e \<Rightarrow> (db, Some e) | Inr ds \<Rightarrow> eachKept f db ds)"

definition sweptRefunds :: "nat \<Rightarrow> gotime \<Rightarrow> string \<Rightarrow> gotime \<Rightarrow> db \<Rightarrow> db \<times> store_error option" where
  "sweptRefunds limit clock network now db =
     (case sweep (OverdueRefunds db network now limit) (awaitRefund clock) db of
        (db1, Some e) \<Rightarrow> (db1, Some e)
      | (db1, None) \<Rightarrow> sweep (UnsettledRefunds db1 network limit) (expireRefund clock) db1)"

definition swept :: "nat \<Rightarrow> gotime \<Rightarrow> string \<Rightarrow> gotime \<Rightarrow> db \<Rightarrow> db \<times> store_error option" where
  "swept limit clock network now db =
     (case sweep (Overdue db network now limit) (awaitDue clock now) db of
        (db1, Some e) \<Rightarrow> (db1, Some e)
      | (db1, None) \<Rightarrow>
     (case sweep (Unsettled db1 network limit) (expireDue clock) db1 of
        (db2, Some e) \<Rightarrow> (db2, Some e)
      | (db2, None) \<Rightarrow> sweptRefunds limit clock network now db2))"


section \<open>A round\<close>

record round_state =
  rs_db :: db
  rs_pass :: heard
  rs_asking :: "nat list"
  rs_short :: bool

text \<open>
  What a round meets: for the transfer of a place in its work, what each endpoint would answer, when the
  caller stops waiting, and what the two clocks say.
\<close>

record meets =
  mt_endpoint :: "nat \<Rightarrow> nat \<Rightarrow> chain"
  mt_stopped :: "nat \<Rightarrow> nat \<Rightarrow> bool"
  mt_clock :: "nat \<Rightarrow> gotime"
  mt_now :: "nat \<Rightarrow> gotime"

definition dropSilent :: "nat list \<Rightarrow> nat list \<Rightarrow> nat list" where
  "dropSilent silent asking = nths asking {i. i \<notin> set silent}"

definition askFor :: "net \<Rightarrow> meets \<Rightarrow> nat \<Rightarrow> nat list \<Rightarrow> standing \<Rightarrow> (finality_error, answers) result" where
  "askFor n m k asking c =
     (if asking = [] then Inr (noAnswers\<lparr>an_verdict := VUnanswered\<rparr>)
      else Ask (mt_stopped m k) (map (mt_endpoint m k) asking) (net_agreements n)
             \<lparr>fr_tx = sd_tx c, fr_height = sd_height c, fr_hash = sd_hash c\<rparr>)"

definition hears :: "said option \<Rightarrow> verdict \<Rightarrow> said" where
  "hears before v =
     (let r = (case before of Some b \<Rightarrow> if sa_verdict b = v then sa_rounds b + 1 else 1 | None \<Rightarrow> 1) in
      \<lparr>sa_verdict = v, sa_rounds = r, sa_skip = (if v = VDisagreed then min r maxSkip else 0)\<rparr>)"

definition marked :: "net \<Rightarrow> gotime \<Rightarrow> db \<Rightarrow> standing \<Rightarrow> said option \<Rightarrow> said \<Rightarrow> db" where
  "marked n now db c before s =
     (if sa_verdict s = VDisagreed
      then if sa_rounds s = 1 then Disagree db (net_name n) (sd_key c) (sd_tx c) now else db
      else case before of
             Some b \<Rightarrow> if sa_verdict b = VDisagreed then Agree db (net_name n) (sd_key c) (sd_tx c) else db
           | None \<Rightarrow> db)"

definition roundAsk ::
  "net \<Rightarrow> meets \<Rightarrow> said option \<Rightarrow> nat \<Rightarrow> round_state \<Rightarrow> standing \<Rightarrow> round_state \<times> finality_error option" where
  "roundAsk n m before k st c =
     (let name = (sd_key c, sd_tx c) in
      case askFor n m k (rs_asking st) c of
        Inl e \<Rightarrow> (st, Some e)
      | Inr a \<Rightarrow>
          let st1 = st\<lparr>rs_asking := dropSilent (an_silent a) (rs_asking st)\<rparr> in
          if an_verdict a = VUnanswered
          then (st1\<lparr>rs_short := True,
                    rs_pass := (case before of Some b \<Rightarrow> (rs_pass st)(name \<mapsto> b) | None \<Rightarrow> rs_pass st)\<rparr>, None)
          else
            let s = hears before (an_verdict a);
                db1 = marked n (mt_now m k) (rs_db st) c before s;
                st2 = st1\<lparr>rs_db := db1, rs_pass := (rs_pass st)(name \<mapsto> s)\<rparr>
            in case decided n (mt_clock m k) (mt_now m k) db1 c s of
                 Inl e \<Rightarrow> (st2, Some (FromStore e))
               | Inr db2 \<Rightarrow> (st2\<lparr>rs_db := db2\<rparr>, None))"

definition roundStep :: "net \<Rightarrow> meets \<Rightarrow> heard \<Rightarrow> nat \<Rightarrow> round_state \<Rightarrow> standing \<Rightarrow> round_state \<times> finality_error option" where
  "roundStep n m answers k st c =
     (let name = (sd_key c, sd_tx c); before = answers name in
      case before of
        Some b \<Rightarrow>
          if sa_verdict b = VDisagreed \<and> sa_skip b > 0
          then (st\<lparr>rs_pass := (rs_pass st)(name \<mapsto> b\<lparr>sa_skip := sa_skip b - 1\<rparr>)\<rparr>, None)
          else roundAsk n m before k st c
      | None \<Rightarrow> roundAsk n m before k st c)"


fun roundLoop ::
  "net \<Rightarrow> meets \<Rightarrow> heard \<Rightarrow> nat \<Rightarrow> round_state \<Rightarrow> standing list \<Rightarrow> round_state \<times> finality_error option" where
  "roundLoop n m answers k st [] = (st, None)"
| "roundLoop n m answers k st (c # cs) =
     (case roundStep n m answers k st c of
        (st1, Some e) \<Rightarrow> (st1, Some e)
      | (st1, None) \<Rightarrow> roundLoop n m answers (k + 1) st1 cs)"

text \<open>Where the next round goes on from: the last read, or the beginning after a page that was not full.\<close>

definition nextPlace :: "nat \<Rightarrow> ('c \<Rightarrow> place) \<Rightarrow> 'c list \<Rightarrow> place" where
  "nextPlace limit pos cs = (if length cs < limit \<or> cs = [] then beginning else pos (last cs))"

definition candidatePlace :: "candidate \<Rightarrow> place" where
  "candidatePlace c = \<lparr>pl_height = cand_blockHeight c, pl_tx = cand_tx c\<rparr>"

definition refundCandidatePlace :: "refund_candidate \<Rightarrow> place" where
  "refundCandidatePlace c = \<lparr>pl_height = rcand_blockHeight c, pl_tx = rcand_tx c\<rparr>"

definition turned :: "nat \<Rightarrow> candidate list \<Rightarrow> refund_candidate list \<Rightarrow> worker \<Rightarrow> worker" where
  "turned limit cs rs w =
     (let w1 = w\<lparr>wk_from := nextPlace limit candidatePlace cs, wk_back := nextPlace limit refundCandidatePlace rs\<rparr> in
      if length cs < limit \<and> length rs < limit
      then w1\<lparr>wk_answers := wk_pass w, wk_pass := Map.empty\<rparr> else w1)"

text \<open>\<open>round\<close> answers the database and the worker after it, whether it was short of endpoints, and an error.\<close>

definition finality_round ::
  "net \<Rightarrow> nat \<Rightarrow> nat \<Rightarrow> meets \<Rightarrow> db \<Rightarrow> worker \<Rightarrow> db \<times> worker \<times> bool \<times> finality_error option" where
  "finality_round n endpoints limit m db w =
     (if net_misses n < 1 then (db, w, False, Some (GivenUpAfter (net_misses n)))
      else if net_agreements n < 1 then (db, w, False, Some (MustAgree (net_agreements n)))
      else
     (case Candidates db (net_name n) (wk_from w) limit of
        Inl e \<Rightarrow> (db, w, False, Some (FromStore e))
      | Inr cs \<Rightarrow>
     (case RefundCandidates db (net_name n) (wk_back w) limit of
        Inl e \<Rightarrow> (db, w, False, Some (FromStore e))
      | Inr rs \<Rightarrow>
     (case roundLoop n m (wk_answers w) 0
             \<lparr>rs_db = db, rs_pass = wk_pass w, rs_asking = [0..<endpoints], rs_short = False\<rparr> (work cs rs) of
        (st, Some e) \<Rightarrow> (rs_db st, w\<lparr>wk_pass := rs_pass st\<rparr>, False, Some e)
      | (st, None) \<Rightarrow>
          let k = length (work cs rs); w1 = turned limit cs rs (w\<lparr>wk_pass := rs_pass st\<rparr>) in
          case swept limit (mt_clock m k) (net_name n) (mt_now m k) (rs_db st) of
            (db1, e) \<Rightarrow> (db1, w1, rs_short st, map_option FromStore e)))))"

text \<open>One turn of \<open>Run\<close>: what the lease answered, then the round or not, and the word it leaves.\<close>

definition Run_turn ::
  "net \<Rightarrow> nat \<Rightarrow> nat \<Rightarrow> meets \<Rightarrow> gotime \<Rightarrow> (string, bool) result \<Rightarrow> db \<Rightarrow> worker \<Rightarrow> db \<times> worker" where
  "Run_turn n endpoints limit m now held db w =
     (case held of
        Inl _ \<Rightarrow> (db, w)
      | Inr False \<Rightarrow> (db, says now WaitingLease w)
      | Inr True \<Rightarrow>
          (case finality_round n endpoints limit m db w of
             (db1, w1, short, err) \<Rightarrow>
               (db1, says now (if err \<noteq> None then Unreachable else if short then TooFew else Deciding) w1)))"

end
