(* ===== verification/Asking.thy ===== *)
theory Asking
  imports Finality
begin

text \<open>
  What the worker's questions guarantee: the endpoints asked about one transfer, and the pages of
  transfers asked about.
\<close>

section \<open>What agreement means\<close>

text \<open>The verdicts the endpoints give that answer at all, in order.\<close>

definition saids :: "recorded_transfer \<Rightarrow> chain list \<Rightarrow> verdict list" where
  "saids r endpoints = concat (map (\<lambda>e. case asked e r of Inl _ \<Rightarrow> [] | Inr v \<Rightarrow> [v]) endpoints)"

lemma saids_simps [simp]:
  "saids r [] = []" "saids r (e # es) = (case asked e r of Inl _ \<Rightarrow> [] | Inr v \<Rightarrow> [v]) @ saids r es"
  "saids r (xs @ ys) = saids r xs @ saids r ys"
  by (simp_all add: saids_def)

lemma asked_verdict: "asked e r = Inr v \<Longrightarrow> v = VFinal \<or> v = VWaiting \<or> v = VElsewhere \<or> v = VGone"
  by (auto simp: asked_def settled_def split: sum.splits list.splits if_splits chain_error.splits)

lemma AskLoop_agreement:
  assumes "AskLoop stopped need r i rest a = Inr b"
    and "an_agreed a < need" "an_answered a = an_agreed a" "0 \<le> an_agreed a"
    and "saids r before = replicate (nat (an_agreed a)) (an_verdict a)"
  shows "(an_verdict b = VUnanswered \<and> (\<exists>v. saids r (before @ rest) = replicate (length (saids r (before @ rest))) v)
            \<and> int (length (saids r (before @ rest))) < need)
    \<or> (an_verdict b = VDisagreed \<and> (\<exists>v v'. v \<noteq> v' \<and> {v, v'} \<subseteq> set (saids r (before @ rest))))
    \<or> (\<exists>n. saids r (before @ take n rest) = replicate (nat need) (an_verdict b) \<and> an_agreed b = need
          \<and> an_verdict b \<noteq> VUnanswered \<and> an_verdict b \<noteq> VDisagreed)"
  using assms
proof (induction rest arbitrary: i a before)
  case Nil
  then show ?case by auto
next
  case (Cons e rest)
  show ?case
  proof (cases "asked e r")
    case (Inl err)
    then have go: "AskLoop stopped need r (i + 1) rest (a\<lparr>an_silent := an_silent a @ [i]\<rparr>) = Inr b"
      using Cons.prems(1) by (auto split: if_splits)
    have "an_agreed (a\<lparr>an_silent := an_silent a @ [i]\<rparr>) < need"
      "an_answered (a\<lparr>an_silent := an_silent a @ [i]\<rparr>) = an_agreed (a\<lparr>an_silent := an_silent a @ [i]\<rparr>)"
      "0 \<le> an_agreed (a\<lparr>an_silent := an_silent a @ [i]\<rparr>)"
      "saids r (before @ [e]) = replicate (nat (an_agreed (a\<lparr>an_silent := an_silent a @ [i]\<rparr>))) (an_verdict (a\<lparr>an_silent := an_silent a @ [i]\<rparr>))"
      using Cons.prems(2-5) Inl by simp_all
    note ih = Cons.IH [OF go this]
    have c: "(before @ [e]) @ rest = before @ e # rest" "\<And>n. (before @ [e]) @ take n rest = before @ take (Suc n) (e # rest)"
      by simp_all
    show ?thesis using ih unfolding c by blast
  next
    case (Inr v)
    let ?n = "an_agreed a + 1"
    show ?thesis
    proof (cases "an_answered a + 1 \<noteq> 1 \<and> v \<noteq> an_verdict a")
      case True
      then have "an_verdict b = VDisagreed" using Cons.prems(1) Inr by (auto split: if_splits)
      moreover have "an_verdict a \<in> set (saids r before)" using True Cons.prems(3-5) by simp
      moreover have "v \<in> set (saids r (e # rest))" using Inr by simp
      ultimately show ?thesis using True by auto
    next
      case False
      let ?b = "a\<lparr>an_answered := an_answered a + 1, an_verdict := v, an_agreed := ?n\<rparr>"
      have said: "saids r (before @ [e]) = replicate (nat ?n) v"
        using False Cons.prems(3-5) Inr
        by (cases "an_agreed a = 0") (auto simp: nat_add_distrib replicate_append_same)
      have v: "v \<noteq> VUnanswered" "v \<noteq> VDisagreed" using asked_verdict [OF Inr] by auto
      show ?thesis
      proof (cases "?n = need")
        case True
        then have "b = ?b" using Cons.prems(1) False Inr by (auto simp: Let_def split: if_splits)
        then have "saids r (before @ take 1 (e # rest)) = replicate (nat need) (an_verdict b) \<and> an_agreed b = need
          \<and> an_verdict b \<noteq> VUnanswered \<and> an_verdict b \<noteq> VDisagreed"
          using said True v by simp
        then show ?thesis by blast
      next
        case ne: False
        then have go: "AskLoop stopped need r (i + 1) rest ?b = Inr b"
          using Cons.prems(1) False Inr by (auto simp: Let_def split: if_splits)
        have "an_agreed ?b < need" "an_answered ?b = an_agreed ?b" "0 \<le> an_agreed ?b"
          "saids r (before @ [e]) = replicate (nat (an_agreed ?b)) (an_verdict ?b)"
          using Cons.prems(2-4) ne said by simp_all
        note ih = Cons.IH [OF go this]
        have c: "(before @ [e]) @ rest = before @ e # rest" "\<And>n. (before @ [e]) @ take n rest = before @ take (Suc n) (e # rest)"
          by simp_all
        show ?thesis using ih unfolding c by blast
      qed
    qed
  qed
qed


lemma Ask_agreed:
  assumes "Ask stopped endpoints need r = Inr a"
  shows "an_verdict a = VUnanswered \<and> int (length (saids r endpoints)) < need
    \<or> an_verdict a = VDisagreed \<and> (\<exists>v v'. v \<noteq> v' \<and> {v, v'} \<subseteq> set (saids r endpoints))
    \<or> an_verdict a \<noteq> VUnanswered \<and> an_verdict a \<noteq> VDisagreed \<and> an_agreed a = need
        \<and> (\<exists>n. saids r (take n endpoints) = replicate (nat need) (an_verdict a))"
proof -
  have n: "\<not> need < 1" "AskLoop stopped need r 0 endpoints noAnswers = Inr a"
    using assms by (auto simp: Ask_def split: if_splits)
  show ?thesis using AskLoop_agreement [OF n(2), of "[]"] n(1) by (auto simp: noAnswers_def)
qed

text \<open>C13: Nothing is settled without agreement. A verdict other than disagreement and silence was given by
  as many endpoints as agreement takes, and by every endpoint that answered before the last of them, so fewer
  lying endpoints than that settle nothing; disagreement is two endpoints saying different things; and no answer
  is fewer endpoints answering than agreement takes.\<close>

theorem ask_agreement:
  assumes "Ask stopped endpoints need r = Inr a"
  shows "(an_verdict a \<noteq> VUnanswered \<and> an_verdict a \<noteq> VDisagreed \<longrightarrow>
        an_agreed a = need \<and> (\<exists>n. saids r (take n endpoints) = replicate (nat need) (an_verdict a)))
    \<and> (an_verdict a = VDisagreed \<longrightarrow> (\<exists>v v'. v \<noteq> v' \<and> {v, v'} \<subseteq> set (saids r endpoints)))
    \<and> (an_verdict a = VUnanswered \<longrightarrow> int (length (saids r endpoints)) < need)
    \<and> (int (length (filter (\<lambda>e. asked e r = Inr v) endpoints)) < need \<and> v \<noteq> VUnanswered \<and> v \<noteq> VDisagreed \<longrightarrow> an_verdict a \<noteq> v)"
proof -
  have n: "\<not> need < 1" using assms by (auto simp: Ask_def split: if_splits)
  have count: "length (filter (\<lambda>v'. v' = v) (saids r es)) = length (filter (\<lambda>e. asked e r = Inr v) es)" for es
    by (induction es) (auto split: sum.splits)
  have few: "an_verdict a \<noteq> v" if "int (length (filter (\<lambda>e. asked e r = Inr v) endpoints)) < need"
    and "saids r (take k endpoints) = replicate (nat need) (an_verdict a)" for k
  proof
    assume v: "an_verdict a = v"
    have "length (filter (\<lambda>e. asked e r = Inr v) (take k endpoints)) = nat need"
      unfolding count [symmetric] using that(2) v by simp
    moreover have "length (filter (\<lambda>e. asked e r = Inr v) (take k endpoints)) \<le> length (filter (\<lambda>e. asked e r = Inr v) endpoints)"
      by (metis append_take_drop_id filter_append le_add1 length_append)
    ultimately show False using that(1) n by linarith
  qed
  show ?thesis using Ask_agreed [OF assms] few by auto
qed

definition demo_chain :: "uint64 \<Rightarrow> string \<Rightarrow> chain_transfer list \<Rightarrow> chain" where
  "demo_chain final network carried = (let b = \<lparr>bl_height = final, bl_hash = ''0xF'', bl_parent = ''0xE'', bl_time = Second\<rparr> in
     \<lparr>ch_Identity = Inr network, ch_Head = Inr \<lparr>hd_latest = b, hd_final = b\<rparr>, ch_Block = (\<lambda>_. Inr b),
      ch_Keys = (\<lambda>_ _ _. Inr \<lparr>sc_consumed = [], sc_changed = []\<rparr>), ch_Receipt = (\<lambda>_. Inr carried),
      ch_Implementation = (\<lambda>_. Inr []), ch_DomainSeparator = (\<lambda>_. Inl ErrNoDomain), ch_Name = (\<lambda>_. Inr []),
      ch_Paused = (\<lambda>_. Inr False), ch_Blocklisted = (\<lambda>_ _. Inr False)\<rparr>)"

theorem ask_agreement_witness:
  "\<exists>a. Ask (\<lambda>_. False) [demo_chain 9 ''1'' [], demo_chain 2 ''1'' []\<lparr>ch_Head := Inl ErrNoFinal\<rparr>, demo_chain 8 ''1'' []] 2
        \<lparr>fr_tx = ''0x1'', fr_height = 7, fr_hash = ''0x7''\<rparr> = Inr a
     \<and> an_verdict a = VGone \<and> an_silent a = [1] \<and> an_agreed a = 2
     \<and> \<not> (int (length (filter (\<lambda>e. asked e \<lparr>fr_tx = ''0x1'', fr_height = 7, fr_hash = ''0x7''\<rparr> = Inr VGone)
           [demo_chain 9 ''1'' [], demo_chain 2 ''1'' []\<lparr>ch_Head := Inl ErrNoFinal\<rparr>, demo_chain 8 ''1'' []])) < 2)"
proof -
  let ?es = "[demo_chain 9 ''1'' [], demo_chain 2 ''1'' []\<lparr>ch_Head := Inl ErrNoFinal\<rparr>, demo_chain 8 ''1'' []]"
  let ?r = "\<lparr>fr_tx = ''0x1'', fr_height = 7, fr_hash = ''0x7''\<rparr>"
  have a: "Ask (\<lambda>_. False) ?es 2 ?r = Inr \<lparr>an_verdict = VGone, an_answered = 2, an_agreed = 2, an_silent = [1]\<rparr>"
    by (simp add: Ask_def asked_def settled_def demo_chain_def noAnswers_def Let_def)
  then show ?thesis using ask_agreement [OF a, of VGone] by simp
qed

section \<open>Paging\<close>

text \<open>A pass: page after page, each from the last of the one before, until one is not full.\<close>

fun readPages :: "nat \<Rightarrow> ('r \<Rightarrow> int \<times> string) \<Rightarrow> nat \<Rightarrow> 'r list \<Rightarrow> int \<times> string \<Rightarrow> 'r list list" where
  "readPages 0 pos limit rows from = []"
| "readPages (Suc n) pos limit rows from =
     (let p = pageAfter pos from limit rows in
      if length p < limit then [p] else p # readPages n pos limit rows (pos (last p)))"

lemma strictly_split:
  fixes pos :: "'r \<Rightarrow> 'p::linorder"
  assumes "sorted (map pos xs)" "distinct (map pos xs)" "x \<in> set (take k xs)" "y \<in> set (drop k xs)"
  shows "pos x < pos y"
proof -
  have m: "map pos xs = map pos (take k xs) @ map pos (drop k xs)"
    by (metis append_take_drop_id map_append)
  have "pos x \<le> pos y" using assms(1,3,4) unfolding m sorted_append by auto
  moreover have "pos x \<noteq> pos y" using assms(2-4) unfolding m distinct_append by (auto simp: set_eq_iff)
  ultimately show ?thesis by simp
qed

lemma sorted_last: "sorted (map pos xs) \<Longrightarrow> x \<in> set xs \<Longrightarrow> pos x \<le> pos (last xs)"
proof (induction xs rule: rev_induct)
  case (snoc y ys)
  then show ?case by (auto simp: sorted_append)
qed simp

lemma pages_sorted:
  assumes "distinct (map pos rows)" "0 < limit" "length (filter (\<lambda>r. from < pos r) rows) < n * limit"
  shows "concat (readPages n pos limit rows from) = sort_key pos (filter (\<lambda>r. from < pos r) rows)"
  using assms(3)
proof (induction n arbitrary: "from")
  case (Suc n)
  let ?after = "\<lambda>f. sort_key pos (filter (\<lambda>r. f < pos r) rows)"
  let ?p = "take limit (?after from)"
  have d: "distinct (map pos (?after from))"
    using assms(1) by (auto simp: distinct_map elim: inj_on_subset)
  show ?case
  proof (cases "length ?p < limit")
    case True
    then have "?p = ?after from" by (simp add: min_def split: if_splits)
    moreover have "readPages (Suc n) pos limit rows from = [?p]"
      using True by (simp add: pageAfter_def Let_def del: length_take)
    ultimately show ?thesis by simp
  next
    case False
    then have len: "limit \<le> length (?after from)" by simp
    let ?l = "pos (last ?p)"
    have srt: "sorted (map pos (?after from))" by simp
    have split: "?after from = ?p @ drop limit (?after from)" by simp
    have strict: "x \<in> set ?p \<Longrightarrow> y \<in> set (drop limit (?after from)) \<Longrightarrow> pos x < pos y" for x y
      by (rule strictly_split [OF srt d])
    have "length ?p = limit" using len by (simp add: min_def)
    then have ne: "?p \<noteq> []" using assms(2) by (metis less_numeral_extra(3) list.size(3))
    have le: "x \<in> set ?p \<Longrightarrow> pos x \<le> ?l" for x
      by (rule sorted_last) (use sorted_wrt_take [OF srt, of limit] in \<open>simp_all add: take_map\<close>)
    have "?l = pos (last ?p)" "last ?p \<in> set ?p" using ne by simp_all
    then have lf: "from < ?l" by (auto dest!: in_set_takeD)
    have "filter (\<lambda>r. ?l < pos r) (?after from) = drop limit (?after from)"
      by (subst split, subst filter_append) (use le strict \<open>last ?p \<in> set ?p\<close> in \<open>force simp: filter_empty_conv filter_id_conv not_less\<close>)
    moreover have "filter (\<lambda>r. ?l < pos r) (?after from) = ?after ?l"
    proof -
      have "filter (\<lambda>r. ?l < pos r) (?after from) = sort_key pos (filter (\<lambda>r. ?l < pos r \<and> from < pos r) rows)"
        by (simp add: filter_sort conj_commute)
      also have "filter (\<lambda>r. ?l < pos r \<and> from < pos r) rows = filter (\<lambda>r. ?l < pos r) rows"
        using lf by (metis (no_types, lifting) order.strict_trans)
      finally show ?thesis .
    qed
    ultimately have next_page: "?after ?l = drop limit (?after from)" by simp
    then have "length (filter (\<lambda>r. ?l < pos r) rows) = length (?after from) - limit"
      by (metis length_drop length_sort)
    then have "length (filter (\<lambda>r. ?l < pos r) rows) < n * limit" using Suc.prems len by simp
    then have "concat (readPages n pos limit rows ?l) = drop limit (?after from)"
      using Suc.IH next_page by simp
    moreover have "readPages (Suc n) pos limit rows from = ?p # readPages n pos limit rows ?l"
      using False by (simp add: pageAfter_def Let_def del: length_take)
    ultimately show ?thesis using split by simp
  qed
qed simp


lemma pageAfter_after: "x \<in> set (pageAfter pos from limit rows) \<Longrightarrow> x \<in> set rows \<and> from < pos x"
  by (auto simp: pageAfter_def dest: in_set_takeD)

lemma readPages_after: "0 < limit \<Longrightarrow> x \<in> set (concat (readPages n pos limit rows from)) \<Longrightarrow> from < pos x"
proof (induction n arbitrary: "from")
  case (Suc n)
  let ?p = "pageAfter pos from limit rows"
  have "x \<in> set ?p \<or> x \<in> set (concat (readPages n pos limit rows (pos (last ?p)))) \<and> ?p \<noteq> []"
    using Suc.prems by (auto simp: Let_def split: if_splits)
  then show ?case
  proof
    assume "x \<in> set (concat (readPages n pos limit rows (pos (last ?p)))) \<and> ?p \<noteq> []"
    then have "pos (last ?p) < pos x" "from < pos (last ?p)"
      using Suc.IH [OF Suc.prems(1)] pageAfter_after [of "last ?p" pos "from" limit rows] by simp_all
    then show ?thesis by simp
  qed (drule pageAfter_after, simp)
qed simp

text \<open>
  Where the assumption is needed: a place is a block and a transaction, and one transaction can carry two
  matched transfers. Of two rows at one place with the end of a page between them, the second is in no page
  of the pass.
\<close>

theorem candidates_skip_ties:
  assumes "0 < limit" "length (pageAfter pos from limit rows) = limit"
    and "r \<notin> set (pageAfter pos from limit rows)" "pos r = pos (last (pageAfter pos from limit rows))"
  shows "r \<notin> set (concat (readPages n pos limit rows from))"
proof (cases n)
  case (Suc k)
  then show ?thesis
    using assms readPages_after [OF assms(1), of r k pos rows "pos r"] by (auto simp: Let_def)
qed simp

theorem candidates_skip_ties_example:
  "concat (readPages n (\<lambda>k. (7, ''0xT'')) 1 [''k1'', ''k2''] (0, [])) \<in> {[], [''k1'']}"
proof (cases n)
  case (Suc k)
  have "concat (readPages k (\<lambda>k. (7, ''0xT'')) 1 [''k1'', ''k2''] (7, ''0xT'')) = []"
    using readPages_after [of 1 _ k "\<lambda>k. (7, ''0xT'')" "[''k1'', ''k2'']" "(7, ''0xT'')"]
    by (metis last_in_set less_irrefl zero_less_one)
  then show ?thesis using Suc by (simp add: pageAfter_def Let_def sort_key_def)
qed simp

fun candidatePass :: "nat \<Rightarrow> db \<Rightarrow> string \<Rightarrow> nat \<Rightarrow> place \<Rightarrow> (store_error, candidate list list) result" where
  "candidatePass 0 db network limit from = Inr []"
| "candidatePass (Suc n) db network limit from =
     bindE (Candidates db network from limit) (\<lambda>cs.
       if nextPlace limit candidatePlace cs = beginning then Inr [cs]
       else bindE (candidatePass n db network limit (nextPlace limit candidatePlace cs)) (\<lambda>rest. Inr (cs # rest)))"

text \<open>A row of the observations of a network that can be asked about.\<close>

definition askable :: "observation_row \<times> payment_row \<Rightarrow> bool" where
  "askable op = (0 < ob_height (fst op) \<and> ob_height (fst op) \<le> int MaxInt64 \<and> isOk (rowPayment (narrow (snd op))))"

lemma eachRow_ok: "\<forall>r\<in>set rows. isOk (f r) \<Longrightarrow> eachRow f rows = Inr (map (\<lambda>r. projr (f r)) rows)"
  by (induction rows) (auto simp: isOk_iff)

lemma candidateOf_place:
  assumes "askable op"
  shows "isOk (candidateOf op)"
    and "int (unat (pl_height (candidatePlace (projr (candidateOf op))))) = ob_height (fst op)"
    and "pl_tx (candidatePlace (projr (candidateOf op))) = ob_tx (fst op)"
    and "candidatePlace (projr (candidateOf op)) \<noteq> beginning"
proof -
  obtain o1 p where op: "op = (o1, p)" by (cases op)
  obtain q at where q: "rowPayment (narrow p) = Inr (q, at)" using assms by (auto simp: askable_def op isOk_iff)
  have h: "int (unat (word_of_int (ob_height o1) :: uint64)) = ob_height o1"
    using assms by (simp add: askable_def op MaxInt64_def unat_eq_nat_uint uint_word_of_int_eq take_bit_int_eq_self)
  show "isOk (candidateOf op)" "int (unat (pl_height (candidatePlace (projr (candidateOf op))))) = ob_height (fst op)"
    "pl_tx (candidatePlace (projr (candidateOf op))) = ob_tx (fst op)"
    using assms q h by (simp_all add: candidateOf_def candidatePlace_def op askable_def isOk_iff)
  then show "candidatePlace (projr (candidateOf op)) \<noteq> beginning"
    using assms by (auto simp: askable_def op beginning_def)
qed

lemma candidatePass_pages:
  assumes "\<forall>r\<in>set (waitingRows db network). askable r" "unat (pl_height from) \<le> MaxInt64" "0 < limit"
  shows "candidatePass n db network limit from
    = Inr (map (map (\<lambda>r. projr (candidateOf r)))
        (readPages n rowPlace limit (waitingRows db network) (int (unat (pl_height from)), pl_tx from)))"
  using assms(2)
proof (induction n arbitrary: "from")
  case (Suc n)
  let ?f = "(int (unat (pl_height from)), pl_tx from)" and ?c = "\<lambda>r. projr (candidateOf r)"
  let ?p = "pageAfter rowPlace ?f limit (waitingRows db network)"
  have all: "\<forall>r\<in>set ?p. askable r" using assms(1) by (auto dest!: pageAfter_after)
  then have cs: "Candidates db network from limit = Inr (map ?c ?p)"
    using Suc.prems candidateOf_place(1) by (simp add: Candidates_def eachRow_ok)
  show ?case
  proof (cases "length ?p < limit")
    case True
    then show ?thesis using cs by (simp add: nextPlace_def Let_def)
  next
    case False
    then have ne: "?p \<noteq> []" using assms(3) by auto
    then have l: "askable (last ?p)" using all by simp
    let ?n = "candidatePlace (?c (last ?p))"
    have nx: "nextPlace limit candidatePlace (map ?c ?p) = ?n" using False ne by (simp add: nextPlace_def last_map)
    have at: "(int (unat (pl_height ?n)), pl_tx ?n) = rowPlace (last ?p)"
      using candidateOf_place(2,3) [OF l] by (simp add: rowPlace_def placeOf_def)
    have "unat (pl_height ?n) \<le> MaxInt64" using candidateOf_place(2) [OF l] l unfolding askable_def by linarith
    from Suc.IH [OF this] have "candidatePass n db network limit ?n
        = Inr (map (map ?c) (readPages n rowPlace limit (waitingRows db network) (rowPlace (last ?p))))"
      unfolding at .
    moreover have "?n \<noteq> beginning" by (rule candidateOf_place(4) [OF l])
    ultimately show ?thesis
      using cs nx False by (simp add: Let_def)
  qed
qed simp

text \<open>C14: Every candidate gets its turn. When no two transfers a network is waiting on share a block and a
  transaction, reading page after page, each from where the last stopped, as the worker does until a page is not
  full, ends and reads every one of them, once each, in the order the chain carried them.\<close>

theorem candidates_pass_complete:
  assumes "\<forall>r\<in>set (waitingRows db network). askable r" "distinct (map rowPlace (waitingRows db network))"
    and "0 < limit" "Undecided db network < n * limit"
  shows "\<exists>pages. candidatePass n db network limit beginning = Inr pages
    \<and> eachRow candidateOf (sort_key rowPlace (waitingRows db network)) = Inr (concat pages)
    \<and> length (concat pages) = Undecided db network"
proof -
  let ?rows = "waitingRows db network"
  have "filter (\<lambda>r. (0, []) < rowPlace r) ?rows = ?rows"
    using assms(1) by (auto simp: filter_id_conv askable_def rowPlace_def placeOf_def)
  then have pages: "concat (readPages n rowPlace limit ?rows (0, [])) = sort_key rowPlace ?rows"
    using pages_sorted [OF assms(2,3), of "(0, [])" n] assms(4) by (simp add: Undecided_def)
  have "candidatePass n db network limit beginning
      = Inr (map (map (\<lambda>r. projr (candidateOf r))) (readPages n rowPlace limit ?rows (0, [])))"
    using candidatePass_pages [OF assms(1), of beginning limit n] assms(3) by (simp add: beginning_def)
  moreover have "eachRow candidateOf (sort_key rowPlace ?rows)
      = Inr (concat (map (map (\<lambda>r. projr (candidateOf r))) (readPages n rowPlace limit ?rows (0, []))))"
    using assms(1) candidateOf_place(1) pages by (subst eachRow_ok) (auto simp: map_concat [symmetric])
  moreover have "length (concat (map (map (\<lambda>r. projr (candidateOf r))) (readPages n rowPlace limit ?rows (0, [])))) = Undecided db network"
    unfolding map_concat [symmetric] pages by (simp add: Undecided_def)
  ultimately show ?thesis by blast
qed


definition demo_waiting :: db where
  "demo_waiting = (demo_db [demo_row AwaitingPayment None 2])
     \<lparr>db_observations := [demo_obs\<lparr>ob_reason := Matched, ob_finalAt := Some 0\<rparr>]\<rparr>"

lemma demo_narrow: "narrow (demo_row st v k) = demo_row st v k"
  by (simp add: narrow_def demo_row_def newPaymentRow_def Let_def demo_payment_def checkout_IsSet_def idem_IsSet_def)

lemma demo_waitingRows: "waitingRows demo_waiting ''polygon''
    = [(demo_obs\<lparr>ob_reason := Matched, ob_finalAt := Some 0\<rparr>, demo_row AwaitingPayment None 2)]"
  by (simp add: waitingRows_def demo_waiting_def demo_db_def settleable_def joined_def observedPayment_def isPayment_def
      openForPayment_def demo_obs_simps)

theorem candidates_pass_complete_witness:
  "\<exists>pages. candidatePass 2 demo_waiting ''polygon'' 1 beginning = Inr pages \<and> length (concat pages) = 1"
proof -
  have h: "ob_height demo_obs = 7" by (simp add: demo_obs_def newObservationRow_def Let_def)
  have ok: "isOk (rowPayment (narrow (demo_row AwaitingPayment None 2)))"
    using demo_row_read [of AwaitingPayment None 2] by (simp add: demo_narrow isOk_iff Valid_def)
  have "Undecided demo_waiting ''polygon'' = 1" by (simp add: Undecided_def demo_waitingRows)
  then show ?thesis
    using candidates_pass_complete [of demo_waiting "''polygon''" 1 2] ok h
    by (auto simp: demo_waitingRows askable_def MaxInt64_def)
qed

end
