(* ===== verification/Observer.thy ===== *)
theory Observer
  imports Asking
begin

text \<open>
  Package observe, observer.go: the reader of one network. A round keeps its lease, asks the chain where it
  stands, reads the blocks between its position and the final one, and writes what it found with the
  position it read to; then it reads ahead of finality. What a round sees of the world is an argument: what
  the chain, the clocks and the database answer at each call, and what everybody else does between two of
  its calls. Lines written to the log are not modelled.
\<close>

section \<open>Words, bounds and the network\<close>

datatype net_word =
  Observing | NoCursor | NetUnreachable | NoFinalized | NetStalled | ChainMismatch | FinalizedBehind | FinalizedChanged

datatype asset_word = Unchanged | Changed

definition RenewBelow :: duration where "RenewBelow = 15 * Second"
definition MaxInterval :: duration where "MaxInterval = 300 * Second"
definition RecoverAfter :: int where "RecoverAfter = 100"
definition Stale :: duration where "Stale = 2 * LeaseTTL"
definition ReadImplementationEvery :: duration where "ReadImplementationEvery = Minute"
definition HoldPausedFor :: duration where "HoldPausedFor = 2 * ReadImplementationEvery"
definition minWidth :: int where "minWidth = 10"

fun netWordText :: "net_word \<Rightarrow> string" where
  "netWordText Observing = ''observing''"
| "netWordText NoCursor = ''no-cursor''"
| "netWordText NetUnreachable = ''unreachable''"
| "netWordText NoFinalized = ''no-finalized''"
| "netWordText NetStalled = ''stalled''"
| "netWordText ChainMismatch = ''chain-mismatch''"
| "netWordText FinalizedBehind = ''finalized-behind''"
| "netWordText FinalizedChanged = ''finalized-changed''"

definition NetworkWords :: "string list" where
  "NetworkWords = sort (map netWordText [Observing, NoCursor, NetUnreachable, NoFinalized, NetStalled,
     ChainMismatch, FinalizedBehind, FinalizedChanged])"

record network =
  nw_name :: string
  nw_want :: string
  nw_assets :: "(string \<times> asset) list"
  nw_poll :: duration
  nw_width :: int

text \<open>Why a round stops: the chain, the database, the lease, or what the document says.\<close>

datatype observe_error =
  ChainSaid chain_error | StoreSaid store_error | LeaseLost | ReadsNoBlocks int | CallsItself string string

section \<open>The reader's state\<close>

record reader =
  rd_width :: int
  rd_interval :: duration
  rd_passed :: int
  rd_identified :: gotime
  rd_looked :: gotime
  rd_started :: "string \<Rightarrow> string option"
  rd_succeeded :: gotime
  rd_held :: gotime
  rd_named :: "string \<Rightarrow> string option"
  rd_word :: net_word
  rd_assets :: "string \<Rightarrow> asset_word option"
  rd_paused :: "string \<Rightarrow> (bool \<times> gotime) option"

definition newObserver :: "network \<Rightarrow> reader" where
  "newObserver n =
     \<lparr>rd_width = nw_width n, rd_interval = nw_poll n, rd_passed = 0, rd_identified = 0, rd_looked = 0,
      rd_started = Map.empty, rd_succeeded = 0, rd_held = 0,
      rd_named = map_of (rev (map (\<lambda>(name, a). (as_reference a, name)) (nw_assets n))),
      rd_word = NetUnreachable, rd_assets = map_of (map (\<lambda>(name, a). (name, Unchanged)) (nw_assets n)),
      rd_paused = Map.empty\<rparr>"

text \<open>\<open>Paused\<close>: the flags read lately, and nothing of the others.\<close>

definition observer_Paused :: "reader \<Rightarrow> gotime \<Rightarrow> string \<Rightarrow> bool option" where
  "observer_Paused o1 now name =
     (case rd_paused o1 name of
        None \<Rightarrow> None
      | Some (value, at) \<Rightarrow> if subTime now at \<le> HoldPausedFor then Some value else None)"

definition blocks :: "reader \<Rightarrow> uint64" where
  "blocks o1 = (if rd_width o1 \<le> 0 then 0 else word_of_int (rd_width o1))"

text \<open>\<open>after\<close>: the span and the wait, as what the round came to moves them.\<close>

definition narrowed :: "int \<Rightarrow> int" where
  "narrowed width = (if width > minWidth then max (width div 2) minWidth else width)"

definition after :: "network \<Rightarrow> observe_error option \<Rightarrow> reader \<Rightarrow> reader" where
  "after n err o1 =
     (if rd_word o1 = FinalizedBehind then o1
      else case err of
        None \<Rightarrow>
          let o2 = o1\<lparr>rd_interval := max (rd_interval o1 div 2) (nw_poll n), rd_passed := rd_passed o1 + 1\<rparr> in
          if rd_passed o2 \<ge> RecoverAfter
          then o2\<lparr>rd_width := min (2 * rd_width o2) (nw_width n), rd_passed := 0\<rparr> else o2
      | Some e \<Rightarrow>
          let o2 = o1\<lparr>rd_passed := 0\<rparr> in
          (case e of
             ChainSaid (RateLimited retry) \<Rightarrow>
               if retry > 0 \<and> retry \<le> MaxInterval then o2\<lparr>rd_interval := max retry (nw_poll n)\<rparr>
               else o2\<lparr>rd_interval := min (2 * rd_interval o2) MaxInterval\<rparr>
           | ChainSaid ErrTooWide \<Rightarrow> o2\<lparr>rd_width := narrowed (rd_width o2)\<rparr>
           | _ \<Rightarrow> o2))"

definition observer_says :: "net_word \<Rightarrow> reader \<Rightarrow> reader" where
  "observer_says w o1 = o1\<lparr>rd_word := w\<rparr>"

definition replaced :: "string list \<Rightarrow> reader \<Rightarrow> reader" where
  "replaced references o1 =
     fold (\<lambda>reference o2. case rd_named o2 reference of
                            None \<Rightarrow> o2
                          | Some name \<Rightarrow> o2\<lparr>rd_assets := (rd_assets o2)(name \<mapsto> Changed)\<rparr>) references o1"

definition went :: "gotime \<Rightarrow> reader \<Rightarrow> reader" where
  "went now o1 = o1\<lparr>rd_word := Observing, rd_succeeded := now\<rparr>"

definition stalling :: "gotime \<Rightarrow> reader \<Rightarrow> reader" where
  "stalling now o1 =
     (if rd_word o1 = Observing \<and> subTime now (rd_succeeded o1) > Stale then o1\<lparr>rd_word := NetStalled\<rparr> else o1)"

end
