(* ===== verification/Reading.thy ===== *)
theory Reading
  imports Observer
begin

text \<open>
  A round as the calls it makes, one after the other. What each call is answered is the world's, which also
  says what everybody else did to the database before it; the answers are counted, so two calls of one kind
  may be answered differently.
\<close>

section \<open>Calls\<close>

record around =
  ar_chain :: "nat \<Rightarrow> chain"
  ar_now :: "nat \<Rightarrow> gotime"
  ar_clock :: "nat \<Rightarrow> gotime"
  ar_others :: "nat \<Rightarrow> db \<Rightarrow> db"
  ar_down :: "nat \<Rightarrow> store_error option"
  ar_order :: "nat \<Rightarrow> (string \<times> asset) list \<Rightarrow> (string \<times> asset) list"
  ar_holder :: string
  ar_numeric :: "string \<Rightarrow> int option"

record turn =
  tn_db :: db
  tn_reader :: reader
  tn_calls :: nat

type_synonym 'a act = "turn \<Rightarrow> (observe_error, 'a) result \<times> turn"

definition giving :: "'a \<Rightarrow> 'a act" where
  "giving a = (\<lambda>t. (Inr a, t))"

definition failing :: "observe_error \<Rightarrow> 'a act" where
  "failing e = (\<lambda>t. (Inl e, t))"

definition andThen :: "'a act \<Rightarrow> ('a \<Rightarrow> 'b act) \<Rightarrow> 'b act" where
  "andThen m f = (\<lambda>t. case m t of (Inl e, t') \<Rightarrow> (Inl e, t') | (Inr a, t') \<Rightarrow> f a t')"

definition reading :: "(reader \<Rightarrow> 'a) \<Rightarrow> 'a act" where
  "reading f = (\<lambda>t. (Inr (f (tn_reader t)), t))"

definition changing :: "(reader \<Rightarrow> reader) \<Rightarrow> unit act" where
  "changing f = (\<lambda>t. (Inr (), t\<lparr>tn_reader := f (tn_reader t)\<rparr>))"

definition askNow :: "around \<Rightarrow> gotime act" where
  "askNow w = (\<lambda>t. (Inr (ar_now w (tn_calls t)), t\<lparr>tn_calls := tn_calls t + 1\<rparr>))"

definition askChain :: "around \<Rightarrow> (chain \<Rightarrow> (chain_error, 'a) result) \<Rightarrow> 'a act" where
  "askChain w f = (\<lambda>t.
     (case f (ar_chain w (tn_calls t)) of Inl e \<Rightarrow> Inl (ChainSaid e) | Inr a \<Rightarrow> Inr a, t\<lparr>tn_calls := tn_calls t + 1\<rparr>))"

text \<open>One transaction, or one statement: what others wrote is there, and it writes all of its own or nothing.\<close>

definition onDb :: "around \<Rightarrow> (gotime \<Rightarrow> db \<Rightarrow> (store_error, 'a \<times> db) result) \<Rightarrow> 'a act" where
  "onDb w f = (\<lambda>t.
     let k = tn_calls t; t1 = t\<lparr>tn_db := ar_others w k (tn_db t), tn_calls := k + 1\<rparr> in
     case ar_down w k of
       Some e \<Rightarrow> (Inl (StoreSaid e), t1)
     | None \<Rightarrow>
         (case f (ar_clock w k) (tn_db t1) of
            Inl e \<Rightarrow> (Inl (StoreSaid e), t1)
          | Inr (a, db) \<Rightarrow> (Inr a, t1\<lparr>tn_db := db\<rparr>)))"

definition readDb :: "around \<Rightarrow> (db \<Rightarrow> (store_error, 'a) result) \<Rightarrow> 'a act" where
  "readDb w f = onDb w (\<lambda>_ db. bindE (f db) (\<lambda>a. Inr (a, db)))"

definition writeDb :: "around \<Rightarrow> (gotime \<Rightarrow> db \<Rightarrow> (store_error, db) result) \<Rightarrow> unit act" where
  "writeDb w f = onDb w (\<lambda>clock db. bindE (f clock db) (\<lambda>db'. Inr ((), db')))"

definition leaseDb :: "around \<Rightarrow> (gotime \<Rightarrow> lease_row list \<Rightarrow> lease_row list \<times> bool) \<Rightarrow> bool act" where
  "leaseDb w f = onDb w (\<lambda>clock db. case f clock (db_leases db) of (rows, ok) \<Rightarrow> Inr (ok, db\<lparr>db_leases := rows\<rparr>))"

primrec eachAct :: "('a \<Rightarrow> unit act) \<Rightarrow> 'a list \<Rightarrow> unit act" where
  "eachAct f [] = giving ()"
| "eachAct f (x # xs) = andThen (f x) (\<lambda>_. eachAct f xs)"

section \<open>Keys and transactions\<close>

definition at_block :: "block \<Rightarrow> position" where
  "at_block b = \<lparr>pos_height = bl_height b, pos_hash = bl_hash b, pos_time = bl_time b\<rparr>"

definition scanKeys :: "consumed list \<Rightarrow> string list" where
  "scanKeys cs = rev (remdups (rev (map con_key cs)))"

fun transactionsLoop :: "(string \<Rightarrow> bool) \<Rightarrow> string set \<Rightarrow> string set \<Rightarrow> consumed list \<Rightarrow> string list" where
  "transactionsLoop held spent read [] = []"
| "transactionsLoop held spent read (one # rest) =
     (if \<not> held (con_key one) \<or> con_key one \<in> spent then transactionsLoop held spent read rest
      else if con_tx one \<in> read then transactionsLoop held (insert (con_key one) spent) read rest
      else con_tx one # transactionsLoop held (insert (con_key one) spent) (insert (con_tx one) read) rest)"

definition transactions :: "consumed list \<Rightarrow> (string \<Rightarrow> hit option) \<Rightarrow> (string \<Rightarrow> refund_hit option) \<Rightarrow> string list" where
  "transactions cs against back = transactionsLoop (\<lambda>k. against k \<noteq> None \<or> back k \<noteq> None) {} {} cs"

definition transferred :: "chain_transfer \<Rightarrow> transfer" where
  "transferred t =
     \<lparr>tr_scheme = ct_scheme t, tr_asset = ct_asset t, tr_key = ct_key t, tr_authorizer = ct_authorizer t,
      tr_from = ct_from t, tr_to = ct_to t, tr_value = ct_value t, tr_tx = ct_tx t, tr_position = ct_position t,
      tr_blockHeight = bl_height (ct_block t), tr_blockHash = bl_hash (ct_block t), tr_blockTime = bl_time (ct_block t)\<rparr>"

definition references :: "network \<Rightarrow> string list" where
  "references n = sort (map (\<lambda>(_, a). as_reference a) (nw_assets n))"

text \<open>
  Whom a key is held by: the last attempt of a key, and a refund of a key unless an attempt holds it too,
  which takes the key out of both.
\<close>

definition heldByAttempt :: "hit list \<Rightarrow> string \<Rightarrow> hit option" where
  "heldByAttempt hits = map_of (rev (map (\<lambda>h. (att_key (hit_attempt h), h)) hits))"

fun heldBy :: "(string \<Rightarrow> hit option) \<Rightarrow> (string \<Rightarrow> refund_hit option) \<Rightarrow> refund_hit list
    \<Rightarrow> (string \<Rightarrow> hit option) \<times> (string \<Rightarrow> refund_hit option)" where
  "heldBy against back [] = (against, back)"
| "heldBy against back (h # hs) =
     (let key = ref_key (rhit_refund h) in
      if against key \<noteq> None then heldBy (against(key := None)) back hs
      else heldBy against (back(key \<mapsto> h)) hs)"

section \<open>The parts of a round\<close>

definition keep :: "around \<Rightarrow> network \<Rightarrow> unit act" where
  "keep w n =
     andThen (askNow w) (\<lambda>now.
     andThen (reading rd_held) (\<lambda>since.
       if subTime now since < LeaseTTL - RenewBelow then giving ()
       else
         andThen (leaseDb w (\<lambda>clock rows. Renew (ar_holder w) clock rows (nw_name n))) (\<lambda>held.
           if \<not> held then failing LeaseLost
           else andThen (askNow w) (\<lambda>now. changing (\<lambda>o1. o1\<lparr>rd_held := now\<rparr>)))))"

text \<open>What a failed call to the chain makes of the word, before the failure goes on.\<close>

definition orElseSay :: "'a act \<Rightarrow> (chain_error \<Rightarrow> net_word) \<Rightarrow> 'a act" where
  "orElseSay m word = (\<lambda>t. case m t of
       (Inl (ChainSaid e), t') \<Rightarrow> (Inl (ChainSaid e), t'\<lparr>tn_reader := observer_says (word e) (tn_reader t')\<rparr>)
     | res \<Rightarrow> res)"

definition headWord :: "chain_error \<Rightarrow> net_word" where
  "headWord e = (if e = ErrNoFinal then NoFinalized else NetUnreachable)"

definition identify :: "around \<Rightarrow> network \<Rightarrow> unit act" where
  "identify w n =
     andThen (askNow w) (\<lambda>now.
     andThen (reading rd_identified) (\<lambda>was.
       if subTime now was < ReadImplementationEvery then giving ()
       else
         andThen (orElseSay (askChain w ch_Identity) (\<lambda>_. NetUnreachable)) (\<lambda>identity.
         andThen (askNow w) (\<lambda>now.
         andThen (changing (\<lambda>o1. o1\<lparr>rd_identified := now\<rparr>)) (\<lambda>_.
           if nw_want n \<noteq> [] \<and> identity \<noteq> nw_want n
           then andThen (changing (observer_says ChainMismatch)) (\<lambda>_. failing (CallsItself identity (nw_want n)))
           else giving ())))))"

definition chain_standing :: "around \<Rightarrow> network \<Rightarrow> head act" where
  "chain_standing w n =
     andThen (keep w n) (\<lambda>_.
     andThen (identify w n) (\<lambda>_.
       orElseSay (askChain w ch_Head) headWord))"

definition holdsBlock :: "around \<Rightarrow> network \<Rightarrow> position \<Rightarrow> block \<Rightarrow> bool act" where
  "holdsBlock w n from final =
     (if bl_height final = pos_height from then giving (bl_hash final = pos_hash from)
      else if bl_height final = pos_height from + 1 then giving (bl_parent final = pos_hash from)
      else andThen (keep w n) (\<lambda>_.
           andThen (askChain w (\<lambda>c. ch_Block c (pos_height from))) (\<lambda>b.
             giving (bl_hash b = pos_hash from))))"

text \<open>\<open>behind\<close>: the code behind an asset, read once for the round that carries the map.\<close>

definition behindAsset :: "around \<Rightarrow> string \<Rightarrow> (string \<Rightarrow> string option) \<Rightarrow> (string \<times> (string \<Rightarrow> string option)) act" where
  "behindAsset w asset read =
     (case read asset of
        Some code \<Rightarrow> giving (code, read)
      | None \<Rightarrow> andThen (askChain w (\<lambda>c. ch_Implementation c asset)) (\<lambda>code. giving (code, read(asset \<mapsto> code))))"

record found =
  fo_seen :: "seen list"
  fo_sent :: "seen_refund list"
  fo_behind :: "string \<Rightarrow> string option"

text \<open>One transfer of a receipt.\<close>

definition judgeOne ::
  "around \<Rightarrow> (string \<Rightarrow> hit option) \<Rightarrow> (string \<Rightarrow> refund_hit option) \<Rightarrow> chain_transfer \<Rightarrow> found \<Rightarrow> found act" where
  "judgeOne w against back carried f =
     (let t = transferred carried in
      case against (ct_key carried) of
        Some hit \<Rightarrow>
          (case Judge t (Some (hit_attempt hit)) (Some (hit_payment hit)) of
             None \<Rightarrow> giving f
           | Some reason \<Rightarrow>
               andThen (behindAsset w (ct_asset carried) (fo_behind f)) (\<lambda>(code, read).
                 giving (f\<lparr>fo_seen := fo_seen f @ [\<lparr>seen_hit = hit, seen_transfer = t, seen_reason = reason,
                              seen_implementation = code\<rparr>], fo_behind := read\<rparr>)))
      | None \<Rightarrow>
     (case back (ct_key carried) of
        Some hit \<Rightarrow>
          (case JudgeRefund t (Some (rhit_refund hit)) (Some (rhit_payment hit)) of
             None \<Rightarrow> giving f
           | Some reason \<Rightarrow>
               andThen (behindAsset w (ct_asset carried) (fo_behind f)) (\<lambda>(code, read).
                 giving (f\<lparr>fo_sent := fo_sent f @ [\<lparr>sref_hit = hit, sref_transfer = t, sref_reason = reason,
                              sref_implementation = code\<rparr>], fo_behind := read\<rparr>)))
      | None \<Rightarrow> giving f))"

primrec foldAct :: "('a \<Rightarrow> 's \<Rightarrow> 's act) \<Rightarrow> 'a list \<Rightarrow> 's \<Rightarrow> 's act" where
  "foldAct f [] s = giving s"
| "foldAct f (x # xs) s = andThen (f x s) (foldAct f xs)"

definition receiptOf ::
  "around \<Rightarrow> network \<Rightarrow> (string \<Rightarrow> hit option) \<Rightarrow> (string \<Rightarrow> refund_hit option) \<Rightarrow> string \<Rightarrow> found \<Rightarrow> found act" where
  "receiptOf w n against back tx f =
     andThen (keep w n) (\<lambda>_.
     andThen (askChain w (\<lambda>c. ch_Receipt c tx)) (\<lambda>transfers.
       foldAct (judgeOne w against back) transfers f))"

definition nothingFound :: "(string \<Rightarrow> string option) \<Rightarrow> found" where
  "nothingFound behind = \<lparr>fo_seen = [], fo_sent = [], fo_behind = behind\<rparr>"

definition seenIn :: "around \<Rightarrow> network \<Rightarrow> uint64 \<Rightarrow> uint64 \<Rightarrow> (string \<Rightarrow> string option) \<Rightarrow> found act" where
  "seenIn w n first upTo behind =
     andThen (keep w n) (\<lambda>_.
     andThen (askChain w (\<lambda>c. ch_Keys c first upTo (references n))) (\<lambda>sc.
     andThen (changing (replaced (sc_changed sc))) (\<lambda>_.
       if sc_consumed sc = [] then giving (nothingFound behind)
       else
         andThen (readDb w (\<lambda>db. Consumed db (nw_name n) (scanKeys (sc_consumed sc)))) (\<lambda>hits.
         andThen (readDb w (\<lambda>db. RefundsConsumed db (nw_name n) (scanKeys (sc_consumed sc)))) (\<lambda>refunds.
           case heldBy (heldByAttempt hits) Map.empty refunds of
             (against, back) \<Rightarrow>
               foldAct (receiptOf w n against back) (transactions (sc_consumed sc) against back) (nothingFound behind))))))"

section \<open>A round\<close>

text \<open>\<open>at\<close>: the position a range read to.\<close>

definition readTo :: "around \<Rightarrow> network \<Rightarrow> uint64 \<Rightarrow> block \<Rightarrow> position act" where
  "readTo w n upTo final =
     (if upTo = bl_height final then giving (at_block final)
      else andThen (keep w n) (\<lambda>_.
           andThen (askChain w (\<lambda>c. ch_Block c upTo)) (\<lambda>b. giving (at_block b))))"

definition writeRange :: "around \<Rightarrow> network \<Rightarrow> uint64 \<Rightarrow> uint64 \<Rightarrow> position \<Rightarrow> position \<Rightarrow> found \<Rightarrow> unit act" where
  "writeRange w n first upTo from to f =
     andThen (askNow w) (\<lambda>now.
       writeDb w (\<lambda>clock db.
         bindE (Record (ar_numeric w) clock db (nw_name n) first upTo True (fo_seen f) (fo_sent f) now) (\<lambda>db1.
           Advance db1 (nw_name n) from to now)))"

definition settledRange :: "around \<Rightarrow> network \<Rightarrow> position \<Rightarrow> block \<Rightarrow> (string \<Rightarrow> string option) \<Rightarrow> (string \<Rightarrow> string option) act" where
  "settledRange w n from final behind =
     andThen (reading blocks) (\<lambda>width.
       let first = pos_height from + 1; reach = pos_height from + width;
           upTo = (if bl_height final > reach then reach else bl_height final) in
       andThen (seenIn w n first upTo behind) (\<lambda>f.
       andThen (readTo w n upTo final) (\<lambda>to.
       andThen (writeRange w n first upTo from to f) (\<lambda>_. giving (fo_behind f)))))"

definition stood :: "around \<Rightarrow> network \<Rightarrow> position \<Rightarrow> unit act" where
  "stood w n from =
     andThen (askNow w) (\<lambda>now. writeDb w (\<lambda>_ db. Advance db (nw_name n) from from now))"

definition ahead :: "around \<Rightarrow> network \<Rightarrow> head \<Rightarrow> (string \<Rightarrow> string option) \<Rightarrow> unit act" where
  "ahead w n seat behind =
     (let final = bl_height (hd_final seat); upTo = bl_height (hd_latest seat) in
      if upTo \<le> final then giving ()
      else
        andThen (reading blocks) (\<lambda>width.
          let first = (if upTo - (final + 1) + 1 > width then upTo - width + 1 else final + 1) in
          andThen (seenIn w n first upTo behind) (\<lambda>f.
            if fo_seen f = [] \<and> fo_sent f = [] then giving ()
            else andThen (askNow w) (\<lambda>now.
                 writeDb w (\<lambda>clock db.
                   Record (ar_numeric w) clock db (nw_name n) first upTo False (fo_seen f) (fo_sent f) now)))))"

text \<open>A failure ahead of finality is written to the log, and the round goes on.\<close>

definition forgiven :: "unit act \<Rightarrow> unit act" where
  "forgiven m = (\<lambda>t. (Inr (), snd (m t)))"

definition tick :: "around \<Rightarrow> network \<Rightarrow> unit act" where
  "tick w n =
     andThen (reading blocks) (\<lambda>width.
     if width = 0 then andThen (reading rd_width) (\<lambda>x. failing (ReadsNoBlocks x))
     else
     andThen (chain_standing w n) (\<lambda>seat.
     andThen (readDb w (\<lambda>db. Get db (nw_name n))) (\<lambda>place.
       case place of
         None \<Rightarrow>
           andThen (changing (observer_says NoCursor)) (\<lambda>_.
           andThen (askNow w) (\<lambda>now.
             writeDb w (\<lambda>_ db. Init db (nw_name n) (at_block (hd_final seat)) now)))
       | Some from \<Rightarrow>
           if bl_height (hd_final seat) < pos_height from then changing (observer_says FinalizedBehind)
           else
             andThen (holdsBlock w n from (hd_final seat)) (\<lambda>held.
               if \<not> held then changing (observer_says FinalizedChanged)
               else
                 andThen (if bl_height (hd_final seat) > pos_height from
                          then settledRange w n from (hd_final seat) Map.empty
                          else andThen (stood w n from) (\<lambda>_. giving Map.empty)) (\<lambda>behind.
                 andThen (askNow w) (\<lambda>now.
                 andThen (changing (went now)) (\<lambda>_.
                   forgiven (ahead w n seat behind))))))))"


section \<open>Looking behind the assets\<close>

text \<open>
  \<open>upgraded\<close> goes through a map, in whatever order it comes, and stops at the first asset that cannot be
  read; \<open>stopped\<close> goes through the names in order, and on past a failure.
\<close>

definition upgradedOne :: "around \<Rightarrow> network \<Rightarrow> string \<times> asset \<Rightarrow> unit act" where
  "upgradedOne w n na =
     (case na of (name, a) \<Rightarrow>
        andThen (keep w n) (\<lambda>_.
        andThen (askChain w (\<lambda>c. ch_Implementation c (as_reference a))) (\<lambda>code.
        andThen (reading (\<lambda>o1. rd_started o1 name)) (\<lambda>was.
          if was \<noteq> None \<and> was \<noteq> Some code then changing (replaced [as_reference a]) else giving ()))))"

definition upgraded :: "around \<Rightarrow> network \<Rightarrow> unit act" where
  "upgraded w n = forgiven (\<lambda>t. eachAct (upgradedOne w n) (ar_order w (tn_calls t) (nw_assets n)) t)"

definition flagged :: "string \<Rightarrow> (bool \<times> gotime) option \<Rightarrow> reader \<Rightarrow> reader" where
  "flagged name f o1 = o1\<lparr>rd_paused := (rd_paused o1)(name := f)\<rparr>"

definition stoppedOne :: "around \<Rightarrow> network \<Rightarrow> string \<times> asset \<Rightarrow> unit act" where
  "stoppedOne w n na =
     (case na of (name, a) \<Rightarrow>
        andThen (keep w n) (\<lambda>_ t.
          case askChain w (\<lambda>c. ch_Paused c (as_reference a)) t of
            (Inl _, t1) \<Rightarrow> changing (flagged name None) t1
          | (Inr value, t1) \<Rightarrow> andThen (askNow w) (\<lambda>now. changing (flagged name (Some (value, now)))) t1))"

definition stopped_flags :: "around \<Rightarrow> network \<Rightarrow> unit act" where
  "stopped_flags w n = forgiven (eachAct (stoppedOne w n) (sort_key fst (nw_assets n)))"

definition looking :: "around \<Rightarrow> network \<Rightarrow> unit act" where
  "looking w n =
     andThen (askNow w) (\<lambda>now.
     andThen (reading rd_looked) (\<lambda>was.
       if subTime now was < ReadImplementationEvery then giving ()
       else
         andThen (askNow w) (\<lambda>now.
         andThen (changing (\<lambda>o1. o1\<lparr>rd_looked := now\<rparr>)) (\<lambda>_.
         andThen (upgraded w n) (\<lambda>_. stopped_flags w n)))))"

section \<open>One turn, and the start\<close>

definition waiting :: "around \<Rightarrow> network \<Rightarrow> unit act" where
  "waiting w n = forgiven
     (andThen (readDb w (\<lambda>db. Inr (Touched db (nw_name n)))) (\<lambda>touched.
        case touched of
          None \<Rightarrow> changing (observer_says NoCursor)
        | Some at \<Rightarrow>
            andThen (askNow w) (\<lambda>now.
              changing (observer_says (if subTime now at > Stale then NetStalled else Observing)))))"

definition caught :: "unit act \<Rightarrow> observe_error option act" where
  "caught m = (\<lambda>t. case m t of (Inl e, t1) \<Rightarrow> (Inr (Some e), t1) | (Inr _, t1) \<Rightarrow> (Inr None, t1))"

definition observer_round :: "around \<Rightarrow> network \<Rightarrow> unit act" where
  "observer_round w n = forgiven
     (andThen (leaseDb w (\<lambda>clock rows. Acquire (ar_holder w) clock rows (nw_name n))) (\<lambda>held.
        if \<not> held then waiting w n
        else
          andThen (askNow w) (\<lambda>now.
          andThen (changing (\<lambda>o1. o1\<lparr>rd_held := now\<rparr>)) (\<lambda>_.
          andThen (caught (tick w n)) (\<lambda>err.
          andThen (if err = None then giving () else andThen (askNow w) (\<lambda>now. changing (stalling now))) (\<lambda>_.
          andThen (changing (after n err)) (\<lambda>_.
            if err = None then looking w n else giving ())))))))"

record report =
  rp_identity :: string
  rp_head :: head
  rp_position :: "position option"
  rp_behind :: "string \<Rightarrow> string option"
  rp_paused :: "string \<Rightarrow> bool option"

definition probeAsset :: "around \<Rightarrow> string \<times> asset \<Rightarrow> report \<Rightarrow> report act" where
  "probeAsset w na r =
     (case na of (name, a) \<Rightarrow>
        andThen (askChain w (\<lambda>c. ch_Implementation c (as_reference a))) (\<lambda>code t.
          let r1 = r\<lparr>rp_behind := (rp_behind r)(name \<mapsto> code)\<rparr> in
          case askChain w (\<lambda>c. ch_Paused c (as_reference a)) t of
            (Inl _, t1) \<Rightarrow> (Inr r1, t1)
          | (Inr value, t1) \<Rightarrow> (Inr (r1\<lparr>rp_paused := (rp_paused r1)(name \<mapsto> value)\<rparr>), t1)))"

definition Probe :: "around \<Rightarrow> network \<Rightarrow> bool \<Rightarrow> report act" where
  "Probe w n cursors =
     andThen (askChain w ch_Identity) (\<lambda>identity.
     andThen (askChain w ch_Head) (\<lambda>seat.
     andThen (if cursors then readDb w (\<lambda>db. Get db (nw_name n)) else giving None) (\<lambda>place t.
       foldAct (probeAsset w) (ar_order w (tn_calls t) (nw_assets n))
         \<lparr>rp_identity = identity, rp_head = seat, rp_position = place, rp_behind = Map.empty, rp_paused = Map.empty\<rparr> t)))"

definition begun :: "network \<Rightarrow> gotime \<Rightarrow> gotime \<Rightarrow> gotime \<Rightarrow> report \<Rightarrow> reader \<Rightarrow> reader" where
  "begun n identified looked read r o1 =
     observer_says (if nw_want n \<noteq> [] \<and> rp_identity r \<noteq> nw_want n then ChainMismatch else NoCursor)
       (o1\<lparr>rd_identified := identified, rd_looked := looked, rd_started := rp_behind r,
           rd_paused := (\<lambda>name. case rp_paused r name of Some v \<Rightarrow> Some (v, read) | None \<Rightarrow> rd_paused o1 name)\<rparr>)"

definition start_reading :: "around \<Rightarrow> network \<Rightarrow> unit act" where
  "start_reading w n = (\<lambda>t.
     case Probe w n True t of
       (Inl e, t1) \<Rightarrow>
         changing (observer_says (if e = ChainSaid ErrNoFinal then NoFinalized else NetUnreachable)) t1
     | (Inr r, t1) \<Rightarrow>
         andThen (askNow w) (\<lambda>a. andThen (askNow w) (\<lambda>b. andThen (askNow w) (\<lambda>c. changing (begun n a b c r)))) t1)"

text \<open>\<open>Run\<close>, for as many rounds as the context lets it, and the lease put down on the way out.\<close>

primrec rounds :: "around \<Rightarrow> network \<Rightarrow> nat \<Rightarrow> unit act" where
  "rounds w n 0 = giving ()"
| "rounds w n (Suc k) = andThen (observer_round w n) (\<lambda>_. rounds w n k)"

definition observer_Run :: "around \<Rightarrow> network \<Rightarrow> nat \<Rightarrow> unit act" where
  "observer_Run w n k =
     andThen (start_reading w n) (\<lambda>_.
     andThen (rounds w n k) (\<lambda>_.
       forgiven (andThen (leaseDb w (\<lambda>clock rows. Release (ar_holder w) clock rows (nw_name n))) (\<lambda>_. giving ()))))"

end
