(* ===== verification/Observing.thy ===== *)
theory Observing
  imports Reading
begin

text \<open>
  What an observer leaves: every turn of it is a run of the world's steps, whatever the chain answers and
  whatever others do between two of its calls.
\<close>

section \<open>What a call keeps\<close>

definition triple :: "(turn \<Rightarrow> bool) \<Rightarrow> 'a act \<Rightarrow> ('a \<Rightarrow> turn \<Rightarrow> bool) \<Rightarrow> (turn \<Rightarrow> bool) \<Rightarrow> bool" where
  "triple P m Q E = (\<forall>t. P t \<longrightarrow> (\<forall>e t'. m t = (Inl e, t') \<longrightarrow> E t') \<and> (\<forall>a t'. m t = (Inr a, t') \<longrightarrow> Q a t'))"

lemma triple_giving: "(\<And>t. P t \<Longrightarrow> Q a t) \<Longrightarrow> triple P (giving a) Q E"
  by (simp add: triple_def giving_def)

lemma triple_andThen: "triple P m Q E \<Longrightarrow> (\<And>a. triple (Q a) (f a) R E) \<Longrightarrow> triple P (andThen m f) R E"
  unfolding triple_def andThen_def by (auto split: prod.splits sum.splits)

lemma triple_pre: "triple P m Q E \<Longrightarrow> (\<And>t. P' t \<Longrightarrow> P t) \<Longrightarrow> triple P' m Q E"
  unfolding triple_def by blast

lemma triple_post: "triple P m Q E \<Longrightarrow> (\<And>a t. Q a t \<Longrightarrow> Q' a t) \<Longrightarrow> (\<And>t. E t \<Longrightarrow> E' t) \<Longrightarrow> triple P m Q' E'"
  unfolding triple_def by blast

lemma triple_at: "(\<And>x. triple P (f x) Q E) \<Longrightarrow> triple P (\<lambda>t. f (g t) t) Q E"
  unfolding triple_def by blast

definition keeps :: "(turn \<Rightarrow> bool) \<Rightarrow> 'a act \<Rightarrow> bool" where
  "keeps I m = (\<forall>t. I t \<longrightarrow> I (snd (m t)))"

lemma triple_keeps: "triple P m (\<lambda>_. P) P \<longleftrightarrow> keeps P m"
proof -
  have "(\<forall>e t'. m t = (Inl e, t') \<longrightarrow> P t') \<and> (\<forall>a t'. m t = (Inr a, t') \<longrightarrow> P t') \<longleftrightarrow> P (snd (m t))" for t
    by (cases "m t"; cases "fst (m t)") auto
  then show ?thesis unfolding triple_def keeps_def by blast
qed

named_theorems keeping

lemma keeps_giving [keeping]: "keeps I (giving a)"
  by (simp add: keeps_def giving_def)

lemma keeps_failing [keeping]: "keeps I (failing e)"
  by (simp add: keeps_def failing_def)

lemma keeps_andThen [keeping]: "keeps I m \<Longrightarrow> (\<And>a. keeps I (f a)) \<Longrightarrow> keeps I (andThen m f)"
  unfolding triple_keeps [symmetric] by (rule triple_andThen)

lemma keeps_if [keeping]: "(b \<Longrightarrow> keeps I m) \<Longrightarrow> (\<not> b \<Longrightarrow> keeps I m') \<Longrightarrow> keeps I (if b then m else m')"
  by simp

lemma keeps_option [keeping]:
  "(x = None \<Longrightarrow> keeps I m) \<Longrightarrow> (\<And>y. x = Some y \<Longrightarrow> keeps I (f y)) \<Longrightarrow> keeps I (case x of None \<Rightarrow> m | Some y \<Rightarrow> f y)"
  by (cases x) auto

lemma keeps_reading [keeping]: "keeps I (reading f)"
  by (simp add: keeps_def reading_def)

lemma keeps_forgiven [keeping]: "keeps I m \<Longrightarrow> keeps I (forgiven m)"
  by (simp add: keeps_def forgiven_def)

lemma caught_snd: "snd (caught m t) = snd (m t)"
  by (simp add: caught_def split: prod.split sum.split)

lemma keeps_caught [keeping]: "keeps I m \<Longrightarrow> keeps I (caught m)"
  by (simp add: keeps_def caught_snd)

lemma keeps_eachAct [keeping]: "(\<And>x. keeps I (f x)) \<Longrightarrow> keeps I (eachAct f xs)"
  by (induction xs) (auto intro: keeping)

lemma keeps_foldAct [keeping]: "(\<And>x s. keeps I (f x s)) \<Longrightarrow> keeps I (foldAct f xs s)"
  by (induction xs arbitrary: s) (auto intro: keeping)

lemma keeps_at: "(\<And>x. keeps I (f x)) \<Longrightarrow> keeps I (\<lambda>t. f (g t) t)"
  by (simp add: keeps_def)

text \<open>An invariant of the database alone is kept by what touches only the reader.\<close>

definition dbKept :: "(db \<Rightarrow> bool) \<Rightarrow> turn \<Rightarrow> bool" where
  "dbKept I t = I (tn_db t)"

lemma keeps_changing [keeping]: "keeps (dbKept I) (changing f)"
  by (simp add: keeps_def changing_def dbKept_def)

lemma keeps_askNow [keeping]: "keeps (dbKept I) (askNow w)"
  by (simp add: keeps_def askNow_def dbKept_def)

lemma keeps_askChain [keeping]: "keeps (dbKept I) (askChain w f)"
  by (simp add: keeps_def askChain_def dbKept_def)

lemma orElseSay_db: "tn_db (snd (orElseSay m word t)) = tn_db (snd (m t))"
  by (simp add: orElseSay_def split: prod.split sum.split observe_error.split)

lemma keeps_orElseSay [keeping]: "keeps (dbKept I) m \<Longrightarrow> keeps (dbKept I) (orElseSay m word)"
  by (simp add: keeps_def dbKept_def orElseSay_db)

definition undisturbed :: "(db \<Rightarrow> bool) \<Rightarrow> around \<Rightarrow> bool" where
  "undisturbed I w = (\<forall>k db. I db \<longrightarrow> I (ar_others w k db))"

lemma triple_onDb:
  assumes "undisturbed I w" "\<And>clock db a db'. I db \<Longrightarrow> f clock db = Inr (a, db') \<Longrightarrow> J a db'"
  shows "triple (dbKept I) (onDb w f) (\<lambda>a. dbKept (J a)) (dbKept I)"
proof -
  have "I (ar_others w k db)" if "I db" for k db using assms(1) that by (simp add: undisturbed_def)
  then show ?thesis
    by (auto simp: triple_def onDb_def Let_def dbKept_def split: option.splits sum.splits dest!: assms(2) [rotated])
qed

lemma triple_readDb:
  assumes "undisturbed I w" "\<And>db a. I db \<Longrightarrow> f db = Inr a \<Longrightarrow> J a db"
  shows "triple (dbKept I) (readDb w f) (\<lambda>a. dbKept (J a)) (dbKept I)"
  unfolding readDb_def by (rule triple_onDb [OF assms(1)]) (use assms(2) in \<open>auto simp: res_simps\<close>)

lemma keeps_readDb [keeping]: "undisturbed I w \<Longrightarrow> keeps (dbKept I) (readDb w f)"
  unfolding triple_keeps [symmetric] by (rule triple_readDb)

lemma keeps_writeDb [keeping]:
  assumes "undisturbed I w" "\<And>clock db db'. I db \<Longrightarrow> f clock db = Inr db' \<Longrightarrow> I db'"
  shows "keeps (dbKept I) (writeDb w f)"
  unfolding triple_keeps [symmetric] writeDb_def by (rule triple_onDb [OF assms(1)]) (use assms(2) in \<open>auto simp: res_simps\<close>)

lemma keeps_leaseDb [keeping]:
  assumes "undisturbed I w" "\<And>clock db. I db \<Longrightarrow> I (db\<lparr>db_leases := fst (f clock (db_leases db))\<rparr>)"
  shows "keeps (dbKept I) (leaseDb w f)"
  unfolding triple_keeps [symmetric] leaseDb_def
proof (rule triple_onDb [OF assms(1)])
  fix clock db a db'
  assume "I db" "(case f clock (db_leases db) of (rows, ok) \<Rightarrow> Inr (ok, db\<lparr>db_leases := rows\<rparr>)) = Inr (a, db')"
  then show "I db'" using assms(2) [of db clock] by (auto split: prod.splits)
qed


section \<open>The contract of a reader\<close>

text \<open>
  What keeps a predicate of the database, under a set of copies of attempts that are held: looking keys up
  holds what it found, and a round written from held copies, a position and a lease keep it.
\<close>

definition copiesOf :: "hit list \<Rightarrow> (string \<times> attempt \<times> revision) set" where
  "copiesOf hits = (\<lambda>h. (hit_account h, hit_attempt h, hit_attemptAt h)) ` set hits"

locale reader_contract =
  fixes held :: "(string \<times> attempt \<times> revision) set \<Rightarrow> db \<Rightarrow> bool"
  assumes fewer: "held A db \<Longrightarrow> B \<subseteq> A \<Longrightarrow> held B db"
    and looked_up: "held A db \<Longrightarrow> Consumed db network keys = Inr hits \<Longrightarrow> held (A \<union> copiesOf hits) db"
    and recorded: "held A db \<Longrightarrow> copiesOf (map seen_hit seen) \<subseteq> A \<Longrightarrow>
      Record numeric clock db network lo hi final seen sent now = Inr db' \<Longrightarrow> held A db'"
    and placed: "held A db \<Longrightarrow> Init db network to now = Inr db' \<Longrightarrow> held A db'"
    and moved: "held A db \<Longrightarrow> Advance db network from to now = Inr db' \<Longrightarrow> held A db'"
    and leased: "held A db \<Longrightarrow> held A (db\<lparr>db_leases := fst (leaseCall c (db_leases db))\<rparr>)"
begin

definition calm :: "around \<Rightarrow> bool" where
  "calm w = (\<forall>A. undisturbed (held A) w)"

lemma calm_undisturbed: "calm w \<Longrightarrow> undisturbed (held A) w"
  by (simp add: calm_def)

lemma keeps_leases:
  assumes "calm w"
  shows "keeps (dbKept (held A)) (leaseDb w (\<lambda>clock rows. Renew h clock rows name))"
    and "keeps (dbKept (held A)) (leaseDb w (\<lambda>clock rows. Acquire h clock rows name))"
    and "keeps (dbKept (held A)) (leaseDb w (\<lambda>clock rows. Release h clock rows name))"
  using leased [where c = "CallRenew h clock name" for clock] leased [where c = "CallAcquire h clock name" for clock]
    leased [where c = "CallRelease h clock name" for clock]
  by (simp_all add: keeps_leaseDb [OF calm_undisturbed [OF assms]])

lemma keeps_keep: "calm w \<Longrightarrow> keeps (dbKept (held A)) (keep w n)"
  unfolding keep_def by (intro keeping keeps_leases)

lemmas parts = keeping keeps_keep calm_undisturbed

lemma keeps_chain_standing: "calm w \<Longrightarrow> keeps (dbKept (held A)) (chain_standing w n)"
  unfolding chain_standing_def identify_def by (intro parts)

lemma keeps_holdsBlock: "calm w \<Longrightarrow> keeps (dbKept (held A)) (holdsBlock w n from final)"
  unfolding holdsBlock_def by (intro parts)

lemma keeps_readTo: "calm w \<Longrightarrow> keeps (dbKept (held A)) (readTo w n upTo final)"
  unfolding readTo_def by (intro parts)

lemma keeps_behindAsset: "keeps (dbKept I) (behindAsset w asset read)"
  unfolding behindAsset_def by (auto split: option.split intro: keeping)

text \<open>What is found was found for held copies.\<close>

lemma foldAct_triple:
  assumes "\<And>x s. P s \<Longrightarrow> triple I (f x s) (\<lambda>s' t. I t \<and> P s') I" "P s"
  shows "triple I (foldAct f xs s) (\<lambda>s' t. I t \<and> P s') I"
  using assms(2)
proof (induction xs arbitrary: s)
  case (Cons x xs)
  show ?case unfolding foldAct.simps
  proof (rule triple_andThen [OF assms(1) [OF Cons.prems]])
    fix s'
    show "triple (\<lambda>t. I t \<and> P s') (foldAct f xs s') (\<lambda>s' t. I t \<and> P s') I"
    proof (cases "P s'")
      case True
      show ?thesis by (rule triple_pre [OF Cons.IH [OF True]]) simp
    qed (simp add: triple_def)
  qed
qed (simp add: triple_def giving_def)

definition foundFor :: "(string \<times> attempt \<times> revision) set \<Rightarrow> found \<Rightarrow> bool" where
  "foundFor A f = (copiesOf (map seen_hit (fo_seen f)) \<subseteq> A)"

lemma judgeOne_triple:
  assumes "\<And>k h. against k = Some h \<Longrightarrow> (hit_account h, hit_attempt h, hit_attemptAt h) \<in> A" "foundFor A f"
  shows "triple (dbKept I) (judgeOne w against back carried f) (\<lambda>f' t. dbKept I t \<and> foundFor A f') (dbKept I)"
proof -
  have k: "triple (dbKept I) (behindAsset w asset read) (\<lambda>_. dbKept I) (dbKept I)" for asset read
    unfolding triple_keeps by (rule keeps_behindAsset)
  have s: "foundFor A (f\<lparr>fo_seen := fo_seen f @ [\<lparr>seen_hit = h, seen_transfer = x, seen_reason = y, seen_implementation = z\<rparr>], fo_behind := v\<rparr>)"
    if "against k = Some h" for h k x y z v
    using assms(1) [OF that] assms(2) by (simp add: foundFor_def copiesOf_def)
  have r: "foundFor A (f\<lparr>fo_sent := xs, fo_behind := v\<rparr>)" for xs v using assms(2) by (simp add: foundFor_def)
  show ?thesis
  proof (cases "against (ct_key carried)")
    case None
    then show ?thesis
      using assms(2) r by (auto simp: judgeOne_def Let_def split: option.split intro!: triple_giving triple_andThen [OF k])
  next
    case (Some h)
    then show ?thesis
      using assms(2) s [OF Some] by (auto simp: judgeOne_def Let_def split: option.split intro!: triple_giving triple_andThen [OF k])
  qed
qed

lemma receiptOf_triple:
  assumes "\<And>k h. against k = Some h \<Longrightarrow> (hit_account h, hit_attempt h, hit_attemptAt h) \<in> A" "foundFor A f" "calm w"
  shows "triple (dbKept (held B)) (receiptOf w n against back tx f) (\<lambda>f' t. dbKept (held B) t \<and> foundFor A f') (dbKept (held B))"
proof -
  have k: "triple (dbKept (held B)) (keep w n) (\<lambda>_. dbKept (held B)) (dbKept (held B))"
    unfolding triple_keeps by (rule keeps_keep [OF assms(3)])
  have c: "triple (dbKept (held B)) (askChain w g) (\<lambda>_. dbKept (held B)) (dbKept (held B))" for g
    unfolding triple_keeps by (rule keeps_askChain)
  show ?thesis unfolding receiptOf_def
    by (intro triple_andThen [OF k] triple_andThen [OF c] foldAct_triple judgeOne_triple) (use assms(1,2) in auto)
qed

lemma heldBy_fewer: "heldBy against bk hs = (against', bk') \<Longrightarrow> against' k = Some h \<Longrightarrow> against k = Some h"
proof (induction hs arbitrary: against bk)
  case (Cons x hs)
  let ?key = "ref_key (rhit_refund x)"
  show ?case
  proof (cases "against ?key = None")
    case False
    then have "(against(?key := None)) k = Some h" using Cons by (simp add: Let_def)
    then show ?thesis by (simp split: if_splits)
  qed (use Cons in \<open>simp add: Let_def\<close>)
qed simp

lemma heldByAttempt_copy: "heldByAttempt hits k = Some h \<Longrightarrow> h \<in> set hits \<and> k = att_key (hit_attempt h)"
  by (auto simp: heldByAttempt_def dest: map_of_SomeD)

lemma seenIn_triple:
  assumes "calm w"
  shows "triple (dbKept (held {})) (seenIn w n first upTo behind) (\<lambda>f. dbKept (held (copiesOf (map seen_hit (fo_seen f))))) (dbKept (held {}))"
proof -
  note calm = calm_undisturbed [OF assms]
  have k: "triple (dbKept (held {})) m (\<lambda>_. dbKept (held {})) (dbKept (held {}))" if "keeps (dbKept (held {})) m" for m :: "'b act"
    using that unfolding triple_keeps .
  have look: "triple (dbKept (held {})) (readDb w (\<lambda>db. Consumed db (nw_name n) keys)) (\<lambda>hits. dbKept (held (copiesOf hits))) (dbKept (held {}))" for keys
    by (rule triple_readDb [OF calm]) (use looked_up in fastforce)
  have rest: "triple (dbKept (held (copiesOf hits)))
      (andThen (readDb w (\<lambda>db. RefundsConsumed db (nw_name n) keys)) (\<lambda>refunds.
         case heldBy (heldByAttempt hits) Map.empty refunds of
           (against, back) \<Rightarrow> foldAct (receiptOf w n against back) (transactions cs against back) (nothingFound behind)))
      (\<lambda>f. dbKept (held (copiesOf (map seen_hit (fo_seen f))))) (dbKept (held {}))" (is "triple ?I _ ?Q ?E") for hits keys cs
  proof (rule triple_andThen [where Q = "\<lambda>_. ?I"])
    show "triple ?I (readDb w (\<lambda>db. RefundsConsumed db (nw_name n) keys)) (\<lambda>_. ?I) ?E"
      by (rule triple_post [OF triple_readDb [OF calm, where J = "\<lambda>_. held (copiesOf hits)"]]) (auto simp: dbKept_def intro: fewer)
  next
    fix refunds
    obtain against bk where hb: "heldBy (heldByAttempt hits) Map.empty refunds = (against, bk)" by fastforce
    have a: "(hit_account h, hit_attempt h, hit_attemptAt h) \<in> copiesOf hits" if "against k = Some h" for k h
      using heldByAttempt_copy [OF heldBy_fewer [OF hb that]] by (force simp: copiesOf_def)
    have "triple ?I (foldAct (receiptOf w n against bk) (transactions cs against bk) (nothingFound behind))
        (\<lambda>f t. ?I t \<and> foundFor (copiesOf hits) f) ?I"
      by (rule foldAct_triple [OF receiptOf_triple]) (use a assms in \<open>auto simp: foundFor_def nothingFound_def copiesOf_def\<close>)
    then show "triple ?I (case heldBy (heldByAttempt hits) Map.empty refunds of
           (against, back) \<Rightarrow> foldAct (receiptOf w n against back) (transactions cs against back) (nothingFound behind)) ?Q ?E"
      unfolding hb prod.case by (rule triple_post) (auto simp: dbKept_def foundFor_def intro: fewer)
  qed
  have n: "triple (dbKept (held {})) (giving (nothingFound behind)) (\<lambda>f. dbKept (held (copiesOf (map seen_hit (fo_seen f))))) (dbKept (held {}))"
    by (simp add: triple_giving nothingFound_def copiesOf_def)
  show ?thesis unfolding seenIn_def
    by (intro triple_andThen [OF k [OF keeps_keep [OF assms]]] triple_andThen [OF k [OF keeps_askChain]]
      triple_andThen [OF k [OF keeps_changing]]) (use n triple_andThen [OF look rest] in auto)
qed

lemma held_some: "held A db \<Longrightarrow> held {} db"
  by (rule fewer) auto

lemma seenIn_then:
  assumes "calm w" "\<And>f :: found. keeps (dbKept (held (copiesOf (map seen_hit (fo_seen f))))) (g f)"
  shows "keeps (dbKept (held {})) (andThen (seenIn w n first upTo behind) g)"
  unfolding triple_keeps [symmetric]
proof (rule triple_andThen [OF seenIn_triple [OF assms(1)]])
  fix f
  show "triple (dbKept (held (copiesOf (map seen_hit (fo_seen f))))) (g f) (\<lambda>_. dbKept (held {})) (dbKept (held {}))"
    by (rule triple_post [OF assms(2) [of f, folded triple_keeps]]) (auto simp: dbKept_def intro: held_some)
qed

lemma writeRange_keeps: "calm w \<Longrightarrow> keeps (dbKept (held (copiesOf (map seen_hit (fo_seen (f :: found)))))) (writeRange w n first upTo from to f)"
  unfolding writeRange_def by (intro keeping calm_undisturbed) (auto simp: res_simps intro: recorded moved)

lemma settledRange_keeps: "calm w \<Longrightarrow> keeps (dbKept (held {})) (settledRange w n from final behind)"
  unfolding settledRange_def Let_def
  by (intro keeps_andThen [OF keeps_reading] seenIn_then keeps_andThen keeps_readTo writeRange_keeps keeps_giving)

lemma ahead_keeps: "calm w \<Longrightarrow> keeps (dbKept (held {})) (ahead w n seat behind)"
  unfolding ahead_def Let_def
  by (intro keeps_if keeps_giving keeps_andThen [OF keeps_reading] seenIn_then keeps_andThen [OF keeps_askNow] keeps_writeDb calm_undisturbed)
    (auto intro: recorded)

lemma stood_keeps: "calm w \<Longrightarrow> keeps (dbKept (held A)) (stood w n from)"
  unfolding stood_def by (intro keeping calm_undisturbed) (auto intro: moved)

lemma init_keeps: "calm w \<Longrightarrow> keeps (dbKept (held A)) (writeDb w (\<lambda>_ db. Init db network to now))"
  by (intro keeping calm_undisturbed) (auto intro: placed)

lemma tick_keeps: "calm w \<Longrightarrow> keeps (dbKept (held {})) (tick w n)"
  unfolding tick_def
  by (intro keeping keeps_chain_standing keeps_holdsBlock settledRange_keeps ahead_keeps stood_keeps init_keeps calm_undisturbed)

lemma keeps_upgradedOne: "calm w \<Longrightarrow> keeps (dbKept (held A)) (upgradedOne w n na)"
  unfolding upgradedOne_def by (cases na) (simp, intro parts)

lemma keeps_stoppedOne: "calm w \<Longrightarrow> keeps (dbKept (held A)) (stoppedOne w n na)"
proof -
  assume c: "calm w"
  have "keeps (dbKept (held A)) (\<lambda>t. case askChain w (\<lambda>c. ch_Paused c r) t of
            (Inl _, t1) \<Rightarrow> changing (flagged name None) t1
          | (Inr value, t1) \<Rightarrow> andThen (askNow w) (\<lambda>now. changing (flagged name (Some (value, now)))) t1)" for r name
    by (simp add: keeps_def dbKept_def askChain_def andThen_def askNow_def changing_def split: sum.split)
  then show ?thesis unfolding stoppedOne_def by (cases na) (auto intro!: keeps_andThen keeps_keep c)
qed

lemma looking_keeps: "calm w \<Longrightarrow> keeps (dbKept (held A)) (looking w n)"
proof -
  assume c: "calm w"
  have up: "keeps (dbKept (held A)) (upgraded w n)"
    unfolding upgraded_def by (rule keeps_forgiven, rule keeps_at, rule keeps_eachAct, rule keeps_upgradedOne [OF c])
  have flags: "keeps (dbKept (held A)) (stopped_flags w n)"
    unfolding stopped_flags_def by (rule keeps_forgiven, rule keeps_eachAct, rule keeps_stoppedOne [OF c])
  show ?thesis unfolding looking_def by (intro keeping up flags)
qed

lemma observer_round_keeps: "calm w \<Longrightarrow> keeps (dbKept (held {})) (observer_round w n)"
  unfolding observer_round_def waiting_def
  by (intro keeping keeps_leases tick_keeps looking_keeps calm_undisturbed)

lemma keeps_probe: "calm w \<Longrightarrow> keeps (dbKept (held A)) (Probe w n cursors)"
proof -
  assume c: "calm w"
  have "keeps (dbKept (held A)) (\<lambda>t. foldAct (probeAsset w) (f t) r t)" for f r
  proof (rule keeps_at, rule keeps_foldAct)
    show "keeps (dbKept (held A)) (probeAsset w na r)" for na r
      by (cases na) (simp add: probeAsset_def keeps_def dbKept_def askChain_def andThen_def Let_def split: sum.split)
  qed
  then show ?thesis unfolding Probe_def by (intro keeps_andThen keeps_askChain keeps_if keeps_readDb keeps_giving calm_undisturbed c)
qed

lemma start_keeps: "calm w \<Longrightarrow> keeps (dbKept (held A)) (start_reading w n)"
proof -
  assume c: "calm w"
  have "dbKept (held A) (snd (Probe w n True t))" if "dbKept (held A) t" for t
    using keeps_probe [OF c, of A n True] that by (simp add: keeps_def)
  moreover have "dbKept I (snd (changing f t)) = dbKept I t"
    "dbKept I (snd (andThen (askNow w) (\<lambda>a. andThen (askNow w) (\<lambda>b. andThen (askNow w) (\<lambda>c. changing (h a b c)))) t)) = dbKept I t" for I f h t
    by (simp_all add: dbKept_def changing_def andThen_def askNow_def)
  ultimately show ?thesis
    by (simp add: keeps_def start_reading_def split: prod.split sum.split) (metis snd_conv)
qed

lemma rounds_keep: "calm w \<Longrightarrow> keeps (dbKept (held {})) (rounds w n k)"
  by (induction k) (auto intro: keeps_giving keeps_andThen observer_round_keeps)

lemma observer_Run_keeps: "calm w \<Longrightarrow> keeps (dbKept (held {})) (observer_Run w n k)"
  unfolding observer_Run_def by (intro keeping start_keeps rounds_keep keeps_leases)

end

section \<open>A turn is a run\<close>

text \<open>What others do between two calls is steps of the world, from whatever world it was.\<close>

definition others_run :: "around \<Rightarrow> bool" where
  "others_run w = (\<forall>k x. reachable x \<longrightarrow> (\<exists>y. step\<^sup>*\<^sup>* x y \<and> w_db y = ar_others w k (w_db x)))"

definition attemptsHeld :: "(string \<times> attempt \<times> revision) set \<Rightarrow> db \<Rightarrow> bool" where
  "attemptsHeld A db = (\<exists>x. reachable x \<and> w_db x = db \<and> A \<subseteq> w_attempts x)"

lemma step_attempts: "step x y \<Longrightarrow> w_attempts x \<subseteq> w_attempts y"
  by (induction rule: step.induct) auto

lemma steps_attempts: "step\<^sup>*\<^sup>* x y \<Longrightarrow> reachable x \<Longrightarrow> reachable y \<and> w_attempts x \<subseteq> w_attempts y"
  by (induction rule: rtranclp_induct) (auto dest: step_attempts intro: reachable.go)

lemma attemptsHeld_write:
  assumes "attemptsHeld A db" "\<And>x. w_db x = db \<Longrightarrow> A \<subseteq> w_attempts x \<Longrightarrow> step x (x\<lparr>w_db := db'\<rparr>)"
  shows "attemptsHeld A db'"
proof -
  obtain x where x: "reachable x" "w_db x = db" "A \<subseteq> w_attempts x" using assms(1) by (auto simp: attemptsHeld_def)
  then have "reachable (x\<lparr>w_db := db'\<rparr>)" using assms(2) reachable.go by blast
  then show ?thesis unfolding attemptsHeld_def using x by (intro exI [of _ "x\<lparr>w_db := db'\<rparr>"]) simp
qed

lemma scanned: "RestoreAttempt (arow_attempt r) = Inr a \<Longrightarrow> scanAttempt (Some r) = Inr (a, \<lparr>rev_id = att_id (arow_attempt r), rev_at = arow_revision r\<rparr>)"
  by (simp add: scanAttempt_def)

lemma hitOf_scanned:
  "hitOf (r, p) = Inr h \<Longrightarrow> scanAttempt (Some r) = Inr (hit_attempt h, hit_attemptAt h) \<and> hit_account h = arow_account r"
  by (auto simp: hitOf_def scanned split: sum.splits)

lemma attemptsHeld_looked_up:
  assumes "attemptsHeld A db" "Consumed db network keys = Inr hits"
  shows "attemptsHeld (A \<union> copiesOf hits) db"
proof -
  have rows: "\<exists>r\<in>set (db_attempts db). scanAttempt (Some r) = Inr (hit_attempt h, hit_attemptAt h) \<and> hit_account h = arow_account r"
    if h: "h \<in> set hits" for h
  proof -
    obtain r p where "(r, p) \<in> set (joined (attemptPayment db)
        (filter (\<lambda>r. att_network (arow_attempt r) = network \<and> List.member keys (att_key (arow_attempt r))) (db_attempts db)))"
        "hitOf (r, p) = Inr h"
      using eachRow_Inr [OF assms(2) [unfolded Consumed_def] h] by auto
    then show ?thesis using hitOf_scanned by (fastforce dest: joined_in)
  qed
  have "attemptsHeld (A \<union> copiesOf hs) db" if "set hs \<subseteq> set hits" for hs
    using that
  proof (induction hs)
    case (Cons h hs)
    then obtain x where x: "reachable x" "w_db x = db" "A \<union> copiesOf hs \<subseteq> w_attempts x" by (auto simp: attemptsHeld_def)
    obtain r where r: "r \<in> set (db_attempts db)" "scanAttempt (Some r) = Inr (hit_attempt h, hit_attemptAt h)" "hit_account h = arow_account r"
      using rows Cons.prems by auto
    let ?y = "x\<lparr>w_attempts := insert (arow_account r, hit_attempt h, hit_attemptAt h) (w_attempts x)\<rparr>"
    have "step x ?y" using r x(2) by (intro step.read_attempt) auto
    then have "reachable ?y" using x(1) reachable.go by blast
    then show ?case unfolding attemptsHeld_def using x r(3) by (intro exI [of _ ?y]) (auto simp: copiesOf_def)
  qed (use assms(1) in \<open>simp add: copiesOf_def\<close>)
  then show ?thesis by simp
qed

interpretation world_reader: reader_contract attemptsHeld
proof
  show "attemptsHeld A db \<Longrightarrow> B \<subseteq> A \<Longrightarrow> attemptsHeld B db" for A B db
    by (auto simp: attemptsHeld_def)
  show "attemptsHeld A db \<Longrightarrow> Consumed db network keys = Inr hits \<Longrightarrow> attemptsHeld (A \<union> copiesOf hits) db" for A db network keys hits
    by (rule attemptsHeld_looked_up)
  show "attemptsHeld A db'" if "attemptsHeld A db" "copiesOf (map seen_hit seen) \<subseteq> A"
      "Record numeric clock db network lo hi final seen sent now = Inr db'"
    for A db seen numeric clock network lo hi final sent now db'
    by (rule attemptsHeld_write [OF that(1)], rule step.record_round [where numeric_in = numeric])
      (use that(2,3) in \<open>auto simp: copiesOf_def\<close>)
  show "attemptsHeld A db'" if "attemptsHeld A db" "Init db network to now = Inr db'" for A db network to now db'
    by (rule attemptsHeld_write [OF that(1)]) (use that(2) in \<open>auto intro: step.place_cursor\<close>)
  show "attemptsHeld A db'" if "attemptsHeld A db" "Advance db network was to now = Inr db'" for A db network was to now db'
    by (rule attemptsHeld_write [OF that(1)]) (use that(2) in \<open>auto intro: step.place_cursor\<close>)
  show "attemptsHeld A (db\<lparr>db_leases := fst (leaseCall c (db_leases db))\<rparr>)" if "attemptsHeld A db" for A db c
    by (rule attemptsHeld_write [OF that]) (use step.lease in auto)
qed

lemma others_calm: "others_run w \<Longrightarrow> world_reader.calm w"
  unfolding world_reader.calm_def undisturbed_def others_run_def attemptsHeld_def
  by (metis steps_attempts subset_trans)

text \<open>C20: An observer keeps the world's rules. From a database the steps reach, however the chain answers,
  the database fails, the clocks go and others' steps come between two of its calls, an observer that reads
  for any number of rounds leaves a database the steps reach.\<close>

theorem observer_is_run:
  assumes "others_run w" "reaches (tn_db t)"
  shows "reaches (tn_db (snd (observer_Run w n k t)))"
proof -
  have "dbKept (attemptsHeld {}) t" using assms(2) by (simp add: dbKept_def attemptsHeld_def reaches_def)
  then have "dbKept (attemptsHeld {}) (snd (observer_Run w n k t))"
    using world_reader.observer_Run_keeps [OF others_calm [OF assms(1)], of n k] by (simp add: keeps_def)
  then show ?thesis by (auto simp: dbKept_def attemptsHeld_def reaches_def)
qed

end
