(* ===== verification/Pacing.thy ===== *)
theory Pacing
  imports Observing
begin

text \<open>
  How much an observer asks for: one receipt to a key, and the span and the wait of its rounds.
\<close>

section \<open>Which receipts are read\<close>

text \<open>The reference: the first entry of every value a list names.\<close>

fun firsts :: "('a \<Rightarrow> 'b) \<Rightarrow> 'a list \<Rightarrow> 'a list" where
  "firsts f [] = []"
| "firsts f (x # xs) = x # filter (\<lambda>y. f y \<noteq> f x) (firsts f xs)"

lemma firsts_set: "set (firsts f xs) \<subseteq> set xs"
  by (induction xs) auto

lemma firsts_distinct: "distinct (map f (firsts f xs))"
proof (induction xs)
  case (Cons x xs)
  then show ?case by (auto simp: distinct_map inj_on_def)
qed simp

lemma firsts_all: "f ` set (firsts f xs) = f ` set xs"
proof (induction xs)
  case (Cons x xs)
  have "f ` {y \<in> set (firsts f xs). f y \<noteq> f x} = f ` set (firsts f xs) - {f x}" by auto
  then show ?case using Cons by simp
qed simp

lemma transactionsLoop_firsts:
  "transactionsLoop held spent read cs =
     filter (\<lambda>tx. tx \<notin> read) (firsts id (map con_tx (filter (\<lambda>c. con_key c \<notin> spent) (firsts con_key (filter (\<lambda>c. held (con_key c)) cs)))))"
proof (induction held spent read cs rule: transactionsLoop.induct)
  case (2 held spent read one rest)
  let ?k = "con_key one" and ?tx = "con_tx one" and ?H = "firsts con_key (filter (\<lambda>c. held (con_key c)) rest)"
  have key: "filter (\<lambda>c. con_key c \<notin> spent) (filter (\<lambda>y. con_key y \<noteq> ?k) ?H)
      = (if ?k \<in> spent then filter (\<lambda>c. con_key c \<notin> spent) ?H else filter (\<lambda>c. con_key c \<notin> insert ?k spent) ?H)"
    unfolding filter_filter by (auto intro!: filter_cong)
  have tx: "filter (\<lambda>t. t \<notin> read) (filter (\<lambda>y. y \<noteq> ?tx) L) = (if ?tx \<in> read then filter (\<lambda>t. t \<notin> read) L
      else filter (\<lambda>t. t \<notin> insert ?tx read) L)" for L
    unfolding filter_filter by (auto intro!: filter_cong)
  consider "\<not> held ?k" | "held ?k" "?k \<in> spent" | "held ?k" "?k \<notin> spent" "?tx \<in> read" | "held ?k" "?k \<notin> spent" "?tx \<notin> read" by blast
  then show ?case
  proof cases
    case 1
    then show ?thesis using 2 by simp
  next
    case s: 2
    then show ?thesis using 2(1) key by simp
  next
    case 3
    then show ?thesis using 2(2) key tx by simp
  next
    case 4
    then show ?thesis using 2(3) key tx by simp
  qed
qed simp

text \<open>C22: A round reads one receipt for each key it holds. The transactions it asks about are those of the
  first entry of each key some attempt or refund holds, each once, in the order the scan has them; so however
  many transactions a scan names, no more are read than there are keys held.\<close>

theorem receipts_per_key:
  "transactions cs against bk =
      firsts id (map con_tx (firsts con_key (filter (\<lambda>c. con_key c \<in> dom against \<union> dom bk) cs)))
    \<and> distinct (transactions cs against bk)
    \<and> length (transactions cs against bk) \<le> card (con_key ` set cs \<inter> (dom against \<union> dom bk))"
proof -
  let ?held = "\<lambda>k. k \<in> dom against \<union> dom bk"
  let ?F = "firsts con_key (filter (\<lambda>c. ?held (con_key c)) cs)" and ?T = "transactions cs against bk"
  have e: "?T = firsts id (map con_tx ?F)" by (simp add: transactions_def transactionsLoop_firsts domIff)
  have d: "distinct ?T" using firsts_distinct [of id] by (simp add: e)
  have "length ?T = card (set ?T)" using d by (simp add: distinct_card)
  also have "\<dots> \<le> card (con_tx ` set ?F)"
    using firsts_set [of id "map con_tx ?F"] by (intro card_mono) (auto simp: e)
  also have "\<dots> \<le> card (set ?F)" by (simp add: card_image_le)
  also have "\<dots> = card (con_key ` set ?F)"
    by (rule card_image [symmetric]) (use firsts_distinct in \<open>unfold distinct_map, blast\<close>)
  also have "con_key ` set ?F = con_key ` set cs \<inter> (dom against \<union> dom bk)" by (auto simp: firsts_all)
  finally show ?thesis using d e by simp
qed

section \<open>The span and the wait\<close>

definition readerKept :: "(reader \<Rightarrow> bool) \<Rightarrow> turn \<Rightarrow> bool" where
  "readerKept I t = I (tn_reader t)"

lemma readerKept_calls [keeping]:
  "keeps (readerKept I) (askNow w)" "keeps (readerKept I) (askChain w f)" "keeps (readerKept I) (onDb w g)"
  "keeps (readerKept I) (readDb w h)" "keeps (readerKept I) (writeDb w p)" "keeps (readerKept I) (leaseDb w q)"
  by (simp_all add: keeps_def readerKept_def askNow_def askChain_def readDb_def writeDb_def leaseDb_def onDb_def Let_def
      split: option.split sum.split prod.split)

lemma readerKept_changing: "(\<And>o1. I o1 \<Longrightarrow> I (f o1)) \<Longrightarrow> keeps (readerKept I) (changing f)"
  by (simp add: keeps_def readerKept_def changing_def)

text \<open>A round moves the span and the wait only in \<open>after\<close>.\<close>

definition pace :: "reader \<Rightarrow> int \<times> duration" where
  "pace o1 = (rd_width o1, rd_interval o1)"

definition paced :: "network \<Rightarrow> reader \<Rightarrow> bool" where
  "paced n o1 = (min minWidth (nw_width n) \<le> rd_width o1 \<and> rd_width o1 \<le> nw_width n
     \<and> nw_poll n \<le> rd_interval o1 \<and> rd_interval o1 \<le> MaxInterval)"

lemma after_paced:
  assumes "paced n o1" "0 < nw_width n" "0 < nw_poll n" "nw_poll n \<le> MaxInterval"
  shows "paced n (after n err o1)"
  using assms unfolding paced_def after_def narrowed_def minWidth_def Let_def
  by (auto split: option.split observe_error.split chain_error.split)


lemma paced_simps [simp]:
  "paced n (o1\<lparr>rd_held := a\<rparr>) = paced n o1" "paced n (o1\<lparr>rd_looked := b\<rparr>) = paced n o1"
  "paced n (o1\<lparr>rd_identified := b\<rparr>) = paced n o1" "paced n (observer_says x o1) = paced n o1"
  "paced n (went b o1) = paced n o1" "paced n (stalling b o1) = paced n o1" "paced n (flagged y z o1) = paced n o1"
  "paced n (begun n b c d r o1) = paced n o1"
  by (simp_all add: paced_def observer_says_def went_def stalling_def flagged_def begun_def)

lemma paced_replaced [simp]: "paced n (replaced rs o1) = paced n o1"
  unfolding replaced_def by (induction rs arbitrary: o1) (simp_all add: paced_def split: option.split)

lemma keeps_case_pair [keeping]: "(\<And>a b. x = (a, b) \<Longrightarrow> keeps I (f a b)) \<Longrightarrow> keeps I (case x of (a, b) \<Rightarrow> f a b)"
  by (cases x) simp

lemma keeps_orElse: "keeps (readerKept (paced n)) m \<Longrightarrow> keeps (readerKept (paced n)) (orElseSay m word)"
  unfolding keeps_def readerKept_def orElseSay_def by (auto split: prod.split sum.split observe_error.split)

lemma paced_changing: "(\<And>o1. paced n (f o1) = paced n o1) \<Longrightarrow> keeps (readerKept (paced n)) (changing f)"
  by (rule readerKept_changing) simp

lemmas pacing = keeping keeps_orElse paced_changing

lemma paced_keep: "keeps (readerKept (paced n)) (keep w n)"
  unfolding keep_def by (intro pacing) simp

lemma paced_judgeOne: "keeps (readerKept (paced n)) (judgeOne w against bk carried f)"
  unfolding judgeOne_def Let_def behindAsset_def by (intro pacing)

lemma paced_seenIn: "keeps (readerKept (paced n)) (seenIn w n first upTo behind)"
  unfolding seenIn_def receiptOf_def by (intro pacing paced_keep paced_judgeOne) simp

lemma paced_tick: "keeps (readerKept (paced n)) (tick w n)"
  unfolding tick_def chain_standing_def identify_def holdsBlock_def settledRange_def readTo_def writeRange_def stood_def ahead_def Let_def
  by (intro pacing paced_keep paced_seenIn) simp_all

lemma paced_looking: "keeps (readerKept (paced n)) (looking w n)"
proof -
  have one: "keeps (readerKept (paced n)) (upgradedOne w n na)" for na
    unfolding upgradedOne_def by (intro pacing paced_keep) simp
  have up: "keeps (readerKept (paced n)) (upgraded w n)"
    unfolding upgraded_def by (rule keeps_forgiven, rule keeps_at, rule keeps_eachAct, rule one)
  have flag: "keeps (readerKept (paced n)) (\<lambda>t. case askChain w (\<lambda>c. ch_Paused c r) t of
            (Inl _, t1) \<Rightarrow> changing (flagged name None) t1
          | (Inr value, t1) \<Rightarrow> andThen (askNow w) (\<lambda>now. changing (flagged name (Some (value, now)))) t1)" for r name
    by (simp add: keeps_def readerKept_def askChain_def andThen_def askNow_def changing_def split: sum.split)
  have "keeps (readerKept (paced n)) (stoppedOne w n na)" for na
    unfolding stoppedOne_def by (cases na) (auto intro!: keeps_andThen paced_keep flag)
  then have "keeps (readerKept (paced n)) (stopped_flags w n)"
    unfolding stopped_flags_def by (intro keeps_forgiven keeps_eachAct)
  then show ?thesis unfolding looking_def by (intro pacing up) simp_all
qed

lemma paced_round:
  assumes "0 < nw_width n" "0 < nw_poll n" "nw_poll n \<le> MaxInterval"
  shows "keeps (readerKept (paced n)) (observer_round w n)"
proof -
  have a: "keeps (readerKept (paced n)) (changing (after n err))" for err
    by (rule readerKept_changing) (rule after_paced [OF _ assms])
  show ?thesis unfolding observer_round_def waiting_def
    by (intro keeping a paced_tick paced_looking paced_changing) simp_all
qed

lemma paced_start: "keeps (readerKept (paced n)) (start_reading w n)"
proof -
  have one: "keeps (readerKept (paced n)) (probeAsset w na r)" for na r
    by (cases na) (simp add: probeAsset_def keeps_def readerKept_def askChain_def andThen_def Let_def split: sum.split)
  have all: "keeps (readerKept (paced n)) (\<lambda>t. foldAct (probeAsset w) (f t) r t)" for f r
    by (rule keeps_at, rule keeps_foldAct, rule one)
  have p: "keeps (readerKept (paced n)) (Probe w n cursors)" for cursors
    unfolding Probe_def by (intro keeps_andThen keeps_if readerKept_calls keeps_giving all)
  show ?thesis unfolding keeps_def
  proof (intro allI impI)
    fix t assume t: "readerKept (paced n) t"
    obtain res t1 where r: "Probe w n True t = (res, t1)" by fastforce
    have "readerKept (paced n) t1" using p [of True] t r by (auto simp: keeps_def)
    then show "readerKept (paced n) (snd (start_reading w n t))"
      using r by (cases res) (simp_all add: start_reading_def readerKept_def changing_def andThen_def askNow_def)
  qed
qed


end
