(* ===== verification/Settling.thy ===== *)
theory Settling
  imports Asking
begin

text \<open>
  What a round of the worker does: that it is a run of the world's steps, and when it lets a payment
  succeed, expire, or gives a recorded transfer up.
\<close>

section \<open>A round is a run\<close>

text \<open>Some reachable world has this database with these copies held.\<close>

definition holds :: "db \<Rightarrow> (string \<times> payment \<times> revision) set \<Rightarrow> (string \<times> refund \<times> revision) set \<Rightarrow> bool" where
  "holds db P R = (\<exists>w. reachable w \<and> w_db w = db \<and> P \<subseteq> w_payments w \<and> R \<subseteq> w_refunds w)"

lemma holds_reaches: "holds db P R \<Longrightarrow> reaches db"
  by (auto simp: holds_def reaches_def)

lemma reaches_holds: "reaches db \<Longrightarrow> holds db {} {}"
  by (auto simp: holds_def reaches_def)

lemma holds_write:
  assumes "holds db P R" "\<And>w. w_db w = db \<Longrightarrow> P \<subseteq> w_payments w \<Longrightarrow> R \<subseteq> w_refunds w \<Longrightarrow> step w (w\<lparr>w_db := db'\<rparr>)"
  shows "holds db' P R"
proof -
  obtain w where w: "reachable w" "w_db w = db" "P \<subseteq> w_payments w" "R \<subseteq> w_refunds w" using assms(1) by (auto simp: holds_def)
  then have "reachable (w\<lparr>w_db := db'\<rparr>)" using assms(2) reachable.go by blast
  then show ?thesis unfolding holds_def using w by (intro exI [of _ "w\<lparr>w_db := db'\<rparr>"]) simp
qed

lemma holds_read:
  assumes "holds db P R" "r \<in> set (db_payments db)" "rowPayment (narrow r) = Inr (p, at)"
  shows "holds db (insert (prow_account r, p, at) P) R"
proof -
  obtain w where w: "reachable w" "w_db w = db" "P \<subseteq> w_payments w" "R \<subseteq> w_refunds w" using assms(1) by (auto simp: holds_def)
  let ?w = "w\<lparr>w_payments := insert (prow_account r, p, at) (w_payments w)\<rparr>"
  have "step w ?w" using assms(2,3) w(2) by (intro step.read_payment) auto
  with w show ?thesis unfolding holds_def by (intro exI [of _ ?w]) (auto intro: reachable.go)
qed

lemma holds_read_refund:
  assumes "holds db P R" "r \<in> set (db_refunds db)" "rowRefund r p = Inr (q, at)"
  shows "holds db P (insert (rrow_account r, q, at) R)"
proof -
  obtain w where w: "reachable w" "w_db w = db" "P \<subseteq> w_payments w" "R \<subseteq> w_refunds w" using assms(1) by (auto simp: holds_def)
  let ?w = "w\<lparr>w_refunds := insert (rrow_account r, q, at) (w_refunds w)\<rparr>"
  have "step w ?w" using assms(2,3) w(2) by (intro step.read_refund) auto
  with w show ?thesis unfolding holds_def by (intro exI [of _ ?w]) (auto intro: reachable.go)
qed

text \<open>Reading a list of rows is reading each.\<close>

lemma holds_reads:
  assumes "holds db P R" "\<forall>x\<in>set xs. \<exists>r\<in>set (db_payments db). fst (f x) = prow_account r \<and> rowPayment (narrow r) = Inr (snd (f x))"
  shows "holds db (f ` set xs \<union> P) R"
  using assms(2)
proof (induction xs)
  case (Cons x xs)
  then obtain r where r: "r \<in> set (db_payments db)" "fst (f x) = prow_account r" "rowPayment (narrow r) = Inr (snd (f x))" by auto
  have "holds db (insert (f x) (f ` set xs \<union> P)) R"
    using holds_read [OF Cons.IH r(1), of "fst (snd (f x))" "snd (snd (f x))"] Cons.prems r by (simp add: prod_eq_iff [symmetric]) (metis prod.collapse)
  then show ?case by simp
qed (use assms(1) in simp)

lemma holds_refund_reads:
  assumes "holds db P R" "\<forall>x\<in>set xs. \<exists>r\<in>set (db_refunds db). \<exists>p. fst (f x) = rrow_account r \<and> rowRefund r p = Inr (snd (f x))"
  shows "holds db P (f ` set xs \<union> R)"
  using assms(2)
proof (induction xs)
  case (Cons x xs)
  then obtain r p where r: "r \<in> set (db_refunds db)" "fst (f x) = rrow_account r" "rowRefund r p = Inr (snd (f x))" by auto
  have "holds db P (insert (f x) (f ` set xs \<union> R))"
    using holds_read_refund [OF Cons.IH r(1), of p "fst (snd (f x))" "snd (snd (f x))"] Cons.prems r by simp (metis prod.collapse)
  then show ?case by simp
qed (use assms(1) in simp)

lemma worker_told_holds:
  assumes "holds db P R" "(account, p, at) \<in> P" "outcome_op op" "payOp p op = Inr q" "worker_told clock db account q at = Inr db'"
  shows "holds db' P R"
proof -
  obtain t e where e: "Announce q t = Some e" "passStale db (Save clock db account (Some q) at e) = Inr db'"
    using assms(5) by (auto simp: worker_told_def res_simps split: option.splits)
  show ?thesis
  proof (cases "db' = db")
    case False
    then have "Save clock db account (Some q) at e = Inr db'" using e(2) by (auto simp: passStale_def split: if_splits)
    then show ?thesis using assms(2-4) e(1) by (intro holds_write [OF assms(1)] step.move_payment) auto
  qed (use assms(1) in simp)
qed

lemma returned_holds:
  assumes "holds db P R" "(account, q, at) \<in> R" "refundMoveTo q s = Inr q'" "returned clock db account q' at = Inr db'"
  shows "holds db' P R"
proof -
  obtain t e where e: "AnnounceRefund q' t = Some e" "passStale db (SaveRefund clock db account (Some q') at e) = Inr db'"
    using assms(4) by (auto simp: returned_def res_simps split: option.splits)
  show ?thesis
  proof (cases "db' = db")
    case False
    then have "SaveRefund clock db account (Some q') at e = Inr db'" using e(2) by (auto simp: passStale_def split: if_splits)
    then show ?thesis using assms(2,3) e(1) by (intro holds_write [OF assms(1)] step.move_refund) auto
  qed (use assms(1) in simp)
qed

definition standingHeld :: "(string \<times> payment \<times> revision) set \<Rightarrow> (string \<times> refund \<times> revision) set \<Rightarrow> standing \<Rightarrow> bool" where
  "standingHeld P R c =
     (case sd_for c of
        ForPayment p \<Rightarrow> (cand_account p, cand_payment p, cand_paymentAt p) \<in> P
      | ForRefund r \<Rightarrow> (rcand_account r, rcand_refund r, rcand_refundAt r) \<in> R)"

lemma pay_holds:
  assumes "holds db P R" "(cand_account p, cand_payment p, cand_paymentAt p) \<in> P" "pay clock db p = Inr db'"
  shows "holds db' P R"
proof (cases "Succeed (cand_payment p)")
  case (Inr q)
  then have t: "worker_told clock db (cand_account p) q (cand_paymentAt p) = Inr db'" using assms(3) by (simp add: pay_def)
  have "payOp (cand_payment p) OpSucceed = Inr q" using Inr by simp
  from worker_told_holds [OF assms(1,2) _ this t] show ?thesis by simp
qed (use assms in \<open>simp add: pay_def\<close>)

lemma settle_holds:
  assumes "holds db P R" "(rcand_account r, rcand_refund r, rcand_refundAt r) \<in> R" "settle clock db r = Inr db'"
  shows "holds db' P R"
proof (cases "Settle (rcand_refund r)")
  case (Inr q)
  then have t: "returned clock db (rcand_account r) q (rcand_refundAt r) = Inr db'" using assms(3) by (simp add: settle_def)
  from returned_holds [OF assms(1,2) Inr [unfolded Settle_def] t] show ?thesis .
qed (use assms in \<open>simp add: settle_def\<close>)

lemma decided_cases:
  assumes "decided n clock now db c s = Inr db'"
  obtains "db' = db"
  | p where "sa_verdict s = VFinal" "sd_for c = ForPayment p" "pay clock db p = Inr db'"
  | r where "sa_verdict s = VFinal" "sd_for c = ForRefund r" "settle clock db r = Inr db'"
  | "sa_verdict s = VGone" "net_misses n \<le> sa_rounds s" "Vanish clock db (net_name n) (sd_key c) (sd_tx c) now = Inr db'"
proof (cases "sa_verdict s")
  case VFinal
  then show ?thesis using assms that(2,3) by (cases "sd_for c") (auto simp: decided_def)
next
  case VGone
  then show ?thesis using assms that(1,4) by (cases "sa_rounds s < net_misses n") (auto simp: decided_def)
qed (use assms that(1) in \<open>simp_all add: decided_def\<close>)

lemma decided_holds:
  assumes "holds db P R" "standingHeld P R c" "decided n clock now db c s = Inr db'"
  shows "holds db' P R"
  using assms(3)
proof (cases rule: decided_cases)
  case (2 p)
  then show ?thesis using pay_holds [OF assms(1)] assms(2) by (simp add: standingHeld_def)
next
  case (3 r)
  then show ?thesis using settle_holds [OF assms(1)] assms(2) by (simp add: standingHeld_def)
next
  case 4
  show ?thesis by (rule holds_write [OF assms(1)]) (metis 4(3) step.give_up)
qed (use assms in simp)

lemma marked_holds: "holds db P R \<Longrightarrow> holds (marked n now db c before s) P R"
  unfolding marked_def by (auto split: option.splits intro: holds_write step.mark)

lemma roundAsk_holds:
  assumes "roundAsk n m before k st c = (st', err)" "holds (rs_db st) P R" "standingHeld P R c"
  shows "holds (rs_db st') P R"
  using assms marked_holds decided_holds [OF marked_holds [OF assms(2)] assms(3)]
  by (auto simp: roundAsk_def Let_def split: sum.splits if_splits)

lemma roundLoop_holds:
  assumes "roundLoop n m answers k st cs = (st', err)" "holds (rs_db st) P R" "\<forall>c\<in>set cs. standingHeld P R c"
  shows "holds (rs_db st') P R"
  using assms
proof (induction cs arbitrary: k st)
  case (Cons c cs)
  obtain st1 e1 where s: "roundStep n m answers k st c = (st1, e1)" by (cases "roundStep n m answers k st c")
  have "holds (rs_db st1) P R"
    using s Cons.prems(2,3) roundAsk_holds
    by (auto simp: roundStep_def Let_def split: option.splits if_splits)
  then show ?case using Cons s by (cases e1) auto
qed simp

lemma eachKept_holds:
  assumes "eachKept f db xs = (db', err)" "holds db P R"
    and "\<And>d x d'. x \<in> set xs \<Longrightarrow> holds d P R \<Longrightarrow> f d x = Inr d' \<Longrightarrow> holds d' P R"
  shows "holds db' P R"
  using assms
proof (induction xs arbitrary: db)
  case (Cons x xs)
  then show ?case by (cases "f db x") auto
qed simp

lemma dueOf_Inr: "dueOf p = Inr d \<longleftrightarrow> rowPayment (narrow p) = Inr (due_payment d, due_paymentAt d) \<and> due_account d = prow_account p"
  by (cases d) (auto simp: dueOf_def res_simps)

lemma refundDueOf_Inr:
  "refundDueOf (r, p) = Inr d \<longleftrightarrow> rowRefund r p = Inr (rdue_refund d, rdue_refundAt d) \<and> rdue_account d = rrow_account r"
  by (cases d) (auto simp: refundDueOf_def res_simps)

lemma payment_sweep_holds:
  assumes "sweep (eachRow dueOf rows) f db = (db', err)" "reaches db" "set rows \<subseteq> set (db_payments db)"
    and "\<And>d x d'. f d x = Inr d' \<Longrightarrow> \<exists>op q. outcome_op op \<and> payOp (due_payment x) op = Inr q
           \<and> worker_told clock d (due_account x) q (due_paymentAt x) = Inr d'"
  shows "reaches db'"
proof (cases "eachRow dueOf rows")
  case (Inr ds)
  let ?f = "\<lambda>d. (due_account d, due_payment d, due_paymentAt d)"
  have "\<exists>r\<in>set (db_payments db). fst (?f d) = prow_account r \<and> rowPayment (narrow r) = Inr (snd (?f d))" if "d \<in> set ds" for d
    using eachRow_Inr [OF Inr that] assms(3) by (auto simp: dueOf_Inr)
  then have h: "holds db (?f ` set ds \<union> {}) {}" by (intro holds_reads [OF reaches_holds [OF assms(2)]]) blast
  have "eachKept f db ds = (db', err)" using assms(1) Inr by (simp add: sweep_def)
  then have "holds db' (?f ` set ds \<union> {}) {}"
    by (rule eachKept_holds [OF _ h]) (use assms(4) worker_told_holds in \<open>fastforce\<close>)
  then show ?thesis by (rule holds_reaches)
qed (use assms(1,2) in \<open>simp add: sweep_def\<close>)

lemma refund_sweep_holds:
  assumes "sweep (eachRow refundDueOf rows) f db = (db', err)" "reaches db" "fst ` set rows \<subseteq> set (db_refunds db)"
    and "\<And>d x d'. f d x = Inr d' \<Longrightarrow> \<exists>s q. refundMoveTo (rdue_refund x) s = Inr q
           \<and> returned clock d (rdue_account x) q (rdue_refundAt x) = Inr d'"
  shows "reaches db'"
proof (cases "eachRow refundDueOf rows")
  case (Inr ds)
  let ?f = "\<lambda>d. (rdue_account d, rdue_refund d, rdue_refundAt d)"
  have "\<exists>r\<in>set (db_refunds db). \<exists>p. fst (?f d) = rrow_account r \<and> rowRefund r p = Inr (snd (?f d))" if d: "d \<in> set ds" for d
  proof -
    obtain r p where "(r, p) \<in> set rows" "refundDueOf (r, p) = Inr d" using eachRow_Inr [OF Inr d] by auto
    then show ?thesis using assms(3) by (force simp: refundDueOf_Inr)
  qed
  then have h: "holds db {} (?f ` set ds \<union> {})" by (intro holds_refund_reads [OF reaches_holds [OF assms(2)]]) blast
  have "eachKept f db ds = (db', err)" using assms(1) Inr by (simp add: sweep_def)
  then have "holds db' {} (?f ` set ds \<union> {})"
    by (rule eachKept_holds [OF _ h]) (use assms(4) returned_holds in \<open>fastforce\<close>)
  then show ?thesis by (rule holds_reaches)
qed (use assms(1,2) in \<open>simp add: sweep_def\<close>)


lemma awaitDue_move: "awaitDue clock now d x = Inr d' \<Longrightarrow>
  \<exists>op q. outcome_op op \<and> payOp (due_payment x) op = Inr q \<and> worker_told clock d (due_account x) q (due_paymentAt x) = Inr d'"
  by (intro exI [of _ "OpAwaitFinality now"]) (auto simp: awaitDue_def split: sum.splits)

lemma expireDue_move: "expireDue clock d x = Inr d' \<Longrightarrow>
  \<exists>op q. outcome_op op \<and> payOp (due_payment x) op = Inr q \<and> worker_told clock d (due_account x) q (due_paymentAt x) = Inr d'"
  by (intro exI [of _ OpExpire]) (auto simp: expireDue_def split: sum.splits)

lemma awaitRefund_move: "awaitRefund clock d x = Inr d' \<Longrightarrow>
  \<exists>s q. refundMoveTo (rdue_refund x) s = Inr q \<and> returned clock d (rdue_account x) q (rdue_refundAt x) = Inr d'"
  by (auto simp: awaitRefund_def refund_AwaitFinality_def split: sum.splits)

lemma expireRefund_move: "expireRefund clock d x = Inr d' \<Longrightarrow>
  \<exists>s q. refundMoveTo (rdue_refund x) s = Inr q \<and> returned clock d (rdue_account x) q (rdue_refundAt x) = Inr d'"
  by (auto simp: expireRefund_def refund_Expire_def split: sum.splits)

lemma page_subset: "set (take k (sort_key f (filter P rows))) \<subseteq> set rows"
  by (auto dest!: in_set_takeD)

lemma refund_page_subset: "fst ` set (take k (sort_key f (filter P (joined g rows)))) \<subseteq> set rows"
  by (auto dest!: in_set_takeD joined_in)

lemmas sweep_reaches =
  payment_sweep_holds [OF _ _ page_subset awaitDue_move] payment_sweep_holds [OF _ _ page_subset expireDue_move]
  refund_sweep_holds [OF _ _ refund_page_subset awaitRefund_move] refund_sweep_holds [OF _ _ refund_page_subset expireRefund_move]

lemma swept_reaches:
  assumes "swept limit clock network now db = (db', err)" "reaches db"
  shows "reaches db'"
proof -
  obtain d1 e1 where s1: "sweep (Overdue db network now limit) (awaitDue clock now) db = (d1, e1)" by fastforce
  obtain d2 e2 where s2: "sweep (Unsettled d1 network limit) (expireDue clock) d1 = (d2, e2)" by fastforce
  obtain d3 e3 where s3: "sweep (OverdueRefunds d2 network now limit) (awaitRefund clock) d2 = (d3, e3)" by fastforce
  obtain d4 e4 where s4: "sweep (UnsettledRefunds d3 network limit) (expireRefund clock) d3 = (d4, e4)" by fastforce
  have r1: "reaches d1" by (rule sweep_reaches(1) [OF s1 [unfolded Overdue_def] assms(2)])
  have r2: "reaches d2" by (rule sweep_reaches(2) [OF s2 [unfolded Unsettled_def] r1])
  have r3: "reaches d3" by (rule sweep_reaches(3) [OF s3 [unfolded OverdueRefunds_def] r2])
  have r4: "reaches d4" by (rule sweep_reaches(4) [OF s4 [unfolded UnsettledRefunds_def] r3])
  have "db' \<in> {d1, d2, d3, d4}"
    using assms(1) s1 s2 s3 s4 by (auto simp: swept_def sweptRefunds_def split: option.splits)
  then show ?thesis using r1 r2 r3 r4 by auto
qed

lemma candidateOf_Inr:
  "candidateOf (o1, p) = Inr c \<Longrightarrow> rowPayment (narrow p) = Inr (cand_payment c, cand_paymentAt c) \<and> cand_account c = ob_account o1
     \<and> cand_key c = ob_key o1 \<and> cand_tx c = ob_tx o1 \<and> cand_blockHeight c = word_of_int (ob_height o1) \<and> cand_blockHash c = ob_hash o1"
  by (auto simp: candidateOf_def res_simps split: if_splits)

lemma Candidates_row:
  assumes "Candidates db network from limit = Inr cs" "c \<in> set cs"
  obtains o1 p where "o1 \<in> set (db_observations db)" "settleable network o1" "p \<in> set (db_payments db)"
    "isPayment (ob_account o1) (ob_payment o1) p" "openForPayment (prow_status p)" "candidateOf (o1, p) = Inr c"
proof -
  have e: "eachRow candidateOf (pageAfter rowPlace (int (unat (pl_height from)), pl_tx from) limit (waitingRows db network)) = Inr cs"
    using assms(1) by (simp add: Candidates_def split: if_splits)
  obtain op where op: "op \<in> set (pageAfter rowPlace (int (unat (pl_height from)), pl_tx from) limit (waitingRows db network))"
      "candidateOf op = Inr c"
    using eachRow_Inr [OF e assms(2)] by blast
  obtain o1 p where o1: "op = (o1, p)" by (cases op)
  then have "(o1, p) \<in> set (waitingRows db network)" using op(1) by (auto dest: pageAfter_after)
  then have j: "(o1, p) \<in> set (joined (observedPayment db) (filter (settleable network) (db_observations db)))" "openForPayment (prow_status p)"
    by (auto simp: waitingRows_def)
  have "o1 \<in> set (db_observations db)" "settleable network o1" "observedPayment db o1 = Some p" using joined_in [OF j(1)] by auto
  then show ?thesis using that j(2) op(2) o1 by (auto simp: observedPayment_def dest: find_SomeD)
qed

lemma RefundCandidates_row:
  assumes "RefundCandidates db network from limit = Inr rs" "c \<in> set rs"
  shows "\<exists>r\<in>set (db_refunds db). \<exists>p. rowRefund r p = Inr (rcand_refund c, rcand_refundAt c) \<and> rcand_account c = rrow_account r"
proof -
  have e: "eachRow refundCandidateOf (pageAfter rowPlace (int (unat (pl_height from)), pl_tx from) limit (returnRows db network)) = Inr rs"
    using assms(1) by (simp add: RefundCandidates_def split: if_splits)
  obtain op where op: "op \<in> set (pageAfter rowPlace (int (unat (pl_height from)), pl_tx from) limit (returnRows db network))"
      "refundCandidateOf op = Inr c"
    using eachRow_Inr [OF e assms(2)] by blast
  obtain o1 r p where o1: "op = (o1, r, p)" by (cases op)
  then have "(o1, r, p) \<in> set (returnRows db network)" using op(1) by (auto dest: pageAfter_after)
  then have "observedRefund db o1 = Some r" by (auto simp: returnRows_def split: option.splits if_splits)
  then have "r \<in> set (db_refunds db)" by (auto simp: observedRefund_def split: option.splits dest: find_SomeD)
  moreover have "rowRefund r p = Inr (rcand_refund c, rcand_refundAt c)" "rcand_account c = rrow_account r"
    using op(2) by (auto simp: o1 refundCandidateOf_def res_simps split: if_splits)
  ultimately show ?thesis by blast
qed

text \<open>What a round did: nothing, its work up to an error, or its work and the sweeps.\<close>

definition roundStart :: "db \<Rightarrow> worker \<Rightarrow> nat \<Rightarrow> round_state" where
  "roundStart db w endpoints = \<lparr>rs_db = db, rs_pass = wk_pass w, rs_asking = [0..<endpoints], rs_short = False\<rparr>"

lemma finality_round_cases:
  assumes "finality_round n endpoints limit m db w = (db', w', short, err)"
  obtains "db' = db"
  | cs rs st e where "Candidates db (net_name n) (wk_from w) limit = Inr cs" "RefundCandidates db (net_name n) (wk_back w) limit = Inr rs"
      "roundLoop n m (wk_answers w) 0 (roundStart db w endpoints) (work cs rs) = (st, e)" "1 \<le> net_agreements n"
      "db' = rs_db st \<or> (\<exists>e1. swept limit (mt_clock m (length (work cs rs))) (net_name n) (mt_now m (length (work cs rs))) (rs_db st) = (db', e1))"
proof (cases "net_misses n < 1 \<or> net_agreements n < 1")
  case True
  then have "db' = db" using assms by (auto simp: finality_round_def split: if_splits)
  then show ?thesis by (rule that(1))
next
  case g: False
  show ?thesis
  proof (cases "Candidates db (net_name n) (wk_from w) limit")
    case (Inl e)
    then have "db' = db" using assms g by (simp add: finality_round_def)
    then show ?thesis by (rule that(1))
  next
    case cs: (Inr cs)
    show ?thesis
    proof (cases "RefundCandidates db (net_name n) (wk_back w) limit")
      case (Inl e)
      then have "db' = db" using assms g cs by (simp add: finality_round_def)
      then show ?thesis by (rule that(1))
    next
      case rs: (Inr rs)
      obtain st e where l: "roundLoop n m (wk_answers w) 0 (roundStart db w endpoints) (work cs rs) = (st, e)" by fastforce
      note l' = l [unfolded roundStart_def]
      let ?k = "length (work cs rs)"
      obtain d1 e1 where s: "swept limit (mt_clock m ?k) (net_name n) (mt_now m ?k) (rs_db st) = (d1, e1)" by fastforce
      have "db' = rs_db st \<or> db' = d1"
        using assms g cs rs l' s by (cases e) (simp_all add: finality_round_def Let_def)
      then show ?thesis using that(2) [OF cs rs l] g s by auto
    qed
  qed
qed

lemma Candidates_copy:
  assumes "Candidates db network from limit = Inr cs" "c \<in> set cs"
  shows "\<exists>r\<in>set (db_payments db). cand_account c = prow_account r \<and> rowPayment (narrow r) = Inr (cand_payment c, cand_paymentAt c)"
proof -
  obtain o1 p where o1: "p \<in> set (db_payments db)" "isPayment (ob_account o1) (ob_payment o1) p" "candidateOf (o1, p) = Inr c"
    using Candidates_row [OF assms] by metis
  have "cand_account c = prow_account p" using candidateOf_Inr [OF o1(3)] o1(2) by (simp add: isPayment_def)
  then show ?thesis using candidateOf_Inr [OF o1(3)] o1(1) by blast
qed

lemma finality_round_reaches:
  assumes "finality_round n endpoints limit m db w = (db', w', short, err)" "reaches db"
  shows "reaches db'"
  using assms(1)
proof (cases rule: finality_round_cases)
  case (2 cs rs st e)
  let ?pf = "\<lambda>c. (cand_account c, cand_payment c, cand_paymentAt c)"
  let ?rf = "\<lambda>c. (rcand_account c, rcand_refund c, rcand_refundAt c)"
  let ?P = "?pf ` set cs \<union> {}" and ?R = "?rf ` set rs \<union> {}"
  have "\<forall>c\<in>set cs. \<exists>r\<in>set (db_payments db). fst (?pf c) = prow_account r \<and> rowPayment (narrow r) = Inr (snd (?pf c))"
    using Candidates_copy [OF 2(1)] by simp
  from holds_reads [OF reaches_holds [OF assms(2)] this] have "holds db ?P {}" .
  moreover have "\<forall>c\<in>set rs. \<exists>r\<in>set (db_refunds db). \<exists>p. fst (?rf c) = rrow_account r \<and> rowRefund r p = Inr (snd (?rf c))"
    using RefundCandidates_row [OF 2(2)] by fastforce
  ultimately have "holds db ?P ?R" by (rule holds_refund_reads)
  then have h: "holds (rs_db (roundStart db w endpoints)) ?P ?R" by (simp add: roundStart_def)
  have held: "\<forall>c\<in>set (work cs rs). standingHeld ?P ?R c"
    by (auto simp: work_def standingHeld_def standingPayment_def standingRefund_def)
  have r: "reaches (rs_db st)" by (rule holds_reaches [OF roundLoop_holds [OF 2(3) h held]])
  then show ?thesis using 2(5) swept_reaches by blast
qed (use assms(2) in simp)

text \<open>C15: The worker keeps the world's rules. Whatever the endpoints answer, from a database the steps
  reach a turn of the worker, finished or stopped half way by an error, leaves one they reach; so what holds of
  every reachable world holds while workers run.\<close>

theorem worker_turn_is_run:
  assumes "reaches db"
  shows "reaches (fst (Run_turn n endpoints limit m now held db w))"
proof -
  obtain db1 w1 short err where f: "finality_round n endpoints limit m db w = (db1, w1, short, err)" by (metis prod_cases4)
  from finality_round_reaches [OF f assms] show ?thesis
    using assms f by (auto simp: Run_turn_def split: sum.splits bool.splits)
qed

theorem worker_turn_is_run_witness:
  "reaches (fst (Run_turn \<lparr>net_name = ''polygon'', net_agreements = 2, net_recheck = Minute, net_misses = 3\<rparr> 2 100
     \<lparr>mt_endpoint = (\<lambda>_ _. demo_chain 9 ''1'' []), mt_stopped = (\<lambda>_ _. False), mt_clock = (\<lambda>_. 0), mt_now = (\<lambda>_. 0)\<rparr>
     0 (Inr True) demo_refunded newWorker))"
  by (rule worker_turn_is_run [OF demo_refund_run])

end
