(* ===== verification/Moves.thy ===== *)
theory Moves
  imports Settling
begin

text \<open>
  What a round of the finality worker changes, step by step: which payments it may let succeed or expire,
  and which recorded transfers it may give up.
\<close>

section \<open>What a round changes\<close>

text \<open>
  How a round may change a payment's row and a recorded transfer's: the status moves only to waiting, to
  succeeded for the payments of one set, and to expired for those of another; the reason only to vanished,
  for the transfers of a third.
\<close>

type_synonym payment_key = "string \<times> string"
type_synonym transfer_key = "string \<times> string \<times> string"

definition mayBecome :: "payment_key set \<Rightarrow> payment_key set \<Rightarrow> payment_row \<Rightarrow> status \<Rightarrow> bool" where
  "mayBecome S E r st =
     (st = prow_status r \<or> st = AwaitingFinality
      \<or> st = Succeeded \<and> (prow_account r, prow_id r) \<in> S \<or> st = Expired \<and> (prow_account r, prow_id r) \<in> E)"

definition paymentMoves :: "payment_key set \<Rightarrow> payment_key set \<Rightarrow> payment_row \<Rightarrow> payment_row \<Rightarrow> bool" where
  "paymentMoves S E r r' =
     (prow_account r' = prow_account r \<and> prow_id r' = prow_id r \<and> prow_network r' = prow_network r
      \<and> prow_expiresAt r' = prow_expiresAt r \<and> mayBecome S E r (prow_status r'))"

definition transferMoves :: "transfer_key set \<Rightarrow> observation_row \<Rightarrow> observation_row \<Rightarrow> bool" where
  "transferMoves V o1 o2 =
     (ob_network o2 = ob_network o1 \<and> ob_key o2 = ob_key o1 \<and> ob_tx o2 = ob_tx o1
      \<and> ob_account o2 = ob_account o1 \<and> ob_payment o2 = ob_payment o1
      \<and> (ob_reason o2 = ob_reason o1 \<or> ob_reason o2 = Vanished \<and> (ob_network o1, ob_key o1, ob_tx o1) \<in> V))"

definition moves :: "payment_key set \<Rightarrow> payment_key set \<Rightarrow> transfer_key set \<Rightarrow> db \<Rightarrow> db \<Rightarrow> bool" where
  "moves S E V db db' =
     (list_all2 (paymentMoves S E) (db_payments db) (db_payments db')
      \<and> list_all2 (transferMoves V) (db_observations db) (db_observations db') \<and> db_cursors db' = db_cursors db)"

lemma paymentMoves_refl [simp]: "paymentMoves S E r r"
  by (simp add: paymentMoves_def mayBecome_def)

lemma transferMoves_refl [simp]: "transferMoves V o1 o1"
  by (simp add: transferMoves_def)

lemma moves_refl [simp]: "moves S E V db db"
  by (simp add: moves_def list.rel_refl)

lemma moves_trans: "moves S E V a b \<Longrightarrow> moves S E V b c \<Longrightarrow> moves S E V a c"
  unfolding moves_def
  by (intro conjI; (elim conjE)?)
    (rule list_all2_trans [of "paymentMoves S E" "paymentMoves S E"], auto simp: paymentMoves_def mayBecome_def,
     rule list_all2_trans [of "transferMoves V" "transferMoves V"], auto simp: transferMoves_def)

lemma moves_frame: "db_payments b = db_payments a \<Longrightarrow> db_observations b = db_observations a \<Longrightarrow> db_cursors b = db_cursors a \<Longrightarrow> moves S E V a b"
  by (simp add: moves_def list.rel_refl)

lemma list_all2_updateWhere: "(\<And>r. r \<in> set rows \<Longrightarrow> P r \<Longrightarrow> R r (f r)) \<Longrightarrow> (\<And>r. R r r) \<Longrightarrow> list_all2 R rows (updateWhere P f rows)"
  unfolding updateWhere_def list_all2_map2 by (intro list_all2_same [THEN iffD2]) auto

lemma savePayment_moves:
  assumes "savePayment clock db account q at = Inr db'"
    and "\<And>r. r \<in> set (db_payments db) \<Longrightarrow> atRevision account (pay_id q) (rev_at at) r \<Longrightarrow> mayBecome S E r (pay_status q)"
  shows "moves S E V db db'"
  using assms by (auto simp: savePayment_Inr_iff moves_def list.rel_refl paymentMoves_def intro!: list_all2_updateWhere)

lemma Save_moves:
  assumes "Save clock db account (Some q) at e = Inr db'"
    and "\<And>r. r \<in> set (db_payments db) \<Longrightarrow> atRevision account (pay_id q) (rev_at at) r \<Longrightarrow> mayBecome S E r (pay_status q)"
  shows "moves S E V db db'"
proof -
  obtain db1 where d: "savePayment clock db account q at = Inr db1" "db_payments db' = db_payments db1"
    using Save_frame(2) [OF assms(1)] by blast
  have "moves S E V db db1" by (rule savePayment_moves [OF d(1) assms(2)])
  moreover have "db_observations db' = db_observations db1 \<and> db_cursors db' = db_cursors db1"
    by (subst (1 2) Save_frame(1) [OF assms(1)]) (use d(1) in \<open>auto simp: savePayment_Inr_iff\<close>)
  ultimately show ?thesis using d(2) by (simp add: moves_def)
qed

lemma worker_told_moves:
  assumes "worker_told clock db account q at = Inr db'"
    and "\<And>r. r \<in> set (db_payments db) \<Longrightarrow> atRevision account (pay_id q) (rev_at at) r \<Longrightarrow> mayBecome S E r (pay_status q)"
  shows "moves S E V db db'"
proof -
  obtain e where "db' = db \<or> Save clock db account (Some q) at e = Inr db'"
    using assms(1) by (auto simp: worker_told_def res_simps passStale_def split: option.splits if_splits)
  then show ?thesis using Save_moves [OF _ assms(2)] by auto
qed

lemma returned_moves: "returned clock db account r at = Inr db' \<Longrightarrow> moves S E V db db'"
proof -
  assume a: "returned clock db account r at = Inr db'"
  obtain e where "db' = db \<or> SaveRefund clock db account (Some r) at e = Inr db'"
    using a by (auto simp: returned_def res_simps passStale_def split: option.splits if_splits)
  then show ?thesis
  proof
    assume "SaveRefund clock db account (Some r) at e = Inr db'"
    from SaveRefund_frame(1) [OF this] show ?thesis by (intro moves_frame) auto
  qed simp
qed

lemma unreceive_moves:
  assumes "unreceive clock db one = Inr db'" "payments_keyed db"
  shows "moves S E V db db'"
proof -
  consider "db' = db" | p at q where "find_payment db (gone_account one) (gone_payment one) = Inr (p, at)"
      "Unreceive p = Inr q" "savePayment clock db (gone_account one) q at = Inr db'"
    using assms(1) by (auto simp: unreceive_def res_simps split: if_splits)
  then show ?thesis
  proof cases
    case 2
    obtain r0 where r0: "r0 \<in> set (db_payments db)" "isPayment (gone_account one) (gone_payment one) r0" "rowPayment r0 = Inr (p, at)"
      using find_payment_row [OF 2(1)] by blast
    have q: "pay_status q = pay_status p" "pay_id q = pay_id p" using 2(2) by (auto simp: payment_moves)
    have "mayBecome S E r (pay_status q)" if r: "r \<in> set (db_payments db)" "atRevision (gone_account one) (pay_id q) (rev_at at) r" for r
    proof -
      have "r = r0"
        using keyed_unique [OF assms(2) r(1) r0(1)] r(2) r0(2) q(2) rowPayment_Inr(2) [OF r0(3)]
        by (simp add: atRevision_def isPayment_def)
      then show ?thesis using q(1) rowPayment_Inr(3) [OF r0(3)] by (simp add: mayBecome_def)
    qed
    then show ?thesis by (rule savePayment_moves [OF 2(3)])
  qed simp
qed

lemma unconfirm_moves: "unconfirm db one = Inr db' \<Longrightarrow> moves S E V db db'"
  by (auto simp: unconfirm_def res_simps saveAttempt_Inr_iff split: if_splits intro!: moves_frame)

lemma taken_moves:
  assumes "taken clock db one = Inr db'" "payments_keyed db" "attempts_keyed db"
  shows "moves S E V db db'"
proof -
  obtain d where d: "unconfirm db one = Inr d" "unreceive clock d one = Inr db'"
    using assms(1) by (auto simp: taken_def res_simps)
  have "payments_keyed d" using unconfirm_advances [OF d(1) assms(2,3)] by (rule advances_keyed)
  from unreceive_moves [OF d(2) this] unconfirm_moves [OF d(1)] show ?thesis by (rule moves_trans [rotated])
qed

lemma Vanish_moves:
  assumes "Vanish clock db network key tx now = Inr db'" "payments_keyed db" "attempts_keyed db" "(network, key, tx) \<in> V"
  shows "moves S E V db db'"
proof (cases "List.find (\<lambda>r. isObservation network key tx r \<and> ob_reason r \<noteq> Vanished) (db_observations db)")
  case (Some r)
  let ?db1 = "db\<lparr>db_observations := updateWhere (isObservation network key tx) (vanished now) (db_observations db)\<rparr>"
  have e: "each (taken clock) ?db1 (goneOf r) = Inr db'" using assms(1) Some by (simp add: Vanish_def Let_def)
  have m1: "moves S E V db ?db1"
    using assms(4) by (auto simp: moves_def list.rel_refl transferMoves_def vanished_def isObservation_def intro!: list_all2_updateWhere)
  let ?R = "\<lambda>d. moves S E V db d \<and> payments_keyed d \<and> attempts_keyed d"
  have "?R db'"
  proof (rule each_rel [where R = ?R, OF e])
    fix d x d' assume r: "?R d" and t: "taken clock d x = Inr d'"
    have "moves S E V d d'" using taken_moves [OF t] r by blast
    moreover have "payments_keyed d' \<and> attempts_keyed d'" using taken_advances [OF t] r advances_keyed by blast
    ultimately show "?R d'" using r moves_trans by blast
  qed (use m1 assms(2,3) in simp)
  then show ?thesis by simp
qed (use assms(1) in \<open>simp add: Vanish_def\<close>)


subsection \<open>The endpoints that agreed\<close>

text \<open>As many of the endpoints as agreement takes gave this answer when the round asked about its \<open>k\<close>th transfer.\<close>

definition agreedOn :: "net \<Rightarrow> nat \<Rightarrow> meets \<Rightarrow> nat \<Rightarrow> recorded_transfer \<Rightarrow> verdict \<Rightarrow> bool" where
  "agreedOn n endpoints m k r v =
     (net_agreements n \<le> int (card {j \<in> {..<endpoints}. asked (mt_endpoint m k j) r = Inr v}))"

definition recordedOf :: "standing \<Rightarrow> recorded_transfer" where
  "recordedOf c = \<lparr>fr_tx = sd_tx c, fr_height = sd_height c, fr_hash = sd_hash c\<rparr>"

lemma saids_all: "set (saids r es) \<subseteq> {v} \<Longrightarrow> length (saids r es) = length (filter (\<lambda>e. asked e r = Inr v) es)"
proof (induction es)
  case (Cons e es)
  then show ?case by (cases "asked e r") simp_all
qed simp

lemma askFor_agreed:
  assumes "askFor n m k asking c = Inr a" "an_verdict a \<noteq> VUnanswered" "an_verdict a \<noteq> VDisagreed"
    and "distinct asking" "set asking \<subseteq> {..<endpoints}"
  shows "agreedOn n endpoints m k (recordedOf c) (an_verdict a)"
proof -
  let ?r = "recordedOf c" and ?v = "an_verdict a"
  have "Ask (mt_stopped m k) (map (mt_endpoint m k) asking) (net_agreements n) ?r = Inr a"
    using assms(1,2) by (auto simp: askFor_def recordedOf_def split: if_splits)
  then obtain i where i: "saids ?r (take i (map (mt_endpoint m k) asking)) = replicate (nat (net_agreements n)) ?v"
    using Ask_agreed assms(2,3) by blast
  have "length (saids ?r (take i (map (mt_endpoint m k) asking)))
    = length (filter (\<lambda>e. asked e ?r = Inr ?v) (take i (map (mt_endpoint m k) asking)))"
    by (rule saids_all) (simp add: i set_replicate_conv_if)
  then have l: "nat (net_agreements n) = length (filter (\<lambda>j. asked (mt_endpoint m k j) ?r = Inr ?v) (take i asking))"
    using i by (simp add: take_map filter_map comp_def)
  have "distinct (take i asking)" using assms(4) by simp
  then have "nat (net_agreements n) = card (set (filter (\<lambda>j. asked (mt_endpoint m k j) ?r = Inr ?v) (take i asking)))"
    using l distinct_card [OF distinct_filter] by (metis (no_types, lifting))
  also have "\<dots> \<le> card {j \<in> {..<endpoints}. asked (mt_endpoint m k j) ?r = Inr ?v}"
    by (rule card_mono) (use assms(5) in \<open>auto dest: in_set_takeD\<close>)
  finally show ?thesis by (simp add: agreedOn_def)
qed

subsection \<open>What a round may move\<close>

definition agreedPaid :: "net \<Rightarrow> nat \<Rightarrow> meets \<Rightarrow> standing list \<Rightarrow> payment_key set" where
  "agreedPaid n endpoints m ws = {(cand_account c, pay_id (cand_payment c)) | c k.
     standingPayment c \<in> set ws \<and> agreedOn n endpoints m k (recordedOf (standingPayment c)) VFinal}"

definition agreedGone :: "net \<Rightarrow> nat \<Rightarrow> meets \<Rightarrow> heard \<Rightarrow> standing list \<Rightarrow> transfer_key set" where
  "agreedGone n endpoints m answers ws = {(net_name n, sd_key c, sd_tx c) | c k.
     c \<in> set ws \<and> agreedOn n endpoints m k (recordedOf c) VGone
     \<and> net_misses n \<le> sa_rounds (hears (answers (sd_key c, sd_tx c)) VGone)}"

lemma keyed_holds: "holds db P R \<Longrightarrow> payments_keyed db \<and> attempts_keyed db"
  by (drule holds_reaches, drule reaches_inv) (simp add: dbInv_def soundDb_def)

lemma seen_moves:
  assumes "\<And>r. transferMoves V r (f r)"
  shows "moves S E V db (db\<lparr>db_observations := updateWhere P f (db_observations db)\<rparr>)"
  using list_all2_updateWhere [of _ P "transferMoves V" f] assms by (simp add: moves_def list.rel_refl)

lemma marked_moves: "moves S E V db (marked n now db c before s)"
proof -
  have "moves S E V db (Disagree db x y z now)" "moves S E V db (Agree db x y z)" for x y z
    by (simp_all add: Disagree_def Agree_def seen_moves transferMoves_def)
  then show ?thesis by (simp add: marked_def split: option.split)
qed

lemma hears_verdict [simp]: "sa_verdict (hears before v) = v"
  by (simp add: hears_def Let_def)

lemma decided_moves:
  assumes "decided n clock now db c (hears before v) = Inr db'" "payments_keyed db" "attempts_keyed db"
    and "\<And>p. v = VFinal \<Longrightarrow> c = standingPayment p \<Longrightarrow> (cand_account p, pay_id (cand_payment p)) \<in> S"
    and "v = VGone \<Longrightarrow> net_misses n \<le> sa_rounds (hears before VGone) \<Longrightarrow> (net_name n, sd_key c, sd_tx c) \<in> V"
    and "\<And>p. sd_for c = ForPayment p \<Longrightarrow> c = standingPayment p"
  shows "moves S E V db db'"
  using assms(1)
proof (cases rule: decided_cases)
  case (2 p)
  have s: "(cand_account p, pay_id (cand_payment p)) \<in> S" using 2 assms(4) [OF _ assms(6)] by simp
  show ?thesis
  proof (cases "Succeed (cand_payment p)")
    case (Inr q)
    then have q: "pay_status q = Succeeded" "pay_id q = pay_id (cand_payment p)" by (auto simp: payment_moves)
    have "worker_told clock db (cand_account p) q (cand_paymentAt p) = Inr db'" using 2 Inr by (simp add: pay_def)
    then show ?thesis by (rule worker_told_moves) (use q s in \<open>auto simp: atRevision_def isPayment_def mayBecome_def\<close>)
  qed (use 2 in \<open>simp add: pay_def\<close>)
next
  case (3 r)
  then show ?thesis by (auto simp: settle_def split: sum.splits intro: returned_moves)
next
  case 4
  then show ?thesis using Vanish_moves assms(2,3,5) by auto
qed simp


lemma dropSilent_ok: "distinct asking \<Longrightarrow> set asking \<subseteq> A \<Longrightarrow> distinct (dropSilent silent asking) \<and> set (dropSilent silent asking) \<subseteq> A"
  using set_nths_subset by (fastforce simp: dropSilent_def)

lemma roundAsk_moves:
  assumes "roundAsk n m before k st c = (st', err)" "holds (rs_db st) P R" "standingHeld P R c"
    and before: "before = answers (sd_key c, sd_tx c)" and "distinct (rs_asking st)" "set (rs_asking st) \<subseteq> {..<endpoints}"
    and "c \<in> set ws" "\<And>p. sd_for c = ForPayment p \<Longrightarrow> c = standingPayment p"
  shows "moves (agreedPaid n endpoints m ws) E (agreedGone n endpoints m answers ws) (rs_db st) (rs_db st')
    \<and> distinct (rs_asking st') \<and> set (rs_asking st') \<subseteq> {..<endpoints}"
proof (cases "askFor n m k (rs_asking st) c")
  case (Inr a)
  let ?v = "an_verdict a"
  have drop: "distinct (dropSilent (an_silent a) (rs_asking st))" "set (dropSilent (an_silent a) (rs_asking st)) \<subseteq> {..<endpoints}"
    using dropSilent_ok [OF assms(5,6)] by auto
  show ?thesis
  proof (cases "?v = VUnanswered")
    case True
    then show ?thesis using assms(1) Inr drop by (auto simp: roundAsk_def Let_def)
  next
    case False
    let ?s = "hears before ?v" and ?db = "marked n (mt_now m k) (rs_db st) c before (hears before ?v)"
    have m1: "moves (agreedPaid n endpoints m ws) E (agreedGone n endpoints m answers ws) (rs_db st) ?db" by (rule marked_moves)
    have agreed: "agreedOn n endpoints m k (recordedOf c) ?v" if "?v \<noteq> VDisagreed"
      using askFor_agreed [OF Inr False that assms(5,6)] .
    show ?thesis
    proof (cases "decided n (mt_clock m k) (mt_now m k) ?db c ?s")
      case (Inr db2)
      have "moves (agreedPaid n endpoints m ws) E (agreedGone n endpoints m answers ws) ?db db2"
      proof (rule decided_moves [OF Inr])
        show "payments_keyed ?db" "attempts_keyed ?db" using keyed_holds [OF marked_holds [OF assms(2)]] by auto
      qed (use agreed assms(4,7,8) in \<open>auto simp: agreedPaid_def agreedGone_def\<close>)
      then have "moves (agreedPaid n endpoints m ws) E (agreedGone n endpoints m answers ws) (rs_db st) db2"
        by (rule moves_trans [OF m1])
      then show ?thesis using assms(1) False \<open>askFor n m k (rs_asking st) c = Inr a\<close> Inr drop
        by (auto simp: roundAsk_def Let_def)
    qed (use assms(1) False Inr m1 drop in \<open>auto simp: roundAsk_def Let_def\<close>)
  qed
qed (use assms(1,5,6) in \<open>simp add: roundAsk_def\<close>)

lemma roundStep_cases:
  assumes "roundStep n m answers k st c = (st', err)"
  obtains "rs_db st' = rs_db st" "rs_asking st' = rs_asking st"
  | "roundAsk n m (answers (sd_key c, sd_tx c)) k st c = (st', err)"
  using assms by (auto simp: roundStep_def Let_def split: option.splits if_splits)

lemma roundLoop_moves:
  assumes "roundLoop n m answers k st cs = (st', err)" "holds (rs_db st) P R" "\<forall>c\<in>set cs. standingHeld P R c"
    and "distinct (rs_asking st)" "set (rs_asking st) \<subseteq> {..<endpoints}"
    and "set cs \<subseteq> set ws" "\<forall>c\<in>set cs. \<forall>p. sd_for c = ForPayment p \<longrightarrow> c = standingPayment p"
  shows "moves (agreedPaid n endpoints m ws) E (agreedGone n endpoints m answers ws) (rs_db st) (rs_db st')"
  using assms
proof (induction cs arbitrary: k st)
  case (Cons c cs)
  obtain st1 e1 where s: "roundStep n m answers k st c = (st1, e1)" by (cases "roundStep n m answers k st c")
  have one: "moves (agreedPaid n endpoints m ws) E (agreedGone n endpoints m answers ws) (rs_db st) (rs_db st1)
      \<and> distinct (rs_asking st1) \<and> set (rs_asking st1) \<subseteq> {..<endpoints} \<and> holds (rs_db st1) P R"
    using s
  proof (cases rule: roundStep_cases)
    case 1
    then show ?thesis using Cons.prems by simp
  next
    case 2
    then show ?thesis
      using roundAsk_moves [OF 2 Cons.prems(2), where answers = answers and ws = ws and E = E] Cons.prems(4,5) roundAsk_holds [OF 2 Cons.prems(2)] Cons.prems(3,6,7) by simp
  qed
  show ?case
  proof (cases e1)
    case None
    then have "roundLoop n m answers (k + 1) st1 cs = (st', err)" using Cons.prems(1) s by simp
    from Cons.IH [OF this] show ?thesis using one Cons.prems by (auto intro: moves_trans)
  qed (use Cons.prems(1) s one in simp)
qed simp


subsection \<open>What the sweeps move\<close>

definition doomed :: "db \<Rightarrow> string \<Rightarrow> payment_key set" where
  "doomed db network = {(prow_account p, prow_id p) | p. p \<in> set (db_payments db) \<and> prow_network p = network
     \<and> readPast db network (prow_expiresAt p) \<and> \<not> mayPay db p}"

lemma eachKept_moves:
  assumes "eachKept f db xs = (db', err)" "\<And>d x d'. x \<in> set xs \<Longrightarrow> f d x = Inr d' \<Longrightarrow> moves S E V d d'"
  shows "moves S E V db db'"
  using assms
proof (induction xs arbitrary: db)
  case (Cons x xs)
  show ?case
  proof (cases "f db x")
    case (Inr d)
    have "moves S E V db d" by (rule Cons.prems(2) [OF _ Inr]) simp
    moreover have "moves S E V d db'" by (rule Cons.IH) (use Cons.prems(1) Inr in simp, rule Cons.prems(2), auto)
    ultimately show ?thesis by (rule moves_trans)
  qed (use Cons.prems in simp)
qed simp

lemma sweep_moves:
  assumes "sweep found f db = (db', err)" "\<And>ds d x d'. found = Inr ds \<Longrightarrow> x \<in> set ds \<Longrightarrow> f d x = Inr d' \<Longrightarrow> moves S E V d d'"
  shows "moves S E V db db'"
  using assms by (cases found) (auto simp: sweep_def intro: eachKept_moves)

lemma awaitDue_moves: "awaitDue clock now d x = Inr d' \<Longrightarrow> moves S E V d d'"
  by (auto simp: awaitDue_def payment_moves mayBecome_def split: sum.splits elim!: worker_told_moves)

lemma expireDue_moves: "expireDue clock d x = Inr d' \<Longrightarrow> (due_account x, pay_id (due_payment x)) \<in> E \<Longrightarrow> moves S E V d d'"
  by (auto simp: expireDue_def Expire_def moveTo_Inr_iff mayBecome_def atRevision_def isPayment_def split: sum.splits elim!: worker_told_moves)

lemma refund_sweep_moves: "awaitRefund clock d x = Inr d' \<Longrightarrow> moves S E V d d'" "expireRefund clock d x = Inr d' \<Longrightarrow> moves S E V d d'"
  by (auto simp: awaitRefund_def expireRefund_def split: sum.splits intro: returned_moves)

lemma Unsettled_doomed: "Unsettled db network limit = Inr ds \<Longrightarrow> d \<in> set ds \<Longrightarrow> (due_account d, pay_id (due_payment d)) \<in> doomed db network"
proof -
  assume a: "Unsettled db network limit = Inr ds" "d \<in> set ds"
  obtain p where "p \<in> set (db_payments db)" "rowPayment (narrow p) = Inr (due_payment d, due_paymentAt d)"
      "due_account d = prow_account p" "prow_network p = network" "readPast db network (prow_expiresAt p)" "\<not> mayPay db p"
    using Unsettled_row [OF a] by blast
  then show ?thesis using rowPayment_Inr(2) [of "narrow p"] by (auto simp: doomed_def narrow_def)
qed

text \<open>The sweeps leave the observations and the positions, so what dooms a payment still does after them.\<close>

lemma swept_moves:
  assumes "swept limit clock network now db = (db', err)"
  shows "\<exists>d. moves S {} {} db d \<and> moves S (doomed d network) {} d db'"
proof -
  obtain d1 e1 where s1: "sweep (Overdue db network now limit) (awaitDue clock now) db = (d1, e1)" by fastforce
  obtain d2 e2 where s2: "sweep (Unsettled d1 network limit) (expireDue clock) d1 = (d2, e2)" by fastforce
  obtain d3 e3 where s3: "sweep (OverdueRefunds d2 network now limit) (awaitRefund clock) d2 = (d3, e3)" by fastforce
  obtain d4 e4 where s4: "sweep (UnsettledRefunds d3 network limit) (expireRefund clock) d3 = (d4, e4)" by fastforce
  have m1: "moves S {} {} db d1" by (rule sweep_moves [OF s1 awaitDue_moves])
  have m2: "moves S (doomed d1 network) {} d1 d2" by (rule sweep_moves [OF s2 expireDue_moves]) (auto dest: Unsettled_doomed)
  have m3: "moves S (doomed d1 network) {} d2 d3" by (rule sweep_moves [OF s3 refund_sweep_moves(1)])
  have m4: "moves S (doomed d1 network) {} d3 d4" by (rule sweep_moves [OF s4 refund_sweep_moves(2)])
  have "db' \<in> {d1, d2, d3, d4}"
    using assms(1) s1 s2 s3 s4 by (auto simp: swept_def sweptRefunds_def split: option.splits)
  then have "moves S (doomed d1 network) {} d1 db'" using m2 m3 m4 by (auto intro: moves_trans)
  then show ?thesis using m1 by blast
qed


section \<open>What lets a payment succeed or expire\<close>

definition oneRowEach :: "db \<Rightarrow> bool" where
  "oneRowEach db = distinct (map (\<lambda>r. (prow_account r, prow_id r)) (db_payments db))"

lemma reaches_oneRowEach: "reaches db \<Longrightarrow> oneRowEach db"
  by (drule reaches_inv) (simp add: dbInv_def soundDb_def payments_keyed_def oneRowEach_def)

lemma oneRow_unique:
  "oneRowEach db \<Longrightarrow> r \<in> set (db_payments db) \<Longrightarrow> r' \<in> set (db_payments db) \<Longrightarrow>
     prow_account r = prow_account r' \<Longrightarrow> prow_id r = prow_id r' \<Longrightarrow> r = r'"
  unfolding oneRowEach_def using distinct_key_unique [of "\<lambda>r. (prow_account r, prow_id r)"] by blast

lemma moves_oneRow: "moves S E V a b \<Longrightarrow> oneRowEach a \<Longrightarrow> oneRowEach b"
proof -
  assume m: "moves S E V a b" and k: "oneRowEach a"
  have "map (\<lambda>r. (prow_account r, prow_id r)) (db_payments b) = map (\<lambda>r. (prow_account r, prow_id r)) (db_payments a)"
    using m by (auto simp: moves_def list_eq_iff_nth_eq list_all2_conv_all_nth paymentMoves_def)
  then show ?thesis using k by (simp add: oneRowEach_def)
qed

lemma list_all2_image: "list_all2 R xs ys \<Longrightarrow> x \<in> set xs \<Longrightarrow> \<exists>y\<in>set ys. R x y"
  by (induction rule: list_all2_induct) auto

lemma moves_payment:
  assumes "moves S E V a b" "oneRowEach a" "p \<in> set (db_payments a)" "p' \<in> set (db_payments b)"
    and "isPayment (prow_account p) (prow_id p) p'"
  shows "paymentMoves S E p p'"
proof -
  obtain r where r: "r \<in> set (db_payments a)" "paymentMoves S E r p'" 
    using list_all2_preimage [of "paymentMoves S E" "db_payments a" "db_payments b"] assms(1,4) unfolding moves_def by blast
  then have "r = p" using oneRow_unique [OF assms(2) r(1) assms(3)] assms(5) by (simp add: paymentMoves_def isPayment_def)
  then show ?thesis using r(2) by simp
qed

lemma moves_payment_image:
  assumes "moves S E V a b" "p \<in> set (db_payments a)"
  obtains p' where "p' \<in> set (db_payments b)" "paymentMoves S E p p'"
  using list_all2_image [of "paymentMoves S E" "db_payments a" "db_payments b"] assms unfolding moves_def by blast

lemma moves_mono: "moves S E V a b \<Longrightarrow> S \<subseteq> S' \<Longrightarrow> E \<subseteq> E' \<Longrightarrow> V \<subseteq> V' \<Longrightarrow> moves S' E' V' a b"
  unfolding moves_def by (auto elim!: list_all2_mono simp: paymentMoves_def mayBecome_def transferMoves_def)

lemma candidate_seen:
  assumes "Candidates db network from limit = Inr cs" "c \<in> set cs"
  shows "\<exists>o1\<in>set (db_observations db). settleable network o1 \<and> ob_account o1 = cand_account c
    \<and> ob_payment o1 = pay_id (cand_payment c) \<and> ob_key o1 = cand_key c
    \<and> recordedOf (standingPayment c) = \<lparr>fr_tx = ob_tx o1, fr_height = word_of_int (ob_height o1), fr_hash = ob_hash o1\<rparr>"
proof -
  obtain o1 p where o1: "o1 \<in> set (db_observations db)" "settleable network o1" "isPayment (ob_account o1) (ob_payment o1) p"
      "candidateOf (o1, p) = Inr c" using Candidates_row [OF assms] by metis
  have c: "rowPayment (narrow p) = Inr (cand_payment c, cand_paymentAt c)" "cand_account c = ob_account o1"
     "cand_key c = ob_key o1" "cand_tx c = ob_tx o1" "cand_blockHeight c = word_of_int (ob_height o1)" "cand_blockHash c = ob_hash o1"
    using candidateOf_Inr [OF o1(4)] by auto
  then show ?thesis using o1(1-3) rowPayment_Inr(2) [OF c(1)]
    by (intro bexI [OF _ o1(1)]) (auto simp: recordedOf_def standingPayment_def isPayment_def narrow_def)
qed

lemma refund_candidate_seen:
  assumes "RefundCandidates db network from limit = Inr rs" "c \<in> set rs"
  shows "\<exists>o1\<in>set (db_observations db). settleable network o1 \<and> ob_key o1 = rcand_key c
    \<and> recordedOf (standingRefund c) = \<lparr>fr_tx = ob_tx o1, fr_height = word_of_int (ob_height o1), fr_hash = ob_hash o1\<rparr>"
proof -
  have e: "eachRow refundCandidateOf (pageAfter rowPlace (int (unat (pl_height from)), pl_tx from) limit (returnRows db network)) = Inr rs"
    using assms(1) by (simp add: RefundCandidates_def split: if_splits)
  obtain o1 r p where o1: "(o1, r, p) \<in> set (pageAfter rowPlace (int (unat (pl_height from)), pl_tx from) limit (returnRows db network))"
      "refundCandidateOf (o1, r, p) = Inr c"
    using eachRow_Inr [OF e assms(2)] by auto
  then have "(o1, r, p) \<in> set (returnRows db network)" by (auto dest: pageAfter_after)
  then have "o1 \<in> set (db_observations db)" "settleable network o1" by (auto simp: returnRows_def split: option.splits if_splits)
  then show ?thesis using o1(2)
    by (intro bexI [of _ o1]) (auto simp: refundCandidateOf_def res_simps recordedOf_def standingRefund_def split: if_splits)
qed

lemma round_held:
  assumes "Candidates db network from limit = Inr cs" "RefundCandidates db network from' limit = Inr rs" "reaches db"
  shows "\<exists>P R. holds db P R \<and> (\<forall>c\<in>set (work cs rs). standingHeld P R c)"
proof -
  let ?pf = "\<lambda>c. (cand_account c, cand_payment c, cand_paymentAt c)"
  let ?rf = "\<lambda>c. (rcand_account c, rcand_refund c, rcand_refundAt c)"
  have "\<forall>c\<in>set cs. \<exists>r\<in>set (db_payments db). fst (?pf c) = prow_account r \<and> rowPayment (narrow r) = Inr (snd (?pf c))"
    using Candidates_copy [OF assms(1)] by simp
  from holds_reads [OF reaches_holds [OF assms(3)] this] have "holds db (?pf ` set cs \<union> {}) {}" .
  moreover have "\<forall>c\<in>set rs. \<exists>r\<in>set (db_refunds db). \<exists>p. fst (?rf c) = rrow_account r \<and> rowRefund r p = Inr (snd (?rf c))"
    using RefundCandidates_row [OF assms(2)] by fastforce
  ultimately have "holds db (?pf ` set cs \<union> {}) (?rf ` set rs \<union> {})" by (rule holds_refund_reads)
  moreover have "\<forall>c\<in>set (work cs rs). standingHeld (?pf ` set cs \<union> {}) (?rf ` set rs \<union> {}) c"
    by (auto simp: work_def standingHeld_def standingPayment_def standingRefund_def)
  ultimately show ?thesis by blast
qed

lemma round_moves:
  assumes "finality_round n endpoints limit m db w = (db', w', short, err)" "reaches db"
  obtains cs rs d where
    "\<forall>c\<in>set cs. \<exists>o1\<in>set (db_observations db). settleable (net_name n) o1 \<and> ob_account o1 = cand_account c
      \<and> ob_payment o1 = pay_id (cand_payment c) \<and> ob_key o1 = cand_key c
      \<and> recordedOf (standingPayment c) = \<lparr>fr_tx = ob_tx o1, fr_height = word_of_int (ob_height o1), fr_hash = ob_hash o1\<rparr>"
    "\<forall>c\<in>set rs. \<exists>o1\<in>set (db_observations db). settleable (net_name n) o1 \<and> ob_key o1 = rcand_key c
      \<and> recordedOf (standingRefund c) = \<lparr>fr_tx = ob_tx o1, fr_height = word_of_int (ob_height o1), fr_hash = ob_hash o1\<rparr>"
    "moves (agreedPaid n endpoints m (work cs rs)) {} (agreedGone n endpoints m (wk_answers w) (work cs rs)) db d"
    "moves (agreedPaid n endpoints m (work cs rs)) (doomed d (net_name n)) {} d db'"
  using assms(1)
proof (cases rule: finality_round_cases)
  case 1
  then show ?thesis using that [of "[]" "[]" db] by simp
next
  case (2 cs rs st e)
  let ?S = "agreedPaid n endpoints m (work cs rs)" and ?V = "agreedGone n endpoints m (wk_answers w) (work cs rs)"
  obtain P R where h: "holds (rs_db (roundStart db w endpoints)) P R" "\<forall>c\<in>set (work cs rs). standingHeld P R c"
    using round_held [OF 2(1,2) assms(2)] unfolding roundStart_def by auto
  have m1: "moves ?S {} ?V db (rs_db st)"
  proof -
    have "set (rs_asking (roundStart db w endpoints)) \<subseteq> {..<endpoints}" "distinct (rs_asking (roundStart db w endpoints))"
      by (auto simp: roundStart_def)
    moreover have "\<forall>c\<in>set (work cs rs). \<forall>p. sd_for c = ForPayment p \<longrightarrow> c = standingPayment p"
      by (auto simp: work_def standingPayment_def standingRefund_def)
    ultimately have "moves ?S {} ?V (rs_db (roundStart db w endpoints)) (rs_db st)"
      by (intro roundLoop_moves [OF 2(3) h]) auto
    then show ?thesis by (simp add: roundStart_def)
  qed
  obtain d where d: "moves ?S {} {} (rs_db st) d" "moves ?S (doomed d (net_name n)) {} d db'"
  proof (cases "db' = rs_db st")
    case True
    then show ?thesis using that [of "rs_db st"] by simp
  next
    case False
    then show ?thesis using 2(5) swept_moves that by metis
  qed
  have m2: "moves ?S {} ?V db d" using moves_trans [OF m1 moves_mono [OF d(1)]] by simp
  show ?thesis by (rule that [OF _ _ m2 d(2)]) (use candidate_seen [OF 2(1)] refund_candidate_seen [OF 2(2)] in blast)+
qed

lemma doomed_still:
  assumes "moves S E {} d db'" "oneRowEach d" "p \<in> set (db_payments d)" "(prow_account p, prow_id p) \<in> doomed d network" "paymentMoves S E p p'"
  shows "prow_network p' = network \<and> readPast db' network (prow_expiresAt p') \<and> \<not> mayPay db' p'"
proof -
  obtain q where q: "q \<in> set (db_payments d)" "prow_account q = prow_account p" "prow_id q = prow_id p" "prow_network q = network"
      "readPast d network (prow_expiresAt q)" "\<not> mayPay d q" using assms(4) by (auto simp: doomed_def)
  have "q = p" by (rule oneRow_unique [OF assms(2) q(1) assms(3) q(2,3)])
  then show ?thesis
    using q assms(1,5) list_all2_preimage
    by (fastforce simp: moves_def paymentMoves_def transferMoves_def readPast_def mayPay_def list_ex_iff)
qed

end
