(* ===== verification/Finality_Run.thy ===== *)
theory Finality_Run
  imports Moves
begin

text \<open>
  A run up to a round of the worker that settles a payment: an attempt is issued, a transfer of the whole
  amount is recorded where the chain keeps it, and two endpoints say it is final.
\<close>

section \<open>Events that carry a transfer\<close>

lemma demo_block_text: "rfc3339Nano (500 * Second) = Some ''0001-01-01T00:08:20Z''"
proof -
  have "pad 2 8 = ''08''" "pad 2 20 = ''20''" by code_simp+
  then show ?thesis by (simp add: rfc3339Nano_def civil_0 pad_texts)
qed

lemma demo_unat7: "unat (7 :: uint64) = 7" by simp

lemma demo_body:
  assumes "Valid st" "m = noMoney \<or> m = demo_money 100" "t = None \<or> (\<exists>s. t = Some (demo_transfer ''100''\<lparr>tr_scheme := s\<rparr>))"
  shows "\<exists>b. bodyJSON (demo_payment st m) t = Some b \<and> length (encode b) \<le> MaxEventBytes"
proof -
  have st: "length (status_String st) \<le> 17" by (rule status_String_short [OF assms(1)])
  have n: "\<not> money_IsSet noMoney" by (simp add: noMoney_def money_IsSet_def)
  have seven: "length (bigString 7) = 1" by code_simp
  note defs = bodyJSON_def demo_payment_simps demo_created_text demo_expires_text [simplified] shownTransfer_def assetJSON_def demo_units metadataJSON_def
        demo_id_length demo_asset_def demo_transfer_def demo_block_text [simplified]
  obtain b where b: "bodyJSON (demo_payment st m) t = Some b"
    using assms(3) by (auto simp: defs)
  then have "jbound b \<le> 5000" using assms(2,3) n st seven by (auto simp: defs)
  then have "length (encode b) \<le> MaxEventBytes" using encode_length [of b] by (simp add: MaxEventBytes_def)
  then show ?thesis using b by blast
qed

lemma demo_announce:
  assumes "Valid st" "m = noMoney \<or> m = demo_money 100" "t = None \<or> (\<exists>s. t = Some (demo_transfer ''100''\<lparr>tr_scheme := s\<rparr>))"
  shows "\<exists>e. Announce (demo_payment st m) t = Some e \<and> checkEvent e = None \<and> Produced e
    \<and> ev_name e = ''payment.'' @ status_String st"
proof -
  obtain b where b: "bodyJSON (demo_payment st m) t = Some b" "length (encode b) \<le> MaxEventBytes" using demo_body [OF assms] by blast
  define e where "e = \<lparr>ev_name = ''payment.'' @ status_String st, ev_payload = encode b\<rparr>"
  have e: "Announce (demo_payment st m) t = Some e" by (simp add: e_def Announce_def told_def b(1) demo_payment_simps)
  from Announce_announced [OF this] have "announced e" by (simp add: assms(1) demo_payment_simps)
  then show ?thesis using e b(2) announced_checkEvent by (auto simp: announced_def e_def)
qed

lemma demo_confirming:
  "\<exists>e. AnnounceConfirming (demo_payment AwaitingPayment (demo_money 100)) (demo_transfer ''100'') = Some e \<and> checkEvent e = None \<and> Produced e
    \<and> ev_name e = ''attempt.confirming''"
proof -
  obtain b where b: "bodyJSON (demo_payment AwaitingPayment (demo_money 100)) (Some (demo_transfer ''100'')) = Some b" "length (encode b) \<le> MaxEventBytes"
    using demo_body [of AwaitingPayment "demo_money 100" "Some (demo_transfer ''100''\<lparr>tr_scheme := EIP3009\<rparr>)"]
    by (auto simp: Valid_def demo_transfer_def)
  define e where "e = \<lparr>ev_name = ''attempt.confirming'', ev_payload = encode b\<rparr>"
  have e: "AnnounceConfirming (demo_payment AwaitingPayment (demo_money 100)) (demo_transfer ''100'') = Some e"
    by (simp add: e_def AnnounceConfirming_def told_def b(1))
  from AnnounceConfirming_announced [OF this] have "announced e" .
  then show ?thesis using e b(2) announced_checkEvent by (auto simp: announced_def e_def)
qed


section \<open>A recorded transfer\<close>

definition demo_matched :: seen where
  "demo_matched = demo_seen\<lparr>seen_reason := Matched\<rparr>"

definition demo_final_obs :: observation_row where
  "demo_final_obs = demo_obs\<lparr>ob_reason := Matched, ob_finalAt := Some (501 * Second)\<rparr>"

definition demo_final :: db where
  "demo_final = (let e = the (AnnounceConfirming (demo_payment AwaitingPayment (demo_money 100)) (demo_transfer ''100'')) in
     (demo_paid AwaitingPayment (Some 100) 3)\<lparr>db_observations := [demo_final_obs],
        db_attempts := [restatused (demo_attempt Confirming ''0xB0B'') (newAttemptRow ''acct'' (demo_attempt Issued []))],
        db_outbox := [demo_told_row AwaitingPayment noMoney,
          \<lparr>ox_account = ''acct'', ox_payment = demo_id, ox_event = ev_name e, ox_payload = ev_payload e\<rparr>]\<rparr>)"

lemma demo_recorded_final:
  "recordOne (\<lambda>_. Some 100) (demo_paid AwaitingPayment None 2\<lparr>db_cursors := c\<rparr>) ''polygon'' (seenAgainstAttempt demo_matched) True (501 * Second)
     = Inr ((demo_paid AwaitingPayment None 2)\<lparr>db_observations := [demo_final_obs], db_cursors := c\<rparr>)"
proof -
  have t: "obs_transfer (seenAgainstAttempt demo_matched) = demo_transfer ''100''"
    by (simp add: seenAgainstAttempt_def demo_matched_def demo_seen_def)
  have h: "blockHeight (demo_transfer ''100'') = Inr 7"
    by (simp add: blockHeight_def demo_transfer_def MaxInt64_def)
  have n: "newObservationRow ''polygon'' (seenAgainstAttempt demo_matched) 7 100 True (501 * Second) = demo_final_obs"
    by (simp add: demo_final_obs_def demo_obs_def newObservationRow_def Let_def seenAgainstAttempt_def demo_matched_def demo_seen_def
        stamp_def truncateTime_def)
  have "upsertObservation (demo_paid AwaitingPayment None 2\<lparr>db_cursors := c\<rparr>) demo_final_obs
      = Inr ((demo_paid AwaitingPayment None 2)\<lparr>db_observations := [demo_final_obs], db_cursors := c\<rparr>)"
    using demo_att_storable
    by (simp add: upsertObservation_def Let_def demo_final_obs_def demo_obs_simps storable_printable printable_def numeric78_def observationChecks_def
        observationKeys_def demo_paid_def demo_db_def isAttempt_def rowsAffected_def) (simp add: demo_attempt_def)
  then show ?thesis by (simp add: recordOne_def Let_def t demo_screen h n [simplified])
qed

lemma demo_Record:
  assumes "unat lo \<le> MaxInt64" "unat hi \<le> MaxInt64"
  shows "Record (\<lambda>_. Some 100) 0 (demo_paid AwaitingPayment None 2\<lparr>db_cursors := c\<rparr>) ''polygon'' lo hi True [demo_matched] [] (501 * Second)
    = Inr (demo_final\<lparr>db_cursors := c\<rparr>)"
proof -
  let ?db = "demo_paid AwaitingPayment None 2\<lparr>db_cursors := c\<rparr>" and ?r = "newAttemptRow ''acct'' (demo_attempt Issued [])"
  let ?db1 = "demo_paid AwaitingPayment None 2\<lparr>db_observations := [demo_final_obs], db_cursors := c\<rparr>" and ?q = "demo_payment AwaitingPayment (demo_money 100)"
  let ?db2 = "(demo_paid AwaitingPayment (Some 100) 3)\<lparr>db_observations := [demo_final_obs], db_cursors := c\<rparr>"
  let ?b = "demo_attempt Confirming ''0xB0B''"
  have a: "arow_attempt ?r = demo_attempt Issued []"
    by (simp add: newAttemptRow_def demo_attempt_def stamp_def truncateTime_def)
  have f: "find_payment ?db1 ''acct'' demo_id = Inr (demo_payment AwaitingPayment noMoney, \<lparr>rev_id = demo_id, rev_at = 2\<rparr>)"
    using demo_row_read [of AwaitingPayment None 2] by (simp add: find_payment_def demo_paid_def demo_db_def isPayment_def Valid_def)
  have m: "ParseMoney demo_asset ''100'' = Inr (demo_money 100)"
    using demo_amount [of 100] by (simp add: demo_hundred)
  have rec: "Receive (demo_payment AwaitingPayment noMoney) (demo_money 100) = Inr ?q"
    by (simp add: demo_payment_def Receive_def CanReceive_def recordArrival_def Cmp_def)
  have save: "savePayment 0 ?db1 ''acct'' ?q \<lparr>rev_id = demo_id, rev_at = 2\<rparr> = Inr ?db2"
    using demo_keyed [of AwaitingPayment "Some 100" 3]
      demo_rewritten [of AwaitingPayment "demo_money 100" "Some 100" 0 AwaitingPayment None 2]
    by (simp add: savePayment_Inr_iff payments_keyed_def numeric78_def isPayment_def atRevision_def demo_paid_def demo_db_def Valid_def Final_iff updateWhere_def demo_payment_simps split: if_splits)
  have arr: "arrived 0 ?db1 demo_matched = Inr ?db2"
    using f m rec save
    by (simp add: arrived_def demo_matched_def demo_seen_def demo_payment_simps demo_transfer_def CanReceive_def noMoney_def money_IsSet_def)
  have van: "vanish 0 ?db1 ''polygon'' lo hi [''0xT1''] (501 * Second) = Inr ?db1"
  proof -
    have "updateWhere (\<lambda>r. ob_network r = ''polygon'' \<and> low \<le> ob_height r \<and> ob_height r \<le> high
        \<and> \<not> List.member [''0xT1''] (ob_tx r) \<and> ob_reason r \<noteq> Vanished) f [demo_final_obs] = [demo_final_obs]" for low high f
      by (simp add: updateWhere_def demo_final_obs_def demo_obs_simps)
    then show ?thesis using assms by (simp add: vanish_def span_def Let_def demo_final_obs_def demo_obs_simps)
  qed
  obtain e where e: "AnnounceConfirming ?q (demo_transfer ''100'') = Some e" "checkEvent e = None" "Produced e" "ev_name e = ''attempt.confirming''"
    using demo_confirming by blast
  have who: "ParseAddress ''0xB0B'' = Inr ''0xB0B''"
    by (simp add: ParseAddress_Inr_iff MaxAddressBytes_def invisible_Has_printable printable_def)
  have con: "Confirm (demo_attempt Issued []) ''0xB0B'' = Inr ?b"
    by (simp add: Confirm_def demo_attempt_def who)
  have sv: "saveAttempt ?db2 ''acct'' ?b \<lparr>rev_id = att_id (demo_attempt Issued []), rev_at = 1\<rparr>
      = Inr (?db2\<lparr>db_attempts := [restatused ?b ?r]\<rparr>)"
    by (simp add: saveAttempt_Inr_iff attemptAt_def isAttempt_def ofPayment_def newAttemptRow_def demo_attempt_def updateWhere_def
        demo_paid_def demo_db_def attempt_Valid_def storable_printable printable_def)
  have f2: "find_payment (?db2\<lparr>db_attempts := [restatused ?b ?r]\<rparr>) ''acct'' demo_id = Inr (?q, \<lparr>rev_id = demo_id, rev_at = 3\<rparr>)"
    using demo_row_read [of AwaitingPayment "Some 100" 3] by (simp add: find_payment_def demo_paid_def demo_db_def isPayment_def Valid_def)
  have wo: "writeOutbox (?db2\<lparr>db_attempts := [restatused ?b ?r]\<rparr>) ''acct'' demo_id e = Inr (demo_final\<lparr>db_cursors := c\<rparr>)"
    using e by (simp add: writeOutbox_Inr_iff demo_final_def demo_paid_def demo_db_def isPayment_def)
  have "confirmOne (?db2, []) demo_matched = Inr (demo_final\<lparr>db_cursors := c\<rparr>, [?b])"
    using con sv f2 e(1) a wo
    by (simp add: confirmOne_def demo_matched_def demo_seen_def demo_payment_simps Let_def demo_transfer_def [THEN arg_cong [of _ _ tr_authorizer]])
  then have "confirmEach (?db2, []) [demo_matched] = Inr (demo_final\<lparr>db_cursors := c\<rparr>, [?b])" by simp
  moreover have "tr_tx (seen_transfer demo_matched) = ''0xT1''" by (simp add: demo_matched_def demo_seen_def demo_transfer_def)
  ultimately show ?thesis
    using demo_recorded_final van arr by (simp add: Record_def Let_def)
qed

lemma demo_final_run: "reaches demo_final"
proof -
  let ?db = "demo_paid AwaitingPayment None 2" and ?r = "newAttemptRow ''acct'' (demo_attempt Issued [])"
  have "arow_attempt ?r = demo_attempt Issued []"
    by (simp add: newAttemptRow_def demo_attempt_def stamp_def truncateTime_def)
  then have "scanAttempt (Some ?r) = Inr (arow_attempt ?r, \<lparr>rev_id = att_id (demo_attempt Issued []), rev_at = 1\<rparr>)"
    using demo_hex by (simp add: scanAttempt_Inr attempt_wf_def) (simp add: demo_attempt_def attempt_Valid_def)
  then obtain w where w: "reachable w" "w_db w = ?db" "(''acct'', hit_attempt (seen_hit demo_matched), hit_attemptAt (seen_hit demo_matched)) \<in> w_attempts w"
    using reaches_read_attempt [OF demo_issued, of ?r] by (auto simp: demo_paid_def demo_seen_def demo_matched_def)
  have c: "?db\<lparr>db_cursors := []\<rparr> = ?db" "demo_final\<lparr>db_cursors := []\<rparr> = demo_final"
    by (simp_all add: demo_final_def Let_def demo_paid_def demo_db_def)
  have "Record (\<lambda>_. Some 100) 0 ?db ''polygon'' 0 9 True [demo_matched] [] (501 * Second) = Inr demo_final"
    using demo_Record [of 0 9 "[]"] unfolding c by (simp add: MaxInt64_def)
  then have "step w (w\<lparr>w_db := demo_final\<rparr>)"
    using w by (intro step.record_round [where seen = "[demo_matched]" and sent = "[]"]) (auto simp: demo_seen_def demo_matched_def)
  then show ?thesis by (rule reaches_write [OF w(1)])
qed

section \<open>A round that settles it\<close>

definition demo_net :: net where
  "demo_net = \<lparr>net_name = ''polygon'', net_agreements = 2, net_recheck = Minute, net_misses = 3\<rparr>"

definition demo_carried :: chain_transfer where
  "demo_carried = \<lparr>ct_scheme = EIP3009, ct_asset = ''0xE7C3'', ct_key = hexEncode (replicate 32 3), ct_authorizer = ''0xB0B'',
     ct_from = ''0xB0B'', ct_to = ''0xA11CE'', ct_value = ''100'', ct_tx = ''0xT1'', ct_position = 0,
     ct_block = \<lparr>bl_height = 7, bl_hash = ''0xH7'', bl_parent = ''0xH6'', bl_time = 500 * Second\<rparr>\<rparr>"

definition demo_meets :: meets where
  "demo_meets = \<lparr>mt_endpoint = (\<lambda>_ _. demo_chain 9 ''1'' [demo_carried]), mt_stopped = (\<lambda>_ _. False),
     mt_clock = (\<lambda>_. 0), mt_now = (\<lambda>_. 600 * Second)\<rparr>"

definition demo_candidate :: candidate where
  "demo_candidate = \<lparr>cand_account = ''acct'', cand_payment = demo_payment AwaitingPayment (demo_money 100),
     cand_paymentAt = \<lparr>rev_id = demo_id, rev_at = 3\<rparr>, cand_key = hexEncode (replicate 32 3), cand_tx = ''0xT1'',
     cand_blockHeight = 7, cand_blockHash = ''0xH7''\<rparr>"

lemma demo_final_simps:
  "ob_network demo_final_obs = ''polygon''" "ob_reason demo_final_obs = Matched" "ob_finalAt demo_final_obs = Some (501 * Second)"
  "ob_account demo_final_obs = ''acct''" "ob_payment demo_final_obs = demo_id" "ob_height demo_final_obs = 7"
  "ob_tx demo_final_obs = ''0xT1''" "ob_hash demo_final_obs = ''0xH7''" "ob_key demo_final_obs = hexEncode (replicate 32 3)"
  "ob_attempt demo_final_obs = Some (att_id (demo_attempt Issued []))" "ob_refund demo_final_obs = None"
  by (simp_all add: demo_final_obs_def demo_obs_simps) (simp add: demo_obs_def newObservationRow_def Let_def)

lemma demo_final_tables:
  "db_payments demo_final = [demo_row AwaitingPayment (Some 100) 3]" "db_observations demo_final = [demo_final_obs]"
  "db_refunds demo_final = []" "db_cursors demo_final = []"
  by (simp_all add: demo_final_def Let_def demo_paid_def demo_db_def)

lemma demo_candidates: "Candidates demo_final ''polygon'' beginning 100 = Inr [demo_candidate]" "RefundCandidates demo_final ''polygon'' beginning 100 = Inr []"
  using demo_row_read [of AwaitingPayment "Some 100" 3]
  by (simp_all add: Candidates_def RefundCandidates_def beginning_def waitingRows_def returnRows_def demo_final_tables settleable_def demo_final_simps
     joined_def observedPayment_def observedRefund_def isPayment_def openForPayment_def pageAfter_def rowPlace_def placeOf_def candidateOf_def demo_narrow Valid_def demo_candidate_def less_prod_def)

lemma demo_matched_transfer: "MatchedTransfer demo_final ''acct'' demo_id = Inr (Some (demo_transfer ''100''\<lparr>tr_scheme := []\<rparr>))"
proof -
  have "rowTransfer demo_final_obs = Inr (demo_transfer ''100''\<lparr>tr_scheme := []\<rparr>)"
    by (simp add: rowTransfer_def demo_final_obs_def demo_obs_simps demo_hundred)
      (simp add: demo_obs_def newObservationRow_def Let_def demo_transfer_def seenAgainstAttempt_def demo_seen_def stamp_def truncateTime_def)
  then show ?thesis by (simp add: MatchedTransfer_def demo_final_tables demo_final_simps)
qed

lemma demo_paid_off:
  "\<exists>x. pay 0 demo_final demo_candidate = Inr (demo_final\<lparr>db_payments := [demo_closed], db_outbox := x\<rparr>)"
proof -
  let ?p = "demo_payment AwaitingPayment (demo_money 100)" and ?q = "demo_payment Succeeded (demo_money 100)"
  let ?t = "Some (demo_transfer ''100''\<lparr>tr_scheme := []\<rparr>)"
  obtain e where e: "Announce ?q ?t = Some e" "checkEvent e = None" "Produced e" "ev_name e = ''payment.succeeded''"
    using demo_announce [of Succeeded "demo_money 100" ?t] by (auto simp: Valid_def)
  have new: "rewritten 0 ?q (demo_row AwaitingPayment (Some 100) 3) = demo_closed"
    by (simp add: rewritten_def demo_closed_def demo_row_def newPaymentRow_def Let_def demo_payment_def receivedColumn_def
        Final_iff stamp_def truncateTime_def)
  have save: "savePayment 0 demo_final ''acct'' ?q \<lparr>rev_id = demo_id, rev_at = 3\<rparr> = Inr (demo_final\<lparr>db_payments := [demo_closed]\<rparr>)"
    using demo_savePayment [of ?q Succeeded "Some 100" 0 AwaitingPayment "Some 100" 3] new
    by (simp add: savePayment_Inr_iff atRevision_def demo_final_tables demo_db_def Valid_def updateWhere_def demo_payment_simps split: if_splits)
  let ?x = "db_outbox demo_final @ [\<lparr>ox_account = ''acct'', ox_payment = demo_id, ox_event = ev_name e, ox_payload = ev_payload e\<rparr>]"
  have "Save 0 demo_final ''acct'' (Some ?q) \<lparr>rev_id = demo_id, rev_at = 3\<rparr> e = Inr (demo_final\<lparr>db_payments := [demo_closed], db_outbox := ?x\<rparr>)"
    using save e by (simp add: Save_Inr_iff writeOutbox_Inr_iff demo_payment_simps demo_closed_def)
  moreover have "Succeed ?p = Inr ?q"
    by (simp add: payment_moves demo_payment_def CanBecome_iff covered_def Cmp_def)
  ultimately show ?thesis
    using demo_matched_transfer e(1) by (auto simp: pay_def demo_candidate_def worker_told_def demo_payment_simps passStale_def)
qed


lemma demo_asked: "asked (mt_endpoint demo_meets k j) \<lparr>fr_tx = ''0xT1'', fr_height = 7, fr_hash = ''0xH7''\<rparr> = Inr VFinal"
  by (simp add: asked_def settled_def demo_meets_def demo_chain_def Let_def demo_carried_def)

lemma demo_askFor: "askFor demo_net demo_meets 0 [0, 1] (standingPayment demo_candidate)
    = Inr \<lparr>an_verdict = VFinal, an_answered = 2, an_agreed = 2, an_silent = []\<rparr>"
  using demo_asked
  by (simp add: askFor_def Ask_def demo_net_def standingPayment_def demo_candidate_def demo_meets_def [THEN arg_cong [of _ _ mt_stopped]] noAnswers_def Let_def)

lemma demo_swept_nothing:
  assumes "db_payments db = [demo_closed]" "db_refunds db = []"
  shows "swept 100 clock ''polygon'' now db = (db, None)"
  using assms by (simp add: swept_def sweptRefunds_def sweep_def Overdue_def Unsettled_def OverdueRefunds_def UnsettledRefunds_def
     joined_def demo_closed_def)

lemma demo_settling:
  "\<exists>x w' short. finality_round demo_net 2 100 demo_meets demo_final newWorker
     = (demo_final\<lparr>db_payments := [demo_closed], db_outbox := x\<rparr>, w', short, None)"
proof -
  obtain x where x: "pay 0 demo_final demo_candidate = Inr (demo_final\<lparr>db_payments := [demo_closed], db_outbox := x\<rparr>)"
    using demo_paid_off by blast
  let ?s = "standingPayment demo_candidate"
  have d: "decided demo_net 0 now demo_final ?s (hears None VFinal) = Inr (demo_final\<lparr>db_payments := [demo_closed], db_outbox := x\<rparr>)" for now
    using x by (simp add: decided_def hears_def Let_def standingPayment_def)
  have m: "marked demo_net now demo_final ?s None (hears None VFinal) = demo_final" for now by (simp add: marked_def hears_def Let_def)
  have up: "[0..<2] = [0::nat, 1]" by (simp add: upt_rec)
  show ?thesis
    using d m demo_askFor demo_candidates
    by (simp add: finality_round_def demo_net_def [THEN arg_cong [of _ _ net_misses]] demo_net_def [THEN arg_cong [of _ _ net_agreements]]
      demo_net_def [THEN arg_cong [of _ _ net_name]] newWorker_def work_def roundStep_def roundAsk_def Let_def up
      demo_meets_def [THEN arg_cong [of _ _ mt_clock]] dropSilent_def demo_swept_nothing demo_final_tables) blast
qed

end
