(* ===== verification/Outcomes.thy ===== *)
theory Outcomes
  imports Finality_Run
begin

text \<open>
  When the worker lets a payment succeed or expire, and when it gives a recorded transfer up.
\<close>

text \<open>C16: A payment succeeds by agreement. Where a round of the worker leaves a payment succeeded that was not
  before it, a matched transfer recorded for it was final in the answers of as many endpoints as agreement
  takes.\<close>

theorem settled_only_on_agreement:
  assumes "reaches db" "finality_round n endpoints limit m db w = (db', w', short, err)"
    and "p \<in> set (db_payments db)" "p' \<in> set (db_payments db')" "isPayment (prow_account p) (prow_id p) p'"
    and "prow_status p \<noteq> Succeeded" "prow_status p' = Succeeded"
  shows "\<exists>o1\<in>set (db_observations db). settleable (net_name n) o1 \<and> ob_account o1 = prow_account p \<and> ob_payment o1 = prow_id p
    \<and> (\<exists>k. net_agreements n \<le> int (card {j \<in> {..<endpoints}. asked (mt_endpoint m k j)
              \<lparr>fr_tx = ob_tx o1, fr_height = word_of_int (ob_height o1), fr_hash = ob_hash o1\<rparr> = Inr VFinal}))"
  using assms(2,1)
proof (cases rule: round_moves)
  case (1 cs rs d)
  note k = reaches_oneRowEach [OF assms(1)]
  obtain q where q: "q \<in> set (db_payments d)" "paymentMoves (agreedPaid n endpoints m (work cs rs)) {} p q"
    using moves_payment_image [OF 1(3) assms(3)] .
  have "paymentMoves (agreedPaid n endpoints m (work cs rs)) (doomed d (net_name n)) q p'"
    by (rule moves_payment [OF 1(4) moves_oneRow [OF 1(3) k] q(1) assms(4)]) (use q(2) assms(5) in \<open>simp add: paymentMoves_def\<close>)
  then have "(prow_account p, prow_id p) \<in> agreedPaid n endpoints m (work cs rs)"
    using q(2) assms(6,7) by (auto simp: paymentMoves_def mayBecome_def)
  then obtain c k where c: "prow_account p = cand_account c" "prow_id p = pay_id (cand_payment c)" "standingPayment c \<in> set (work cs rs)"
      "agreedOn n endpoints m k (recordedOf (standingPayment c)) VFinal" by (auto simp: agreedPaid_def)
  have "c \<in> set cs" using c(3) by (cases c) (auto simp: work_def standingPayment_def standingRefund_def)
  then show ?thesis using 1(1) c by (fastforce simp: agreedOn_def)
qed

text \<open>C17: A payment expires only once its network was read past its deadline with nothing recorded that
  could still pay for it: so it is where a round of the worker leaves a payment expired that was not before it.\<close>

theorem expired_only_when_read_past:
  assumes "reaches db" "finality_round n endpoints limit m db w = (db', w', short, err)"
    and "p \<in> set (db_payments db)" "p' \<in> set (db_payments db')" "isPayment (prow_account p) (prow_id p) p'"
    and "prow_status p \<noteq> Expired" "prow_status p' = Expired"
  shows "prow_network p' = net_name n \<and> readPast db' (net_name n) (prow_expiresAt p') \<and> \<not> mayPay db' p'"
  using assms(2,1)
proof (cases rule: round_moves)
  case (1 cs rs d)
  note k = reaches_oneRowEach [OF assms(1)]
  note kd = moves_oneRow [OF 1(3) k]
  obtain q where q: "q \<in> set (db_payments d)" "paymentMoves (agreedPaid n endpoints m (work cs rs)) {} p q"
    using moves_payment_image [OF 1(3) assms(3)] .
  have m: "paymentMoves (agreedPaid n endpoints m (work cs rs)) (doomed d (net_name n)) q p'"
    by (rule moves_payment [OF 1(4) kd q(1) assms(4)]) (use q(2) assms(5) in \<open>simp add: paymentMoves_def\<close>)
  then have "(prow_account q, prow_id q) \<in> doomed d (net_name n)"
    using q(2) assms(6,7) by (auto simp: paymentMoves_def mayBecome_def)
  then show ?thesis by (rule doomed_still [OF 1(4) kd q(1) _ m])
qed


text \<open>C18: A recorded transfer is given up only when it is gone for good. Where a round leaves one vanished
  that was not, as many endpoints as agreement takes answered that the chain no longer carries it, and the
  passes before said the same, as many in a row as the network asks for.\<close>

theorem given_up_after_misses:
  assumes "reaches db" "finality_round n endpoints limit m db w = (db', w', short, err)"
    and "o2 \<in> set (db_observations db')" "ob_reason o2 = Vanished"
    and "\<forall>o1\<in>set (db_observations db). isObservation (ob_network o2) (ob_key o2) (ob_tx o2) o1 \<longrightarrow> ob_reason o1 \<noteq> Vanished"
  shows "\<exists>o1\<in>set (db_observations db). isObservation (ob_network o2) (ob_key o2) (ob_tx o2) o1
    \<and> (\<exists>k. net_agreements n \<le> int (card {j \<in> {..<endpoints}. asked (mt_endpoint m k j)
              \<lparr>fr_tx = ob_tx o1, fr_height = word_of_int (ob_height o1), fr_hash = ob_hash o1\<rparr> = Inr VGone}))
    \<and> (net_misses n \<le> 1 \<or> (\<exists>b. wk_answers w (ob_key o2, ob_tx o2) = Some b \<and> sa_verdict b = VGone \<and> net_misses n \<le> sa_rounds b + 1))"
  using assms(2,1)
proof (cases rule: round_moves)
  case (1 cs rs d)
  let ?V = "agreedGone n endpoints m (wk_answers w) (work cs rs)"
  obtain b where b: "b \<in> set (db_observations d)" "transferMoves {} b o2"
    using list_all2_preimage [OF _ assms(3), of "transferMoves {}"] 1(4) unfolding moves_def by blast
  obtain a where a: "a \<in> set (db_observations db)" "transferMoves ?V a b"
    using list_all2_preimage [OF _ b(1), of "transferMoves ?V"] 1(3) unfolding moves_def by blast
  have "(ob_network a, ob_key a, ob_tx a) \<in> ?V" using a b assms(4,5) by (auto simp: transferMoves_def isObservation_def)
  then obtain c k where c: "ob_network a = net_name n" "ob_key a = sd_key c" "ob_tx a = sd_tx c" "c \<in> set (work cs rs)"
      "agreedOn n endpoints m k (recordedOf c) VGone" "net_misses n \<le> sa_rounds (hears (wk_answers w (sd_key c, sd_tx c)) VGone)"
    by (auto simp: agreedGone_def)
  obtain o1 where o1: "o1 \<in> set (db_observations db)" "settleable (net_name n) o1" "ob_key o1 = sd_key c"
      "recordedOf c = \<lparr>fr_tx = ob_tx o1, fr_height = word_of_int (ob_height o1), fr_hash = ob_hash o1\<rparr>"
    using c(4) 1(1,2) by (fastforce simp: work_def standingPayment_def standingRefund_def)
  have same: "ob_network o2 = net_name n" "ob_key o2 = sd_key c" "ob_tx o2 = sd_tx c"
    using a(2) b(2) c(1-3) by (auto simp: transferMoves_def)
  have "net_misses n \<le> 1 \<or> (\<exists>b. wk_answers w (ob_key o2, ob_tx o2) = Some b \<and> sa_verdict b = VGone \<and> net_misses n \<le> sa_rounds b + 1)"
    using c(6) same by (auto simp: hears_def Let_def split: option.splits if_splits)
  then show ?thesis using o1 c(5) same
    by (intro bexI [OF _ o1(1)]) (auto simp: isObservation_def settleable_def recordedOf_def agreedOn_def)
qed


theorem settled_only_on_agreement_witness:
  "\<exists>o1\<in>set (db_observations demo_final). settleable ''polygon'' o1 \<and> ob_account o1 = ''acct'' \<and> ob_payment o1 = demo_id
    \<and> (\<exists>k. 2 \<le> int (card {j \<in> {..<2}. asked (mt_endpoint demo_meets k j)
              \<lparr>fr_tx = ob_tx o1, fr_height = word_of_int (ob_height o1), fr_hash = ob_hash o1\<rparr> = Inr VFinal}))"
proof -
  obtain x w' short where r: "finality_round demo_net 2 100 demo_meets demo_final newWorker
      = (demo_final\<lparr>db_payments := [demo_closed], db_outbox := x\<rparr>, w', short, None)" using demo_settling by blast
  show ?thesis
    using settled_only_on_agreement [OF demo_final_run r, of "demo_row AwaitingPayment (Some 100) 3" demo_closed]
    by (simp add: demo_final_tables isPayment_def demo_closed_def demo_net_def)
qed

section \<open>The properties on a run\<close>

definition demo_read_past :: db where
  "demo_read_past = (demo_db [demo_row AwaitingPayment None 2])\<lparr>db_outbox := [demo_told_row AwaitingPayment noMoney],
     db_cursors := [cursorRow ''polygon'' 9 \<lparr>pos_height = 9, pos_hash = ''0xF9'', pos_time = 1000 * Second\<rparr> (1000 * Second)]\<rparr>"

lemma demo_read_past_run: "reaches demo_read_past"
proof -
  let ?db = "(demo_db [demo_row AwaitingPayment None 2])\<lparr>db_outbox := [demo_told_row AwaitingPayment noMoney]\<rparr>"
  let ?p = "\<lparr>pos_height = 9, pos_hash = ''0xF9'', pos_time = 1000 * Second\<rparr>"
  obtain w where w: "reachable w" "w_db w = ?db" using demo_awaiting by (auto simp: reaches_def)
  have "Init ?db ''polygon'' ?p (1000 * Second) = Inr demo_read_past"
    by (simp add: Init_def bigint_def MaxInt64_def storable_printable printable_def demo_db_def demo_read_past_def)
  then have "step w (w\<lparr>w_db := demo_read_past\<rparr>)" using w(2) by (intro step.place_cursor) auto
  then show ?thesis by (rule reaches_write [OF w(1)])
qed

lemma demo_worker_told:
  assumes "db_payments db = [demo_row st0 None k]" "db_observations db = []" "Valid st" "st \<noteq> Succeeded"
  shows "\<exists>x. worker_told 0 db ''acct'' (demo_payment st noMoney) \<lparr>rev_id = demo_id, rev_at = k\<rparr>
    = Inr (db\<lparr>db_payments := [rewritten 0 (demo_payment st noMoney) (demo_row st0 None k)], db_outbox := x\<rparr>)"
proof -
  let ?q = "demo_payment st noMoney" and ?at = "\<lparr>rev_id = demo_id, rev_at = k\<rparr>"
  let ?new = "rewritten 0 ?q (demo_row st0 None k)"
  obtain e where e: "Announce ?q None = Some e" "checkEvent e = None" "Produced e" "ev_name e \<noteq> []"
    using demo_told [OF assms(3), of noMoney] by (metis append_is_Nil_conv list.distinct(1))
  have save: "savePayment 0 db ''acct'' ?q ?at = Inr (db\<lparr>db_payments := [?new]\<rparr>)"
  proof -
    have "savePayment 0 (demo_db [demo_row st0 None k]) ''acct'' ?q ?at = Inr (demo_db [?new])"
      using demo_savePayment [of ?q st None 0 st0 None k] assms(3,4) by simp
    then have "list_all snd (paymentChecks ?new)"
      by (simp add: savePayment_Inr_iff demo_db_def atRevision_def isPayment_def demo_payment_simps)
    then show ?thesis
      using assms(1) by (simp add: savePayment_Inr_iff atRevision_def isPayment_def updateWhere_def demo_payment_simps noMoney_def money_IsSet_def)
  qed
  have n: "prow_account ?new = ''acct''" "prow_id ?new = demo_id" by (simp_all add: rewritten_def)
  let ?x = "db_outbox db @ [\<lparr>ox_account = ''acct'', ox_payment = demo_id, ox_event = ev_name e, ox_payload = ev_payload e\<rparr>]"
  have "Save 0 db ''acct'' (Some ?q) ?at e = Inr (db\<lparr>db_payments := [?new], db_outbox := ?x\<rparr>)"
    using save e n by (simp add: Save_Inr_iff writeOutbox_Inr_iff demo_payment_simps)
  then show ?thesis
    using e(1) assms(2) by (intro exI [of _ ?x]) (simp add: worker_told_def demo_payment_simps passStale_def MatchedTransfer_def)
qed

definition demo_expired :: payment_row where
  "demo_expired = (demo_row Expired None 4)\<lparr>prow_closedAt := Some 0\<rparr>"

lemma demo_expiry:
  "\<exists>x w' short. finality_round demo_net 2 100 (demo_meets\<lparr>mt_now := (\<lambda>_. 1000 * Second)\<rparr>) demo_read_past newWorker
     = (demo_read_past\<lparr>db_payments := [demo_expired], db_outbox := x\<rparr>, w', short, None)"
proof -
  let ?p = "demo_payment AwaitingPayment noMoney" and ?a = "demo_payment AwaitingFinality noMoney" and ?e = "demo_payment Expired noMoney"
  have r1: "rewritten 0 ?a (demo_row AwaitingPayment None 2) = demo_row AwaitingFinality None 3"
    using demo_rewritten [of AwaitingFinality noMoney None 0 AwaitingPayment None 2] by (simp add: Final_iff)
  have r2: "rewritten 0 ?e (demo_row AwaitingFinality None 3) = demo_expired"
    by (simp add: rewritten_def demo_expired_def demo_row_def newPaymentRow_def Let_def demo_payment_def receivedColumn_def
        Final_iff stamp_def truncateTime_def noMoney_def money_IsSet_def)
  have t: "db_payments demo_read_past = [demo_row AwaitingPayment None 2]" "db_observations demo_read_past = []" "db_refunds demo_read_past = []"
    by (simp_all add: demo_read_past_def demo_db_def)
  obtain x1 where x1: "worker_told 0 demo_read_past ''acct'' ?a \<lparr>rev_id = demo_id, rev_at = 2\<rparr>
      = Inr (demo_read_past\<lparr>db_payments := [demo_row AwaitingFinality None 3], db_outbox := x1\<rparr>)"
    using demo_worker_told [OF t(1,2), of AwaitingFinality] r1 by (auto simp: Valid_def)
  let ?d1 = "demo_read_past\<lparr>db_payments := [demo_row AwaitingFinality None 3], db_outbox := x1\<rparr>"
  obtain x2 where x2: "worker_told 0 ?d1 ''acct'' ?e \<lparr>rev_id = demo_id, rev_at = 3\<rparr>
      = Inr (?d1\<lparr>db_payments := [demo_expired], db_outbox := x2\<rparr>)"
    using demo_worker_told [of ?d1 AwaitingFinality 3 Expired] t r2 by (auto simp: Valid_def)
  have m1: "AwaitFinality ?p (1000 * Second) = Inr ?a" by (simp add: payment_moves demo_payment_def CanBecome_iff)
  have m2: "Expire ?a = Inr ?e" by (simp add: Expire_def moveTo_Inr_iff demo_payment_def CanBecome_iff)
  have c: "Candidates demo_read_past ''polygon'' beginning 100 = Inr []" "RefundCandidates demo_read_past ''polygon'' beginning 100 = Inr []"
    by (simp_all add: Candidates_def RefundCandidates_def waitingRows_def returnRows_def joined_def t beginning_def MaxInt64_def pageAfter_def)
  have s1: "sweep (Overdue demo_read_past ''polygon'' (1000 * Second) 100) (awaitDue 0 (1000 * Second)) demo_read_past = (?d1, None)"
    using demo_row_read [of AwaitingPayment None 2] m1 x1
    by (simp add: sweep_def Overdue_def t dueOf_def demo_narrow Valid_def stamp_def truncateTime_def awaitDue_def)
  have s2: "sweep (Unsettled ?d1 ''polygon'' 100) (expireDue 0) ?d1 = (?d1\<lparr>db_payments := [demo_expired], db_outbox := x2\<rparr>, None)"
    using demo_row_read [of AwaitingFinality None 3] m2 x2
    by (simp add: sweep_def Unsettled_def t dueOf_def demo_narrow Valid_def readPast_def mayPay_def expireDue_def)
      (simp add: demo_read_past_def cursorRow_def blockTime_def isZeroTime_def stamp_def truncateTime_def)
  have s: "swept 100 0 ''polygon'' (1000 * Second) demo_read_past = (demo_read_past\<lparr>db_payments := [demo_expired], db_outbox := x2\<rparr>, None)"
    using s1 s2 t by (simp add: swept_def sweptRefunds_def) (simp add: sweep_def OverdueRefunds_def UnsettledRefunds_def joined_def)
  show ?thesis
    using s c
    by (simp add: finality_round_def demo_net_def newWorker_def work_def Let_def demo_meets_def) blast
qed

theorem expired_only_when_read_past_witness:
  "readPast demo_read_past ''polygon'' (900 * Second)"
proof -
  obtain x w' short where r: "finality_round demo_net 2 100 (demo_meets\<lparr>mt_now := (\<lambda>_. 1000 * Second)\<rparr>) demo_read_past newWorker
     = (demo_read_past\<lparr>db_payments := [demo_expired], db_outbox := x\<rparr>, w', short, None)" using demo_expiry by blast
  show ?thesis
    using expired_only_when_read_past [OF demo_read_past_run r, of "demo_row AwaitingPayment None 2" demo_expired]
    by (simp add: demo_read_past_def demo_db_def isPayment_def demo_expired_def demo_net_def readPast_def)
qed


lemma demo_taken:
  assumes "db_payments db = [demo_row AwaitingPayment (Some 100) 3]" "db_observations db = [demo_final_obs\<lparr>ob_reason := Vanished, ob_seenAt := t\<rparr>]"
    and "db_attempts db = db_attempts demo_final"
  shows "\<exists>db'. taken 0 db \<lparr>gone_account = ''acct'', gone_payment = demo_id, gone_attempt = att_id (demo_attempt Issued [])\<rparr> = Inr db'
    \<and> db_observations db' = db_observations db"
proof -
  let ?g = "\<lparr>gone_account = ''acct'', gone_payment = demo_id, gone_attempt = att_id (demo_attempt Issued [])\<rparr>"
  let ?a = "demo_attempt Confirming ''0xB0B''" and ?r = "restatused (demo_attempt Confirming ''0xB0B'') (newAttemptRow ''acct'' (demo_attempt Issued []))"
  have r: "arow_attempt ?r = ?a" "arow_revision ?r = 2" "arow_account ?r = ''acct''" "db_attempts db = [?r]"
    using assms(3) by (simp_all add: restatused_def newAttemptRow_def demo_attempt_def stamp_def truncateTime_def demo_final_def Let_def)
  have who: "ParseAddress ''0xB0B'' = Inr ''0xB0B''"
    by (simp add: ParseAddress_Inr_iff MaxAddressBytes_def invisible_Has_printable printable_def)
  have sc: "scanAttempt (Some ?r) = Inr (?a, \<lparr>rev_id = att_id ?a, rev_at = 2\<rparr>)"
    using demo_hex r who by (simp add: scanAttempt_Inr attempt_wf_def) (simp add: demo_attempt_def attempt_Valid_def)
  have id: "att_id (demo_attempt Issued []) = att_id ?a" "att_paymentID ?a = demo_id" by (simp_all add: demo_attempt_def)
  have f: "FindAttempt db ''acct'' demo_id (att_id (demo_attempt Issued [])) = Inr (?a, \<lparr>rev_id = att_id ?a, rev_at = 2\<rparr>)"
    using sc r by (simp add: FindAttempt_def isAttempt_def id)
  have "\<exists>b. Unconfirm ?a = Inr b \<and> (\<exists>d. saveAttempt db ''acct'' b \<lparr>rev_id = att_id ?a, rev_at = 2\<rparr> = Inr d)"
    using r by (simp add: Unconfirm_def saveAttempt_Inr_iff attemptAt_def isAttempt_def ofPayment_def)
      (simp add: demo_attempt_def attempt_Valid_def storable_printable printable_def)
  then obtain b d where d: "Unconfirm ?a = Inr b" "saveAttempt db ''acct'' b \<lparr>rev_id = att_id ?a, rev_at = 2\<rparr> = Inr d" by blast
  have u: "unconfirm db ?g = Inr d"
    using f d assms(2) by (simp add: unconfirm_def rowsAffected_def)
  have dd: "db_payments d = db_payments db" "db_observations d = db_observations db"
    using d(2) by (auto simp: saveAttempt_Inr_iff)
  have fp: "find_payment d ''acct'' demo_id = Inr (demo_payment AwaitingPayment (demo_money 100), \<lparr>rev_id = demo_id, rev_at = 3\<rparr>)"
    using demo_row_read [of AwaitingPayment "Some 100" 3] by (simp add: find_payment_def dd assms(1) isPayment_def Valid_def)
  let ?q = "demo_payment AwaitingPayment noMoney"
  have un: "Unreceive (demo_payment AwaitingPayment (demo_money 100)) = Inr ?q"
    by (simp add: payment_moves demo_payment_def CanReceive_def)
  have "savePayment 0 (demo_db [demo_row AwaitingPayment (Some 100) 3]) ''acct'' ?q \<lparr>rev_id = demo_id, rev_at = 3\<rparr>
      = Inr (demo_db [rewritten 0 ?q (demo_row AwaitingPayment (Some 100) 3)])"
    using demo_savePayment [of ?q AwaitingPayment None 0 AwaitingPayment "Some 100" 3] by (simp add: Valid_def)
  then have "list_all snd (paymentChecks (rewritten 0 ?q (demo_row AwaitingPayment (Some 100) 3)))"
    by (simp add: savePayment_Inr_iff demo_db_def atRevision_def isPayment_def demo_payment_simps)
  then have "\<exists>db'. savePayment 0 d ''acct'' ?q \<lparr>rev_id = demo_id, rev_at = 3\<rparr> = Inr db' \<and> db_observations db' = db_observations db"
    using dd assms(1) by (simp add: savePayment_Inr_iff atRevision_def isPayment_def demo_payment_simps noMoney_def money_IsSet_def)
  then show ?thesis using u fp un assms(2) dd by (auto simp: taken_def unreceive_def rowsAffected_def)
qed


definition demo_silent :: meets where
  "demo_silent = demo_meets\<lparr>mt_endpoint := (\<lambda>_ _. demo_chain 9 ''1'' [])\<rparr>"

lemma demo_gone:
  "\<exists>db' w' short err. finality_round (demo_net\<lparr>net_misses := 1\<rparr>) 2 100 demo_silent demo_final newWorker = (db', w', short, err)
     \<and> (\<exists>o2\<in>set (db_observations db'). ob_reason o2 = Vanished \<and> isObservation ''polygon'' (hexEncode (replicate 32 3)) ''0xT1'' o2)"
proof -
  let ?n = "demo_net\<lparr>net_misses := 1\<rparr>" and ?c = "standingPayment demo_candidate" and ?now = "600 * Second"
  let ?o = "demo_final_obs\<lparr>ob_reason := Vanished, ob_seenAt := stamp ?now\<rparr>"
  let ?db1 = "demo_final\<lparr>db_observations := [?o]\<rparr>"
  obtain db' where t: "taken 0 ?db1 \<lparr>gone_account = ''acct'', gone_payment = demo_id, gone_attempt = att_id (demo_attempt Issued [])\<rparr> = Inr db'"
      "db_observations db' = [?o]"
    using demo_taken [of ?db1 "stamp ?now"] demo_final_tables by auto
  have is1: "isObservation ''polygon'' (hexEncode (replicate 32 3)) ''0xT1'' demo_final_obs"
    by (simp add: isObservation_def demo_final_simps)
  have v: "Vanish 0 demo_final ''polygon'' (hexEncode (replicate 32 3)) ''0xT1'' ?now = Inr db'"
    using t(1) is1 by (simp add: Vanish_def demo_final_tables demo_final_simps goneOf_def updateWhere_def vanished_def Let_def)
  have asked: "asked (mt_endpoint demo_silent k j) \<lparr>fr_tx = ''0xT1'', fr_height = 7, fr_hash = ''0xH7''\<rparr> = Inr VGone" for k j
    by (simp add: asked_def settled_def demo_silent_def demo_chain_def Let_def)
  have ask: "askFor ?n demo_silent 0 [0, 1] ?c = Inr \<lparr>an_verdict = VGone, an_answered = 2, an_agreed = 2, an_silent = []\<rparr>"
    using asked
    by (simp add: askFor_def Ask_def demo_net_def standingPayment_def demo_candidate_def
      demo_silent_def [THEN arg_cong [of _ _ mt_stopped]] demo_meets_def noAnswers_def Let_def)
  let ?s = "hears None VGone"
  have s: "sa_rounds ?s = 1" by (simp add: hears_def Let_def)
  have d: "decided ?n 0 ?now demo_final ?c ?s = Inr db'"
    using v s by (simp add: decided_def demo_net_def standingPayment_def demo_candidate_def)
  have m: "marked ?n ?now demo_final ?c None ?s = demo_final" by (simp add: marked_def)
  have up: "[0..<2] = [0::nat, 1]" by (simp add: upt_rec)
  obtain d1 e1 where sw: "swept 100 0 ''polygon'' ?now db' = (d1, e1)" by fastforce
  obtain dm where dm: "moves {} {} {} db' dm" "moves {} (doomed dm ''polygon'') {} dm d1" using swept_moves [OF sw] by blast
  have "\<exists>o2\<in>set (db_observations d1). ob_reason o2 = Vanished \<and> isObservation ''polygon'' (hexEncode (replicate 32 3)) ''0xT1'' o2"
    using dm t(2) is1 by (auto simp: moves_def list_all2_Cons1 transferMoves_def isObservation_def)
  moreover have "\<exists>w' short err. finality_round ?n 2 100 demo_silent demo_final newWorker = (d1, w', short, err)"
    using d m ask demo_candidates sw
    by (simp add: finality_round_def demo_net_def newWorker_def work_def roundStep_def roundAsk_def Let_def up
      demo_silent_def demo_meets_def dropSilent_def) blast
  ultimately show ?thesis by blast
qed

theorem given_up_after_misses_witness:
  "\<exists>o1\<in>set (db_observations demo_final). isObservation ''polygon'' (hexEncode (replicate 32 3)) ''0xT1'' o1
    \<and> (\<exists>k. 2 \<le> int (card {j \<in> {..<2}. asked (mt_endpoint demo_silent k j)
              \<lparr>fr_tx = ob_tx o1, fr_height = word_of_int (ob_height o1), fr_hash = ob_hash o1\<rparr> = Inr VGone}))"
proof -
  obtain db' w' short err o2 where r: "finality_round (demo_net\<lparr>net_misses := 1\<rparr>) 2 100 demo_silent demo_final newWorker = (db', w', short, err)"
      and o2: "o2 \<in> set (db_observations db')" "ob_reason o2 = Vanished" "isObservation ''polygon'' (hexEncode (replicate 32 3)) ''0xT1'' o2"
    using demo_gone by blast
  show ?thesis
    using given_up_after_misses [OF demo_final_run r o2(1,2)] o2(3)
    by (auto simp: demo_final_tables demo_final_simps isObservation_def demo_net_def)
qed

end
