(* ===== verification/Covering.thy ===== *)
theory Covering
  imports Pacing Outcomes
begin

text \<open>
  That an observer misses nothing: what it writes for the blocks its position passes, and a reader that
  meets a payment.
\<close>

section \<open>What a round writes of what it saw\<close>

lemma andThen_Inr: "andThen m f t = (Inr b, t') \<longleftrightarrow> (\<exists>a t1. m t = (Inr a, t1) \<and> f a t1 = (Inr b, t'))"
  by (auto simp: andThen_def split: prod.splits sum.splits)

text \<open>A row where the chain keeps it, standing.\<close>

definition standsFinal :: "db \<Rightarrow> string \<Rightarrow> transfer \<Rightarrow> bool" where
  "standsFinal db network t = (\<exists>r\<in>set (db_observations db). isObservation network (tr_key t) (tr_tx t) r
     \<and> ob_finalAt r \<noteq> None \<and> ob_reason r \<noteq> Vanished)"

lemma upsert_cases:
  assumes "upsertObservation db r = Inr db'"
  shows "db' = db\<lparr>db_observations := updateWhere (isObservation (ob_network r) (ob_key r) (ob_tx r)) (reseen r) (db_observations db)\<rparr>
       \<and> (\<exists>x\<in>set (db_observations db). isObservation (ob_network r) (ob_key r) (ob_tx r) x)
    \<or> db' = db\<lparr>db_observations := db_observations db @ [r]\<rparr>"
  using assms by (auto simp: upsertObservation_def Let_def rowsAffected_def filter_empty_conv split: if_splits option.splits)

lemma recordOne_final:
  assumes "recordOne numeric db network one True now = Inr db'" "obs_reason one \<noteq> Vanished"
  shows "standsFinal db' network (obs_transfer one)"
    and "standsFinal db network t \<Longrightarrow> standsFinal db' network t"
    and "db_cursors db' = db_cursors db"
proof -
  obtain height v where u: "upsertObservation db (newObservationRow network one height v True now) = Inr db'"
    using assms(1) by (auto simp: recordOne_def Let_def split: option.splits sum.splits)
  let ?r = "newObservationRow network one height v True now"
  have r: "ob_network ?r = network" "ob_key ?r = tr_key (obs_transfer one)" "ob_tx ?r = tr_tx (obs_transfer one)"
      "ob_finalAt ?r \<noteq> None" "ob_reason ?r \<noteq> Vanished"
    using assms(2) by (simp_all add: newObservationRow_def Let_def)
  have re: "isObservation n k x (reseen ?r y) = isObservation n k x y" "ob_finalAt (reseen ?r y) \<noteq> None" "ob_reason (reseen ?r y) \<noteq> Vanished" for n k x y
    using r(4,5) by (auto simp: reseen_def isObservation_def split: option.split)
  let ?P = "isObservation (ob_network ?r) (ob_key ?r) (ob_tx ?r)"
  have up: "(if ?P x then reseen ?r x else x) \<in> set (updateWhere ?P (reseen ?r) (db_observations db))"
    if "x \<in> set (db_observations db)" for x using that by (auto simp: updateWhere_def)
  consider (again) x where "db' = db\<lparr>db_observations := updateWhere ?P (reseen ?r) (db_observations db)\<rparr>"
      "x \<in> set (db_observations db)" "?P x"
    | (first) "db' = db\<lparr>db_observations := db_observations db @ [?r]\<rparr>" using upsert_cases [OF u] by blast
  note two = this
  show "db_cursors db' = db_cursors db" using two by cases auto
  show "standsFinal db' network (obs_transfer one)"
    using two
  proof cases
    case (again x)
    have "reseen ?r x \<in> set (db_observations db')" using up [OF again(2)] again(1,3) by simp
    moreover have "isObservation network (tr_key (obs_transfer one)) (tr_tx (obs_transfer one)) (reseen ?r x)"
      using again(3) by (simp add: re r)
    ultimately show ?thesis using re unfolding standsFinal_def by blast
  next
    case first
    then show ?thesis using r unfolding standsFinal_def isObservation_def by auto
  qed
  show "standsFinal db' network t" if t: "standsFinal db network t"
  proof -
    obtain x where x: "x \<in> set (db_observations db)" "isObservation network (tr_key t) (tr_tx t) x" "ob_finalAt x \<noteq> None" "ob_reason x \<noteq> Vanished"
      using t by (auto simp: standsFinal_def)
    from two show ?thesis
    proof cases
      case (again y)
      have "(if ?P x then reseen ?r x else x) \<in> set (db_observations db')" using up [OF x(1)] again(1) by simp
      moreover have "isObservation network (tr_key t) (tr_tx t) (if ?P x then reseen ?r x else x)"
          "ob_finalAt (if ?P x then reseen ?r x else x) \<noteq> None" "ob_reason (if ?P x then reseen ?r x else x) \<noteq> Vanished"
        using x(2-4) re by simp_all
      ultimately show ?thesis unfolding standsFinal_def by blast
    next
      case first
      then show ?thesis using x unfolding standsFinal_def by auto
    qed
  qed
qed

lemma each_recordOne:
  assumes "each (\<lambda>d s. recordOne numeric d network (f s) True now) db xs = Inr db'" "\<forall>s\<in>set xs. obs_reason (f s) \<noteq> Vanished"
  shows "\<forall>s\<in>set xs. standsFinal db' network (obs_transfer (f s))"
    and "standsFinal db network t \<Longrightarrow> standsFinal db' network t"
    and "db_cursors db' = db_cursors db"
proof -
  have "(\<forall>s\<in>set xs. standsFinal db' network (obs_transfer (f s))) \<and> (\<forall>t. standsFinal db network t \<longrightarrow> standsFinal db' network t)
      \<and> db_cursors db' = db_cursors db"
    using assms
  proof (induction xs arbitrary: db)
    case (Cons s xs)
    obtain d where d: "recordOne numeric db network (f s) True now = Inr d" "each (\<lambda>d s. recordOne numeric d network (f s) True now) d xs = Inr db'"
      using Cons.prems(1) by (auto simp: res_simps)
    have "obs_reason (f s) \<noteq> Vanished" using Cons.prems(2) by simp
    note one = recordOne_final [OF d(1) this]
    show ?case using Cons.IH [OF d(2)] Cons.prems(2) one by auto
  qed simp
  then show "\<forall>s\<in>set xs. standsFinal db' network (obs_transfer (f s))" "standsFinal db network t \<Longrightarrow> standsFinal db' network t"
    "db_cursors db' = db_cursors db" by auto
qed

text \<open>What takes back, arrives and confirms leaves the rows and the positions.\<close>

definition sameSeen :: "db \<Rightarrow> db \<Rightarrow> bool" where
  "sameSeen a b = (db_observations b = db_observations a \<and> db_cursors b = db_cursors a)"

lemma sameSeen_trans: "sameSeen a b \<Longrightarrow> sameSeen b c \<Longrightarrow> sameSeen a c"
  by (simp add: sameSeen_def)

lemma each_sameSeen:
  "each f db xs = Inr db' \<Longrightarrow> (\<And>d x d'. f d x = Inr d' \<Longrightarrow> sameSeen d d') \<Longrightarrow> sameSeen db db'"
  by (rule each_rel [where R = "sameSeen db"]) (auto simp: sameSeen_def)

lemma savePayment_sameSeen: "savePayment clock db account q at = Inr db' \<Longrightarrow> sameSeen db db'"
  by (auto simp: savePayment_Inr_iff sameSeen_def)

lemma saveAttempt_sameSeen: "saveAttempt db account q at = Inr db' \<Longrightarrow> sameSeen db db'"
  by (auto simp: saveAttempt_Inr_iff sameSeen_def)

lemma writeOutbox_sameSeen: "writeOutbox db account pid e = Inr db' \<Longrightarrow> sameSeen db db'"
  by (auto simp: writeOutbox_Inr_iff sameSeen_def)

lemma taken_sameSeen: "taken clock db one = Inr db' \<Longrightarrow> sameSeen db db'"
proof -
  assume "taken clock db one = Inr db'"
  then obtain d where d: "unconfirm db one = Inr d" "unreceive clock d one = Inr db'" by (auto simp: taken_def res_simps)
  have "sameSeen db d" using d(1) saveAttempt_sameSeen by (fastforce simp: unconfirm_def sameSeen_def split: if_splits sum.splits prod.splits)
  moreover have "sameSeen d db'" using d(2) savePayment_sameSeen by (fastforce simp: unreceive_def sameSeen_def split: if_splits sum.splits prod.splits)
  ultimately show ?thesis by (rule sameSeen_trans)
qed

lemma arrived_sameSeen: "arrived clock db one = Inr db' \<Longrightarrow> sameSeen db db'"
  using savePayment_sameSeen by (fastforce simp: arrived_def Let_def sameSeen_def split: if_splits sum.splits prod.splits)

lemma confirmOne_sameSeen: "confirmOne (db, cs) one = Inr (db', cs') \<Longrightarrow> sameSeen db db'"
  using saveAttempt_sameSeen writeOutbox_sameSeen
  by (auto simp: confirmOne_def Let_def res_simps sameSeen_def split: if_splits sum.splits option.splits)

lemma confirmEach_sameSeen: "confirmEach (db, cs) seen = Inr (db', cs') \<Longrightarrow> sameSeen db db'"
proof (induction seen arbitrary: db cs)
  case (Cons one seen)
  obtain d c where d: "confirmOne (db, cs) one = Inr (d, c)" "confirmEach (d, c) seen = Inr (db', cs')"
    using Cons.prems by (auto simp: res_simps)
  show ?case using sameSeen_trans [OF confirmOne_sameSeen [OF d(1)] Cons.IH [OF d(2)]] .
qed (simp add: sameSeen_def)


lemma vanish_standing:
  assumes "vanish clock db network lo hi txs now = Inr db'" "standsFinal db network t" "tr_tx t \<in> set txs"
  shows "standsFinal db' network t" and "db_cursors db' = db_cursors db"
proof -
  obtain low high where sp: "span lo hi = Inr (low, high)" using assms(1) by (auto simp: vanish_def split: sum.splits prod.splits)
  let ?P = "\<lambda>r. ob_network r = network \<and> low \<le> ob_height r \<and> ob_height r \<le> high \<and> \<not> List.member txs (ob_tx r) \<and> ob_reason r \<noteq> Vanished"
  let ?db1 = "db\<lparr>db_observations := updateWhere ?P (vanished now) (db_observations db)\<rparr>"
  have "sameSeen ?db1 db'"
    using assms(1) sp each_sameSeen [OF _ taken_sameSeen] by (fastforce simp: vanish_def Let_def)
  moreover have "standsFinal ?db1 network t"
  proof -
    obtain r where r: "r \<in> set (db_observations db)" "isObservation network (tr_key t) (tr_tx t) r" "ob_finalAt r \<noteq> None" "ob_reason r \<noteq> Vanished"
      using assms(2) by (auto simp: standsFinal_def)
    then have "\<not> ?P r" using assms(3) by (auto simp: isObservation_def)
    then have "r \<in> set (updateWhere ?P (vanished now) (db_observations db))"
      using r(1) by (force simp: updateWhere_def)
    then show ?thesis using r(2-4) by (auto simp: standsFinal_def)
  qed
  ultimately show "standsFinal db' network t" "db_cursors db' = db_cursors db" by (simp_all add: sameSeen_def standsFinal_def)
qed

lemma Record_writes:
  assumes "Record numeric clock db network lo hi True seen sent now = Inr db'"
    and "\<forall>s\<in>set seen. seen_reason s \<noteq> Vanished" "\<forall>s\<in>set sent. sref_reason s \<noteq> Vanished"
  shows "\<forall>s\<in>set seen. standsFinal db' network (seen_transfer s)" "\<forall>s\<in>set sent. standsFinal db' network (sref_transfer s)"
    and "db_cursors db' = db_cursors db"
proof -
  let ?txs = "map (\<lambda>s. tr_tx (seen_transfer s)) seen @ map (\<lambda>s. tr_tx (sref_transfer s)) sent"
  obtain d1 d2 d3 d4 cs where d:
      "each (\<lambda>d s. recordOne numeric d network (seenAgainstAttempt s) True now) db seen = Inr d1"
      "each (\<lambda>d s. recordOne numeric d network (seenAgainstRefund s) True now) d1 sent = Inr d2"
      "vanish clock d2 network lo hi ?txs now = Inr d3" "each (arrived clock) d3 seen = Inr d4" "confirmEach (d4, []) seen = Inr (db', cs)"
    using assms(1) by (auto simp: Record_def Let_def res_simps)
  have f: "obs_transfer (seenAgainstAttempt s) = seen_transfer s" "obs_reason (seenAgainstAttempt s) = seen_reason s"
    "obs_transfer (seenAgainstRefund r) = sref_transfer r" "obs_reason (seenAgainstRefund r) = sref_reason r" for s r
    by (simp_all add: seenAgainstAttempt_def seenAgainstRefund_def)
  have "\<forall>s\<in>set seen. obs_reason (seenAgainstAttempt s) \<noteq> Vanished" "\<forall>s\<in>set sent. obs_reason (seenAgainstRefund s) \<noteq> Vanished"
    using assms(2,3) f by auto
  note one = each_recordOne [OF d(1) this(1)] and two = each_recordOne [OF d(2) this(2)]
  have at2: "\<forall>s\<in>set seen. standsFinal d2 network (seen_transfer s)" "\<forall>s\<in>set sent. standsFinal d2 network (sref_transfer s)"
    using one(1) two(1,2) by (auto simp: f)
  have rest: "sameSeen d3 db'"
    using sameSeen_trans [OF each_sameSeen [OF d(4) arrived_sameSeen] confirmEach_sameSeen [OF d(5)]] .
  have at3: "standsFinal d3 network t" if "standsFinal d2 network t" "tr_tx t \<in> set ?txs" for t
    using vanish_standing(1) [OF d(3) that] .
  have cur: "db_cursors d3 = db_cursors d2"
    using d(3) each_sameSeen [OF _ taken_sameSeen] by (fastforce simp: vanish_def Let_def sameSeen_def split: sum.splits prod.splits)
  have keep: "standsFinal db' network t" if "standsFinal d3 network t" for t using rest that by (simp add: sameSeen_def standsFinal_def)
  show "\<forall>s\<in>set seen. standsFinal db' network (seen_transfer s)" using at2(1) by (auto intro!: keep at3)
  show "\<forall>s\<in>set sent. standsFinal db' network (sref_transfer s)" using at2(2) by (auto intro!: keep at3)
  show "db_cursors db' = db_cursors db" using rest cur one(3) two(3) by (simp add: sameSeen_def)
qed

lemma Judge_reason [simp]: "Judge t a p \<noteq> Some Vanished" "JudgeRefund t b p \<noteq> Some Vanished"
  by (auto simp: Judge_def JudgeRefund_def split: option.splits if_splits sum.splits)


section \<open>What a range turned up\<close>

definition judged :: "(string \<Rightarrow> hit option) \<Rightarrow> (string \<Rightarrow> refund_hit option) \<Rightarrow> chain_transfer \<Rightarrow> bool" where
  "judged against bk c =
     (case against (ct_key c) of
        Some h \<Rightarrow> Judge (transferred c) (Some (hit_attempt h)) (Some (hit_payment h)) \<noteq> None
      | None \<Rightarrow>
          (case bk (ct_key c) of
             Some h \<Rightarrow> JudgeRefund (transferred c) (Some (rhit_refund h)) (Some (rhit_payment h)) \<noteq> None
           | None \<Rightarrow> False))"

definition transfersOf :: "found \<Rightarrow> transfer set" where
  "transfersOf f = seen_transfer ` set (fo_seen f) \<union> sref_transfer ` set (fo_sent f)"

definition noneVanished :: "found \<Rightarrow> bool" where
  "noneVanished f = ((\<forall>s\<in>set (fo_seen f). seen_reason s \<noteq> Vanished) \<and> (\<forall>s\<in>set (fo_sent f). sref_reason s \<noteq> Vanished))"

definition finds :: "found \<Rightarrow> turn \<Rightarrow> transfer set \<Rightarrow> found \<Rightarrow> turn \<Rightarrow> bool" where
  "finds f t T f' t' = (transfersOf f \<union> T \<subseteq> transfersOf f' \<and> (noneVanished f \<longrightarrow> noneVanished f'))"

lemma finds_trans: "finds f t T g u \<Longrightarrow> finds g u T' h v \<Longrightarrow> finds f t (T \<union> T') h v"
  by (auto simp: finds_def)

lemma judgeOne_finds:
  assumes "judgeOne w against bk c f t = (Inr f', t')"
  shows "finds f t (if judged against bk c then {transferred c} else {}) f' t'"
  using assms
  by (auto simp: judgeOne_def Let_def judged_def giving_def andThen_Inr finds_def transfersOf_def noneVanished_def
      split: option.splits)

lemma foldAct_Cons: "foldAct f (x # xs) s t = (Inr r, t') \<longleftrightarrow> (\<exists>s1 t1. f x s t = (Inr s1, t1) \<and> foldAct f xs s1 t1 = (Inr r, t'))"
  by (auto simp: andThen_Inr)

lemma foldAct_judge:
  "foldAct (judgeOne w against bk) cs f t = (Inr f', t') \<Longrightarrow>
     finds f t (transferred ` {c \<in> set cs. judged against bk c}) f' t'"
proof (induction cs arbitrary: f t)
  case (Cons c cs)
  obtain g u where g: "judgeOne w against bk c f t = (Inr g, u)" "foldAct (judgeOne w against bk) cs g u = (Inr f', t')"
    using Cons.prems by (auto simp only: foldAct_Cons)
  have "transferred ` {x \<in> set (c # cs). judged against bk x}
      = (if judged against bk c then {transferred c} else {}) \<union> transferred ` {x \<in> set cs. judged against bk x}" by auto
  then show ?case using finds_trans [OF judgeOne_finds [OF g(1)] Cons.IH [OF g(2)]] by simp
qed (simp add: giving_def finds_def)

text \<open>A receipt that was read: what the chain answered, and everything judged in it found.\<close>

definition readInto :: "around \<Rightarrow> (string \<Rightarrow> hit option) \<Rightarrow> (string \<Rightarrow> refund_hit option) \<Rightarrow> string \<Rightarrow> found \<Rightarrow> bool" where
  "readInto w against bk tx f =
     (\<exists>k cs. ch_Receipt (ar_chain w k) tx = Inr cs \<and> transferred ` {c \<in> set cs. judged against bk c} \<subseteq> transfersOf f)"

lemma askChain_Inr: "askChain w f t = (Inr a, t') \<Longrightarrow> f (ar_chain w (tn_calls t)) = Inr a"
  by (auto simp: askChain_def split: sum.splits)

lemma receiptOf_finds:
  assumes "receiptOf w n against bk tx f t = (Inr f', t')"
  shows "readInto w against bk tx f'" and "finds f t {} f' t'"
proof -
  obtain u cs v where r: "askChain w (\<lambda>c. ch_Receipt c tx) u = (Inr cs, v)" "foldAct (judgeOne w against bk) cs f v = (Inr f', t')"
    using assms by (auto simp: receiptOf_def andThen_Inr)
  note j = foldAct_judge [OF r(2)]
  show "readInto w against bk tx f'" using askChain_Inr [OF r(1)] j by (fastforce simp: readInto_def finds_def)
  show "finds f t {} f' t'" using j by (simp add: finds_def)
qed

lemma receipts_find:
  "foldAct (receiptOf w n against bk) txs f t = (Inr f', t') \<Longrightarrow>
     (\<forall>tx\<in>set txs. readInto w against bk tx f') \<and> finds f t {} f' t'"
proof (induction txs arbitrary: f t)
  case (Cons tx txs)
  obtain g u where g: "receiptOf w n against bk tx f t = (Inr g, u)" "foldAct (receiptOf w n against bk) txs g u = (Inr f', t')"
    using Cons.prems by (auto simp only: foldAct_Cons)
  note ih = Cons.IH [OF g(2)]
  have "readInto w against bk tx f'" using receiptOf_finds(1) [OF g(1)] ih by (fastforce simp: readInto_def finds_def)
  then show ?case using ih receiptOf_finds(2) [OF g(1)] by (auto simp: finds_def)
qed (simp add: giving_def finds_def)


text \<open>Reading writes nothing but leases.\<close>

definition leaseless :: "(db \<Rightarrow> bool) \<Rightarrow> bool" where
  "leaseless I = (\<forall>db l. I (db\<lparr>db_leases := l\<rparr>) = I db)"

lemma reads_keep:
  assumes "undisturbed I w" "leaseless I"
  shows "keeps (dbKept I) (keep w n)" "keeps (dbKept I) (seenIn w n first upTo behind)" "keeps (dbKept I) (readTo w n upTo final)"
proof -
  have k: "keeps (dbKept I) (keep w n)"
    unfolding keep_def by (intro keeping assms(1)) (use assms(2) in \<open>simp add: leaseless_def\<close>)
  have b: "keeps (dbKept I) (behindAsset w x y)" for x y unfolding behindAsset_def by (intro keeping)
  have j: "keeps (dbKept I) (judgeOne w against bk c f)" for against bk c f
    unfolding judgeOne_def Let_def by (intro keeping b)
  show "keeps (dbKept I) (keep w n)" by (rule k)
  show "keeps (dbKept I) (seenIn w n first upTo behind)"
    unfolding seenIn_def receiptOf_def by (intro keeping assms(1) k j)
  show "keeps (dbKept I) (readTo w n upTo final)"
    unfolding readTo_def by (intro keeping k)
qed

lemma keeps_result: "keeps (dbKept I) m \<Longrightarrow> I (tn_db t) \<Longrightarrow> m t = (r, t') \<Longrightarrow> I (tn_db t')"
  by (fastforce simp: keeps_def dbKept_def)

text \<open>What \<open>seenIn\<close> read and found, from a database that stays as it is but for its leases.\<close>

lemma seenIn_found:
  assumes "seenIn w n first upTo behind t = (Inr f, t')"
    and "undisturbed I w" "leaseless I" "I (tn_db t)"
    and "\<And>db keys. I db \<Longrightarrow> Consumed db (nw_name n) keys = C keys" "\<And>db keys. I db \<Longrightarrow> RefundsConsumed db (nw_name n) keys = D keys"
  shows "\<exists>k sc. ch_Keys (ar_chain w k) first upTo (references n) = Inr sc \<and> noneVanished f
    \<and> (sc_consumed sc = [] \<or> (\<exists>hits refunds against bk. C (scanKeys (sc_consumed sc)) = Inr hits \<and> D (scanKeys (sc_consumed sc)) = Inr refunds
        \<and> heldBy (heldByAttempt hits) Map.empty refunds = (against, bk)
        \<and> (\<forall>tx\<in>set (transactions (sc_consumed sc) against bk). readInto w against bk tx f)))"
proof -
  obtain u1 u2 sc where s: "keep w n t = (Inr (), u1)" "askChain w (\<lambda>c. ch_Keys c first upTo (references n)) u1 = (Inr sc, u2)"
      "(if sc_consumed sc = [] then giving (nothingFound behind)
       else
         andThen (readDb w (\<lambda>db. Consumed db (nw_name n) (scanKeys (sc_consumed sc)))) (\<lambda>hits.
         andThen (readDb w (\<lambda>db. RefundsConsumed db (nw_name n) (scanKeys (sc_consumed sc)))) (\<lambda>refunds.
           case heldBy (heldByAttempt hits) Map.empty refunds of
             (against, back) \<Rightarrow>
               foldAct (receiptOf w n against back) (transactions (sc_consumed sc) against back) (nothingFound behind))))
       (u2\<lparr>tn_reader := replaced (sc_changed sc) (tn_reader u2)\<rparr>) = (Inr f, t')"
    using assms(1) unfolding seenIn_def andThen_Inr by (auto simp: changing_def)
  have nv: "noneVanished (nothingFound behind)" by (simp add: noneVanished_def nothingFound_def)
  have sc: "ch_Keys (ar_chain w (tn_calls u1)) first upTo (references n) = Inr sc" using askChain_Inr [OF s(2)] .
  show ?thesis
  proof (cases "sc_consumed sc = []")
    case True
    then show ?thesis using s(3) sc nv by (auto simp: giving_def)
  next
    case False
    let ?keys = "scanKeys (sc_consumed sc)"
    have "I (tn_db u1)" by (rule keeps_result [OF reads_keep(1) [OF assms(2,3)] assms(4) s(1)])
    then have i2: "I (tn_db u2)" using s(2) by (auto simp: askChain_def split: sum.splits)
    have others: "I (ar_others w k db)" if "I db" for k db using assms(2) that by (simp add: undisturbed_def)
    obtain hits u3 refunds u4 where h: "readDb w (\<lambda>db. Consumed db (nw_name n) ?keys) (u2\<lparr>tn_reader := replaced (sc_changed sc) (tn_reader u2)\<rparr>) = (Inr hits, u3)"
        "readDb w (\<lambda>db. RefundsConsumed db (nw_name n) ?keys) u3 = (Inr refunds, u4)"
        "(case heldBy (heldByAttempt hits) Map.empty refunds of
             (against, back) \<Rightarrow>
               foldAct (receiptOf w n against back) (transactions (sc_consumed sc) against back) (nothingFound behind)) u4 = (Inr f, t')"
      using s(3) False unfolding if_not_P [OF False] andThen_Inr by blast
    obtain against bk where hb: "heldBy (heldByAttempt hits) Map.empty refunds = (against, bk)" by fastforce
    have c: "C ?keys = Inr hits" "I (tn_db u3)"
      using h(1) others [OF i2] assms(5) by (auto simp: readDb_def onDb_def Let_def res_simps split: option.splits sum.splits)
    have d: "D ?keys = Inr refunds"
      using h(2) others [OF c(2)] assms(6) by (auto simp: readDb_def onDb_def Let_def res_simps split: option.splits sum.splits)
    have "foldAct (receiptOf w n against bk) (transactions (sc_consumed sc) against bk) (nothingFound behind) u4 = (Inr f, t')"
      using h(3) by (simp add: hb)
    from receipts_find [OF this] have "noneVanished f" "\<forall>tx\<in>set (transactions (sc_consumed sc) against bk). readInto w against bk tx f"
      using nv by (auto simp: finds_def)
    then show ?thesis using sc c(1) d hb by (intro exI [of _ "tn_calls u1"] exI [of _ sc] conjI disjI2 exI) auto
  qed
qed


section \<open>Nothing below the position is missed\<close>

text \<open>What others may not do while a range is read, for what is said of it to be about what was there.\<close>

definition sameKeys :: "db \<Rightarrow> db \<Rightarrow> bool" where
  "sameKeys was db = (db_attempts db = db_attempts was \<and> db_payments db = db_payments was \<and> db_refunds db = db_refunds was
     \<and> cursors_keyed db)"

text \<open>A chain answers for a height with the block at it.\<close>

definition answersHeights :: "around \<Rightarrow> bool" where
  "answersHeights w = (\<forall>k h b. ch_Block (ar_chain w k) h = Inr b \<longrightarrow> bl_height b = h)"

lemma Advance_Get:
  assumes "Advance db network was to now = Inr db'" "cursors_keyed db"
  shows "\<exists>p. Get db' network = Inr (Some p) \<and> pos_height p = pos_height to"
proof -
  obtain h0 h r where a: "bigint was = Inr h0" "bigint to = Inr h" "r \<in> set (db_cursors db)" "sitsOn network h0 (pos_hash was) r"
      "db' = db\<lparr>db_cursors := updateWhere (sitsOn network h0 (pos_hash was)) (\<lambda>r. cursorRow network h to now) (db_cursors db)\<rparr>"
    using assms(1) by (auto simp: Advance_Inr_iff)
  let ?row = "cursorRow network h to now"
  have "map cur_network (db_cursors db') = map cur_network (db_cursors db)"
    by (auto simp: a(5) updateWhere_def sitsOn_def cursorRow_def)
  then have k: "cursors_keyed db'" using assms(2) by (simp add: cursors_keyed_def)
  have "?row \<in> set (db_cursors db')" using a(3,4) by (force simp: a(5) updateWhere_def)
  from Get_row [OF k this] have "Get db' network = bindE (rowPosition ?row) (\<lambda>p. Inr (Some p))" by (simp add: cursorRow_def)
  then show ?thesis using a(2) by (auto simp: rowPosition_def cursorRow_def bigint_Inr_iff)
qed

lemma writeDb_Inr:
  "writeDb w f t = (Inr u, t') \<Longrightarrow> f (ar_clock w (tn_calls t)) (ar_others w (tn_calls t) (tn_db t)) = Inr (tn_db t')"
  by (auto simp: writeDb_def onDb_def Let_def res_simps split: option.splits sum.splits)

text \<open>C19: Nothing paid below a position is missed. Where a round reads the blocks from its position on and
  moves the position, the position ends at the last block the round asked about; and for every key the chain
  said was spent in those blocks and that an attempt or a refund held, the receipt of the transaction that
  spent it first was read, and every transfer in it the rules judge is written down as final.\<close>

theorem passed_blocks_recorded:
  assumes "settledRange w n was final behind t = (Inr b, t')"
    and "undisturbed (sameKeys (tn_db t)) w" "cursors_keyed (tn_db t)" "answersHeights w"
  shows "\<exists>upTo k sc p. upTo = (if bl_height final > pos_height was + blocks (tn_reader t)
                            then pos_height was + blocks (tn_reader t) else bl_height final)
    \<and> Get (tn_db t') (nw_name n) = Inr (Some p) \<and> pos_height p = upTo
    \<and> ch_Keys (ar_chain w k) (pos_height was + 1) upTo (references n) = Inr sc
    \<and> (sc_consumed sc = [] \<or>
       (\<exists>hits refunds against bk.
          Consumed (tn_db t) (nw_name n) (scanKeys (sc_consumed sc)) = Inr hits
        \<and> RefundsConsumed (tn_db t) (nw_name n) (scanKeys (sc_consumed sc)) = Inr refunds
        \<and> heldBy (heldByAttempt hits) Map.empty refunds = (against, bk)
        \<and> (\<forall>tx\<in>set (transactions (sc_consumed sc) against bk). \<exists>k cs. ch_Receipt (ar_chain w k) tx = Inr cs
             \<and> (\<forall>c\<in>set cs. judged against bk c \<longrightarrow> standsFinal (tn_db t') (nw_name n) (transferred c)))))"
proof -
  let ?upTo = "if bl_height final > pos_height was + blocks (tn_reader t)
      then pos_height was + blocks (tn_reader t) else bl_height final"
  let ?first = "pos_height was + 1" and ?I = "sameKeys (tn_db t)"
  have ll: "leaseless ?I" by (simp add: leaseless_def sameKeys_def cursors_keyed_def)
  have i0: "?I (tn_db t)" using assms(3) by (simp add: sameKeys_def)
  obtain f t1 to t2 now t3 where s: "seenIn w n ?first ?upTo behind t = (Inr f, t1)" "readTo w n ?upTo final t1 = (Inr to, t2)"
      "writeDb w (\<lambda>clock db. bindE (Record (ar_numeric w) clock db (nw_name n) ?first ?upTo True (fo_seen f) (fo_sent f) now) (\<lambda>db1.
           Advance db1 (nw_name n) was to now)) t3 = (Inr (), t')" "tn_db t3 = tn_db t2"
    using assms(1) unfolding settledRange_def Let_def andThen_Inr writeRange_def
    by (auto simp: reading_def askNow_def giving_def andThen_Inr)
  have i1: "?I (tn_db t1)" by (rule keeps_result [OF reads_keep(2) [OF assms(2) ll] i0 s(1)])
  have i2: "?I (tn_db t2)" by (rule keeps_result [OF reads_keep(3) [OF assms(2) ll] i1 s(2)])
  have h: "pos_height to = ?upTo"
    using s(2) assms(4)
    by (auto simp: readTo_def giving_def andThen_Inr at_block_def answersHeights_def split: if_splits dest!: askChain_Inr)
  let ?db = "ar_others w (tn_calls t3) (tn_db t3)" and ?clock = "ar_clock w (tn_calls t3)"
  have i3: "?I ?db" using assms(2) i2 s(4) by (simp add: undisturbed_def)
  obtain db1 where d: "Record (ar_numeric w) ?clock ?db (nw_name n) ?first ?upTo True (fo_seen f) (fo_sent f) now = Inr db1"
      "Advance db1 (nw_name n) was to now = Inr (tn_db t')"
    using writeDb_Inr [OF s(3)] by (auto simp: res_simps)
  have same: "Consumed x (nw_name n) keys = Consumed (tn_db t) (nw_name n) keys" "RefundsConsumed x (nw_name n) keys = RefundsConsumed (tn_db t) (nw_name n) keys"
    if "?I x" for x keys
  proof -
    have "attemptPayment x = attemptPayment (tn_db t)" "paymentOf x = paymentOf (tn_db t)"
      using that by (auto simp: sameKeys_def attemptPayment_def paymentOf_def fun_eq_iff)
    then show "Consumed x (nw_name n) keys = Consumed (tn_db t) (nw_name n) keys" "RefundsConsumed x (nw_name n) keys = RefundsConsumed (tn_db t) (nw_name n) keys"
      using that by (simp_all add: sameKeys_def Consumed_def RefundsConsumed_def)
  qed
  obtain k sc where k: "ch_Keys (ar_chain w k) ?first ?upTo (references n) = Inr sc" "noneVanished f"
      "sc_consumed sc = [] \<or> (\<exists>hits refunds against bk. Consumed (tn_db t) (nw_name n) (scanKeys (sc_consumed sc)) = Inr hits
        \<and> RefundsConsumed (tn_db t) (nw_name n) (scanKeys (sc_consumed sc)) = Inr refunds
        \<and> heldBy (heldByAttempt hits) Map.empty refunds = (against, bk)
        \<and> (\<forall>tx\<in>set (transactions (sc_consumed sc) against bk). readInto w against bk tx f))"
    using seenIn_found [OF s(1) assms(2) ll i0 same] by blast
  have r: "\<forall>x\<in>transfersOf f. standsFinal db1 (nw_name n) x" "db_cursors db1 = db_cursors ?db"
    using Record_writes [OF d(1)] k(2) by (auto simp: noneVanished_def transfersOf_def)
  have "db_observations (tn_db t') = db_observations db1" using d(2) by (auto simp: Advance_Inr_iff)
  then have w: "standsFinal (tn_db t') (nw_name n) x" if "x \<in> transfersOf f" for x
    using r(1) that by (simp add: standsFinal_def)
  have "cursors_keyed db1" using i3 r(2) by (simp add: sameKeys_def cursors_keyed_def)
  from Advance_Get [OF d(2) this] obtain p where p: "Get (tn_db t') (nw_name n) = Inr (Some p)" "pos_height p = ?upTo"
    using h by auto
  have rd: "\<exists>k cs. ch_Receipt (ar_chain w k) tx = Inr cs \<and> (\<forall>c\<in>set cs. judged against bk c \<longrightarrow> standsFinal (tn_db t') (nw_name n) (transferred c))"
    if "readInto w against bk tx f" for against bk tx
    using that w unfolding readInto_def by blast
  show ?thesis
    by (intro exI [of _ ?upTo] exI [of _ k] exI [of _ sc] exI [of _ p] conjI refl p k(1)) (use k(3) rd in blast)
qed

section \<open>A reader that meets a payment\<close>

definition demo_network :: network where
  "demo_network = \<lparr>nw_name = ''polygon'', nw_want = [], nw_assets = [(''jpyc'', demo_asset)], nw_poll = 3 * Second, nw_width = 100\<rparr>"

definition demo_spending :: chain where
  "demo_spending = (demo_chain 9 ''1'' [demo_carried])
     \<lparr>ch_Keys := (\<lambda>_ _ _. Inr \<lparr>sc_consumed = [\<lparr>con_key = hexEncode (replicate 32 3), con_tx = ''0xT1''\<rparr>], sc_changed = []\<rparr>),
      ch_Implementation := (\<lambda>_. Inr ''evm''),
      ch_Block := (\<lambda>h. Inr \<lparr>bl_height = h, bl_hash = ''0xH'', bl_parent = ''0xG'', bl_time = 500 * Second\<rparr>)\<rparr>"

definition demo_around :: around where
  "demo_around = \<lparr>ar_chain = (\<lambda>_. demo_spending), ar_now = (\<lambda>_. 501 * Second), ar_clock = (\<lambda>_. 0), ar_others = (\<lambda>_ db. db),
     ar_down = (\<lambda>_. None), ar_order = (\<lambda>_ xs. xs), ar_holder = ''me'', ar_numeric = (\<lambda>_. Some 100)\<rparr>"

definition demo_from :: position where
  "demo_from = \<lparr>pos_height = 5, pos_hash = ''0xH5'', pos_time = 400 * Second\<rparr>"

definition demo_turn :: turn where
  "demo_turn = \<lparr>tn_db = demo_paid AwaitingPayment None 2\<lparr>db_cursors := [cursorRow ''polygon'' 5 demo_from 0]\<rparr>,
     tn_reader = (newObserver demo_network)\<lparr>rd_held := 501 * Second\<rparr>, tn_calls = 0\<rparr>"

definition demo_top :: block where
  "demo_top = \<lparr>bl_height = 9, bl_hash = ''0xF'', bl_parent = ''0xE'', bl_time = Second\<rparr>"

lemma demo_keep: "rd_held (tn_reader t) = 501 * Second \<Longrightarrow> keep demo_around n t = (Inr (), t\<lparr>tn_calls := tn_calls t + 1\<rparr>)"
  by (simp add: keep_def andThen_def askNow_def reading_def demo_around_def subTime_def LeaseTTL_def RenewBelow_def giving_def)

lemma demo_hits:
  "Consumed (demo_paid AwaitingPayment None 2\<lparr>db_cursors := c\<rparr>) ''polygon'' [hexEncode (replicate 32 3)] = Inr [seen_hit demo_matched]"
  "RefundsConsumed (demo_paid AwaitingPayment None 2\<lparr>db_cursors := c\<rparr>) ''polygon'' [hexEncode (replicate 32 3)] = Inr []"
proof -
  let ?r = "newAttemptRow ''acct'' (demo_attempt Issued [])"
  have a: "arow_attempt ?r = demo_attempt Issued []" "arow_account ?r = ''acct''" "arow_revision ?r = 1"
    by (simp_all add: newAttemptRow_def demo_attempt_def stamp_def truncateTime_def)
  have "scanAttempt (Some ?r) = Inr (arow_attempt ?r, \<lparr>rev_id = att_id (demo_attempt Issued []), rev_at = 1\<rparr>)"
    using demo_hex a by (simp add: scanAttempt_Inr attempt_wf_def) (simp add: demo_attempt_def attempt_Valid_def)
  then have r: "RestoreAttempt (demo_attempt Issued []) = Inr (demo_attempt Issued [])" by (auto simp: scanAttempt_def a split: sum.splits)
  have f: "att_network (demo_attempt Issued []) = ''polygon''" "att_key (demo_attempt Issued []) = hexEncode (replicate 32 3)"
      "att_paymentID (demo_attempt Issued []) = demo_id" by (simp_all add: demo_attempt_def)
  have "hitOf (?r, demo_row AwaitingPayment None 2) = Inr (seen_hit demo_matched)"
    using r demo_row_read [of AwaitingPayment None 2]
    by (simp add: hitOf_def a demo_narrow Valid_def demo_matched_def demo_seen_def)
  then show "Consumed (demo_paid AwaitingPayment None 2\<lparr>db_cursors := c\<rparr>) ''polygon'' [hexEncode (replicate 32 3)] = Inr [seen_hit demo_matched]"
    by (simp add: Consumed_def joined_def demo_paid_def demo_db_def attemptPayment_def isPayment_def a f)
  show "RefundsConsumed (demo_paid AwaitingPayment None 2\<lparr>db_cursors := c\<rparr>) ''polygon'' [hexEncode (replicate 32 3)] = Inr []"
    by (simp add: RefundsConsumed_def joined_def demo_paid_def demo_db_def)
qed

lemma demo_judged: "Judge (demo_transfer ''100'') (Some (hit_attempt (seen_hit demo_matched))) (Some (hit_payment (seen_hit demo_matched))) = Some Matched"
proof -
  have m: "ParseMoney demo_asset ''100'' = Inr (demo_money 100)" using demo_amount [of 100] by (simp add: demo_hundred)
  have a: "arow_attempt (newAttemptRow ''acct'' (demo_attempt Issued [])) = demo_attempt Issued []"
    by (simp add: newAttemptRow_def demo_attempt_def stamp_def truncateTime_def)
  have c: "Cmp (demo_money 100) (pay_amount (demo_payment AwaitingPayment noMoney)) = Inr 0"
      "CanReceive (demo_payment AwaitingPayment noMoney)"
    by (simp_all add: Cmp_def demo_payment_simps CanReceive_def)
  show ?thesis
    using m c a by (simp add: Judge_def demo_matched_def demo_seen_def demo_payment_simps) (simp add: demo_transfer_def demo_attempt_def demo_payment_simps)
qed

lemma demo_transferred: "transferred demo_carried = demo_transfer ''100''" "ct_key demo_carried = hexEncode (replicate 32 3)"
  by (simp_all add: transferred_def demo_carried_def demo_transfer_def)

lemma demo_found:
  assumes "rd_held (tn_reader t) = 501 * Second" "tn_db t = demo_paid AwaitingPayment None 2\<lparr>db_cursors := c\<rparr>"
  shows "\<exists>k. seenIn demo_around demo_network lo hi Map.empty t
    = (Inr \<lparr>fo_seen = [demo_matched], fo_sent = [], fo_behind = [''0xE7C3'' \<mapsto> ''evm'']\<rparr>, t\<lparr>tn_calls := k\<rparr>)"
proof -
  let ?key = "hexEncode (replicate 32 3)" and ?h = "seen_hit demo_matched"
  have key: "att_key (hit_attempt ?h) = ?key"
    by (simp add: demo_matched_def demo_seen_def newAttemptRow_def demo_attempt_def)
  have against: "heldByAttempt [?h] = [?key \<mapsto> ?h]" by (simp add: heldByAttempt_def key)
  have s: "scanKeys [\<lparr>con_key = ?key, con_tx = ''0xT1''\<rparr>] = [?key]" by (simp add: scanKeys_def)
  have m: "\<lparr>seen_hit = ?h, seen_transfer = demo_transfer ''100'', seen_reason = Matched, seen_implementation = ''evm''\<rparr> = demo_matched"
    by (simp add: demo_matched_def demo_seen_def)
  have asset: "ct_asset demo_carried = ''0xE7C3''" by (simp add: demo_carried_def)
  have ch: "ar_chain demo_around k = demo_spending" "ar_others demo_around k db = db" "ar_down demo_around k = None" for k db
    by (simp_all add: demo_around_def)
  have sp: "ch_Keys demo_spending lo hi rs = Inr \<lparr>sc_consumed = [\<lparr>con_key = ?key, con_tx = ''0xT1''\<rparr>], sc_changed = []\<rparr>"
      "ch_Receipt demo_spending tx = Inr [demo_carried]" "ch_Implementation demo_spending x = Inr ''evm''" for rs tx x
    by (simp_all add: demo_spending_def demo_chain_def Let_def)
  have n: "nw_name demo_network = ''polygon''" by (simp add: demo_network_def)
  have j: "judgeOne demo_around [?key \<mapsto> ?h] Map.empty demo_carried (nothingFound Map.empty) t'
      = (Inr \<lparr>fo_seen = [demo_matched], fo_sent = [], fo_behind = [''0xE7C3'' \<mapsto> ''evm'']\<rparr>, t'\<lparr>tn_calls := tn_calls t' + 1\<rparr>)" for t'
    by (simp add: judgeOne_def Let_def demo_transferred demo_judged behindAsset_def nothingFound_def andThen_def askChain_def ch sp asset giving_def m)
  have rc: "receiptOf demo_around demo_network [?key \<mapsto> ?h] Map.empty ''0xT1'' (nothingFound Map.empty) t'
      = (Inr \<lparr>fo_seen = [demo_matched], fo_sent = [], fo_behind = [''0xE7C3'' \<mapsto> ''evm'']\<rparr>, t'\<lparr>tn_calls := tn_calls t' + 3\<rparr>)"
    if "rd_held (tn_reader t') = 501 * Second" for t'
    by (simp add: receiptOf_def andThen_def demo_keep [OF that] askChain_def ch sp j giving_def)
  have tx: "transactions [\<lparr>con_key = ?key, con_tx = ''0xT1''\<rparr>] [?key \<mapsto> ?h] Map.empty = [''0xT1'']" by (simp add: transactions_def)
  show ?thesis
    by (rule exI [of _ "tn_calls t + 7"])
      (simp add: seenIn_def andThen_def demo_keep [OF assms(1)] askChain_def ch sp changing_def replaced_def readDb_def onDb_def Let_def assms(2)
        n s demo_hits against tx rc assms(1) giving_def)
qed


text \<open>A round of it: the blocks 6 to 9, in which the key of the attempt is spent.\<close>

lemma demo_settled:
  "\<exists>t'. settledRange demo_around demo_network demo_from demo_top Map.empty demo_turn = (Inr [''0xE7C3'' \<mapsto> ''evm''], t')"
proof -
  let ?c = "[cursorRow ''polygon'' 5 demo_from 0]"
  have t: "rd_held (tn_reader demo_turn) = 501 * Second" "tn_db demo_turn = demo_paid AwaitingPayment None 2\<lparr>db_cursors := ?c\<rparr>"
    by (simp_all add: demo_turn_def)
  have w: "blocks (tn_reader demo_turn) = 100" by (simp add: blocks_def demo_turn_def newObserver_def demo_network_def)
  obtain k where k: "seenIn demo_around demo_network 6 9 Map.empty demo_turn
    = (Inr \<lparr>fo_seen = [demo_matched], fo_sent = [], fo_behind = [''0xE7C3'' \<mapsto> ''evm'']\<rparr>, demo_turn\<lparr>tn_calls := k\<rparr>)"
    using demo_found [OF t] by blast
  have r: "Record (\<lambda>_. Some 100) 0 (demo_paid AwaitingPayment None 2\<lparr>db_cursors := ?c\<rparr>) ''polygon'' 6 9 True [demo_matched] [] (501 * Second)
      = Inr (demo_final\<lparr>db_cursors := ?c\<rparr>)"
    by (rule demo_Record) (simp_all add: MaxInt64_def)
  have a: "\<exists>db'. Advance (demo_final\<lparr>db_cursors := ?c\<rparr>) ''polygon'' demo_from (at_block demo_top) (501 * Second) = Inr db'"
    unfolding Advance_Inr_iff
    by (simp add: bigint_def demo_from_def at_block_def demo_top_def MaxInt64_def storable_printable printable_def sitsOn_def cursorRow_def)
  then obtain db' where db: "Advance (demo_final\<lparr>db_cursors := ?c\<rparr>) ''polygon'' demo_from (at_block demo_top) (501 * Second) = Inr db'" by blast
  have h: "pos_height demo_from = 5" "bl_height demo_top = 9" by (simp_all add: demo_from_def demo_top_def)
  show ?thesis
    using k r db
    by (simp add: settledRange_def andThen_def reading_def w h Let_def readTo_def giving_def writeRange_def askNow_def writeDb_def onDb_def
        demo_around_def t(2) demo_network_def [THEN arg_cong [of _ _ nw_name]])
qed


lemma demo_undisturbed: "undisturbed I demo_around" "others_run demo_around"
  by (auto simp: undisturbed_def others_run_def demo_around_def)

theorem passed_blocks_recorded_witness:
  "\<exists>(t' :: turn) p. Get (tn_db t') ''polygon'' = Inr (Some p) \<and> pos_height p = 9
     \<and> standsFinal (tn_db t') ''polygon'' (demo_transfer ''100'')"
proof -
  let ?key = "hexEncode (replicate 32 3)" and ?h = "seen_hit demo_matched"
  obtain t' where s: "settledRange demo_around demo_network demo_from demo_top Map.empty demo_turn = (Inr [''0xE7C3'' \<mapsto> ''evm''], t')"
    using demo_settled by blast
  have t: "tn_db demo_turn = demo_paid AwaitingPayment None 2\<lparr>db_cursors := [cursorRow ''polygon'' 5 demo_from 0]\<rparr>"
    by (simp add: demo_turn_def)
  have h: "answersHeights demo_around" by (simp add: answersHeights_def demo_around_def demo_spending_def)
  have k: "cursors_keyed (tn_db demo_turn)" by (simp add: cursors_keyed_def t)
  have w: "blocks (tn_reader demo_turn) = 100" "pos_height demo_from = 5" "bl_height demo_top = 9" "nw_name demo_network = ''polygon''"
    by (simp_all add: blocks_def demo_turn_def newObserver_def demo_network_def demo_from_def demo_top_def)
  have ch: "ch_Keys (ar_chain demo_around k) lo hi rs = Inr \<lparr>sc_consumed = [\<lparr>con_key = ?key, con_tx = ''0xT1''\<rparr>], sc_changed = []\<rparr>"
      "ch_Receipt (ar_chain demo_around k) tx = Inr [demo_carried]" for k lo hi rs tx
    by (simp_all add: demo_around_def demo_spending_def demo_chain_def Let_def)
  have key: "att_key (hit_attempt ?h) = ?key"
    by (simp add: demo_matched_def demo_seen_def newAttemptRow_def demo_attempt_def)
  have against: "heldByAttempt [?h] = [?key \<mapsto> ?h]" by (simp add: heldByAttempt_def key)
  have keys: "scanKeys [\<lparr>con_key = ?key, con_tx = ''0xT1''\<rparr>] = [?key]" by (simp add: scanKeys_def)
  have tx: "transactions [\<lparr>con_key = ?key, con_tx = ''0xT1''\<rparr>] [?key \<mapsto> ?h] Map.empty = [''0xT1'']" by (simp add: transactions_def)
  have j: "judged [?key \<mapsto> ?h] Map.empty demo_carried" by (simp add: judged_def demo_transferred demo_judged)
  from passed_blocks_recorded [OF s demo_undisturbed(1) k h]
  obtain p where "Get (tn_db t') ''polygon'' = Inr (Some p)" "pos_height p = 9" "standsFinal (tn_db t') ''polygon'' (demo_transfer ''100'')"
    unfolding w ch t using demo_hits against keys tx j by (auto simp: demo_transferred)
  then show ?thesis by blast
qed

theorem observer_is_run_witness:
  "reaches (tn_db (snd (observer_Run demo_around demo_network 3 (demo_turn\<lparr>tn_db := demo_paid AwaitingPayment None 2\<rparr>))))"
  by (rule observer_is_run [OF demo_undisturbed(2)]) (simp add: demo_issued)


text \<open>
  The bound needs the document's interval to be at most \<open>MaxInterval\<close>. Where it is longer, a provider that
  refuses the rate of calls and names no wait has the network read sooner than the document says.
\<close>

theorem limited_sooner_than_set:
  "\<exists>n o1. rd_interval o1 = nw_poll n \<and> rd_interval (after n (Some (ChainSaid (RateLimited 0))) o1) < nw_poll n"
proof -
  let ?n = "demo_network\<lparr>nw_poll := 600 * Second\<rparr>"
  show ?thesis
    by (intro exI [of _ ?n] exI [of _ "newObserver ?n"]) (simp add: after_def newObserver_def MaxInterval_def)
qed

end
