(* ===== verification/Destination.thy ===== *)
theory Destination
  imports GoText
begin

text \<open>
  Package webhook, destination.go: where a delivery may go. An address is its 32 or 128 bits, as
  \<open>net/netip\<close> keeps it; what \<open>url.Parse\<close> made of the text and what the resolver answered are
  arguments.
\<close>

section \<open>Addresses, as net/netip has them\<close>

datatype addr = V4 "32 word" | V6 "128 word" string

text \<open>The zone of an IPv6 address, empty where there is none.\<close>

record prefix =
  px_addr :: addr
  px_bits :: nat

unbundle bit_operations_syntax

definition v4byte :: "32 word \<Rightarrow> nat \<Rightarrow> byte" where
  "v4byte a i = ucast (drop_bit (8 * (3 - i)) a)"

definition v6byte :: "128 word \<Rightarrow> nat \<Rightarrow> byte" where
  "v6byte a i = ucast (drop_bit (8 * (15 - i)) a)"

definition v6u16 :: "128 word \<Rightarrow> 16 word" where
  "v6u16 a = ucast (drop_bit 112 a)"

definition AddrFrom4 :: "byte \<Rightarrow> byte \<Rightarrow> byte \<Rightarrow> byte \<Rightarrow> addr" where
  "AddrFrom4 a b c d =
     V4 (push_bit 24 (ucast a) OR push_bit 16 (ucast b) OR push_bit 8 (ucast c) OR ucast d)"

definition Is4In6 :: "addr \<Rightarrow> bool" where
  "Is4In6 x = (case x of V4 a \<Rightarrow> False | V6 a zone \<Rightarrow> drop_bit 32 a = 0xFFFF)"

definition Is6 :: "addr \<Rightarrow> bool" where
  "Is6 x = (case x of V4 a \<Rightarrow> False | V6 a zone \<Rightarrow> True)"

definition Unmap :: "addr \<Rightarrow> addr" where
  "Unmap x = (case x of V4 a \<Rightarrow> V4 a | V6 a zone \<Rightarrow> if Is4In6 (V6 a zone) then V4 (ucast a) else V6 a zone)"

definition IsUnspecified :: "addr \<Rightarrow> bool" where
  "IsUnspecified x = (x = V4 0 \<or> x = V6 0 [])"

definition IsLoopback :: "addr \<Rightarrow> bool" where
  "IsLoopback x = (case Unmap x of V4 a \<Rightarrow> v4byte a 0 = 127 | V6 a zone \<Rightarrow> a = 1)"

definition IsLinkLocalUnicast :: "addr \<Rightarrow> bool" where
  "IsLinkLocalUnicast x =
     (case Unmap x of
        V4 a \<Rightarrow> v4byte a 0 = 169 \<and> v4byte a 1 = 254
      | V6 a zone \<Rightarrow> v6u16 a AND 0xFFC0 = 0xFE80)"

definition IsMulticast :: "addr \<Rightarrow> bool" where
  "IsMulticast x =
     (case Unmap x of V4 a \<Rightarrow> v4byte a 0 AND 0xF0 = 0xE0 | V6 a zone \<Rightarrow> drop_bit 8 (v6u16 a) = 0xFF)"

definition IsInterfaceLocalMulticast :: "addr \<Rightarrow> bool" where
  "IsInterfaceLocalMulticast x =
     (case x of V4 a \<Rightarrow> False | V6 a zone \<Rightarrow> \<not> Is4In6 x \<and> v6u16 a AND 0xFF0F = 0xFF01)"

definition IsLinkLocalMulticast :: "addr \<Rightarrow> bool" where
  "IsLinkLocalMulticast x =
     (case Unmap x of
        V4 a \<Rightarrow> v4byte a 0 = 224 \<and> v4byte a 1 = 0 \<and> v4byte a 2 = 0
      | V6 a zone \<Rightarrow> v6u16 a AND 0xFF0F = 0xFF02)"

definition IsPrivate :: "addr \<Rightarrow> bool" where
  "IsPrivate x =
     (case Unmap x of
        V4 a \<Rightarrow> v4byte a 0 = 10
            \<or> v4byte a 0 = 172 \<and> v4byte a 1 AND 0xF0 = 16
            \<or> v4byte a 0 = 192 \<and> v4byte a 1 = 168
      | V6 a zone \<Rightarrow> drop_bit 8 (v6u16 a) AND 0xFE = 0xFC)"

text \<open>A prefix holds an address of its own family that has no zone and shares its leading bits.\<close>

definition prefix_Contains :: "prefix \<Rightarrow> addr \<Rightarrow> bool" where
  "prefix_Contains p x =
     (case (px_addr p, x) of
        (V4 q, V4 a) \<Rightarrow> px_bits p \<le> 32 \<and> drop_bit (32 - px_bits p) (q XOR a) = 0
      | (V6 q _, V6 a zone) \<Rightarrow> px_bits p \<le> 128 \<and> zone = [] \<and> drop_bit (128 - px_bits p) (q XOR a) = 0
      | _ \<Rightarrow> False)"


section \<open>Inside the deployment\<close>

definition inside :: "prefix list" where
  "inside =
     [\<lparr>px_addr = V4 0x64400000, px_bits = 10\<rparr>,
      \<lparr>px_addr = V4 0, px_bits = 8\<rparr>,
      \<lparr>px_addr = V4 0xFFFFFFFF, px_bits = 32\<rparr>]"

definition carrying :: "(prefix \<times> (nat \<times> nat \<times> nat \<times> nat) list) list" where
  "carrying =
     [(\<lparr>px_addr = V6 0x0064FF9B000000000000000000000000 [], px_bits = 96\<rparr>, [(12, 13, 14, 15)]),
      (\<lparr>px_addr = V6 0x0064FF9B000100000000000000000000 [], px_bits = 48\<rparr>, [(12, 13, 14, 15), (6, 7, 9, 10)]),
      (\<lparr>px_addr = V6 0x20020000000000000000000000000000 [], px_bits = 16\<rparr>, [(2, 3, 4, 5)])]"

definition isInside :: "addr \<Rightarrow> bool" where
  "isInside a =
     (IsLoopback a \<or> IsLinkLocalUnicast a \<or> IsLinkLocalMulticast a
      \<or> IsPrivate a \<or> IsUnspecified a \<or> IsMulticast a \<or> IsInterfaceLocalMulticast a
      \<or> list_ex (\<lambda>p. prefix_Contains p a) inside)"

definition isAllowed :: "addr \<Rightarrow> prefix list \<Rightarrow> bool" where
  "isAllowed a allowed = list_ex (\<lambda>p. prefix_Contains p a) allowed"

definition carriedIPv4 :: "addr \<Rightarrow> addr list" where
  "carriedIPv4 x =
     (case x of
        V4 _ \<Rightarrow> []
      | V6 b _ \<Rightarrow>
          (case List.find (\<lambda>c. prefix_Contains (fst c) x) carrying of
             None \<Rightarrow> []
           | Some c \<Rightarrow> map (\<lambda>(i, j, k, l). AddrFrom4 (v6byte b i) (v6byte b j) (v6byte b k) (v6byte b l)) (snd c)))"

section \<open>The check\<close>

text \<open>What \<open>url.Parse\<close> made of the text: the parts the check reads.\<close>

record url =
  ur_scheme :: string
  ur_user :: bool
  ur_hostname :: string
  ur_port :: string

datatype refusal =
    UnseenCharacter | LongerThan nat | NotAURL | MustBeHttps | CarriesUser | NoHost | NamesInterface
  | PortOutside | Unreachable

record destination =
  de_URL :: url
  de_addrs :: "addr list"

definition MaxURLBytes :: nat where "MaxURLBytes = 2048"

text \<open>\<open>strconv.Atoi\<close>, which wants a sign or none, digits alone, and a value that fits 64 bits.\<close>

definition Atoi :: "string \<Rightarrow> int option" where
  "Atoi s =
     (let neg = (take 1 s = ''-''); ds = (if take 1 s = ''-'' \<or> take 1 s = ''+'' then drop 1 s else s);
          n = (if neg then - int (undec ds) else int (undec ds)) in
      if ds = [] \<or> \<not> list_all isDigit ds \<or> n < - (2 ^ 63) \<or> 2 ^ 63 \<le> n then None else Some n)"

definition portOK :: "string \<Rightarrow> bool" where
  "portOK port = (port = [] \<or> (case Atoi port of None \<Rightarrow> False | Some n \<Rightarrow> 1 \<le> n \<and> n \<le> 65535))"

text \<open>One address, unmapped: refused, where it or an address it carries is inside and not allowed.\<close>

definition leadsInside :: "prefix list \<Rightarrow> addr \<Rightarrow> bool" where
  "leadsInside allowed a =
     (isInside a \<and> \<not> isAllowed a allowed
      \<or> list_ex (\<lambda>c. isInside c \<and> \<not> isAllowed c allowed) (carriedIPv4 a))"

primrec checkAddrs :: "prefix list \<Rightarrow> addr list \<Rightarrow> addr list option" where
  "checkAddrs allowed [] = Some []"
| "checkAddrs allowed (x # xs) =
     (let a = Unmap x in
      if leadsInside allowed a then None
      else map_option (Cons a) (checkAddrs allowed xs))"

definition Check ::
  "(string \<Rightarrow> url option) \<Rightarrow> (string \<Rightarrow> addr list option) \<Rightarrow> string \<Rightarrow> prefix list \<Rightarrow> (refusal, destination) result" where
  "Check parse resolve raw allowed =
     (if invisible_Has raw then Inl UnseenCharacter
      else if length raw > MaxURLBytes then Inl (LongerThan MaxURLBytes)
      else case parse raw of
        None \<Rightarrow> Inl NotAURL
      | Some u \<Rightarrow>
          if ur_scheme u \<noteq> ''https'' then Inl MustBeHttps
          else if ur_user u then Inl CarriesUser
          else if ur_hostname u = [] then Inl NoHost
          else if CHR ''%'' \<in> set (ur_hostname u) then Inl NamesInterface
          else if \<not> portOK (ur_port u) then Inl PortOutside
          else case resolve (ur_hostname u) of
            None \<Rightarrow> Inl Unreachable
          | Some addrs \<Rightarrow>
              if addrs = [] then Inl Unreachable
              else case checkAddrs allowed addrs of
                None \<Rightarrow> Inl Unreachable
              | Some checked \<Rightarrow> Inr \<lparr>de_URL = u, de_addrs = checked\<rparr>)"

text \<open>
  \<open>Dial\<close>: the addresses the check saw, in order, each under the URL's port or 443, until one connects.
  What a connection came to is the world's.
\<close>

primrec dialEach :: "(addr \<Rightarrow> string \<Rightarrow> ('e, 'c) result) \<Rightarrow> string \<Rightarrow> 'e option \<Rightarrow> addr list \<Rightarrow> ('e option, 'c \<times> addr) result" where
  "dialEach connect port latest [] = Inl latest"
| "dialEach connect port latest (a # as) =
     (case connect a port of
        Inr conn \<Rightarrow> Inr (conn, a)
      | Inl e \<Rightarrow> dialEach connect port (Some e) as)"

definition Dial :: "(addr \<Rightarrow> string \<Rightarrow> ('e, 'c) result) \<Rightarrow> destination \<Rightarrow> ('e option, 'c \<times> addr) result" where
  "Dial connect d =
     dialEach connect (if ur_port (de_URL d) = [] then ''443'' else ur_port (de_URL d)) None (de_addrs d)"

end
