(* ===== verification/Inside.thy ===== *)
theory Inside
  imports Destination
begin

text \<open>
  What the check of a destination refuses, against the ranges as intervals of addresses and against every
  place a packet to an address may end up.
\<close>

unbundle bit_operations_syntax

section \<open>Masks and shifts as arithmetic\<close>

lemma and_high:
  fixes x c :: "'a::len word"
  assumes "c AND NOT (mask n) = c"
  shows "x AND NOT (mask n) = c \<longleftrightarrow> drop_bit n x = drop_bit n c"
proof -
  have c: "\<not> bit c i" if "i < n" for i
  proof
    assume "bit c i"
    then have "bit (c AND NOT (mask n)) i" using assms by simp
    with that show False by (simp add: bit_simps)
  qed
  show ?thesis
  proof
    assume "x AND NOT (mask n) = c"
    then have "drop_bit n c = drop_bit n (x AND NOT (mask n))" by simp
    also have "\<dots> = drop_bit n x" by (rule bit_word_eqI) (auto simp: bit_simps dest: bit_imp_le_length)
    finally show "drop_bit n x = drop_bit n c" by simp
  next
    assume a: "drop_bit n x = drop_bit n c"
    have "bit (x AND NOT (mask n)) i = bit c i" if "i < LENGTH('a)" for i
    proof (cases "n \<le> i")
      case True
      have "bit (drop_bit n x) (i - n) = bit (drop_bit n c) (i - n)" using a by simp
      then show ?thesis using True that by (simp add: bit_simps)
    qed (use c in \<open>simp add: bit_simps\<close>)
    then show "x AND NOT (mask n) = c" by (rule bit_word_eqI)
  qed
qed

lemma unat_v4byte: "i \<le> 3 \<Longrightarrow> unat (v4byte a i) = unat a div 2 ^ (8 * (3 - i)) mod 256"
  unfolding v4byte_def unsigned_ucast_eq unat_drop_bit_eq by (simp add: drop_bit_eq_div take_bit_eq_mod)

lemma byte_high: fixes b :: byte shows "b AND 0xF0 = 0xE0 \<longleftrightarrow> unat b div 16 = 14" 
  "b AND 0xF0 = 0x10 \<longleftrightarrow> unat b div 16 = 1"
proof -
  have m: "(0xF0 :: byte) = NOT (mask 4)" by (simp add: mask_eq_decr_exp)
  have "b AND 0xF0 = 0xE0 \<longleftrightarrow> drop_bit 4 b = (drop_bit 4 0xE0 :: byte)"
    unfolding m by (rule and_high) (simp add: mask_eq_decr_exp)
  also have "\<dots> \<longleftrightarrow> unat (drop_bit 4 b) = unat (drop_bit 4 0xE0 :: byte)" by (rule word_unat_eq_iff)
  finally show "b AND 0xF0 = 0xE0 \<longleftrightarrow> unat b div 16 = 14" unfolding unat_drop_bit_eq by (simp add: drop_bit_eq_div)
  have "b AND 0xF0 = 0x10 \<longleftrightarrow> drop_bit 4 b = (drop_bit 4 0x10 :: byte)"
    unfolding m by (rule and_high) (simp add: mask_eq_decr_exp)
  also have "\<dots> \<longleftrightarrow> unat (drop_bit 4 b) = unat (drop_bit 4 0x10 :: byte)" by (rule word_unat_eq_iff)
  finally show "b AND 0xF0 = 0x10 \<longleftrightarrow> unat b div 16 = 1" unfolding unat_drop_bit_eq by (simp add: drop_bit_eq_div)
qed

lemma xor_drop: "drop_bit n (q XOR a) = 0 \<longleftrightarrow> drop_bit n q = drop_bit n (a :: 'a :: len word)"
  unfolding drop_bit_xor by (metis bit.xor_cancel_right bit.xor_self xor.left_neutral xor.assoc)

definition forbidden4 :: "32 word set" where
  "forbidden4 = {0 .. 0x00FFFFFF} \<union> {0x0A000000 .. 0x0AFFFFFF} \<union> {0x64400000 .. 0x647FFFFF} \<union> {0x7F000000 .. 0x7FFFFFFF} \<union> {0xA9FE0000 .. 0xA9FEFFFF} \<union> {0xAC100000 .. 0xAC1FFFFF} \<union> {0xC0A80000 .. 0xC0A8FFFF} \<union> {0xE0000000 .. 0xEFFFFFFF} \<union> {0xFFFFFFFF}"

lemma v4_inside_iff: "(a \<in> {l .. u}) = (unat l \<le> unat a \<and> unat a \<le> unat u)" for a :: "32 word"
  by (auto simp: word_le_nat_alt)

lemma div_between:
  fixes n k c :: nat
  assumes "0 < k"
  shows "n div k = c \<longleftrightarrow> c * k \<le> n \<and> n < Suc c * k"
proof
  assume "n div k = c"
  then show "c * k \<le> n \<and> n < Suc c * k" using assms dividend_less_div_times [of k n] by auto
next
  assume "c * k \<le> n \<and> n < Suc c * k"
  then show "n div k = c" by (intro div_nat_eqI) (auto simp: mult.commute)
qed

lemma div_mod_pair:
  fixes m k x y :: nat
  assumes "y < k"
  shows "m div k = x \<and> m mod k = y \<longleftrightarrow> m = k * x + y"
proof
  assume "m div k = x \<and> m mod k = y"
  then show "m = k * x + y" using mult_div_mod_eq [of k m] by simp
next
  assume m: "m = k * x + y"
  have "0 < k" using assms by simp
  then show "m div k = x \<and> m mod k = y" using assms unfolding m by simp
qed

lemma digits_high:
  fixes m x y :: nat
  assumes "y < 16"
  shows "m div 256 = x \<and> m mod 256 div 16 = y \<longleftrightarrow> m div 16 = 16 * x + y"
proof -
  have "m div 256 = m div 16 div 16" "m mod 256 div 16 = m div 16 mod 16"
    using div_mult2_eq [of m 16 16] mod_mult2_eq [of m 16 16] by simp_all
  then show ?thesis using div_mod_pair [OF assms] by simp
qed
lemma isInside_V4: "isInside (V4 a) \<longleftrightarrow> a \<in> forbidden4"
proof -
  have lt: "unat a < 4294967296" using unsigned_less [of a] by simp
  have b: "v4byte a i = c \<longleftrightarrow> unat a div 2 ^ (8 * (3 - i)) mod 256 = unat c" if "i \<le> 3" for i c
    using unat_v4byte [OF that, of a] by (metis unsigned_word_eqI)
  have p: "prefix_Contains \<lparr>px_addr = V4 q, px_bits = n\<rparr> (V4 a) \<longleftrightarrow> unat q div 2 ^ (32 - n) = unat a div 2 ^ (32 - n)" if "n \<le> 32" for q n
  proof -
    have "drop_bit (32 - n) q = drop_bit (32 - n) a \<longleftrightarrow> unat (drop_bit (32 - n) q) = unat (drop_bit (32 - n) a)" by (rule word_unat_eq_iff)
    then have "drop_bit (32 - n) (q XOR a) = 0 \<longleftrightarrow> unat q div 2 ^ (32 - n) = unat a div 2 ^ (32 - n)"
      unfolding xor_drop unat_drop_bit_eq by (simp add: drop_bit_eq_div)
    with that show ?thesis by (simp add: prefix_Contains_def)
  qed
  have z: "a = c \<longleftrightarrow> unat a = unat c" for c by (rule word_unat_eq_iff)
  define n where "n = unat a"
  have lt: "n < 4294967296" using unsigned_less [of a] by (simp add: n_def)
  have top: "n div 16777216 mod 256 = n div 16777216" using lt by simp
  have dv: "n div 16777216 = n div 65536 div 256" "n div 1048576 = n div 65536 div 16"
    using div_mult2_eq [of n 65536 256] div_mult2_eq [of n 65536 16] by simp_all
  have bytes: "v4byte a 0 = c \<longleftrightarrow> n div 16777216 = unat c" "v4byte a (Suc 0) = c \<longleftrightarrow> n div 65536 mod 256 = unat c" for c
    using b [of 0 c] b [of "Suc 0" c] top by (simp_all flip: n_def)
  have r: "c * k \<le> n \<and> n \<le> c * k + (k - 1) \<longleftrightarrow> n div k = c" if "0 < k" for c k :: nat
    using div_between [OF that, of n c] that by auto
  have "IsLoopback (V4 a) \<longleftrightarrow> n div 16777216 = 127"
    by (simp add: IsLoopback_def Unmap_def bytes)
  moreover have "IsLinkLocalUnicast (V4 a) \<longleftrightarrow> n div 65536 = 43518"
    using div_mod_pair [of 254 256 "n div 65536" 169] by (simp add: IsLinkLocalUnicast_def Unmap_def bytes dv(1))
  moreover have "IsPrivate (V4 a) \<longleftrightarrow> n div 16777216 = 10 \<or> n div 1048576 = 2753 \<or> n div 65536 = 49320"
    using div_mod_pair [of 168 256 "n div 65536" 192] digits_high [of 1 "n div 65536" 172]
      unat_v4byte [of "Suc 0" a]
    by (simp add: IsPrivate_def Unmap_def bytes byte_high dv flip: n_def)
  moreover have "IsMulticast (V4 a) \<longleftrightarrow> n div 268435456 = 14"
    using unat_v4byte [of 0 a] div_mult2_eq [of n 16777216 16]
    by (simp add: IsMulticast_def Unmap_def byte_high top flip: n_def)
  moreover have "IsLinkLocalMulticast (V4 a) \<Longrightarrow> n div 16777216 = 224"
    by (simp add: IsLinkLocalMulticast_def Unmap_def bytes)
  moreover have "IsUnspecified (V4 a) \<longleftrightarrow> n = 0"
    using z [of 0] by (simp add: IsUnspecified_def flip: n_def)
  moreover have "\<not> IsInterfaceLocalMulticast (V4 a)" by (simp add: IsInterfaceLocalMulticast_def)
  moreover have "list_ex (\<lambda>p. prefix_Contains p (V4 a)) inside \<longleftrightarrow> n div 4194304 = 401 \<or> n div 16777216 = 0 \<or> n = 4294967295"
    using p [of 10 "0x64400000"] p [of 8 0] p [of 32 "0xFFFFFFFF"] by (auto simp: inside_def simp flip: n_def)
  moreover have "a \<in> forbidden4 \<longleftrightarrow> n div 16777216 = 0 \<or> n div 16777216 = 10 \<or> n div 4194304 = 401 \<or> n div 16777216 = 127
      \<or> n div 65536 = 43518 \<or> n div 1048576 = 2753 \<or> n div 65536 = 49320 \<or> n div 268435456 = 14 \<or> n = 4294967295"
    unfolding forbidden4_def Un_iff v4_inside_iff singleton_iff z
    using r [of 16777216 0] r [of 16777216 10] r [of 4194304 401] r [of 16777216 127] r [of 65536 43518]
      r [of 1048576 2753] r [of 65536 49320] r [of 268435456 14] by (simp flip: n_def)
  moreover have "n div 16777216 = 224 \<Longrightarrow> n div 268435456 = 14" by (simp add: div_between)
  moreover have "n = 0 \<Longrightarrow> n div 16777216 = 0" by simp
  ultimately show ?thesis unfolding isInside_def by blast
qed

definition forbidden6 :: "128 word set" where
  "forbidden6 = {0, 1}
     \<union> {0xFC000000000000000000000000000000 .. 0xFDFFFFFFFFFFFFFFFFFFFFFFFFFFFFFF}
     \<union> {0xFE800000000000000000000000000000 .. 0xFEBFFFFFFFFFFFFFFFFFFFFFFFFFFFFF}
     \<union> {0xFF000000000000000000000000000000 .. 0xFFFFFFFFFFFFFFFFFFFFFFFFFFFFFFFF}"

lemma unat_v6u16: "unat (v6u16 a) = unat a div 2 ^ 112"
proof -
  have "unat a < 2 ^ 128" using unsigned_less [of a] by simp
  then have "unat a div 2 ^ 112 < 2 ^ 16" by (simp add: less_mult_imp_div_less)
  then show ?thesis
    unfolding v6u16_def unsigned_ucast_eq unat_drop_bit_eq by (simp add: drop_bit_eq_div take_bit_eq_mod)
qed

lemma u16_high:
  fixes u :: "16 word"
  shows "u AND 0xFFC0 = 0xFE80 \<longleftrightarrow> unat u div 64 = 0x3FA"
    and "drop_bit 8 u = 0xFF \<longleftrightarrow> unat u div 256 = 0xFF"
    and "drop_bit 8 u AND 0xFE = 0xFC \<longleftrightarrow> unat u div 512 = 0x7E"
    and "u AND 0xFF0F = 0xFF02 \<Longrightarrow> unat u div 256 = 0xFF"
    and "u AND 0xFF0F = 0xFF01 \<Longrightarrow> unat u div 256 = 0xFF"
proof -
  have m: "(0xFFC0 :: 16 word) = NOT (mask 6)" by (simp add: mask_eq_decr_exp)
  have "u AND 0xFFC0 = 0xFE80 \<longleftrightarrow> drop_bit 6 u = (drop_bit 6 0xFE80 :: 16 word)"
    unfolding m by (rule and_high) (simp add: mask_eq_decr_exp)
  also have "\<dots> \<longleftrightarrow> unat (drop_bit 6 u) = unat (drop_bit 6 0xFE80 :: 16 word)" by (rule word_unat_eq_iff)
  finally show "u AND 0xFFC0 = 0xFE80 \<longleftrightarrow> unat u div 64 = 0x3FA" unfolding unat_drop_bit_eq by (simp add: drop_bit_eq_div)
  have top: "drop_bit 8 u = 0xFF \<longleftrightarrow> unat u div 256 = 0xFF" for u :: "16 word"
    unfolding word_unat_eq_iff unat_drop_bit_eq by (simp add: drop_bit_eq_div)
  show "drop_bit 8 u = 0xFF \<longleftrightarrow> unat u div 256 = 0xFF" by (rule top)
  have lt: "unat u < 65536" using unsigned_less [of u] by simp
  have d: "unat (drop_bit 8 u) = unat u div 256" unfolding unat_drop_bit_eq by (simp add: drop_bit_eq_div)
  have m8: "drop_bit 8 u AND 0xFE = drop_bit 8 u AND NOT (mask 1)"
  proof (rule bit_word_eqI)
    fix i assume i: "i < LENGTH(16)"
    have e: "(0xFE :: 16 word) = mask 8 AND NOT (mask 1)" by (simp add: mask_eq_decr_exp)
    have "bit (0xFE :: 16 word) i \<longleftrightarrow> i < 8 \<and> \<not> i < 1"
      unfolding e using i by (auto simp: bit_and_iff bit_not_iff bit_mask_iff simp del: mask_numeral) 
    moreover have "i < 8" if "bit (drop_bit 8 u) i" using that by (auto simp: bit_simps dest: bit_imp_le_length)
    ultimately show "bit (drop_bit 8 u AND 0xFE) i = bit (drop_bit 8 u AND NOT (mask 1)) i"
      using i by (auto simp: bit_and_iff bit_not_iff bit_mask_iff)
  qed
  have "drop_bit 8 u AND NOT (mask 1) = 0xFC \<longleftrightarrow> drop_bit 1 (drop_bit 8 u) = (drop_bit 1 0xFC :: 16 word)"
    by (rule and_high) (simp add: mask_eq_decr_exp)
  also have "\<dots> \<longleftrightarrow> unat (drop_bit 1 (drop_bit 8 u)) = unat (drop_bit 1 0xFC :: 16 word)" by (rule word_unat_eq_iff)
  also have "\<dots> \<longleftrightarrow> unat u div 256 div 2 = 0x7E"
    unfolding unat_drop_bit_eq by (simp add: drop_bit_eq_div)
  also have "\<dots> \<longleftrightarrow> unat u div 512 = 0x7E" using div_mult2_eq [of "unat u" 256 2] by simp
  finally show "drop_bit 8 u AND 0xFE = 0xFC \<longleftrightarrow> unat u div 512 = 0x7E" unfolding m8 .
  have "drop_bit 8 u = 0xFF" if "u AND 0xFF0F = c" "drop_bit 8 c = (0xFF :: 16 word)" for c
  proof -
    have "(0xFF :: 16 word) = drop_bit 8 u AND drop_bit 8 0xFF0F" using that by (metis drop_bit_and)
    also have "\<dots> = drop_bit 8 u AND mask 8" by (simp add: mask_eq_decr_exp)
    also have "\<dots> = drop_bit 8 u" 
      by (rule bit_word_eqI) (auto simp: bit_simps dest: bit_imp_le_length)
    finally show ?thesis by simp
  qed
  then show "u AND 0xFF0F = 0xFF02 \<Longrightarrow> unat u div 256 = 0xFF" "u AND 0xFF0F = 0xFF01 \<Longrightarrow> unat u div 256 = 0xFF"
    using top [of u] by simp_all
qed

lemma isInside_V6:
  assumes "\<not> Is4In6 (V6 a [])"
  shows "isInside (V6 a []) \<longleftrightarrow> a \<in> forbidden6"
proof -
  define n where "n = unat (v6u16 a)"
  have r: "a \<in> {l .. u} \<longleftrightarrow> n div k = c"
    if "unat l = c * (k * 2 ^ 112)" "unat u = c * (k * 2 ^ 112) + (k * 2 ^ 112 - 1)" "0 < k" for l u :: "128 word" and c k
  proof -
    have "n div k = c \<longleftrightarrow> unat a div (k * 2 ^ 112) = c"
      using div_mult2_eq [of "unat a" "2 ^ 112" k] by (simp add: n_def unat_v6u16 mult.commute)
    also have "\<dots> \<longleftrightarrow> unat l \<le> unat a \<and> unat a \<le> unat u"
      unfolding that(1,2) using div_between [of "k * 2 ^ 112" "unat a" c] that(3) by auto
    finally show ?thesis by (auto simp: word_le_nat_alt)
  qed
  have "IsLoopback (V6 a []) \<longleftrightarrow> a = 1" using assms by (simp add: IsLoopback_def Unmap_def)
  moreover have "IsLinkLocalUnicast (V6 a []) \<longleftrightarrow> n div 64 = 0x3FA"
    using assms by (simp add: IsLinkLocalUnicast_def Unmap_def u16_high n_def)
  moreover have "IsPrivate (V6 a []) \<longleftrightarrow> n div 512 = 0x7E"
    using assms by (simp add: IsPrivate_def Unmap_def u16_high n_def)
  moreover have "IsMulticast (V6 a []) \<longleftrightarrow> n div 256 = 0xFF"
    using assms by (simp add: IsMulticast_def Unmap_def u16_high n_def)
  moreover have "IsLinkLocalMulticast (V6 a []) \<Longrightarrow> n div 256 = 0xFF"
    using assms u16_high(4) [of "v6u16 a"] by (simp add: IsLinkLocalMulticast_def Unmap_def n_def)
  moreover have "IsInterfaceLocalMulticast (V6 a []) \<Longrightarrow> n div 256 = 0xFF"
    using assms u16_high(5) [of "v6u16 a"] by (simp add: IsInterfaceLocalMulticast_def n_def)
  moreover have "IsUnspecified (V6 a []) \<longleftrightarrow> a = 0" by (simp add: IsUnspecified_def)
  moreover have "\<not> list_ex (\<lambda>p. prefix_Contains p (V6 a [])) inside" by (simp add: inside_def prefix_Contains_def)
  moreover have "a \<in> forbidden6 \<longleftrightarrow> a = 0 \<or> a = 1 \<or> n div 512 = 0x7E \<or> n div 64 = 0x3FA \<or> n div 256 = 0xFF"
    unfolding forbidden6_def Un_iff
    using r [of "0xFC000000000000000000000000000000" "0x7E" 512 "0xFDFFFFFFFFFFFFFFFFFFFFFFFFFFFFFF"]
      r [of "0xFE800000000000000000000000000000" "0x3FA" 64 "0xFEBFFFFFFFFFFFFFFFFFFFFFFFFFFFFF"]
      r [of "0xFF000000000000000000000000000000" "0xFF" 256 "0xFFFFFFFFFFFFFFFFFFFFFFFFFFFFFFFF"]
    by simp
  ultimately show ?thesis unfolding isInside_def by blast
qed

text \<open>
  The reference: where a packet to an address may end up. An IPv4 address in IPv6 clothes is that
  address; under NAT64 and 6to4 a gateway takes it to the IPv4 address its bits spell.
\<close>

definition delivers :: "addr \<Rightarrow> addr set" where
  "delivers x =
     (case x of
        V4 a \<Rightarrow> {V4 a}
      | V6 a zone \<Rightarrow>
          if drop_bit 32 a = 0xFFFF then {V4 (ucast a)}
          else {V6 a zone}
            \<union> (if drop_bit 32 a = 0x0064FF9B0000000000000000 then {V4 (ucast a)} else {})
            \<union> (if drop_bit 80 a = 0x0064FF9B0001
               then {V4 (ucast a), V4 (push_bit 16 (ucast (drop_bit 64 a)) OR ucast (take_bit 16 (drop_bit 40 a)))} else {})
            \<union> (if drop_bit 112 a = 0x2002 then {V4 (ucast (drop_bit 80 a))} else {}))"

definition forbidden :: "addr set" where
  "forbidden = V4 ` forbidden4 \<union> (\<lambda>a. V6 a []) ` forbidden6"

definition zoneless :: "addr \<Rightarrow> bool" where
  "zoneless x = (case x of V4 a \<Rightarrow> True | V6 a zone \<Rightarrow> zone = [])"

lemma bit_bytes:
  fixes a b c d :: byte
  shows "bit (push_bit 24 (ucast a) OR push_bit 16 (ucast b) OR push_bit 8 (ucast c) OR ucast d :: 32 word) i
    \<longleftrightarrow> (if i < 8 then bit d i else if i < 16 then bit c (i - 8) else if i < 24 then bit b (i - 16) else i < 32 \<and> bit a (i - 24))"
  by (auto simp: bit_simps dest: bit_imp_le_length)

lemma bit_v6byte: "bit (v6byte a k) i \<longleftrightarrow> i < 8 \<and> bit a (8 * (15 - k) + i)"
  by (auto simp: v6byte_def bit_simps)

lemma octets:
  fixes i :: nat
  assumes "i < 32"
  obtains "i < 8" | j where "i = 8 + j" "j < 8" | j where "i = 16 + j" "j < 8" | j where "i = 24 + j" "j < 8"
proof -
  have "i < 8 \<or> i = 8 + (i - 8) \<and> i - 8 < 8 \<or> i = 16 + (i - 16) \<and> i - 16 < 8 \<or> i = 24 + (i - 24) \<and> i - 24 < 8"
    using assms by linarith
  then show thesis using that by blast
qed

lemma AddrFrom4_v6bytes:
  "AddrFrom4 (v6byte a 12) (v6byte a 13) (v6byte a 14) (v6byte a 15) = V4 (ucast a)"
  "AddrFrom4 (v6byte a 2) (v6byte a 3) (v6byte a 4) (v6byte a 5) = V4 (ucast (drop_bit 80 a))"
  "AddrFrom4 (v6byte a 6) (v6byte a 7) (v6byte a 9) (v6byte a 10)
     = V4 (push_bit 16 (ucast (drop_bit 64 a)) OR ucast (take_bit 16 (drop_bit 40 a)))"
  unfolding AddrFrom4_def addr.inject
  by (rule bit_word_eqI, erule octets [OF less_le_trans], simp, simp_all add: bit_bytes bit_v6byte bit_simps)+

section \<open>What the check lets through\<close>

lemma prefix_Contains_V6:
  "n \<le> 128 \<Longrightarrow> prefix_Contains \<lparr>px_addr = V6 q [], px_bits = n\<rparr> (V6 a [])
     \<longleftrightarrow> drop_bit (128 - n) a = drop_bit (128 - n) q"
  unfolding prefix_Contains_def by (simp add: xor_drop del: drop_bit_xor) metis

lemma drop_80: "drop_bit 80 (a :: 128 word) = drop_bit 48 (drop_bit 32 a)"
  and drop_112: "drop_bit 112 (a :: 128 word) = drop_bit 80 (drop_bit 32 a)"
  and drop_112': "drop_bit 112 (a :: 128 word) = drop_bit 32 (drop_bit 80 a)"
  by (simp_all add: drop_bit_drop_bit)

lemma delivers_carried:
  assumes "\<not> Is4In6 (V6 a [])"
  shows "delivers (V6 a []) = insert (V6 a []) (set (carriedIPv4 (V6 a [])))"
proof -
  have nat64: "prefix_Contains \<lparr>px_addr = V6 0x0064FF9B000000000000000000000000 [], px_bits = 96\<rparr> (V6 a [])
      \<longleftrightarrow> drop_bit 32 a = 0x0064FF9B0000000000000000"
    by (simp add: prefix_Contains_V6)
  have local_use: "prefix_Contains \<lparr>px_addr = V6 0x0064FF9B000100000000000000000000 [], px_bits = 48\<rparr> (V6 a [])
      \<longleftrightarrow> drop_bit 80 a = 0x0064FF9B0001"
    by (simp add: prefix_Contains_V6)
  have to4: "prefix_Contains \<lparr>px_addr = V6 0x20020000000000000000000000000000 [], px_bits = 16\<rparr> (V6 a [])
      \<longleftrightarrow> drop_bit 112 a = 0x2002"
    by (simp add: prefix_Contains_V6)
  have apart: "drop_bit 80 a = 0x0064FF9B0000 \<and> drop_bit 112 a = 0x0064" if "drop_bit 32 a = 0x0064FF9B0000000000000000"
    using drop_80 [of a] drop_112 [of a] unfolding that by simp
  have apart': "drop_bit 112 a = 0x0064" if "drop_bit 80 a = 0x0064FF9B0001"
    using drop_112' [of a] unfolding that by simp
  show ?thesis
    using assms apart apart'
    by (auto simp: delivers_def carriedIPv4_def carrying_def nat64 local_use to4 AddrFrom4_v6bytes Is4In6_def)
qed


lemma isInside_iff: "zoneless x \<Longrightarrow> \<not> Is4In6 x \<Longrightarrow> isInside x \<longleftrightarrow> x \<in> forbidden"
  by (cases x) (auto simp: zoneless_def forbidden_def isInside_V4 isInside_V6)

lemma Unmap_plain: "\<not> Is4In6 (Unmap x)"
  by (auto simp: Unmap_def Is4In6_def split: addr.splits)

lemma Unmap_zoneless: "zoneless x \<Longrightarrow> zoneless (Unmap x)"
proof (cases x)
  case (V6 b zone)
  then show "zoneless x \<Longrightarrow> zoneless (Unmap x)"
    by (cases "Is4In6 x") (simp_all add: Unmap_def zoneless_def)
qed (simp add: Unmap_def zoneless_def)

lemma carriedIPv4_V4: "y \<in> set (carriedIPv4 x) \<Longrightarrow> \<exists>b. y = V4 b"
proof (cases x)
  case (V6 a zone)
  assume "y \<in> set (carriedIPv4 x)"
  with V6 obtain c where "y \<in> (\<lambda>(i, j, k, l). AddrFrom4 (v6byte a i) (v6byte a j) (v6byte a k) (v6byte a l)) ` c"
    by (cases "List.find (\<lambda>c. prefix_Contains (fst c) x) carrying") (simp_all add: carriedIPv4_def, blast)
  then show ?thesis by (auto simp: AddrFrom4_def)
qed (simp add: carriedIPv4_def)

lemma delivers_Unmap:
  assumes "zoneless x"
  shows "delivers (Unmap x) = insert (Unmap x) (set (carriedIPv4 (Unmap x)))"
proof (cases "Unmap x")
  case (V6 a zone)
  with Unmap_zoneless [OF assms] have "zone = []" by (simp add: zoneless_def)
  with V6 delivers_carried Unmap_plain [of x] show ?thesis by simp
qed (simp add: delivers_def carriedIPv4_def)

lemma leadsInside_iff:
  assumes "zoneless x"
  shows "leadsInside allowed (Unmap x) \<longleftrightarrow> (\<exists>y\<in>delivers (Unmap x) \<inter> forbidden. \<not> isAllowed y allowed)"
proof -
  have "isInside y \<longleftrightarrow> y \<in> forbidden" if "y \<in> delivers (Unmap x)" for y
  proof (cases "y = Unmap x")
    case True
    then show ?thesis using isInside_iff Unmap_plain Unmap_zoneless assms by blast
  next
    case False
    then have "y \<in> set (carriedIPv4 (Unmap x))" using that by (simp add: delivers_Unmap [OF assms])
    then obtain b where "y = V4 b" using carriedIPv4_V4 by blast
    then show ?thesis by (intro isInside_iff) (simp_all add: zoneless_def Is4In6_def)
  qed
  then show ?thesis unfolding leadsInside_def delivers_Unmap [OF assms] list_ex_iff by blast
qed

lemma checkAddrs_Some_iff:
  "checkAddrs allowed xs = Some ys \<longleftrightarrow> ys = map Unmap xs \<and> (\<forall>x\<in>set xs. \<not> leadsInside allowed (Unmap x))"
  by (induction xs arbitrary: ys) (auto simp: Let_def)

lemma Check_Inr_iff:
  "Check parse resolve raw allowed = Inr d \<longleftrightarrow>
     \<not> invisible_Has raw \<and> length raw \<le> MaxURLBytes
     \<and> (\<exists>addrs. parse raw = Some (de_URL d) \<and> ur_scheme (de_URL d) = ''https'' \<and> \<not> ur_user (de_URL d)
          \<and> ur_hostname (de_URL d) \<noteq> [] \<and> CHR ''%'' \<notin> set (ur_hostname (de_URL d)) \<and> portOK (ur_port (de_URL d))
          \<and> resolve (ur_hostname (de_URL d)) = Some addrs \<and> addrs \<noteq> []
          \<and> checkAddrs allowed addrs = Some (de_addrs d))"
  by (cases d) (auto simp: Check_def res_simps)

lemma dialEach_in: "dialEach connect port e as = Inr (conn, a) \<Longrightarrow> a \<in> set as"
  by (induction as arbitrary: e) (auto split: sum.splits)

text \<open>C23: A delivery is never sent to an address inside the deployment the operator did not allow. When a
  destination passes its check and is dialled, the address that answers is one the resolver gave the check,
  and neither it nor any IPv4 address a NAT64 or 6to4 gateway would take it to is loopback, link-local,
  private, shared, unspecified, multicast or broadcast, unless an allowance holds that very address.\<close>

theorem check_refuses_inside:
  assumes "Check parse resolve raw allowed = Inr d"
    and "resolve (ur_hostname (de_URL d)) = Some addrs" "list_all zoneless addrs"
    and "Dial connect d = Inr (conn, a)"
  shows "a \<in> Unmap ` set addrs \<and> delivers a \<inter> forbidden \<subseteq> {y. isAllowed y allowed}"
proof -
  have d: "de_addrs d = map Unmap addrs" "\<forall>x\<in>set addrs. \<not> leadsInside allowed (Unmap x)"
    using assms(1,2) by (auto simp: Check_Inr_iff checkAddrs_Some_iff)
  have "a \<in> set (de_addrs d)" using dialEach_in assms(4) unfolding Dial_def by metis
  then obtain x where "x \<in> set addrs" "a = Unmap x" using d(1) by auto
  with d assms(3) show ?thesis using leadsInside_iff [of x allowed] by (auto simp: list_all_iff)
qed


definition demo_url :: url where
  "demo_url = \<lparr>ur_scheme = ''https'', ur_user = False, ur_hostname = ''hooks.shop'', ur_port = []\<rparr>"

definition demo_resolve :: "string \<Rightarrow> addr list option" where
  "demo_resolve host = (if host = ''hooks.shop'' then Some [V6 0x20010DB8000000000000000000000005 [], V4 0xC0A80105] else None)"

definition demo_allowed :: "prefix list" where
  "demo_allowed = [\<lparr>px_addr = V4 0xC0A80100, px_bits = 24\<rparr>]"

definition demo_connect :: "addr \<Rightarrow> string \<Rightarrow> (unit, unit) result" where
  "demo_connect a port = (if a = V4 0xC0A80105 \<and> port = ''443'' then Inr () else Inl ())"

lemma demo_check:
  "Check (\<lambda>_. Some demo_url) demo_resolve ''https://hooks.shop/pay'' demo_allowed
     = Inr \<lparr>de_URL = demo_url, de_addrs = [V6 0x20010DB8000000000000000000000005 [], V4 0xC0A80105]\<rparr>"
proof -
  let ?six = "V6 0x20010DB8000000000000000000000005 []"
  have u: "Unmap ?six = ?six" "Unmap (V4 0xC0A80105) = V4 0xC0A80105"
    by (simp_all add: Unmap_def Is4In6_def)
  have "\<not> isInside ?six" unfolding isInside_def by code_simp
  moreover have "carriedIPv4 ?six = []" by code_simp
  ultimately have six: "\<not> leadsInside demo_allowed ?six" by (simp add: leadsInside_def)
  have "isAllowed (V4 0xC0A80105) demo_allowed" by code_simp
  then have four: "\<not> leadsInside demo_allowed (V4 0xC0A80105)" by (simp add: leadsInside_def carriedIPv4_def)
  have "\<not> invisible_Has ''https://hooks.shop/pay''"
    by (rule invisible_Has_printable) (simp add: printable_def)
  then show ?thesis
    by (simp add: Check_def MaxURLBytes_def demo_url_def demo_resolve_def portOK_def u six four)
qed

theorem check_refuses_inside_witness:
  "V4 0xC0A80105 \<in> Unmap ` {V6 0x20010DB8000000000000000000000005 [], V4 0xC0A80105}
     \<and> delivers (V4 0xC0A80105) \<inter> forbidden \<subseteq> {y. isAllowed y demo_allowed}"
proof -
  have "Dial demo_connect \<lparr>de_URL = demo_url, de_addrs = [V6 0x20010DB8000000000000000000000005 [], V4 0xC0A80105]\<rparr>
      = Inr ((), V4 0xC0A80105)"
    by (simp add: Dial_def demo_connect_def demo_url_def)
  from check_refuses_inside [OF demo_check _ _ this] show ?thesis
    by (simp add: demo_url_def demo_resolve_def zoneless_def)
qed

end
