(* ===== verification/Hooks.thy ===== *)
theory Hooks
  imports Destination Event
begin

text \<open>
  Package webhook, endpoint.go, delivery.go, secret.go and signature.go: what an endpoint receives, what a
  delivery carries and when it is tried again, and how it is signed. AES-GCM and HMAC-SHA256 are arguments,
  as is what \<open>crypto/rand\<close> gave.
\<close>

section \<open>Errors\<close>

datatype hook_error =
    ErrNoHook
  | ErrTooMany
  | ErrDisabled
  | ErrPending
  | ErrSealed
  | DataNotJSON
  | TimeNotEncoded
  | NotASecret
  | CorruptInput
  | NotAnId
  | HookRandomFailed
  | HookConstraint string
  | HookValueRefused
  | HookDown

section \<open>Endpoints\<close>

datatype scope = ScopeAccount | ScopeDeployment

record endpoint =
  ep_id :: string
  ep_scope :: scope
  ep_account :: string
  ep_url :: string
  ep_description :: string
  ep_events :: "string list option"
  ep_enabled :: bool
  ep_createdAt :: gotime

definition Events :: "string list" where
  "Events = [''payment.awaiting_payment'', ''attempt.confirming'', ''payment.succeeded'', ''payment.expired'',
     ''payment.failed'', ''refund.succeeded'', ''refund.expired'', ''endpoint.test'']"

definition MaxEndpoints :: nat where "MaxEndpoints = 8"
definition MaxDescriptionBytes :: nat where "MaxDescriptionBytes = 200"
definition RotationGrace :: duration where "RotationGrace = 24 * Hour"

definition Receives :: "endpoint \<Rightarrow> string \<Rightarrow> bool" where
  "Receives e eventType =
     (ep_enabled e \<and> (case ep_events e of None \<Rightarrow> True | Some events \<Rightarrow> eventType \<in> set events))"

definition hook_NewID :: "byte list option \<Rightarrow> (hook_error, string) result" where
  "hook_NewID random = (case NewID random of None \<Rightarrow> Inl HookRandomFailed | Some i \<Rightarrow> Inr i)"

definition hook_ParseID :: "string \<Rightarrow> (hook_error, string) result" where
  "hook_ParseID s = mapErr (\<lambda>_. NotAnId) (ParseID s)"

section \<open>Deliveries\<close>

datatype delivery_state = StPending | StDelivered | StFailed

record delivery =
  dl_id :: string
  dl_endpoint :: string
  dl_account :: string
  dl_payment :: string
  dl_type :: string
  dl_occurredAt :: gotime
  dl_body :: string
  dl_state :: delivery_state
  dl_attempts :: int
  dl_nextAt :: gotime

text \<open>
  The encoder writes raw JSON without the space between its tokens; within a string every byte stays,
  an escaped one with its backslash.
\<close>

fun compactJson :: "string \<Rightarrow> string" and compactIn :: "string \<Rightarrow> string" where
  "compactJson [] = []"
| "compactJson (c # cs) =
     (if isSpace c then compactJson cs
      else if c = CHR 0x22 then c # compactIn cs
      else c # compactJson cs)"
| "compactIn [] = []"
| "compactIn [c] = [c]"
| "compactIn (c # d # cs) =
     (if c = CHR 0x5C then c # d # compactIn cs
      else if c = CHR 0x22 then c # compactJson (d # cs)
      else c # compactIn (d # cs))"

definition Envelope :: "string \<Rightarrow> gotime \<Rightarrow> string \<Rightarrow> string \<Rightarrow> (hook_error, string) result" where
  "Envelope eventType occurred account data =
     (if \<not> json_Valid data then Inl DataNotJSON
      else case rfc3339Nano occurred of
        None \<Rightarrow> Inl TimeNotEncoded
      | Some timestamp \<Rightarrow> Inr (
          ''{'' @ quoteJson ''type'' @ '':'' @ quoteJson eventType
          @ '','' @ quoteJson ''timestamp'' @ '':'' @ quoteJson timestamp
          @ '','' @ quoteJson ''account'' @ '':'' @ quoteJson account
          @ '','' @ quoteJson ''data'' @ '':'' @ compactJson data @ ''}''))"

definition Retention :: duration where "Retention = 30 * 24 * Hour"

definition schedule :: "duration list" where
  "schedule = [0, 5 * Second, 5 * Minute, 30 * Minute, 2 * Hour, 5 * Hour, 10 * Hour, 14 * Hour, 20 * Hour, 24 * Hour]"

definition MaxTries :: int where "MaxTries = int (length schedule)"

text \<open>
  \<open>rand.Float64\<close> answers a multiple of two to the minus 53, below one: the multiple is the argument.
  A tenth of the wait is added, in that share; the code multiplies in floating point, which can differ
  from this by the rounding of one product.
\<close>

definition jitter :: "duration \<Rightarrow> int \<Rightarrow> duration" where
  "jitter wait random = wait * random div (10 * 2 ^ 53)"

definition NextAttempt :: "int \<Rightarrow> gotime \<Rightarrow> int \<Rightarrow> gotime option" where
  "NextAttempt failed now random =
     (if failed < 1 \<or> failed \<ge> int (length schedule) then None
      else let wait = schedule ! nat failed in Some (now + (wait + jitter wait random)))"

section \<open>Secrets\<close>

text \<open>Base64 in its standard alphabet, padded, and read back past line breaks.\<close>

definition b64char :: "nat \<Rightarrow> char" where
  "b64char n =
     (if n < 26 then char_of (65 + n) else if n < 52 then char_of (97 + (n - 26))
      else if n < 62 then char_of (48 + (n - 52)) else if n = 62 then CHR ''+'' else CHR ''/'')"

definition b64val :: "char \<Rightarrow> nat option" where
  "b64val c = (let n = (of_char c :: nat) in
     if 65 \<le> n \<and> n \<le> 90 then Some (n - 65) else if 97 \<le> n \<and> n \<le> 122 then Some (n - 97 + 26)
     else if 48 \<le> n \<and> n \<le> 57 then Some (n - 48 + 52) else if c = CHR ''+'' then Some 62
     else if c = CHR ''/'' then Some 63 else None)"

fun b64encode :: "byte list \<Rightarrow> string" where
  "b64encode [] = []"
| "b64encode [a] =
     (let v = unat a * 65536 in [b64char (v div 262144), b64char (v div 4096 mod 64), CHR ''='', CHR ''=''])"
| "b64encode [a, b] =
     (let v = unat a * 65536 + unat b * 256 in
      [b64char (v div 262144), b64char (v div 4096 mod 64), b64char (v div 64 mod 64), CHR ''=''])"
| "b64encode (a # b # c # bs) =
     (let v = unat a * 65536 + unat b * 256 + unat c in
      [b64char (v div 262144), b64char (v div 4096 mod 64), b64char (v div 64 mod 64), b64char (v mod 64)]
      @ b64encode bs)"

fun b64quanta :: "string \<Rightarrow> byte list option" where
  "b64quanta [] = Some []"
| "b64quanta (w # x # y # z # cs) =
     (case (b64val w, b64val x) of
        (Some i, Some j) \<Rightarrow>
          if y = CHR ''='' then
            (if z = CHR ''='' \<and> cs = [] then Some [word_of_nat ((i * 262144 + j * 4096) div 65536)] else None)
          else
            (case b64val y of
               None \<Rightarrow> None
             | Some k \<Rightarrow>
                 let v = i * 262144 + j * 4096 + k * 64 in
                 if z = CHR ''='' then
                   (if cs = [] then Some [word_of_nat (v div 65536), word_of_nat (v div 256 mod 256)] else None)
                 else
                   (case b64val z of
                      None \<Rightarrow> None
                    | Some l \<Rightarrow>
                        map_option (\<lambda>bs. word_of_nat ((v + l) div 65536) # word_of_nat ((v + l) div 256 mod 256)
                                          # word_of_nat ((v + l) mod 256) # bs)
                          (b64quanta cs)))
      | _ \<Rightarrow> None)"
| "b64quanta _ = None"

definition b64decode :: "string \<Rightarrow> byte list option" where
  "b64decode s = b64quanta (filter (\<lambda>c. c \<noteq> CHR 0x0A \<and> c \<noteq> CHR 0x0D) s)"

definition secretPrefix :: string where "secretPrefix = ''whsec_''"

definition NewSecret :: "byte list \<Rightarrow> string" where
  "NewSecret random = secretPrefix @ b64encode random"

definition secret_Key :: "string \<Rightarrow> (hook_error, byte list) result" where
  "secret_Key s =
     (if take (length secretPrefix) s \<noteq> secretPrefix then Inl NotASecret
      else case b64decode (drop (length secretPrefix) s) of None \<Rightarrow> Inl CorruptInput | Some k \<Rightarrow> Inr k)"

record cipher =
  ci_nonceSize :: nat
  ci_seal :: "byte list \<Rightarrow> string \<Rightarrow> byte list"
  ci_open :: "byte list \<Rightarrow> byte list \<Rightarrow> string option"

definition Seal :: "cipher \<Rightarrow> byte list \<Rightarrow> string \<Rightarrow> byte list" where
  "Seal c nonce s = nonce @ ci_seal c nonce s"

definition Open_secret :: "cipher \<Rightarrow> byte list \<Rightarrow> (hook_error, string) result" where
  "Open_secret c sealed =
     (let size = ci_nonceSize c in
      if length sealed < size then Inl ErrSealed
      else case ci_open c (take size sealed) (drop size sealed) of None \<Rightarrow> Inl ErrSealed | Some s \<Rightarrow> Inr s)"

section \<open>Signatures\<close>

text \<open>The seconds from 1970 to an instant; the zero instant is year 1.\<close>

definition unixSeconds :: "gotime \<Rightarrow> int" where
  "unixSeconds t = t div Second - 62135596800"

definition Timestamp :: "gotime \<Rightarrow> string" where
  "Timestamp sent = bigString (unixSeconds sent)"

primrec signEach :: "(byte list \<Rightarrow> string \<Rightarrow> byte list) \<Rightarrow> string \<Rightarrow> string list \<Rightarrow> (hook_error, string list) result" where
  "signEach hmac message [] = Inr []"
| "signEach hmac message (s # ss) =
     (case secret_Key s of
        Inl e \<Rightarrow> Inl e
      | Inr key \<Rightarrow> bindE (signEach hmac message ss) (\<lambda>rest. Inr ((''v1,'' @ b64encode (hmac key message)) # rest)))"

definition Sign :: "(byte list \<Rightarrow> string \<Rightarrow> byte list) \<Rightarrow> string list \<Rightarrow> string \<Rightarrow> string \<Rightarrow> string \<Rightarrow> (hook_error, string) result" where
  "Sign hmac secrets i timestamp body =
     bindE (signEach hmac (i @ ''.'' @ timestamp @ ''.'' @ body) secrets) (\<lambda>signed. Inr (intercalate '' '' signed))"

end
