(* ===== verification/Store_Hooks.thy ===== *)
theory Store_Hooks
  imports Hooks Tables
begin

text \<open>
  Package webhook, postgres.go, over the tables of migrations 0006 and 0011 to 0016. A statement or a
  transaction is one step. Rows are in the order they were inserted; the ids of the outbox and the
  \<open>seq\<close> of deliveries are the identity columns. The foreign keys of a delivery are those of the rows
  it was made from, which are never removed, so they are not checked again. What a \<open>jsonb\<close> column gives
  back of a text is the argument \<open>jsonb\<close>, \<open>None\<close> where PostgreSQL refuses it.
\<close>

section \<open>Rows\<close>

record endpoint_row =
  er_id :: string
  er_scope :: scope
  er_account :: "string option"
  er_url :: string
  er_description :: string
  er_events :: "string list option"
  er_enabled :: bool
  er_secret :: "byte list"
  er_previousSecret :: "byte list option"
  er_previousUntil :: "gotime option"
  er_allowed :: "string list"
  er_keyID :: string
  er_createdAt :: gotime
  er_deletedAt :: "gotime option"

record delivery_row =
  dr_id :: string
  dr_endpoint :: string
  dr_account :: string
  dr_payment :: "string option"
  dr_type :: string
  dr_occurredAt :: gotime
  dr_payload :: string
  dr_state :: delivery_state
  dr_attempts :: int
  dr_nextAt :: "gotime option"
  dr_deliveredAt :: "gotime option"
  dr_createdAt :: gotime
  dr_seq :: int

record try_row =
  ty_delivery :: string
  ty_at :: gotime
  ty_status :: "int option"
  ty_reason :: string
  ty_response :: string
  ty_tookMs :: int

record queued_row = outbox_row +
  qx_id :: int
  qx_createdAt :: gotime

record hooks =
  hk_accounts :: "string list"
  hk_endpoints :: "endpoint_row list"
  hk_deliveries :: "delivery_row list"
  hk_tries :: "try_row list"
  hk_outbox :: "queued_row list"
  hk_seq :: int

text \<open>The rules of the schema a statement can break.\<close>

definition endpointChecks :: "endpoint_row \<Rightarrow> (string \<times> bool) list" where
  "endpointChecks e =
     [(''webhook_endpoints_description_is_bounded'', length (er_description e) \<le> MaxDescriptionBytes),
      (''webhook_endpoints_scope_names_its_account'',
         er_scope e = ScopeAccount \<and> er_account e \<noteq> None \<or> er_scope e = ScopeDeployment \<and> er_account e = None)]"

definition storableEndpoint :: "endpoint_row \<Rightarrow> bool" where
  "storableEndpoint e =
     (storable (er_url e) \<and> storable (er_description e)
      \<and> (case er_events e of None \<Rightarrow> True | Some events \<Rightarrow> list_all storable events))"

definition pendingTest :: "string \<Rightarrow> delivery_row \<Rightarrow> bool" where
  "pendingTest endpoint d = (dr_endpoint d = endpoint \<and> dr_type d = ''endpoint.test'' \<and> dr_state d = StPending)"

text \<open>The unique indexes a row meets on its way in, or on being changed (then without its old self).\<close>

definition deliveryUniques :: "delivery_row list \<Rightarrow> delivery_row \<Rightarrow> (string \<times> bool) list" where
  "deliveryUniques others d =
     [(''webhook_deliveries_pkey'', \<not> list_ex (\<lambda>x. dr_id x = dr_id d) others),
      (''webhook_deliveries_one_pending_test'',
         \<not> (pendingTest (dr_endpoint d) d \<and> list_ex (pendingTest (dr_endpoint d)) others))]"

section \<open>Endpoints\<close>

record registration =
  rg_url :: string
  rg_description :: string
  rg_events :: "string list option"

record changes =
  cg_url :: "string option"
  cg_description :: "string option"
  cg_events :: "string list option option"
  cg_enabled :: "bool option"

definition ofAccount :: "string \<Rightarrow> endpoint_row \<Rightarrow> bool" where
  "ofAccount account e = (er_account e = Some account \<and> er_deletedAt e = None)"

definition isEndpoint :: "string \<Rightarrow> string \<Rightarrow> endpoint_row \<Rightarrow> bool" where
  "isEndpoint account i e = (er_id e = i \<and> ofAccount account e)"

definition rowEndpoint :: "endpoint_row \<Rightarrow> endpoint" where
  "rowEndpoint e =
     \<lparr>ep_id = er_id e, ep_scope = er_scope e, ep_account = (case er_account e of None \<Rightarrow> [] | Some a \<Rightarrow> a),
      ep_url = er_url e, ep_description = er_description e, ep_events = er_events e, ep_enabled = er_enabled e,
      ep_createdAt = er_createdAt e\<rparr>"

definition hook_Create ::
  "cipher \<Rightarrow> string \<Rightarrow> hooks \<Rightarrow> string \<Rightarrow> registration \<Rightarrow> gotime \<Rightarrow> byte list option \<Rightarrow> byte list \<Rightarrow> byte list
     \<Rightarrow> (hook_error, hooks \<times> endpoint \<times> string) result" where
  "hook_Create c keyID h account r now rid rsecret nonce =
     (case hook_NewID rid of
        Inl e \<Rightarrow> Inl e
      | Inr i \<Rightarrow>
          let secret = NewSecret rsecret;
              row = \<lparr>er_id = i, er_scope = ScopeAccount, er_account = Some account, er_url = rg_url r,
                     er_description = rg_description r, er_events = rg_events r, er_enabled = True,
                     er_secret = Seal c nonce secret, er_previousSecret = None, er_previousUntil = None,
                     er_allowed = [], er_keyID = keyID, er_createdAt = stamp now, er_deletedAt = None\<rparr> in
          if length (filter (ofAccount account) (hk_endpoints h)) \<ge> MaxEndpoints then Inl ErrTooMany
          else if \<not> storableEndpoint row then Inl HookValueRefused
          else case firstBroken (endpointChecks row
                 @ [(''webhook_endpoints_pkey'', \<not> list_ex (\<lambda>x. er_id x = i) (hk_endpoints h)),
                    (''webhook_endpoints_account_id_fkey'', account \<in> set (hk_accounts h))]) of
            Some n \<Rightarrow> Inl (HookConstraint n)
          | None \<Rightarrow> Inr (h\<lparr>hk_endpoints := hk_endpoints h @ [row]\<rparr>, (rowEndpoint row)\<lparr>ep_createdAt := now\<rparr>, secret))"

definition hook_List :: "hooks \<Rightarrow> string \<Rightarrow> endpoint list" where
  "hook_List h account =
     map rowEndpoint (sort_key (\<lambda>e. (er_createdAt e, er_id e)) (filter (ofAccount account) (hk_endpoints h)))"

definition hook_Get :: "hooks \<Rightarrow> string \<Rightarrow> string \<Rightarrow> (hook_error, endpoint) result" where
  "hook_Get h account i =
     (case List.find (isEndpoint account i) (hk_endpoints h) of None \<Rightarrow> Inl ErrNoHook | Some e \<Rightarrow> Inr (rowEndpoint e))"

definition coalesce :: "'a option \<Rightarrow> 'a \<Rightarrow> 'a" where
  "coalesce x y = (case x of None \<Rightarrow> y | Some v \<Rightarrow> v)"

definition changed :: "changes \<Rightarrow> endpoint_row \<Rightarrow> endpoint_row" where
  "changed cg e =
     e\<lparr>er_url := coalesce (cg_url cg) (er_url e), er_description := coalesce (cg_description cg) (er_description e),
       er_events := coalesce (cg_events cg) (er_events e), er_enabled := coalesce (cg_enabled cg) (er_enabled e)\<rparr>"

definition storableChanges :: "changes \<Rightarrow> bool" where
  "storableChanges cg =
     ((case cg_url cg of None \<Rightarrow> True | Some v \<Rightarrow> storable v)
      \<and> (case cg_description cg of None \<Rightarrow> True | Some v \<Rightarrow> storable v)
      \<and> (case cg_events cg of Some (Some events) \<Rightarrow> list_all storable events | _ \<Rightarrow> True))"

definition hook_Update :: "hooks \<Rightarrow> string \<Rightarrow> string \<Rightarrow> changes \<Rightarrow> (hook_error, hooks \<times> (hook_error, endpoint) result) result" where
  "hook_Update h account i cg =
     (let P = isEndpoint account i; rows = updateWhere P (changed cg) (hk_endpoints h) in
      if \<not> storableChanges cg then Inl HookValueRefused
      else case firstBroken (concat (map (\<lambda>e. endpointChecks (changed cg e)) (filter P (hk_endpoints h)))) of
        Some n \<Rightarrow> Inl (HookConstraint n)
      | None \<Rightarrow>
          if rowsAffected P (hk_endpoints h) = 0 then Inl ErrNoHook
          else let h' = h\<lparr>hk_endpoints := rows\<rparr> in Inr (h', hook_Get h' account i))"

definition Rotate ::
  "cipher \<Rightarrow> string \<Rightarrow> hooks \<Rightarrow> string \<Rightarrow> string \<Rightarrow> gotime \<Rightarrow> byte list \<Rightarrow> byte list \<Rightarrow> (hook_error, hooks \<times> string) result" where
  "Rotate c keyID h account i now rsecret nonce =
     (let secret = NewSecret rsecret; P = isEndpoint account i;
          f = (\<lambda>e. e\<lparr>er_previousSecret := Some (er_secret e), er_previousUntil := Some (stamp (now + RotationGrace)),
                     er_secret := Seal c nonce secret, er_keyID := keyID\<rparr>) in
      if rowsAffected P (hk_endpoints h) = 0 then Inl ErrNoHook
      else Inr (h\<lparr>hk_endpoints := updateWhere P f (hk_endpoints h)\<rparr>, secret))"

definition hook_Delete :: "hooks \<Rightarrow> string \<Rightarrow> string \<Rightarrow> gotime \<Rightarrow> (hook_error, hooks) result" where
  "hook_Delete h account i now =
     (let P = isEndpoint account i in
      if rowsAffected P (hk_endpoints h) = 0 then Inl ErrNoHook
      else Inr (h\<lparr>hk_endpoints := updateWhere P (\<lambda>e. e\<lparr>er_deletedAt := Some (stamp now), er_enabled := False\<rparr>)
                                   (hk_endpoints h),
                  hk_deliveries := updateWhere (\<lambda>d. dr_endpoint d = i \<and> dr_state d = StPending)
                                   (\<lambda>d. d\<lparr>dr_state := StFailed, dr_nextAt := None\<rparr>) (hk_deliveries h)\<rparr>))"

definition Secrets :: "cipher \<Rightarrow> hooks \<Rightarrow> string \<Rightarrow> gotime \<Rightarrow> (hook_error, string list) result" where
  "Secrets c h i now =
     (case List.find (\<lambda>e. er_id e = i) (hk_endpoints h) of
        None \<Rightarrow> Inl ErrNoHook
      | Some e \<Rightarrow>
          bindE (Open_secret c (er_secret e)) (\<lambda>first.
            case (er_previousSecret e, er_previousUntil e) of
              (Some previous, Some until) \<Rightarrow>
                if now < until then (case Open_secret c previous of Inl _ \<Rightarrow> Inr [first] | Inr second \<Rightarrow> Inr [first, second])
                else Inr [first]
            | _ \<Rightarrow> Inr [first]))"

text \<open>What \<open>netip.ParsePrefix\<close> makes of a text is the argument; an entry it refuses allows nothing.\<close>

definition allowances :: "(string \<Rightarrow> prefix option) \<Rightarrow> string list \<Rightarrow> prefix list" where
  "allowances parsePrefix ts = List.map_filter parsePrefix ts"

definition Allowed :: "(string \<Rightarrow> prefix option) \<Rightarrow> hooks \<Rightarrow> string \<Rightarrow> (hook_error, prefix list) result" where
  "Allowed parsePrefix h i =
     (case List.find (\<lambda>e. er_id e = i) (hk_endpoints h) of
        None \<Rightarrow> Inl ErrNoHook
      | Some e \<Rightarrow> Inr (allowances parsePrefix (er_allowed e)))"

end
