(* ===== verification/Store_Deliveries.thy ===== *)
theory Store_Deliveries
  imports Store_Hooks
begin

text \<open>
  Package webhook, postgres.go, the deliveries: what becomes of the outbox, what is due, what an attempt
  leaves, and the sweep, the test, the list and the resend.
\<close>

section \<open>Expanding the outbox\<close>

definition receiving :: "hooks \<Rightarrow> string \<Rightarrow> string \<Rightarrow> string list" where
  "receiving h account eventType =
     map er_id
       (filter (\<lambda>e. Receives ((rowEndpoint e)\<lparr>ep_enabled := True\<rparr>) eventType)
         (sort_key (\<lambda>e. (er_createdAt e, er_id e))
           (filter (\<lambda>e. er_enabled e \<and> er_deletedAt e = None \<and> (er_account e = Some account \<or> er_scope e = ScopeDeployment))
             (hk_endpoints h))))"

definition insertDelivery :: "hooks \<Rightarrow> delivery_row \<Rightarrow> (hook_error, hooks) result" where
  "insertDelivery h d =
     (case firstBroken (deliveryUniques (hk_deliveries h) d) of
        Some n \<Rightarrow> Inl (HookConstraint n)
      | None \<Rightarrow> Inr (h\<lparr>hk_deliveries := hk_deliveries h @ [d\<lparr>dr_seq := hk_seq h\<rparr>], hk_seq := hk_seq h + 1\<rparr>))"

definition newDelivery :: "string \<Rightarrow> string \<Rightarrow> string \<Rightarrow> string option \<Rightarrow> string \<Rightarrow> gotime \<Rightarrow> string \<Rightarrow> gotime \<Rightarrow> delivery_row" where
  "newDelivery i endpoint account pid eventType occurred payload now =
     \<lparr>dr_id = i, dr_endpoint = endpoint, dr_account = account, dr_payment = pid, dr_type = eventType,
      dr_occurredAt = stamp occurred, dr_payload = payload, dr_state = StPending, dr_attempts = 0,
      dr_nextAt = Some (stamp now), dr_deliveredAt = None, dr_createdAt = stamp now, dr_seq = 0\<rparr>"

primrec insertEach ::
  "(string \<Rightarrow> byte list option) \<Rightarrow> queued_row \<Rightarrow> string \<Rightarrow> gotime \<Rightarrow> string list \<Rightarrow> hooks \<Rightarrow> (hook_error, hooks) result" where
  "insertEach fresh q payload now [] h = Inr h"
| "insertEach fresh q payload now (endpoint # es) h =
     (case hook_NewID (fresh endpoint) of
        Inl e \<Rightarrow> Inl e
      | Inr i \<Rightarrow>
          bindE (insertDelivery h (newDelivery i endpoint (ox_account q) (Some (ox_payment q)) (ox_event q)
                                     (qx_createdAt q) payload now))
                (insertEach fresh q payload now es))"

definition removeQueued :: "int \<Rightarrow> hooks \<Rightarrow> hooks" where
  "removeQueued i h = h\<lparr>hk_outbox := filter (\<lambda>q. qx_id q \<noteq> i) (hk_outbox h)\<rparr>"

text \<open>\<open>locked\<close> are the rows another transaction holds, which the query skips.\<close>

definition expandOne ::
  "(string \<Rightarrow> string option) \<Rightarrow> int set \<Rightarrow> (string \<Rightarrow> byte list option) \<Rightarrow> hooks \<Rightarrow> gotime \<Rightarrow> (hook_error, hooks \<times> bool) result" where
  "expandOne jsonb locked fresh h now =
     (case List.find (\<lambda>q. qx_id q \<notin> locked) (hk_outbox h) of
        None \<Rightarrow> Inr (h, False)
      | Some q \<Rightarrow>
          let to = receiving h (ox_account q) (ox_event q) in
          if to = [] then Inr (removeQueued (qx_id q) h, True)
          else
            (case Envelope (ox_event q) (qx_createdAt q) (ox_account q) (ox_payload q) of
               Inl e \<Rightarrow> Inl e
             | Inr body \<Rightarrow>
            (case jsonb body of
               None \<Rightarrow> Inl HookValueRefused
             | Some payload \<Rightarrow>
                 bindE (insertEach fresh q payload now to h) (\<lambda>h'. Inr (removeQueued (qx_id q) h', True)))))"

section \<open>What is due\<close>

record sendable_due =
  du_delivery :: delivery
  du_url :: string
  du_allowed :: "prefix list"

text \<open>\<open>row_number() over (partition by \<dots>)\<close>, of rows already in the window's order.\<close>

fun rowNumbers :: "('a \<Rightarrow> 'k) \<Rightarrow> 'a list \<Rightarrow> 'a list \<Rightarrow> ('a \<times> nat) list" where
  "rowNumbers key before [] = []"
| "rowNumbers key before (x # xs) =
     (x, length (filter (\<lambda>y. key y = key x) before) + 1) # rowNumbers key (before @ [x]) xs"

definition sendable :: "hooks \<Rightarrow> gotime \<Rightarrow> delivery_row \<Rightarrow> bool" where
  "sendable h now d =
     (dr_state d = StPending
      \<and> (case dr_nextAt d of None \<Rightarrow> False | Some t \<Rightarrow> t \<le> stamp now)
      \<and> list_ex (\<lambda>e. er_id e = dr_endpoint d \<and> er_enabled e \<and> er_deletedAt e = None) (hk_endpoints h)
      \<and> \<not> list_ex (\<lambda>p. dr_endpoint p = dr_endpoint d \<and> dr_payment p = dr_payment d
                       \<and> dr_state p = StPending \<and> dr_seq p < dr_seq d) (hk_deliveries h))"

definition dueKey :: "delivery_row \<Rightarrow> gotime \<times> int" where
  "dueKey d = ((case dr_nextAt d of None \<Rightarrow> 0 | Some t \<Rightarrow> t), dr_seq d)"

definition dueRows :: "hooks \<Rightarrow> gotime \<Rightarrow> nat \<Rightarrow> nat \<Rightarrow> delivery_row list" where
  "dueRows h now limit perEndpoint =
     take limit (map fst (filter (\<lambda>(d, nth). nth \<le> perEndpoint)
       (rowNumbers dr_endpoint [] (sort_key dueKey (filter (sendable h now) (hk_deliveries h))))))"

definition rowDelivery :: "delivery_row \<Rightarrow> delivery" where
  "rowDelivery d =
     \<lparr>dl_id = dr_id d, dl_endpoint = dr_endpoint d, dl_account = dr_account d,
      dl_payment = (case dr_payment d of None \<Rightarrow> [] | Some p \<Rightarrow> p), dl_type = dr_type d,
      dl_occurredAt = dr_occurredAt d, dl_body = dr_payload d, dl_state = dr_state d, dl_attempts = dr_attempts d,
      dl_nextAt = (case dr_nextAt d of None \<Rightarrow> 0 | Some t \<Rightarrow> t)\<rparr>"

definition Due :: "(string \<Rightarrow> prefix option) \<Rightarrow> hooks \<Rightarrow> gotime \<Rightarrow> nat \<Rightarrow> nat \<Rightarrow> sendable_due list" where
  "Due parsePrefix h now limit perEndpoint =
     map (\<lambda>d. case List.find (\<lambda>e. er_id e = dr_endpoint d) (hk_endpoints h) of
                None \<Rightarrow> \<lparr>du_delivery = rowDelivery d, du_url = [], du_allowed = []\<rparr>
              | Some e \<Rightarrow> \<lparr>du_delivery = rowDelivery d, du_url = er_url e,
                           du_allowed = allowances parsePrefix (er_allowed e)\<rparr>)
       (dueRows h now limit perEndpoint)"

section \<open>What an attempt leaves\<close>

record outcome =
  oc_status :: int
  oc_reason :: string
  oc_response :: string
  oc_took :: duration

definition outcome_Delivered :: "outcome \<Rightarrow> bool" where
  "outcome_Delivered o1 = (200 \<le> oc_status o1 \<and> oc_status o1 < 300)"

definition tryRow :: "string \<Rightarrow> outcome \<Rightarrow> gotime \<Rightarrow> try_row" where
  "tryRow i o1 now =
     \<lparr>ty_delivery = i, ty_at = stamp now, ty_status = (if oc_status o1 \<noteq> 0 then Some (oc_status o1) else None),
      ty_reason = oc_reason o1, ty_response = oc_response o1, ty_tookMs = oc_took o1 div 1000000\<rparr>"

definition attempted :: "delivery \<Rightarrow> outcome \<Rightarrow> gotime \<Rightarrow> int \<Rightarrow> delivery_row \<Rightarrow> delivery_row" where
  "attempted d o1 now random row =
     (let attempts = dl_attempts d + 1; again = NextAttempt attempts now random in
      row\<lparr>dr_attempts := attempts,
          dr_state := (if outcome_Delivered o1 then StDelivered else if again \<noteq> None then StPending else StFailed),
          dr_nextAt := (if outcome_Delivered o1 then None else map_option stamp again),
          dr_deliveredAt := (if outcome_Delivered o1 then Some (stamp now) else None)\<rparr>)"

text \<open>Where the update would make a second test of the endpoint pending, the index refuses it.\<close>

definition hook_Attempted :: "hooks \<Rightarrow> delivery \<Rightarrow> outcome \<Rightarrow> gotime \<Rightarrow> int \<Rightarrow> (hook_error, hooks) result" where
  "hook_Attempted h d o1 now random =
     (let P = (\<lambda>r. dr_id r = dl_id d); others = filter (\<lambda>r. \<not> P r) (hk_deliveries h) in
      if \<not> (storable (oc_reason o1) \<and> storable (oc_response o1)) then Inl HookValueRefused
      else if rowsAffected P (hk_deliveries h) = 0 then Inl (HookConstraint ''webhook_attempts_delivery_id_fkey'')
      else case firstBroken (concat (map (\<lambda>r. deliveryUniques others (attempted d o1 now random r))
                                       (filter P (hk_deliveries h)))) of
        Some n \<Rightarrow> Inl (HookConstraint n)
      | None \<Rightarrow> Inr (h\<lparr>hk_tries := hk_tries h @ [tryRow (dl_id d) o1 now],
                       hk_deliveries := updateWhere P (attempted d o1 now random) (hk_deliveries h)\<rparr>))"

section \<open>The sweep, the test, the list and the resend\<close>

definition Sweep :: "hooks \<Rightarrow> gotime \<Rightarrow> nat \<Rightarrow> hooks \<times> nat" where
  "Sweep h before limit =
     (let ids = map dr_id (take limit (sort_key dr_createdAt
                  (filter (\<lambda>d. dr_state d \<noteq> StPending \<and> dr_createdAt d < stamp before) (hk_deliveries h)))) in
      if ids = [] then (h, 0)
      else (h\<lparr>hk_tries := filter (\<lambda>t. ty_delivery t \<notin> set ids) (hk_tries h),
              hk_deliveries := filter (\<lambda>d. dr_id d \<notin> set ids) (hk_deliveries h)\<rparr>,
            rowsAffected (\<lambda>d. dr_id d \<in> set ids) (hk_deliveries h)))"

definition hook_Test ::
  "(string \<Rightarrow> string option) \<Rightarrow> hooks \<Rightarrow> string \<Rightarrow> string \<Rightarrow> gotime \<Rightarrow> byte list option \<Rightarrow> (hook_error, hooks \<times> string) result" where
  "hook_Test jsonb h account endpoint now rid =
     (case Envelope ''endpoint.test'' now account ''{}'' of
        Inl e \<Rightarrow> Inl e
      | Inr body \<Rightarrow>
     (case hook_NewID rid of
        Inl e \<Rightarrow> Inl e
      | Inr i \<Rightarrow>
     (case jsonb body of
        None \<Rightarrow> Inl HookValueRefused
      | Some payload \<Rightarrow>
          if list_ex (\<lambda>e. isEndpoint account endpoint e \<and> er_enabled e) (hk_endpoints h)
             \<and> \<not> list_ex (pendingTest endpoint) (hk_deliveries h)
          then (case insertDelivery h (newDelivery i endpoint account None ''endpoint.test'' now payload now) of
                  Inl e \<Rightarrow> Inl ErrPending
                | Inr h' \<Rightarrow> Inr (h', i))
          else case hook_Get h account endpoint of
            Inl e \<Rightarrow> Inl e
          | Inr e \<Rightarrow> if \<not> ep_enabled e then Inl ErrDisabled else Inl ErrPending)))"

definition MaxListed :: nat where "MaxListed = 100"

record listed =
  ls_delivery :: delivery
  ls_deliveredAt :: gotime
  ls_attempts :: "try_row list"

definition hook_Deliveries :: "hooks \<Rightarrow> string \<Rightarrow> string \<Rightarrow> (hook_error, listed list) result" where
  "hook_Deliveries h account endpoint =
     bindE (hook_Get h account endpoint) (\<lambda>_.
       Inr (map (\<lambda>d. \<lparr>ls_delivery = (rowDelivery d)\<lparr>dl_endpoint := endpoint, dl_account := account, dl_body := []\<rparr>,
                      ls_deliveredAt = (case dr_deliveredAt d of None \<Rightarrow> 0 | Some t \<Rightarrow> t),
                      ls_attempts = sort_key ty_at (filter (\<lambda>t. ty_delivery t = dr_id d) (hk_tries h))\<rparr>)
             (take MaxListed (sort_key (\<lambda>d. - dr_seq d) (filter (\<lambda>d. dr_endpoint d = endpoint) (hk_deliveries h))))))"

text \<open>The report \<open>suco doctor\<close> makes of the deliveries.\<close>

record account_standing =
  st_account :: string
  st_pending :: nat
  st_failed :: nat
  st_failedTo :: "string list"

definition standOf :: "hooks \<Rightarrow> string \<Rightarrow> account_standing" where
  "standOf h account =
     (let mine = filter (\<lambda>d. dr_account d = account) (hk_deliveries h) in
      \<lparr>st_account = account,
       st_pending = length (filter (\<lambda>d. dr_state d = StPending) mine),
       st_failed = length (filter (\<lambda>d. dr_state d = StFailed) mine),
       st_failedTo = sort (remdups (map dr_endpoint (filter (\<lambda>d. dr_state d = StFailed) mine)))\<rparr>)"

definition Stand :: "hooks \<Rightarrow> string \<Rightarrow> account_standing list \<times> nat" where
  "Stand h keyID =
     (map (standOf h) (sort (remdups (map dr_account (filter (\<lambda>d. dr_state d \<noteq> StDelivered) (hk_deliveries h))))),
      length (filter (\<lambda>e. er_deletedAt e = None \<and> er_keyID e \<noteq> keyID) (hk_endpoints h)))"

definition resendable :: "hooks \<Rightarrow> string \<Rightarrow> string \<Rightarrow> string \<Rightarrow> delivery_row \<Rightarrow> bool" where
  "resendable h account endpoint i d =
     (dr_id d = i \<and> dr_endpoint d = endpoint \<and> list_ex (isEndpoint account endpoint) (hk_endpoints h))"

definition Resend :: "hooks \<Rightarrow> string \<Rightarrow> string \<Rightarrow> string \<Rightarrow> gotime \<Rightarrow> (hook_error, hooks) result" where
  "Resend h account endpoint i now =
     (let P = (\<lambda>d. resendable h account endpoint i d \<and> dr_state d \<noteq> StPending);
          f = (\<lambda>d. d\<lparr>dr_state := StPending, dr_nextAt := Some (stamp now), dr_deliveredAt := None\<rparr>) in
      case firstBroken (concat (map (\<lambda>d. deliveryUniques (filter (\<lambda>x. \<not> P x) (hk_deliveries h)) (f d))
                                   (filter P (hk_deliveries h)))) of
        Some n \<Rightarrow> Inl (HookConstraint n)
      | None \<Rightarrow>
          if rowsAffected P (hk_deliveries h) = 1 then Inr (h\<lparr>hk_deliveries := updateWhere P f (hk_deliveries h)\<rparr>)
          else if list_ex (resendable h account endpoint i) (hk_deliveries h) then Inl ErrPending
          else Inl ErrNoHook)"

end
