(* ===== verification/Sending.thy ===== *)
theory Sending
  imports Store_Deliveries Cursors
begin

text \<open>
  Package webhook, sender.go and worker.go: one attempt at a delivery, and the rounds of the worker. As in
  the observer's rounds every call is answered by the world, which also says what everybody else did to the
  tables before it. The sends of a round run together: a schedule says whose turn it is, and what it leaves
  undone is done in order.
\<close>

section \<open>Calls\<close>

datatype answer = NoAnswer bool | Answered int string

text \<open>\<open>NoAnswer\<close> says whether the deadline had passed.\<close>

record mail_world =
  mw_now :: "nat \<Rightarrow> gotime"
  mw_random :: "nat \<Rightarrow> int"
  mw_others :: "nat \<Rightarrow> hooks \<times> lease_row list \<Rightarrow> hooks \<times> lease_row list"
  mw_down :: "nat \<Rightarrow> hook_error option"
  mw_clock :: "nat \<Rightarrow> gotime"
  mw_locked :: "nat \<Rightarrow> int set"
  mw_fresh :: "nat \<Rightarrow> string \<Rightarrow> byte list option"
  mw_resolve :: "nat \<Rightarrow> string \<Rightarrow> addr list option"
  mw_connect :: "nat \<Rightarrow> addr \<Rightarrow> string \<Rightarrow> (unit, unit) result"
  mw_exchange :: "nat \<Rightarrow> addr \<Rightarrow> (string \<times> string) list \<Rightarrow> string \<Rightarrow> answer"
  mw_late :: "nat \<Rightarrow> bool"
  mw_schedule :: "nat \<Rightarrow> nat list"
  mw_holder :: string
  mw_parse :: "string \<Rightarrow> url option"
  mw_parsePrefix :: "string \<Rightarrow> prefix option"
  mw_request :: "url \<Rightarrow> bool"
  mw_jsonb :: "string \<Rightarrow> string option"
  mw_cipher :: cipher
  mw_hmac :: "byte list \<Rightarrow> string \<Rightarrow> byte list"
  mw_quote :: "string \<Rightarrow> string"

datatype hook_word = HwDelivering | HwNoRound | HwWaiting | HwNotFinished | HwStalled

definition hookWordText :: "hook_word \<Rightarrow> string" where
  "hookWordText w =
     (case w of HwDelivering \<Rightarrow> ''delivering'' | HwNoRound \<Rightarrow> ''no-round'' | HwWaiting \<Rightarrow> ''waiting''
      | HwNotFinished \<Rightarrow> ''unreachable'' | HwStalled \<Rightarrow> ''stalled'')"

record shift =
  sf_hooks :: hooks
  sf_leases :: "lease_row list"
  sf_word :: hook_word
  sf_finished :: gotime
  sf_calls :: nat
  sf_sent :: "(string \<times> string) list list"

text \<open>
  \<open>sf_sent\<close> is a history: the headers of each request that has gone out over a connection. Nothing reads it but
  the statements about what was sent.
\<close>

type_synonym 'a job = "shift \<Rightarrow> (hook_error, 'a) result \<times> shift"

definition idle :: "'a \<Rightarrow> 'a job" where
  "idle a = (\<lambda>s. (Inr a, s))"

definition stopping :: "hook_error \<Rightarrow> 'a job" where
  "stopping e = (\<lambda>s. (Inl e, s))"

definition followed_by :: "'a job \<Rightarrow> ('a \<Rightarrow> 'b job) \<Rightarrow> 'b job" where
  "followed_by m f = (\<lambda>s. case m s of (Inl e, s') \<Rightarrow> (Inl e, s') | (Inr a, s') \<Rightarrow> f a s')"

definition caught_by :: "'a job \<Rightarrow> (hook_error \<Rightarrow> 'b job) \<Rightarrow> ('a \<Rightarrow> 'b job) \<Rightarrow> 'b job" where
  "caught_by m g f = (\<lambda>s. case m s of (Inl e, s') \<Rightarrow> g e s' | (Inr a, s') \<Rightarrow> f a s')"

definition asks :: "(nat \<Rightarrow> 'a) \<Rightarrow> 'a job" where
  "asks f = (\<lambda>s. (Inr (f (sf_calls s)), s\<lparr>sf_calls := sf_calls s + 1\<rparr>))"

text \<open>One statement or transaction, after whatever others wrote; it writes all of its own or nothing.\<close>

definition onTables ::
  "mail_world \<Rightarrow> (nat \<Rightarrow> hooks \<times> lease_row list \<Rightarrow> (hook_error, 'a \<times> hooks \<times> lease_row list) result) \<Rightarrow> 'a job" where
  "onTables w f = (\<lambda>s.
     let k = sf_calls s; (h, ls) = mw_others w k (sf_hooks s, sf_leases s);
         s1 = s\<lparr>sf_hooks := h, sf_leases := ls, sf_calls := k + 1\<rparr> in
     case mw_down w k of
       Some e \<Rightarrow> (Inl e, s1)
     | None \<Rightarrow>
         (case f k (h, ls) of
            Inl e \<Rightarrow> (Inl e, s1)
          | Inr (a, h', ls') \<Rightarrow> (Inr a, s1\<lparr>sf_hooks := h', sf_leases := ls'\<rparr>)))"

definition onHooks :: "mail_world \<Rightarrow> (nat \<Rightarrow> hooks \<Rightarrow> (hook_error, 'a \<times> hooks) result) \<Rightarrow> 'a job" where
  "onHooks w f = onTables w (\<lambda>k (h, ls). bindE (f k h) (\<lambda>(a, h'). Inr (a, h', ls)))"

definition onLeases :: "mail_world \<Rightarrow> (gotime \<Rightarrow> lease_row list \<Rightarrow> lease_row list \<times> bool) \<Rightarrow> bool job" where
  "onLeases w f = onTables w (\<lambda>k (h, ls). case f (mw_clock w k) ls of (ls', ok) \<Rightarrow> Inr (ok, h, ls'))"

section \<open>One attempt\<close>

definition responseBytes :: nat where "responseBytes = 4096"
definition responseShown :: int where "responseShown = 256"

definition failedFor :: "string \<Rightarrow> duration \<Rightarrow> outcome" where
  "failedFor reason took = \<lparr>oc_status = 0, oc_reason = reason, oc_response = [], oc_took = took\<rparr>"

definition sendHeaders :: "string \<Rightarrow> string \<Rightarrow> string \<Rightarrow> (string \<times> string) list" where
  "sendHeaders i timestamp signature =
     [(''Content-Type'', ''application/json''), (''User-Agent'', ''suco''), (''webhook-id'', i),
      (''webhook-timestamp'', timestamp), (''webhook-signature'', signature)]"

text \<open>The connection is made to an address the check saw, and what it came to.\<close>

definition exchanged :: "mail_world \<Rightarrow> nat \<Rightarrow> destination \<Rightarrow> (string \<times> string) list \<Rightarrow> string \<Rightarrow> answer" where
  "exchanged w k dest headers body =
     (case Dial (mw_connect w k) dest of
        Inl _ \<Rightarrow> NoAnswer (mw_late w k)
      | Inr (conn, a) \<Rightarrow> mw_exchange w k a headers body)"

definition posts :: "mail_world \<Rightarrow> destination \<Rightarrow> (string \<times> string) list \<Rightarrow> string \<Rightarrow> answer job" where
  "posts w dest headers body = (\<lambda>s.
     let k = sf_calls s; connected = (case Dial (mw_connect w k) dest of Inl _ \<Rightarrow> False | Inr _ \<Rightarrow> True) in
     (Inr (exchanged w k dest headers body),
      s\<lparr>sf_calls := k + 1, sf_sent := sf_sent s @ (if connected then [headers] else [])\<rparr>))"

definition Send :: "mail_world \<Rightarrow> string \<Rightarrow> prefix list \<Rightarrow> string list \<Rightarrow> delivery \<Rightarrow> outcome job" where
  "Send w url allowed secrets d =
     followed_by (asks (mw_now w)) (\<lambda>started.
     followed_by (asks (mw_resolve w)) (\<lambda>resolve.
       let failing = (\<lambda>reason. followed_by (asks (mw_now w)) (\<lambda>ended. idle (failedFor reason (subTime ended started)))) in
       case Check (mw_parse w) resolve url allowed of
         Inl _ \<Rightarrow> failing ''destination''
       | Inr dest \<Rightarrow>
           let timestamp = Timestamp started in
           (case Sign (mw_hmac w) secrets (dl_id d) timestamp (dl_body d) of
              Inl _ \<Rightarrow> failing ''secret''
            | Inr signature \<Rightarrow>
                if \<not> mw_request w (de_URL dest) then failing ''destination''
                else
                  followed_by (posts w dest (sendHeaders (dl_id d) timestamp signature) (dl_body d)) (\<lambda>resp.
                    case resp of
                      NoAnswer late \<Rightarrow> failing (if late then ''timeout'' else ''connection'')
                    | Answered status body \<Rightarrow>
                        followed_by (asks (mw_now w)) (\<lambda>ended.
                          idle \<lparr>oc_status = status, oc_reason = [],
                                oc_response = Shown (mw_quote w) (take responseBytes body) responseShown,
                                oc_took = subTime ended started\<rparr>)))))"

section \<open>A round\<close>

definition hookPeriod :: duration where "hookPeriod = 5 * Second"
definition expandPerRound :: nat where "expandPerRound = 100"
definition sendsPerRound :: nat where "sendsPerRound = 32"
definition perEndpoint :: nat where "perEndpoint = 4"
definition sweepPerRound :: nat where "sweepPerRound = 1000"
definition hookStaleAfter :: int where "hookStaleAfter = 3"
definition hookLease :: string where "hookLease = ''webhooks''"

text \<open>\<open>Expand\<close>: a row in each transaction, until there is none or the limit is met.\<close>

primrec Expand :: "mail_world \<Rightarrow> gotime \<Rightarrow> nat \<Rightarrow> nat job" where
  "Expand w now 0 = idle 0"
| "Expand w now (Suc limit) =
     followed_by (onHooks w (\<lambda>k h. bindE (expandOne (mw_jsonb w) (mw_locked w k) (mw_fresh w k) h now)
                                      (\<lambda>(h', any). Inr (any, h')))) (\<lambda>any.
       if \<not> any then idle 0
       else followed_by (Expand w now limit) (\<lambda>taken. idle (taken + 1)))"

text \<open>A send under way: before it is signed, before its outcome is written down, or over.\<close>

datatype errand = Starting sendable_due | Sent sendable_due outcome | Over "hook_error option"

definition proceed :: "mail_world \<Rightarrow> errand \<Rightarrow> errand job" where
  "proceed w t =
     (case t of
        Starting d \<Rightarrow>
          followed_by (asks (mw_now w)) (\<lambda>started.
          caught_by
            (onHooks w (\<lambda>k h. bindE (Secrets (mw_cipher w) h (dl_endpoint (du_delivery d)) started) (\<lambda>ss. Inr (ss, h))))
            (\<lambda>e. if e = ErrSealed
                 then followed_by (asks (mw_now w)) (\<lambda>ended. idle (Sent d (failedFor ''secret'' (subTime ended started))))
                 else idle (Over (Some e)))
            (\<lambda>secrets. followed_by (Send w (du_url d) (du_allowed d) secrets (du_delivery d)) (\<lambda>o1. idle (Sent d o1))))
      | Sent d o1 \<Rightarrow>
          followed_by (asks (mw_now w)) (\<lambda>now.
          followed_by (asks (mw_random w)) (\<lambda>random.
          caught_by
            (onHooks w (\<lambda>k h. bindE (hook_Attempted h (du_delivery d) o1 now random) (\<lambda>h'. Inr ((), h'))))
            (\<lambda>e. idle (Over (Some e)))
            (\<lambda>_. idle (Over None))))
      | Over e \<Rightarrow> idle (Over e))"

primrec taking_turns :: "mail_world \<Rightarrow> nat list \<Rightarrow> errand list \<Rightarrow> errand list job" where
  "taking_turns w [] ts = idle ts"
| "taking_turns w (i # is) ts =
     (if i < length ts
      then followed_by (proceed w (ts ! i)) (\<lambda>t. taking_turns w is (ts[i := t]))
      else taking_turns w is ts)"

definition allThrough :: "errand list \<Rightarrow> nat list" where
  "allThrough ts = concat (map (\<lambda>i. [i, i]) [0..<length ts])"

definition failures :: "errand list \<Rightarrow> hook_error list" where
  "failures ts = List.map_filter (\<lambda>t. case t of Over e \<Rightarrow> e | _ \<Rightarrow> None) ts"

definition hook_Round :: "mail_world \<Rightarrow> unit job" where
  "hook_Round w =
     followed_by (asks (mw_now w)) (\<lambda>now.
     followed_by (Expand w now expandPerRound) (\<lambda>_.
     followed_by (onHooks w (\<lambda>k h. case Sweep h (now - Retention) sweepPerRound of (h', n) \<Rightarrow> Inr (n, h'))) (\<lambda>_.
     followed_by (onHooks w (\<lambda>k h. Inr (Due (mw_parsePrefix w) h now sendsPerRound perEndpoint, h))) (\<lambda>dues.
     followed_by (asks (mw_schedule w)) (\<lambda>schedule.
       let ts = map Starting dues in
       followed_by (taking_turns w (schedule @ allThrough ts) ts) (\<lambda>ended.
         case failures ended of [] \<Rightarrow> idle () | e # _ \<Rightarrow> stopping e))))))"

section \<open>The worker\<close>

definition hook_Word :: "shift \<Rightarrow> gotime \<Rightarrow> hook_word" where
  "hook_Word s now =
     (if sf_word s = HwDelivering \<and> subTime now (sf_finished s) > hookStaleAfter * hookPeriod then HwStalled else sf_word s)"

definition hook_says :: "mail_world \<Rightarrow> hook_word \<Rightarrow> unit job" where
  "hook_says w word =
     followed_by (asks (mw_now w)) (\<lambda>now s. (Inr (), s\<lparr>sf_word := word, sf_finished := now\<rparr>))"

text \<open>One go of \<open>Run\<close>'s loop; the log lines and the timer are left out.\<close>

definition hook_turn :: "mail_world \<Rightarrow> unit job" where
  "hook_turn w =
     caught_by (onLeases w (\<lambda>clock ls. Acquire (mw_holder w) clock ls hookLease))
       (\<lambda>_. idle ())
       (\<lambda>held. if \<not> held then hook_says w HwWaiting
               else caught_by (hook_Round w) (\<lambda>_. hook_says w HwNotFinished) (\<lambda>_. hook_says w HwDelivering))"

definition hook_Run :: "mail_world \<Rightarrow> nat \<Rightarrow> shift \<Rightarrow> shift" where
  "hook_Run w rounds s =
     snd (onLeases w (\<lambda>clock ls. Release (mw_holder w) clock ls hookLease) (((\<lambda>s. snd (hook_turn w s)) ^^ rounds) s))"

end
