(* ===== verification/Hook_Runs.thy ===== *)
theory Hook_Runs
  imports Sending
begin

text \<open>
  Everybody at the webhook tables at once: merchants over the API, payments writing the outbox, workers, and
  the operator who writes allowances. A step is one statement or transaction of any of them; the lemmas are
  what no interleaving breaks.
\<close>

section \<open>Steps\<close>

inductive hook_step :: "hooks \<Rightarrow> hooks \<Rightarrow> bool" where
  register: "hook_Create c keyID h account r now rid rsecret nonce = Inr (h', e, s) \<Longrightarrow> hook_step h h'"
| update: "hook_Update h account i cg = Inr (h', e) \<Longrightarrow> hook_step h h'"
| rotate: "Rotate c keyID h account i now rsecret nonce = Inr (h', s) \<Longrightarrow> hook_step h h'"
| delete: "hook_Delete h account i now = Inr h' \<Longrightarrow> hook_step h h'"
| allow: "hook_step h (h\<lparr>hk_endpoints := updateWhere (\<lambda>e. er_id e = i) (\<lambda>e. e\<lparr>er_allowed := ts\<rparr>) (hk_endpoints h)\<rparr>)"
| expand: "expandOne jsonb locked fresh h now = Inr (h', any) \<Longrightarrow> hook_step h h'"
| attempt: "hook_Attempted h d o1 now random = Inr h' \<Longrightarrow> hook_step h h'"
| sweep: "Sweep h before limit = (h', n) \<Longrightarrow> hook_step h h'"
| test: "hook_Test jsonb h account endpoint now rid = Inr (h', i) \<Longrightarrow> hook_step h h'"
| resend: "Resend h account endpoint i now = Inr h' \<Longrightarrow> hook_step h h'"
| tell: "\<forall>q\<in>set (hk_outbox h). qx_id q < qx_id new \<Longrightarrow> hook_step h (h\<lparr>hk_outbox := hk_outbox h @ [new]\<rparr>)"

definition hooks_started :: "hooks \<Rightarrow> bool" where
  "hooks_started h =
     (hk_endpoints h = [] \<and> hk_deliveries h = [] \<and> hk_tries h = [] \<and> hk_outbox h = [] \<and> hk_seq h = 0)"

inductive hook_run :: "hooks \<Rightarrow> hooks \<Rightarrow> bool" where
  none: "hook_run h h"
| more: "hook_run h h1 \<Longrightarrow> hook_step h1 h2 \<Longrightarrow> hook_run h h2"

lemma hook_run_trans: "hook_run b c \<Longrightarrow> hook_run a b \<Longrightarrow> hook_run a c"
  by (induction rule: hook_run.induct) (auto intro: hook_run.intros)

lemma hook_run_step: "hook_step h h' \<Longrightarrow> hook_run h h'"
  by (rule hook_run.more [OF hook_run.none])

text \<open>What every step keeps holds after every run.\<close>

locale hook_contract =
  fixes I :: "hooks \<Rightarrow> bool"
  assumes start: "hooks_started h \<Longrightarrow> I h"
    and kept: "hook_step h h' \<Longrightarrow> I h \<Longrightarrow> I h'"
begin

lemma run: "hook_run h h' \<Longrightarrow> I h \<Longrightarrow> I h'"
  by (induction rule: hook_run.induct) (auto intro: kept)

lemma from_start: "hooks_started h \<Longrightarrow> hook_run h h' \<Longrightarrow> I h'"
  using run start by blast

end

section \<open>What the operations write\<close>

definition endpointFit :: "endpoint_row \<Rightarrow> bool" where
  "endpointFit e =
     (length (er_description e) \<le> MaxDescriptionBytes \<and> (er_scope e = ScopeAccount) = (er_account e \<noteq> None))"

lemma endpointChecks_fit: "(\<forall>ck\<in>set (endpointChecks e). snd ck) \<longleftrightarrow> endpointFit e"
  by (cases "er_scope e") (auto simp: endpointChecks_def endpointFit_def)

named_theorems hook_ops "what an operation on the webhook tables that goes through writes"

lemma hook_Create_Inr [hook_ops]:
  "hook_Create c keyID h account r now rid rsecret nonce = Inr (h', e, s) \<Longrightarrow>
     \<exists>row. h' = h\<lparr>hk_endpoints := hk_endpoints h @ [row]\<rparr> \<and> er_account row = Some account \<and> er_deletedAt row = None
       \<and> (\<forall>x\<in>set (hk_endpoints h). er_id x \<noteq> er_id row) \<and> endpointFit row
       \<and> length (filter (ofAccount account) (hk_endpoints h)) < MaxEndpoints
       \<and> account \<in> set (hk_accounts h) \<and> s = NewSecret rsecret \<and> er_secret row = Seal c nonce s \<and> er_keyID row = keyID
       \<and> er_createdAt row = stamp now \<and> e = (rowEndpoint row)\<lparr>ep_createdAt := now\<rparr> \<and> er_enabled row
       \<and> er_previousSecret row = None"
  by (auto simp: hook_Create_def Let_def res_simps list_ex_iff endpointChecks_fit split: if_splits sum.splits option.splits)

lemma hook_Update_Inr [hook_ops]:
  "hook_Update h account i cg = Inr (h', e) \<Longrightarrow>
     h' = h\<lparr>hk_endpoints := updateWhere (isEndpoint account i) (changed cg) (hk_endpoints h)\<rparr>
     \<and> e = hook_Get h' account i
     \<and> (\<forall>x\<in>set (hk_endpoints h). isEndpoint account i x \<longrightarrow> endpointFit (changed cg x))
     \<and> (\<exists>x\<in>set (hk_endpoints h). isEndpoint account i x)"
  unfolding endpointChecks_fit [symmetric]
  by (fastforce simp: hook_Update_def Let_def res_simps rowsAffected_0 simp del: bex_simps split: if_splits option.splits)

lemma Rotate_Inr [hook_ops]:
  "Rotate c keyID h account i now rsecret nonce = Inr (h', s) \<Longrightarrow>
     s = NewSecret rsecret \<and> (\<exists>x\<in>set (hk_endpoints h). isEndpoint account i x)
     \<and> h' = h\<lparr>hk_endpoints := updateWhere (isEndpoint account i)
          (\<lambda>e. e\<lparr>er_previousSecret := Some (er_secret e), er_previousUntil := Some (stamp (now + RotationGrace)),
                er_secret := Seal c nonce s, er_keyID := keyID\<rparr>) (hk_endpoints h)\<rparr>"
  by (auto simp: Rotate_def Let_def rowsAffected_0 split: if_splits)

lemma hook_Delete_Inr [hook_ops]:
  "hook_Delete h account i now = Inr h' \<Longrightarrow>
     h' = h\<lparr>hk_endpoints := updateWhere (isEndpoint account i) (\<lambda>e. e\<lparr>er_deletedAt := Some (stamp now), er_enabled := False\<rparr>)
                              (hk_endpoints h),
            hk_deliveries := updateWhere (\<lambda>d. dr_endpoint d = i \<and> dr_state d = StPending)
                              (\<lambda>d. d\<lparr>dr_state := StFailed, dr_nextAt := None\<rparr>) (hk_deliveries h)\<rparr>"
  by (auto simp: hook_Delete_def Let_def split: if_splits)

lemma insertDelivery_Inr:
  "insertDelivery h d = Inr h' \<longleftrightarrow>
     h' = h\<lparr>hk_deliveries := hk_deliveries h @ [d\<lparr>dr_seq := hk_seq h\<rparr>], hk_seq := hk_seq h + 1\<rparr>
     \<and> (\<forall>x\<in>set (hk_deliveries h). dr_id x \<noteq> dr_id d)
     \<and> \<not> (pendingTest (dr_endpoint d) d \<and> (\<exists>x\<in>set (hk_deliveries h). pendingTest (dr_endpoint d) x))"
  by (auto simp: insertDelivery_def deliveryUniques_def res_simps list_ex_iff split: option.splits)

lemma hook_Attempted_Inr [hook_ops]:
  "hook_Attempted h d o1 now random = Inr h' \<Longrightarrow>
     h' = h\<lparr>hk_tries := hk_tries h @ [tryRow (dl_id d) o1 now],
            hk_deliveries := updateWhere (\<lambda>r. dr_id r = dl_id d) (attempted d o1 now random) (hk_deliveries h)\<rparr>
     \<and> (\<exists>r\<in>set (hk_deliveries h). dr_id r = dl_id d)
     \<and> (\<forall>r\<in>set (hk_deliveries h). dr_id r = dl_id d \<longrightarrow> pendingTest (dr_endpoint r) (attempted d o1 now random r) \<longrightarrow>
          (\<forall>x\<in>set (hk_deliveries h). dr_id x \<noteq> dl_id d \<longrightarrow> \<not> pendingTest (dr_endpoint r) x))"
  by (auto simp: hook_Attempted_def Let_def deliveryUniques_def res_simps rowsAffected_0 list_ex_iff attempted_def
      split: if_splits option.splits)

lemma Resend_Inr [hook_ops]:
  "Resend h account endpoint i now = Inr h' \<Longrightarrow>
     h' = h\<lparr>hk_deliveries := updateWhere (\<lambda>d. resendable h account endpoint i d \<and> dr_state d \<noteq> StPending)
          (\<lambda>d. d\<lparr>dr_state := StPending, dr_nextAt := Some (stamp now), dr_deliveredAt := None\<rparr>) (hk_deliveries h)\<rparr>
     \<and> (\<forall>d\<in>set (hk_deliveries h). resendable h account endpoint i d \<and> dr_state d \<noteq> StPending \<and> dr_type d = ''endpoint.test'' \<longrightarrow>
          (\<forall>x\<in>set (hk_deliveries h). \<not> (resendable h account endpoint i x \<and> dr_state x \<noteq> StPending) \<longrightarrow> \<not> pendingTest endpoint x))"
  apply (auto simp: Resend_def Let_def deliveryUniques_def res_simps list_ex_iff split: if_splits option.splits)
  by (auto simp: pendingTest_def resendable_def)


lemma hook_Test_Inr:
  "hook_Test jsonb h account endpoint now rid = Inr (h', i) \<Longrightarrow>
     \<exists>payload. insertDelivery h (newDelivery i endpoint account None ''endpoint.test'' now payload now) = Inr h'
       \<and> (\<exists>e\<in>set (hk_endpoints h). isEndpoint account endpoint e \<and> er_enabled e)
       \<and> \<not> (\<exists>d\<in>set (hk_deliveries h). pendingTest endpoint d)"
  by (auto simp: hook_Test_def list_ex_iff split: sum.splits option.splits if_splits)

lemma expandOne_Inr:
  assumes "expandOne jsonb locked fresh h now = Inr (h', any)"
  obtains "\<not> any" "h' = h" "\<forall>q\<in>set (hk_outbox h). qx_id q \<in> locked"
  | q where "any" "q \<in> set (hk_outbox h)" "List.find (\<lambda>q. qx_id q \<notin> locked) (hk_outbox h) = Some q"
      "receiving h (ox_account q) (ox_event q) = []" "h' = removeQueued (qx_id q) h"
  | q body payload h1 where "any" "q \<in> set (hk_outbox h)" "List.find (\<lambda>q. qx_id q \<notin> locked) (hk_outbox h) = Some q"
      "Envelope (ox_event q) (qx_createdAt q) (ox_account q) (ox_payload q) = Inr body" "jsonb body = Some payload"
      "insertEach fresh q payload now (receiving h (ox_account q) (ox_event q)) h = Inr h1"
      "h' = removeQueued (qx_id q) h1"
proof (cases "List.find (\<lambda>q. qx_id q \<notin> locked) (hk_outbox h)")
  case None
  have "\<not> any" "h' = h" using assms unfolding expandOne_def None by auto
  moreover have "\<forall>q\<in>set (hk_outbox h). qx_id q \<in> locked" using None by (auto simp: find_None_iff)
  ultimately show thesis by (rule that(1))
next
  case (Some q)
  then have "q \<in> set (hk_outbox h)" by (auto dest: find_SomeD)
  then show thesis
    using assms Some that(2,3) by (auto simp: expandOne_def Let_def res_simps split: if_splits sum.splits option.splits)
qed

lemma Sweep_result:
  assumes "Sweep h before limit = (h', n)"
  shows "\<exists>ids. h' = h\<lparr>hk_tries := filter (\<lambda>t. ty_delivery t \<notin> ids) (hk_tries h),
             hk_deliveries := filter (\<lambda>d. dr_id d \<notin> ids) (hk_deliveries h)\<rparr>
     \<and> ids \<subseteq> dr_id ` {d \<in> set (hk_deliveries h). dr_state d \<noteq> StPending \<and> dr_createdAt d < stamp before}"
proof -
  let ?ids = "map dr_id (take limit (sort_key dr_createdAt
                  (filter (\<lambda>d. dr_state d \<noteq> StPending \<and> dr_createdAt d < stamp before) (hk_deliveries h))))"
  have "set ?ids \<subseteq> dr_id ` {d \<in> set (hk_deliveries h). dr_state d \<noteq> StPending \<and> dr_createdAt d < stamp before}"
    using set_take_subset [of limit "sort_key dr_createdAt
        (filter (\<lambda>d. dr_state d \<noteq> StPending \<and> dr_createdAt d < stamp before) (hk_deliveries h))"] by auto
  moreover have "h' = h\<lparr>hk_tries := filter (\<lambda>t. ty_delivery t \<notin> set ?ids) (hk_tries h),
             hk_deliveries := filter (\<lambda>d. dr_id d \<notin> set ?ids) (hk_deliveries h)\<rparr>"
    using assms by (auto simp: Sweep_def Let_def split: if_splits)
  ultimately show ?thesis by blast
qed

lemma receiving_endpoints:
  "e \<in> set (receiving h account t) \<Longrightarrow> e \<in> er_id ` set (hk_endpoints h)"
  by (auto simp: receiving_def)

text \<open>Inserting one delivery for each of a list of endpoints keeps what inserting one keeps.\<close>

lemma insertEach_keeps:
  assumes "insertEach fresh q payload now es h = Inr h'" "I h"
    and "\<And>h1 h2 i endpoint. endpoint \<in> set es \<Longrightarrow> I h1 \<Longrightarrow>
       insertDelivery h1 (newDelivery i endpoint (ox_account q) (Some (ox_payment q)) (ox_event q) (qx_createdAt q) payload now) = Inr h2 \<Longrightarrow> I h2"
  shows "I h'"
  using assms
proof (induction es arbitrary: h)
  case (Cons e es)
  then obtain i h1 where "insertDelivery h (newDelivery i e (ox_account q) (Some (ox_payment q)) (ox_event q) (qx_createdAt q) payload now) = Inr h1"
      "insertEach fresh q payload now es h1 = Inr h'"
    by (auto simp: res_simps split: sum.splits)
  with Cons show ?case by (metis list.set_intros)
qed simp

section \<open>Endpoints\<close>

definition endpointsSound :: "hooks \<Rightarrow> bool" where
  "endpointsSound h =
     (distinct (map er_id (hk_endpoints h))
      \<and> (\<forall>e\<in>set (hk_endpoints h). endpointFit e)
      \<and> (\<forall>account. length (filter (ofAccount account) (hk_endpoints h)) \<le> MaxEndpoints))"

lemma length_filter_updateWhere:
  assumes "\<And>r. P r \<Longrightarrow> Q (f r) \<Longrightarrow> Q r"
  shows "length (filter Q (updateWhere P f rows)) \<le> length (filter Q rows)"
  using assms by (induction rows) (auto simp: le_SucI)

lemma endpoints_update:
  assumes "endpointsSound h" "hk_endpoints h' = updateWhere P f (hk_endpoints h)"
    and "\<And>e. e \<in> set (hk_endpoints h) \<Longrightarrow> P e \<Longrightarrow> endpointFit (f e)"
    and "\<And>e. er_id (f e) = er_id e" "\<And>e. er_account (f e) = er_account e"
    and "\<And>e. er_deletedAt (f e) = None \<Longrightarrow> er_deletedAt e = None"
  shows "endpointsSound h'"
proof -
  have "map er_id (updateWhere P f (hk_endpoints h)) = map er_id (hk_endpoints h)"
    by (rule map_updateWhere_frame) (simp add: assms(4))
  moreover have "length (filter (ofAccount account) (updateWhere P f (hk_endpoints h))) \<le> MaxEndpoints" for account
    using assms(1) length_filter_updateWhere [of P "ofAccount account" f "hk_endpoints h"] assms(5,6)
    by (fastforce simp: ofAccount_def endpointsSound_def intro: le_trans)
  ultimately show ?thesis
    using assms(1-3) by (auto simp: endpointsSound_def in_updateWhere)
qed

lemma endpointsSound_cong: "endpointsSound h \<Longrightarrow> hk_endpoints h' = hk_endpoints h \<Longrightarrow> endpointsSound h'"
  by (simp add: endpointsSound_def)

lemma insertEach_endpoints: "insertEach fresh q payload now es h = Inr h' \<Longrightarrow> hk_endpoints h' = hk_endpoints h \<and> hk_outbox h' = hk_outbox h"
  by (rule insertEach_keeps [where I = "\<lambda>x. hk_endpoints x = hk_endpoints h \<and> hk_outbox x = hk_outbox h"]) (auto simp: insertDelivery_Inr)

lemma expandOne_endpoints: "expandOne jsonb locked fresh h now = Inr (h', any) \<Longrightarrow> hk_endpoints h' = hk_endpoints h"
  by (erule expandOne_Inr) (auto simp: removeQueued_def dest: insertEach_endpoints)

lemma endpointsSound_step: "hook_step h h' \<Longrightarrow> endpointsSound h \<Longrightarrow> endpointsSound h'"
proof (induction rule: hook_step.induct)
  case (register c keyID h account r now rid rsecret nonce h' e s)
  from hook_Create_Inr [OF register(1)] register(2) show ?case
    by (auto simp: endpointsSound_def ofAccount_def) metis
next
  case (update h account i cg h' e)
  from hook_Update_Inr [OF update(1)] update(2) show ?case
    by (intro endpoints_update [OF update(2), of h' "isEndpoint account i" "changed cg"]) (auto simp: changed_def)
next
  case (rotate c keyID h account i now rsecret nonce h' s)
  have e: "hk_endpoints h' = updateWhere (isEndpoint account i)
      (\<lambda>e. e\<lparr>er_previousSecret := Some (er_secret e), er_previousUntil := Some (stamp (now + RotationGrace)),
            er_secret := Seal c nonce s, er_keyID := keyID\<rparr>) (hk_endpoints h)"
    using Rotate_Inr [OF rotate(1)] by simp
  show ?case
    by (rule endpoints_update [OF rotate(2) e]) (use rotate(2) in \<open>auto simp: endpointsSound_def endpointFit_def\<close>)
next
  case (delete h account i now h')
  have e: "hk_endpoints h' = updateWhere (isEndpoint account i)
      (\<lambda>e. e\<lparr>er_deletedAt := Some (stamp now), er_enabled := False\<rparr>) (hk_endpoints h)"
    using hook_Delete_Inr [OF delete(1)] by simp
  show ?case
    by (rule endpoints_update [OF delete(2) e]) (use delete(2) in \<open>auto simp: endpointsSound_def endpointFit_def\<close>)
next
  case (allow h i ts)
  show ?case
    by (rule endpoints_update [OF allow, where P = "\<lambda>e. er_id e = i" and f = "\<lambda>e. e\<lparr>er_allowed := ts\<rparr>"]) (use allow in \<open>auto simp: endpointsSound_def endpointFit_def\<close>)
next
  case (expand jsonb locked fresh h now h' any)
  then show ?case by (auto dest: expandOne_endpoints intro: endpointsSound_cong)
next
  case (attempt h d o1 now random h')
  then show ?case by (auto dest!: hook_Attempted_Inr intro: endpointsSound_cong)
next
  case (sweep h before limit h' n)
  then show ?case by (auto dest!: Sweep_result intro: endpointsSound_cong)
next
  case (test jsonb h account endpoint now rid h' i)
  then show ?case by (auto dest!: hook_Test_Inr simp: insertDelivery_Inr intro: endpointsSound_cong)
next
  case (resend h account endpoint i now h')
  then show ?case by (auto dest!: Resend_Inr intro: endpointsSound_cong)
qed (auto intro: endpointsSound_cong)

lemma endpointsSound_start: "hooks_started h \<Longrightarrow> endpointsSound h"
  by (simp add: endpointsSound_def hooks_started_def)

interpretation hook_endpoints: hook_contract endpointsSound
  by unfold_locales (fact endpointsSound_start endpointsSound_step)+


section \<open>Deliveries\<close>

text \<open>A row says when it is due exactly while it is pending, and when it arrived exactly once it has.\<close>

definition rowSound :: "delivery_row \<Rightarrow> bool" where
  "rowSound d =
     ((dr_state d = StPending) = (dr_nextAt d \<noteq> None) \<and> (dr_state d = StDelivered) = (dr_deliveredAt d \<noteq> None))"

definition oneTest :: "delivery_row list \<Rightarrow> bool" where
  "oneTest rows =
     (\<forall>x\<in>set rows. \<forall>y\<in>set rows. pendingTest (dr_endpoint x) x \<and> pendingTest (dr_endpoint x) y \<longrightarrow> dr_id x = dr_id y)"

lemma pendingTest_endpoint: "pendingTest e d \<Longrightarrow> dr_endpoint d = e"
  by (simp add: pendingTest_def)

lemma oneTestD: "oneTest rows \<Longrightarrow> x \<in> set rows \<Longrightarrow> y \<in> set rows \<Longrightarrow> pendingTest e x \<Longrightarrow> pendingTest e y \<Longrightarrow> dr_id x = dr_id y"
  unfolding oneTest_def using pendingTest_endpoint by blast

lemma oneTestI: "(\<And>x y e. x \<in> set rows \<Longrightarrow> y \<in> set rows \<Longrightarrow> pendingTest e x \<Longrightarrow> pendingTest e y \<Longrightarrow> dr_id x = dr_id y) \<Longrightarrow> oneTest rows"
  unfolding oneTest_def by blast

definition deliveriesSound :: "hooks \<Rightarrow> bool" where
  "deliveriesSound h =
     (distinct (map dr_id (hk_deliveries h)) \<and> sorted_wrt (<) (map dr_seq (hk_deliveries h))
      \<and> (\<forall>d\<in>set (hk_deliveries h). dr_seq d < hk_seq h \<and> rowSound d
           \<and> dr_endpoint d \<in> er_id ` set (hk_endpoints h))
      \<and> oneTest (hk_deliveries h))"

lemma attempted_frame [simp]:
  "dr_id (attempted d o1 now random r) = dr_id r" "dr_seq (attempted d o1 now random r) = dr_seq r"
  "dr_endpoint (attempted d o1 now random r) = dr_endpoint r" "dr_account (attempted d o1 now random r) = dr_account r"
  "dr_payment (attempted d o1 now random r) = dr_payment r" "dr_type (attempted d o1 now random r) = dr_type r"
  "dr_payload (attempted d o1 now random r) = dr_payload r" "dr_createdAt (attempted d o1 now random r) = dr_createdAt r"
  by (simp_all add: attempted_def Let_def)

lemma attempted_sound: "rowSound (attempted d o1 now random r)"
  by (simp add: attempted_def rowSound_def Let_def)

lemma newDelivery_simps [simp]:
  "dr_id (newDelivery i e a p t oc pl now) = i" "dr_endpoint (newDelivery i e a p t oc pl now) = e"
  "dr_account (newDelivery i e a p t oc pl now) = a" "dr_payment (newDelivery i e a p t oc pl now) = p"
  "dr_type (newDelivery i e a p t oc pl now) = t" "dr_state (newDelivery i e a p t oc pl now) = StPending"
  "dr_nextAt (newDelivery i e a p t oc pl now) = Some (stamp now)" "dr_deliveredAt (newDelivery i e a p t oc pl now) = None"
  "dr_payload (newDelivery i e a p t oc pl now) = pl"
  by (simp_all add: newDelivery_def)

lemma pendingTest_seq [simp]: "pendingTest ep (d\<lparr>dr_seq := k\<rparr>) = pendingTest ep d"
  by (simp add: pendingTest_def)

lemma insertDelivery_sound:
  assumes "insertDelivery h d = Inr h'" "deliveriesSound h" "rowSound d" "dr_endpoint d \<in> er_id ` set (hk_endpoints h)"
  shows "deliveriesSound h'"
proof -
  have h': "h' = h\<lparr>hk_deliveries := hk_deliveries h @ [d\<lparr>dr_seq := hk_seq h\<rparr>], hk_seq := hk_seq h + 1\<rparr>"
    and new: "\<forall>x\<in>set (hk_deliveries h). dr_id x \<noteq> dr_id d"
    and test: "\<not> (pendingTest (dr_endpoint d) d \<and> (\<exists>x\<in>set (hk_deliveries h). pendingTest (dr_endpoint d) x))"
    using assms(1) unfolding insertDelivery_Inr by blast+
  have "oneTest (hk_deliveries h @ [d\<lparr>dr_seq := hk_seq h\<rparr>])"
  proof (rule oneTestI)
    fix x y e
    assume x: "x \<in> set (hk_deliveries h @ [d\<lparr>dr_seq := hk_seq h\<rparr>])" and y: "y \<in> set (hk_deliveries h @ [d\<lparr>dr_seq := hk_seq h\<rparr>])"
      and e: "pendingTest e x" "pendingTest e y"
    have "\<not> pendingTest e d" if "z \<in> set (hk_deliveries h)" "pendingTest e z" for z
      using that test pendingTest_endpoint by blast
    with x y e oneTestD [of "hk_deliveries h" x y e] assms(2) show "dr_id x = dr_id y"
      unfolding deliveriesSound_def by fastforce
  qed
  moreover have "rowSound (d\<lparr>dr_seq := k\<rparr>)" for k using assms(3) by (simp add: rowSound_def)
  moreover have "distinct (map dr_id (hk_deliveries h'))" using assms(2) new unfolding h' by (auto simp: deliveriesSound_def)
  ultimately show ?thesis using assms(2,4) unfolding deliveriesSound_def h'
    by (auto simp: sorted_wrt_append less_Suc_eq)
qed

text \<open>Rewriting rows in place.\<close>

lemma deliveries_update:
  assumes "deliveriesSound h" "hk_deliveries h' = updateWhere P f (hk_deliveries h)" "hk_seq h' = hk_seq h"
    and "er_id ` set (hk_endpoints h) \<subseteq> er_id ` set (hk_endpoints h')"
    and "\<And>d. d \<in> set (hk_deliveries h) \<Longrightarrow> P d \<Longrightarrow> rowSound (f d)"
    and "\<And>d. dr_id (f d) = dr_id d" "\<And>d. dr_seq (f d) = dr_seq d" "\<And>d. dr_endpoint (f d) = dr_endpoint d"
    and "oneTest (hk_deliveries h')"
  shows "deliveriesSound h'"
proof -
  have m: "map g (updateWhere P f (hk_deliveries h)) = map g (hk_deliveries h)" if "\<And>d. g (f d) = g d" for g :: "delivery_row \<Rightarrow> 'z"
    by (rule map_updateWhere_frame) (rule that)
  have "dr_endpoint d \<in> er_id ` set (hk_endpoints h')" if "d \<in> set (hk_deliveries h)" for d
    using assms(1) that subsetD [OF assms(4)] by (simp add: deliveriesSound_def)
  then show ?thesis
    using assms(1,3,5,6-9) m [of dr_id] m [of dr_seq] unfolding deliveriesSound_def assms(2)
    by (auto simp: in_updateWhere)
qed


text \<open>At most one test stays pending when the rows rewritten were one at most and none other was pending.\<close>

lemma tests_update:
  assumes "oneTest rows" "distinct (map dr_id rows)"
    and "\<And>d. P d \<Longrightarrow> dr_id d = i" "\<And>d. dr_endpoint (f d) = dr_endpoint d" "\<And>d. dr_id (f d) = dr_id d"
    and "\<And>d. d \<in> set rows \<Longrightarrow> P d \<Longrightarrow> pendingTest (dr_endpoint d) (f d) \<Longrightarrow>
          \<forall>x\<in>set rows. \<not> P x \<longrightarrow> \<not> pendingTest (dr_endpoint d) x"
  shows "oneTest (updateWhere P f rows)"
proof (rule oneTestI)
  fix x y e
  assume "x \<in> set (updateWhere P f rows)" "y \<in> set (updateWhere P f rows)" and e: "pendingTest e x" "pendingTest e y"
  then obtain x0 y0 where x: "x0 \<in> set rows" "x = (if P x0 then f x0 else x0)" and y: "y0 \<in> set rows" "y = (if P y0 then f y0 else y0)"
    by (auto simp: updateWhere_def)
  have ep: "dr_endpoint x0 = e" "dr_endpoint y0 = e" using x y e pendingTest_endpoint assms(4) by metis+
  show "dr_id x = dr_id y"
  proof (cases "P x0"; cases "P y0")
    assume "P x0" "P y0" then show ?thesis using x y assms(3,5) by metis
  next
    assume "P x0" "\<not> P y0" then show ?thesis using assms(6) [OF x(1)] x y e ep by auto
  next
    assume "\<not> P x0" "P y0" then show ?thesis using assms(6) [OF y(1)] x y e ep by auto
  next
    assume "\<not> P x0" "\<not> P y0" then show ?thesis using oneTestD [OF assms(1) x(1) y(1)] x y e by auto
  qed
qed

lemma deliveries_cong:
  assumes "deliveriesSound h" "hk_deliveries h' = hk_deliveries h" "hk_seq h' = hk_seq h"
    and "er_id ` set (hk_endpoints h) \<subseteq> er_id ` set (hk_endpoints h')"
  shows "deliveriesSound h'"
proof -
  have "dr_endpoint d \<in> er_id ` set (hk_endpoints h')" if "d \<in> set (hk_deliveries h)" for d
    using assms(1) that subsetD [OF assms(4)] by (simp add: deliveriesSound_def)
  then show ?thesis using assms(1-3) by (simp add: deliveriesSound_def)
qed

lemma deliveries_filter:
  assumes "deliveriesSound h" "hk_deliveries h' = filter Q (hk_deliveries h)" "hk_seq h' = hk_seq h" "hk_endpoints h' = hk_endpoints h"
  shows "deliveriesSound h'"
proof -
  have "oneTest (filter Q (hk_deliveries h))"
    using assms(1) by (intro oneTestI) (auto simp: deliveriesSound_def dest: oneTestD)
  then show ?thesis
    using assms by (simp add: deliveriesSound_def distinct_map_filter sorted_wrt_map sorted_wrt_filter)
qed

lemma updated_ids: "(\<And>e. er_id (f e) = er_id e) \<Longrightarrow> er_id ` set (updateWhere P f rows) = er_id ` set rows"
  unfolding updateWhere_def set_map image_image by (intro image_cong) auto

lemma expandOne_deliveries:
  assumes "expandOne jsonb locked fresh h now = Inr (h', any)" "deliveriesSound h"
  shows "deliveriesSound h'"
  using assms(1)
proof (cases rule: expandOne_Inr)
  case (3 q body payload h1)
  have "deliveriesSound h1 \<and> hk_endpoints h1 = hk_endpoints h"
  proof (rule insertEach_keeps [OF 3(6)])
    fix x y i e
    assume e: "e \<in> set (receiving h (ox_account q) (ox_event q))" and x: "deliveriesSound x \<and> hk_endpoints x = hk_endpoints h"
      and ins: "insertDelivery x (newDelivery i e (ox_account q) (Some (ox_payment q)) (ox_event q) (qx_createdAt q) payload now) = Inr y"
    have "deliveriesSound y"
      by (rule insertDelivery_sound [OF ins]) (use x receiving_endpoints [OF e] in \<open>auto simp: rowSound_def\<close>)
    then show "deliveriesSound y \<and> hk_endpoints y = hk_endpoints h" using ins x by (auto simp: insertDelivery_Inr)
  qed (use assms(2) in simp)
  then show ?thesis using 3(7) by (auto simp: removeQueued_def intro: deliveries_cong)
qed (use assms(2) in \<open>auto simp: removeQueued_def intro: deliveries_cong\<close>)

lemma deliveriesSound_step: "hook_step h h' \<Longrightarrow> deliveriesSound h \<Longrightarrow> deliveriesSound h'"
proof (induction rule: hook_step.induct)
  case (register c keyID h account r now rid rsecret nonce h' e s)
  then show ?case by (auto dest!: hook_Create_Inr intro: deliveries_cong)
next
  case (update h account i cg h' e)
  have "er_id ` set (hk_endpoints h') = er_id ` set (hk_endpoints h)"
    using hook_Update_Inr [OF update(1)] updated_ids [of "changed cg" "isEndpoint account i"] by (simp add: changed_def)
  then show ?case using hook_Update_Inr [OF update(1)] update(2) by (auto intro: deliveries_cong)
next
  case (rotate c keyID h account i now rsecret nonce h' s)
  have "er_id ` set (hk_endpoints h') = er_id ` set (hk_endpoints h)"
    using Rotate_Inr [OF rotate(1)] by (simp add: updated_ids)
  then show ?case using Rotate_Inr [OF rotate(1)] rotate(2) by (auto intro: deliveries_cong)
next
  case (delete h account i now h')
  let ?P = "\<lambda>d. dr_endpoint d = i \<and> dr_state d = StPending" and ?f = "\<lambda>d. d\<lparr>dr_state := StFailed, dr_nextAt := None\<rparr>"
  note h' = hook_Delete_Inr [OF delete(1)]
  have ids: "er_id ` set (hk_endpoints h') = er_id ` set (hk_endpoints h)" by (simp add: h' updated_ids)
  have "oneTest (hk_deliveries h')"
  proof (rule oneTestI)
    fix x y e assume x: "x \<in> set (hk_deliveries h')" and y: "y \<in> set (hk_deliveries h')" and e: "pendingTest e x" "pendingTest e y"
    have "z \<in> set (hk_deliveries h)" if "z \<in> set (hk_deliveries h')" "pendingTest e z" for z
      using that by (auto simp: h' in_updateWhere pendingTest_def)
    with x y e show "dr_id x = dr_id y" using delete(2) oneTestD unfolding deliveriesSound_def by blast
  qed
  moreover have "rowSound (?f d)" if "rowSound d" "?P d" for d using that by (auto simp: rowSound_def)
  ultimately show ?case
    using delete(2) ids by (intro deliveries_update [OF delete(2), of h' ?P ?f]) (auto simp: h' deliveriesSound_def)
next
  case (allow h i ts)
  show ?case by (rule deliveries_cong [OF allow]) (simp_all add: updated_ids)
next
  case (expand jsonb locked fresh h now h' any)
  then show ?case by (rule expandOne_deliveries)
next
  case (attempt h d o1 now random h')
  let ?P = "\<lambda>r. dr_id r = dl_id d"
  note h' = hook_Attempted_Inr [OF attempt(1)]
  have "oneTest (updateWhere ?P (attempted d o1 now random) (hk_deliveries h))"
    by (rule tests_update [where i = "dl_id d"]) (use h' attempt(2) in \<open>auto simp: deliveriesSound_def\<close>)
  then show ?case
    by (intro deliveries_update [OF attempt(2), of h' ?P "attempted d o1 now random"]) (use h' in \<open>auto simp: attempted_sound\<close>)
next
  case (sweep h before limit h' n)
  then show ?case by (auto dest!: Sweep_result intro: deliveries_filter)
next
  case (test jsonb h account endpoint now rid h' i)
  then obtain payload where ins: "insertDelivery h (newDelivery i endpoint account None ''endpoint.test'' now payload now) = Inr h'"
      and e: "\<exists>e\<in>set (hk_endpoints h). isEndpoint account endpoint e \<and> er_enabled e"
    by (auto dest!: hook_Test_Inr)
  show ?case by (rule insertDelivery_sound [OF ins test(2)]) (use e in \<open>auto simp: rowSound_def isEndpoint_def\<close>)
next
  case (resend h account endpoint i now h')
  let ?P = "\<lambda>d. resendable h account endpoint i d \<and> dr_state d \<noteq> StPending"
    and ?f = "\<lambda>d. d\<lparr>dr_state := StPending, dr_nextAt := Some (stamp now), dr_deliveredAt := None\<rparr>"
  note h' = Resend_Inr [OF resend(1)]
  have "oneTest (updateWhere ?P ?f (hk_deliveries h))"
  proof (rule tests_update [where i = i])
    fix d assume d: "d \<in> set (hk_deliveries h)" "?P d" "pendingTest (dr_endpoint d) (?f d)"
    then have "dr_type d = ''endpoint.test''" "dr_endpoint d = endpoint" by (auto simp: pendingTest_def resendable_def)
    with d h' show "\<forall>x\<in>set (hk_deliveries h). \<not> ?P x \<longrightarrow> \<not> pendingTest (dr_endpoint d) x" by blast
  qed (use resend(2) in \<open>auto simp: resendable_def deliveriesSound_def\<close>)
  then show ?case
    by (intro deliveries_update [OF resend(2), of h' ?P ?f]) (use h' in \<open>auto simp: rowSound_def\<close>)
next
  case (tell h new)
  then show ?case by (auto intro: deliveries_cong)
qed

lemma deliveriesSound_start: "hooks_started h \<Longrightarrow> deliveriesSound h"
  by (simp add: deliveriesSound_def hooks_started_def oneTest_def)

interpretation hook_deliveries: hook_contract deliveriesSound
  by unfold_locales (fact deliveriesSound_start deliveriesSound_step)+

end
