(* ===== verification/Due_Order.thy ===== *)
theory Due_Order
  imports Hook_Runs
begin

text \<open>
  What a round is handed to send, how a delivery ends, and what the rows of every reachable state look like.
\<close>

section \<open>The window over the rows due\<close>

definition capped :: "nat \<Rightarrow> ('a \<Rightarrow> 'k) \<Rightarrow> 'a list \<Rightarrow> 'a list \<Rightarrow> 'a list" where
  "capped n key before xs = map fst (filter (\<lambda>(d, nth). nth \<le> n) (rowNumbers key before xs))"

abbreviation keyed :: "('a \<Rightarrow> 'k) \<Rightarrow> 'k \<Rightarrow> 'a list \<Rightarrow> 'a list" where
  "keyed key k \<equiv> filter (\<lambda>y. key y = k)"

lemma capped_simps [simp]:
  "capped n key before [] = []"
  "capped n key before (x # xs) =
     (if length (keyed key (key x) before) < n then x # capped n key (before @ [x]) xs else capped n key (before @ [x]) xs)"
  by (simp_all add: capped_def Suc_le_eq)

lemma capped_set: "set (capped n key before xs) \<subseteq> set xs"
  by (induction xs arbitrary: before) auto

lemma capped_distinct: "distinct xs \<Longrightarrow> distinct (capped n key before xs)"
  using capped_set by (induction xs arbitrary: before) fastforce+

lemma capped_sorted: "sorted (map f xs) \<Longrightarrow> sorted (map f (capped n key before xs))"
  using capped_set by (induction xs arbitrary: before) fastforce+

lemma capped_count: "length (keyed key k (capped n key before xs)) = min (length (keyed key k xs)) (n - length (keyed key k before))"
  by (induction xs arbitrary: before) auto

lemma capped_left_out:
  "x \<in> set xs \<Longrightarrow> x \<notin> set (capped n key before xs) \<Longrightarrow> n < length (keyed key (key x) (before @ xs))"
proof (induction xs arbitrary: before)
  case (Cons y ys)
  then show ?case
  proof (cases "x = y")
    case False
    with Cons show ?thesis using Cons.IH [of "before @ [y]"] by (auto split: if_splits)
  qed (auto split: if_splits)
qed simp

lemma dueRows_capped:
  "dueRows h now limit per =
     take limit (capped per dr_endpoint [] (sort_key dueKey (filter (sendable h now) (hk_deliveries h))))"
  by (simp add: dueRows_def capped_def)

lemma dueRows_sendable: "d \<in> set (dueRows h now limit per) \<Longrightarrow> d \<in> set (hk_deliveries h) \<and> sendable h now d"
  using capped_set [of per dr_endpoint "[]" "sort_key dueKey (filter (sendable h now) (hk_deliveries h))"]
    set_take_subset [of limit "capped per dr_endpoint [] (sort_key dueKey (filter (sendable h now) (hk_deliveries h)))"]
  unfolding dueRows_capped by fastforce

lemma keyed_take: "length (keyed key k (take n xs)) \<le> length (keyed key k xs)"
  by (metis append_take_drop_id filter_append le_add1 length_append)

lemma dueRows_bounds:
  "length (dueRows h now limit per) \<le> limit"
  "length (keyed dr_endpoint e (dueRows h now limit per)) \<le> per"
proof -
  let ?L = "capped per dr_endpoint [] (sort_key dueKey (filter (sendable h now) (hk_deliveries h)))"
  show "length (dueRows h now limit per) \<le> limit" by (simp add: dueRows_capped)
  have "length (keyed dr_endpoint e ?L) \<le> per" by (simp add: capped_count)
  then show "length (keyed dr_endpoint e (dueRows h now limit per)) \<le> per"
    using keyed_take [of dr_endpoint e limit ?L] unfolding dueRows_capped by linarith
qed

lemma dueRows_distinct: "distinct (map dr_id (hk_deliveries h)) \<Longrightarrow> distinct (map dr_id (dueRows h now limit per))"
proof -
  assume ids: "distinct (map dr_id (hk_deliveries h))"
  then have "distinct (dueRows h now limit per)"
    unfolding dueRows_capped by (simp add: capped_distinct distinct_map)
  moreover have "inj_on dr_id (set (dueRows h now limit per))"
    using ids dueRows_sendable by (meson distinct_map inj_on_subset subsetI)
  ultimately show ?thesis by (simp add: distinct_map)
qed

lemma sendable_order:
  assumes "deliveriesSound h" "d \<in> set (hk_deliveries h)" "d' \<in> set (hk_deliveries h)" "sendable h now d" "sendable h now d'"
    and "dr_endpoint d = dr_endpoint d'" "dr_payment d = dr_payment d'"
  shows "d = d'"
proof -
  have "\<not> dr_seq d < dr_seq d'" "\<not> dr_seq d' < dr_seq d"
    using assms(2-7) by (auto simp: sendable_def list_ex_iff)
  then have "dr_seq d = dr_seq d'" by linarith
  moreover have "distinct (map dr_seq (hk_deliveries h))"
    using assms(1) unfolding deliveriesSound_def by (metis strict_sorted_iff)
  ultimately show ?thesis using distinct_key_unique assms(2,3) by metis
qed

text \<open>C24: The events of one payment reach a receiver in the order they happened, and no receiver starves another.
  Whatever the interleaving that led to it, what a round is handed is pending, due, and to an endpoint in use;
  every earlier delivery to the same endpoint about the same payment has been delivered or failed, and no
  other one of them is handed over beside it. There are at most as many as the round takes, at most as many to
  one endpoint as an endpoint may have, the longest waiting first; and a delivery whose turn it is is left out
  only when the round is full or its endpoint has all it may have.\<close>

theorem due_in_order:
  assumes "hooks_started h0" "hook_run h0 h" "d \<in> set (hk_deliveries h)"
  shows "(d \<in> set (dueRows h now limit per) \<longrightarrow>
      dr_state d = StPending \<and> (\<exists>t. dr_nextAt d = Some t \<and> t \<le> now)
      \<and> (\<exists>e\<in>set (hk_endpoints h). er_id e = dr_endpoint d \<and> er_enabled e \<and> er_deletedAt e = None)
      \<and> (\<forall>p\<in>set (hk_deliveries h). dr_endpoint p = dr_endpoint d \<and> dr_payment p = dr_payment d \<and> p \<noteq> d \<longrightarrow>
           (dr_seq p < dr_seq d \<longrightarrow> dr_state p \<noteq> StPending) \<and> p \<notin> set (dueRows h now limit per)))
    \<and> (sendable h now d \<longrightarrow> d \<in> set (dueRows h now limit per) \<or> length (dueRows h now limit per) = limit
         \<or> length (filter (\<lambda>x. dr_endpoint x = dr_endpoint d) (dueRows h now limit per)) = per)
    \<and> length (dueRows h now limit per) \<le> limit
    \<and> length (filter (\<lambda>x. dr_endpoint x = dr_endpoint d) (dueRows h now limit per)) \<le> per
    \<and> sorted (map dueKey (dueRows h now limit per))"
proof -
  have sound: "deliveriesSound h" by (rule hook_deliveries.from_start [OF assms(1,2)])
  let ?R = "sort_key dueKey (filter (sendable h now) (hk_deliveries h))"
  let ?L = "capped per dr_endpoint [] ?R" and ?D = "dueRows h now limit per"
  have D: "?D = take limit ?L" by (rule dueRows_capped)
  have "length (keyed dr_endpoint (dr_endpoint d) ?L) \<le> per" by (simp add: capped_count)
  then have per: "length (keyed dr_endpoint (dr_endpoint d) ?D) \<le> per"
    using keyed_take [of dr_endpoint "dr_endpoint d" limit ?L] D by simp
  have left: "d \<in> set ?D \<or> length ?D = limit \<or> length (keyed dr_endpoint (dr_endpoint d) ?D) = per" if "sendable h now d"
  proof (cases "limit \<le> length ?L")
    case True
    then show ?thesis using D by simp
  next
    case False
    then have "?D = ?L" using D by simp
    then show ?thesis
      using capped_left_out [of d ?R per dr_endpoint "[]"] that assms(3) by (auto simp: capped_count)
  qed
  have due: "dr_state d = StPending \<and> (\<exists>t. dr_nextAt d = Some t \<and> t \<le> now)
      \<and> (\<exists>e\<in>set (hk_endpoints h). er_id e = dr_endpoint d \<and> er_enabled e \<and> er_deletedAt e = None)
      \<and> (\<forall>p\<in>set (hk_deliveries h). dr_endpoint p = dr_endpoint d \<and> dr_payment p = dr_payment d \<and> p \<noteq> d \<longrightarrow>
           (dr_seq p < dr_seq d \<longrightarrow> dr_state p \<noteq> StPending) \<and> p \<notin> set ?D)" if "d \<in> set ?D"
  proof -
    have s: "sendable h now d" using dueRows_sendable [OF that] by blast
    have "stamp now \<le> now" by (simp add: stamp_def truncateTime_le)
    moreover have state: "dr_state d = StPending" "\<exists>t. dr_nextAt d = Some t \<and> t \<le> stamp now"
      "\<exists>e\<in>set (hk_endpoints h). er_id e = dr_endpoint d \<and> er_enabled e \<and> er_deletedAt e = None"
      and earlier: "\<not> (\<exists>p\<in>set (hk_deliveries h). dr_endpoint p = dr_endpoint d \<and> dr_payment p = dr_payment d
                       \<and> dr_state p = StPending \<and> dr_seq p < dr_seq d)"
      using s by (simp_all add: sendable_def list_ex_iff split: option.splits)
    ultimately have "\<exists>t. dr_nextAt d = Some t \<and> t \<le> now" by force
    moreover have "p \<notin> set ?D" if "p \<in> set (hk_deliveries h)" "dr_endpoint p = dr_endpoint d" "dr_payment p = dr_payment d" "p \<noteq> d" for p
      using sendable_order [OF sound that(1) assms(3) _ s that(2,3)] that(4) dueRows_sendable by blast
    ultimately show ?thesis using state(1,3) earlier by blast
  qed
  have "sorted (map dueKey ?L)" by (rule capped_sorted) simp
  then have "sorted (map dueKey ?D)" unfolding D by (simp add: sorted_wrt_take flip: take_map)
  moreover have "length ?D \<le> limit" using D by simp
  ultimately show ?thesis using due left per by (intro conjI impI) simp_all
qed


section \<open>How a delivery ends\<close>

text \<open>
  One delivery attempted again and again, each time as its row then stands, until it is no longer pending. An
  attempt that cannot be written down is made all the same, and leaves the tables as they were.
\<close>

primrec attemptsOn :: "string \<Rightarrow> (outcome \<times> gotime \<times> int) list \<Rightarrow> hooks \<Rightarrow> hooks" where
  "attemptsOn i [] h = h"
| "attemptsOn i (x # xs) h =
     (case List.find (\<lambda>r. dr_id r = i) (hk_deliveries h) of
        None \<Rightarrow> h
      | Some r \<Rightarrow>
          if dr_state r \<noteq> StPending then h
          else case x of (o1, now, random) \<Rightarrow>
            (case hook_Attempted h (rowDelivery r) o1 now random of Inl _ \<Rightarrow> attemptsOn i xs h | Inr h' \<Rightarrow> attemptsOn i xs h'))"

lemma rowDelivery_simps [simp]:
  "dl_id (rowDelivery d) = dr_id d" "dl_attempts (rowDelivery d) = dr_attempts d" "dl_endpoint (rowDelivery d) = dr_endpoint d"
  "dl_body (rowDelivery d) = dr_payload d"
  by (simp_all add: rowDelivery_def)

lemma hook_Attempted_pending:
  assumes "deliveriesSound h" "d \<in> set (hk_deliveries h)" "dr_state d = StPending"
    and "storable (oc_reason o1)" "storable (oc_response o1)"
  shows "hook_Attempted h (rowDelivery d) o1 now random =
     Inr (h\<lparr>hk_tries := hk_tries h @ [tryRow (dr_id d) o1 now],
            hk_deliveries := updateWhere (\<lambda>r. dr_id r = dr_id d) (attempted (rowDelivery d) o1 now random) (hk_deliveries h)\<rparr>)"
proof -
  have same: "r = d" if "r \<in> set (hk_deliveries h)" "dr_id r = dr_id d" for r
    using assms(1,2) that distinct_key_unique unfolding deliveriesSound_def by metis
  have "\<not> pendingTest (dr_endpoint d) x"
    if "x \<in> set (hk_deliveries h)" "dr_id x \<noteq> dr_id d" "pendingTest (dr_endpoint d) (attempted (rowDelivery d) o1 now random d)" for x
  proof
    assume x: "pendingTest (dr_endpoint d) x"
    have "pendingTest (dr_endpoint d) d" using that(3) assms(3) by (simp add: pendingTest_def)
    with x that(1,2) assms(1,2) show False unfolding deliveriesSound_def by (metis oneTestD)
  qed
  then have "firstBroken (concat (map (\<lambda>r. deliveryUniques (filter (\<lambda>r. dr_id r \<noteq> dr_id d) (hk_deliveries h))
        (attempted (rowDelivery d) o1 now random r)) (filter (\<lambda>r. dr_id r = dr_id d) (hk_deliveries h)))) = None"
    unfolding firstBroken_None using same by (auto simp: deliveryUniques_def list_ex_iff)
  moreover have "rowsAffected (\<lambda>r. dr_id r = dr_id d) (hk_deliveries h) \<noteq> 0" using assms(2) by auto
  ultimately show ?thesis using assms(4,5) by (simp add: hook_Attempted_def Let_def)
qed

lemma NextAttempt_None: "NextAttempt n now random = None \<longleftrightarrow> n < 1 \<or> MaxTries \<le> n"
  by (simp add: NextAttempt_def MaxTries_def Let_def)

lemma MaxTries_10: "MaxTries = 10"
  by (simp add: MaxTries_def schedule_def)

lemma attemptsOn_row:
  assumes "deliveriesSound h" "d \<in> set (hk_deliveries h)"
  shows "attemptsOn (dr_id d) (x # xs) h =
     (if dr_state d \<noteq> StPending then h
      else case x of (o1, now, random) \<Rightarrow>
        (case hook_Attempted h (rowDelivery d) o1 now random of
           Inl _ \<Rightarrow> attemptsOn (dr_id d) xs h | Inr h' \<Rightarrow> attemptsOn (dr_id d) xs h'))"
proof -
  have "List.find (\<lambda>r. dr_id r = dr_id d) (hk_deliveries h) = Some d"
    using assms find_by_key unfolding deliveriesSound_def by metis
  then show ?thesis by simp
qed

lemma attemptsOn_over:
  assumes "deliveriesSound h" "d \<in> set (hk_deliveries h)" "dr_state d \<noteq> StPending"
  shows "attemptsOn (dr_id d) xs h = h"
  using assms(3) by (cases xs) (simp_all only: attemptsOn_row [OF assms(1,2)] attemptsOn.simps(1) if_True simp_thms)

text \<open>An attempt the tables can hold: a reason and a reply PostgreSQL takes as text.\<close>

definition readable :: "outcome \<times> gotime \<times> int \<Rightarrow> bool" where
  "readable x = (case x of (o1, _) \<Rightarrow> storable (oc_reason o1) \<and> storable (oc_response o1))"

lemma unreadable_refused: "\<not> readable (o1, now, random) \<Longrightarrow> hook_Attempted h d o1 now random = Inl HookValueRefused"
  by (auto simp: readable_def hook_Attempted_def Let_def)

text \<open>The row after an attempt written down, and the tables it is in.\<close>

lemma attempt_written:
  assumes "deliveriesSound h" "d \<in> set (hk_deliveries h)" "dr_state d = StPending" "readable (o1, now, random)" "0 \<le> dr_attempts d"
  obtains h1 d1 where "hook_Attempted h (rowDelivery d) o1 now random = Inr h1" "deliveriesSound h1" "d1 \<in> set (hk_deliveries h1)"
    "dr_id d1 = dr_id d" "dr_attempts d1 = dr_attempts d + 1"
    "dr_state d1 = StPending \<longleftrightarrow> \<not> outcome_Delivered o1 \<and> dr_attempts d + 1 < MaxTries"
    "dr_state d1 = StDelivered \<longleftrightarrow> outcome_Delivered o1"
proof -
  let ?d1 = "attempted (rowDelivery d) o1 now random d"
  let ?h1 = "h\<lparr>hk_tries := hk_tries h @ [tryRow (dr_id d) o1 now],
          hk_deliveries := updateWhere (\<lambda>r. dr_id r = dr_id d) (attempted (rowDelivery d) o1 now random) (hk_deliveries h)\<rparr>"
  have w: "hook_Attempted h (rowDelivery d) o1 now random = Inr ?h1"
    using assms(4) by (intro hook_Attempted_pending [OF assms(1,2,3)]) (auto simp: readable_def)
  have "?d1 \<in> set (hk_deliveries ?h1)" using assms(2) by (auto simp: in_updateWhere)
  moreover have "deliveriesSound ?h1" by (rule deliveriesSound_step [OF hook_step.attempt [OF w] assms(1)])
  moreover have "dr_id ?d1 = dr_id d" "dr_attempts ?d1 = dr_attempts d + 1" by (simp_all add: attempted_def Let_def)
  moreover have "dr_state ?d1 = StPending \<longleftrightarrow> \<not> outcome_Delivered o1 \<and> dr_attempts d + 1 < MaxTries"
    "dr_state ?d1 = StDelivered \<longleftrightarrow> outcome_Delivered o1"
    using NextAttempt_None [of "dr_attempts d + 1" now random] assms(5) by (auto simp: attempted_def Let_def)
  ultimately show ?thesis using that w by blast
qed

definition firstReadable :: "int \<Rightarrow> (outcome \<times> gotime \<times> int) list \<Rightarrow> (outcome \<times> gotime \<times> int) list" where
  "firstReadable n outs = take (nat n) (filter readable outs)"

lemma attemptsOn_settles:
  assumes "deliveriesSound h" "d \<in> set (hk_deliveries h)" "0 \<le> dr_attempts d"
    and "dr_state d = StPending \<Longrightarrow> filter readable outs \<noteq> [] \<and> MaxTries \<le> dr_attempts d + int (length (filter readable outs))"
  shows "\<exists>d'. d' \<in> set (hk_deliveries (attemptsOn (dr_id d) outs h)) \<and> dr_id d' = dr_id d
     \<and> dr_state d' \<noteq> StPending \<and> dr_attempts d \<le> dr_attempts d'
     \<and> dr_attempts d' \<le> (if dr_state d = StPending then max (dr_attempts d + 1) MaxTries else dr_attempts d)
     \<and> (dr_state d = StPending \<longrightarrow>
          (dr_state d' = StDelivered) = list_ex (\<lambda>(o1, _). outcome_Delivered o1) (firstReadable (dr_attempts d' - dr_attempts d) outs))"
  using assms
proof (induction outs arbitrary: h d)
  case Nil
  then show ?case by auto
next
  case (Cons x xs)
  obtain o1 now random where x: "x = (o1, now, random)" by (cases x)
  show ?case
  proof (cases "dr_state d = StPending")
    case False
    show ?thesis unfolding attemptsOn_over [OF Cons.prems(1,2) False] using False Cons.prems(2) by (intro exI [of _ d]) simp
  next
    case pending: True
    show ?thesis
    proof (cases "readable x")
      case False
      have run: "attemptsOn (dr_id d) (x # xs) h = attemptsOn (dr_id d) xs h"
        unfolding attemptsOn_row [OF Cons.prems(1,2)] using pending False unreadable_refused by (simp add: x)
      have "firstReadable n (x # xs) = firstReadable n xs" for n using False by (simp add: firstReadable_def)
      then show ?thesis unfolding run using Cons.IH [OF Cons.prems(1-3)] Cons.prems(4) False by simp
    next
      case ok: True
      obtain h1 d1 where w: "hook_Attempted h (rowDelivery d) o1 now random = Inr h1" "deliveriesSound h1" "d1 \<in> set (hk_deliveries h1)"
          "dr_id d1 = dr_id d" "dr_attempts d1 = dr_attempts d + 1"
          "dr_state d1 = StPending \<longleftrightarrow> \<not> outcome_Delivered o1 \<and> dr_attempts d + 1 < MaxTries"
          "dr_state d1 = StDelivered \<longleftrightarrow> outcome_Delivered o1"
        using attempt_written [OF Cons.prems(1,2) pending ok [unfolded x] Cons.prems(3)] .
      have run: "attemptsOn (dr_id d) (x # xs) h = attemptsOn (dr_id d1) xs h1"
        unfolding attemptsOn_row [OF Cons.prems(1,2)] x using pending w(1,4) by simp
      have f: "firstReadable n (x # xs) = x # firstReadable (n - 1) xs" if "0 < n" for n
      proof -
        have "nat n = Suc (nat (n - 1))" using that by simp
        then show ?thesis using ok by (simp add: firstReadable_def)
      qed
      have prem: "dr_state d1 = StPending \<Longrightarrow> filter readable xs \<noteq> [] \<and> MaxTries \<le> dr_attempts d1 + int (length (filter readable xs))"
        using Cons.prems(4) [OF pending] ok w(5,6) by auto
      obtain d' where r: "d' \<in> set (hk_deliveries (attemptsOn (dr_id d1) xs h1))" "dr_id d' = dr_id d1"
          "dr_state d' \<noteq> StPending" "dr_attempts d1 \<le> dr_attempts d'"
          "dr_attempts d' \<le> (if dr_state d1 = StPending then max (dr_attempts d1 + 1) MaxTries else dr_attempts d1)"
          "dr_state d1 = StPending \<longrightarrow>
            (dr_state d' = StDelivered) = list_ex (\<lambda>(o1, _). outcome_Delivered o1) (firstReadable (dr_attempts d' - dr_attempts d1) xs)"
        using Cons.IH [OF w(2,3) _ prem] w(5) Cons.prems(3) by auto
      have first: "firstReadable (dr_attempts d' - dr_attempts d) (x # xs) = x # firstReadable (dr_attempts d' - dr_attempts d1) xs"
        using f [of "dr_attempts d' - dr_attempts d"] r(4) w(5) by (simp add: diff_diff_eq)
      show ?thesis
      proof (cases "dr_state d1 = StPending")
        case False
        have same: "attemptsOn (dr_id d1) xs h1 = h1" by (rule attemptsOn_over [OF w(2,3) False])
        have "firstReadable 0 xs = []" by (simp add: firstReadable_def)
        then have "firstReadable (dr_attempts d1 - dr_attempts d) (x # xs) = [x]" using f [of 1] w(5) by simp
        then show ?thesis unfolding run same
          using w False pending by (intro exI [of _ d1]) (auto simp: x)
      next
        case True
        then show ?thesis unfolding run
          using r pending w first by (intro exI [of _ d']) (auto simp: x max_def split: if_splits)
      qed
    qed
  qed
qed

lemma attemptsOn_unreadable:
  assumes "filter readable outs = []"
  shows "attemptsOn i outs h = h"
  using assms by (induction outs) (auto simp: unreadable_refused split: option.split if_splits)

lemma attemptsOn_sound: "deliveriesSound h \<Longrightarrow> deliveriesSound (attemptsOn i outs h)"
proof (induction outs arbitrary: h)
  case (Cons x xs)
  obtain o1 now random where x: "x = (o1, now, random)" by (cases x)
  show ?case
  proof (cases "List.find (\<lambda>r. dr_id r = i) (hk_deliveries h)")
    case (Some r)
    show ?thesis
    proof (cases "hook_Attempted h (rowDelivery r) o1 now random")
      case (Inr h')
      then show ?thesis
        using Cons deliveriesSound_step [OF hook_step.attempt [OF Inr]] Some by (simp add: x)
    qed (use Cons Some in \<open>simp add: x\<close>)
  qed (use Cons in simp)
qed simp

text \<open>C26: Every delivery ends that is answered in UTF-8. However a delivery came to be pending, once its attempts
  are made, each from its row as it then stands, it is delivered or failed: within ten attempts that PostgreSQL
  can hold (or one, of a delivery resent past them), delivered exactly when one of those was answered with a 2xx,
  and no round reading the tables as they then are is handed it. An attempt whose reply PostgreSQL does not take as text counts for nothing: a
  delivery answered with nothing else stays as it is, however often it is sent.\<close>

theorem delivery_settles:
  assumes "hooks_started h0" "hook_run h0 h" "d \<in> set (hk_deliveries h)" "0 \<le> dr_attempts d" "dr_state d = StPending"
  shows "(filter readable outs \<noteq> [] \<and> 10 \<le> dr_attempts d + int (length (filter readable outs)) \<longrightarrow>
      (\<exists>d'. d' \<in> set (hk_deliveries (attemptsOn (dr_id d) outs h)) \<and> dr_id d' = dr_id d
        \<and> (dr_state d' = StDelivered \<or> dr_state d' = StFailed) \<and> dr_attempts d' \<le> max (dr_attempts d + 1) 10
        \<and> (dr_state d' = StDelivered) = list_ex (\<lambda>(o1, _). outcome_Delivered o1) (firstReadable (dr_attempts d' - dr_attempts d) outs)
        \<and> dr_id d \<notin> dr_id ` set (dueRows (attemptsOn (dr_id d) outs h) now limit per)))
    \<and> (filter readable outs = [] \<longrightarrow> attemptsOn (dr_id d) outs h = h)"
proof (intro conjI impI)
  let ?h' = "attemptsOn (dr_id d) outs h"
  assume outs: "filter readable outs \<noteq> [] \<and> 10 \<le> dr_attempts d + int (length (filter readable outs))"
  have sound: "deliveriesSound h" by (rule hook_deliveries.from_start [OF assms(1,2)])
  obtain d' where d': "d' \<in> set (hk_deliveries ?h')" "dr_id d' = dr_id d" "dr_state d' \<noteq> StPending"
      "dr_attempts d' \<le> max (dr_attempts d + 1) 10"
      "(dr_state d' = StDelivered) = list_ex (\<lambda>(o1, _). outcome_Delivered o1) (firstReadable (dr_attempts d' - dr_attempts d) outs)"
    using attemptsOn_settles [OF sound assms(3,4), of outs] outs assms(5) by (auto simp: MaxTries_10)
  have "dr_id d \<notin> dr_id ` set (dueRows ?h' now limit per)"
  proof
    assume "dr_id d \<in> dr_id ` set (dueRows ?h' now limit per)"
    then obtain x where x: "x \<in> set (dueRows ?h' now limit per)" "dr_id x = dr_id d" by auto
    then have "sendable ?h' now x \<and> x \<in> set (hk_deliveries ?h')" using dueRows_sendable by blast
    moreover from this have "x = d'"
      using attemptsOn_sound [OF sound] d'(1,2) x(2) distinct_key_unique unfolding deliveriesSound_def by metis
    ultimately show False using d'(3) by (simp add: sendable_def)
  qed
  moreover have "dr_state d' = StDelivered \<or> dr_state d' = StFailed" using d'(3) by (cases "dr_state d'") auto
  ultimately show "\<exists>d'. d' \<in> set (hk_deliveries ?h') \<and> dr_id d' = dr_id d \<and> (dr_state d' = StDelivered \<or> dr_state d' = StFailed)
        \<and> dr_attempts d' \<le> max (dr_attempts d + 1) 10
        \<and> (dr_state d' = StDelivered) = list_ex (\<lambda>(o1, _). outcome_Delivered o1) (firstReadable (dr_attempts d' - dr_attempts d) outs)
        \<and> dr_id d \<notin> dr_id ` set (dueRows ?h' now limit per)"
    using d' by blast
qed (rule attemptsOn_unreadable)

section \<open>What the rows look like\<close>

lemma oneTest_length:
  assumes "oneTest rows" "distinct (map dr_id rows)"
  shows "length (filter (pendingTest ep) rows) \<le> 1"
proof -
  have "x = y" if "x \<in> set (filter (pendingTest ep) rows)" "y \<in> set (filter (pendingTest ep) rows)" for x y
    using that oneTestD [OF assms(1), of x y ep] distinct_key_unique [OF assms(2)] by auto
  then have "card (set (filter (pendingTest ep) rows)) \<le> 1" by (auto simp: card_le_Suc0_iff_eq)
  moreover have "distinct rows" using assms(2) by (simp add: distinct_map)
  ultimately show ?thesis by (metis distinct_card distinct_filter)
qed

text \<open>C28: The rows of the webhook tables keep their shape, whatever interleaves: a delivery says when it is due
  exactly while it is pending and when it arrived exactly once it has, its endpoint exists, and no two share an
  id or a place in the order; at most one test of an endpoint is on its way; an account has at most eight
  endpoints in use, and an endpoint names an account exactly when it is an account's.\<close>

theorem hook_rows_sound:
  assumes "hooks_started h0" "hook_run h0 h"
  shows "(\<forall>d\<in>set (hk_deliveries h).
            (dr_state d = StPending) = (dr_nextAt d \<noteq> None) \<and> (dr_state d = StDelivered) = (dr_deliveredAt d \<noteq> None)
            \<and> dr_endpoint d \<in> er_id ` set (hk_endpoints h))
    \<and> distinct (map dr_id (hk_deliveries h)) \<and> distinct (map dr_seq (hk_deliveries h))
    \<and> length (filter (pendingTest endpoint) (hk_deliveries h)) \<le> 1
    \<and> distinct (map er_id (hk_endpoints h))
    \<and> length (filter (\<lambda>e. er_account e = Some account \<and> er_deletedAt e = None) (hk_endpoints h)) \<le> 8
    \<and> (\<forall>e\<in>set (hk_endpoints h). (er_scope e = ScopeAccount) = (er_account e \<noteq> None) \<and> length (er_description e) \<le> 200)"
proof -
  have d: "deliveriesSound h" and e: "endpointsSound h"
    using hook_deliveries.from_start hook_endpoints.from_start assms by blast+
  have "distinct (map dr_seq (hk_deliveries h))" using d unfolding deliveriesSound_def by (metis strict_sorted_iff)
  moreover have "length (filter (pendingTest endpoint) (hk_deliveries h)) \<le> 1"
    using d oneTest_length unfolding deliveriesSound_def by blast
  moreover have "ofAccount account = (\<lambda>e. er_account e = Some account \<and> er_deletedAt e = None)"
    by (simp add: ofAccount_def fun_eq_iff)
  then have "length (filter (\<lambda>e. er_account e = Some account \<and> er_deletedAt e = None) (hk_endpoints h)) \<le> 8"
    using e unfolding endpointsSound_def MaxEndpoints_def by metis
  ultimately show ?thesis using d e
    by (simp add: deliveriesSound_def endpointsSound_def rowSound_def endpointFit_def MaxDescriptionBytes_def)
qed


section \<open>A run, and the properties at it\<close>

definition demo_cipher :: cipher where
  "demo_cipher = \<lparr>ci_nonceSize = 1, ci_seal = (\<lambda>n s. map (\<lambda>c. word_of_nat (of_char c)) s),
     ci_open = (\<lambda>n bs. Some (map (\<lambda>b. char_of (unat b)) bs))\<rparr>"

definition demo_shop_hooks :: hooks where
  "demo_shop_hooks = \<lparr>hk_accounts = [''acct''], hk_endpoints = [], hk_deliveries = [], hk_tries = [], hk_outbox = [], hk_seq = 0\<rparr>"

definition demo_endpoint :: endpoint_row where
  "demo_endpoint =
     \<lparr>er_id = ''aa'', er_scope = ScopeAccount, er_account = Some ''acct'', er_url = ''https://hooks.shop/pay'',
      er_description = [], er_events = None, er_enabled = True,
      er_secret = Seal demo_cipher [0] (NewSecret [1, 2, 3]), er_previousSecret = None, er_previousUntil = None,
      er_allowed = [], er_keyID = ''k1'', er_createdAt = 0, er_deletedAt = None\<rparr>"

definition demo_queued :: queued_row where
  "demo_queued = \<lparr>ox_account = ''acct'', ox_payment = ''p1'', ox_event = ''payment.succeeded'', ox_payload = ''{}'',
     qx_id = 1, qx_createdAt = 0\<rparr>"

definition demo_delivery :: delivery_row where
  "demo_delivery = newDelivery ''bb'' ''aa'' ''acct'' (Some ''p1'') ''payment.succeeded'' 0 ''{}'' 0"

definition demo_mailed :: hooks where
  "demo_mailed = demo_shop_hooks\<lparr>hk_endpoints := [demo_endpoint], hk_deliveries := [demo_delivery], hk_seq := 1\<rparr>"

lemma demo_url_storable: "storable ''https://hooks.shop/pay''"
  by (rule storable_printable) (simp add: printable_def)

lemma storable_Nil [simp]: "storable []"
  by (rule storable_printable) simp

lemma demo_register:
  "hook_Create demo_cipher ''k1'' demo_shop_hooks ''acct'' \<lparr>rg_url = ''https://hooks.shop/pay'', rg_description = [], rg_events = None\<rparr>
     0 (Some [0xAA]) [1, 2, 3] [0] = Inr (demo_shop_hooks\<lparr>hk_endpoints := [demo_endpoint]\<rparr>, rowEndpoint demo_endpoint, NewSecret [1, 2, 3])"
proof -
  have "hook_NewID (Some [0xAA]) = Inr ''aa''" by (simp add: hook_NewID_def NewID_def newHex_def) code_simp
  then show ?thesis
    using demo_url_storable
    by (simp add: hook_Create_def Let_def demo_shop_hooks_def demo_endpoint_def MaxEndpoints_def MaxDescriptionBytes_def storableEndpoint_def
        endpointChecks_def rowEndpoint_def stamp_def truncateTime_def)
qed

lemma demo_expand:
  "expandOne (\<lambda>_. Some ''{}'') {} (\<lambda>_. Some [0xBB]) (demo_shop_hooks\<lparr>hk_endpoints := [demo_endpoint], hk_outbox := [demo_queued]\<rparr>) 0
     = Inr (demo_mailed, True)"
proof -
  have i: "hook_NewID (Some [0xBB]) = Inr ''bb''" by (simp add: hook_NewID_def NewID_def newHex_def) code_simp
  have "json_Valid ''{}''" by code_simp
  moreover have "rfc3339Nano 0 \<noteq> None" by code_simp
  ultimately obtain body where "Envelope ''payment.succeeded'' 0 ''acct'' ''{}'' = Inr body" by (auto simp: Envelope_def)
  then show ?thesis
    by (simp add: expandOne_def demo_queued_def receiving_def demo_endpoint_def demo_shop_hooks_def Receives_def rowEndpoint_def Let_def
        i insertDelivery_def deliveryUniques_def removeQueued_def demo_mailed_def demo_delivery_def newDelivery_def)
qed

lemma demo_mail_run: "hooks_started demo_shop_hooks" "hook_run demo_shop_hooks demo_mailed"
proof -
  show "hooks_started demo_shop_hooks" by (simp add: hooks_started_def demo_shop_hooks_def)
  have "hook_run demo_shop_hooks (demo_shop_hooks\<lparr>hk_endpoints := [demo_endpoint]\<rparr>)"
    by (rule hook_run_step [OF hook_step.register [OF demo_register]])
  moreover have "hook_step (demo_shop_hooks\<lparr>hk_endpoints := [demo_endpoint]\<rparr>)
      (demo_shop_hooks\<lparr>hk_endpoints := [demo_endpoint], hk_outbox := [demo_queued]\<rparr>)"
    using hook_step.tell [of "demo_shop_hooks\<lparr>hk_endpoints := [demo_endpoint]\<rparr>" demo_queued] by (simp add: demo_shop_hooks_def)
  ultimately show "hook_run demo_shop_hooks demo_mailed"
    using hook_step.expand [OF demo_expand] by (blast intro: hook_run.more)
qed

theorem hook_rows_sound_witness:
  "length (filter (pendingTest ''aa'') (hk_deliveries demo_mailed)) \<le> 1 \<and> dr_state demo_delivery = StPending"
  using hook_rows_sound [OF demo_mail_run, of "''aa''"] by (simp add: demo_delivery_def)

lemma demo_delivery_in: "demo_delivery \<in> set (hk_deliveries demo_mailed)"
  by (simp add: demo_mailed_def)

theorem due_in_order_witness:
  "dueRows demo_mailed 0 32 4 = [demo_delivery] \<and> (\<exists>t. dr_nextAt demo_delivery = Some t \<and> t \<le> 0)"
proof -
  have "sendable demo_mailed 0 demo_delivery"
    by (simp add: sendable_def demo_delivery_def demo_mailed_def demo_shop_hooks_def demo_endpoint_def stamp_def truncateTime_def)
  then have r: "dueRows demo_mailed 0 32 4 = [demo_delivery]"
    by (simp add: dueRows_def demo_mailed_def)
  with due_in_order [OF demo_mail_run demo_delivery_in, of 0 32 4] show ?thesis by simp
qed

definition refusing :: outcome where
  "refusing = \<lparr>oc_status = 500, oc_reason = [], oc_response = [], oc_took = 0\<rparr>"

definition garbled :: outcome where
  "garbled = \<lparr>oc_status = 200, oc_reason = [], oc_response = [CHR 0xFF], oc_took = 0\<rparr>"

lemma demo_readable: "readable (refusing, t, n)" "\<not> readable (garbled, t, n)"
proof -
  have "\<not> storable [CHR 0xFF]" by (simp add: storable_def bytesOf_def utf8.simps RuneError_def)
  then show "readable (refusing, t, n)" "\<not> readable (garbled, t, n)" by (simp_all add: readable_def refusing_def garbled_def)
qed

theorem delivery_settles_witness:
  "\<exists>d'. d' \<in> set (hk_deliveries (attemptsOn ''bb'' ((garbled, 0, 0) # replicate 10 (refusing, 0, 0)) demo_mailed))
     \<and> dr_id d' = ''bb'' \<and> dr_state d' = StFailed"
proof -
  let ?outs = "(garbled, 0 :: gotime, 0 :: int) # replicate 10 (refusing, 0, 0)"
  have d: "dr_id demo_delivery = ''bb''" "dr_attempts demo_delivery = 0" "dr_state demo_delivery = StPending"
    by (simp_all add: demo_delivery_def newDelivery_def)
  have f: "filter readable ?outs = replicate 10 (refusing, 0, 0)" using demo_readable by simp
  have none: "\<not> list_ex (\<lambda>(o1, _). outcome_Delivered o1) (firstReadable n ?outs)" for n
    unfolding firstReadable_def f by (auto simp: list_ex_iff outcome_Delivered_def refusing_def dest!: in_set_takeD)
  from delivery_settles [OF demo_mail_run demo_delivery_in, of ?outs 0 32 4]
  obtain d' where "d' \<in> set (hk_deliveries (attemptsOn ''bb'' ?outs demo_mailed))" "dr_id d' = ''bb''"
      "dr_state d' = StDelivered \<or> dr_state d' = StFailed" "dr_state d' \<noteq> StDelivered"
    unfolding f using none by (auto simp: d)
  then show ?thesis by blast
qed

end
