(* ===== verification/Mail_Runs.thy ===== *)
theory Mail_Runs
  imports Due_Order
begin

text \<open>
  The worker as a run of the steps of the webhook tables: each of its calls is one of them or none, and so is
  every composition of calls.
\<close>

section \<open>The worker's calls are runs\<close>

definition mails :: "'a job \<Rightarrow> bool" where
  "mails m = (\<forall>s. hook_run (sf_hooks s) (sf_hooks (snd (m s))))"

definition others_mail :: "mail_world \<Rightarrow> bool" where
  "others_mail w = (\<forall>k h ls. hook_run h (fst (mw_others w k (h, ls))))"

named_theorems mailing "jobs that only take steps of the webhook tables"

lemma mails_idle [mailing]: "mails (idle a)"
  by (simp add: mails_def idle_def hook_run.none)

lemma mails_stopping [mailing]: "mails (stopping e)"
  by (simp add: mails_def stopping_def hook_run.none)

lemma mails_asks [mailing]: "mails (asks f)"
  by (simp add: mails_def asks_def hook_run.none)

lemma mails_posts [mailing]: "mails (posts w dest headers body)"
  by (simp add: mails_def posts_def Let_def hook_run.none)

lemma mails_followed_by [mailing]:
  assumes "mails m" "\<And>a. mails (f a)"
  shows "mails (followed_by m f)"
  unfolding mails_def
proof
  fix s
  obtain r s' where m: "m s = (r, s')" by (cases "m s")
  then have one: "hook_run (sf_hooks s) (sf_hooks s')" using assms(1) by (metis mails_def snd_conv)
  show "hook_run (sf_hooks s) (sf_hooks (snd (followed_by m f s)))"
  proof (cases r)
    case (Inr a)
    then show ?thesis using m one assms(2) [of a] hook_run_trans by (fastforce simp: followed_by_def mails_def)
  qed (use m one in \<open>simp add: followed_by_def\<close>)
qed

lemma mails_onTables:
  assumes "others_mail w" "\<And>k h ls a h' ls'. f k (h, ls) = Inr (a, h', ls') \<Longrightarrow> hook_run h h'"
  shows "mails (onTables w f)"
  unfolding mails_def
proof
  fix s :: shift
  obtain h ls where o: "mw_others w (sf_calls s) (sf_hooks s, sf_leases s) = (h, ls)" by fastforce
  then have one: "hook_run (sf_hooks s) h" using assms(1) by (metis others_mail_def fst_conv)
  show "hook_run (sf_hooks s) (sf_hooks (snd (onTables w f s)))"
  proof (cases "mw_down w (sf_calls s)")
    case None
    show ?thesis
    proof (cases "f (sf_calls s) (h, ls)")
      case (Inr x)
      obtain a h' ls' where x: "x = (a, h', ls')" by (cases x)
      then have "hook_run h h'" using assms(2) Inr by blast
      then show ?thesis using o None Inr x one by (auto simp: onTables_def Let_def intro: hook_run_trans)
    qed (use o None one in \<open>simp add: onTables_def Let_def\<close>)
  qed (use o one in \<open>simp add: onTables_def Let_def\<close>)
qed

lemma mails_onHooks [mailing]:
  assumes "others_mail w" "\<And>k h a h'. f k h = Inr (a, h') \<Longrightarrow> hook_run h h'"
  shows "mails (onHooks w f)"
  unfolding onHooks_def
  by (rule mails_onTables [OF assms(1)]) (auto simp: res_simps dest: assms(2))

lemma mails_onLeases [mailing]: "others_mail w \<Longrightarrow> mails (onLeases w f)"
  unfolding onLeases_def by (rule mails_onTables) (auto intro: hook_run.none split: prod.splits)

lemma mails_caught_by [mailing]:
  assumes "mails m" "\<And>e. mails (g e)" "\<And>a. mails (f a)"
  shows "mails (caught_by m g f)"
  unfolding mails_def
proof
  fix s :: shift
  obtain r s' where m: "m s = (r, s')" by (cases "m s")
  then have one: "hook_run (sf_hooks s) (sf_hooks s')" using assms(1) by (metis mails_def snd_conv)
  have "hook_run (sf_hooks s') (sf_hooks (snd (f a s')))" "hook_run (sf_hooks s') (sf_hooks (snd (g e s')))" for a e
    using assms(2,3) by (simp_all add: mails_def)
  then show "hook_run (sf_hooks s) (sf_hooks (snd (caught_by m g f s)))"
    using m one by (cases r) (auto simp: caught_by_def intro: hook_run_trans)
qed

lemma mails_says [mailing]: "mails (hook_says w word)"
  unfolding hook_says_def by (rule mails_followed_by) (auto simp: mails_def asks_def hook_run.none)

lemma mails_Expand: "others_mail w \<Longrightarrow> mails (Expand w now limit)"
  by (induction limit) (auto simp: res_simps intro!: mailing intro: hook_run_step [OF hook_step.expand])

lemma mails_Send: "mails (Send w url allowed secrets d)"
  unfolding Send_def Let_def by (auto intro!: mailing split: sum.split answer.split)

lemma mails_proceed: "others_mail w \<Longrightarrow> mails (proceed w t)"
  by (cases t) (auto simp: proceed_def res_simps intro!: mailing mails_Send
      intro: hook_run.none hook_run_step [OF hook_step.attempt])

lemma mails_turns: "others_mail w \<Longrightarrow> mails (taking_turns w is ts)"
  by (induction "is" arbitrary: ts) (auto intro!: mailing mails_proceed)

lemma mails_Round: "others_mail w \<Longrightarrow> mails (hook_Round w)"
  unfolding hook_Round_def Let_def
  by (auto intro!: mailing mails_Expand mails_turns intro: hook_run_step [OF hook_step.sweep] hook_run.none
      split: list.split prod.splits)

lemma mails_turn: "others_mail w \<Longrightarrow> mails (hook_turn w)"
  unfolding hook_turn_def by (auto intro!: mailing mails_Round)

text \<open>The worker takes only the steps of the webhook tables. Any number of rounds of a worker, then the lease
  put down, with its sends in whatever order they run, whatever the receivers answer, and whatever other
  workers, merchants and payments write between its calls, is a run of those steps; so what holds of every
  run holds after it.\<close>

theorem worker_mails_run:
  assumes "others_mail w"
  shows "hook_run (sf_hooks s) (sf_hooks (hook_Run w rounds s))"
proof -
  have "hook_run (sf_hooks s) (sf_hooks (((\<lambda>s. snd (hook_turn w s)) ^^ rounds) s))"
    using mails_turn [OF assms] by (induction rounds) (auto simp: mails_def intro: hook_run.none hook_run_trans)
  moreover have "mails (onLeases w (\<lambda>clock ls. Release (mw_holder w) clock ls hookLease))"
    by (rule mails_onLeases [OF assms])
  ultimately show ?thesis unfolding hook_Run_def mails_def by (blast intro: hook_run_trans)
qed

definition demo_mail_world :: mail_world where
  "demo_mail_world =
     \<lparr>mw_now = int, mw_random = (\<lambda>_. 0), mw_others = (\<lambda>_ t. t), mw_down = (\<lambda>_. None), mw_clock = int,
      mw_locked = (\<lambda>_. {}), mw_fresh = (\<lambda>k _. Some [word_of_nat k]), mw_resolve = (\<lambda>_ _. Some [V4 0x08080808]),
      mw_connect = (\<lambda>_ _ _. Inr ()), mw_exchange = (\<lambda>_ _ _ _. Answered 204 []), mw_late = (\<lambda>_. False),
      mw_schedule = (\<lambda>_. []), mw_holder = ''one'', mw_parse = (\<lambda>_. None), mw_parsePrefix = (\<lambda>_. None),
      mw_request = (\<lambda>_. True), mw_jsonb = Some, mw_cipher = demo_cipher, mw_hmac = (\<lambda>k m. k), mw_quote = id\<rparr>"

definition demo_shift :: shift where
  "demo_shift = \<lparr>sf_hooks = demo_mailed, sf_leases = [], sf_word = HwNoRound, sf_finished = 0, sf_calls = 0, sf_sent = []\<rparr>"

theorem worker_mails_run_witness:
  "hook_run demo_mailed (sf_hooks (hook_Run demo_mail_world 2 demo_shift))"
proof -
  have "others_mail demo_mail_world" by (simp add: others_mail_def demo_mail_world_def hook_run.none)
  from worker_mails_run [OF this, of demo_shift 2] show ?thesis by (simp add: demo_shift_def)
qed

end
