(* ===== verification/Told.thy ===== *)
theory Told
  imports Mail_Runs Runs
begin

text \<open>
  What expanding a row of the outbox makes, and what becomes of a payment's events in all: the world of
  payments and the webhook tables side by side, and one delivery at most of each event to each endpoint.
\<close>

section \<open>One row of the outbox\<close>

lemma receiving_set:
  "e \<in> set (receiving h account t) \<longleftrightarrow>
     (\<exists>r\<in>set (hk_endpoints h). er_id r = e \<and> er_enabled r \<and> er_deletedAt r = None
        \<and> (er_account r = Some account \<or> er_scope r = ScopeDeployment)
        \<and> (case er_events r of None \<Rightarrow> True | Some events \<Rightarrow> t \<in> set events))"
  by (auto simp: receiving_def Receives_def rowEndpoint_def split: option.splits)

lemma receiving_distinct: "endpointsSound h \<Longrightarrow> distinct (receiving h account t)"
  by (auto simp: receiving_def endpointsSound_def distinct_map_filter distinct_map inj_on_def)

lemma insertEach_Inr:
  "insertEach fresh q payload now es h = Inr h' \<Longrightarrow>
     \<exists>new. h' = h\<lparr>hk_deliveries := hk_deliveries h @ new, hk_seq := hk_seq h + int (length new)\<rparr>
       \<and> map dr_endpoint new = es \<and> map dr_seq new = map (\<lambda>i. hk_seq h + int i) [0..<length new]
       \<and> (\<forall>d\<in>set new. dr_account d = ox_account q \<and> dr_payment d = Some (ox_payment q) \<and> dr_type d = ox_event q
            \<and> dr_occurredAt d = stamp (qx_createdAt q) \<and> dr_payload d = payload \<and> dr_state d = StPending
            \<and> dr_attempts d = 0 \<and> dr_nextAt d = Some (stamp now))"
proof (induction es arbitrary: h)
  case Nil
  then show ?case by (auto intro!: exI [of _ "[]"])
next
  case (Cons e es)
  then obtain i h1 where one: "insertDelivery h (newDelivery i e (ox_account q) (Some (ox_payment q)) (ox_event q) (qx_createdAt q) payload now) = Inr h1"
      and rest: "insertEach fresh q payload now es h1 = Inr h'"
    by (auto simp: res_simps split: sum.splits)
  let ?d = "(newDelivery i e (ox_account q) (Some (ox_payment q)) (ox_event q) (qx_createdAt q) payload now)\<lparr>dr_seq := hk_seq h\<rparr>"
  have h1: "h1 = h\<lparr>hk_deliveries := hk_deliveries h @ [?d], hk_seq := hk_seq h + 1\<rparr>"
    using one by (simp add: insertDelivery_Inr)
  from Cons.IH [OF rest] obtain new where new: "h' = h1\<lparr>hk_deliveries := hk_deliveries h1 @ new, hk_seq := hk_seq h1 + int (length new)\<rparr>"
      "map dr_endpoint new = es" "map dr_seq new = map (\<lambda>i. hk_seq h1 + int i) [0..<length new]"
      "\<forall>d\<in>set new. dr_account d = ox_account q \<and> dr_payment d = Some (ox_payment q) \<and> dr_type d = ox_event q
            \<and> dr_occurredAt d = stamp (qx_createdAt q) \<and> dr_payload d = payload \<and> dr_state d = StPending
            \<and> dr_attempts d = 0 \<and> dr_nextAt d = Some (stamp now)"
    by blast
  have seqs: "map dr_seq (?d # new) = map (\<lambda>i. hk_seq h + int i) [0..<length (?d # new)]"
    using new(3) by (simp add: h1 upt_rec [of 0] map_Suc_upt [symmetric] comp_def del: upt_Suc)
  show ?case
    using new seqs by (intro exI [of _ "?d # new"]) (simp add: h1 newDelivery_def)
qed

definition queueSound :: "hooks \<Rightarrow> bool" where
  "queueSound h = sorted_wrt (<) (map qx_id (hk_outbox h))"

lemma queue_frame:
  assumes "hook_step h h'"
  shows "(\<exists>new. (\<forall>q\<in>set (hk_outbox h). qx_id q < qx_id new) \<and> h' = h\<lparr>hk_outbox := hk_outbox h @ [new]\<rparr>)
     \<or> (\<exists>jsonb locked fresh now any. expandOne jsonb locked fresh h now = Inr (h', any))
     \<or> hk_outbox h' = hk_outbox h"
  using assms
proof (cases rule: hook_step.cases)
  case (test jsonb account endpoint now rid i)
  then show ?thesis by (auto dest!: hook_Test_Inr simp: insertDelivery_Inr)
next
  case (sweep before limit n)
  then show ?thesis by (auto dest!: Sweep_result)
next
  case (register c keyID account r now rid rsecret nonce e s)
  then show ?thesis by (auto dest!: hook_Create_Inr)
next
  case (update account i cg e)
  then show ?thesis by (auto dest!: hook_Update_Inr)
next
  case (expand jsonb locked fresh now any)
  then show ?thesis by blast
qed (auto dest!: Rotate_Inr hook_Delete_Inr hook_Attempted_Inr Resend_Inr)

lemma expandOne_queue:
  assumes "expandOne jsonb locked fresh h now = Inr (h', any)"
  shows "hk_outbox h' = hk_outbox h \<or> (\<exists>i. hk_outbox h' = filter (\<lambda>q. qx_id q \<noteq> i) (hk_outbox h))"
  using assms
proof (cases rule: expandOne_Inr)
  case (3 q body payload h1)
  from 3(6) have "hk_outbox h1 = hk_outbox h" by (auto dest: insertEach_endpoints)
  with 3(7) show ?thesis by (auto simp: removeQueued_def)
qed (auto simp: removeQueued_def)

lemma queueSound_step: "hook_step h h' \<Longrightarrow> queueSound h \<Longrightarrow> queueSound h'"
  using queue_frame [of h h'] expandOne_queue
  by (fastforce simp: queueSound_def sorted_wrt_append sorted_wrt_map sorted_wrt_filter)

lemma queueSound_start: "hooks_started h \<Longrightarrow> queueSound h"
  by (simp add: queueSound_def hooks_started_def)

interpretation hook_queue: hook_contract queueSound
  by unfold_locales (fact queueSound_start queueSound_step)+


section \<open>Payments and webhooks together\<close>

lemma outbox_grows:
  assumes "step w w'" "worldInv w"
  shows "\<exists>new. db_outbox (w_db w') = db_outbox (w_db w) @ new"
  using assms
proof (cases rule: step.cases)
  case (record_round seen numeric_in clock network lo hi final sent now db')
  have "payments_keyed (w_db w)" "attempts_keyed (w_db w)"
    and "\<forall>one\<in>set seen. atracks (w_db w) (hit_account (seen_hit one)) (hit_attempt (seen_hit one)) (hit_attemptAt (seen_hit one))"
    using record_round(2) assms(2) by (fastforce simp: worldInv_def dbInv_def soundDb_def)+
  then show ?thesis using record_round Record_advances unfolding advances_def by fastforce
next
  case (give_up clock network key tx now db')
  have "payments_keyed (w_db w)" "attempts_keyed (w_db w)"
    using assms(2) by (auto simp: worldInv_def dbInv_def soundDb_def)
  then show ?thesis using give_up Vanish_advances unfolding advances_def by fastforce
next
  case (open_payment pid rq now p account db')
  then have "db' = (w_db w)\<lparr>db_payments := db_payments (w_db w) @ [newPaymentRow account p]\<rparr>"
    using insertPayment_Inr(1) by (simp add: Create_Inr_iff)
  then show ?thesis using open_payment(1) by simp
next
  case (move_payment account p at op q t e clock db')
  have "db_outbox db' = db_outbox (w_db w) @ (if Produced e
      then [\<lparr>ox_account = account, ox_payment = pay_id q, ox_event = ev_name e, ox_payload = ev_payload e\<rparr>] else [])"
    by (subst Save_frame(1) [OF move_payment(6)], simp)
  then show ?thesis using move_payment(1) by auto
next
  case (issue account p at idBytes keyBytes now a db')
  then show ?thesis using Issue_Inr(1) [OF issue(4)] by simp
next
  case (supersede account a at b db')
  then show ?thesis by (auto simp: SaveAttempt_def saveAttempt_Inr_iff split: if_splits)
next
  case (open_refund account p at keyBytes rid rq now q db')
  then show ?thesis using insertRefund_Inr(1) [OF CreateRefund_Inr(1) [OF open_refund(5)]] by simp
next
  case (move_refund account q at s q' t e clock db')
  then show ?thesis using SaveRefund_frame(1) [OF move_refund(5)] by auto
next
  case (mark db' network key tx now)
  then show ?thesis by (auto simp: Disagree_def Agree_def)
next
  case (place_cursor network pos now db' "from" before)
  then show ?thesis using cursor_frames by fastforce
qed auto


text \<open>
  The rows a step of the payments adds to the outbox are given the ids that follow, and queue for the
  webhooks; every step of either side is one of the whole.
\<close>

definition filed :: "outbox_row list \<Rightarrow> hooks \<Rightarrow> queued_row list \<Rightarrow> bool" where
  "filed new h qs =
     (list_all2 (\<lambda>x q. outbox_row.truncate q = x) new qs \<and> sorted_wrt (<) (map qx_id (hk_outbox h @ qs)))"

inductive shop :: "world \<Rightarrow> hooks \<Rightarrow> bool" where
  open_shop: "started w \<Longrightarrow> hooks_started h \<Longrightarrow> shop w h"
| pay: "shop w h \<Longrightarrow> step w w' \<Longrightarrow> db_outbox (w_db w') = db_outbox (w_db w) @ new \<Longrightarrow> filed new h qs \<Longrightarrow>
     shop w' (h\<lparr>hk_outbox := hk_outbox h @ qs\<rparr>)"
| mail: "shop w h \<Longrightarrow> hook_step h h' \<Longrightarrow> set (hk_outbox h') \<subseteq> set (hk_outbox h) \<Longrightarrow> shop w h'"

lemma shop_reachable: "shop w h \<Longrightarrow> reachable w"
  by (induction rule: shop.induct) (auto intro: reachable.intros)

definition ofEvent :: "string \<Rightarrow> string \<Rightarrow> string \<Rightarrow> ('a outbox_row_scheme) \<Rightarrow> bool" where
  "ofEvent account pid t x = (ox_account x = account \<and> ox_payment x = pid \<and> ox_event x = t)"

definition mailedAs :: "string \<Rightarrow> string \<Rightarrow> string \<Rightarrow> string \<Rightarrow> delivery_row \<Rightarrow> bool" where
  "mailedAs e account pid t d = (dr_endpoint d = e \<and> dr_account d = account \<and> dr_payment d = Some pid \<and> dr_type d = t)"

definition mailedTo :: "hooks \<Rightarrow> string \<Rightarrow> string \<Rightarrow> string \<Rightarrow> string \<Rightarrow> nat" where
  "mailedTo h e account pid t = rowsAffected (mailedAs e account pid t) (hk_deliveries h)"

definition queuedOf :: "hooks \<Rightarrow> string \<Rightarrow> string \<Rightarrow> string \<Rightarrow> nat" where
  "queuedOf h account pid t = rowsAffected (ofEvent account pid t) (hk_outbox h)"

definition toldOf :: "world \<Rightarrow> string \<Rightarrow> string \<Rightarrow> string \<Rightarrow> nat" where
  "toldOf w account pid t = rowsAffected (ofEvent account pid t) (db_outbox (w_db w))"

definition shopInv :: "world \<Rightarrow> hooks \<Rightarrow> bool" where
  "shopInv w h =
     (queueSound h \<and> endpointsSound h
      \<and> (\<forall>e account pid t. mailedTo h e account pid t + queuedOf h account pid t \<le> toldOf w account pid t))"

lemma toldOf_payment: "toldOf w account pid (''payment.'' @ status_String s) = payment_told (w_db w) account pid s"
  by (simp add: toldOf_def payment_told_def ofEvent_def [abs_def])

lemma rowsAffected_append [simp]: "rowsAffected P (xs @ ys) = rowsAffected P xs + rowsAffected P ys"
  by (simp add: rowsAffected_def)

lemma rowsAffected_filter: "rowsAffected P (filter Q xs) \<le> rowsAffected P xs"
  by (induction xs) (auto simp: rowsAffected_def)

lemma rowsAffected_updateWhere:
  "(\<And>r. P r \<Longrightarrow> Q (f r) = Q r) \<Longrightarrow> rowsAffected Q (updateWhere P f rows) = rowsAffected Q rows"
  by (induction rows) (auto simp: rowsAffected_def updateWhere_def)

lemma filed_count:
  "filed new h qs \<Longrightarrow> rowsAffected (ofEvent account pid t) qs = rowsAffected (ofEvent account pid t) new"
proof -
  assume "filed new h qs"
  then have "list_all2 (\<lambda>x q. outbox_row.truncate q = x) new qs" by (simp add: filed_def)
  then show ?thesis
  proof (induction new arbitrary: qs)
    case (Cons x new)
    then show ?case by (auto simp: list_all2_Cons1 rowsAffected_def ofEvent_def outbox_row.defs)
  qed (simp add: rowsAffected_def)
qed

text \<open>Expanding a row leaves no more of its event than there was, to any endpoint.\<close>

lemma sorted_ids_distinct: "sorted_wrt (<) (map (qx_id :: queued_row \<Rightarrow> int) qs) \<Longrightarrow> distinct (map qx_id qs)"
  by (simp add: strict_sorted_iff)

lemma removed_count:
  assumes "q \<in> set qs" "distinct (map qx_id qs)"
  shows "rowsAffected P (filter (\<lambda>x. qx_id x \<noteq> qx_id q) qs) + (if P q then 1 else 0) = rowsAffected P (qs :: queued_row list)"
  using assms
proof (induction qs)
  case (Cons x qs)
  have out: "filter (\<lambda>x. qx_id x \<noteq> qx_id q) qs = qs" if "qx_id x = qx_id q"
    using Cons.prems(2) that by (auto simp: filter_id_conv image_iff)
  show ?case
  proof (cases "qx_id x = qx_id q")
    case True
    then have "x = q" using Cons.prems by (auto simp: image_iff)
    then show ?thesis using out [OF True] by (simp add: rowsAffected_def)
  next
    case False
    then show ?thesis using Cons by (auto simp: rowsAffected_def)
  qed
qed simp

lemma removed_row:
  "distinct (map qx_id qs) \<Longrightarrow> q \<in> set qs \<Longrightarrow> filter (\<lambda>x. qx_id x \<noteq> qx_id q) qs = remove1 q (qs :: queued_row list)"
proof (induction qs)
  case (Cons x qs)
  show ?case
  proof (cases "x = q")
    case True
    then have "filter (\<lambda>x. qx_id x \<noteq> qx_id q) qs = qs" using Cons.prems(1) by (auto simp: filter_id_conv image_iff)
    then show ?thesis using True by simp
  next
    case False
    then have "qx_id x \<noteq> qx_id q" using Cons.prems by auto
    then show ?thesis using False Cons by simp
  qed
qed simp

lemma distinct_count: "distinct (map f xs) \<Longrightarrow> rowsAffected (\<lambda>x. f x = y) xs \<le> 1"
  by (induction xs) (auto simp: rowsAffected_def filter_empty_conv image_iff)


lemma expandOne_counts:
  assumes "expandOne jsonb locked fresh h now = Inr (h', any)" "queueSound h" "endpointsSound h"
  shows "mailedTo h' e account pid t + queuedOf h' account pid t \<le> mailedTo h e account pid t + queuedOf h account pid t"
  using assms(1)
proof (cases rule: expandOne_Inr)
  case (2 q)
  then show ?thesis
    using rowsAffected_filter by (auto simp: removeQueued_def mailedTo_def queuedOf_def)
next
  case (3 q body payload h1)
  obtain new where new: "h1 = h\<lparr>hk_deliveries := hk_deliveries h @ new, hk_seq := hk_seq h + int (length new)\<rparr>"
      "map dr_endpoint new = receiving h (ox_account q) (ox_event q)"
      "\<forall>d\<in>set new. dr_account d = ox_account q \<and> dr_payment d = Some (ox_payment q) \<and> dr_type d = ox_event q"
    using insertEach_Inr [OF 3(6)] by blast
  have "distinct (map dr_endpoint new)" using receiving_distinct [OF assms(3)] new(2) by simp
  then have one: "rowsAffected (\<lambda>d. dr_endpoint d = e) new \<le> 1" by (rule distinct_count)
  have le: "rowsAffected (mailedAs e account pid t) new \<le> (if ofEvent account pid t q then 1 else 0)"
  proof (cases "ofEvent account pid t q")
    case True
    then have "filter (mailedAs e account pid t) new = filter (\<lambda>d. dr_endpoint d = e) new"
      using new(3) by (intro filter_cong) (auto simp: mailedAs_def ofEvent_def)
    then show ?thesis using one True by (simp add: rowsAffected_def)
  next
    case False
    then show ?thesis using new(3) by (auto simp: rowsAffected_def filter_empty_conv mailedAs_def ofEvent_def)
  qed
  have "distinct (map qx_id (hk_outbox h))" using assms(2) sorted_ids_distinct by (simp add: queueSound_def)
  then have "queuedOf h' account pid t + (if ofEvent account pid t q then 1 else 0) = queuedOf h account pid t"
    using removed_count [OF 3(2), of "ofEvent account pid t"] 3(7) new(1) by (simp add: removeQueued_def queuedOf_def)
  moreover have "mailedTo h' e account pid t = mailedTo h e account pid t + rowsAffected (mailedAs e account pid t) new"
    using 3(7) new(1) by (simp add: removeQueued_def mailedTo_def)
  ultimately show ?thesis using le by simp
qed simp

lemma mail_counts:
  assumes "hook_step h h'" "set (hk_outbox h') \<subseteq> set (hk_outbox h)" "queueSound h" "endpointsSound h"
  shows "mailedTo h' e account pid t + queuedOf h' account pid t \<le> mailedTo h e account pid t + queuedOf h account pid t"
  using assms(1)
proof (cases rule: hook_step.cases)
  case (register c keyID account r now rid rsecret nonce e s)
  then show ?thesis by (auto dest!: hook_Create_Inr simp: mailedTo_def queuedOf_def)
next
  case (update account i cg e)
  then show ?thesis by (auto dest!: hook_Update_Inr simp: mailedTo_def queuedOf_def)
next
  case (rotate c keyID account i now rsecret nonce s)
  then show ?thesis by (auto dest!: Rotate_Inr simp: mailedTo_def queuedOf_def)
next
  case (delete account i now)
  then show ?thesis
    by (auto dest!: hook_Delete_Inr simp: mailedTo_def queuedOf_def rowsAffected_updateWhere mailedAs_def)
next
  case (expand jsonb locked fresh now any)
  then show ?thesis using assms(3,4) by (rule expandOne_counts)
next
  case (attempt d o1 now random)
  then show ?thesis
    by (auto dest!: hook_Attempted_Inr simp: mailedTo_def queuedOf_def attempted_def Let_def mailedAs_def
        intro!: eq_imp_le rowsAffected_updateWhere)
next
  case (sweep before limit n)
  then show ?thesis using rowsAffected_filter by (auto simp: Sweep_def Let_def mailedTo_def queuedOf_def split: if_splits)
next
  case (test jsonb account endpoint now rid i)
  then show ?thesis
    by (auto dest!: hook_Test_Inr simp: insertDelivery_Inr mailedTo_def queuedOf_def newDelivery_def) (simp add: rowsAffected_def mailedAs_def)
next
  case (resend account endpoint i now)
  then show ?thesis
    by (auto dest!: Resend_Inr simp: mailedTo_def queuedOf_def mailedAs_def intro!: eq_imp_le rowsAffected_updateWhere)
next
  case (tell new)
  then have "new \<in> set (hk_outbox h)" using assms(2) by auto
  then show ?thesis using tell by auto
qed (auto simp: mailedTo_def queuedOf_def)

lemma shop_inv: "shop w h \<Longrightarrow> shopInv w h"
proof (induction rule: shop.induct)
  case (open_shop w h)
  then show ?case
    using endpointsSound_start [of h] queueSound_start [of h]
    by (simp add: shopInv_def started_def hooks_started_def mailedTo_def queuedOf_def toldOf_def rowsAffected_def)
next
  case (pay w h w' new qs)
  have "toldOf w' account pid t = toldOf w account pid t + rowsAffected (ofEvent account pid t) qs" for account pid t
    using filed_count [OF pay(4)] by (simp add: toldOf_def pay(3))
  then show ?case
    using pay(4,5) by (simp add: shopInv_def filed_def queueSound_def endpointsSound_def mailedTo_def queuedOf_def)
next
  case (mail w h h')
  then have "queueSound h" "endpointsSound h" by (simp_all add: shopInv_def)
  then show ?case
    using mail_counts [OF mail(2,3)] mail queueSound_step [OF mail(2)] endpointsSound_step [OF mail(2)]
    by (fastforce simp: shopInv_def intro: order_trans)
qed


section \<open>The properties\<close>

text \<open>
  Expanding takes the oldest row of the outbox nobody else holds and removes it, and nothing else of
  the outbox; it adds one pending delivery, due at once, to each live endpoint of the account or of the
  deployment that wants the event, in the order the rows were written and with the numbers that follow,
  and changes nothing else. Where every row is held it changes nothing and says so.
\<close>

definition wants :: "hooks \<Rightarrow> string \<Rightarrow> string \<Rightarrow> string \<Rightarrow> bool" where
  "wants h account t e =
     list_ex (\<lambda>r. er_id r = e \<and> er_enabled r \<and> er_deletedAt r = None
        \<and> (er_account r = Some account \<or> er_scope r = ScopeDeployment)
        \<and> (case er_events r of None \<Rightarrow> True | Some events \<Rightarrow> t \<in> set events)) (hk_endpoints h)"

theorem expand_delivers:
  assumes "hooks_started h0" "hook_run h0 h" "expandOne jsonb locked fresh h now = Inr (h', any)"
  shows "case List.find (\<lambda>q. qx_id q \<notin> locked) (hk_outbox h) of
      None \<Rightarrow> \<not> any \<and> h' = h
    | Some q \<Rightarrow> any \<and> (\<exists>new. h' = h\<lparr>hk_outbox := remove1 q (hk_outbox h), hk_deliveries := hk_deliveries h @ new,
                                      hk_seq := hk_seq h + int (length new)\<rparr>
        \<and> distinct (map dr_endpoint new)
        \<and> (\<forall>e. e \<in> set (map dr_endpoint new) \<longleftrightarrow> wants h (ox_account q) (ox_event q) e)
        \<and> map dr_seq new = map (\<lambda>i. hk_seq h + int i) [0..<length new]
        \<and> list_all (\<lambda>d. dr_account d = ox_account q \<and> dr_payment d = Some (ox_payment q) \<and> dr_type d = ox_event q
             \<and> dr_occurredAt d = stamp (qx_createdAt q) \<and> dr_state d = StPending \<and> dr_attempts d = 0
             \<and> dr_nextAt d = Some (stamp now)) new)"
proof -
  have sound: "queueSound h" "endpointsSound h"
    using assms(1,2) by (rule hook_queue.from_start, rule hook_endpoints.from_start)
  have removed: "filter (\<lambda>x. qx_id x \<noteq> qx_id q) (hk_outbox h) = remove1 q (hk_outbox h)" if "q \<in> set (hk_outbox h)" for q
    using sorted_ids_distinct [of "hk_outbox h"] sound(1) that by (intro removed_row) (auto simp: queueSound_def)
  have wants: "e \<in> set (receiving h account t) \<longleftrightarrow> wants h account t e" for account t e
    by (simp add: receiving_set wants_def list_ex_iff)
  from assms(3) show ?thesis
  proof (cases rule: expandOne_Inr)
    case 1
    then have "List.find (\<lambda>q. qx_id q \<notin> locked) (hk_outbox h) = None" by (auto simp: find_None_iff)
    with 1 show ?thesis by simp
  next
    case (2 q)
    then show ?thesis
      using removed [OF 2(2)] wants [of _ "ox_account q" "ox_event q"]
      by (auto simp: removeQueued_def intro!: exI [of _ "[]"])
  next
    case (3 q body payload h1)
    obtain new where new: "h1 = h\<lparr>hk_deliveries := hk_deliveries h @ new, hk_seq := hk_seq h + int (length new)\<rparr>"
        "map dr_endpoint new = receiving h (ox_account q) (ox_event q)"
        "map dr_seq new = map (\<lambda>i. hk_seq h + int i) [0..<length new]"
        "\<forall>d\<in>set new. dr_account d = ox_account q \<and> dr_payment d = Some (ox_payment q) \<and> dr_type d = ox_event q
            \<and> dr_occurredAt d = stamp (qx_createdAt q) \<and> dr_payload d = payload \<and> dr_state d = StPending
            \<and> dr_attempts d = 0 \<and> dr_nextAt d = Some (stamp now)"
      using insertEach_Inr [OF 3(6)] by blast
    have "h' = h\<lparr>hk_outbox := remove1 q (hk_outbox h), hk_deliveries := hk_deliveries h @ new,
        hk_seq := hk_seq h + int (length new)\<rparr>"
      using 3(7) new(1) removed [OF 3(2)] by (simp add: removeQueued_def)
    then show ?thesis
      using 3(1,3) new(2-4) receiving_distinct [OF sound(2)] wants
      by (auto simp: list_all_iff simp del: set_map intro!: exI [of _ new])
  qed
qed

text \<open>
  C25: with the payments and the webhooks of one deployment moving in any order, each endpoint has at most
  one delivery of each status of a payment, however often the outbox is expanded, and only of a status the
  payment reached.
\<close>

theorem delivered_once:
  assumes "shop w h" "Valid s"
  shows "mailedTo h e account pid (''payment.'' @ status_String s) \<le> 1
    \<and> (0 < mailedTo h e account pid (''payment.'' @ status_String s) \<longrightarrow> reached (w_db w) account pid s)"
proof -
  have "told_once (w_db w)"
    using reachable_inv [OF shop_reachable [OF assms(1)]] by (simp add: worldInv_def dbInv_def)
  then have told: "payment_told (w_db w) account pid s \<le> 1"
      "0 < payment_told (w_db w) account pid s \<Longrightarrow> reached (w_db w) account pid s"
    using assms(2) by (auto simp: told_once_def)
  moreover have "mailedTo h e account pid (''payment.'' @ status_String s)
      + queuedOf h account pid (''payment.'' @ status_String s) \<le> payment_told (w_db w) account pid s"
    using shop_inv [OF assms(1)] unfolding shopInv_def toldOf_payment [symmetric] by blast
  ultimately show ?thesis by auto
qed


theorem expand_delivers_witness:
  "\<exists>h. expandOne (\<lambda>_. Some ''{}'') {} (\<lambda>_. Some [0xBB])
         (demo_shop_hooks\<lparr>hk_endpoints := [demo_endpoint], hk_outbox := [demo_queued]\<rparr>) 0 = Inr (h, True)
     \<and> hk_outbox h = [] \<and> length (hk_deliveries h) = 1"
proof -
  let ?h = "demo_shop_hooks\<lparr>hk_endpoints := [demo_endpoint], hk_outbox := [demo_queued]\<rparr>"
  have "hook_run demo_shop_hooks (demo_shop_hooks\<lparr>hk_endpoints := [demo_endpoint]\<rparr>)"
    by (rule hook_run_step [OF hook_step.register [OF demo_register]])
  then have run: "hook_run demo_shop_hooks ?h"
    using hook_step.tell [of "demo_shop_hooks\<lparr>hk_endpoints := [demo_endpoint]\<rparr>" demo_queued]
    by (auto simp: demo_shop_hooks_def intro: hook_run.more)
  from expand_delivers [OF demo_mail_run(1) run demo_expand] obtain new where
      "demo_mailed = ?h\<lparr>hk_outbox := [], hk_deliveries := new, hk_seq := int (length new)\<rparr>"
    by (auto simp: demo_shop_hooks_def)
  then have "hk_outbox demo_mailed = hk_outbox (?h\<lparr>hk_outbox := [], hk_deliveries := new, hk_seq := int (length new)\<rparr>)"
    by (rule arg_cong)
  then have "hk_outbox demo_mailed = []" by simp
  moreover have "length (hk_deliveries demo_mailed) = 1" by (simp add: demo_mailed_def)
  ultimately show ?thesis using demo_expand by blast
qed



text \<open>Every run of the payments goes on beside an endpoint registered before, its events filed in order.\<close>

definition fileFrom :: "int \<Rightarrow> outbox_row list \<Rightarrow> queued_row list" where
  "fileFrom n new = map (\<lambda>(x, i). outbox_row.extend x \<lparr>qx_id = n + int i, qx_createdAt = 0\<rparr>) (zip new [0..<length new])"

lemma fileFrom_rows: "list_all2 (\<lambda>x q. outbox_row.truncate q = x) new (fileFrom n new)"
  by (auto simp: fileFrom_def list_all2_conv_all_nth outbox_row.defs)

lemma fileFrom_ids: "map qx_id (fileFrom n new) = map (\<lambda>i. n + int i) [0..<length new]"
  by (auto simp: fileFrom_def outbox_row.defs intro: nth_equalityI)

lemma fileFrom_nth: "i < length new \<Longrightarrow> fileFrom n new ! i = outbox_row.extend (new ! i) \<lparr>qx_id = n + int i, qx_createdAt = 0\<rparr>"
  by (simp add: fileFrom_def)

lemma length_fileFrom [simp]: "length (fileFrom n new) = length new"
  by (simp add: fileFrom_def)

lemma fileFrom_append: "fileFrom n (a @ b) = fileFrom n a @ fileFrom (n + int (length a)) b"
  by (rule nth_equalityI) (auto simp: fileFrom_nth nth_append)

lemma fileFrom_sorted: "sorted_wrt (<) (map qx_id (fileFrom n new))"
  by (simp add: fileFrom_ids sorted_wrt_map sorted_wrt_iff_nth_less)

lemma demo_shop:
  "reachable w \<Longrightarrow> shop w (demo_shop_hooks\<lparr>hk_endpoints := [demo_endpoint], hk_outbox := fileFrom 0 (db_outbox (w_db w))\<rparr>)"
proof (induction rule: reachable.induct)
  case (start w)
  then have "shop w (demo_shop_hooks\<lparr>hk_endpoints := [demo_endpoint]\<rparr>)"
    by (intro shop.mail [OF shop.open_shop hook_step.register [OF demo_register]] demo_mail_run(1))
      (auto simp: demo_shop_hooks_def)
  moreover have "demo_shop_hooks\<lparr>hk_endpoints := [demo_endpoint]\<rparr>
      = demo_shop_hooks\<lparr>hk_endpoints := [demo_endpoint], hk_outbox := fileFrom 0 (db_outbox (w_db w))\<rparr>"
    using start by (simp add: started_def fileFrom_def demo_shop_hooks_def)
  ultimately show ?case by simp
next
  case (go w w')
  obtain new where new: "db_outbox (w_db w') = db_outbox (w_db w) @ new"
    using outbox_grows [OF go(2) reachable_inv [OF go(1)]] by blast
  let ?n = "int (length (db_outbox (w_db w)))"
  have "filed new (demo_shop_hooks\<lparr>hk_endpoints := [demo_endpoint], hk_outbox := fileFrom 0 (db_outbox (w_db w))\<rparr>) (fileFrom ?n new)"
    using fileFrom_sorted [of 0 "db_outbox (w_db w) @ new"] by (simp add: filed_def fileFrom_rows fileFrom_append)
  from shop.pay [OF go(3,2) new this] show ?case by (simp add: new fileFrom_append)
qed

text \<open>A payment awaits payment, and the endpoint is sent that it does, once.\<close>

theorem delivered_once_witness:
  "\<exists>w h. shop w h \<and> mailedTo h ''aa'' ''acct'' demo_id (''payment.'' @ status_String AwaitingPayment) = 1
     \<and> reached (w_db w) ''acct'' demo_id AwaitingPayment"
proof -
  obtain w where w: "reachable w" "db_outbox (w_db w) = [demo_told_row AwaitingPayment noMoney]"
    using demo_awaiting by (auto simp: reaches_def)
  have v: "Valid AwaitingPayment" by (simp add: Valid_def)
  obtain e where e: "Announce (demo_payment AwaitingPayment noMoney) None = Some e" "ev_name e = ''payment.awaiting_payment''"
    using demo_told [OF v, of noMoney] by auto
  have "json_Valid (ev_payload e)"
    using Announce_announced [OF e(1)] v by (simp add: announced_def demo_payment_simps)
  moreover have "rfc3339Nano 0 \<noteq> None" by code_simp
  ultimately obtain body where body: "Envelope ''payment.awaiting_payment'' 0 ''acct'' (ev_payload e) = Inr body"
    by (auto simp: Envelope_def)
  have row: "demo_told_row AwaitingPayment noMoney
      = \<lparr>ox_account = ''acct'', ox_payment = demo_id, ox_event = ''payment.awaiting_payment'', ox_payload = ev_payload e\<rparr>"
    using e by (simp add: demo_told_row_def Let_def)
  let ?q = "\<lparr>ox_account = ''acct'', ox_payment = demo_id, ox_event = ''payment.awaiting_payment'', ox_payload = ev_payload e,
      qx_id = 0, qx_createdAt = 0\<rparr>"
  let ?h = "demo_shop_hooks\<lparr>hk_endpoints := [demo_endpoint], hk_outbox := [?q]\<rparr>"
  let ?h' = "demo_shop_hooks\<lparr>hk_endpoints := [demo_endpoint], hk_seq := 1, hk_deliveries :=
      [newDelivery ''bb'' ''aa'' ''acct'' (Some demo_id) ''payment.awaiting_payment'' 0 ''{}'' 0]\<rparr>"
  have s: "shop w ?h"
    using demo_shop [OF w(1)] by (simp add: w(2) row fileFrom_def outbox_row.defs)
  have i: "hook_NewID (Some [0xBB]) = Inr ''bb''" by (simp add: hook_NewID_def NewID_def newHex_def) code_simp
  have "expandOne (\<lambda>_. Some ''{}'') {} (\<lambda>_. Some [0xBB]) ?h 0 = Inr (?h', True)"
    using body
    by (simp add: expandOne_def receiving_def demo_endpoint_def demo_shop_hooks_def Receives_def rowEndpoint_def Let_def
        i insertDelivery_def deliveryUniques_def removeQueued_def newDelivery_def)
  then have m: "shop w ?h'"
    by (intro shop.mail [OF s hook_step.expand]) (auto simp: demo_shop_hooks_def)
  have "mailedTo ?h' ''aa'' ''acct'' demo_id (''payment.'' @ status_String AwaitingPayment) = 1"
    by (simp add: mailedTo_def mailedAs_def rowsAffected_def newDelivery_def)
  then show ?thesis using delivered_once [OF m v, of "''aa''" "''acct''" demo_id] m by auto
qed

end
