(* ===== verification/Answers.thy ===== *)
theory Answers
  imports Told
begin

text \<open>
  What a merchant is told and nobody else: a secret and what it signs, two secrets while one replaces the
  other, the answers to a call, and calls that reach the caller's own endpoints alone.
\<close>

section \<open>Secrets\<close>

lemma b64val_char: "n < 64 \<Longrightarrow> b64val (b64char n) = Some n"
  by (auto simp: b64val_def b64char_def Let_def)

lemma b64val_none: "b64val CHR ''='' = None" "b64val CHR 0x0A = None" "b64val CHR 0x0D = None"
  by (simp_all add: b64val_def Let_def)

lemma b64char_plain: "n < 64 \<Longrightarrow> b64char n \<noteq> CHR ''='' \<and> b64char n \<noteq> CHR 0x0A \<and> b64char n \<noteq> CHR 0x0D"
  using b64val_char [of n] b64val_none by force

lemma b64digits: "(v div 262144) * 262144 + (v div 4096 mod 64) * 4096 + (v div 64 mod 64) * 64 + v mod 64 = (v :: nat)"
proof -
  have "v div 4096 = v div 64 div 64" "v div 262144 = v div 4096 div 64" by (simp_all add: div_mult2_eq [symmetric])
  then show ?thesis
    using div_mult_mod_eq [of v 64] div_mult_mod_eq [of "v div 64" 64] div_mult_mod_eq [of "v div 4096" 64] by linarith
qed

lemma unat_byte: "unat (b :: byte) < 256"
  using unsigned_less [of b] by simp

lemma b64quanta_chars:
  "i < 64 \<Longrightarrow> j < 64 \<Longrightarrow> b64quanta [b64char i, b64char j, CHR ''='', CHR ''='']
     = Some [word_of_nat ((i * 262144 + j * 4096) div 65536)]"
  "i < 64 \<Longrightarrow> j < 64 \<Longrightarrow> k < 64 \<Longrightarrow> v = i * 262144 + j * 4096 + k * 64 \<Longrightarrow>
     b64quanta [b64char i, b64char j, b64char k, CHR ''=''] = Some [word_of_nat (v div 65536), word_of_nat (v div 256 mod 256)]"
  "i < 64 \<Longrightarrow> j < 64 \<Longrightarrow> k < 64 \<Longrightarrow> l < 64 \<Longrightarrow> v = i * 262144 + j * 4096 + k * 64 + l \<Longrightarrow>
     b64quanta (b64char i # b64char j # b64char k # b64char l # cs)
     = map_option (\<lambda>bs. word_of_nat (v div 65536) # word_of_nat (v div 256 mod 256) # word_of_nat (v mod 256) # bs) (b64quanta cs)"
  by (simp_all add: b64val_char b64char_plain Let_def b64quanta.simps)

declare b64quanta.simps [simp del]

lemma b64quanta_encode: "b64quanta (b64encode bs) = Some bs"
proof (induction bs rule: b64encode.induct)
  case (2 a)
  define v where "v = unat a * 65536"
  have "v div 262144 < 64" "v div 4096 mod 64 < 64" "v div 65536 = unat a" "v mod 4096 = 0"
    using unat_byte [of a] by (simp_all add: v_def)
  moreover have "v div 262144 * 262144 + v div 4096 mod 64 * 4096 = v" using b64digits [of v] by (simp add: v_def)
  ultimately show ?case by (simp add: Let_def v_def [symmetric] b64quanta_chars(1))
next
  case (3 a b)
  define v where "v = unat a * 65536 + unat b * 256"
  have ab: "unat a < 256" "unat b < 256" by (rule unat_byte)+
  then have "v div 262144 < 64" "v div 4096 mod 64 < 64" "v div 64 mod 64 < 64" "v div 65536 = unat a" "v div 256 mod 256 = unat b"
    by (simp_all add: v_def)
  moreover have "64 dvd v" by (simp add: v_def)
  then have "v = v div 262144 * 262144 + v div 4096 mod 64 * 4096 + v div 64 mod 64 * 64" using b64digits [of v] by simp
  ultimately show ?case by (simp add: Let_def v_def [symmetric] b64quanta_chars(2) [where v = v])
next
  case (4 a b c bs)
  define v where "v = unat a * 65536 + unat b * 256 + unat c"
  have abc: "unat a < 256" "unat b < 256" "unat c < 256" by (rule unat_byte)+
  then have "v div 262144 < 64" "v div 4096 mod 64 < 64" "v div 64 mod 64 < 64" "v mod 64 < 64" "v div 65536 = unat a"
    by (simp_all add: v_def)
  moreover have "v = (unat a * 256 + unat b) * 256 + unat c" by (simp add: v_def)
  then have "v div 256 = unat a * 256 + unat b" "v mod 256 = unat c" using abc by (simp_all only: div_mult_self3 mod_mult_self3 mod_less div_less)
  then have "v div 256 mod 256 = unat b" "v mod 256 = unat c" using abc by simp_all
  ultimately show ?case
    using 4 b64quanta_chars(3) [of "v div 262144" "v div 4096 mod 64" "v div 64 mod 64" "v mod 64" v]
    by (simp add: Let_def v_def [symmetric] b64digits)
qed (simp add: b64quanta.simps)

definition plainChar :: "char \<Rightarrow> bool" where "plainChar c = (c \<noteq> CHR 0x0A \<and> c \<noteq> CHR 0x0D)"

lemma b64encode_plain: "list_all plainChar (b64encode bs)"
proof (induction bs rule: b64encode.induct)
  case (2 a)
  then show ?case using unat_byte [of a] by (simp add: Let_def plainChar_def b64char_plain)
next
  case (3 a b)
  then show ?case using unat_byte [of a] unat_byte [of b] by (simp add: Let_def plainChar_def b64char_plain)
next
  case (4 a b c bs)
  then show ?case using unat_byte [of a] unat_byte [of b] unat_byte [of c] by (simp add: Let_def plainChar_def b64char_plain)
qed simp

lemma b64decode_encode: "b64decode (b64encode bs) = Some bs"
proof -
  have "filter (\<lambda>c. c \<noteq> CHR 0x0A \<and> c \<noteq> CHR 0x0D) (b64encode bs) = b64encode bs"
    using b64encode_plain [of bs] by (simp add: filter_id_conv list_all_iff plainChar_def)
  then show ?thesis by (simp add: b64decode_def b64quanta_encode)
qed

lemma secret_Key_NewSecret: "secret_Key (NewSecret random) = Inr random"
  by (simp add: secret_Key_def NewSecret_def secretPrefix_def b64decode_encode)


text \<open>
  The secret a merchant is shown is read back as the bytes drawn for it, whatever they are, and a body
  signed under secrets the deployment made carries, for each in turn, a version and the digest of id,
  timestamp and body under those bytes, which reads back as the digest.
\<close>

theorem secret_signs_as_shown:
  "secret_Key (NewSecret random) = Inr random
   \<and> Sign hmac (map NewSecret randoms) i timestamp body
     = Inr (intercalate '' '' (map (\<lambda>k. ''v1,'' @ b64encode (hmac k (i @ ''.'' @ timestamp @ ''.'' @ body))) randoms))
   \<and> b64decode (b64encode mac) = Some mac"
proof -
  have "signEach hmac m (map NewSecret randoms) = Inr (map (\<lambda>k. ''v1,'' @ b64encode (hmac k m)) randoms)" for m
    by (induction randoms) (simp_all add: secret_Key_NewSecret)
  then show ?thesis by (simp add: secret_Key_NewSecret b64decode_encode Sign_def)
qed

section \<open>Rotation\<close>

text \<open>What a cipher does for the store: it opens what it sealed.\<close>

definition opensSealed :: "cipher \<Rightarrow> bool" where
  "opensSealed c = (\<forall>nonce s. length nonce = ci_nonceSize c \<longrightarrow> ci_open c nonce (ci_seal c nonce s) = Some s)"

lemma Open_Seal: "opensSealed c \<Longrightarrow> length nonce = ci_nonceSize c \<Longrightarrow> Open_secret c (Seal c nonce s) = Inr s"
  by (simp add: Open_secret_def Seal_def Let_def opensSealed_def)

lemma endpoint_found:
  "endpointsSound h \<Longrightarrow> e \<in> set (hk_endpoints h) \<Longrightarrow> er_id e = i \<Longrightarrow> List.find (\<lambda>x. er_id x = i) (hk_endpoints h) = Some e"
  by (auto simp: endpointsSound_def intro: find_by_key)

text \<open>
  C30: a rotation answers the secret it drew; from then until a day has passed every delivery of the endpoint
  is signed under that secret first and the one it replaced second, and after the day under the new one
  alone. A second rotation within the day keeps only the secret it replaces itself.
\<close>

theorem rotation_signs_both:
  assumes "opensSealed c" "hooks_started h0" "hook_run h0 h" "length nonce = ci_nonceSize c"
    and "Secrets c h i now = Inr (old # rest)" "Rotate c keyID h account i now rsecret nonce = Inr (h', s)"
  shows "s = NewSecret rsecret \<and> Secrets c h' i t = Inr (if t < stamp (now + RotationGrace) then [s, old] else [s])"
proof -
  have sound: "endpointsSound h" using assms(2,3) by (rule hook_endpoints.from_start)
  obtain e where e: "e \<in> set (hk_endpoints h)" "isEndpoint account i e" and s: "s = NewSecret rsecret"
    and h': "h' = h\<lparr>hk_endpoints := updateWhere (isEndpoint account i)
          (\<lambda>e. e\<lparr>er_previousSecret := Some (er_secret e), er_previousUntil := Some (stamp (now + RotationGrace)),
                er_secret := Seal c nonce s, er_keyID := keyID\<rparr>) (hk_endpoints h)\<rparr>"
    using Rotate_Inr [OF assms(6)] by blast
  have found: "List.find (\<lambda>x. er_id x = i) (hk_endpoints h) = Some e"
    using e sound by (intro endpoint_found) (auto simp: isEndpoint_def)
  have old: "Open_secret c (er_secret e) = Inr old"
    using assms(5) found by (auto simp: Secrets_def res_simps split: option.splits if_splits sum.splits)
  have "List.find (\<lambda>x. er_id x = i) (hk_endpoints h')
      = Some (e\<lparr>er_previousSecret := Some (er_secret e), er_previousUntil := Some (stamp (now + RotationGrace)),
                er_secret := Seal c nonce s, er_keyID := keyID\<rparr>)"
    using found e(2) by (simp add: h' find_updateWhere_frame)
  then show ?thesis
    using s old Open_Seal [OF assms(1,4)] by (simp add: Secrets_def bindE_def)
qed

theorem rotation_signs_both_witness:
  "\<exists>h' s. Rotate demo_cipher ''k2'' demo_mailed ''acct'' ''aa'' 0 [4, 5, 6] [0] = Inr (h', s) \<and> s = NewSecret [4, 5, 6]
     \<and> Secrets demo_cipher h' ''aa'' (stamp RotationGrace - 1) = Inr [s, NewSecret [1, 2, 3]]"
proof -
  have c: "opensSealed demo_cipher"
    by (simp add: opensSealed_def demo_cipher_def comp_def unsigned_of_nat char_of_take_bit_eq)
  have "Secrets demo_cipher demo_mailed ''aa'' 0 = Inr [NewSecret [1, 2, 3]]"
    using Open_Seal [OF c, of "[0]"]
    by (simp add: Secrets_def demo_mailed_def demo_endpoint_def bindE_def demo_cipher_def)
  moreover obtain h' s where r: "Rotate demo_cipher ''k2'' demo_mailed ''acct'' ''aa'' 0 [4, 5, 6] [0] = Inr (h', s)"
    by (simp add: Rotate_def Let_def demo_mailed_def demo_endpoint_def isEndpoint_def ofAccount_def rowsAffected_def)
  ultimately show ?thesis
    using rotation_signs_both [OF c demo_mail_run, of "[0]" "''aa''" 0 "NewSecret [1, 2, 3]" "[]" "''k2''" "''acct''" "[4, 5, 6]" h' s
        "stamp RotationGrace - 1"]
    by (simp add: demo_cipher_def)
qed


section \<open>Whose endpoint it is\<close>

text \<open>The calls the handlers make for an account that write.\<close>

inductive merchant_call :: "string \<Rightarrow> hooks \<Rightarrow> hooks \<Rightarrow> bool" where
  "hook_Create c keyID h account r now rid rsecret nonce = Inr (h', e, s) \<Longrightarrow> merchant_call account h h'"
| "hook_Update h account i cg = Inr (h', e) \<Longrightarrow> merchant_call account h h'"
| "Rotate c keyID h account i now rsecret nonce = Inr (h', s) \<Longrightarrow> merchant_call account h h'"
| "hook_Delete h account i now = Inr h' \<Longrightarrow> merchant_call account h h'"
| "hook_Test jsonb h account i now rid = Inr (h', j) \<Longrightarrow> merchant_call account h h'"
| "Resend h account i j now = Inr h' \<Longrightarrow> merchant_call account h h'"

definition owns :: "hooks \<Rightarrow> string \<Rightarrow> string \<Rightarrow> bool" where
  "owns h account i = list_ex (isEndpoint account i) (hk_endpoints h)"

lemma owns_apart:
  "endpointsSound h \<Longrightarrow> owns h account i \<Longrightarrow> owns h other j \<Longrightarrow> account \<noteq> other \<Longrightarrow> i \<noteq> j"
  unfolding endpointsSound_def owns_def list_ex_iff isEndpoint_def ofAccount_def
  using distinct_key_unique [of er_id "hk_endpoints h"] by fastforce

text \<open>What a call writes: the caller's own endpoints, and deliveries to them.\<close>

lemma call_writes:
  assumes "merchant_call account h h'" "endpointsSound h"
  shows "(\<forall>other. other \<noteq> account \<longrightarrow> filter (ofAccount other) (hk_endpoints h') = filter (ofAccount other) (hk_endpoints h))
    \<and> (\<forall>i. \<not> owns h account i \<longrightarrow>
         filter (\<lambda>d. dr_endpoint d = i) (hk_deliveries h') = filter (\<lambda>d. dr_endpoint d = i) (hk_deliveries h))
    \<and> hk_tries h' = hk_tries h"
  using assms(1)
proof cases
  case (1 c keyID r now rid rsecret nonce e s)
  then show ?thesis by (auto dest!: hook_Create_Inr simp: ofAccount_def)
next
  case (2 i cg e)
  then show ?thesis
    by (auto dest!: hook_Update_Inr simp: ofAccount_def isEndpoint_def changed_def intro!: filter_updateWhere_out)
next
  case (3 c keyID i now rsecret nonce s)
  then show ?thesis
    by (auto dest!: Rotate_Inr simp: ofAccount_def isEndpoint_def intro!: filter_updateWhere_out)
next
  case (4 i now)
  moreover have "owns h account i" using 4 by (auto simp: hook_Delete_def Let_def owns_def list_ex_iff rowsAffected_0 split: if_splits)
  ultimately show ?thesis
    by (auto dest!: hook_Delete_Inr simp: ofAccount_def isEndpoint_def intro!: filter_updateWhere_out)
next
  case (5 jsonb i now rid j)
  then show ?thesis
    by (auto dest!: hook_Test_Inr simp: insertDelivery_Inr newDelivery_def owns_def list_ex_iff)
next
  case (6 i j now)
  then show ?thesis
    by (auto dest!: Resend_Inr simp: resendable_def owns_def intro!: filter_updateWhere_out)
qed

text \<open>
  C29: what one account calls changes nothing another sees: the list of its endpoints and each list of the
  deliveries to one, with every attempt, answer as before, whatever the call wrote.
\<close>

theorem accounts_apart:
  assumes "hooks_started h0" "hook_run h0 h" "merchant_call account h h'" "other \<noteq> account"
  shows "hook_List h' other = hook_List h other \<and> hook_Get h' other i = hook_Get h other i
    \<and> hook_Deliveries h' other i = hook_Deliveries h other i"
proof -
  have sound: "endpointsSound h" using assms(1,2) by (rule hook_endpoints.from_start)
  note w = call_writes [OF assms(3) sound]
  have f: "filter (ofAccount other) (hk_endpoints h') = filter (ofAccount other) (hk_endpoints h)" using w assms(4) by blast
  have find: "List.find (isEndpoint other i) rows = List.find (\<lambda>e. er_id e = i) (filter (ofAccount other) rows)" for rows
    by (induction rows) (auto simp: isEndpoint_def)
  have get: "hook_Get h' other i = hook_Get h other i" by (simp add: hook_Get_def find f)
  have "hook_Deliveries h' other i = hook_Deliveries h other i"
  proof (cases "hook_Get h other i")
    case (Inr e)
    then have "owns h other i"
      by (auto simp: hook_Get_def owns_def list_ex_iff find_Some_iff split: option.splits)
    then have "\<not> owns h account i" using owns_apart [OF sound] assms(4) by blast
    then have "filter (\<lambda>d. dr_endpoint d = i) (hk_deliveries h') = filter (\<lambda>d. dr_endpoint d = i) (hk_deliveries h)"
        "hk_tries h' = hk_tries h"
      using w by blast+
    then show ?thesis by (simp add: hook_Deliveries_def get)
  qed (simp add: hook_Deliveries_def get bindE_def)
  then show ?thesis using get f by (simp add: hook_List_def)
qed


theorem accounts_apart_witness:
  "\<exists>h'. hook_Delete demo_mailed ''acct'' ''aa'' 0 = Inr h' \<and> hook_List h' ''acct'' = []
     \<and> hook_List h' ''other'' = hook_List demo_mailed ''other''"
proof -
  obtain h' where h': "hook_Delete demo_mailed ''acct'' ''aa'' 0 = Inr h'"
    by (simp add: hook_Delete_def Let_def demo_mailed_def demo_endpoint_def isEndpoint_def ofAccount_def rowsAffected_def)
  then have "hook_List h' ''acct'' = []"
    by (auto dest!: hook_Delete_Inr simp: hook_List_def demo_mailed_def demo_endpoint_def isEndpoint_def ofAccount_def)
  then show ?thesis
    using h' accounts_apart [OF demo_mail_run merchant_call.intros(4) [OF h'], of "''other''" "[]"] by simp
qed

section \<open>What a call answers\<close>

lemma owned_endpoint:
  assumes "endpointsSound h" "owns h account i"
  obtains e where "e \<in> set (hk_endpoints h)" "isEndpoint account i e"
    "List.find (isEndpoint account i) (hk_endpoints h) = Some e"
    "list_ex (\<lambda>e. isEndpoint account i e \<and> er_enabled e) (hk_endpoints h) = er_enabled e"
proof -
  obtain e where e: "List.find (isEndpoint account i) (hk_endpoints h) = Some e"
    using assms(2) by (cases "List.find (isEndpoint account i) (hk_endpoints h)") (auto simp: owns_def list_ex_iff find_None_iff)
  then have m: "e \<in> set (hk_endpoints h)" "isEndpoint account i e" using find_SomeD by fastforce+
  have "x = e" if "x \<in> set (hk_endpoints h)" "isEndpoint account i x" for x
    using distinct_key_unique [of er_id "hk_endpoints h" x e] assms(1) that m by (simp add: endpointsSound_def isEndpoint_def)
  then have "list_ex (\<lambda>x. isEndpoint account i x \<and> er_enabled x) (hk_endpoints h) = er_enabled e"
    unfolding list_ex_iff using m by blast
  then show thesis by (rule that [OF m e])
qed

text \<open>
  Asking for a test of an endpoint answers by what is there: no such endpoint in the account, the
  endpoint turned off, a test of it pending already, or the test written, pending and due at once, and
  nothing else changed.
\<close>

theorem test_answers:
  assumes "hooks_started h0" "hook_run h0 h"
    and "Envelope ''endpoint.test'' now account ''{}'' = Inr body" "jsonb body = Some payload"
    and "hook_NewID rid = Inr i" "\<not> list_ex (\<lambda>d. dr_id d = i) (hk_deliveries h)"
  shows "hook_Test jsonb h account e now rid =
      (if \<not> owns h account e then Inl ErrNoHook
       else if \<not> list_ex (\<lambda>x. isEndpoint account e x \<and> er_enabled x) (hk_endpoints h) then Inl ErrDisabled
       else if list_ex (pendingTest e) (hk_deliveries h) then Inl ErrPending
       else Inr (h\<lparr>hk_deliveries := hk_deliveries h
                    @ [(newDelivery i e account None ''endpoint.test'' now payload now)\<lparr>dr_seq := hk_seq h\<rparr>],
                   hk_seq := hk_seq h + 1\<rparr>, i))"
proof (cases "owns h account e")
  case True
  have sound: "endpointsSound h" using assms(1,2) by (rule hook_endpoints.from_start)
  obtain x where "x \<in> set (hk_endpoints h)" "isEndpoint account e x"
      and x: "List.find (isEndpoint account e) (hk_endpoints h) = Some x"
      "list_ex (\<lambda>e1. isEndpoint account e e1 \<and> er_enabled e1) (hk_endpoints h) = er_enabled x"
    by (rule owned_endpoint [OF sound True])
  let ?row = "newDelivery i e account None ''endpoint.test'' now payload now"
  have ins: "insertDelivery h ?row = Inr (h\<lparr>hk_deliveries := hk_deliveries h @ [?row\<lparr>dr_seq := hk_seq h\<rparr>], hk_seq := hk_seq h + 1\<rparr>)"
    if "\<not> list_ex (pendingTest e) (hk_deliveries h)"
    using that assms(6) unfolding insertDelivery_Inr by (simp add: newDelivery_def list_ex_iff)
  have get: "hook_Get h account e = Inr (rowEndpoint x)" by (simp add: hook_Get_def x(1))
  have en: "ep_enabled (rowEndpoint x) = er_enabled x" by (simp add: rowEndpoint_def)
  show ?thesis
  proof (cases "er_enabled x \<and> \<not> list_ex (pendingTest e) (hk_deliveries h)")
    case go: True
    then show ?thesis
      unfolding hook_Test_def assms(3) assms(5) sum.case assms(4) option.case x(2) using True ins by simp
  next
    case False
    then show ?thesis
      unfolding hook_Test_def assms(3) assms(5) sum.case assms(4) option.case x(2) get en using True by auto
  qed
next
  case False
  then have none: "List.find (isEndpoint account e) (hk_endpoints h) = None"
    and no: "\<not> list_ex (\<lambda>e1. isEndpoint account e e1 \<and> er_enabled e1) (hk_endpoints h)"
    by (auto simp: owns_def list_ex_iff find_None_iff)
  show ?thesis unfolding hook_Test_def hook_Get_def none using no False assms(3-5) by simp
qed

lemma filter_one: "distinct xs \<Longrightarrow> x \<in> set xs \<Longrightarrow> filter (\<lambda>y. y = x) xs = [x]"
  by (induction xs) (auto simp: filter_empty_conv)

text \<open>
  C31: a delivery is sent again when it is over and to an endpoint of the account: it is pending and due at
  once, keeping its body and the attempts it had, and nothing else changes. One still pending says so, and
  one the account has no endpoint for is not found. A failed test whose endpoint has another test pending is the one
  delivery over that is not sent again: the unique index refuses it, and the call answers an internal error.
\<close>

theorem resend_answers:
  assumes "hooks_started h0" "hook_run h0 h"
  shows "Resend h account e j now =
      (if \<not> owns h account e then Inl ErrNoHook
       else case List.find (\<lambda>d. dr_id d = j \<and> dr_endpoint d = e) (hk_deliveries h) of
         None \<Rightarrow> Inl ErrNoHook
       | Some d \<Rightarrow>
           if dr_state d = StPending then Inl ErrPending
           else if dr_type d = ''endpoint.test'' \<and> list_ex (pendingTest e) (hk_deliveries h)
           then Inl (HookConstraint ''webhook_deliveries_one_pending_test'')
           else Inr (h\<lparr>hk_deliveries := updateWhere (\<lambda>x. dr_id x = j)
                        (\<lambda>x. x\<lparr>dr_state := StPending, dr_nextAt := Some (stamp now), dr_deliveredAt := None\<rparr>)
                        (hk_deliveries h)\<rparr>))"
proof (cases "\<exists>d\<in>set (hk_deliveries h). resendable h account e j d")
  case True
  then obtain d where d: "d \<in> set (hk_deliveries h)" "dr_id d = j" "dr_endpoint d = e" and own: "owns h account e"
    by (auto simp: resendable_def owns_def)
  let ?P = "\<lambda>d. resendable h account e j d \<and> dr_state d \<noteq> StPending"
  let ?f = "\<lambda>x. x\<lparr>dr_state := StPending, dr_nextAt := Some (stamp now), dr_deliveredAt := None\<rparr>"
  have "deliveriesSound h" using assms(1,2) by (rule hook_deliveries.from_start)
  then have dist: "distinct (map dr_id (hk_deliveries h))" by (simp add: deliveriesSound_def)
  have same: "dr_id x = j \<longleftrightarrow> x = d" if "x \<in> set (hk_deliveries h)" for x
    using distinct_key_unique [OF dist that d(1)] d(2) by auto
  have res: "resendable h account e j x \<longleftrightarrow> x = d" if "x \<in> set (hk_deliveries h)" for x
    using same [OF that] d(2,3) own by (auto simp: resendable_def owns_def)
  have found: "List.find (\<lambda>x. dr_id x = j \<and> dr_endpoint x = e) (hk_deliveries h) = Some d"
  proof -
    have "List.find (\<lambda>x. dr_id x = j \<and> dr_endpoint x = e) (hk_deliveries h) = List.find (\<lambda>x. dr_id x = dr_id d) (hk_deliveries h)"
      using same d(2,3) by (intro find_cong) auto
    then show ?thesis using find_by_key [OF dist d(1)] by simp
  qed
  have any: "list_ex (resendable h account e j) (hk_deliveries h)" using True by (simp add: list_ex_iff)
  show ?thesis
  proof (cases "dr_state d = StPending")
    case pending: True
    then have "filter ?P (hk_deliveries h) = []" using res by (auto simp: filter_empty_conv)
    then show ?thesis
      using any own found pending by (simp add: Resend_def Let_def rowsAffected_def)
  next
    case False
    have "filter ?P (hk_deliveries h) = filter (\<lambda>x. x = d) (hk_deliveries h)"
      using res False by (intro filter_cong) auto
    also have "\<dots> = [d]"
      using d(1) dist by (intro filter_one) (auto simp: distinct_map)
    finally have one: "filter ?P (hk_deliveries h) = [d]" .
    have upd: "updateWhere ?P ?f (hk_deliveries h) = updateWhere (\<lambda>x. dr_id x = j) ?f (hk_deliveries h)"
      unfolding updateWhere_def using res same False by (intro map_cong) auto
    have others: "list_ex (pendingTest e) (filter (\<lambda>x. \<not> ?P x) (hk_deliveries h)) = list_ex (pendingTest e) (hk_deliveries h)"
      using res False by (auto simp: list_ex_iff pendingTest_def)
    have ids: "\<not> list_ex (\<lambda>x. dr_id x = j) (filter (\<lambda>x. \<not> ?P x) (hk_deliveries h))"
      using res same False by (auto simp: list_ex_iff)
    have test: "pendingTest e (?f d) \<longleftrightarrow> dr_type d = ''endpoint.test''" using d(3) by (simp add: pendingTest_def)
    have broken: "firstBroken (deliveryUniques (filter (\<lambda>x. \<not> ?P x) (hk_deliveries h)) (?f d))
        = (if dr_type d = ''endpoint.test'' \<and> list_ex (pendingTest e) (hk_deliveries h)
           then Some ''webhook_deliveries_one_pending_test'' else None)"
      unfolding deliveryUniques_def using ids d(2,3) test others by simp
    show ?thesis
      unfolding Resend_def Let_def one found upd list.map concat.simps append_Nil2 broken
      using own False one by (simp add: rowsAffected_def)
  qed
next
  case False
  then have none: "filter (\<lambda>d. resendable h account e j d \<and> dr_state d \<noteq> StPending) (hk_deliveries h) = []"
      "\<not> list_ex (resendable h account e j) (hk_deliveries h)"
    by (auto simp: filter_empty_conv list_ex_iff)
  then have "Resend h account e j now = Inl ErrNoHook"
    by (simp add: Resend_def Let_def rowsAffected_def)
  moreover have "List.find (\<lambda>d. dr_id d = j \<and> dr_endpoint d = e) (hk_deliveries h) = None" if "owns h account e"
    using False that by (auto simp: find_None_iff resendable_def owns_def)
  ultimately show ?thesis by simp
qed


theorem test_answers_witness:
  "\<exists>h'. hook_Test (\<lambda>_. Some ''{}'') demo_mailed ''acct'' ''aa'' 0 (Some [0xCC]) = Inr (h', ''cc'')
     \<and> length (hk_deliveries h') = 2
     \<and> hook_Test (\<lambda>_. Some ''{}'') demo_mailed ''other'' ''aa'' 0 (Some [0xCC]) = Inl ErrNoHook"
proof -
  have i: "hook_NewID (Some [0xCC]) = Inr ''cc''" by (simp add: hook_NewID_def NewID_def newHex_def) code_simp
  have v: "json_Valid ''{}''" "rfc3339Nano 0 \<noteq> None" by code_simp+
  obtain b1 where b1: "Envelope ''endpoint.test'' 0 ''acct'' ''{}'' = Inr b1" using v by (auto simp: Envelope_def)
  obtain b2 where b2: "Envelope ''endpoint.test'' 0 ''other'' ''{}'' = Inr b2" using v by (auto simp: Envelope_def)
  have new: "\<not> list_ex (\<lambda>d. dr_id d = ''cc'') (hk_deliveries demo_mailed)" by (simp add: demo_mailed_def demo_delivery_def newDelivery_def)
  have own: "owns demo_mailed ''acct'' ''aa''" "\<not> owns demo_mailed ''other'' ''aa''"
    "list_ex (\<lambda>x. isEndpoint ''acct'' ''aa'' x \<and> er_enabled x) (hk_endpoints demo_mailed)"
    "\<not> list_ex (pendingTest ''aa'') (hk_deliveries demo_mailed)" "length (hk_deliveries demo_mailed) = 1"
    by (simp_all add: owns_def demo_mailed_def demo_endpoint_def isEndpoint_def ofAccount_def pendingTest_def demo_delivery_def newDelivery_def)
  have mine: "hook_Test (\<lambda>_. Some ''{}'') demo_mailed ''acct'' ''aa'' 0 (Some [0xCC]) =
      Inr (demo_mailed\<lparr>hk_deliveries := hk_deliveries demo_mailed
             @ [(newDelivery ''cc'' ''aa'' ''acct'' None ''endpoint.test'' 0 ''{}'' 0)\<lparr>dr_seq := hk_seq demo_mailed\<rparr>],
           hk_seq := hk_seq demo_mailed + 1\<rparr>, ''cc'')"
    using test_answers [OF demo_mail_run b1 _ i new, where jsonb = "\<lambda>_. Some ''{}''" and payload = "''{}''" and e = "''aa''"] own by simp
  have not_mine: "hook_Test (\<lambda>_. Some ''{}'') demo_mailed ''other'' ''aa'' 0 (Some [0xCC]) = Inl ErrNoHook"
    using test_answers [OF demo_mail_run b2 _ i new, where jsonb = "\<lambda>_. Some ''{}''" and payload = "''{}''" and e = "''aa''"] own by simp
  show ?thesis using mine not_mine own(5) by simp
qed

theorem resend_answers_witness:
  "Resend demo_mailed ''acct'' ''aa'' ''bb'' 5 = Inl ErrPending \<and> Resend demo_mailed ''other'' ''aa'' ''bb'' 5 = Inl ErrNoHook"
proof -
  have own: "owns demo_mailed ''acct'' ''aa''" "\<not> owns demo_mailed ''other'' ''aa''"
    "List.find (\<lambda>d. dr_id d = ''bb'' \<and> dr_endpoint d = ''aa'') (hk_deliveries demo_mailed) = Some demo_delivery"
    "dr_state demo_delivery = StPending"
    by (simp_all add: owns_def demo_mailed_def demo_endpoint_def isEndpoint_def ofAccount_def demo_delivery_def newDelivery_def)
  then show ?thesis
    using resend_answers [OF demo_mail_run, of "''acct''" "''aa''" "''bb''" 5]
      resend_answers [OF demo_mail_run, of "''other''" "''aa''" "''bb''" 5] by simp
qed

section \<open>What was found\<close>

text \<open>
  An answer that is not UTF-8 is shown as it came, and the database refuses it: the attempt is not written
  down, so the delivery stays due as it was.
\<close>

lemma unreadable_reply_unrecorded:
  "Shown quote [CHR 0xFF] responseShown = [CHR 0xFF]"
  "oc_response o1 = [CHR 0xFF] \<Longrightarrow> hook_Attempted h d o1 now random = Inl HookValueRefused"
proof -
  have "\<not> storable [CHR 0xFF]" by (simp add: storable_def bytesOf_def utf8.simps RuneError_def)
  then show "oc_response o1 = [CHR 0xFF] \<Longrightarrow> hook_Attempted h d o1 now random = Inl HookValueRefused"
    by (simp add: hook_Attempted_def Let_def)
  show "Shown quote [CHR 0xFF] responseShown = [CHR 0xFF]"
    by (simp add: Shown_def responseShown_def Quote_def invisible_Has_def bytesOf_def runes.simps RuneError_def is_invisible_def)
qed

text \<open>A delivery under way when its endpoint is deleted is pending again after, and is never sent.\<close>

lemma deleted_delivery_pending_again:
  "\<exists>h1 h2. hook_Delete demo_mailed ''acct'' ''aa'' 0 = Inr h1
     \<and> hook_Attempted h1 (rowDelivery demo_delivery) refusing 0 0 = Inr h2
     \<and> map dr_state (hk_deliveries h1) = [StFailed] \<and> map dr_state (hk_deliveries h2) = [StPending]
     \<and> dueRows h2 now limit perEndpoint = [] \<and> Sweep h2 before sweeping = (h2, 0)"
proof -
  obtain h1 where h1: "hook_Delete demo_mailed ''acct'' ''aa'' 0 = Inr h1"
    by (simp add: hook_Delete_def Let_def demo_mailed_def demo_endpoint_def isEndpoint_def ofAccount_def rowsAffected_def)
  note w1 = hook_Delete_Inr [OF h1]
  have next1: "NextAttempt 1 0 0 = Some (5 * Second)" by (simp add: NextAttempt_def schedule_def jitter_def)
  have d1: "hk_deliveries h1 = [demo_delivery\<lparr>dr_state := StFailed, dr_nextAt := None\<rparr>]"
    using w1 by (simp add: demo_mailed_def demo_delivery_def newDelivery_def)
  obtain h2 where h2: "hook_Attempted h1 (rowDelivery demo_delivery) refusing 0 0 = Inr h2"
    by (simp add: hook_Attempted_def Let_def d1 rowDelivery_def demo_delivery_def newDelivery_def refusing_def attempted_def
        outcome_Delivered_def next1 rowsAffected_def deliveryUniques_def pendingTest_def)
  note w2 = hook_Attempted_Inr [OF h2]
  have s1: "map dr_state (hk_deliveries h1) = [StFailed]" by (simp add: d1)
  have s2: "map dr_state (hk_deliveries h2) = [StPending]"
    using w2 by (simp add: d1 rowDelivery_def demo_delivery_def newDelivery_def attempted_def refusing_def outcome_Delivered_def next1)
  have off: "\<forall>e\<in>set (hk_endpoints h2). \<not> er_enabled e"
    using w1 w2 by (simp add: demo_mailed_def demo_endpoint_def isEndpoint_def ofAccount_def)
  have "filter (sendable h2 now) (hk_deliveries h2) = []"
    using off by (auto simp: sendable_def filter_empty_conv list_ex_iff)
  then have due: "dueRows h2 now limit perEndpoint = []" by (simp add: dueRows_def)
  have "filter (\<lambda>d. dr_state d \<noteq> StPending \<and> dr_createdAt d < stamp before) (hk_deliveries h2) = []"
    using s2 by (auto simp: filter_empty_conv)
  then have "Sweep h2 before sweeping = (h2, 0)" by (simp add: Sweep_def)
  with h1 h2 s1 s2 due show ?thesis by (intro exI [of _ h1] exI [of _ h2] conjI)
qed

text \<open>The last try comes days after what the retention says is the longest a delivery pends.\<close>

lemma schedule_outlasts_three_days: "sum_list schedule = 75 * Hour + 35 * Minute + 5 * Second"
  by (simp add: schedule_def)

end
