(* ===== verification/Documents.thy ===== *)
theory Documents
  imports Destination Money "HOL-Library.State_Monad"
begin

text \<open>
  Package config, what a configuration document is made of: its values as the decoder leaves them, dotted
  paths into it, references to the environment, which paths are secret, and the readings of numbers and
  durations the settings take.
\<close>

section \<open>Values\<close>

text \<open>
  What \<open>yaml.Unmarshal\<close> puts under \<open>any\<close>. A number with a fraction or an exponent is a float: what the
  code asks of it is the whole number it is, if it is one. The keys of a mapping are in some order.
\<close>

datatype yaml =
    YNull
  | YBool bool
  | YInt int
  | YUint int
  | YFloat "int option"
  | YText string
  | YList "yaml list"
  | YMap "(string \<times> yaml) list"

definition kindOf :: "yaml \<Rightarrow> string" where
  "kindOf v =
     (case v of
        YNull \<Rightarrow> ''nothing'' | YBool _ \<Rightarrow> ''true or false'' | YText _ \<Rightarrow> ''text'' | YMap _ \<Rightarrow> ''a mapping''
      | YList _ \<Rightarrow> ''a list'' | YInt _ \<Rightarrow> ''int64'' | YUint _ \<Rightarrow> ''uint64'' | YFloat _ \<Rightarrow> ''float64'')"

datatype number_error = NotWhole | NotNumber | NotNumberBut string

definition toInt :: "yaml \<Rightarrow> (number_error, int) result" where
  "toInt v =
     (case v of
        YInt n \<Rightarrow> Inr n
      | YUint n \<Rightarrow> if 2 ^ 63 \<le> n then Inl NotNumber else Inr n
      | YFloat (Some n) \<Rightarrow> Inr n
      | YFloat None \<Rightarrow> Inl NotWhole
      | YText s \<Rightarrow> (case Atoi s of None \<Rightarrow> Inl NotNumber | Some n \<Rightarrow> Inr n)
      | _ \<Rightarrow> Inl (NotNumberBut (kindOf v)))"

definition toByte :: "int \<Rightarrow> byte option" where
  "toByte v = (if v < 0 \<or> 255 < v then None else Some (word_of_int v))"

text \<open>\<open>strconv.ParseBool\<close>.\<close>

definition ParseBool :: "string \<Rightarrow> bool option" where
  "ParseBool s =
     (if s \<in> set [''1'', ''t'', ''T'', ''TRUE'', ''true'', ''True''] then Some True
      else if s \<in> set [''0'', ''f'', ''F'', ''FALSE'', ''false'', ''False''] then Some False
      else None)"

text \<open>How many bytes \<open>hex.DecodeString\<close> makes of a text, where it is hexadecimal.\<close>

definition hexLetter :: "char \<Rightarrow> bool" where
  "hexLetter c = (let n = (of_char c :: nat) in 48 \<le> n \<and> n \<le> 57 \<or> 65 \<le> n \<and> n \<le> 70 \<or> 97 \<le> n \<and> n \<le> 102)"

definition hexBytes :: "string \<Rightarrow> nat option" where
  "hexBytes s = (if even (length s) \<and> list_all hexLetter s then Some (length s div 2) else None)"

section \<open>Durations\<close>

text \<open>
  \<open>time.ParseDuration\<close>: amounts each with a unit, kept within 64 bits. What stands behind the point is
  worked out exactly here; the library multiplies it in floating point, which can differ by the rounding.
\<close>

definition unitOf :: "string \<Rightarrow> int option" where
  "unitOf u = map_of
     [(''ns'', 1), (''us'', 1000), ([CHR 0xC2, CHR 0xB5, CHR ''s''], 1000), ([CHR 0xCE, CHR 0xBC, CHR ''s''], 1000),
      (''ms'', 1000000), (''s'', Second), (''m'', Minute), (''h'', Hour)] u"

definition unitChar :: "char \<Rightarrow> bool" where
  "unitChar c = (c \<noteq> CHR ''.'' \<and> \<not> isDigit c)"

definition fraction :: "string \<Rightarrow> string" where
  "fraction s = (if take 1 s = ''.'' then takeWhile isDigit (drop 1 s) else [])"

definition afterFraction :: "string \<Rightarrow> string" where
  "afterFraction s = (if take 1 s = ''.'' then dropWhile isDigit (drop 1 s) else s)"

definition durationPart :: "string \<Rightarrow> (int \<times> string) option" where
  "durationPart s =
     (let ds = takeWhile isDigit s; fs = fraction (dropWhile isDigit s); u = afterFraction (dropWhile isDigit s);
          v = int (undec ds) in
      if ds = [] \<and> fs = [] \<or> 2 ^ 63 < v then None
      else case unitOf (takeWhile unitChar u) of
        None \<Rightarrow> None
      | Some unit \<Rightarrow>
          if 2 ^ 63 div unit < v then None
          else let w = v * unit + int (undec fs) * unit div 10 ^ length fs in
               if 2 ^ 63 < w then None else Some (w, dropWhile unitChar u))"

lemma durationPart_shorter: "durationPart s = Some (w, s') \<Longrightarrow> length s' < length s"
proof -
  define u where "u = afterFraction (dropWhile isDigit s)"
  assume "durationPart s = Some (w, s')"
  then have some: "unitOf (takeWhile unitChar u) \<noteq> None" and s': "s' = dropWhile unitChar u"
    unfolding durationPart_def Let_def u_def [symmetric] by (auto split: if_splits option.splits)
  have "takeWhile unitChar u \<noteq> []" using some by (auto simp: unitOf_def)
  then have "length s' < length u"
    unfolding s' using takeWhile_dropWhile_id [of unitChar u] by (metis length_append length_greater_0_conv less_add_same_cancel2)
  moreover have "length u \<le> length s"
    unfolding u_def afterFraction_def
    using length_dropWhile_le [of isDigit s] length_dropWhile_le [of isDigit "drop 1 (dropWhile isDigit s)"] by auto
  ultimately show ?thesis by simp
qed

function durationParts :: "int \<Rightarrow> string \<Rightarrow> int option" where
  "durationParts d s =
     (if s = [] then Some d
      else case durationPart s of
        None \<Rightarrow> None
      | Some (w, rest) \<Rightarrow> if 2 ^ 63 < d + w then None else durationParts (d + w) rest)"
  by pat_completeness auto
termination by (relation "measure (\<lambda>(d, s). length s)") (auto dest: durationPart_shorter)

declare durationParts.simps [simp del]

definition ParseDuration :: "string \<Rightarrow> duration option" where
  "ParseDuration s =
     (let neg = (take 1 s = ''-''); t = (if take 1 s = ''-'' \<or> take 1 s = ''+'' then drop 1 s else s) in
      if t = ''0'' then Some 0
      else if t = [] then None
      else case durationParts 0 t of
        None \<Rightarrow> None
      | Some d \<Rightarrow> if neg then Some (- d) else if 2 ^ 63 \<le> d then None else Some d)"

section \<open>Paths\<close>

fun splitOn :: "char \<Rightarrow> string \<Rightarrow> string list" where
  "splitOn c [] = [[]]"
| "splitOn c (x # xs) =
     (if x = c then [] # splitOn c xs
      else case splitOn c xs of [] \<Rightarrow> [[x]] | y # ys \<Rightarrow> (x # y) # ys)"

definition splitIndex :: "string \<Rightarrow> string \<times> nat option" where
  "splitIndex segment =
     (let name = takeWhile (\<lambda>c. c \<noteq> CHR ''['') segment; rest = dropWhile (\<lambda>c. c \<noteq> CHR ''['') segment in
      if rest = [] \<or> last segment \<noteq> CHR '']'' then (segment, None)
      else case Atoi (butlast (tl rest)) of
        None \<Rightarrow> (segment, None)
      | Some i \<Rightarrow> if i < 0 then (segment, None) else (name, Some (nat i)))"

fun walk :: "yaml \<Rightarrow> string list \<Rightarrow> yaml option" where
  "walk cur [] = Some cur"
| "walk cur (segment # path) =
     (case cur of
        YMap m \<Rightarrow>
          let (name, place) = splitIndex segment in
          (case map_of m name of
             None \<Rightarrow> None
           | Some v \<Rightarrow>
               (case place of
                  None \<Rightarrow> walk v path
                | Some i \<Rightarrow>
                    (case v of YList xs \<Rightarrow> if i < length xs then walk (xs ! i) path else None | _ \<Rightarrow> None)))
      | _ \<Rightarrow> None)"

definition secretPaths :: "string list" where
  "secretPaths = [''credentials.key'', ''database.url'', ''networks.*.rpc.own'', ''networks.*.rpc.others'']"

definition matchPath :: "string \<Rightarrow> string \<Rightarrow> bool" where
  "matchPath pattern path =
     list_all2 (\<lambda>p q. p = ''*'' \<or> p = fst (splitIndex q)) (splitOn CHR ''.'' pattern) (splitOn CHR ''.'' path)"

definition Secret :: "string \<Rightarrow> bool" where
  "Secret path = list_ex (\<lambda>pattern. matchPath pattern path) secretPaths"

text \<open>The paths of what is not a mapping, to a depth; a secret is one whatever it holds.\<close>

definition maxDepth :: nat where "maxDepth = 32"

primrec leavesTo :: "nat \<Rightarrow> string \<Rightarrow> (string \<times> yaml) list \<Rightarrow> string list" where
  "leavesTo 0 prefix doc = map (\<lambda>(key, value). if prefix = [] then key else prefix @ ''.'' @ key) doc"
| "leavesTo (Suc depth) prefix doc =
     concat (map (\<lambda>(key, value).
       let path = (if prefix = [] then key else prefix @ ''.'' @ key) in
       case value of
         YMap nested \<Rightarrow> if nested \<noteq> [] \<and> \<not> Secret path then leavesTo depth path nested else [path]
       | _ \<Rightarrow> [path]) doc)"

definition leaves :: "(string \<times> yaml) list \<Rightarrow> string list" where
  "leaves doc = leavesTo maxDepth [] doc"

section \<open>References\<close>

datatype reference_error = PartialReference | EmptyReference | NotAVariableName

fun refAt :: "string \<Rightarrow> nat option" where
  "refAt (c # d # cs) = (if c = CHR ''$'' \<and> d = CHR ''{'' then Some 0 else map_option Suc (refAt (d # cs)))"
| "refAt _ = None"

fun refCount :: "string \<Rightarrow> nat" where
  "refCount (c # d # cs) = (if c = CHR ''$'' \<and> d = CHR ''{'' then Suc (refCount cs) else refCount (d # cs))"
| "refCount _ = 0"

definition nameChar :: "char \<Rightarrow> bool" where
  "nameChar c = (let n = (of_char c :: nat) in 97 \<le> n \<and> n \<le> 122 \<or> 65 \<le> n \<and> n \<le> 90 \<or> c = CHR ''_'')"

definition isVariableName :: "string \<Rightarrow> bool" where
  "isVariableName s = (s \<noteq> [] \<and> nameChar (hd s) \<and> list_all (\<lambda>c. nameChar c \<or> isDigit c) (tl s))"

definition reference :: "string \<Rightarrow> (reference_error, string option) result" where
  "reference s =
     (case refAt s of
        None \<Rightarrow> Inr None
      | Some i \<Rightarrow>
          if i \<noteq> 0 \<or> last s \<noteq> CHR ''}'' \<or> refCount s > 1 then Inl PartialReference
          else let name = butlast (drop 2 s) in
               if name = [] then Inl EmptyReference
               else if \<not> isVariableName name then Inl NotAVariableName
               else Inr (Some name))"

end
