(* ===== verification/Configuring.thy ===== *)
theory Configuring
  imports Documents
begin

text \<open>
  Package config, config.go and resolve.go: the configuration of an instance, and how a document and the
  environment become one or the list of everything wrong. The reader the code threads is the state of a
  state monad. A mapping read in Go's order of ranging is read in the order of the document here, and one
  already read in the order of its names.
\<close>

section \<open>A configuration\<close>

definition DefaultPort :: int where "DefaultPort = 7826"
definition DefaultHost :: string where "DefaultHost = ''127.0.0.1''"
definition DefaultNetworkKind :: string where "DefaultNetworkKind = ''evm''"
definition DefaultPoll :: duration where "DefaultPoll = 12 * Second"
definition DefaultWidth :: int where "DefaultWidth = 1000"
definition MinWidth :: int where "MinWidth = 10"
definition MaxWidth :: int where "MaxWidth = 10000"
definition DefaultFinalityRecheck :: duration where "DefaultFinalityRecheck = Minute"
definition DefaultFinalityMisses :: int where "DefaultFinalityMisses = 10"
definition MinFinalityMisses :: int where "MinFinalityMisses = 2"
definition DefaultLogLevel :: string where "DefaultLogLevel = ''info''"
definition DefaultLogFormat :: string where "DefaultLogFormat = ''text''"
definition LogLevels :: "string list" where "LogLevels = [''debug'', ''info'', ''warn'', ''error'']"
definition LogFormats :: "string list" where "LogFormats = [''json'', ''text'']"
definition minPoll :: duration where "minPoll = Second"
definition minFinalityRecheck :: duration where "minFinalityRecheck = Second"
definition keyBytes :: nat where "keyBytes = 32"
definition maxProblems :: nat where "maxProblems = 50"

datatype source = FromDefault | FromFile | FromEnv string

record endpoints =
  ends_own :: string
  ends_others :: "string list"

record config_network =
  cn_kind :: string
  cn_chainID :: int
  cn_rpc :: endpoints
  cn_poll :: duration
  cn_width :: int
  cn_recheck :: duration
  cn_misses :: int

record eip712 =
  eip_name :: string
  eip_version :: string

record config =
  cf_host :: string
  cf_port :: int
  cf_baseURL :: string
  cf_logLevel :: string
  cf_logFormat :: string
  cf_managed :: bool
  cf_dbURL :: string
  cf_key :: string
  cf_keyID :: string
  cf_networks :: "(string \<times> config_network) list"
  cf_assets :: "(string \<times> asset) list"
  cf_domains :: "(string \<times> eip712) list"

text \<open>
  A problem carries the format of its message and what is put into it: a value is hidden, named by its
  variable, or shown.
\<close>

datatype shown_value = ShownSecret | ShownVariable string | ShownValue yaml

datatype message_arg =
    ArgText string
  | ArgQuoted string
  | ArgInt int
  | ArgDuration duration
  | ArgShown shown_value
  | ArgNumber number_error
  | ArgReference reference_error
  | ArgMoney money_error

record config_problem =
  cp_path :: string
  cp_format :: string
  cp_args :: "message_arg list"

section \<open>The reader\<close>

text \<open>What is read from, and what \<open>url.Parse\<close> and \<open>netip.ParseAddr\<close> make of a text.\<close>

record given =
  gv_doc :: "(string \<times> yaml) list"
  gv_env :: "string \<Rightarrow> string option"
  gv_parseURL :: "string \<Rightarrow> url option"
  gv_parseAddr :: "string \<Rightarrow> addr option"

record config_reader =
  cr_sources :: "string \<Rightarrow> source option"
  cr_seen :: "string list"
  cr_problems :: "config_problem list"
  cr_truncated :: bool

type_synonym 'a cfg_reading = "(config_reader, 'a) state"

definition asking :: "(config_reader \<Rightarrow> 'a) \<Rightarrow> 'a cfg_reading" where
  "asking f = State (\<lambda>r. (f r, r))"

definition altering :: "(config_reader \<Rightarrow> config_reader) \<Rightarrow> unit cfg_reading" where
  "altering f = State (\<lambda>r. ((), f r))"

definition noting :: "string \<Rightarrow> string \<Rightarrow> message_arg list \<Rightarrow> config_reader \<Rightarrow> config_reader" where
  "noting path format args r =
     (if length (cr_problems r) < maxProblems
      then r\<lparr>cr_problems := cr_problems r @ [\<lparr>cp_path = path, cp_format = format, cp_args = args\<rparr>]\<rparr>
      else if \<not> cr_truncated r
      then r\<lparr>cr_truncated := True, cr_problems := cr_problems r
           @ [\<lparr>cp_path = [], cp_format = ''more problems follow; only the first %d are listed'',
               cp_args = [ArgInt (int maxProblems)]\<rparr>]\<rparr>
      else r)"

definition cfg_fail :: "string \<Rightarrow> string \<Rightarrow> message_arg list \<Rightarrow> unit cfg_reading" where
  "cfg_fail path format args = altering (noting path format args)"

definition seeing :: "string \<Rightarrow> unit cfg_reading" where
  "seeing path = altering (\<lambda>r. r\<lparr>cr_seen := path # cr_seen r\<rparr>)"

definition sourcing :: "string \<Rightarrow> source \<Rightarrow> unit cfg_reading" where
  "sourcing path s = altering (\<lambda>r. r\<lparr>cr_sources := (cr_sources r)(path \<mapsto> s)\<rparr>)"

definition originOf :: "config_reader \<Rightarrow> string \<Rightarrow> source" where
  "originOf r path = (case cr_sources r path of None \<Rightarrow> FromDefault | Some s \<Rightarrow> s)"

definition shown :: "config_reader \<Rightarrow> string \<Rightarrow> yaml \<Rightarrow> shown_value" where
  "shown r path v =
     (if Secret path then ShownSecret
      else case originOf r path of FromEnv var \<Rightarrow> ShownVariable var | _ \<Rightarrow> ShownValue v)"

text \<open>A message that ends in the value it is about.\<close>

definition complaining :: "string \<Rightarrow> string \<Rightarrow> message_arg list \<Rightarrow> yaml \<Rightarrow> unit cfg_reading" where
  "complaining path format args v = do {
     s \<leftarrow> asking (\<lambda>r. shown r path v);
     cfg_fail path format (args @ [ArgShown s]) }"

definition failedAt :: "config_reader \<Rightarrow> string \<Rightarrow> bool" where
  "failedAt r path = list_ex (\<lambda>p. cp_path p = path) (cr_problems r)"

definition failedUnder :: "config_reader \<Rightarrow> string \<Rightarrow> bool" where
  "failedUnder r path =
     list_ex (\<lambda>p. cp_path p = path \<or> take (length path + 1) (cp_path p) = path @ ''.'') (cr_problems r)"

definition at_path :: "given \<Rightarrow> string \<Rightarrow> yaml option" where
  "at_path g path = walk (YMap (gv_doc g)) (splitOn CHR ''.'' path)"

definition raw :: "given \<Rightarrow> string \<Rightarrow> yaml option cfg_reading" where
  "raw g path = do {
     seeing path;
     (case at_path g path of
        None \<Rightarrow> do { sourcing path FromDefault; State_Monad.return None }
      | Some (YText s) \<Rightarrow>
          (case reference s of
             Inl e \<Rightarrow> do { complaining path ''%s: %v'' [ArgReference e] (YText s); State_Monad.return None }
           | Inr None \<Rightarrow> do { sourcing path FromFile; State_Monad.return (Some (YText s)) }
           | Inr (Some name) \<Rightarrow>
               (case gv_env g name of
                  None \<Rightarrow> do { cfg_fail path ''%s is not set'' [ArgText name]; State_Monad.return None }
                | Some value \<Rightarrow>
                    if value = [] then do { cfg_fail path ''%s is empty'' [ArgText name]; State_Monad.return None }
                    else do { sourcing path (FromEnv name); State_Monad.return (Some (YText value)) }))
      | Some v \<Rightarrow> do { sourcing path FromFile; State_Monad.return (Some v) }) }"

definition refuseCredentials :: "given \<Rightarrow> string \<Rightarrow> string \<Rightarrow> unit cfg_reading" where
  "refuseCredentials g path value =
     (if Secret path then State_Monad.return ()
      else do {
        (case gv_parseURL g value of
           Some u \<Rightarrow> if ur_user u then cfg_fail path ''carries a username or password, which only a secret setting may hold'' [] else State_Monad.return ()
         | None \<Rightarrow> State_Monad.return ());
        (if hexBytes value = Some keyBytes then cfg_fail path ''is the shape of a key, which only a secret setting may hold'' [] else State_Monad.return ()) })"

definition cfg_text :: "given \<Rightarrow> string \<Rightarrow> string \<Rightarrow> string cfg_reading" where
  "cfg_text g path def = do {
     v \<leftarrow> raw g path;
     (case v of
        None \<Rightarrow> State_Monad.return def
      | Some (YText s) \<Rightarrow> do { refuseCredentials g path s; State_Monad.return s }
      | Some x \<Rightarrow> do { complaining path ''want text, got %s: %v'' [ArgText (kindOf x)] x; State_Monad.return def }) }"

definition cfg_integer :: "given \<Rightarrow> string \<Rightarrow> int \<Rightarrow> int cfg_reading" where
  "cfg_integer g path def = do {
     v \<leftarrow> raw g path;
     (case v of
        None \<Rightarrow> State_Monad.return def
      | Some x \<Rightarrow>
          (case toInt x of
             Inl e \<Rightarrow> do { complaining path ''%s: %v'' [ArgNumber e] x; State_Monad.return def }
           | Inr n \<Rightarrow> State_Monad.return n)) }"

definition cfg_duration :: "given \<Rightarrow> string \<Rightarrow> duration \<Rightarrow> duration cfg_reading" where
  "cfg_duration g path def = do {
     v \<leftarrow> raw g path;
     (case v of
        None \<Rightarrow> State_Monad.return def
      | Some (YText s) \<Rightarrow>
          (case ParseDuration s of
             None \<Rightarrow> do { complaining path ''want a duration such as 3s: %v'' [] (YText s); State_Monad.return def }
           | Some d \<Rightarrow> State_Monad.return d)
      | Some x \<Rightarrow> do { complaining path ''want a duration such as 3s, got %s: %v'' [ArgText (kindOf x)] x; State_Monad.return def }) }"

definition cfg_boolean :: "given \<Rightarrow> string \<Rightarrow> bool \<Rightarrow> bool cfg_reading" where
  "cfg_boolean g path def = do {
     v \<leftarrow> raw g path;
     (case v of
        None \<Rightarrow> State_Monad.return def
      | Some (YBool b) \<Rightarrow> State_Monad.return b
      | Some (YText s) \<Rightarrow>
          (case ParseBool s of
             None \<Rightarrow> do { complaining path ''want true or false: %v'' [] (YText s); State_Monad.return def }
           | Some b \<Rightarrow> State_Monad.return b)
      | Some x \<Rightarrow> do { complaining path ''want true or false, got %s: %v'' [ArgText (kindOf x)] x; State_Monad.return def }) }"

end
