(* ===== verification/Resolving.thy ===== *)
theory Resolving
  imports Configuring
begin

text \<open>
  Package config, resolve.go: the sections of a document, what is asked of the whole, and \<open>Resolve\<close>.
\<close>

section \<open>Sections\<close>

definition networkKinds :: "(string \<times> string list) list" where
  "networkKinds = [(''evm'', [''chain_id'', ''rpc'']), (''simulated'', [])]"

definition NetworkKinds :: "string list" where
  "NetworkKinds = sort (map fst networkKinds)"

definition takes :: "string \<Rightarrow> string \<Rightarrow> bool" where
  "takes kind key = (case map_of networkKinds kind of None \<Rightarrow> False | Some keys \<Rightarrow> key \<in> set keys)"

definition beneath :: "string \<Rightarrow> string \<Rightarrow> bool" where
  "beneath path leaf = (take (length path + 1) leaf = path @ ''.'')"

definition seenUnder :: "given \<Rightarrow> string \<Rightarrow> unit cfg_reading" where
  "seenUnder g path = altering (\<lambda>r. r\<lparr>cr_seen := filter (beneath path) (leaves (gv_doc g)) @ cr_seen r\<rparr>)"

definition under :: "given \<Rightarrow> string \<Rightarrow> string \<Rightarrow> unit cfg_reading" where
  "under g sect name = seenUnder g (sect @ ''.'' @ name)"

definition entryName :: "given \<Rightarrow> string \<Rightarrow> string \<Rightarrow> string \<Rightarrow> string option cfg_reading" where
  "entryName g sect what name =
     (if CHR ''.'' \<in> set name then
        do { cfg_fail sect ''%s name %q contains a dot'' [ArgText what, ArgText name];
             under g sect name; State_Monad.return None }
      else if CHR ''['' \<in> set name \<or> CHR '']'' \<in> set name then
        do { cfg_fail sect ''%s name %q contains a bracket'' [ArgText what, ArgText name];
             under g sect name; State_Monad.return None }
      else if invisible_Has name then
        do { cfg_fail sect ''%s name %s holds a character that does not show up'' [ArgText what, ArgQuoted name];
             under g sect name; State_Monad.return None }
      else do { seeing (sect @ ''.'' @ name); State_Monad.return (Some name) })"

definition cfg_section :: "given \<Rightarrow> string \<Rightarrow> string \<Rightarrow> string list cfg_reading" where
  "cfg_section g sect what =
     (case walk (YMap (gv_doc g)) [sect] of
        None \<Rightarrow> State_Monad.return []
      | Some (YMap entries) \<Rightarrow> do {
          names \<leftarrow> State_Monad.traverse_list (entryName g sect what) (map fst entries);
          State_Monad.return (sort (List.map_filter id names)) }
      | Some v \<Rightarrow> do {
          cfg_fail sect ''want a mapping of names to %ss, got %s'' [ArgText what, ArgText (kindOf v)];
          seeing sect;
          State_Monad.return [] })"

definition chainID :: "given \<Rightarrow> string \<Rightarrow> int cfg_reading" where
  "chainID g path = do {
     n \<leftarrow> cfg_integer g path 0;
     if n > 0 then State_Monad.return n
     else do {
       unread \<leftarrow> asking (\<lambda>r. originOf r path = FromDefault \<or> failedAt r path);
       (if unread then State_Monad.return () else cfg_fail path ''want 1 or more: %d'' [ArgInt n]);
       State_Monad.return 0 } }"

definition element :: "given \<Rightarrow> string \<Rightarrow> nat \<Rightarrow> string option cfg_reading" where
  "element g path i = do {
     let place = path @ ''['' @ bigString (int i) @ '']'';
     s \<leftarrow> cfg_text g place [];
     bad \<leftarrow> asking (\<lambda>r. failedAt r place);
     State_Monad.return (if bad then None else Some s) }"

definition cfg_texts :: "given \<Rightarrow> string \<Rightarrow> string list cfg_reading" where
  "cfg_texts g path = do {
     v \<leftarrow> raw g path;
     (case v of
        None \<Rightarrow> State_Monad.return []
      | Some (YList xs) \<Rightarrow> do {
          out \<leftarrow> State_Monad.traverse_list (element g path) [0..<length xs];
          State_Monad.return (List.map_filter id out) }
      | Some x \<Rightarrow> do { cfg_fail path ''want a list, got %s'' [ArgText (kindOf x)]; State_Monad.return [] }) }"

definition noEndpoints :: endpoints where "noEndpoints = \<lparr>ends_own = [], ends_others = []\<rparr>"

definition isMapping :: "yaml \<Rightarrow> bool" where
  "isMapping v = (case v of YMap _ \<Rightarrow> True | _ \<Rightarrow> False)"

definition cfg_endpoints :: "given \<Rightarrow> string \<Rightarrow> bool \<Rightarrow> endpoints cfg_reading" where
  "cfg_endpoints g path wanted = do {
     misshapen \<leftarrow> (case at_path g path of
        None \<Rightarrow> State_Monad.return False
      | Some v \<Rightarrow> do {
          seeing path;
          sourcing path FromFile;
          (if wanted \<and> \<not> isMapping v
           then do { cfg_fail path ''want own, others, or both, not %s'' [ArgText (kindOf v)]; State_Monad.return True }
           else State_Monad.return False) });
     if misshapen then State_Monad.return noEndpoints
     else if \<not> wanted then do { seenUnder g path; State_Monad.return noEndpoints }
     else do {
       own \<leftarrow> cfg_text g (path @ ''.own'') [];
       others \<leftarrow> cfg_texts g (path @ ''.others'');
       State_Monad.return \<lparr>ends_own = own, ends_others = others\<rparr> } }"

definition cfg_network :: "given \<Rightarrow> string \<Rightarrow> (string \<times> config_network) cfg_reading" where
  "cfg_network g name = do {
     let path = ''networks.'' @ name;
     kind \<leftarrow> cfg_text g (path @ ''.kind'') DefaultNetworkKind;
     chain \<leftarrow> chainID g (path @ ''.chain_id'');
     rpc \<leftarrow> cfg_endpoints g (path @ ''.rpc'') (takes kind ''rpc'');
     poll \<leftarrow> cfg_duration g (path @ ''.poll'') DefaultPoll;
     width \<leftarrow> cfg_integer g (path @ ''.width'') DefaultWidth;
     recheck \<leftarrow> cfg_duration g (path @ ''.finality.recheck'') DefaultFinalityRecheck;
     misses \<leftarrow> cfg_integer g (path @ ''.finality.misses'') DefaultFinalityMisses;
     State_Monad.return (name, \<lparr>cn_kind = kind, cn_chainID = chain, cn_rpc = rpc, cn_poll = poll, cn_width = width,
       cn_recheck = recheck, cn_misses = misses\<rparr>) }"

definition cfg_networks :: "given \<Rightarrow> (string \<times> config_network) list cfg_reading" where
  "cfg_networks g = do {
     names \<leftarrow> cfg_section g ''networks'' ''network'';
     State_Monad.traverse_list (cfg_network g) names }"

definition cfg_domain :: "given \<Rightarrow> string \<Rightarrow> eip712 option cfg_reading" where
  "cfg_domain g path = do {
     name \<leftarrow> cfg_text g (path @ ''.name'') [];
     version \<leftarrow> cfg_text g (path @ ''.version'') [];
     bad \<leftarrow> asking (\<lambda>r. failedAt r (path @ ''.name'') \<or> failedAt r (path @ ''.version''));
     if bad \<or> name = [] \<and> version = [] then State_Monad.return None
     else if name = [] then
       do { cfg_fail (path @ ''.name'') ''required alongside %s.version'' [ArgText path]; State_Monad.return None }
     else if version = [] then
       do { cfg_fail (path @ ''.version'') ''required alongside %s.name'' [ArgText path]; State_Monad.return None }
     else State_Monad.return (Some \<lparr>eip_name = name, eip_version = version\<rparr>) }"

text \<open>A setting is asked about only where nothing was said of it yet.\<close>

definition unless_failed :: "string \<Rightarrow> unit cfg_reading \<Rightarrow> unit cfg_reading" where
  "unless_failed path m = do {
     bad \<leftarrow> asking (\<lambda>r. failedAt r path);
     if bad then State_Monad.return () else m }"

definition cfg_fail_if :: "bool \<Rightarrow> string \<Rightarrow> string \<Rightarrow> message_arg list \<Rightarrow> unit cfg_reading" where
  "cfg_fail_if b path format args = (if b then cfg_fail path format args else State_Monad.return ())"

definition cfg_asset :: "given \<Rightarrow> string \<Rightarrow> (string \<times> config_network) list \<Rightarrow> asset option cfg_reading" where
  "cfg_asset g path networks = do {
     network \<leftarrow> cfg_text g (path @ ''.network'') [];
     ref \<leftarrow> cfg_text g (path @ ''.reference'') [];
     symbol \<leftarrow> cfg_text g (path @ ''.symbol'') [];
     decimals \<leftarrow> cfg_integer g (path @ ''.decimals'') 0;
     unless_failed (path @ ''.network'')
       (if network = [] then cfg_fail (path @ ''.network'') ''required'' []
        else if map_of networks network = None
        then complaining (path @ ''.network'') ''no network named %v'' [] (YText network)
        else State_Monad.return ());
     unless_failed (path @ ''.reference'') (cfg_fail_if (ref = []) (path @ ''.reference'') ''required'' []);
     unless_failed (path @ ''.symbol'') (cfg_fail_if (symbol = []) (path @ ''.symbol'') ''required'' []);
     let size = toByte decimals;
     unless_failed (path @ ''.decimals'') (do {
       missing \<leftarrow> asking (\<lambda>r. originOf r (path @ ''.decimals'') = FromDefault);
       (if missing then cfg_fail (path @ ''.decimals'') ''required'' []
        else cfg_fail_if (size = None) (path @ ''.decimals'') ''outside 0-%d: %d'' [ArgInt 255, ArgInt decimals]) });
     bad \<leftarrow> asking (\<lambda>r. failedAt r (path @ ''.decimals''));
     (case size of
        None \<Rightarrow> State_Monad.return None
      | Some d \<Rightarrow>
          if network = [] \<or> ref = [] \<or> bad then State_Monad.return None
          else (case NewAsset network ref symbol d of
            Inr a \<Rightarrow> State_Monad.return (Some a)
          | Inl e \<Rightarrow> do {
              cfg_fail (case e of ErrTooManyDecimals _ \<Rightarrow> path @ ''.decimals'' | _ \<Rightarrow> path) ''%v'' [ArgMoney e];
              State_Monad.return None })) }"

definition cfg_entry ::
  "given \<Rightarrow> (string \<times> config_network) list \<Rightarrow> string \<Rightarrow> ((string \<times> asset) option \<times> (string \<times> eip712) option) cfg_reading" where
  "cfg_entry g networks name = do {
     a \<leftarrow> cfg_asset g (''assets.'' @ name) networks;
     d \<leftarrow> cfg_domain g (''assets.'' @ name @ ''.eip712'');
     State_Monad.return (map_option (Pair name) a, map_option (Pair name) d) }"

definition cfg_assets ::
  "given \<Rightarrow> (string \<times> config_network) list \<Rightarrow> ((string \<times> asset) list \<times> (string \<times> eip712) list) cfg_reading" where
  "cfg_assets g networks = do {
     names \<leftarrow> cfg_section g ''assets'' ''asset'';
     entries \<leftarrow> State_Monad.traverse_list (cfg_entry g networks) names;
     State_Monad.return (List.map_filter fst entries, List.map_filter snd entries) }"

end
