(* ===== verification/Validating.thy ===== *)
theory Validating
  imports Resolving Observer Finality
begin

text \<open>
  Package config, resolve.go: what is asked of a configuration once it is read, and \<open>Resolve\<close>; and the
  command's chains.go, which makes of a configuration the networks that are observed and settled.
\<close>

section \<open>What is asked of the whole\<close>

primrec cfg_each :: "('a \<Rightarrow> unit cfg_reading) \<Rightarrow> 'a list \<Rightarrow> unit cfg_reading" where
  "cfg_each f [] = State_Monad.return ()"
| "cfg_each f (x # xs) = do { f x; cfg_each f xs }"

text \<open>\<open>hasHost\<close>, and \<open>onThisMachine\<close> with what \<open>netip.ParseAddr\<close> makes of the host.\<close>

definition hasHost :: "url \<Rightarrow> bool" where
  "hasHost u = (ur_hostname u \<noteq> [])"

definition onThisMachine :: "given \<Rightarrow> string \<Rightarrow> bool" where
  "onThisMachine g host =
     (host = ''localhost'' \<or> (case gv_parseAddr g host of None \<Rightarrow> False | Some ip \<Rightarrow> IsLoopback ip))"

definition validateRPC :: "given \<Rightarrow> string \<Rightarrow> string \<Rightarrow> unit cfg_reading" where
  "validateRPC g path endpoint =
     (case gv_parseURL g endpoint of
        None \<Rightarrow> cfg_fail path ''not a URL'' []
      | Some u \<Rightarrow>
          if ur_scheme u = ''https'' \<or> ur_scheme u = ''http'' \<and> onThisMachine g (ur_hostname u)
          then cfg_fail_if (\<not> hasHost u) path ''has no host'' []
          else cfg_fail path ''want https, or http to localhost or a loopback address'' [])"

definition validateEndpoints :: "given \<Rightarrow> string \<Rightarrow> endpoints \<Rightarrow> unit cfg_reading" where
  "validateEndpoints g path e = do {
     own \<leftarrow> asking (\<lambda>r. originOf r (path @ ''.own'') \<noteq> FromDefault);
     (if own then validateRPC g (path @ ''.own'') (ends_own e) else State_Monad.return ());
     cfg_each (\<lambda>(i, endpoint). validateRPC g (path @ ''.others['' @ bigString (int i) @ '']'') endpoint)
       (zip [0..<length (ends_others e)] (ends_others e));
     bad \<leftarrow> asking (\<lambda>r. failedUnder r path);
     cfg_fail_if (\<not> own \<and> ends_others e = [] \<and> \<not> bad) path ''give own, others, or both'' [] }"

definition validateKind :: "given \<Rightarrow> string \<Rightarrow> config_network \<Rightarrow> string \<Rightarrow> unit cfg_reading" where
  "validateKind g path n key = do {
     let p = path @ ''.'' @ key;
     unless_failed p (do {
       set \<leftarrow> asking (\<lambda>r. originOf r p \<noteq> FromDefault);
       (if \<not> takes (cn_kind n) key \<and> set then cfg_fail p ''not a setting when kind is %s'' [ArgText (cn_kind n)]
        else if \<not> takes (cn_kind n) key then State_Monad.return ()
        else if key = ''rpc'' then validateEndpoints g p (cn_rpc n)
        else cfg_fail_if (\<not> set) p ''required when kind is %s'' [ArgText (cn_kind n)]) }) }"

definition intercalated :: "string list \<Rightarrow> string" where
  "intercalated xs = intercalate '', '' xs"

definition validateNetwork :: "given \<Rightarrow> string \<times> config_network \<Rightarrow> unit cfg_reading" where
  "validateNetwork g named = do {
     let path = ''networks.'' @ fst named;
     let n = snd named;
     unless_failed (path @ ''.poll'')
       (cfg_fail_if (cn_poll n < minPoll) (path @ ''.poll'') ''below %s: %s'' [ArgDuration minPoll, ArgDuration (cn_poll n)]);
     unless_failed (path @ ''.width'')
       (cfg_fail_if (cn_width n < MinWidth \<or> MaxWidth < cn_width n) (path @ ''.width'') ''outside %d-%d: %d''
         [ArgInt MinWidth, ArgInt MaxWidth, ArgInt (cn_width n)]);
     unless_failed (path @ ''.finality.recheck'')
       (cfg_fail_if (cn_recheck n < minFinalityRecheck) (path @ ''.finality.recheck'') ''below %s: %s''
         [ArgDuration minFinalityRecheck, ArgDuration (cn_recheck n)]);
     unless_failed (path @ ''.finality.misses'')
       (cfg_fail_if (cn_misses n < MinFinalityMisses) (path @ ''.finality.misses'') ''below %d: %d''
         [ArgInt MinFinalityMisses, ArgInt (cn_misses n)]);
     unless_failed (path @ ''.kind'')
       (if map_of networkKinds (cn_kind n) = None
        then do {
          s \<leftarrow> asking (\<lambda>r. shown r (path @ ''.kind'') (YText (cn_kind n)));
          cfg_fail (path @ ''.kind'') ''unknown kind %v, want one of %s'' [ArgShown s, ArgText (intercalated NetworkKinds)] }
        else cfg_each (validateKind g path n) [''chain_id'', ''rpc'']) }"

definition sameNames :: "(string \<times> asset) list \<Rightarrow> (string \<times> string) list" where
  "sameNames assets =
     (let sorted = sort_key fst assets in
      concat (map (\<lambda>i. map (\<lambda>j. (fst (sorted ! j), fst (sorted ! i)))
                         (filter (\<lambda>j. Same (snd (sorted ! j)) (snd (sorted ! i))) [0..<i]))
                  [0..<length sorted]))"

definition validateAssets :: "(string \<times> asset) list \<Rightarrow> unit cfg_reading" where
  "validateAssets assets =
     cfg_each (\<lambda>(earlier, name). cfg_fail ''assets'' ''%q and %q name the same asset'' [ArgText earlier, ArgText name]) (sameNames assets)"

definition validateBaseURL :: "given \<Rightarrow> string \<Rightarrow> unit cfg_reading" where
  "validateBaseURL g text =
     (case gv_parseURL g text of
        None \<Rightarrow> complaining ''listen.base_url'' ''not a URL: %v'' [] (YText text)
      | Some u \<Rightarrow>
          if ur_scheme u \<noteq> ''http'' \<and> ur_scheme u \<noteq> ''https''
          then complaining ''listen.base_url'' ''needs an http or https scheme: %v'' [] (YText text)
          else if \<not> hasHost u then complaining ''listen.base_url'' ''has no host: %v'' [] (YText text)
          else State_Monad.return ())"

definition validateLog :: "config \<Rightarrow> unit cfg_reading" where
  "validateLog cfg = do {
     unless_failed ''log.level'' (cfg_fail_if (cf_logLevel cfg \<notin> set LogLevels) ''log.level''
       ''want one of %s, got %v'' [ArgText (intercalated LogLevels), ArgQuoted (cf_logLevel cfg)]);
     unless_failed ''log.format'' (cfg_fail_if (cf_logFormat cfg \<notin> set LogFormats) ''log.format''
       ''want one of %s, got %v'' [ArgText (intercalated LogFormats), ArgQuoted (cf_logFormat cfg)]) }"

definition validateDatabase :: "config \<Rightarrow> unit cfg_reading" where
  "validateDatabase cfg =
     (if cf_managed cfg \<and> cf_dbURL cfg \<noteq> [] then cfg_fail ''database'' ''managed and url are mutually exclusive'' []
      else cfg_fail_if (\<not> cf_managed cfg \<and> cf_dbURL cfg = []) ''database.url'' ''required when database.managed is false'' [])"

definition validateCredentials :: "config \<Rightarrow> unit cfg_reading" where
  "validateCredentials cfg = do {
     unless_failed ''credentials.key''
       (if cf_key cfg = [] then do {
          bad \<leftarrow> asking (\<lambda>r. failedAt r ''database'');
          cfg_fail_if (cf_dbURL cfg \<noteq> [] \<and> \<not> bad) ''credentials.key'' ''required when a database is configured'' [] }
        else (case hexBytes (cf_key cfg) of
          None \<Rightarrow> cfg_fail ''credentials.key'' ''not hexadecimal'' []
        | Some n \<Rightarrow> cfg_fail_if (n \<noteq> keyBytes) ''credentials.key'' ''want %d bytes of hexadecimal'' [ArgInt (int keyBytes)]));
     bad \<leftarrow> asking (\<lambda>r. failedAt r ''credentials.key_id'');
     cfg_fail_if (cf_key cfg \<noteq> [] \<and> cf_keyID cfg = [] \<and> \<not> bad) ''credentials.key_id'' ''required alongside credentials.key'' [] }"

definition validate :: "given \<Rightarrow> config \<Rightarrow> unit cfg_reading" where
  "validate g cfg = do {
     unless_failed ''listen.host'' (cfg_fail_if (cf_host cfg = []) ''listen.host'' ''empty'' []);
     unless_failed ''listen.port'' (cfg_fail_if (cf_port cfg < 1 \<or> 65535 < cf_port cfg) ''listen.port''
       ''outside 1-65535: %d'' [ArgInt (cf_port cfg)]);
     unless_failed ''listen.base_url'' (validateBaseURL g (cf_baseURL cfg));
     unless_failed ''database.managed'' (unless_failed ''database.url'' (do {
       validateDatabase cfg;
       validateCredentials cfg }));
     validateLog cfg;
     cfg_each (validateNetwork g) (cf_networks cfg);
     validateAssets (cf_assets cfg) }"

definition reportUnknownKeys :: "given \<Rightarrow> unit cfg_reading" where
  "reportUnknownKeys g =
     cfg_each (\<lambda>path. do { known \<leftarrow> asking (\<lambda>r. path \<in> set (cr_seen r)); cfg_fail_if (\<not> known) path ''unknown key'' [] })
       (leaves (gv_doc g))"

definition defaultBaseURL :: "int \<Rightarrow> string" where
  "defaultBaseURL port = ''http://localhost:'' @ bigString port"

definition newReader :: config_reader where
  "newReader = \<lparr>cr_sources = Map.empty, cr_seen = [], cr_problems = [], cr_truncated = False\<rparr>"

definition resolving :: "given \<Rightarrow> config cfg_reading" where
  "resolving g = do {
     host \<leftarrow> cfg_text g ''listen.host'' DefaultHost;
     port \<leftarrow> cfg_integer g ''listen.port'' DefaultPort;
     baseURL \<leftarrow> cfg_text g ''listen.base_url'' (defaultBaseURL port);
     logLevel \<leftarrow> cfg_text g ''log.level'' DefaultLogLevel;
     logFormat \<leftarrow> cfg_text g ''log.format'' DefaultLogFormat;
     managed \<leftarrow> cfg_boolean g ''database.managed'' True;
     dbURL \<leftarrow> cfg_text g ''database.url'' [];
     key \<leftarrow> cfg_text g ''credentials.key'' [];
     keyID \<leftarrow> cfg_text g ''credentials.key_id'' [];
     networks \<leftarrow> cfg_networks g;
     (assets, domains) \<leftarrow> cfg_assets g networks;
     let cfg = \<lparr>cf_host = host, cf_port = port, cf_baseURL = baseURL, cf_logLevel = logLevel, cf_logFormat = logFormat,
       cf_managed = managed, cf_dbURL = dbURL, cf_key = key, cf_keyID = keyID, cf_networks = networks,
       cf_assets = assets, cf_domains = domains\<rparr>;
     validate g cfg;
     reportUnknownKeys g;
     State_Monad.return cfg }"

definition Resolve :: "given \<Rightarrow> (config_problem list, config \<times> (string \<Rightarrow> source option)) result" where
  "Resolve g =
     (case run_state (resolving g) newReader of
        (cfg, r) \<Rightarrow>
          if cr_problems r \<noteq> [] then Inl (sort_key cp_path (cr_problems r)) else Inr (cfg, cr_sources r))"

section \<open>Networks to observe and to settle (chains.go)\<close>

text \<open>\<open>kinds.Names\<close>: the kinds this build can open. Opening one is the adapter's, an argument.\<close>

definition kindNames :: "string list" where "kindNames = [''simulated'', ''evm'']"

record settings =
  se_name :: string
  se_chainID :: string
  se_rpc :: string

datatype chains_error = NotDeclared string string | CannotOpen string string | OpenRefused string string

definition identity :: "config_network \<Rightarrow> string" where
  "identity n = (if cn_chainID n = 0 then [] else bigString (cn_chainID n))"

definition settle_endpoints :: "config_network \<Rightarrow> string list" where
  "settle_endpoints n =
     (if ends_own (cn_rpc n) \<noteq> [] then [ends_own (cn_rpc n)]
      else if ends_others (cn_rpc n) \<noteq> [] then ends_others (cn_rpc n)
      else [[]])"

definition read_endpoint :: "config_network \<Rightarrow> string" where
  "read_endpoint n =
     (if ends_own (cn_rpc n) \<noteq> [] then ends_own (cn_rpc n)
      else case ends_others (cn_rpc n) of [] \<Rightarrow> [] | x # _ \<Rightarrow> x)"

definition agreements :: "config_network \<Rightarrow> int" where
  "agreements n = (if ends_own (cn_rpc n) = [] \<and> ends_others (cn_rpc n) \<noteq> [] then Agreements else 1)"

definition settledOn :: "config \<Rightarrow> (chains_error, string list) result" where
  "settledOn cfg =
     (case find (\<lambda>(name, a). map_of (cf_networks cfg) (as_network a) = None) (cf_assets cfg) of
        Some (name, a) \<Rightarrow> Inl (NotDeclared name (as_network a))
      | None \<Rightarrow> Inr (sort (remdups (map (as_network \<circ> snd) (cf_assets cfg)))))"

type_synonym 'c opener = "string \<Rightarrow> settings \<Rightarrow> (string, 'c) result"

primrec openEach :: "'c opener \<Rightarrow> string \<Rightarrow> config_network \<Rightarrow> string list \<Rightarrow> (chains_error, 'c list) result" where
  "openEach opening name n [] = Inr []"
| "openEach opening name n (u # us) =
     (case opening (cn_kind n) \<lparr>se_name = name, se_chainID = identity n, se_rpc = u\<rparr> of
        Inl e \<Rightarrow> Inl (OpenRefused name e)
      | Inr c \<Rightarrow> bindE (openEach opening name n us) (\<lambda>cs. Inr (c # cs)))"

definition networkOf :: "config \<Rightarrow> string \<Rightarrow> config_network option" where
  "networkOf cfg name = map_of (cf_networks cfg) name"

primrec openChainsOn :: "'c opener \<Rightarrow> config \<Rightarrow> string list \<Rightarrow> (chains_error, (network \<times> 'c) list) result" where
  "openChainsOn opening cfg [] = Inr []"
| "openChainsOn opening cfg (name # names) =
     (case networkOf cfg name of
        None \<Rightarrow> Inl (CannotOpen name [])
      | Some n \<Rightarrow>
          if cn_kind n \<notin> set kindNames then Inl (CannotOpen name (cn_kind n))
          else bindE (openEach opening name n [read_endpoint n]) (\<lambda>cs.
               bindE (openChainsOn opening cfg names) (\<lambda>rest.
                 Inr ((\<lparr>nw_name = name, nw_want = identity n,
                        nw_assets = filter (\<lambda>(_, a). as_network a = name) (cf_assets cfg),
                        nw_poll = cn_poll n, nw_width = cn_width n\<rparr>, hd cs) # rest))))"

definition openChains :: "'c opener \<Rightarrow> config \<Rightarrow> (chains_error, (network \<times> 'c) list) result" where
  "openChains opening cfg = bindE (settledOn cfg) (openChainsOn opening cfg)"

primrec openSettlingOn :: "'c opener \<Rightarrow> config \<Rightarrow> string list \<Rightarrow> (chains_error, (net \<times> 'c list) list) result" where
  "openSettlingOn opening cfg [] = Inr []"
| "openSettlingOn opening cfg (name # names) =
     (case networkOf cfg name of
        None \<Rightarrow> Inl (CannotOpen name [])
      | Some n \<Rightarrow>
          if cn_kind n \<notin> set kindNames then Inl (CannotOpen name (cn_kind n))
          else bindE (openEach opening name n (settle_endpoints n)) (\<lambda>cs.
               bindE (openSettlingOn opening cfg names) (\<lambda>rest.
                 Inr ((\<lparr>net_name = name, net_agreements = agreements n, net_recheck = cn_recheck n,
                        net_misses = cn_misses n\<rparr>, cs) # rest))))"

definition openSettling :: "'c opener \<Rightarrow> config \<Rightarrow> (chains_error, (net \<times> 'c list) list) result" where
  "openSettling opening cfg = bindE (settledOn cfg) (openSettlingOn opening cfg)"

end
