(* ===== verification/Resolved.thy ===== *)
theory Resolved
  imports Validating
begin

text \<open>
  What a configuration that resolved is held to: a logic of the reader's runs that leave no problem, what each
  reading and each check then says, and the bounds the observer and the worker are given.
\<close>

section \<open>Problems stay\<close>

definition lasting :: "'a cfg_reading \<Rightarrow> bool" where
  "lasting m = (\<forall>r. cr_problems (snd (run_state m r)) = [] \<longrightarrow> cr_problems r = [])"

named_theorems lasts "readings that take back no problem"

lemma lasting_bind [lasts]:
  assumes "lasting m" "\<And>a. lasting (f a)"
  shows "lasting (State_Monad.bind m f)"
  unfolding lasting_def
proof (intro allI impI)
  fix r
  assume none: "cr_problems (snd (run_state (State_Monad.bind m f) r)) = []"
  obtain a r' where m: "run_state m r = (a, r')" by fastforce
  then have "cr_problems (snd (run_state (f a) r')) = []" using none by simp
  then have "cr_problems r' = []" using assms(2) unfolding lasting_def by blast
  then show "cr_problems r = []" using assms(1) m unfolding lasting_def by (metis snd_conv)
qed

lemma lasting_base [lasts]:
  "lasting (State_Monad.return x)" "lasting (asking h)" "lasting (seeing path)" "lasting (sourcing path s)"
  "lasting (seenUnder g path)" "lasting (under g sect name)" "lasting (cfg_fail path format args)"
  by (simp_all add: lasting_def asking_def seeing_def sourcing_def seenUnder_def under_def cfg_fail_def altering_def noting_def)

lemma lasting_if [lasts]: "(b \<Longrightarrow> lasting m) \<Longrightarrow> (\<not> b \<Longrightarrow> lasting n) \<Longrightarrow> lasting (if b then m else n)"
  by simp

lemma lasting_traverse [lasts]: "(\<And>x. lasting (f x)) \<Longrightarrow> lasting (State_Monad.traverse_list f xs)"
  by (induction xs) (simp_all add: lasts)

lemma lasting_each [lasts]: "(\<And>x. lasting (f x)) \<Longrightarrow> lasting (cfg_each f xs)"
  by (induction xs) (simp_all add: lasts)

lemma lasting_complaining [lasts]: "lasting (complaining path format args v)"
  unfolding complaining_def by (intro lasts)

lemma lasting_fail_if [lasts]: "lasting (cfg_fail_if b path format args)"
  unfolding cfg_fail_if_def by (intro lasts)

lemma lasting_unless_failed [lasts]: "lasting m \<Longrightarrow> lasting (unless_failed path m)"
  unfolding unless_failed_def by (intro lasts)

lemma lasting_raw [lasts]: "lasting (raw g path)"
  unfolding raw_def
  by (intro lasts) (auto intro!: lasts split: option.split yaml.split sum.split)

lemma lasting_refuseCredentials [lasts]: "lasting (refuseCredentials g path value)"
  unfolding refuseCredentials_def by (intro lasts) (auto intro!: lasts split: option.split)

lemma lasting_text [lasts]: "lasting (cfg_text g path def)"
  unfolding cfg_text_def by (intro lasts) (auto intro!: lasts split: option.split yaml.split)

lemma lasting_integer [lasts]: "lasting (cfg_integer g path def)"
  unfolding cfg_integer_def by (intro lasts) (auto intro!: lasts split: option.split sum.split)

lemma lasting_duration [lasts]: "lasting (cfg_duration g path def)"
  unfolding cfg_duration_def by (intro lasts) (auto intro!: lasts split: option.split yaml.split)

lemma lasting_boolean [lasts]: "lasting (cfg_boolean g path def)"
  unfolding cfg_boolean_def by (intro lasts) (auto intro!: lasts split: option.split yaml.split)

lemma lasting_entryName [lasts]: "lasting (entryName g sect what name)"
  unfolding entryName_def by (intro lasts)

lemma lasting_section [lasts]: "lasting (cfg_section g sect what)"
  unfolding cfg_section_def by (auto intro!: lasts split: option.split yaml.split)

lemma lasting_chainID [lasts]: "lasting (chainID g path)"
  unfolding chainID_def by (intro lasts)

lemma lasting_texts [lasts]: "lasting (cfg_texts g path)"
  unfolding cfg_texts_def element_def Let_def by (intro lasts) (auto intro!: lasts split: option.split yaml.split)

lemma lasting_endpoints [lasts]: "lasting (cfg_endpoints g path wanted)"
  unfolding cfg_endpoints_def by (intro lasts) (auto intro!: lasts split: option.split)

lemma lasting_network [lasts]: "lasting (cfg_network g name)"
  unfolding cfg_network_def Let_def by (intro lasts)

lemma lasting_networks [lasts]: "lasting (cfg_networks g)"
  unfolding cfg_networks_def by (intro lasts)

lemma lasting_domain [lasts]: "lasting (cfg_domain g path)"
  unfolding cfg_domain_def by (intro lasts)

lemma lasting_asset [lasts]: "lasting (cfg_asset g path networks)"
  unfolding cfg_asset_def Let_def by (intro lasts) (auto intro!: lasts split: option.split sum.split)

lemma lasting_assets [lasts]: "lasting (cfg_assets g networks)"
  unfolding cfg_assets_def cfg_entry_def by (intro lasts)

lemma lasting_validateRPC [lasts]: "lasting (validateRPC g path endpoint)"
  unfolding validateRPC_def by (auto intro!: lasts split: option.split)

lemma lasting_validateEndpoints [lasts]: "lasting (validateEndpoints g path e)"
  unfolding validateEndpoints_def by (intro lasts) (auto intro!: lasts)

lemma lasting_validateNetwork [lasts]: "lasting (validateNetwork g named)"
  unfolding validateNetwork_def validateKind_def Let_def by (intro lasts)

lemma lasting_validateAssets [lasts]: "lasting (validateAssets assets)"
  unfolding validateAssets_def by (intro lasts) (auto intro!: lasts)

lemma lasting_validateBaseURL [lasts]: "lasting (validateBaseURL g text)"
  unfolding validateBaseURL_def by (auto intro!: lasts split: option.split)

lemma lasting_validate [lasts]: "lasting (validate g cfg)"
  unfolding validate_def validateLog_def validateDatabase_def validateCredentials_def
  by (intro lasts) (auto intro!: lasts split: option.split)

lemma lasting_reportUnknownKeys [lasts]: "lasting (reportUnknownKeys g)"
  unfolding reportUnknownKeys_def by (intro lasts)


section \<open>Runs that leave no problem\<close>

text \<open>
  \<open>honest\<close>: what the reader says of where a value came from is so. A reading is \<open>cleanly\<close> done from the
  paths \<open>A\<close> to a value of which \<open>P\<close> holds and the paths \<open>B\<close>: begun knowing of \<open>A\<close> and ending without a problem,
  it forgets nothing, answers as \<open>P\<close> says and knows of \<open>B\<close>.
\<close>

definition honest :: "given \<Rightarrow> config_reader \<Rightarrow> bool" where
  "honest g r = (\<forall>path s. cr_sources r path = Some s \<longrightarrow> (s = FromDefault \<longleftrightarrow> at_path g path = None))"

definition known :: "config_reader \<Rightarrow> string set" where
  "known r = dom (cr_sources r)"

definition cleanly :: "given \<Rightarrow> string set \<Rightarrow> 'a cfg_reading \<Rightarrow> ('a \<Rightarrow> bool) \<Rightarrow> ('a \<Rightarrow> string set) \<Rightarrow> bool" where
  "cleanly g A m P B =
     (\<forall>r a r'. run_state m r = (a, r') \<and> cr_problems r' = [] \<and> cr_problems r = [] \<and> honest g r \<and> A \<subseteq> known r \<longrightarrow>
        honest g r' \<and> known r \<subseteq> known r' \<and> P a \<and> B a \<subseteq> known r')"

lemma cleanlyD:
  "cleanly g A m P B \<Longrightarrow> run_state m r = (a, r') \<Longrightarrow> cr_problems r' = [] \<Longrightarrow> cr_problems r = [] \<Longrightarrow> honest g r \<Longrightarrow> A \<subseteq> known r \<Longrightarrow>
     honest g r' \<and> known r \<subseteq> known r' \<and> P a \<and> B a \<subseteq> known r'"
  unfolding cleanly_def by blast

lemma cleanly_bind:
  assumes "cleanly g A m P B" "\<And>a. P a \<Longrightarrow> cleanly g (A \<union> B a) (f a) P' B'" "\<And>a. lasting (f a)"
  shows "cleanly g A (State_Monad.bind m f) P' B'"
  unfolding cleanly_def
proof (intro allI impI, elim conjE)
  fix r b r''
  assume "run_state (State_Monad.bind m f) r = (b, r'')" and none: "cr_problems r'' = []" "cr_problems r = []"
    and h: "honest g r" "A \<subseteq> known r"
  then obtain a r' where one: "run_state m r = (a, r')" "run_state (f a) r' = (b, r'')" by (auto split: prod.splits)
  have mid: "cr_problems r' = []" using assms(3) [of a] one(2) none(1) unfolding lasting_def by (metis snd_conv)
  note m = cleanlyD [OF assms(1) one(1) mid none(2) h]
  then have "A \<union> B a \<subseteq> known r'" using h(2) by blast
  then show "honest g r'' \<and> known r \<subseteq> known r'' \<and> P' b \<and> B' b \<subseteq> known r''"
    using cleanlyD [OF assms(2) one(2) none(1) mid] m by blast
qed

lemma cleanly_weaken:
  assumes "cleanly g A m P B" "A \<subseteq> A'" "\<And>a. P a \<Longrightarrow> P' a" "\<And>a. P a \<Longrightarrow> B' a \<subseteq> A' \<union> B a"
  shows "cleanly g A' m P' B'"
  unfolding cleanly_def
proof (intro allI impI, elim conjE)
  fix r a r'
  assume run: "run_state m r = (a, r')" and none: "cr_problems r' = []" "cr_problems r = []" and h: "honest g r" "A' \<subseteq> known r"
  have "A \<subseteq> known r" using h(2) assms(2) by blast
  note m = cleanlyD [OF assms(1) run none h(1) this]
  then show "honest g r' \<and> known r \<subseteq> known r' \<and> P' a \<and> B' a \<subseteq> known r'"
    using assms(3,4) h(2) by blast
qed

named_theorems clean "what a reading does when it leaves no problem"

lemma cleanly_return: "P x \<Longrightarrow> B x \<subseteq> A \<Longrightarrow> cleanly g A (State_Monad.return x) P B"
  by (auto simp: cleanly_def)

lemma cleanly_fail: "cleanly g A (cfg_fail path format args) P B"
  by (auto simp: cleanly_def cfg_fail_def altering_def noting_def maxProblems_def)

lemma cleanly_fail_if: "(\<not> b \<Longrightarrow> P ()) \<Longrightarrow> cleanly g A (cfg_fail_if b path format args) P (\<lambda>_. {})"
  by (auto simp: cleanly_def cfg_fail_if_def cfg_fail_def altering_def noting_def maxProblems_def)

lemma cleanly_asking: "cleanly g A (asking f) (\<lambda>_. True) (\<lambda>_. {})"
  by (auto simp: cleanly_def asking_def)

lemma cleanly_failedAt: "cleanly g A (asking (\<lambda>r. failedAt r path)) (\<lambda>b. \<not> b) (\<lambda>_. {})"
  "cleanly g A (asking (\<lambda>r. failedUnder r path)) (\<lambda>b. \<not> b) (\<lambda>_. {})"
  "cleanly g A (asking (\<lambda>r. failedAt r path \<or> failedAt r path')) (\<lambda>b. \<not> b) (\<lambda>_. {})"
  by (auto simp: cleanly_def asking_def failedAt_def failedUnder_def)

lemma honest_origin: "honest g r \<Longrightarrow> path \<in> known r \<Longrightarrow> originOf r path = FromDefault \<longleftrightarrow> at_path g path = None"
  by (auto simp: honest_def known_def originOf_def)

lemma cleanly_origin:
  "path \<in> A \<Longrightarrow> cleanly g A (asking (\<lambda>r. originOf r path \<noteq> FromDefault)) (\<lambda>b. b \<longleftrightarrow> at_path g path \<noteq> None) (\<lambda>_. {})"
  "path \<in> A \<Longrightarrow> cleanly g A (asking (\<lambda>r. originOf r path = FromDefault)) (\<lambda>b. b \<longleftrightarrow> at_path g path = None) (\<lambda>_. {})"
  "path \<in> A \<Longrightarrow> cleanly g A (asking (\<lambda>r. originOf r path = FromDefault \<or> failedAt r path')) (\<lambda>b. b \<longleftrightarrow> at_path g path = None) (\<lambda>_. {})"
  using honest_origin by (auto simp: cleanly_def asking_def failedAt_def)

lemma cleanly_seeing: "cleanly g A (seeing path) (\<lambda>_. True) (\<lambda>_. {})"
  by (auto simp: cleanly_def seeing_def altering_def honest_def known_def)

lemma cleanly_seenUnder: "cleanly g A (seenUnder g' path) (\<lambda>_. True) (\<lambda>_. {})"
  by (auto simp: cleanly_def seenUnder_def altering_def honest_def known_def)

lemma cleanly_sourcing:
  "(s = FromDefault) = (at_path g path = None) \<Longrightarrow> cleanly g A (sourcing path s) (\<lambda>_. True) (\<lambda>_. {path})"
  by (auto simp: cleanly_def sourcing_def altering_def honest_def known_def)

lemma cleanly_complaining: "cleanly g A (complaining path format args v) P B"
  unfolding complaining_def by (rule cleanly_bind [OF cleanly_asking cleanly_fail]) (rule lasts)

lemma cleanly_if: "(b \<Longrightarrow> cleanly g A m P B) \<Longrightarrow> (\<not> b \<Longrightarrow> cleanly g A n P B) \<Longrightarrow> cleanly g A (if b then m else n) P B"
  by simp

lemma cleanly_after:
  "cleanly g A m (\<lambda>_. True) B \<Longrightarrow> (\<And>a. cleanly g (A \<union> B a) n P' B') \<Longrightarrow> lasting n \<Longrightarrow>
     cleanly g A (State_Monad.bind m (\<lambda>_. n)) P' B'"
  by (rule cleanly_bind [where P = "\<lambda>_. True" and B = B]) auto

text \<open>A check skipped where a problem was found is made in a run that leaves none.\<close>

lemma cleanly_unless_failed: "cleanly g A m P B \<Longrightarrow> lasting m \<Longrightarrow> cleanly g A (unless_failed path m) P B"
  unfolding unless_failed_def by (rule cleanly_bind [OF cleanly_failedAt(1)]) (auto intro!: lasts)

lemma cleanly_traverse:
  assumes "\<And>x. x \<in> set xs \<Longrightarrow> cleanly g A (f x) (P x) (B x)" "\<And>x. lasting (f x)"
  shows "cleanly g A (State_Monad.traverse_list f xs) (list_all2 P xs) (\<lambda>as. \<Union> (set (map2 B xs as)))"
  using assms(1)
proof (induction xs arbitrary: A)
  case Nil
  show ?case by (simp add: cleanly_return)
next
  case (Cons x xs)
  have rest: "cleanly g (A \<union> B x a) (State_Monad.traverse_list f xs) (list_all2 P xs) (\<lambda>as. \<Union> (set (map2 B xs as)))" for a
    by (rule Cons.IH) (auto intro: cleanly_weaken [OF Cons.prems])
  have "cleanly g (A \<union> B x a) (State_Monad.bind (State_Monad.traverse_list f xs) (\<lambda>as. State_Monad.return (a # as)))
      (list_all2 P (x # xs)) (\<lambda>as. \<Union> (set (map2 B (x # xs) as)))" if "P x a" for a
    by (rule cleanly_bind [OF rest]) (use that in \<open>auto intro!: cleanly_return lasts\<close>)
  note tail = this
  show ?case
    unfolding traverse_list.simps
    by (rule cleanly_bind [OF Cons.prems tail]) (auto intro!: lasts assms(2))
qed

lemma cleanly_each:
  assumes "\<And>x. x \<in> set xs \<Longrightarrow> cleanly g A (f x) (\<lambda>_. P x) (\<lambda>_. {})" "\<And>x. lasting (f x)"
  shows "cleanly g A (cfg_each f xs) (\<lambda>_. \<forall>x\<in>set xs. P x) (\<lambda>_. {})"
  using assms(1)
proof (induction xs)
  case Nil
  show ?case by (simp add: cleanly_return)
next
  case (Cons x xs)
  have "cleanly g (A \<union> {}) (cfg_each f xs) (\<lambda>_. \<forall>y\<in>set xs. P y) (\<lambda>_. {})" using Cons by simp
  then show ?case
    unfolding cfg_each.simps
    by (intro cleanly_bind [OF Cons.prems] lasts assms(2)) (auto intro: cleanly_weaken)
qed

end
