(* ===== verification/Deployed.thy ===== *)
theory Deployed
  imports Resolved
begin

text \<open>
  What a configuration that resolved is held to: each reading and each check in turn, the whole, and the
  bounds the observer and the worker are given.
\<close>

section \<open>Readings\<close>

lemma cleanly_raw: "cleanly g A (raw g path) (\<lambda>v. v = None \<longleftrightarrow> at_path g path = None) (\<lambda>_. {path})"
proof -
  have found: "cleanly g A' (State_Monad.bind (sourcing path s) (\<lambda>_. State_Monad.return (Some v)))
      P (\<lambda>_. {path})" if "at_path g path \<noteq> None" "s \<noteq> FromDefault" "P (Some v)" for A' s v and P :: "yaml option \<Rightarrow> bool"
    by (rule cleanly_after [OF cleanly_sourcing]) (use that in \<open>auto intro!: cleanly_return lasts\<close>)
  have lost: "cleanly g A' (State_Monad.bind (cfg_fail p f a) (\<lambda>_. State_Monad.return None)) P B"
    "cleanly g A' (State_Monad.bind (complaining p f a v) (\<lambda>_. State_Monad.return None)) P B"
    for A' p f a v B and P :: "yaml option \<Rightarrow> bool"
    by (rule cleanly_bind [OF cleanly_fail [where P = "\<lambda>_. False"]]; auto intro!: lasts)
      (rule cleanly_bind [OF cleanly_complaining [where P = "\<lambda>_. False"]]; auto intro!: lasts)
  show ?thesis
  proof (cases "at_path g path")
    case None
    then show ?thesis
      unfolding raw_def None option.case
      by (intro cleanly_after [OF cleanly_seeing] cleanly_after [OF cleanly_sourcing] cleanly_return lasts) (auto simp: None)
  next
    case (Some v)
    show ?thesis
      unfolding raw_def Some option.case
      by (rule cleanly_after [OF cleanly_seeing])
        (auto intro!: found lost lasts simp: Some split: yaml.split sum.split option.split)
  qed
qed

lemma cleanly_lost:
  "cleanly g A (State_Monad.bind (cfg_fail p f a) (\<lambda>_. State_Monad.return x)) P B"
  "cleanly g A (State_Monad.bind (complaining p f a v) (\<lambda>_. State_Monad.return x)) P B"
  by (rule cleanly_bind [OF cleanly_fail [where P = "\<lambda>_. False"]]; auto intro!: lasts)
    (rule cleanly_bind [OF cleanly_complaining [where P = "\<lambda>_. False"]]; auto intro!: lasts)

lemma cleanly_refuseCredentials: "cleanly g A (refuseCredentials g path value) (\<lambda>_. True) (\<lambda>_. {})"
  unfolding refuseCredentials_def
  by (intro cleanly_if cleanly_after cleanly_return cleanly_fail lasts)
    (auto intro!: cleanly_return cleanly_fail lasts split: option.split)

lemma cleanly_text: "cleanly g A (cfg_text g path def) (\<lambda>s. at_path g path = None \<longrightarrow> s = def) (\<lambda>_. {path})"
  unfolding cfg_text_def
  by (rule cleanly_bind [OF cleanly_raw])
    (auto intro!: cleanly_return cleanly_lost lasts cleanly_after [OF cleanly_refuseCredentials] split: option.split yaml.split)

lemma cleanly_integer: "cleanly g A (cfg_integer g path def) (\<lambda>n. at_path g path = None \<longrightarrow> n = def) (\<lambda>_. {path})"
  unfolding cfg_integer_def
  by (rule cleanly_bind [OF cleanly_raw])
    (auto intro!: cleanly_return cleanly_lost lasts split: option.split sum.split)

lemma cleanly_duration: "cleanly g A (cfg_duration g path def) (\<lambda>_. True) (\<lambda>_. {path})"
  unfolding cfg_duration_def
  by (rule cleanly_bind [OF cleanly_raw])
    (auto intro!: cleanly_return cleanly_lost lasts split: option.split yaml.split)

lemma cleanly_boolean: "cleanly g A (cfg_boolean g path def) (\<lambda>_. True) (\<lambda>_. {path})"
  unfolding cfg_boolean_def
  by (rule cleanly_bind [OF cleanly_raw])
    (auto intro!: cleanly_return cleanly_lost lasts split: option.split yaml.split)

lemma cleanly_section: "cleanly g A (cfg_section g sect what) (\<lambda>_. True) (\<lambda>_. {})"
proof -
  have name: "cleanly g A' (entryName g sect what name) (\<lambda>_. True) (\<lambda>_. {})" for A' name
    unfolding entryName_def
    by (intro cleanly_if cleanly_after [OF cleanly_fail] cleanly_after [OF cleanly_seeing] cleanly_after cleanly_return lasts)
      (auto simp: under_def intro!: cleanly_seenUnder)
  have "cleanly g A (State_Monad.bind (State_Monad.traverse_list (entryName g sect what) names)
      (\<lambda>ns. State_Monad.return (sort (List.map_filter id ns)))) (\<lambda>_. True) (\<lambda>_. {})" for names
    by (rule cleanly_bind [OF cleanly_traverse [OF name]]) (auto intro!: cleanly_return lasts)
  moreover have "cleanly g A (State_Monad.bind (cfg_fail p f a) (\<lambda>_. State_Monad.bind (seeing q) (\<lambda>_. State_Monad.return []))) (\<lambda>_. True) (\<lambda>_. {})"
    for p f a q
    by (rule cleanly_bind [OF cleanly_fail [where P = "\<lambda>_. False"]]) (auto intro!: lasts)
  ultimately show ?thesis
    unfolding cfg_section_def by (auto intro!: cleanly_return split: option.split yaml.split)
qed

lemma cleanly_chainID:
  "cleanly g A (chainID g path) (\<lambda>n. 0 < n \<and> at_path g path \<noteq> None \<or> n = 0 \<and> at_path g path = None) (\<lambda>_. {path})"
  unfolding chainID_def
proof (rule cleanly_bind [OF cleanly_integer])
  fix n :: int
  assume n: "at_path g path = None \<longrightarrow> n = 0"
  have "cleanly g (A \<union> {path}) (do { unread \<leftarrow> asking (\<lambda>r. originOf r path = FromDefault \<or> failedAt r path);
      (if unread then State_Monad.return () else cfg_fail path ''want 1 or more: %d'' [ArgInt n]); State_Monad.return 0 })
      (\<lambda>n. 0 < n \<and> at_path g path \<noteq> None \<or> n = 0 \<and> at_path g path = None) (\<lambda>_. {path})"
    by (rule cleanly_bind [OF cleanly_origin(3)])
      (auto intro!: cleanly_return cleanly_lost lasts simp: if_distrib [of "\<lambda>m. State_Monad.bind m _"] split: if_splits)
  then show "cleanly g (A \<union> {path}) (if n > 0 then State_Monad.return n else do {
      unread \<leftarrow> asking (\<lambda>r. originOf r path = FromDefault \<or> failedAt r path);
      (if unread then State_Monad.return () else cfg_fail path ''want 1 or more: %d'' [ArgInt n]); State_Monad.return 0 })
      (\<lambda>n. 0 < n \<and> at_path g path \<noteq> None \<or> n = 0 \<and> at_path g path = None) (\<lambda>_. {path})"
    using n by (auto intro!: cleanly_return)
qed (auto intro!: lasts)


lemma cleanly_texts: "cleanly g A (cfg_texts g path) (\<lambda>_. True) (\<lambda>_. {path})"
proof -
  have one: "cleanly g A' (element g path i) (\<lambda>_. True) (\<lambda>_. {})" for A' i
    unfolding element_def Let_def
    by (rule cleanly_bind [OF cleanly_text]) (auto intro!: cleanly_bind [OF cleanly_failedAt(1)] cleanly_return lasts)
  have "cleanly g A' (State_Monad.bind (State_Monad.traverse_list (element g path) is) (\<lambda>out. State_Monad.return (List.map_filter id out)))
      (\<lambda>_. True) (\<lambda>_. {path})" if "path \<in> A'" for A' "is"
    by (rule cleanly_bind [OF cleanly_traverse [OF one]])
      (use that in \<open>auto intro!: cleanly_return lasts simp: element_def Let_def\<close>)
  then show ?thesis
    unfolding cfg_texts_def
    by (intro cleanly_bind [OF cleanly_raw])
      (auto intro!: cleanly_return cleanly_lost lasts simp: element_def Let_def split: option.split yaml.split)
qed

lemma cleanly_endpoints:
  "cleanly g A (cfg_endpoints g path wanted)
     (\<lambda>e. if wanted then at_path g (path @ ''.own'') = None \<longrightarrow> ends_own e = [] else e = noEndpoints)
     (\<lambda>_. if wanted then {path @ ''.own''} else {})"
proof -
  have shape: "cleanly g A' (case at_path g path of
        None \<Rightarrow> State_Monad.return False
      | Some v \<Rightarrow> do {
          seeing path;
          sourcing path FromFile;
          (if wanted \<and> \<not> isMapping v
           then do { cfg_fail path ''want own, others, or both, not %s'' [ArgText (kindOf v)]; State_Monad.return True }
           else State_Monad.return False) }) (\<lambda>b. \<not> b) (\<lambda>_. {})" for A'
    by (auto intro!: cleanly_return cleanly_after [OF cleanly_seeing] cleanly_after [OF cleanly_sourcing] cleanly_lost lasts
        split: option.split)
  show ?thesis
    unfolding cfg_endpoints_def
    by (rule cleanly_bind [OF shape])
      (auto intro!: cleanly_after [OF cleanly_seenUnder] cleanly_bind [OF cleanly_text] cleanly_bind [OF cleanly_texts] cleanly_return lasts)
qed

definition networkRead :: "given \<Rightarrow> string \<Rightarrow> config_network \<Rightarrow> bool" where
  "networkRead g path n =
     ((0 < cn_chainID n \<and> at_path g (path @ ''.chain_id'') \<noteq> None
       \<or> cn_chainID n = 0 \<and> at_path g (path @ ''.chain_id'') = None)
      \<and> (if takes (cn_kind n) ''rpc'' then at_path g (path @ ''.rpc.own'') = None \<longrightarrow> ends_own (cn_rpc n) = []
         else cn_rpc n = noEndpoints))"

definition networkPaths :: "string \<Rightarrow> config_network \<Rightarrow> string set" where
  "networkPaths path n =
     {path @ ''.chain_id''} \<union> (if takes (cn_kind n) ''rpc'' then {path @ ''.rpc.own''} else {})"

lemma cleanly_network:
  "cleanly g A (cfg_network g name) (\<lambda>(i, n). i = name \<and> networkRead g (''networks.'' @ name) n)
     (\<lambda>(i, n). networkPaths (''networks.'' @ name) n)"
  unfolding cfg_network_def Let_def
  by (intro cleanly_bind [OF cleanly_text] cleanly_bind [OF cleanly_chainID] cleanly_bind [OF cleanly_endpoints]
      cleanly_bind [OF cleanly_duration] cleanly_bind [OF cleanly_integer] cleanly_return lasts)
    (auto simp: networkRead_def networkPaths_def)

lemma cleanly_networks:
  "cleanly g A (cfg_networks g) (\<lambda>ns. \<forall>(name, n)\<in>set ns. networkRead g (''networks.'' @ name) n)
     (\<lambda>ns. \<Union>(name, n)\<in>set ns. networkPaths (''networks.'' @ name) n)"
proof -
  have "cleanly g A' (State_Monad.traverse_list (cfg_network g) names)
      (\<lambda>ns. \<forall>(name, n)\<in>set ns. networkRead g (''networks.'' @ name) n)
      (\<lambda>ns. \<Union>(name, n)\<in>set ns. networkPaths (''networks.'' @ name) n)" for A' names
  proof (rule cleanly_weaken [OF cleanly_traverse [OF cleanly_network]])
    fix ns assume a: "list_all2 (\<lambda>name (i, n). i = name \<and> networkRead g (''networks.'' @ name) n) names ns"
    then show "\<forall>(name, n)\<in>set ns. networkRead g (''networks.'' @ name) n"
      by (fastforce simp: list_all2_conv_all_nth in_set_conv_nth)
    show "(\<Union>(name, n)\<in>set ns. networkPaths (''networks.'' @ name) n)
        \<subseteq> A' \<union> \<Union> (set (map2 (\<lambda>name (i, n). networkPaths (''networks.'' @ name) n) names ns))"
      using a by (fastforce simp: list_all2_conv_all_nth in_set_conv_nth)
  qed (auto intro: lasts)
  then show ?thesis
    unfolding cfg_networks_def by (intro cleanly_bind [OF cleanly_section] lasts) auto
qed


definition assetRead :: "(string \<times> config_network) list \<Rightarrow> asset \<Rightarrow> bool" where
  "assetRead networks a = (asset_ok a \<and> map_of networks (as_network a) \<noteq> None \<and> as_symbol a \<noteq> [])"

lemma cleanly_asset: "cleanly g A (cfg_asset g path networks) (\<lambda>a. \<forall>x. a = Some x \<longrightarrow> assetRead networks x) (\<lambda>_. {})"
proof -
  have net: "cleanly g A' (unless_failed (path @ ''.network'')
       (if network = [] then cfg_fail (path @ ''.network'') ''required'' []
        else if map_of networks network = None
        then complaining (path @ ''.network'') ''no network named %v'' [] (YText network)
        else State_Monad.return ())) (\<lambda>_. network \<noteq> [] \<and> map_of networks network \<noteq> None) (\<lambda>_. {})" for A' network
    by (intro cleanly_unless_failed cleanly_if cleanly_fail cleanly_complaining cleanly_return lasts) auto
  have sym: "cleanly g A' (unless_failed p (cfg_fail_if (x = []) p ''required'' [])) (\<lambda>_. x \<noteq> []) (\<lambda>_. {})" for A' p and x :: string
    by (intro cleanly_unless_failed cleanly_fail_if lasts) auto
  have dec: "cleanly g A' (unless_failed (path @ ''.decimals'') (do {
       missing \<leftarrow> asking (\<lambda>r. originOf r (path @ ''.decimals'') = FromDefault);
       (if missing then cfg_fail (path @ ''.decimals'') ''required'' []
        else cfg_fail_if b (path @ ''.decimals'') ''outside 0-%d: %d'' args) })) (\<lambda>_. True) (\<lambda>_. {})" for A' b args
    by (intro cleanly_unless_failed cleanly_bind [OF cleanly_asking] cleanly_if cleanly_fail cleanly_fail_if lasts) auto
  show ?thesis
    unfolding cfg_asset_def Let_def
    by (intro cleanly_bind [OF cleanly_text] cleanly_bind [OF cleanly_integer] cleanly_bind [OF net] cleanly_bind [OF sym]
        cleanly_bind [OF dec] cleanly_bind [OF cleanly_failedAt(1)] lasts)
      (auto intro!: cleanly_return cleanly_lost lasts simp: assetRead_def NewAsset_Inr_iff split: option.split sum.split)
qed

lemma cleanly_domain: "cleanly g A (cfg_domain g path) (\<lambda>_. True) (\<lambda>_. {})"
  unfolding cfg_domain_def
  by (intro cleanly_bind [OF cleanly_text] cleanly_bind [OF cleanly_failedAt(3)] cleanly_if cleanly_return cleanly_lost lasts) auto

lemma cleanly_assets: "cleanly g A (cfg_assets g networks) (\<lambda>(assets, _). \<forall>(name, a)\<in>set assets. assetRead networks a) (\<lambda>_. {})"
proof -
  have entry: "cleanly g A' (cfg_entry g networks name)
      (\<lambda>(a, d). \<forall>i x. a = Some (i, x) \<longrightarrow> assetRead networks x) (\<lambda>_. {})" for A' name
    unfolding cfg_entry_def
    by (intro cleanly_bind [OF cleanly_asset] cleanly_bind [OF cleanly_domain] cleanly_return lasts) auto
  have kept: "\<forall>(name, a)\<in>set (List.map_filter fst entries). assetRead networks a"
    if "list_all2 (\<lambda>name (a, d). \<forall>i x. a = Some (i, x) \<longrightarrow> assetRead networks x) names entries"
    for names :: "string list" and entries :: "((string \<times> asset) option \<times> (string \<times> eip712) option) list"
    using that by (fastforce simp: List.map_filter_def list_all2_conv_all_nth in_set_conv_nth)
  have "cleanly g A' (State_Monad.bind (State_Monad.traverse_list (cfg_entry g networks) names)
      (\<lambda>entries. State_Monad.return (List.map_filter fst entries, List.map_filter snd entries)))
      (\<lambda>(assets, _). \<forall>(name, a)\<in>set assets. assetRead networks a) (\<lambda>_. {})" for A' and names :: "string list"
  proof (intro cleanly_bind [OF cleanly_traverse [OF entry]] cleanly_return)
    fix entries :: "((string \<times> asset) option \<times> (string \<times> eip712) option) list"
    assume "list_all2 (\<lambda>name (a, d). \<forall>i x. a = Some (i, x) \<longrightarrow> assetRead networks x) names entries"
    from kept [OF this] show "case (List.map_filter fst entries, List.map_filter snd entries) of
        (assets, _) \<Rightarrow> \<forall>(name, a)\<in>set assets. assetRead networks a" by simp
  qed (auto simp: cfg_entry_def intro!: lasts)
  then show ?thesis
    unfolding cfg_assets_def by (intro cleanly_bind [OF cleanly_section] lasts) (auto simp: cfg_entry_def intro!: lasts)
qed

section \<open>Checks\<close>

definition rpcHeld :: "given \<Rightarrow> string \<Rightarrow> bool" where
  "rpcHeld g t =
     (case gv_parseURL g t of
        None \<Rightarrow> False
      | Some u \<Rightarrow> hasHost u \<and> (ur_scheme u = ''https'' \<or> ur_scheme u = ''http'' \<and> onThisMachine g (ur_hostname u)))"

lemma cleanly_validateRPC: "cleanly g A (validateRPC g path t) (\<lambda>_. rpcHeld g t) (\<lambda>_. {})"
  unfolding validateRPC_def rpcHeld_def
  by (auto intro!: cleanly_fail cleanly_fail_if split: option.split)

lemma cleanly_validateEndpoints:
  assumes "path @ ''.own'' \<in> A"
  shows "cleanly g A (validateEndpoints g path e)
     (\<lambda>_. (at_path g (path @ ''.own'') \<noteq> None \<longrightarrow> rpcHeld g (ends_own e)) \<and> (\<forall>t\<in>set (ends_others e). rpcHeld g t)
        \<and> (at_path g (path @ ''.own'') \<noteq> None \<or> ends_others e \<noteq> [])) (\<lambda>_. {})"
proof -
  have own: "cleanly g A' (if b then validateRPC g p t else State_Monad.return ()) (\<lambda>_. b \<longrightarrow> rpcHeld g t) (\<lambda>_. {})" for A' b p t
    by (auto intro!: cleanly_return cleanly_weaken [OF cleanly_validateRPC])
  have others: "cleanly g A' (cfg_each (\<lambda>(i, endpoint). validateRPC g (p i) endpoint) xs)
      (\<lambda>_. \<forall>(i, t)\<in>set xs. rpcHeld g t) (\<lambda>_. {})" for A' p and xs :: "(nat \<times> string) list"
    by (rule cleanly_weaken [OF cleanly_each [where P = "\<lambda>(i, t). rpcHeld g t"]]) (auto intro!: lasts cleanly_validateRPC)
  have all: "(\<forall>(i, t)\<in>set (zip [0..<length ts] ts). rpcHeld g t) \<longleftrightarrow> (\<forall>t\<in>set ts. rpcHeld g t)" for ts
    by (fastforce simp: set_zip in_set_conv_nth)
  show ?thesis
    unfolding validateEndpoints_def
    by (intro cleanly_bind [OF cleanly_origin(1) [OF assms]] cleanly_bind [OF own] cleanly_bind [OF others]
        cleanly_bind [OF cleanly_failedAt(2)] cleanly_fail_if lasts)
      (auto simp: all intro!: lasts)
qed


lemma takes_iff:
  "takes kind key \<longleftrightarrow> kind = ''evm'' \<and> (key = ''chain_id'' \<or> key = ''rpc'')"
  "map_of networkKinds kind \<noteq> None \<longleftrightarrow> kind = ''evm'' \<or> kind = ''simulated''"
  by (auto simp: takes_def networkKinds_def)

definition kindHeld :: "given \<Rightarrow> string \<Rightarrow> config_network \<Rightarrow> string \<Rightarrow> bool" where
  "kindHeld g path n key =
     (if \<not> takes (cn_kind n) key then at_path g (path @ ''.'' @ key) = None \<or> key = ''rpc''
      else if key = ''rpc'' then
        (at_path g (path @ ''.rpc.own'') \<noteq> None \<longrightarrow> rpcHeld g (ends_own (cn_rpc n)))
        \<and> (\<forall>t\<in>set (ends_others (cn_rpc n)). rpcHeld g t)
        \<and> (at_path g (path @ ''.rpc.own'') \<noteq> None \<or> ends_others (cn_rpc n) \<noteq> [])
      else at_path g (path @ ''.'' @ key) \<noteq> None)"

lemma lasting_validateKind: "lasting (validateKind g path n key)"
  unfolding validateKind_def Let_def by (intro lasts)

lemma cleanly_validateKind:
  assumes "networkPaths path n \<subseteq> A" "key = ''chain_id'' \<or> key = ''rpc''"
  shows "cleanly g A (validateKind g path n key) (\<lambda>_. kindHeld g path n key) (\<lambda>_. {})"
  using assms(2)
proof
  assume k: "key = ''chain_id''"
  have "path @ ''.'' @ key \<in> A" using assms(1) k by (simp add: networkPaths_def)
  then show ?thesis
    unfolding validateKind_def Let_def
    by (intro cleanly_unless_failed cleanly_bind [OF cleanly_origin(1)] cleanly_if cleanly_fail cleanly_return cleanly_fail_if lasts)
      (auto simp: kindHeld_def k)
next
  assume k: "key = ''rpc''"
  show ?thesis
  proof (cases "takes (cn_kind n) ''rpc''")
    case True
    then have own: "(path @ ''.'' @ key) @ ''.own'' \<in> A" using assms(1) k by (simp add: networkPaths_def)
    have v: "cleanly g A' (validateEndpoints g (path @ ''.'' @ key) (cn_rpc n)) (\<lambda>_. kindHeld g path n key) (\<lambda>_. {})" if "A \<subseteq> A'" for A'
      by (rule cleanly_weaken [OF cleanly_validateEndpoints [OF own]]) (use True k that in \<open>auto simp: kindHeld_def\<close>)
    show ?thesis
      unfolding validateKind_def Let_def
      by (intro cleanly_unless_failed cleanly_bind [OF cleanly_asking] cleanly_if v cleanly_fail cleanly_fail_if lasts)
        (use True k in auto)
  next
    case False
    then show ?thesis
      unfolding validateKind_def Let_def
      by (intro cleanly_unless_failed cleanly_bind [OF cleanly_asking] cleanly_if cleanly_fail cleanly_return cleanly_fail_if lasts)
        (auto simp: kindHeld_def k)
  qed
qed

definition networkHeld :: "given \<Rightarrow> string \<Rightarrow> config_network \<Rightarrow> bool" where
  "networkHeld g path n =
     (minPoll \<le> cn_poll n \<and> MinWidth \<le> cn_width n \<and> cn_width n \<le> MaxWidth \<and> minFinalityRecheck \<le> cn_recheck n
      \<and> MinFinalityMisses \<le> cn_misses n \<and> (cn_kind n = ''evm'' \<or> cn_kind n = ''simulated'')
      \<and> kindHeld g path n ''chain_id'' \<and> kindHeld g path n ''rpc'')"

lemma cleanly_validateNetwork:
  assumes "networkPaths (''networks.'' @ fst x) (snd x) \<subseteq> A"
  shows "cleanly g A (validateNetwork g x) (\<lambda>_. networkHeld g (''networks.'' @ fst x) (snd x)) (\<lambda>_. {})"
proof -
  let ?path = "''networks.'' @ fst x" and ?n = "snd x"
  have check: "cleanly g A' (unless_failed p (cfg_fail_if b p f a)) (\<lambda>_. \<not> b) (\<lambda>_. {})" for A' p b f a
    by (intro cleanly_unless_failed cleanly_fail_if lasts)
  have kind: "cleanly g A' (unless_failed (?path @ ''.kind'')
       (if map_of networkKinds (cn_kind ?n) = None
        then do {
          s \<leftarrow> asking (\<lambda>r. shown r (?path @ ''.kind'') (YText (cn_kind ?n)));
          cfg_fail (?path @ ''.kind'') ''unknown kind %v, want one of %s'' [ArgShown s, ArgText (intercalated NetworkKinds)] }
        else cfg_each (validateKind g ?path ?n) [''chain_id'', ''rpc'']))
      (\<lambda>_. (cn_kind ?n = ''evm'' \<or> cn_kind ?n = ''simulated'') \<and> kindHeld g ?path ?n ''chain_id'' \<and> kindHeld g ?path ?n ''rpc'')
      (\<lambda>_. {})" if "A \<subseteq> A'" for A'
  proof (intro cleanly_unless_failed cleanly_if lasts)
    assume "map_of networkKinds (cn_kind ?n) \<noteq> None"
    then have k: "cn_kind ?n = ''evm'' \<or> cn_kind ?n = ''simulated''" by (simp only: takes_iff)
    have "cleanly g A' (cfg_each (validateKind g ?path ?n) [''chain_id'', ''rpc''])
        (\<lambda>_. \<forall>key\<in>set [''chain_id'', ''rpc'']. kindHeld g ?path ?n key) (\<lambda>_. {})"
      by (rule cleanly_each) (use assms that in \<open>auto intro!: cleanly_validateKind lasting_validateKind\<close>)
    then show "cleanly g A' (cfg_each (validateKind g ?path ?n) [''chain_id'', ''rpc''])
      (\<lambda>_. (cn_kind ?n = ''evm'' \<or> cn_kind ?n = ''simulated'') \<and> kindHeld g ?path ?n ''chain_id'' \<and> kindHeld g ?path ?n ''rpc'') (\<lambda>_. {})"
      using k by (auto elim!: cleanly_weaken)
  qed (auto intro!: cleanly_bind [OF cleanly_asking] cleanly_fail lasts lasting_validateKind)
  show ?thesis
    unfolding validateNetwork_def Let_def
    by (intro cleanly_bind [OF check] cleanly_weaken [OF kind] lasts)
      (auto simp: networkHeld_def intro!: lasts lasting_validateKind)
qed

lemma cleanly_validateAssets: "cleanly g A (validateAssets assets) (\<lambda>_. sameNames assets = []) (\<lambda>_. {})"
proof -
  have none: "(\<forall>x\<in>set xs. False) \<Longrightarrow> xs = []" for xs :: "(string \<times> string) list" by (cases xs) auto
  have each: "cleanly g A (cfg_each (\<lambda>(earlier, name). cfg_fail ''assets'' f (h earlier name)) xs) (\<lambda>_. \<forall>x\<in>set xs. False) (\<lambda>_. {})"
    for f h and xs :: "(string \<times> string) list"
    by (rule cleanly_each) (auto intro!: cleanly_fail lasts)
  show ?thesis
    unfolding validateAssets_def by (rule cleanly_weaken [OF each]) (rule subset_refl none | simp)+
qed

definition configHeld :: "given \<Rightarrow> config \<Rightarrow> bool" where
  "configHeld g cfg =
     (cf_host cfg \<noteq> [] \<and> 1 \<le> cf_port cfg \<and> cf_port cfg \<le> 65535
      \<and> cf_logLevel cfg \<in> set LogLevels \<and> cf_logFormat cfg \<in> set LogFormats
      \<and> cf_managed cfg = (cf_dbURL cfg = [])
      \<and> (cf_dbURL cfg \<noteq> [] \<longrightarrow> cf_key cfg \<noteq> [])
      \<and> (cf_key cfg \<noteq> [] \<longrightarrow> hexBytes (cf_key cfg) = Some keyBytes \<and> cf_keyID cfg \<noteq> [])
      \<and> (\<forall>(name, n)\<in>set (cf_networks cfg). networkHeld g (''networks.'' @ name) n)
      \<and> sameNames (cf_assets cfg) = [])"

lemma cleanly_validate:
  assumes "(\<Union>(name, n)\<in>set (cf_networks cfg). networkPaths (''networks.'' @ name) n) \<subseteq> A"
  shows "cleanly g A (validate g cfg) (\<lambda>_. configHeld g cfg) (\<lambda>_. {})"
proof -
  have check: "cleanly g A' (unless_failed p (cfg_fail_if b p f a)) (\<lambda>_. \<not> b) (\<lambda>_. {})" for A' p b f a
    by (intro cleanly_unless_failed cleanly_fail_if lasts)
  have base: "cleanly g A' (unless_failed p (validateBaseURL g t)) (\<lambda>_. True) (\<lambda>_. {})" for A' p t
    unfolding validateBaseURL_def
    by (intro cleanly_unless_failed) (auto intro!: cleanly_complaining cleanly_return lasts split: option.split)
  have log: "cleanly g A' (validateLog cfg) (\<lambda>_. cf_logLevel cfg \<in> set LogLevels \<and> cf_logFormat cfg \<in> set LogFormats) (\<lambda>_. {})" for A'
    unfolding validateLog_def by (intro cleanly_bind [OF check] cleanly_weaken [OF check] lasts) auto
  have db: "cleanly g A' (validateDatabase cfg) (\<lambda>_. cf_managed cfg = (cf_dbURL cfg = [])) (\<lambda>_. {})" for A'
    unfolding validateDatabase_def by (intro cleanly_if cleanly_fail cleanly_fail_if) auto
  have key: "cleanly g A' (unless_failed ''credentials.key''
       (if cf_key cfg = [] then do {
          bad \<leftarrow> asking (\<lambda>r. failedAt r ''database'');
          cfg_fail_if (cf_dbURL cfg \<noteq> [] \<and> \<not> bad) ''credentials.key'' f [] }
        else (case hexBytes (cf_key cfg) of
          None \<Rightarrow> cfg_fail ''credentials.key'' f' []
        | Some n \<Rightarrow> cfg_fail_if (n \<noteq> keyBytes) ''credentials.key'' f'' [ArgInt (int keyBytes)])))
      (\<lambda>_. if cf_key cfg = [] then cf_dbURL cfg = [] else hexBytes (cf_key cfg) = Some keyBytes) (\<lambda>_. {})" for A' f f' f''
    by (intro cleanly_unless_failed cleanly_if cleanly_bind [OF cleanly_failedAt(1)] cleanly_fail_if lasts)
      (auto intro!: cleanly_fail cleanly_weaken [OF cleanly_fail_if [where P = "\<lambda>_. hexBytes (cf_key cfg) = Some keyBytes"]] lasts
        split: option.split)
  have cred: "cleanly g A' (validateCredentials cfg)
      (\<lambda>_. (cf_dbURL cfg \<noteq> [] \<longrightarrow> cf_key cfg \<noteq> []) \<and> (cf_key cfg \<noteq> [] \<longrightarrow> hexBytes (cf_key cfg) = Some keyBytes \<and> cf_keyID cfg \<noteq> []))
      (\<lambda>_. {})" for A'
    unfolding validateCredentials_def
    by (intro cleanly_bind [OF key] cleanly_bind [OF cleanly_failedAt(1)] cleanly_fail_if lasts) (auto split: if_splits)
  have nets: "cleanly g A' (cfg_each (validateNetwork g) (cf_networks cfg))
      (\<lambda>_. \<forall>x\<in>set (cf_networks cfg). networkHeld g (''networks.'' @ fst x) (snd x)) (\<lambda>_. {})" if "A \<subseteq> A'" for A'
    by (rule cleanly_each) (use assms that in \<open>fastforce intro!: cleanly_validateNetwork\<close>, intro lasts)
  have both: "cleanly g A' (unless_failed p (unless_failed q (do { validateDatabase cfg; validateCredentials cfg })))
      (\<lambda>_. cf_managed cfg = (cf_dbURL cfg = []) \<and> (cf_dbURL cfg \<noteq> [] \<longrightarrow> cf_key cfg \<noteq> [])
        \<and> (cf_key cfg \<noteq> [] \<longrightarrow> hexBytes (cf_key cfg) = Some keyBytes \<and> cf_keyID cfg \<noteq> [])) (\<lambda>_. {})" for A' p q
    by (intro cleanly_unless_failed cleanly_bind [OF db] cleanly_weaken [OF cred])
      (auto simp: validateDatabase_def validateCredentials_def intro!: lasts split: option.split)
  show ?thesis
    unfolding validate_def
    by (intro cleanly_bind [OF check] cleanly_bind [OF base] cleanly_bind [OF both] cleanly_bind [OF log] cleanly_bind [OF nets]
        cleanly_weaken [OF cleanly_validateAssets] lasts)
      (auto simp: configHeld_def validateDatabase_def validateCredentials_def validateLog_def intro!: lasts split: option.split)
qed


section \<open>The whole\<close>

text \<open>\<open>Resolve\<close> gives a configuration only where its run left no problem.\<close>

lemma honest_new: "honest g newReader" "cr_problems newReader = []" "{} \<subseteq> known newReader"
  by (simp_all add: honest_def newReader_def known_def)

lemma cleanly_resolving:
  "cleanly g {} (resolving g) (\<lambda>cfg. configHeld g cfg
     \<and> (\<forall>(name, n)\<in>set (cf_networks cfg). networkRead g (''networks.'' @ name) n)
     \<and> (\<forall>(name, a)\<in>set (cf_assets cfg). assetRead (cf_networks cfg) a)) (\<lambda>_. {})"
proof -
  have unknown: "cleanly g A (reportUnknownKeys g) (\<lambda>_. True) (\<lambda>_. {})" for A
  proof -
    have "cleanly g A (cfg_each (\<lambda>path. do { known \<leftarrow> asking (\<lambda>r. path \<in> set (cr_seen r));
        cfg_fail_if (\<not> known) path ''unknown key'' [] }) ps) (\<lambda>_. \<forall>x\<in>set ps. True) (\<lambda>_. {})" for ps
      by (rule cleanly_each) (auto intro!: cleanly_bind [OF cleanly_asking] cleanly_fail_if lasts)
    then show ?thesis unfolding reportUnknownKeys_def by (rule cleanly_weaken) auto
  qed
  have tail: "cleanly g A (do { validate g cfg; reportUnknownKeys g; State_Monad.return cfg })
      (\<lambda>c. c = cfg \<and> configHeld g cfg) (\<lambda>_. {})"
    if "(\<Union>(name, n)\<in>set (cf_networks cfg). networkPaths (''networks.'' @ name) n) \<subseteq> A" for A cfg
    by (intro cleanly_bind [OF cleanly_validate [OF that]] cleanly_bind [OF unknown] cleanly_return lasts) simp_all
  have assets: "cleanly g A (do {
       (assets, domains) \<leftarrow> cfg_assets g networks;
       (let cfg = mk assets domains in do { validate g cfg; reportUnknownKeys g; State_Monad.return cfg }) })
      (\<lambda>cfg. configHeld g cfg \<and> (\<forall>(name, n)\<in>set (cf_networks cfg). networkRead g (''networks.'' @ name) n)
        \<and> (\<forall>(name, a)\<in>set (cf_assets cfg). assetRead (cf_networks cfg) a)) (\<lambda>_. {})"
    if "(\<Union>(name, n)\<in>set networks. networkPaths (''networks.'' @ name) n) \<subseteq> A"
      "\<forall>(name, n)\<in>set networks. networkRead g (''networks.'' @ name) n"
      "\<And>a d. cf_networks (mk a d) = networks \<and> cf_assets (mk a d) = a" for A networks mk
  proof (rule cleanly_bind [OF cleanly_assets])
    fix ad :: "(string \<times> asset) list \<times> (string \<times> eip712) list"
    assume ad: "case ad of (assets, _) \<Rightarrow> \<forall>(name, a)\<in>set assets. assetRead networks a"
    obtain as ds where [simp]: "ad = (as, ds)" by (cases ad)
    have "(\<Union>(name, n)\<in>set (cf_networks (mk as ds)). networkPaths (''networks.'' @ name) n) \<subseteq> A \<union> {}" using that by simp
    from tail [OF this] show "cleanly g (A \<union> {}) (case ad of (assets, domains) \<Rightarrow>
        let cfg = mk assets domains in do { validate g cfg; reportUnknownKeys g; State_Monad.return cfg })
      (\<lambda>cfg. configHeld g cfg \<and> (\<forall>(name, n)\<in>set (cf_networks cfg). networkRead g (''networks.'' @ name) n)
        \<and> (\<forall>(name, a)\<in>set (cf_assets cfg). assetRead (cf_networks cfg) a)) (\<lambda>_. {})"
      using that(2,3) ad by (auto elim!: cleanly_weaken simp: Let_def)
  qed (auto intro!: lasts simp: Let_def split: prod.split)
  show ?thesis
    unfolding resolving_def
    by (intro cleanly_bind [OF cleanly_text] cleanly_bind [OF cleanly_integer] cleanly_bind [OF cleanly_boolean]
        cleanly_bind [OF cleanly_networks] assets lasts) (auto simp: Let_def intro!: lasts split: prod.split)
qed

definition endpointsOf :: "config_network \<Rightarrow> string list" where
  "endpointsOf n = (if ends_own (cn_rpc n) = [] then [] else [ends_own (cn_rpc n)]) @ ends_others (cn_rpc n)"

text \<open>A network the instance can run: within the bounds the document is held to, and of a kind it can reach.\<close>

definition networkRuns :: "given \<Rightarrow> config_network \<Rightarrow> bool" where
  "networkRuns g n =
     (Second \<le> cn_poll n \<and> 10 \<le> cn_width n \<and> cn_width n \<le> 10000 \<and> Second \<le> cn_recheck n \<and> 2 \<le> cn_misses n
      \<and> (cn_kind n = ''evm'' \<and> 0 < cn_chainID n \<and> endpointsOf n \<noteq> [] \<and> list_all (rpcHeld g) (endpointsOf n)
         \<or> cn_kind n = ''simulated'' \<and> cn_chainID n = 0 \<and> endpointsOf n = []))"

lemma networkRuns_from:
  assumes "networkRead g path n" "networkHeld g path n" "\<And>u. gv_parseURL g [] = Some u \<Longrightarrow> ur_scheme u = []"
  shows "networkRuns g n"
proof -
  have blank: "\<not> rpcHeld g []" using assms(3) by (auto simp: rpcHeld_def split: option.splits)
  have bounds: "Second \<le> cn_poll n" "10 \<le> cn_width n" "cn_width n \<le> 10000" "Second \<le> cn_recheck n" "2 \<le> cn_misses n"
    using assms(2) by (simp_all add: networkHeld_def minPoll_def MinWidth_def MaxWidth_def minFinalityRecheck_def MinFinalityMisses_def)
  have "cn_kind n = ''evm'' \<or> cn_kind n = ''simulated''" using assms(2) by (simp add: networkHeld_def)
  then show ?thesis
  proof
    assume k: "cn_kind n = ''evm''"
    then have t: "takes (cn_kind n) ''chain_id''" "takes (cn_kind n) ''rpc''" by (simp_all add: takes_iff)
    have "at_path g (path @ ''.chain_id'') \<noteq> None"
      using assms(2) t(1) by (simp add: networkHeld_def kindHeld_def)
    then have id: "0 < cn_chainID n" using assms(1) by (auto simp: networkRead_def)
    have own: "at_path g (path @ ''.rpc.own'') = None \<longrightarrow> ends_own (cn_rpc n) = []"
      using assms(1) t(2) by (simp add: networkRead_def)
    have held: "at_path g (path @ ''.rpc.own'') \<noteq> None \<longrightarrow> rpcHeld g (ends_own (cn_rpc n))"
        "\<forall>x\<in>set (ends_others (cn_rpc n)). rpcHeld g x"
        "at_path g (path @ ''.rpc.own'') \<noteq> None \<or> ends_others (cn_rpc n) \<noteq> []"
      using assms(2) t(2) by (simp_all add: networkHeld_def kindHeld_def)
    have "endpointsOf n \<noteq> []" using held own blank by (auto simp: endpointsOf_def)
    moreover have "list_all (rpcHeld g) (endpointsOf n)" using held own by (auto simp: endpointsOf_def list_all_iff)
    ultimately show ?thesis using bounds k id by (simp add: networkRuns_def)
  next
    assume k: "cn_kind n = ''simulated''"
    then have t: "\<not> takes (cn_kind n) ''chain_id''" "\<not> takes (cn_kind n) ''rpc''" by (simp_all add: takes_iff)
    have "at_path g (path @ ''.chain_id'') = None"
      using assms(2) t(1) by (simp add: networkHeld_def kindHeld_def)
    then have "cn_chainID n = 0" using assms(1) by (simp add: networkRead_def)
    moreover have "endpointsOf n = []" using assms(1) t(2) by (simp add: networkRead_def endpointsOf_def noEndpoints_def)
    ultimately show ?thesis using bounds k by (simp add: networkRuns_def)
  qed
qed

lemma resolving_held:
  assumes "run_state (resolving g) newReader = (cfg, r)" "cr_problems r = []" "\<And>u. gv_parseURL g [] = Some u \<Longrightarrow> ur_scheme u = []"
  shows "configHeld g cfg" "\<forall>(name, n)\<in>set (cf_networks cfg). networkRuns g n"
    "\<forall>(name, a)\<in>set (cf_assets cfg). asset_ok a \<and> as_symbol a \<noteq> [] \<and> networkOf cfg (as_network a) \<noteq> None"
proof -
  have held: "configHeld g cfg" "\<forall>(name, n)\<in>set (cf_networks cfg). networkRead g (''networks.'' @ name) n"
      "\<forall>(name, a)\<in>set (cf_assets cfg). assetRead (cf_networks cfg) a"
    using cleanlyD [OF cleanly_resolving assms(1,2) honest_new(2,1,3)] by blast+
  then have "\<forall>(name, n)\<in>set (cf_networks cfg). networkHeld g (''networks.'' @ name) n" by (simp add: configHeld_def)
  with held(2) show "\<forall>(name, n)\<in>set (cf_networks cfg). networkRuns g n"
    using networkRuns_from assms(3) by fastforce
  show "configHeld g cfg" "\<forall>(name, a)\<in>set (cf_assets cfg). asset_ok a \<and> as_symbol a \<noteq> [] \<and> networkOf cfg (as_network a) \<noteq> None"
    using held by (auto simp: assetRead_def networkOf_def)
qed

text \<open>
  C32: a document resolves only to a configuration an instance can run: a port there is, a level and a format
  of log it knows, a database it is given or manages and never both, with a key of 32 bytes and its name
  wherever one is given; every network within its bounds, of a kind the build knows, an EVM one with a chain
  id and endpoints that are https or on this machine; and every asset a token on a network of the document,
  no two of them one token.
\<close>

theorem resolved_runs:
  assumes "Resolve g = Inr (cfg, sources)" "\<And>u. gv_parseURL g [] = Some u \<Longrightarrow> ur_scheme u = []"
  shows "configHeld g cfg
    \<and> (\<forall>(name, n)\<in>set (cf_networks cfg). networkRuns g n)
    \<and> (\<forall>(name, a)\<in>set (cf_assets cfg). asset_ok a \<and> as_symbol a \<noteq> [] \<and> networkOf cfg (as_network a) \<noteq> None)"
proof -
  obtain r where run: "run_state (resolving g) newReader = (cfg, r)" and none: "cr_problems r = []"
    using assms(1) by (auto simp: Resolve_def split: prod.splits if_splits)
  then show ?thesis using resolving_held [OF run none assms(2)] by blast
qed

end
