(* ===== verification/Hex.thy ===== *)
theory Hex
  imports GoText
begin

text \<open>
  Hexadecimal both ways, as \<open>encoding/hex\<close> reads and writes it: what is written in lower case is read back,
  and what is read in either case is written in lower case.
\<close>

definition hexVal :: "char \<Rightarrow> nat" where
  "hexVal c = (let n = of_char (lowerChar c) in if isDigit c then n - 48 else n - 87)"

text \<open>\<open>hex.Decode\<close>, of either case.\<close>

fun hexDecode :: "string \<Rightarrow> byte list option" where
  "hexDecode [] = Some []"
| "hexDecode [c] = None"
| "hexDecode (c # d # cs) =
     (if isHexDigit c \<and> isHexDigit d
      then map_option (\<lambda>bs. word_of_nat (16 * hexVal c + hexVal d) # bs) (hexDecode cs) else None)"

lemma hexDigit_cases:
  assumes "isHexDigit c"
  shows "c \<in> set ''0123456789abcdefABCDEF''"
proof -
  define n where "n = (of_char c :: nat)"
  have c: "c = char_of n" by (simp add: n_def)
  have "n \<in> {48..57} \<union> {97..102} \<union> {65..70}"
    using assms by (auto simp: isHexDigit_def isDigit_iff less_eq_char_def n_def)
  then have "n \<in> set ([48..<58] @ [97..<103] @ [65..<71])" by (simp only: set_append set_upt) auto
  then have "n = 48 \<or> n = 49 \<or> n = 50 \<or> n = 51 \<or> n = 52 \<or> n = 53 \<or> n = 54 \<or> n = 55 \<or> n = 56 \<or> n = 57
      \<or> n = 97 \<or> n = 98 \<or> n = 99 \<or> n = 100 \<or> n = 101 \<or> n = 102 \<or> n = 65 \<or> n = 66 \<or> n = 67 \<or> n = 68 \<or> n = 69 \<or> n = 70"
    by (simp add: upt_conv_Cons)
  then show ?thesis unfolding c by (elim disjE) (simp_all add: char_of_eq_iff)
qed

lemma hexVal_isHexDigit:
  assumes "isHexDigit c"
  shows "hexVal c < 16" "hexDigit (hexVal c) = lowerChar c"
  using hexDigit_cases [OF assms]
  by (auto simp: hexVal_def hexDigit_def lowerChar_def isDigit_iff less_eq_char_def char_of_eq_iff)

lemma hexVal_hexDigit:
  assumes "d < 16"
  shows "hexVal (hexDigit d) = d"
proof -
  have "d \<in> set [0..<16]" using assms by simp
  then show ?thesis by (auto simp: upt_conv_Cons hexVal_def hexDigit_def lowerChar_def isDigit_iff less_eq_char_def)
qed

lemma isHexDigit_hexDigit: "d < 16 \<Longrightarrow> isHexDigit (hexDigit d)"
  by (simp add: hexDigit_lower)

lemma hexDecode_hexEncode [simp]: "hexDecode (hexEncode bs) = Some bs"
proof (induction bs)
  case (Cons b bs)
  have "word_of_nat (16 * (unat b div 16) + unat b mod 16) = b" by simp
  then show ?case
    using Cons byte_div_16 [of b]
    by (simp add: hexEncode_def isHexDigit_hexDigit hexVal_hexDigit del: mult_div_mod_eq)
qed (simp add: hexEncode_def)

lemma hexDecode_SomeD:
  "hexDecode s = Some bs \<Longrightarrow> length s = 2 * length bs \<and> hexEncode bs = map lowerChar s \<and> list_all isHexDigit s"
proof (induction s arbitrary: bs rule: hexDecode.induct)
  case (3 c d cs)
  then obtain bs' where b: "isHexDigit c" "isHexDigit d" "hexDecode cs = Some bs'" "bs = word_of_nat (16 * hexVal c + hexVal d) # bs'"
    by (auto split: if_splits)
  have v: "hexVal c < 16" "hexVal d < 16" "hexDigit (hexVal c) = lowerChar c" "hexDigit (hexVal d) = lowerChar d"
    using b hexVal_isHexDigit by auto
  have "unat (word_of_nat (16 * hexVal c + hexVal d) :: byte) = 16 * hexVal c + hexVal d"
    using v by (simp only: unat_of_nat) (simp add: take_bit_nat_eq_self)
  then show ?case using 3 b v by (simp add: hexEncode_def)
qed (auto simp: hexEncode_def)

lemma hexDecode_total: "even (length s) \<Longrightarrow> list_all isHexDigit s \<Longrightarrow> hexDecode s \<noteq> None"
  by (induction s rule: hexDecode.induct) auto

lemma hexEncode_lower [simp]: "map lowerChar (hexEncode bs) = hexEncode bs" "list_all isHexDigit (hexEncode bs)"
  by (auto simp: list_all_iff dest: hexEncode_chars intro!: map_idI)

end
