(* ===== verification/Evm_Values.thy ===== *)
theory Evm_Values
  imports Hex
begin

text \<open>
  Package evm, value.go, address.go and the decoding of domain.go: what a provider writes, read into values
  of one width each, and the one way an account is written. A body is what \<open>encoding/json\<close> makes of it; the
  hash of the chain is an argument.
\<close>

section \<open>What a provider answers\<close>

text \<open>A number is the whole number it is, if it is one that \<open>int\<close> holds.\<close>

datatype provided =
    ANull
  | ABool bool
  | ANum "int option"
  | AText string
  | AList "provided list"
  | AObj "(string \<times> provided) list"

text \<open>The member a field of a struct is read from: the last of that name, in any case of its letters.\<close>

definition answerField :: "string \<Rightarrow> (string \<times> provided) list \<Rightarrow> provided option" where
  "answerField name kvs =
     (case filter (\<lambda>(k, v). map lowerChar k = map lowerChar name) kvs of [] \<Rightarrow> None | found \<Rightarrow> Some (snd (last found)))"

datatype value_error =
    NotText
  | NoPrefix string
  | NoDigits string
  | LeadingZero string
  | NotANumber string
  | WrongWidth nat nat
  | NotHex string
  | NotRaised string
  | NotAccount string
  | TooManyTopics nat
  | NotTheShape
  | TooLongAName nat
  | NoString nat
  | BadOffset
  | BadLength
  | BadPadding
  | NotUTF8
  | NameInvisible

definition unquote :: "provided \<Rightarrow> (value_error, string) result" where
  "unquote a = (case a of AText s \<Rightarrow> Inr s | ANull \<Rightarrow> Inr [] | _ \<Rightarrow> Inl NotText)"

definition cut :: "string \<Rightarrow> string" where
  "cut s = (if length s > 32 then take 32 s @ ''...'' else s)"

definition cutPrefix :: "string \<Rightarrow> string option" where
  "cutPrefix s = (if take 2 s = ''0x'' then Some (drop 2 s) else None)"

section \<open>Quantities\<close>

definition hexNat :: "string \<Rightarrow> nat" where
  "hexNat s = foldl (\<lambda>n c. 16 * n + hexVal c) 0 s"

definition readQuantity :: "provided \<Rightarrow> (value_error, uint64) result" where
  "readQuantity a = bindE (unquote a) (\<lambda>text.
     case cutPrefix text of
       None \<Rightarrow> Inl (NoPrefix (cut text))
     | Some digits \<Rightarrow>
         if digits = [] then Inl (NoDigits (cut text))
         else if length digits > 1 \<and> hd digits = CHR ''0'' then Inl (LeadingZero (cut text))
         else if list_all isHexDigit digits \<and> hexNat digits < 2 ^ 64 then Inr (word_of_nat (hexNat digits))
         else Inl (NotANumber (cut text)))"

fun formatHex :: "nat \<Rightarrow> string" where
  "formatHex n = (if n < 16 then [hexDigit n] else formatHex (n div 16) @ [hexDigit (n mod 16)])"

declare formatHex.simps [simp del]

definition quantityString :: "uint64 \<Rightarrow> string" where
  "quantityString q = ''0x'' @ formatHex (unat q)"

section \<open>Values of one width\<close>

definition hashBytes :: nat where "hashBytes = 32"
definition addressBytes :: nat where "addressBytes = 20"
definition wordBytes :: nat where "wordBytes = 32"
definition maxTopics :: nat where "maxTopics = 4"

definition decodeHex :: "nat \<Rightarrow> string \<Rightarrow> (value_error, byte list) result" where
  "decodeHex width text =
     (case cutPrefix text of
        None \<Rightarrow> Inl (NoPrefix (cut text))
      | Some digits \<Rightarrow>
          if length digits \<noteq> 2 * width then Inl (WrongWidth (length digits) (2 * width))
          else case hexDecode digits of
            None \<Rightarrow> Inl (NotHex (cut text))
          | Some bs \<Rightarrow> Inr bs)"

definition unmarshalBytes :: "nat \<Rightarrow> provided \<Rightarrow> (value_error, byte list) result" where
  "unmarshalBytes width a = bindE (unquote a) (decodeHex width)"

definition hexString :: "byte list \<Rightarrow> string" where
  "hexString bs = ''0x'' @ hexEncode bs"

primrec readEach :: "(provided \<Rightarrow> (value_error, 'a) result) \<Rightarrow> provided list \<Rightarrow> (value_error, 'a list) result" where
  "readEach f [] = Inr []"
| "readEach f (a # as) = bindE (f a) (\<lambda>x. bindE (readEach f as) (\<lambda>xs. Inr (x # xs)))"

definition readTopics :: "provided \<Rightarrow> (value_error, byte list list) result" where
  "readTopics a =
     (case a of
        ANull \<Rightarrow> Inr []
      | AList as \<Rightarrow> bindE (readEach (unmarshalBytes wordBytes) as) (\<lambda>read.
          if length read > maxTopics then Inl (TooManyTopics (length read)) else Inr read)
      | _ \<Rightarrow> Inl NotTheShape)"

section \<open>Accounts\<close>

text \<open>\<open>strings.ToUpper\<close> on ASCII.\<close>

definition upperChar :: "char \<Rightarrow> char" where
  "upperChar c = (if CHR ''a'' \<le> c \<and> c \<le> CHR ''z'' then char_of (of_char c - 32 :: nat) else c)"

definition textBytes :: "string \<Rightarrow> byte list" where
  "textBytes s = map of_char s"

definition raised :: "(byte list \<Rightarrow> byte list) \<Rightarrow> string \<Rightarrow> string" where
  "raised keccak lower =
     map2 (\<lambda>h c. if CHR ''8'' \<le> h \<and> CHR ''a'' \<le> c \<and> c \<le> CHR ''f'' then upperChar c else c)
       (hexEncode (keccak (textBytes lower))) lower"

definition parseAddress :: "(byte list \<Rightarrow> byte list) \<Rightarrow> string \<Rightarrow> (value_error, byte list) result" where
  "parseAddress keccak ref = bindE (decodeHex addressBytes ref) (\<lambda>a.
     let digits = drop 2 ref; lower = map lowerChar digits in
     if digits \<noteq> lower \<and> digits \<noteq> map upperChar digits \<and> digits \<noteq> raised keccak lower
     then Inl (NotRaised (cut ref)) else Inr a)"

definition Normalize :: "(byte list \<Rightarrow> byte list) \<Rightarrow> string \<Rightarrow> (value_error, string) result" where
  "Normalize keccak ref = bindE (parseAddress keccak ref) (\<lambda>a. Inr (hexString a))"

definition accountOf :: "byte list \<Rightarrow> (value_error, byte list) result" where
  "accountOf w =
     (if list_all (\<lambda>b. b = 0) (take (wordBytes - addressBytes) w) then Inr (drop (wordBytes - addressBytes) w)
      else Inl (NotAccount (cut (hexString w))))"

primrec readAddresses :: "(byte list \<Rightarrow> byte list) \<Rightarrow> string list \<Rightarrow> (value_error, byte list list) result" where
  "readAddresses keccak [] = Inr []"
| "readAddresses keccak (a # as) =
     bindE (parseAddress keccak a) (\<lambda>x. bindE (readAddresses keccak as) (\<lambda>xs. Inr (x # xs)))"

section \<open>Names and domains\<close>

definition maxName :: nat where "maxName = 256"
definition maxStringBytes :: nat where
  "maxStringBytes = 2 * wordBytes + (maxName + wordBytes - 1) div wordBytes * wordBytes"

definition bigEndian :: "byte list \<Rightarrow> nat" where
  "bigEndian bs = foldl (\<lambda>n b. 256 * n + unat b) 0 bs"

definition smallWord :: "byte list \<Rightarrow> nat option" where
  "smallWord w = (if list_all (\<lambda>b. b = 0) (take (wordBytes - 8) w) then Some (bigEndian (drop (wordBytes - 8) w)) else None)"

text \<open>\<open>utf8.ValidString\<close>.\<close>

function utf8Valid :: "nat list \<Rightarrow> bool" where
  "utf8Valid [] = True"
| "utf8Valid (b # bs) = (let (r, n) = decodeRune (b # bs) in \<not> (r = RuneError \<and> n = 1) \<and> utf8Valid (drop (n - 1) bs))"
  by pat_completeness auto
termination by (relation "measure length") auto

definition decodeString :: "provided \<Rightarrow> (value_error, string) result" where
  "decodeString raw = bindE (unquote raw) (\<lambda>text.
     case cutPrefix text of
       None \<Rightarrow> Inl (NoPrefix (cut text))
     | Some digits \<Rightarrow>
         if length digits > 2 * maxStringBytes then Inl (TooLongAName (length digits))
         else case hexDecode digits of
           None \<Rightarrow> Inl (NotHex (cut text))
         | Some payload \<Rightarrow>
             if length payload < 2 * wordBytes then Inl (NoString (length payload))
             else if smallWord (take wordBytes payload) \<noteq> Some wordBytes then Inl BadOffset
             else case smallWord (take wordBytes (drop wordBytes payload)) of
               None \<Rightarrow> Inl BadLength
             | Some n \<Rightarrow>
                 if n > maxName then Inl BadLength
                 else
                   let held = drop (2 * wordBytes) payload;
                       padded = (n + wordBytes - 1) div wordBytes * wordBytes;
                       name = map (\<lambda>b. char_of (unat b)) (take n held) in
                   if length held \<noteq> padded then Inl BadPadding
                   else if \<not> list_all (\<lambda>b. b = 0) (drop n held) then Inl BadPadding
                   else if \<not> utf8Valid (map unat (take n held)) then Inl NotUTF8
                   else if invisible_Has name then Inl NameInvisible
                   else Inr name)"

definition domainType :: string where
  "domainType = ''EIP712Domain(string name,string version,uint256 chainId,address verifyingContract)''"

definition bytesFrom :: "nat \<Rightarrow> nat \<Rightarrow> byte list" where
  "bytesFrom width n = map (\<lambda>i. word_of_nat (n div 256 ^ (width - 1 - i))) [0..<width]"

definition evm_Domain ::
  "(byte list \<Rightarrow> byte list) \<Rightarrow> string \<Rightarrow> string \<Rightarrow> uint64 \<Rightarrow> string \<Rightarrow> (value_error, byte list) result" where
  "evm_Domain keccak name version chainID contract = bindE (parseAddress keccak contract) (\<lambda>at.
     Inr (take 32 (keccak (keccak (textBytes domainType) @ keccak (textBytes name) @ keccak (textBytes version)
       @ replicate (wordBytes - 8) 0 @ bytesFrom 8 (unat chainID)
       @ replicate (wordBytes - addressBytes) 0 @ at))))"

section \<open>Hexadecimal both ways\<close>

lemma decodeHex_iff:
  "decodeHex width text = Inr bs \<longleftrightarrow>
     take 2 text = ''0x'' \<and> length bs = width \<and> map lowerChar (drop 2 text) = hexEncode bs \<and> list_all isHexDigit (drop 2 text)"
  (is "?l \<longleftrightarrow> ?r")
proof
  assume ?l
  then have t: "take 2 text = ''0x''" "length (drop 2 text) = 2 * width" "hexDecode (drop 2 text) = Some bs"
    by (auto simp: decodeHex_def cutPrefix_def split: if_splits option.splits)
  then show ?r using hexDecode_SomeD [OF t(3)] by auto
next
  assume r: ?r
  have len: "length (drop 2 text) = 2 * width"
    using r by (metis length_hexEncode length_map)
  then obtain bs' where b: "hexDecode (drop 2 text) = Some bs'"
    using r hexDecode_total [of "drop 2 text"] by auto
  then have "hexEncode bs' = hexEncode bs" using hexDecode_SomeD [OF b] r by simp
  then have "bs' = bs" by (metis hexDecode_hexEncode option.inject)
  then show ?l using r len b by (simp add: decodeHex_def cutPrefix_def)
qed

lemma decodeHex_hexString [simp]: "length bs = width \<Longrightarrow> decodeHex width (hexString bs) = Inr bs"
  by (simp add: decodeHex_iff hexString_def)

lemma drop_hexString [simp]: "drop 2 (hexString bs) = hexEncode bs" by (simp add: hexString_def)

section \<open>Quantities both ways\<close>

lemma formatHex_spec:
  "hexNat (formatHex n) = n \<and> list_all isHexDigit (formatHex n) \<and> formatHex n \<noteq> [] \<and> (hd (formatHex n) = CHR ''0'' \<longrightarrow> n = 0)"
proof (induction n rule: formatHex.induct)
  case (1 n)
  have zero: "d < 16 \<Longrightarrow> hexDigit d = CHR ''0'' \<Longrightarrow> d = 0" for d
    using hexVal_hexDigit [of d] by (simp add: hexVal_def lowerChar_def isDigit_iff less_eq_char_def)
  show ?case
  proof (cases "n < 16")
    case True
    then show ?thesis
      using zero [of n] by (simp add: formatHex.simps [of n] hexNat_def hexVal_hexDigit isHexDigit_hexDigit)
  next
    case False
    then have "n div 16 \<noteq> 0" by simp
    then show ?thesis
      using 1 False by (simp add: formatHex.simps [of n] hexNat_def hexVal_hexDigit isHexDigit_hexDigit)
  qed
qed

lemma formatHex_zero: "formatHex 0 = ''0''" by (simp add: formatHex.simps hexDigit_def char_of_eq_iff)

lemma readQuantity_quantityString: "readQuantity (AText (quantityString q)) = Inr q"
  using formatHex_spec [of "unat q"] unsigned_less [of q] formatHex_zero
  by (auto simp: readQuantity_def unquote_def cutPrefix_def quantityString_def)

lemma lower_zero:
  assumes "isHexDigit c" "lowerChar c = CHR ''0''"
  shows "c = CHR ''0''"
  using hexDigit_cases [OF assms(1)] assms(2) by (auto simp: lowerChar_def less_eq_char_def char_of_eq_iff)

lemma readQuantity_canonical:
  assumes "readQuantity (AText t) = Inr q"
  shows "quantityString q = map lowerChar t"
proof -
  have digit: "formatHex (hexNat s) = map lowerChar s"
    if "list_all isHexDigit s" "s \<noteq> []" "length s > 1 \<longrightarrow> hd s \<noteq> CHR ''0''" for s
    using that
  proof (induction s rule: rev_induct)
    case (snoc c s)
    have c: "hexVal c < 16" "hexDigit (hexVal c) = lowerChar c" using snoc.prems hexVal_isHexDigit by auto
    show ?case
    proof (cases "s = []")
      case True
      then show ?thesis using c by (simp add: hexNat_def formatHex.simps)
    next
      case False
      then have s: "formatHex (hexNat s) = map lowerChar s" using snoc by (cases s) auto
      have "hexNat s \<noteq> 0"
      proof
        assume "hexNat s = 0"
        then have "formatHex 0 = map lowerChar s" using s by simp
        then have "map lowerChar s = ''0''" by (simp add: formatHex_zero)
        then have "s = ''0''"
          using snoc.prems(1) lower_zero by (cases s) auto
        then show False using snoc.prems(3) False by simp
      qed
      then have "\<not> 16 * hexNat s + hexVal c < 16" by simp
      then show ?thesis
        using s c by (simp add: hexNat_def formatHex.simps [of "16 * foldl (\<lambda>n c. 16 * n + hexVal c) 0 s + hexVal c"])
    qed
  qed simp
  have t: "take 2 t = ''0x''"
    using assms by (auto simp: readQuantity_def unquote_def cutPrefix_def split: if_splits option.splits)
  define digits where "digits = drop 2 t"
  have d: "t = ''0x'' @ digits" using append_take_drop_id [of 2 t] t by (simp add: digits_def)
  have ds: "digits \<noteq> []" "length digits > 1 \<longrightarrow> hd digits \<noteq> CHR ''0''" "list_all isHexDigit digits" "hexNat digits < 2 ^ 64"
      "q = word_of_nat (hexNat digits)"
    using assms t by (auto simp: readQuantity_def unquote_def cutPrefix_def digits_def [symmetric] split: if_splits)
  have "unat q = hexNat digits" using ds(4,5) by (simp add: unat_of_nat take_bit_nat_eq_self)
  then show ?thesis using digit [OF ds(3,1,2)] d by (simp add: quantityString_def lowerChar_def less_eq_char_def)
qed

section \<open>The one way an account is written\<close>

lemma upper_hex_all:
  "list_all (\<lambda>c. lowerChar (upperChar c) = lowerChar c \<and> isHexDigit (upperChar c) \<and> upperChar (lowerChar c) = upperChar c
     \<and> isHexDigit (lowerChar c) \<and> lowerChar (lowerChar c) = lowerChar c \<and> upperChar (upperChar c) = upperChar c)
     ''0123456789abcdefABCDEF''"
  by code_simp

lemma upper_hex:
  assumes "isHexDigit c"
  shows "lowerChar (upperChar c) = lowerChar c" "isHexDigit (upperChar c)" "upperChar (lowerChar c) = upperChar c"
    "isHexDigit (lowerChar c)" "lowerChar (lowerChar c) = lowerChar c" "upperChar (upperChar c) = upperChar c"
  using upper_hex_all hexDigit_cases [OF assms] unfolding list_all_iff by blast+

lemma upper_hexes:
  assumes "list_all isHexDigit s"
  shows "map lowerChar (map upperChar s) = map lowerChar s" "list_all isHexDigit (map upperChar s)"
    "map upperChar (map lowerChar s) = map upperChar s" "map upperChar (map upperChar s) = map upperChar s"
  using assms by (auto simp: list_all_iff upper_hex)

lemma raised_lower:
  assumes "list_all isHexDigit s" "map lowerChar s = s" "length (raised keccak s) = length s"
  shows "map lowerChar (raised keccak s) = s" "list_all isHexDigit (raised keccak s)"
proof -
  let ?hs = "hexEncode (keccak (textBytes s))"
  have n: "length s \<le> length ?hs" using assms(3) by (simp add: raised_def)
  have c: "isHexDigit (s ! i)" "lowerChar (s ! i) = s ! i" if "i < length s" for i
    using assms(1,2) that by (auto simp: list_all_length) (metis nth_map)
  show "map lowerChar (raised keccak s) = s"
    using n c by (intro nth_equalityI) (auto simp: raised_def upper_hex)
  show "list_all isHexDigit (raised keccak s)"
    using n c by (auto simp: list_all_length raised_def upper_hex)
qed

text \<open>
  C38: an account is written one way: whatever \<open>Normalize\<close> takes spells twenty bytes in lower case, in upper
  case, or raised where the hash of its digits says, and what it gives is the lower-case spelling of those
  bytes.
\<close>

theorem normalize_spells:
  "Normalize keccak s = Inr t \<longleftrightarrow>
     (\<exists>a. length a = addressBytes \<and> t = hexString a \<and> length s = 2 + 2 * addressBytes
        \<and> s \<in> {hexString a, ''0x'' @ map upperChar (hexEncode a), ''0x'' @ raised keccak (hexEncode a)})"
  (is "?l \<longleftrightarrow> ?r")
proof
  assume ?l
  then obtain a where a: "decodeHex addressBytes s = Inr a" "t = hexString a"
      "drop 2 s = map lowerChar (drop 2 s) \<or> drop 2 s = map upperChar (drop 2 s) \<or> drop 2 s = raised keccak (map lowerChar (drop 2 s))"
    by (auto simp: Normalize_def parseAddress_def Let_def res_simps split: if_splits)
  then have d: "take 2 s = ''0x''" "length a = addressBytes" "map lowerChar (drop 2 s) = hexEncode a" "list_all isHexDigit (drop 2 s)"
    by (simp_all add: decodeHex_iff)
  have s: "s = ''0x'' @ drop 2 s" using append_take_drop_id [of 2 s] d(1) by simp
  have "length (drop 2 s) = 2 * addressBytes" using d(2,3) by (metis length_hexEncode length_map)
  then have len: "length s = 2 + 2 * addressBytes" by (subst s) simp
  have "map upperChar (drop 2 s) = map upperChar (hexEncode a)" using upper_hexes(3) [OF d(4)] d(3) by simp
  then have "drop 2 s = hexEncode a \<or> drop 2 s = map upperChar (hexEncode a) \<or> drop 2 s = raised keccak (hexEncode a)"
    using a(3) d(3) by auto
  then have "s \<in> {hexString a, ''0x'' @ map upperChar (hexEncode a), ''0x'' @ raised keccak (hexEncode a)}"
    using s by (auto simp: hexString_def)
  then show ?r using a(2) d(2) len by blast
next
  assume ?r
  then obtain a where a: "length a = addressBytes" "t = hexString a" "length s = 2 + 2 * addressBytes"
      "s \<in> {hexString a, ''0x'' @ map upperChar (hexEncode a), ''0x'' @ raised keccak (hexEncode a)}" by blast
  have r: "length (raised keccak (hexEncode a)) = length (hexEncode a)" if "s = ''0x'' @ raised keccak (hexEncode a)"
    using that a(1,3) by simp
  have low: "map lowerChar (drop 2 s) = hexEncode a" "list_all isHexDigit (drop 2 s)" "take 2 s = ''0x''"
    using a(4) upper_hexes [of "hexEncode a"] raised_lower [of "hexEncode a" keccak] r by (auto simp: hexString_def)
  have "decodeHex addressBytes s = Inr a" using low a(1) by (simp add: decodeHex_iff)
  moreover have "drop 2 s = hexEncode a \<or> drop 2 s = map upperChar (drop 2 s) \<or> drop 2 s = raised keccak (hexEncode a)"
    using a(4) upper_hexes(4) [of "hexEncode a"] by (auto simp: hexString_def)
  ultimately show ?l using low(1) a(2) by (auto simp: Normalize_def parseAddress_def Let_def)
qed

section \<open>The name a contract answers\<close>

text \<open>One string as a contract encodes it: where it begins, how long it is, and its bytes padded to whole words.\<close>

definition abiString :: "byte list \<Rightarrow> byte list" where
  "abiString bs = bytesFrom wordBytes wordBytes @ bytesFrom wordBytes (length bs)
     @ bs @ replicate ((length bs + wordBytes - 1) div wordBytes * wordBytes - length bs) 0"

definition nameText :: "byte list \<Rightarrow> string" where
  "nameText bs = map (\<lambda>b. char_of (unat b)) bs"

lemma bigEndian_append: "bigEndian (bs @ [b]) = 256 * bigEndian bs + unat b"
  by (simp add: bigEndian_def)

lemma bigEndian_bound: "bigEndian bs < 256 ^ length bs"
proof (induction bs rule: rev_induct)
  case (snoc b bs)
  have "unat b < 256" using unsigned_less [of b] by simp
  then show ?case using snoc by (simp add: bigEndian_append)
qed (simp add: bigEndian_def)

lemma bytesFrom_Suc: "bytesFrom (Suc w) n = bytesFrom w (n div 256) @ [word_of_nat n]"
proof -
  have "n div 256 ^ (w - i) = n div 256 div 256 ^ (w - 1 - i)" if "i < w" for i
  proof -
    have "w - i = Suc (w - 1 - i)" using that by simp
    then show ?thesis by (simp add: div_mult2_eq)
  qed
  then show ?thesis by (simp add: bytesFrom_def)
qed

lemma bytesFrom_bigEndian: "bytesFrom (length bs) (bigEndian bs) = bs"
proof (induction bs rule: rev_induct)
  case (snoc b bs)
  have b: "unat b < 256" using unsigned_less [of b] by simp
  have "word_of_nat (256 * bigEndian bs + unat b) = b"
  proof -
    have "(of_nat (256 * bigEndian bs + unat b) :: byte) = of_nat 256 * of_nat (bigEndian bs) + b" by simp
    also have "(of_nat 256 :: byte) = 0" by simp
    finally show ?thesis by simp
  qed
  then show ?case using snoc b by (simp add: bytesFrom_Suc bigEndian_append)
qed (simp add: bytesFrom_def)

lemma bigEndian_bytesFrom: "n < 256 ^ w \<Longrightarrow> bigEndian (bytesFrom w n) = n"
proof (induction w arbitrary: n)
  case (Suc w)
  have "n div 256 < 256 ^ w" using Suc.prems by (simp add: less_mult_imp_div_less)
  moreover have "unat (word_of_nat n :: byte) = n mod 256" by (simp add: unat_of_nat take_bit_eq_mod)
  ultimately show ?case using Suc.IH by (simp add: bytesFrom_Suc bigEndian_append)
qed (simp add: bytesFrom_def bigEndian_def)

lemma length_bytesFrom [simp]: "length (bytesFrom w n) = w" by (simp add: bytesFrom_def)

lemma bigEndian_zeros: "bigEndian (replicate k 0 @ bs) = bigEndian bs"
  by (induction k) (simp_all add: bigEndian_def)

lemma smallWord_iff:
  assumes "length w = wordBytes"
  shows "smallWord w = Some n \<longleftrightarrow> w = bytesFrom wordBytes n \<and> n < 256 ^ 8"
proof
  assume "smallWord w = Some n"
  then have z: "list_all (\<lambda>b. b = 0) (take 24 w)" and n: "n = bigEndian (drop 24 w)"
    by (auto simp: smallWord_def wordBytes_def split: if_splits)
  have "take 24 w = replicate 24 0"
    using z assms by (intro replicate_eqI) (auto simp: list_all_iff wordBytes_def)
  then have w: "w = replicate 24 0 @ drop 24 w" by (metis append_take_drop_id)
  have "bigEndian w = n" unfolding n by (subst w) (rule bigEndian_zeros)
  moreover have "n < 256 ^ 8" using bigEndian_bound [of "drop 24 w"] assms n by (simp add: wordBytes_def)
  ultimately show "w = bytesFrom wordBytes n \<and> n < 256 ^ 8" using bytesFrom_bigEndian [of w] assms by simp
next
  assume w: "w = bytesFrom wordBytes n \<and> n < 256 ^ 8"
  have "n div 256 ^ (31 - i) = 0" if "i < 24" for i
  proof -
    have "(256::nat) ^ 8 \<le> 256 ^ (31 - i)" using that by (intro power_increasing) simp_all
    then show ?thesis using w by simp
  qed
  then have z: "take 24 w = replicate 24 0"
    using w by (intro nth_equalityI) (auto simp: bytesFrom_def wordBytes_def)
  then have "w = replicate 24 0 @ drop 24 w" by (metis append_take_drop_id)
  then have "bigEndian (drop 24 w) = bigEndian w" by (metis bigEndian_zeros)
  moreover have "n < 256 ^ wordBytes"
    using w power_increasing [of 8 32 "256 :: nat"] unfolding wordBytes_def by linarith
  then have "bigEndian w = n" using w by (simp add: bigEndian_bytesFrom)
  ultimately show "smallWord w = Some n" using z by (simp add: smallWord_def wordBytes_def list_all_iff)
qed

lemma padded_bounds:
  "n \<le> (n + wordBytes - 1) div wordBytes * wordBytes"
  "n \<le> maxName \<Longrightarrow> (n + wordBytes - 1) div wordBytes * wordBytes \<le> maxName"
  by (simp_all add: wordBytes_def maxName_def)

lemma abiString_parts:
  "take wordBytes (abiString bs) = bytesFrom wordBytes wordBytes"
  "take wordBytes (drop wordBytes (abiString bs)) = bytesFrom wordBytes (length bs)"
  "drop (2 * wordBytes) (abiString bs) = bs @ replicate ((length bs + wordBytes - 1) div wordBytes * wordBytes - length bs) 0"
  "length (abiString bs) = 2 * wordBytes + (length bs + wordBytes - 1) div wordBytes * wordBytes"
  using padded_bounds(1) [of "length bs"] by (simp_all add: abiString_def mult_2)

lemma abiString_of:
  assumes "2 * wordBytes \<le> length p" "take wordBytes p = bytesFrom wordBytes wordBytes"
    and "take wordBytes (drop wordBytes p) = bytesFrom wordBytes n"
    and "length (drop (2 * wordBytes) p) = (n + wordBytes - 1) div wordBytes * wordBytes"
    and "list_all (\<lambda>b. b = 0) (drop n (drop (2 * wordBytes) p))"
  shows "p = abiString (take n (drop (2 * wordBytes) p))"
proof -
  let ?h = "drop (2 * wordBytes) p"
  have n: "length (take n ?h) = n" using assms(4) padded_bounds(1) [of n] by simp
  have "drop n ?h = replicate (length (drop n ?h)) 0" using assms(5) by (intro replicate_eqI) (auto simp: list_all_iff)
  then have h: "?h = take n ?h @ replicate ((n + wordBytes - 1) div wordBytes * wordBytes - n) 0"
    using assms(4) append_take_drop_id [of n ?h] by (metis length_drop)
  have "p = take wordBytes p @ take wordBytes (drop wordBytes p) @ ?h"
    by (metis append_take_drop_id drop_drop mult_2)
  then show ?thesis unfolding abiString_def n using assms(2,3) h by metis
qed

text \<open>
  C39: the name a contract answers is read exactly where it is one string encoded the one way a contract
  encodes it, of at most 256 bytes, in UTF-8 with every character shown; and it is that string.
\<close>

theorem name_read_exactly:
  "decodeString (AText t) = Inr name \<longleftrightarrow>
     (\<exists>bs. name = nameText bs \<and> length bs \<le> maxName \<and> utf8Valid (map unat bs) \<and> \<not> invisible_Has name
        \<and> take 2 t = ''0x'' \<and> list_all isHexDigit (drop 2 t) \<and> map lowerChar (drop 2 t) = hexEncode (abiString bs))"
  (is "?l \<longleftrightarrow> ?r")
proof
  assume l: ?l
  then obtain p where t: "take 2 t = ''0x''" and p: "hexDecode (drop 2 t) = Some p"
    by (auto simp: decodeString_def unquote_def cutPrefix_def split: if_splits option.splits)
  let ?h = "drop (2 * wordBytes) p"
  from l t p obtain n where n: "\<not> length p < 2 * wordBytes" "smallWord (take wordBytes p) = Some wordBytes"
      "smallWord (take wordBytes (drop wordBytes p)) = Some n" "\<not> n > maxName"
      "length ?h = (n + wordBytes - 1) div wordBytes * wordBytes" "list_all (\<lambda>b. b = 0) (drop n ?h)"
      "utf8Valid (map unat (take n ?h))" "\<not> invisible_Has (nameText (take n ?h))" "name = nameText (take n ?h)"
    by (auto simp: decodeString_def unquote_def cutPrefix_def Let_def nameText_def split: if_splits option.splits)
  have words: "take wordBytes p = bytesFrom wordBytes wordBytes" "take wordBytes (drop wordBytes p) = bytesFrom wordBytes n"
    using n(1-3) smallWord_iff [of "take wordBytes p"] smallWord_iff [of "take wordBytes (drop wordBytes p)"] by auto
  have "p = abiString (take n ?h)" using n(1,5,6) words by (intro abiString_of) auto
  moreover have "hexEncode p = map lowerChar (drop 2 t)" "list_all isHexDigit (drop 2 t)" using hexDecode_SomeD [OF p] by simp_all
  moreover have "length (take n ?h) \<le> maxName" using n(4) by simp
  ultimately show ?r using t n(7-9) by metis
next
  assume ?r
  then obtain bs where bs: "name = nameText bs" "length bs \<le> maxName" "utf8Valid (map unat bs)" "\<not> invisible_Has name"
      "take 2 t = ''0x''" "list_all isHexDigit (drop 2 t)" "map lowerChar (drop 2 t) = hexEncode (abiString bs)" by blast
  have len: "length (drop 2 t) = 2 * length (abiString bs)" using bs(7) by (metis length_hexEncode length_map)
  then obtain p where p: "hexDecode (drop 2 t) = Some p" using hexDecode_total [of "drop 2 t"] bs(6) by auto
  have "hexEncode p = hexEncode (abiString bs)" using hexDecode_SomeD [OF p] bs(7) by simp
  then have abi: "p = abiString bs" by (metis hexDecode_hexEncode option.inject)
  have small: "smallWord (bytesFrom wordBytes n) = Some n" if "n < 256 ^ 8" for n
    using that by (simp add: smallWord_iff)
  have "length (abiString bs) \<le> maxStringBytes" "wordBytes < 256 ^ 8" "length bs < 256 ^ 8"
    using padded_bounds(2) [OF bs(2)] bs(2) abiString_parts(4) [of bs] by (simp_all add: maxStringBytes_def wordBytes_def maxName_def)
  then show ?l
    using bs len p small padded_bounds(1) [of "length bs"]
    by (simp add: decodeString_def unquote_def cutPrefix_def abi abiString_parts Let_def nameText_def list_all_iff)
qed

end
