(* ===== verification/Evm_Rpc.thy ===== *)
theory Evm_Rpc
  imports Evm_Values Chain Destination
begin

text \<open>
  Package evm, rpc.go: the client of one endpoint. What comes back from the transport is an argument: an
  error, or a status, the Retry-After header, how long the body is once it is decompressed, and what
  \<open>encoding/json\<close> reads in it. The words of an error are not modelled, and so neither is the hiding of the
  endpoint in them.
\<close>

section \<open>Opening\<close>

datatype open_error = EndpointNotAURL | WantHTTPS | NamesNoHost

definition evm_onThisMachine :: "(string \<Rightarrow> addr option) \<Rightarrow> string \<Rightarrow> bool" where
  "evm_onThisMachine parseAddr host =
     (host = ''localhost'' \<or> (case parseAddr host of None \<Rightarrow> False | Some ip \<Rightarrow> IsLoopback ip))"

definition newClient ::
  "(string \<Rightarrow> url option) \<Rightarrow> (string \<Rightarrow> addr option) \<Rightarrow> string \<Rightarrow> (open_error, string) result" where
  "newClient parseURL parseAddr endpoint =
     (case parseURL endpoint of
        None \<Rightarrow> Inl EndpointNotAURL
      | Some u \<Rightarrow>
          if ur_scheme u = ''https'' \<or> ur_scheme u = ''http'' \<and> evm_onThisMachine parseAddr (ur_hostname u)
          then if ur_hostname u = [] then Inl NamesNoHost else Inr endpoint
          else Inl WantHTTPS)"

section \<open>Calls\<close>

record http_answer =
  ha_status :: int
  ha_retryAfter :: string
  ha_length :: nat
  ha_body :: "provided option"

datatype exchange = NoExchange | Exchanged http_answer

text \<open>A transport takes the method and the parameters of a request.\<close>

type_synonym transport = "string \<Rightarrow> provided list \<Rightarrow> exchange"

record rpc_error =
  er_code :: int
  er_message :: string
  er_data :: "provided option"

datatype fault = FaultLimited duration | FaultReverted | FaultTooWide | FaultFailed

definition maxBody :: nat where "maxBody = 8 * 2 ^ 20"
definition maxItems :: nat where "maxItems = 10000"
definition maxWait :: int where "maxWait = (2 ^ 63 - 1) div Second"

definition seconds :: "string \<Rightarrow> duration" where
  "seconds header =
     (case Atoi header of
        None \<Rightarrow> 0
      | Some wait \<Rightarrow> if wait < 0 \<or> wait > maxWait then 0 else wait * Second)"

definition tooWide :: "rpc_error option \<Rightarrow> bool" where
  "tooWide e = (case e of None \<Rightarrow> False | Some e \<Rightarrow> er_code e = -32701 \<or> er_code e = -32602)"

definition bare :: "rpc_error \<Rightarrow> bool" where
  "bare e = (case er_data e of None \<Rightarrow> True | Some a \<Rightarrow> a \<in> {ANull, AText [], AText ''0x''})"

text \<open>\<open>strings.TrimSpace\<close>, over the runes of a text.\<close>

definition spaceRune :: "nat \<Rightarrow> bool" where
  "spaceRune r =
     (9 \<le> r \<and> r \<le> 13 \<or> r = 0x20 \<or> r = 0x85 \<or> r = 0xA0 \<or> r = 0x1680 \<or> 0x2000 \<le> r \<and> r \<le> 0x200a
      \<or> r = 0x2028 \<or> r = 0x2029 \<or> r = 0x202f \<or> r = 0x205f \<or> r = 0x3000)"

definition trimmed :: "string \<Rightarrow> nat list" where
  "trimmed s = rev (dropWhile spaceRune (rev (dropWhile spaceRune (runes (bytesOf s)))))"

definition reverted :: "rpc_error option \<Rightarrow> bool" where
  "reverted e = (case e of None \<Rightarrow> False | Some e \<Rightarrow> trimmed (er_message e) = bytesOf ''execution reverted'' \<and> bare e)"

definition refused :: "string \<Rightarrow> int \<Rightarrow> string \<Rightarrow> rpc_error option \<Rightarrow> fault" where
  "refused meth status retryAfter e =
     (if status = 429 then FaultLimited (seconds retryAfter)
      else if meth = ''eth_call'' \<and> reverted e then FaultReverted
      else if meth \<noteq> ''eth_call'' \<and> (status = 400 \<or> tooWide e) then FaultTooWide
      else FaultFailed)"

definition counted :: "provided \<Rightarrow> fault option" where
  "counted a = (case a of AList items \<Rightarrow> if length items > maxItems then Some FaultTooWide else None | _ \<Rightarrow> None)"

text \<open>The error of the envelope: none where there is none or null, and the fields that read otherwise.\<close>

definition readError :: "(string \<times> provided) list \<Rightarrow> rpc_error option" where
  "readError kvs =
     (case answerField ''error'' kvs of
        None \<Rightarrow> None
      | Some ANull \<Rightarrow> None
      | Some (AObj e) \<Rightarrow> Some
          \<lparr>er_code = (case answerField ''code'' e of Some (ANum (Some n)) \<Rightarrow> n | _ \<Rightarrow> 0),
           er_message = (case answerField ''message'' e of Some (AText s) \<Rightarrow> s | _ \<Rightarrow> []),
           er_data = answerField ''data'' e\<rparr>
      | Some _ \<Rightarrow> Some \<lparr>er_code = 0, er_message = [], er_data = None\<rparr>)"

definition answered :: "string \<Rightarrow> http_answer \<Rightarrow> (fault, provided) result" where
  "answered meth h =
     (let members = (case ha_body h of Some (AObj kvs) \<Rightarrow> kvs | _ \<Rightarrow> []); raised = readError members in
      if ha_status h \<noteq> 200 \<or> raised \<noteq> None then Inl (refused meth (ha_status h) (ha_retryAfter h) raised)
      else case ha_body h of
        Some (AObj _) \<Rightarrow>
          (case answerField ''result'' members of
             None \<Rightarrow> Inl FaultFailed
           | Some a \<Rightarrow> (case counted a of Some e \<Rightarrow> Inl e | None \<Rightarrow> Inr a))
      | _ \<Rightarrow> Inl FaultFailed)"

definition rpc_call :: "transport \<Rightarrow> string \<Rightarrow> provided list \<Rightarrow> (fault, provided) result" where
  "rpc_call ask meth params =
     (case ask meth params of
        NoExchange \<Rightarrow> Inl FaultFailed
      | Exchanged h \<Rightarrow> if ha_length h > maxBody then Inl FaultFailed else answered meth h)"

text \<open>What a caller that asks with \<open>errors.Is\<close> and \<open>errors.As\<close> reads in a fault.\<close>

definition faultOf :: "string \<Rightarrow> fault \<Rightarrow> chain_error" where
  "faultOf meth f =
     (case f of FaultLimited d \<Rightarrow> RateLimited d | FaultTooWide \<Rightarrow> ErrTooWide | FaultReverted \<Rightarrow> CallFailed meth | FaultFailed \<Rightarrow> CallFailed meth)"

text \<open>A call and the reading of what it answered.\<close>

definition evm_call :: "transport \<Rightarrow> string \<Rightarrow> provided list \<Rightarrow> (provided \<Rightarrow> (value_error, 'a) result) \<Rightarrow> (chain_error, 'a) result" where
  "evm_call ask meth params reading =
     bindE (mapErr (faultOf meth) (rpc_call ask meth params)) (\<lambda>a. mapErr (\<lambda>_. CallFailed meth) (reading a))"

section \<open>What a wait can be\<close>

lemma seconds_bounds: "0 \<le> seconds header \<and> seconds header < 2 ^ 63"
  by (auto simp: seconds_def maxWait_def split: option.split)

lemma rpc_limited: "evm_call ask meth params reading = Inl (RateLimited d) \<Longrightarrow> 0 \<le> d \<and> d < 2 ^ 63"
  using seconds_bounds
  by (auto simp: evm_call_def rpc_call_def answered_def refused_def counted_def faultOf_def res_simps Let_def
      split: exchange.splits if_splits option.splits provided.splits fault.splits)

end
