(* ===== verification/Simulated.thy ===== *)
theory Simulated
  imports Chain GoText
begin

text \<open>
  Package simulated, simulated.go: a chain inside the process. What a test does to it and what a reader asks
  of it are functions of its state; a call that panics gives none.
\<close>

section \<open>State\<close>

record failure =
  fl_method :: string
  fl_at :: nat
  fl_err :: "chain_error option"

record sim_block =
  sb_block :: block
  sb_transfers :: "chain_transfer list"
  sb_changed :: "string list"

record sim =
  sm_blocks :: "sim_block list"
  sm_staged :: "chain_transfer list"
  sm_changing :: "string list"
  sm_final :: nat
  sm_made :: nat
  sm_sent :: nat
  sm_pending :: failure
  sm_calls :: "string \<Rightarrow> nat"
  sm_paused :: "string set"
  sm_blocklisted :: "(string \<times> string) set"

definition origin :: gotime where "origin = (62135596800 + 1767225600) * Second"

definition noFailure :: failure where
  "noFailure = \<lparr>fl_method = [], fl_at = 0, fl_err = None\<rparr>"

definition mined :: "chain_transfer list \<Rightarrow> sim \<Rightarrow> sim" where
  "mined ts s =
     (let n = sm_made s + 1; h = length (sm_blocks s);
          b = \<lparr>bl_height = word_of_nat h, bl_hash = ''block'' @ dec n,
               bl_parent = (if h > 0 then bl_hash (sb_block (sm_blocks s ! (h - 1))) else []),
               bl_time = origin + int n * Second\<rparr> in
      s\<lparr>sm_made := n, sm_changing := [],
        sm_blocks := sm_blocks s @ [\<lparr>sb_block = b, sb_transfers = map (\<lambda>t. t\<lparr>ct_block := b\<rparr>) ts, sb_changed = sm_changing s\<rparr>]\<rparr>)"

definition newSim :: sim where
  "newSim = mined [] \<lparr>sm_blocks = [], sm_staged = [], sm_changing = [], sm_final = 0, sm_made = 0, sm_sent = 0,
     sm_pending = noFailure, sm_calls = (\<lambda>_. 0), sm_paused = {}, sm_blocklisted = {}\<rparr>"

section \<open>What a test does to it\<close>

definition Mine :: "sim \<Rightarrow> nat \<times> sim" where
  "Mine s = (length (sm_blocks s), mined (sm_staged s) (s\<lparr>sm_staged := []\<rparr>))"

definition SendTransfer :: "chain_transfer \<Rightarrow> sim \<Rightarrow> sim" where
  "SendTransfer t s =
     s\<lparr>sm_sent := sm_sent s + 1,
       sm_staged := sm_staged s @ [t\<lparr>ct_tx := ''tx'' @ dec (sm_sent s + 1), ct_position := 0\<rparr>]\<rparr>"

definition Upgrade :: "string \<Rightarrow> sim \<Rightarrow> sim" where
  "Upgrade asset s = s\<lparr>sm_changing := sm_changing s @ [asset]\<rparr>"

definition sim_Pause :: "string \<Rightarrow> sim \<Rightarrow> sim" where
  "sim_Pause asset s = s\<lparr>sm_paused := insert asset (sm_paused s)\<rparr>"

definition sim_Unpause :: "string \<Rightarrow> sim \<Rightarrow> sim" where
  "sim_Unpause asset s = s\<lparr>sm_paused := sm_paused s - {asset}\<rparr>"

definition sim_Blocklist :: "string \<Rightarrow> string \<Rightarrow> sim \<Rightarrow> sim" where
  "sim_Blocklist asset account s = s\<lparr>sm_blocklisted := insert (asset, account) (sm_blocklisted s)\<rparr>"

definition Finalize :: "nat \<Rightarrow> sim \<Rightarrow> sim option" where
  "Finalize h s = (if h \<ge> length (sm_blocks s) \<or> h < sm_final s then None else Some (s\<lparr>sm_final := h\<rparr>))"

definition keptFrom :: "string list \<Rightarrow> sim_block list \<Rightarrow> chain_transfer list" where
  "keptFrom keep bs = concat (map (\<lambda>b. filter (\<lambda>t. ct_tx t \<in> set keep) (sb_transfers b)) bs)"

definition Reorg :: "nat \<Rightarrow> string list \<Rightarrow> sim \<Rightarrow> sim option" where
  "Reorg from keep s =
     (if from \<ge> length (sm_blocks s) \<or> from \<le> sm_final s then None
      else let kept = keptFrom keep (drop from (sm_blocks s)) in
        if length kept \<noteq> length keep then None
        else Some (mined kept (s\<lparr>sm_blocks := take from (sm_blocks s)\<rparr>)))"

definition sim_Fail :: "chain_error \<Rightarrow> sim \<Rightarrow> sim" where
  "sim_Fail e s = s\<lparr>sm_pending := \<lparr>fl_method = [], fl_at = 0, fl_err = Some e\<rparr>\<rparr>"

definition sim_FailAt :: "string \<Rightarrow> nat \<Rightarrow> chain_error \<Rightarrow> sim \<Rightarrow> sim" where
  "sim_FailAt meth nth' e s = s\<lparr>sm_pending := \<lparr>fl_method = meth, fl_at = sm_calls s meth + nth', fl_err = Some e\<rparr>\<rparr>"

section \<open>What a reader asks\<close>

definition enter :: "string \<Rightarrow> sim \<Rightarrow> chain_error option \<times> sim" where
  "enter meth s =
     (let s' = s\<lparr>sm_calls := (sm_calls s)(meth := sm_calls s meth + 1)\<rparr>; p = sm_pending s in
      if fl_err p = None then (None, s')
      else if fl_method p \<noteq> [] \<and> (fl_method p \<noteq> meth \<or> sm_calls s' meth \<noteq> fl_at p) then (None, s')
      else (fl_err p, s'\<lparr>sm_pending := noFailure\<rparr>))"

definition entering :: "string \<Rightarrow> (sim \<Rightarrow> (chain_error, 'a) result) \<Rightarrow> sim \<Rightarrow> (chain_error, 'a) result \<times> sim" where
  "entering meth f s = (case enter meth s of (Some e, s') \<Rightarrow> (Inl e, s') | (None, s') \<Rightarrow> (f s', s'))"

definition sim_Identity :: "sim \<Rightarrow> (chain_error, string) result \<times> sim" where
  "sim_Identity = entering ''Identity'' (\<lambda>s. Inr ''simulated'')"

definition sim_Head :: "sim \<Rightarrow> (chain_error, head) result \<times> sim" where
  "sim_Head = entering ''Head'' (\<lambda>s. Inr \<lparr>hd_latest = sb_block (sm_blocks s ! (length (sm_blocks s) - 1)),
     hd_final = sb_block (sm_blocks s ! sm_final s)\<rparr>)"

definition sim_Block :: "uint64 \<Rightarrow> sim \<Rightarrow> (chain_error, block) result \<times> sim" where
  "sim_Block height = entering ''Block'' (\<lambda>s.
     if unat height \<ge> length (sm_blocks s) then Inl (CallFailed ''Block'') else Inr (sb_block (sm_blocks s ! unat height)))"

definition sim_scan :: "string list \<Rightarrow> sim_block list \<Rightarrow> scan" where
  "sim_scan assets bs = \<lparr>
     sc_consumed = concat (map (\<lambda>b. map (\<lambda>t. \<lparr>con_key = ct_key t, con_tx = ct_tx t\<rparr>)
        (filter (\<lambda>t. ct_asset t \<in> set assets) (sb_transfers b))) bs),
     sc_changed = foldl (\<lambda>seen a. if a \<in> set assets \<and> a \<notin> set seen then seen @ [a] else seen) [] (concat (map sb_changed bs))\<rparr>"

definition sim_Keys :: "uint64 \<Rightarrow> uint64 \<Rightarrow> string list \<Rightarrow> sim \<Rightarrow> (chain_error, scan) result \<times> sim" where
  "sim_Keys lo hi assets = entering ''Keys'' (\<lambda>s. Inr (sim_scan assets (drop (unat lo) (take (unat hi + 1) (sm_blocks s)))))"

definition sim_Receipt :: "string \<Rightarrow> sim \<Rightarrow> (chain_error, chain_transfer list) result \<times> sim" where
  "sim_Receipt tx = entering ''Receipt'' (\<lambda>s.
     case filter (\<lambda>ts. ts \<noteq> []) (map (\<lambda>b. filter (\<lambda>t. ct_tx t = tx) (sb_transfers b)) (sm_blocks s)) of
       [] \<Rightarrow> Inl ErrNoTransaction
     | ts # _ \<Rightarrow> Inr ts)"

definition sim_Name :: "string \<Rightarrow> sim \<Rightarrow> (chain_error, string) result \<times> sim" where
  "sim_Name asset = entering ''Name'' (\<lambda>s. Inr asset)"

definition sim_DomainSeparator :: "string \<Rightarrow> sim \<Rightarrow> (chain_error, byte list) result \<times> sim" where
  "sim_DomainSeparator asset = entering ''DomainSeparator'' (\<lambda>s. Inl ErrNoDomain)"

definition sim_Paused :: "string \<Rightarrow> sim \<Rightarrow> (chain_error, bool) result \<times> sim" where
  "sim_Paused asset = entering ''Paused'' (\<lambda>s. Inr (asset \<in> sm_paused s))"

definition sim_Blocklisted :: "string \<Rightarrow> string \<Rightarrow> sim \<Rightarrow> (chain_error, bool) result \<times> sim" where
  "sim_Blocklisted asset account = entering ''Blocklisted'' (\<lambda>s. Inr ((asset, account) \<in> sm_blocklisted s))"

definition sim_Implementation :: "string \<Rightarrow> sim \<Rightarrow> (chain_error, string) result \<times> sim" where
  "sim_Implementation asset = entering ''Implementation'' (\<lambda>s. Inr [])"

text \<open>What each call would answer now.\<close>

definition sim_chain :: "sim \<Rightarrow> chain" where
  "sim_chain s = \<lparr>ch_Identity = fst (sim_Identity s), ch_Head = fst (sim_Head s), ch_Block = (\<lambda>h. fst (sim_Block h s)),
     ch_Keys = (\<lambda>lo hi as. fst (sim_Keys lo hi as s)), ch_Receipt = (\<lambda>tx. fst (sim_Receipt tx s)),
     ch_Implementation = (\<lambda>a. fst (sim_Implementation a s)), ch_DomainSeparator = (\<lambda>a. fst (sim_DomainSeparator a s)),
     ch_Name = (\<lambda>a. fst (sim_Name a s)), ch_Paused = (\<lambda>a. fst (sim_Paused a s)), ch_Blocklisted = (\<lambda>a b. fst (sim_Blocklisted a b s))\<rparr>"

end
