(* ===== verification/Opened.thy ===== *)
theory Opened
  imports Deployed Evm_Rpc Simulated
begin

text \<open>
  The networks a configuration that resolved is opened as: each asset's, with the bounds the observer's and
  the worker's rounds rest on. Opening is what the kinds of this build do.
\<close>

section \<open>The kinds of this build (kinds.go)\<close>

datatype opened_chain = InProcess sim | Endpoint string

definition openText :: "open_error \<Rightarrow> string" where
  "openText e =
     (case e of
        EndpointNotAURL \<Rightarrow> ''evm: the endpoint is not a URL''
      | WantHTTPS \<Rightarrow> ''evm: want an https endpoint, or http to localhost or a loopback address''
      | NamesNoHost \<Rightarrow> ''evm: the endpoint names no host'')"

text \<open>\<open>kinds.Lookup\<close> and the \<open>Open\<close> of the kind found.\<close>

definition kinds_Open :: "given \<Rightarrow> opened_chain opener" where
  "kinds_Open g kind s =
     (if kind = ''simulated'' then Inr (InProcess newSim)
      else if kind = ''evm'' then
        (case newClient (gv_parseURL g) (gv_parseAddr g) (se_rpc s) of Inl e \<Rightarrow> Inl (openText e) | Inr u \<Rightarrow> Inr (Endpoint u))
      else Inl ''unknown kind'')"

definition opensHeld :: "given \<Rightarrow> 'c opener \<Rightarrow> bool" where
  "opensHeld g opening =
     (\<forall>k s. k = ''simulated'' \<or> k = ''evm'' \<and> rpcHeld g (se_rpc s) \<longrightarrow> (\<exists>c. opening k s = Inr c))"

text \<open>The check the document is held to is the one the adapter makes.\<close>

lemma kinds_Open_held: "opensHeld g (kinds_Open g)"
  by (auto simp: opensHeld_def kinds_Open_def newClient_def rpcHeld_def hasHost_def onThisMachine_def evm_onThisMachine_def
      split: option.splits)

section \<open>Networks opened\<close>

lemma openEach_opened:
  assumes "opensHeld g opening" "cn_kind n = ''simulated'' \<or> cn_kind n = ''evm'' \<and> list_all (rpcHeld g) us"
  shows "\<exists>cs. openEach opening name n us = Inr cs \<and> length cs = length us"
  using assms(2)
proof (induction us)
  case (Cons u us)
  then obtain c where "opening (cn_kind n) \<lparr>se_name = name, se_chainID = identity n, se_rpc = u\<rparr> = Inr c"
    using assms(1) unfolding opensHeld_def by fastforce
  with Cons show ?case by (auto simp: res_simps)
qed simp

lemma endpoints_held:
  assumes "networkRuns g n"
  shows "cn_kind n = ''simulated'' \<or> cn_kind n = ''evm'' \<and> list_all (rpcHeld g) (settle_endpoints n)"
    "cn_kind n = ''simulated'' \<or> cn_kind n = ''evm'' \<and> list_all (rpcHeld g) [read_endpoint n]"
  using assms by (auto simp: networkRuns_def settle_endpoints_def read_endpoint_def endpointsOf_def split: if_splits list.splits)

lemma settledOn_declared:
  "\<forall>(name, a)\<in>set (cf_assets cfg). networkOf cfg (as_network a) \<noteq> None \<Longrightarrow>
     settledOn cfg = Inr (sort (remdups (map (as_network \<circ> snd) (cf_assets cfg))))"
  by (auto simp: settledOn_def networkOf_def find_None_iff split: option.split dest!: find_SomeD)

definition observedWithin :: "config \<Rightarrow> network \<Rightarrow> bool" where
  "observedWithin cfg n =
     (10 \<le> nw_width n \<and> nw_width n \<le> 10000 \<and> Second \<le> nw_poll n
      \<and> nw_assets n = filter (\<lambda>(_, a). as_network a = nw_name n) (cf_assets cfg)
      \<and> (nw_want n \<noteq> [] \<or> (\<exists>x. networkOf cfg (nw_name n) = Some x \<and> cn_kind x = ''simulated'')))"

definition settledWithin :: "config \<Rightarrow> net \<Rightarrow> 'c list \<Rightarrow> bool" where
  "settledWithin cfg n cs =
     (cs \<noteq> [] \<and> Second \<le> net_recheck n \<and> 2 \<le> net_misses n
      \<and> (\<exists>x. networkOf cfg (net_name n) = Some x
           \<and> net_agreements n = (if ends_own (cn_rpc x) \<noteq> [] \<or> cn_kind x = ''simulated'' then 1 else 2)))"

lemma networkRuns_of:
  assumes "\<forall>(name, n)\<in>set (cf_networks cfg). networkRuns g n" "networkOf cfg name = Some n"
  shows "networkRuns g n" "cn_kind n \<in> set kindNames"
proof -
  have "(name, n) \<in> set (cf_networks cfg)" using assms(2) by (auto simp: networkOf_def dest: map_of_SomeD)
  then show r: "networkRuns g n" using assms(1) by auto
  then show "cn_kind n \<in> set kindNames" by (auto simp: networkRuns_def kindNames_def)
qed

lemma identity_given: "networkRuns g n \<Longrightarrow> cn_kind n = ''evm'' \<Longrightarrow> identity n \<noteq> []"
  by (auto simp: networkRuns_def identity_def bigString_def)

lemma agreements_given: "networkRuns g n \<Longrightarrow> agreements n = (if ends_own (cn_rpc n) \<noteq> [] \<or> cn_kind n = ''simulated'' then 1 else 2)"
  by (auto simp: networkRuns_def agreements_def Agreements_def endpointsOf_def split: if_splits)

lemma openChainsOn_opened:
  assumes "opensHeld g opening" "\<forall>(name, n)\<in>set (cf_networks cfg). networkRuns g n"
    and "\<forall>name\<in>set names. networkOf cfg name \<noteq> None"
  shows "\<exists>ns. openChainsOn opening cfg names = Inr ns \<and> map (nw_name \<circ> fst) ns = names \<and> list_all (\<lambda>(n, _). observedWithin cfg n) ns"
  using assms(3)
proof (induction names)
  case (Cons name names)
  then obtain n where n: "networkOf cfg name = Some n" by auto
  note r = networkRuns_of [OF assms(2) n]
  obtain cs where cs: "openEach opening name n [read_endpoint n] = Inr cs"
    using openEach_opened [OF assms(1) endpoints_held(2) [OF r(1)]] by blast
  obtain ns where ns: "openChainsOn opening cfg names = Inr ns" "map (nw_name \<circ> fst) ns = names"
      "list_all (\<lambda>(n, _). observedWithin cfg n) ns"
    using Cons by auto
  have "observedWithin cfg \<lparr>nw_name = name, nw_want = identity n, nw_assets = filter (\<lambda>(_, a). as_network a = name) (cf_assets cfg),
      nw_poll = cn_poll n, nw_width = cn_width n\<rparr>"
    using r(1) n identity_given [OF r(1)] by (auto simp: observedWithin_def networkRuns_def)
  then show ?case using n r(2) cs ns by (simp add: res_simps o_def del: openEach.simps)
qed simp

lemma openSettlingOn_opened:
  assumes "opensHeld g opening" "\<forall>(name, n)\<in>set (cf_networks cfg). networkRuns g n"
    and "\<forall>name\<in>set names. networkOf cfg name \<noteq> None"
  shows "\<exists>ns. openSettlingOn opening cfg names = Inr ns \<and> map (net_name \<circ> fst) ns = names \<and> list_all (\<lambda>(n, cs). settledWithin cfg n cs) ns"
  using assms(3)
proof (induction names)
  case (Cons name names)
  then obtain n where n: "networkOf cfg name = Some n" by auto
  note r = networkRuns_of [OF assms(2) n]
  obtain cs where cs: "openEach opening name n (settle_endpoints n) = Inr cs" "length cs = length (settle_endpoints n)"
    using openEach_opened [OF assms(1) endpoints_held(1) [OF r(1)]] by blast
  obtain ns where ns: "openSettlingOn opening cfg names = Inr ns" "map (net_name \<circ> fst) ns = names"
      "list_all (\<lambda>(n, cs). settledWithin cfg n cs) ns"
    using Cons by auto
  have "cs \<noteq> []" using cs(2) by (auto simp: settle_endpoints_def split: if_splits)
  then have "settledWithin cfg \<lparr>net_name = name, net_agreements = agreements n, net_recheck = cn_recheck n, net_misses = cn_misses n\<rparr> cs"
    using r(1) n agreements_given [OF r(1)] by (auto simp: settledWithin_def networkRuns_def)
  then show ?case using n r(2) cs(1) ns by (simp add: res_simps o_def)
qed simp

text \<open>
  C33: whatever resolved opens, with the kinds of this build: each network with an asset is observed and
  settled, in one order; it is read at least ten and at most ten thousand blocks at a time, a second or more
  apart, and must say it is the chain the document names unless it is simulated; and it is settled through
  endpoints there are, with one answer where the operator runs a node and two alike where only others do.
\<close>

theorem resolved_opens:
  assumes "Resolve g = Inr (cfg, sources)" "\<And>u. gv_parseURL g [] = Some u \<Longrightarrow> ur_scheme u = []"
  shows "\<exists>ns ss. openChains (kinds_Open g) cfg = Inr ns \<and> openSettling (kinds_Open g) cfg = Inr ss
    \<and> map (nw_name \<circ> fst) ns = map (net_name \<circ> fst) ss
    \<and> set (map (nw_name \<circ> fst) ns) = as_network ` snd ` set (cf_assets cfg)
    \<and> list_all (\<lambda>(n, _). observedWithin cfg n) ns \<and> list_all (\<lambda>(n, cs). settledWithin cfg n cs) ss"
proof -
  obtain r where run: "run_state (resolving g) newReader = (cfg, r)" and none: "cr_problems r = []"
    using assms(1) by (auto simp: Resolve_def split: prod.splits if_splits)
  have held: "\<forall>(name, n)\<in>set (cf_networks cfg). networkRuns g n"
      "\<forall>(name, a)\<in>set (cf_assets cfg). networkOf cfg (as_network a) \<noteq> None"
    using resolving_held(2,3) [OF run none] assms(2) by blast+
  let ?names = "sort (remdups (map (as_network \<circ> snd) (cf_assets cfg)))"
  have on: "settledOn cfg = Inr ?names" using held(2) by (intro settledOn_declared) auto
  have declared: "\<forall>name\<in>set ?names. networkOf cfg name \<noteq> None" using held(2) by auto
  obtain ns where ns: "openChainsOn (kinds_Open g) cfg ?names = Inr ns" "map (nw_name \<circ> fst) ns = ?names"
      "list_all (\<lambda>(n, _). observedWithin cfg n) ns"
    using openChainsOn_opened [OF kinds_Open_held held(1) declared] by blast
  obtain ss where ss: "openSettlingOn (kinds_Open g) cfg ?names = Inr ss" "map (net_name \<circ> fst) ss = ?names"
      "list_all (\<lambda>(n, cs). settledWithin cfg n cs) ss"
    using openSettlingOn_opened [OF kinds_Open_held held(1) declared] by blast
  have "openChains (kinds_Open g) cfg = Inr ns" "openSettling (kinds_Open g) cfg = Inr ss"
    using on ns(1) ss(1) by (simp_all add: openChains_def openSettling_def)
  moreover have "set ?names = as_network ` snd ` set (cf_assets cfg)" by (simp add: image_comp)
  then have "set (map (nw_name \<circ> fst) ns) = as_network ` snd ` set (cf_assets cfg)" by (simp only: ns(2))
  ultimately show ?thesis using ns(2,3) ss(2,3) by (intro exI conjI) simp_all
qed

end
