(* ===== verification/Running.thy ===== *)
theory Running
  imports Opened
begin

text \<open>
  What the reader does on a document that is well written: each reading gives what the document holds, or
  the default, and marks the path; each check passes and leaves the reader as it was. A document run to its
  configuration, and the properties at it.
\<close>

section \<open>Readings that give no problem\<close>

definition markedAt :: "string \<Rightarrow> source \<Rightarrow> config_reader \<Rightarrow> config_reader" where
  "markedAt path s r = r\<lparr>cr_seen := path # cr_seen r, cr_sources := (cr_sources r)(path \<mapsto> s)\<rparr>"

lemma markedAt_simps [simp]:
  "cr_problems (markedAt path s r) = cr_problems r"
  "originOf (markedAt path s r) p = (if p = path then s else originOf r p)"
  "cr_seen (markedAt path s r) = path # cr_seen r"
  "originOf (r\<lparr>cr_seen := ps\<rparr>) p = originOf r p"
  by (simp_all add: markedAt_def originOf_def)

definition plainly :: "given \<Rightarrow> string \<Rightarrow> string \<Rightarrow> bool" where
  "plainly g path s =
     (reference s = Inr None
      \<and> (Secret path \<or> (case gv_parseURL g s of None \<Rightarrow> True | Some u \<Rightarrow> \<not> ur_user u) \<and> hexBytes s \<noteq> Some keyBytes))"

named_theorems running

lemma run_base [running]:
  "run_state (asking f) r = (f r, r)"
  "run_state (seeing p) r = ((), r\<lparr>cr_seen := p # cr_seen r\<rparr>)"
  "run_state (seenUnder g p) r = ((), r\<lparr>cr_seen := filter (beneath p) (leaves (gv_doc g)) @ cr_seen r\<rparr>)"
  "run_state (sourcing p s) r = ((), r\<lparr>cr_sources := (cr_sources r)(p \<mapsto> s)\<rparr>)"
  "\<not> b \<Longrightarrow> run_state (cfg_fail_if b p fmt a) r = ((), r)"
  "cr_problems r = [] \<Longrightarrow> failedAt r p = False"
  "cr_problems r = [] \<Longrightarrow> failedUnder r p = False"
  "cr_problems r = [] \<Longrightarrow> run_state (unless_failed p m) r = run_state m r"
  by (simp_all add: asking_def seeing_def altering_def seenUnder_def sourcing_def cfg_fail_if_def failedAt_def failedUnder_def unless_failed_def)

lemma run_raw:
  "at_path g path = None \<Longrightarrow> run_state (raw g path) r = (None, markedAt path FromDefault r)"
  "at_path g path = Some v \<Longrightarrow> (\<forall>s. v = YText s \<longrightarrow> reference s = Inr None) \<Longrightarrow> run_state (raw g path) r = (Some v, markedAt path FromFile r)"
  by (auto simp: raw_def running markedAt_def split: yaml.split)

lemma run_text [running]:
  "at_path g path = None \<Longrightarrow> run_state (cfg_text g path d) r = (d, markedAt path FromDefault r)"
  "at_path g path = Some (YText s) \<Longrightarrow> plainly g path s \<Longrightarrow> run_state (cfg_text g path d) r = (s, markedAt path FromFile r)"
  by (auto simp: cfg_text_def run_raw plainly_def refuseCredentials_def split: option.split)

lemma run_numbers [running]:
  "at_path g path = None \<Longrightarrow> run_state (cfg_integer g path n) r = (n, markedAt path FromDefault r)"
  "at_path g path = Some (YUint m) \<Longrightarrow> m < 2 ^ 63 \<Longrightarrow> run_state (cfg_integer g path n) r = (m, markedAt path FromFile r)"
  "at_path g path = None \<Longrightarrow> run_state (cfg_duration g path n) r = (n, markedAt path FromDefault r)"
  "at_path g path = None \<Longrightarrow> run_state (cfg_boolean g path b) r = (b, markedAt path FromDefault r)"
  by (auto simp: cfg_integer_def cfg_duration_def cfg_boolean_def run_raw toInt_def)

lemma run_chainID [running]:
  "at_path g path = Some (YUint m) \<Longrightarrow> 0 < m \<Longrightarrow> m < 2 ^ 63 \<Longrightarrow> run_state (chainID g path) r = (m, markedAt path FromFile r)"
  by (simp add: chainID_def running)

lemma run_texts [running]:
  assumes "at_path g path = Some (YList xs)"
  shows "run_state (cfg_texts g path) r
    = (let (out, r') = run_state (State_Monad.traverse_list (element g path) [0..<length xs]) (markedAt path FromFile r) in
       (List.map_filter id out, r'))"
  using assms by (simp add: cfg_texts_def run_raw split: prod.split)

lemma run_element [running]:
  assumes "at_path g (path @ ''['' @ bigString (int i) @ '']'') = Some (YText s)"
    and "plainly g (path @ ''['' @ bigString (int i) @ '']'') s" "cr_problems r = []"
  shows "run_state (element g path i) r = (Some s, markedAt (path @ ''['' @ bigString (int i) @ '']'') FromFile r)"
  using assms by (simp add: element_def Let_def running)

lemma run_endpoints [running]:
  assumes "at_path g path = Some (YMap m)"
  shows "run_state (cfg_endpoints g path True) r
    = (let (own, r1) = run_state (cfg_text g (path @ ''.own'') []) (markedAt path FromFile r);
           (others, r2) = run_state (cfg_texts g (path @ ''.others'')) r1 in
       (\<lparr>ends_own = own, ends_others = others\<rparr>, r2))"
  using assms by (simp add: cfg_endpoints_def running markedAt_def isMapping_def split: prod.split)

lemma run_entryName [running]:
  "CHR ''.'' \<notin> set name \<Longrightarrow> CHR ''['' \<notin> set name \<Longrightarrow> CHR '']'' \<notin> set name \<Longrightarrow> \<not> invisible_Has name \<Longrightarrow>
     run_state (entryName g sect what name) r = (Some name, r\<lparr>cr_seen := (sect @ ''.'' @ name) # cr_seen r\<rparr>)"
  by (simp add: entryName_def running)

lemma run_section [running]:
  "walk (YMap (gv_doc g)) [sect] = Some (YMap [(name, v)]) \<Longrightarrow> CHR ''.'' \<notin> set name \<Longrightarrow> CHR ''['' \<notin> set name \<Longrightarrow>
     CHR '']'' \<notin> set name \<Longrightarrow> \<not> invisible_Has name \<Longrightarrow>
     run_state (cfg_section g sect what) r = ([name], r\<lparr>cr_seen := (sect @ ''.'' @ name) # cr_seen r\<rparr>)"
  unfolding cfg_section_def by (simp add: running List.map_filter_def)

lemma run_domain [running]:
  "at_path g (path @ ''.name'') = None \<Longrightarrow> at_path g (path @ ''.version'') = None \<Longrightarrow> cr_problems r = [] \<Longrightarrow>
     run_state (cfg_domain g path) r = (None, markedAt (path @ ''.version'') FromDefault (markedAt (path @ ''.name'') FromDefault r))"
  by (simp add: cfg_domain_def running)

lemma run_asset [running]:
  assumes "at_path g (path @ ''.network'') = Some (YText network)" "plainly g (path @ ''.network'') network"
    and "at_path g (path @ ''.reference'') = Some (YText ref)" "plainly g (path @ ''.reference'') ref"
    and "at_path g (path @ ''.symbol'') = Some (YText symbol)" "plainly g (path @ ''.symbol'') symbol"
    and "at_path g (path @ ''.decimals'') = Some (YUint n)" "0 \<le> n" "n \<le> 255"
    and "network \<noteq> []" "ref \<noteq> []" "symbol \<noteq> []" "map_of networks network \<noteq> None"
    and "NewAsset network ref symbol (word_of_int n) = Inr a" "cr_problems r = []"
  shows "run_state (cfg_asset g path networks) r
    = (Some a, markedAt (path @ ''.decimals'') FromFile (markedAt (path @ ''.symbol'') FromFile
        (markedAt (path @ ''.reference'') FromFile (markedAt (path @ ''.network'') FromFile r))))"
  using assms by (auto simp: cfg_asset_def running toByte_def Let_def)

section \<open>A document and what it resolves to\<close>

text \<open>One network on two endpoints of others, and one asset on it; the rest left to the defaults.\<close>

definition demo_given :: given where
  "demo_given = \<lparr>gv_doc =
     [(''networks'', YMap [(''polygon'', YMap [(''chain_id'', YUint 137),
        (''rpc'', YMap [(''others'', YList [YText ''https://a'', YText ''https://a''])])])]),
      (''assets'', YMap [(''usdc'', YMap [(''network'', YText ''polygon''), (''reference'', YText ''0xabc''),
        (''symbol'', YText ''USDC''), (''decimals'', YUint 6)])])],
     gv_env = (\<lambda>n. None),
     gv_parseURL = (\<lambda>s. Some \<lparr>ur_scheme = takeWhile (\<lambda>c. c \<noteq> CHR '':'') s, ur_user = False, ur_hostname = ''a'', ur_port = []\<rparr>),
     gv_parseAddr = (\<lambda>_. None)\<rparr>"

definition demo_config :: config where
  "demo_config = \<lparr>cf_host = DefaultHost, cf_port = DefaultPort, cf_baseURL = defaultBaseURL DefaultPort, cf_logLevel = DefaultLogLevel,
     cf_logFormat = DefaultLogFormat, cf_managed = True, cf_dbURL = [], cf_key = [], cf_keyID = [],
     cf_networks = [(''polygon'', \<lparr>cn_kind = DefaultNetworkKind, cn_chainID = 137,
        cn_rpc = \<lparr>ends_own = [], ends_others = [''https://a'', ''https://a'']\<rparr>,
        cn_poll = DefaultPoll, cn_width = DefaultWidth, cn_recheck = DefaultFinalityRecheck, cn_misses = DefaultFinalityMisses\<rparr>)],
     cf_assets = [(''usdc'', \<lparr>as_network = ''polygon'', as_reference = ''0xabc'', as_symbol = ''USDC'', as_decimals = 6\<rparr>)],
     cf_domains = []\<rparr>"

lemma demo_digits: "bigString 0 = ''0''" "bigString 1 = ''1''" "Atoi ''0'' = Some 0" "Atoi ''1'' = Some 1"
  by code_simp+

lemma demo_paths:
  "list_all (\<lambda>p. at_path demo_given p = None)
     [''listen.host'', ''listen.port'', ''listen.base_url'', ''log.level'', ''log.format'', ''database.managed'', ''database.url'',
      ''credentials.key'', ''credentials.key_id'', ''networks.polygon.kind'', ''networks.polygon.rpc.own'', ''networks.polygon.poll'',
      ''networks.polygon.width'', ''networks.polygon.finality.recheck'', ''networks.polygon.finality.misses'',
      ''assets.usdc.eip712.name'', ''assets.usdc.eip712.version'']"
  "at_path demo_given ''networks.polygon.chain_id'' = Some (YUint 137)"
  "at_path demo_given ''networks.polygon.rpc'' = Some (YMap [(''others'', YList [YText ''https://a'', YText ''https://a''])])"
  "at_path demo_given ''networks.polygon.rpc.others'' = Some (YList [YText ''https://a'', YText ''https://a''])"
  "at_path demo_given ''networks.polygon.rpc.others[0]'' = Some (YText ''https://a'')"
  "at_path demo_given ''networks.polygon.rpc.others[1]'' = Some (YText ''https://a'')"
  "at_path demo_given ''assets.usdc.network'' = Some (YText ''polygon'')"
  "at_path demo_given ''assets.usdc.reference'' = Some (YText ''0xabc'')"
  "at_path demo_given ''assets.usdc.symbol'' = Some (YText ''USDC'')"
  "at_path demo_given ''assets.usdc.decimals'' = Some (YUint 6)"
  by (simp_all add: at_path_def demo_given_def splitIndex_def demo_digits)

lemma demo_plain:
  "plainly demo_given p ''polygon''" "plainly demo_given p ''0xabc''" "plainly demo_given p ''USDC''" "plainly demo_given p ''https://a''"
  by (simp_all add: plainly_def demo_given_def hexBytes_def reference_def hexLetter_def)

lemma demo_names: "\<not> invisible_Has ''polygon''" "\<not> invisible_Has ''usdc''" "\<not> invisible_Has ''0xabc''" "\<not> invisible_Has ''USDC''"
  by (rule invisible_Has_printable; simp add: printable_def)+


lemma demo_sections:
  "run_state (cfg_section demo_given ''networks'' what) r = ([''polygon''], r\<lparr>cr_seen := ''networks.polygon'' # cr_seen r\<rparr>)"
  "run_state (cfg_section demo_given ''assets'' what) r = ([''usdc''], r\<lparr>cr_seen := ''assets.usdc'' # cr_seen r\<rparr>)"
  by (subst run_section; simp add: demo_given_def splitIndex_def demo_names)+

lemma demo_networks:
  assumes "cr_problems r = []"
  shows "\<exists>s. run_state (cfg_networks demo_given) r = (cf_networks demo_config, s) \<and> cr_problems s = []
    \<and> originOf s ''networks.polygon.chain_id'' = FromFile \<and> originOf s ''networks.polygon.rpc'' = FromFile
    \<and> originOf s ''networks.polygon.rpc.own'' = FromDefault
    \<and> {''networks.polygon.chain_id'', ''networks.polygon.rpc.others''} \<subseteq> set (cr_seen s)"
proof -
  have k: "takes DefaultNetworkKind ''rpc''" by (simp add: takes_iff DefaultNetworkKind_def)
  show ?thesis
    unfolding cfg_networks_def
    using assms
    by (simp add: running demo_sections cfg_network_def Let_def demo_paths [simplified] demo_plain k demo_digits List.map_filter_def demo_config_def upt_conv_Cons)
qed

lemma demo_assets:
  assumes "cr_problems r = []"
  shows "\<exists>s. run_state (cfg_assets demo_given (cf_networks demo_config)) r = ((cf_assets demo_config, []), s) \<and> cr_problems s = []
    \<and> {''assets.usdc.network'', ''assets.usdc.reference'', ''assets.usdc.symbol'', ''assets.usdc.decimals''} \<subseteq> set (cr_seen s)
    \<and> set (cr_seen r) \<subseteq> set (cr_seen s) \<and> (\<forall>p. take 7 p \<noteq> ''assets.'' \<longrightarrow> originOf s p = originOf r p)"
proof -
  have new: "NewAsset ''polygon'' ''0xabc'' ''USDC'' 6 = Inr \<lparr>as_network = ''polygon'', as_reference = ''0xabc'', as_symbol = ''USDC'', as_decimals = 6\<rparr>"
    using demo_names by (simp add: NewAsset_def MaxAssetDecimals_def)
  show ?thesis
    unfolding cfg_assets_def
    using assms
    by (simp add: running demo_sections cfg_entry_def demo_paths [simplified] demo_plain List.map_filter_def demo_config_def new) blast
qed

lemma demo_checked:
  assumes "cr_problems s = []" "originOf s ''networks.polygon.chain_id'' = FromFile" "originOf s ''networks.polygon.rpc'' = FromFile"
    and "originOf s ''networks.polygon.rpc.own'' = FromDefault"
  shows "run_state (validate demo_given demo_config) s = ((), s)"
proof -
  have url: "gv_parseURL demo_given u = Some \<lparr>ur_scheme = takeWhile (\<lambda>c. c \<noteq> CHR '':'') u, ur_user = False, ur_hostname = ''a'', ur_port = []\<rparr>" for u
    by (simp add: demo_given_def)
  have rpc: "run_state (validateRPC demo_given p ''https://a'') s' = ((), s')" for p s'
    by (simp add: validateRPC_def url hasHost_def running)
  have base: "run_state (validateBaseURL demo_given (defaultBaseURL DefaultPort)) s' = ((), s')" for s'
    by (simp add: validateBaseURL_def url defaultBaseURL_def hasHost_def)
  have ends: "run_state (validateEndpoints demo_given ''networks.polygon.rpc'' \<lparr>ends_own = [], ends_others = [''https://a'', ''https://a'']\<rparr>) s = ((), s)"
    using assms by (simp add: validateEndpoints_def running rpc upt_conv_Cons)
  have kind: "run_state (validateKind demo_given ''networks.polygon'' n key) s = ((), s)"
    if "cn_kind n = DefaultNetworkKind" "key = ''chain_id'' \<or> key = ''rpc''"
      "cn_rpc n = \<lparr>ends_own = [], ends_others = [''https://a'', ''https://a'']\<rparr>" for n key
    using that assms ends by (auto simp: validateKind_def Let_def running takes_iff DefaultNetworkKind_def)
  have net: "run_state (validateNetwork demo_given x) s = ((), s)" if "x \<in> set (cf_networks demo_config)" for x
    using that assms kind
    by (simp add: validateNetwork_def Let_def running demo_config_def DefaultPoll_def minPoll_def DefaultWidth_def MinWidth_def MaxWidth_def
        DefaultFinalityRecheck_def minFinalityRecheck_def DefaultFinalityMisses_def MinFinalityMisses_def networkKinds_def DefaultNetworkKind_def)
  then have nets: "run_state (cfg_each (validateNetwork demo_given) (cf_networks demo_config)) s = ((), s)"
    by (simp add: demo_config_def)
  show ?thesis
    using assms nets base
    by (simp add: validate_def running validateDatabase_def validateCredentials_def validateLog_def validateAssets_def sameNames_def
        demo_config_def DefaultHost_def DefaultPort_def DefaultLogLevel_def LogLevels_def DefaultLogFormat_def LogFormats_def)
qed

lemma demo_resolves: "\<exists>sources. Resolve demo_given = Inr (demo_config, sources)"
proof -
  have leaves: "leaves (gv_doc demo_given) = [''networks.polygon.chain_id'', ''networks.polygon.rpc.others'', ''assets.usdc.network'',
      ''assets.usdc.reference'', ''assets.usdc.symbol'', ''assets.usdc.decimals'']"
    by code_simp
  have known: "run_state (cfg_each (\<lambda>path. State_Monad.bind (asking (\<lambda>r. path \<in> set (cr_seen r))) (\<lambda>known. cfg_fail_if (\<not> known) path ''unknown key'' [])) ps) s = ((), s)"
    if "set ps \<subseteq> set (cr_seen s)" for ps s
    using that by (induction ps) (simp_all add: running)
  define netted where "netted r = snd (run_state (cfg_networks demo_given) r)" for r
  have netted: "\<And>r. cr_problems r = [] \<Longrightarrow> run_state (cfg_networks demo_given) r = (cf_networks demo_config, netted r)"
      "\<And>r. cr_problems r = [] \<Longrightarrow> cr_problems (netted r) = []"
      "\<And>r. cr_problems r = [] \<Longrightarrow> originOf (netted r) ''networks.polygon.chain_id'' = FromFile"
      "\<And>r. cr_problems r = [] \<Longrightarrow> originOf (netted r) ''networks.polygon.rpc'' = FromFile"
      "\<And>r. cr_problems r = [] \<Longrightarrow> originOf (netted r) ''networks.polygon.rpc.own'' = FromDefault"
      "\<And>r. cr_problems r = [] \<Longrightarrow> {''networks.polygon.chain_id'', ''networks.polygon.rpc.others''} \<subseteq> set (cr_seen (netted r))"
    unfolding netted_def using demo_networks by fastforce+
  define listed where "listed r = snd (run_state (cfg_assets demo_given (cf_networks demo_config)) r)" for r
  have listed: "\<And>r. cr_problems r = [] \<Longrightarrow> run_state (cfg_assets demo_given (cf_networks demo_config)) r = ((cf_assets demo_config, []), listed r)"
      "\<And>r. cr_problems r = [] \<Longrightarrow> cr_problems (listed r) = []"
      "\<And>r. cr_problems r = [] \<Longrightarrow> {''assets.usdc.network'', ''assets.usdc.reference'', ''assets.usdc.symbol'', ''assets.usdc.decimals''}
         \<subseteq> set (cr_seen (listed r))"
      "\<And>r. cr_problems r = [] \<Longrightarrow> set (cr_seen r) \<subseteq> set (cr_seen (listed r))"
      "\<And>r p. cr_problems r = [] \<Longrightarrow> take 7 p \<noteq> ''assets.'' \<Longrightarrow> originOf (listed r) p = originOf r p"
    unfolding listed_def using demo_assets by fastforce+
  define r where "r = fold (\<lambda>p. markedAt p FromDefault) [''listen.host'', ''listen.port'', ''listen.base_url'', ''log.level'', ''log.format'',
    ''database.managed'', ''database.url'', ''credentials.key'', ''credentials.key_id''] newReader"
  have r: "cr_problems r = []" by (simp add: r_def newReader_def)
  have whole: "\<lparr>cf_host = DefaultHost, cf_port = DefaultPort, cf_baseURL = defaultBaseURL DefaultPort, cf_logLevel = DefaultLogLevel,
      cf_logFormat = DefaultLogFormat, cf_managed = True, cf_dbURL = [], cf_key = [], cf_keyID = [],
      cf_networks = cf_networks demo_config, cf_assets = cf_assets demo_config, cf_domains = []\<rparr> = demo_config"
    by (simp add: demo_config_def)
  have checked: "run_state (validate demo_given demo_config) (listed (netted r)) = ((), listed (netted r))"
    by (rule demo_checked) (simp_all add: r netted listed)
  have seen: "set (leaves (gv_doc demo_given)) \<subseteq> set (cr_seen (listed (netted r)))"
    unfolding leaves using netted(2,6) [OF r] listed(3,4) [of "netted r"] by auto
  have "run_state (resolving demo_given) newReader = (demo_config, listed (netted r))"
    unfolding resolving_def
    by (simp add: running demo_paths [simplified] r_def [simplified, symmetric] netted(1,2) listed(1) r whole checked
        reportUnknownKeys_def known [OF seen])
  then show ?thesis by (simp add: Resolve_def r netted listed)
qed

section \<open>The properties at it, and what they leave open\<close>

theorem resolved_runs_witness:
  "\<exists>sources. Resolve demo_given = Inr (demo_config, sources) \<and> configHeld demo_given demo_config
    \<and> (\<forall>(name, n)\<in>set (cf_networks demo_config). networkRuns demo_given n)"
proof -
  obtain sources where resolved: "Resolve demo_given = Inr (demo_config, sources)" using demo_resolves by blast
  have "ur_scheme u = []" if "gv_parseURL demo_given [] = Some u" for u using that by (auto simp: demo_given_def)
  from resolved_runs [OF resolved this] resolved show ?thesis by blast
qed

theorem resolved_opens_witness:
  "\<exists>ns ss. openChains (kinds_Open demo_given) demo_config = Inr ns \<and> openSettling (kinds_Open demo_given) demo_config = Inr ss
    \<and> set (map (nw_name \<circ> fst) ns) = {''polygon''} \<and> list_all (\<lambda>(n, cs). settledWithin demo_config n cs) ss"
proof -
  obtain sources where resolved: "Resolve demo_given = Inr (demo_config, sources)" using demo_resolves by blast
  have scheme: "ur_scheme u = []" if "gv_parseURL demo_given [] = Some u" for u using that by (auto simp: demo_given_def)
  have on: "as_network ` snd ` set (cf_assets demo_config) = {''polygon''}" by (simp add: demo_config_def)
  show ?thesis using resolved_opens [OF resolved scheme] unfolding on by blast
qed

text \<open>
  \<open>validateEndpoints\<close> takes one URL of a third party twice: two answers alike are asked for, and both are
  that party's.
\<close>

lemma one_party_twice:
  "openSettling (kinds_Open demo_given) demo_config
     = Inr [(\<lparr>net_name = ''polygon'', net_agreements = 2, net_recheck = DefaultFinalityRecheck, net_misses = DefaultFinalityMisses\<rparr>,
         [Endpoint ''https://a'', Endpoint ''https://a''])]"
  by (simp add: kinds_Open_def newClient_def demo_given_def openSettling_def settledOn_def networkOf_def demo_config_def settle_endpoints_def agreements_def Agreements_def kindNames_def
      DefaultNetworkKind_def res_simps)

text \<open>
  A level of log nobody knows is repeated as it was read, wherever it was read from: one a variable supplied
  is shown with the variable's value, where \<open>shown\<close> would name the variable.
\<close>

lemma log_level_shown:
  assumes "\<not> failedAt r ''log.level''" "cf_logLevel cfg \<notin> set LogLevels" "length (cr_problems r) < maxProblems"
  shows "\<exists>p\<in>set (cr_problems (snd (run_state (validateLog cfg) r))). cp_path p = ''log.level'' \<and> ArgQuoted (cf_logLevel cfg) \<in> set (cp_args p)"
  using assms
  by (auto simp: validateLog_def unless_failed_def asking_def cfg_fail_if_def cfg_fail_def altering_def noting_def)

end
