(* ===== verification/Evm_Chain.thy ===== *)
theory Evm_Chain
  imports Evm_Rpc
begin

text \<open>
  Package evm, logs.go, evm.go, state.go and the calls of domain.go: the adapter over one client. Receipts
  are read into the transfers they carry by pairing each authorisation with the transfer that follows it.
\<close>

section \<open>Logs\<close>

definition authorizationTopic :: string where
  "authorizationTopic = ''0x98de503528ee59b575ef0c0a2576a82497bfc029a5685b209e9ec333479b10a5''"

definition transferredTopic :: string where
  "transferredTopic = ''0xddf252ad1be2c89b69c2b068fc378daa952ba7f163c4a11628f55a4df523b3ef''"

definition upgradedTopic :: string where
  "upgradedTopic = ''0xbc7cd75a20ee27fd9adebab32041f755214dbc6bffa90cc0225b39da2e5c2d3b''"

definition maxLogs :: nat where "maxLogs = 1000"

record log_entry =
  lo_address :: "byte list"
  lo_topics :: "byte list list"
  lo_data :: string
  lo_tx :: "byte list"

datatype log_error = LogValue value_error | AuthorisationIndexes nat | NoAccountAt nat nat | TooManyLogs nat

definition zeros :: "nat \<Rightarrow> byte list" where "zeros n = replicate n 0"

text \<open>A field of a struct that is missing keeps its zero value.\<close>

definition fieldOr :: "'a \<Rightarrow> (provided \<Rightarrow> (value_error, 'a) result) \<Rightarrow> string \<Rightarrow> (string \<times> provided) list \<Rightarrow> (value_error, 'a) result" where
  "fieldOr z read name kvs = (case answerField name kvs of None \<Rightarrow> Inr z | Some a \<Rightarrow> read a)"

definition readLog :: "provided \<Rightarrow> (value_error, log_entry) result" where
  "readLog a =
     (case a of
        ANull \<Rightarrow> Inr \<lparr>lo_address = zeros addressBytes, lo_topics = [], lo_data = [], lo_tx = zeros hashBytes\<rparr>
      | AObj kvs \<Rightarrow>
          bindE (fieldOr (zeros addressBytes) (unmarshalBytes addressBytes) ''address'' kvs) (\<lambda>address.
          bindE (fieldOr [] readTopics ''topics'' kvs) (\<lambda>topics.
          bindE (fieldOr [] unquote ''data'' kvs) (\<lambda>data.
          bindE (fieldOr (zeros hashBytes) (unmarshalBytes hashBytes) ''transactionHash'' kvs) (\<lambda>tx.
          Inr \<lparr>lo_address = address, lo_topics = topics, lo_data = data, lo_tx = tx\<rparr>))))
      | _ \<Rightarrow> Inl NotTheShape)"

definition readLogs :: "provided \<Rightarrow> (value_error, log_entry list) result" where
  "readLogs a = (case a of ANull \<Rightarrow> Inr [] | AList as \<Rightarrow> readEach readLog as | _ \<Rightarrow> Inl NotTheShape)"

definition topic :: "log_entry \<Rightarrow> string" where
  "topic l = (case lo_topics l of [] \<Rightarrow> [] | t # _ \<Rightarrow> hexString t)"

definition logKey :: "log_entry \<Rightarrow> (log_error, string) result" where
  "logKey l =
     (if length (lo_topics l) \<noteq> 3 then Inl (AuthorisationIndexes (length (lo_topics l)))
      else Inr (hexEncode (lo_topics l ! 2)))"

definition indexed :: "log_entry \<Rightarrow> nat \<Rightarrow> (log_error, byte list) result" where
  "indexed l at =
     (if at \<ge> length (lo_topics l) then Inl (NoAccountAt (length (lo_topics l)) at)
      else mapErr LogValue (accountOf (lo_topics l ! at)))"

definition units :: "string \<Rightarrow> (value_error, string) result" where
  "units data = bindE (decodeHex wordBytes data) (\<lambda>w. Inr (bigString (int (bigEndian w))))"

section \<open>Pairing\<close>

text \<open>
  Where the next transfer of a contract is that answers for no authorisation yet: a search from \<open>i\<close> on,
  over as many logs as are left.
\<close>

function followedBy :: "log_entry list \<Rightarrow> nat set \<Rightarrow> nat \<Rightarrow> byte list \<Rightarrow> nat option" where
  "followedBy logs taken i of' =
     (if i < length logs
      then if i \<notin> taken \<and> lo_address (logs ! i) = of' \<and> topic (logs ! i) = transferredTopic then Some i
           else followedBy logs taken (i + 1) of'
      else None)"
  by pat_completeness auto
termination by (relation "measure (\<lambda>(logs, taken, i, of'). length logs - i)") auto

declare followedBy.simps [simp del]

text \<open>One log of the loop: the transfers made so far, and the logs that provided for one.\<close>

definition pairLog ::
  "string \<Rightarrow> log_entry list \<Rightarrow> nat \<Rightarrow> chain_transfer list \<times> nat set \<Rightarrow> (log_error, chain_transfer list \<times> nat set) result" where
  "pairLog tx logs i st =
     (let (made, taken) = st; spent = logs ! i in
      if topic spent \<noteq> authorizationTopic then Inr st
      else bindE (logKey spent) (\<lambda>key. bindE (indexed spent 1) (\<lambda>signer.
        case followedBy logs taken (i + 1) (lo_address spent) of
          None \<Rightarrow> Inr st
        | Some at \<Rightarrow>
            bindE (indexed (logs ! at) 1) (\<lambda>from. bindE (indexed (logs ! at) 2) (\<lambda>to.
              if from \<noteq> signer then Inr st
              else bindE (mapErr LogValue (units (lo_data (logs ! at)))) (\<lambda>value.
                Inr (made @ [\<lparr>ct_scheme = ''eip3009'', ct_asset = hexString (lo_address spent), ct_key = key,
                       ct_authorizer = hexString signer, ct_from = hexString from, ct_to = hexString to,
                       ct_value = value, ct_tx = tx, ct_position = int (length made),
                       ct_block = \<lparr>bl_height = 0, bl_hash = [], bl_parent = [], bl_time = 0\<rparr>\<rparr>],
                     insert at taken)))))))"

primrec pairLogs ::
  "string \<Rightarrow> log_entry list \<Rightarrow> nat list \<Rightarrow> chain_transfer list \<times> nat set \<Rightarrow> (log_error, chain_transfer list \<times> nat set) result" where
  "pairLogs tx logs [] st = Inr st"
| "pairLogs tx logs (i # is) st = bindE (pairLog tx logs i st) (pairLogs tx logs is)"

definition transfers :: "string \<Rightarrow> log_entry list \<Rightarrow> (log_error, chain_transfer list) result" where
  "transfers tx logs =
     (if length logs > maxLogs then Inl (TooManyLogs (length logs))
      else bindE (pairLogs tx logs [0..<length logs] ([], {})) (\<lambda>(made, _). Inr made))"

section \<open>Blocks\<close>

record header =
  he_number :: uint64
  he_hash :: "byte list"
  he_parent :: "byte list"
  he_time :: uint64

definition readHeader :: "provided \<Rightarrow> (value_error, header option) result" where
  "readHeader a =
     (case a of
        ANull \<Rightarrow> Inr None
      | AObj kvs \<Rightarrow>
          bindE (fieldOr 0 readQuantity ''number'' kvs) (\<lambda>number.
          bindE (fieldOr (zeros hashBytes) (unmarshalBytes hashBytes) ''hash'' kvs) (\<lambda>hash.
          bindE (fieldOr (zeros hashBytes) (unmarshalBytes hashBytes) ''parentHash'' kvs) (\<lambda>parent.
          bindE (fieldOr 0 readQuantity ''timestamp'' kvs) (\<lambda>time.
          Inr (Some \<lparr>he_number = number, he_hash = hash, he_parent = parent, he_time = time\<rparr>)))))
      | _ \<Rightarrow> Inl NotTheShape)"

text \<open>\<open>time.Unix\<close> counts from year 1 in 64 bits, and wraps.\<close>

definition unixTime :: "uint64 \<Rightarrow> gotime" where
  "unixTime s = sint (s + 62135596800) * Second"

definition blockStamp :: "uint64 \<Rightarrow> (chain_error, gotime) result" where
  "blockStamp s = (if unat s > 2 ^ 63 - 1 then Inl (CallFailed ''eth_getBlockByNumber'') else Inr (unixTime s))"

definition headerBlock :: "header \<Rightarrow> (chain_error, block) result" where
  "headerBlock h =
     (if he_hash h = zeros hashBytes then Inl (CallFailed ''eth_getBlockByNumber'')
      else bindE (blockStamp (he_time h)) (\<lambda>at.
        Inr \<lparr>bl_height = he_number h, bl_hash = hexString (he_hash h), bl_parent = hexString (he_parent h), bl_time = at\<rparr>))"

definition blockBy :: "transport \<Rightarrow> string \<Rightarrow> (chain_error, block) result" where
  "blockBy ask which = bindE (evm_call ask ''eth_getBlockByNumber'' [AText which, ABool False] readHeader) (\<lambda>h.
     case h of None \<Rightarrow> Inl (CallFailed ''eth_getBlockByNumber'') | Some h \<Rightarrow> headerBlock h)"

definition evm_Block :: "transport \<Rightarrow> uint64 \<Rightarrow> (chain_error, block) result" where
  "evm_Block ask height = bindE (blockBy ask (quantityString height)) (\<lambda>b.
     if bl_height b \<noteq> height then Inl (CallFailed ''eth_getBlockByNumber'') else Inr b)"

definition noFinalBlock :: "chain_error \<Rightarrow> chain_error" where
  "noFinalBlock e = (case e of RateLimited d \<Rightarrow> RateLimited d | _ \<Rightarrow> ErrNoFinal)"

definition evm_Head :: "transport \<Rightarrow> (chain_error, head) result" where
  "evm_Head ask = bindE (blockBy ask ''latest'') (\<lambda>latest.
     bindE (mapErr noFinalBlock (blockBy ask ''finalized'')) (\<lambda>final. Inr \<lparr>hd_latest = latest, hd_final = final\<rparr>))"

definition evm_Identity :: "transport \<Rightarrow> (chain_error, string) result" where
  "evm_Identity ask = bindE (evm_call ask ''eth_chainId'' [] readQuantity) (\<lambda>n. Inr (dec (unat n)))"

section \<open>The calls of the interface\<close>

primrec scanLogs :: "byte list list \<Rightarrow> log_entry list \<Rightarrow> scan \<Rightarrow> (chain_error, scan) result" where
  "scanLogs watched [] sc = Inr sc"
| "scanLogs watched (l # ls) sc =
     (if lo_address l \<notin> set watched then scanLogs watched ls sc
      else if topic l = authorizationTopic then
        (case logKey l of
           Inl _ \<Rightarrow> Inl (CallFailed ''eth_getLogs'')
         | Inr key \<Rightarrow> scanLogs watched ls
             (sc\<lparr>sc_consumed := sc_consumed sc @ [\<lparr>con_key = key, con_tx = hexString (lo_tx l)\<rparr>]\<rparr>))
      else if topic l = upgradedTopic \<and> hexString (lo_address l) \<notin> set (sc_changed sc) then
        scanLogs watched ls (sc\<lparr>sc_changed := sc_changed sc @ [hexString (lo_address l)]\<rparr>)
      else scanLogs watched ls sc)"

definition logsFilter :: "uint64 \<Rightarrow> uint64 \<Rightarrow> byte list list \<Rightarrow> provided" where
  "logsFilter lo hi watched = AObj
     [(''fromBlock'', AText (quantityString lo)), (''toBlock'', AText (quantityString hi)),
      (''address'', AList (map (AText \<circ> hexString) watched)),
      (''topics'', AList [AList [AText authorizationTopic, AText upgradedTopic]])]"

definition scanned_keys :: "transport \<Rightarrow> uint64 \<Rightarrow> uint64 \<Rightarrow> byte list list \<Rightarrow> (chain_error, scan) result" where
  "scanned_keys ask lo hi watched =
     (if watched = [] then Inr \<lparr>sc_consumed = [], sc_changed = []\<rparr>
      else bindE (evm_call ask ''eth_getLogs'' [logsFilter lo hi watched] readLogs) (\<lambda>read.
        scanLogs watched read \<lparr>sc_consumed = [], sc_changed = []\<rparr>))"

definition evm_Keys ::
  "(byte list \<Rightarrow> byte list) \<Rightarrow> transport \<Rightarrow> uint64 \<Rightarrow> uint64 \<Rightarrow> string list \<Rightarrow> (chain_error, scan) result" where
  "evm_Keys keccak ask lo hi assets =
     (if lo > hi then Inl (CallFailed ''eth_getLogs'')
      else bindE (mapErr (\<lambda>_. CallFailed ''address'') (readAddresses keccak assets)) (scanned_keys ask lo hi))"

record receipt =
  re_tx :: "byte list"
  re_block :: "byte list"
  re_height :: uint64
  re_logs :: "log_entry list"

definition readReceipt :: "provided \<Rightarrow> (value_error, receipt option) result" where
  "readReceipt a =
     (case a of
        ANull \<Rightarrow> Inr None
      | AObj kvs \<Rightarrow>
          bindE (fieldOr (zeros hashBytes) (unmarshalBytes hashBytes) ''transactionHash'' kvs) (\<lambda>tx.
          bindE (fieldOr (zeros hashBytes) (unmarshalBytes hashBytes) ''blockHash'' kvs) (\<lambda>block.
          bindE (fieldOr 0 readQuantity ''blockNumber'' kvs) (\<lambda>height.
          bindE (fieldOr [] readLogs ''logs'' kvs) (\<lambda>logs.
          Inr (Some \<lparr>re_tx = tx, re_block = block, re_height = height, re_logs = logs\<rparr>)))))
      | _ \<Rightarrow> Inl NotTheShape)"

text \<open>The transfers of a receipt, each with the block it was in.\<close>

definition stampedTransfers :: "transport \<Rightarrow> receipt \<Rightarrow> chain_transfer list \<Rightarrow> (chain_error, chain_transfer list) result" where
  "stampedTransfers ask r ts =
     (if ts = [] then Inr []
      else bindE (blockBy ask (quantityString (re_height r))) (\<lambda>block.
        if bl_hash block \<noteq> hexString (re_block r) then Inl (CallFailed ''eth_getBlockByNumber'')
        else Inr (map (\<lambda>t. t\<lparr>ct_block := block\<rparr>) ts)))"

definition receiptTransfers :: "transport \<Rightarrow> byte list \<Rightarrow> receipt option \<Rightarrow> (chain_error, chain_transfer list) result" where
  "receiptTransfers ask named read =
     (case read of
        None \<Rightarrow> Inl ErrNoTransaction
      | Some r \<Rightarrow>
          if re_tx r \<noteq> named then Inl (CallFailed ''eth_getTransactionReceipt'')
          else bindE (mapErr (\<lambda>_. CallFailed ''eth_getTransactionReceipt'') (transfers (hexString named) (re_logs r)))
            (stampedTransfers ask r))"

definition evm_Receipt :: "transport \<Rightarrow> string \<Rightarrow> (chain_error, chain_transfer list) result" where
  "evm_Receipt ask tx =
     bindE (mapErr (\<lambda>_. CallFailed ''transaction'') (decodeHex hashBytes tx)) (\<lambda>id.
     bindE (evm_call ask ''eth_getTransactionReceipt'' [AText (hexString id)] readReceipt) (receiptTransfers ask id))"

definition implementationSlot :: string where
  "implementationSlot = ''0x360894a13ba1a3210667c828492db98dca3e2076cc3735a920a3ca505d382bbc''"

definition evm_Implementation :: "(byte list \<Rightarrow> byte list) \<Rightarrow> transport \<Rightarrow> string \<Rightarrow> (chain_error, string) result" where
  "evm_Implementation keccak ask asset =
     bindE (mapErr (\<lambda>_. CallFailed ''address'') (parseAddress keccak asset)) (\<lambda>contract.
     bindE (evm_call ask ''eth_getStorageAt'' [AText (hexString contract), AText implementationSlot, AText ''latest'']
       (unmarshalBytes wordBytes)) (\<lambda>slot.
     bindE (mapErr (\<lambda>_. CallFailed ''eth_getStorageAt'') (accountOf slot)) (\<lambda>behind. Inr (hexString behind))))"

text \<open>A function of a contract, and the raw result.\<close>

definition contractCall :: "transport \<Rightarrow> byte list \<Rightarrow> string \<Rightarrow> (fault, provided) result" where
  "contractCall ask contract data =
     rpc_call ask ''eth_call'' [AObj [(''to'', AText (hexString contract)), (''data'', AText data)], AText ''latest'']"

definition pausedSelector :: string where "pausedSelector = ''0x5c975abb''"
definition blocklistedSelector :: string where "blocklistedSelector = ''0x8e204c43''"
definition domainSeparatorSelector :: string where "domainSeparatorSelector = ''0x3644e515''"
definition nameSelector :: string where "nameSelector = ''0x06fdde03''"

definition flag :: "transport \<Rightarrow> byte list \<Rightarrow> string \<Rightarrow> (chain_error, bool) result" where
  "flag ask contract data =
     bindE (mapErr (faultOf ''eth_call'') (contractCall ask contract data)) (\<lambda>raw.
       if raw = AText ''0x'' then Inl (CallFailed ''eth_call'')
       else bindE (mapErr (\<lambda>_. CallFailed ''eth_call'') (unmarshalBytes wordBytes raw)) (\<lambda>w.
         if \<not> list_all (\<lambda>b. b = 0) (take (wordBytes - 1) w) then Inl (CallFailed ''eth_call'')
         else if w ! (wordBytes - 1) = 0 then Inr False
         else if w ! (wordBytes - 1) = 1 then Inr True
         else Inl (CallFailed ''eth_call'')))"

definition evm_Paused :: "(byte list \<Rightarrow> byte list) \<Rightarrow> transport \<Rightarrow> string \<Rightarrow> (chain_error, bool) result" where
  "evm_Paused keccak ask asset =
     bindE (mapErr (\<lambda>_. CallFailed ''address'') (parseAddress keccak asset)) (\<lambda>contract. flag ask contract pausedSelector)"

definition evm_Blocklisted :: "(byte list \<Rightarrow> byte list) \<Rightarrow> transport \<Rightarrow> string \<Rightarrow> string \<Rightarrow> (chain_error, bool) result" where
  "evm_Blocklisted keccak ask asset account =
     bindE (mapErr (\<lambda>_. CallFailed ''address'') (parseAddress keccak asset)) (\<lambda>contract.
     bindE (mapErr (\<lambda>_. CallFailed ''address'') (parseAddress keccak account)) (\<lambda>who.
       flag ask contract (blocklistedSelector @ hexEncode (zeros (wordBytes - addressBytes) @ who))))"

definition evm_DomainSeparator :: "(byte list \<Rightarrow> byte list) \<Rightarrow> transport \<Rightarrow> string \<Rightarrow> (chain_error, byte list) result" where
  "evm_DomainSeparator keccak ask asset =
     bindE (mapErr (\<lambda>_. CallFailed ''address'') (parseAddress keccak asset)) (\<lambda>contract.
     bindE (mapErr (\<lambda>f. if f = FaultReverted then ErrNoSeparator else faultOf ''eth_call'' f)
       (contractCall ask contract domainSeparatorSelector)) (\<lambda>raw.
       if raw = AText ''0x'' then Inl (CallFailed ''DOMAIN_SEPARATOR()'')
       else mapErr (\<lambda>_. CallFailed ''DOMAIN_SEPARATOR()'') (unmarshalBytes wordBytes raw)))"

definition evm_Name :: "(byte list \<Rightarrow> byte list) \<Rightarrow> transport \<Rightarrow> string \<Rightarrow> (chain_error, string) result" where
  "evm_Name keccak ask asset =
     bindE (mapErr (\<lambda>_. CallFailed ''address'') (parseAddress keccak asset)) (\<lambda>contract.
     bindE (mapErr (faultOf ''eth_call'') (contractCall ask contract nameSelector)) (\<lambda>raw.
       if raw = AText ''0x'' then Inl (CallFailed ''name()'')
       else mapErr (\<lambda>_. CallFailed ''name()'') (decodeString raw)))"

text \<open>The adapter: what each call answers while the transport answers as it does.\<close>

definition evm_chain :: "(byte list \<Rightarrow> byte list) \<Rightarrow> transport \<Rightarrow> chain" where
  "evm_chain keccak ask = \<lparr>ch_Identity = evm_Identity ask, ch_Head = evm_Head ask, ch_Block = evm_Block ask,
     ch_Keys = evm_Keys keccak ask, ch_Receipt = evm_Receipt ask, ch_Implementation = evm_Implementation keccak ask,
     ch_DomainSeparator = evm_DomainSeparator keccak ask, ch_Name = evm_Name keccak ask, ch_Paused = evm_Paused keccak ask,
     ch_Blocklisted = evm_Blocklisted keccak ask\<rparr>"

text \<open>A count within the bound of a stamp wraps all the same, to a time before year 1.\<close>

lemma stamp_wraps_past: "case blockStamp 9223372036854775807 of Inl _ \<Rightarrow> False | Inr t \<Rightarrow> t < 0"
  by (simp add: blockStamp_def unixTime_def mult_less_0_iff)

end
