(* ===== verification/Evm_Pairs.thy ===== *)
theory Evm_Pairs
  imports Evm_Chain
begin

text \<open>
  What a receipt is read into: each transfer stands for one authorisation and one transfer of the account
  that signed it, no transfer stands for two, and where a token writes the two together none is missed.
\<close>

section \<open>Each transfer is one of its signer\<close>

definition pairOf :: "string \<Rightarrow> log_entry list \<Rightarrow> nat \<Rightarrow> nat \<times> nat \<Rightarrow> chain_transfer \<Rightarrow> bool" where
  "pairOf tx logs n p t =
     (let (i, at) = p in i < at \<and> at < length logs
        \<and> topic (logs ! i) = authorizationTopic \<and> topic (logs ! at) = transferredTopic
        \<and> lo_address (logs ! i) = lo_address (logs ! at) \<and> ct_asset t = hexString (lo_address (logs ! i))
        \<and> logKey (logs ! i) = Inr (ct_key t)
        \<and> (\<exists>a. indexed (logs ! i) 1 = Inr a \<and> indexed (logs ! at) 1 = Inr a \<and> ct_authorizer t = hexString a \<and> ct_from t = hexString a)
        \<and> (\<exists>b. indexed (logs ! at) 2 = Inr b \<and> ct_to t = hexString b)
        \<and> units (lo_data (logs ! at)) = Inr (ct_value t) \<and> ct_tx t = tx \<and> ct_position t = int n)"

definition pairedBy :: "string \<Rightarrow> log_entry list \<Rightarrow> (nat \<times> nat) list \<Rightarrow> chain_transfer list \<Rightarrow> bool" where
  "pairedBy tx logs ps ts =
     (length ps = length ts \<and> sorted_wrt (<) (map fst ps) \<and> distinct (map snd ps)
      \<and> (\<forall>n<length ts. pairOf tx logs n (ps ! n) (ts ! n)))"

lemma followedBy_SomeD:
  "followedBy logs taken i a = Some at \<Longrightarrow>
     i \<le> at \<and> at < length logs \<and> at \<notin> taken \<and> lo_address (logs ! at) = a \<and> topic (logs ! at) = transferredTopic"
proof (induction logs taken i a rule: followedBy.induct)
  case (1 logs taken i a)
  show ?case using 1 by (auto simp: followedBy.simps [of logs taken i a] split: if_splits)
qed

lemma pairedBy_snoc:
  assumes "pairedBy tx logs ps ts" "pairOf tx logs (length ts) (i, at) t" "\<forall>(j, _)\<in>set ps. j < i" "at \<notin> snd ` set ps"
  shows "pairedBy tx logs (ps @ [(i, at)]) (ts @ [t])"
  using assms by (auto simp: pairedBy_def sorted_wrt_append nth_append less_Suc_eq)

lemma pairLog_cases:
  assumes "pairLog tx logs i (ts, taken) = Inr st"
  shows "st = (ts, taken) \<or> (\<exists>key a at b v. topic (logs ! i) = authorizationTopic \<and> logKey (logs ! i) = Inr key
      \<and> indexed (logs ! i) 1 = Inr a \<and> followedBy logs taken (i + 1) (lo_address (logs ! i)) = Some at
      \<and> indexed (logs ! at) 1 = Inr a \<and> indexed (logs ! at) 2 = Inr b \<and> units (lo_data (logs ! at)) = Inr v
      \<and> st = (ts @ [\<lparr>ct_scheme = ''eip3009'', ct_asset = hexString (lo_address (logs ! i)), ct_key = key,
                    ct_authorizer = hexString a, ct_from = hexString a, ct_to = hexString b,
                    ct_value = v, ct_tx = tx, ct_position = int (length ts),
                    ct_block = \<lparr>bl_height = 0, bl_hash = [], bl_parent = [], bl_time = 0\<rparr>\<rparr>], insert at taken))"
  using assms by (simp add: pairLog_def Let_def res_simps split: if_splits option.splits) blast+

lemma pairLog_paired:
  assumes "pairLog tx logs i (ts, snd ` set ps) = Inr (ts', taken')" "pairedBy tx logs ps ts" "\<forall>(j, _)\<in>set ps. j < i"
  shows "\<exists>qs. pairedBy tx logs (ps @ qs) ts' \<and> taken' = snd ` set (ps @ qs) \<and> (\<forall>(j, _)\<in>set qs. j = i)"
  using pairLog_cases [OF assms(1)]
proof (elim disjE exE conjE)
  assume "(ts', taken') = (ts, snd ` set ps)"
  then show ?thesis using assms(2) by (intro exI [of _ "[]"]) auto
next
  fix key a at b v
  assume step: "topic (logs ! i) = authorizationTopic" "logKey (logs ! i) = Inr key" "indexed (logs ! i) 1 = Inr a"
      "followedBy logs (snd ` set ps) (i + 1) (lo_address (logs ! i)) = Some at" "indexed (logs ! at) 1 = Inr a"
      "indexed (logs ! at) 2 = Inr b" "units (lo_data (logs ! at)) = Inr v"
      "(ts', taken') = (ts @ [\<lparr>ct_scheme = ''eip3009'', ct_asset = hexString (lo_address (logs ! i)), ct_key = key,
                    ct_authorizer = hexString a, ct_from = hexString a, ct_to = hexString b,
                    ct_value = v, ct_tx = tx, ct_position = int (length ts),
                    ct_block = \<lparr>bl_height = 0, bl_hash = [], bl_parent = [], bl_time = 0\<rparr>\<rparr>], insert at (snd ` set ps))"
  note at = followedBy_SomeD [OF step(4)]
  show ?thesis
    using step at pairedBy_snoc [OF assms(2), of i at "last ts'"] assms(3)
    by (intro exI [of _ "[(i, at)]"]) (auto simp: pairOf_def)
qed

lemma pairLogs_paired:
  assumes "pairLogs tx logs is (ts, snd ` set ps) = Inr (ts', taken')" "pairedBy tx logs ps ts"
    and "sorted_wrt (<) is" "\<forall>(j, _)\<in>set ps. \<forall>i\<in>set is. j < i"
  shows "\<exists>ps'. pairedBy tx logs ps' ts'"
  using assms
proof (induction "is" arbitrary: ts ps)
  case (Cons i "is")
  then obtain ts1 taken1 where one: "pairLog tx logs i (ts, snd ` set ps) = Inr (ts1, taken1)" "pairLogs tx logs is (ts1, taken1) = Inr (ts', taken')"
    by (auto simp: res_simps)
  obtain qs where qs: "pairedBy tx logs (ps @ qs) ts1" "taken1 = snd ` set (ps @ qs)" "\<forall>(j, _)\<in>set qs. j = i"
    using pairLog_paired [OF one(1) Cons.prems(2)] Cons.prems(4) by fastforce
  show ?case
    using Cons.IH [of ts1 "ps @ qs"] one(2) qs Cons.prems(3,4) by fastforce
qed auto

text \<open>
  C36: every transfer a receipt is read into stands for an authorisation in it and a transfer behind it, of
  the same token and out of the account that signed, with the key that was spent and the amount that moved;
  no log stands for two of them, and they are numbered in the order of the logs.
\<close>

theorem receipt_pairs_once:
  assumes "transfers tx logs = Inr ts"
  shows "\<exists>ps. length ps = length ts \<and> sorted_wrt (<) (map fst ps) \<and> distinct (map snd ps)
    \<and> (\<forall>n<length ts. pairOf tx logs n (ps ! n) (ts ! n))"
proof -
  obtain taken where "pairLogs tx logs [0..<length logs] ([], {}) = Inr (ts, taken)"
    using assms by (auto simp: transfers_def res_simps split: if_splits)
  then show ?thesis
    using pairLogs_paired [of tx logs "[0..<length logs]" "[]" "[]" ts taken] by (auto simp: pairedBy_def)
qed

section \<open>Where the two are written together\<close>

definition together :: "log_entry list \<Rightarrow> nat \<Rightarrow> bool" where
  "together logs i =
     (i + 1 < length logs \<and> length (lo_topics (logs ! i)) = 3 \<and> topic (logs ! (i + 1)) = transferredTopic
      \<and> lo_address (logs ! (i + 1)) = lo_address (logs ! i)
      \<and> isOk (indexed (logs ! i) 1) \<and> indexed (logs ! (i + 1)) 1 = indexed (logs ! i) 1
      \<and> isOk (indexed (logs ! (i + 1)) 2) \<and> isOk (units (lo_data (logs ! (i + 1)))))"

definition spends :: "log_entry list \<Rightarrow> nat list" where
  "spends logs = filter (\<lambda>i. topic (logs ! i) = authorizationTopic) [0..<length logs]"

lemma pairLog_together:
  assumes "topic (logs ! i) = authorizationTopic" "together logs i" "Suc i \<notin> taken"
  shows "\<exists>t. pairLog tx logs i (ts, taken) = Inr (ts @ [t], insert (Suc i) taken) \<and> pairOf tx logs (length ts) (i, Suc i) t"
proof -
  obtain a b v where ok: "indexed (logs ! i) 1 = Inr a" "indexed (logs ! Suc i) 1 = Inr a" "indexed (logs ! Suc i) 2 = Inr b"
      "units (lo_data (logs ! Suc i)) = Inr v" "logKey (logs ! i) = Inr (hexEncode (lo_topics (logs ! i) ! 2))"
    using assms(2) by (auto simp: together_def isOk_iff logKey_def)
  have "followedBy logs taken (Suc i) (lo_address (logs ! i)) = Some (Suc i)"
    using assms(2,3) by (simp add: together_def followedBy.simps [of logs taken "Suc i"])
  then show ?thesis
    using assms ok by (simp add: pairLog_def Let_def pairOf_def together_def)
qed

lemma pairLogs_together:
  assumes "\<forall>i\<in>set is. topic (logs ! i) = authorizationTopic \<longrightarrow> together logs i"
    and "sorted_wrt (<) is" "\<forall>j\<in>taken. \<forall>i\<in>set is. j \<le> i"
  shows "\<exists>us taken'. pairLogs tx logs is (ts, taken) = Inr (ts @ us, taken')
    \<and> length us = length (filter (\<lambda>i. topic (logs ! i) = authorizationTopic) is)
    \<and> (\<forall>n<length us. pairOf tx logs (length ts + n) (let i = filter (\<lambda>i. topic (logs ! i) = authorizationTopic) is ! n in (i, Suc i)) (us ! n))"
  using assms
proof (induction "is" arbitrary: ts taken)
  case (Cons i "is")
  show ?case
  proof (cases "topic (logs ! i) = authorizationTopic")
    case True
    have "Suc i \<notin> taken" using Cons.prems(3) by auto
    then obtain t where t: "pairLog tx logs i (ts, taken) = Inr (ts @ [t], insert (Suc i) taken)" "pairOf tx logs (length ts) (i, Suc i) t"
      using pairLog_together [OF True, of taken tx ts] Cons.prems(1) True by auto
    have "\<forall>j\<in>insert (Suc i) taken. \<forall>k\<in>set is. j \<le> k" using Cons.prems(2,3) by auto
    then obtain us taken' where us: "pairLogs tx logs is (ts @ [t], insert (Suc i) taken) = Inr ((ts @ [t]) @ us, taken')"
        "length us = length (filter (\<lambda>i. topic (logs ! i) = authorizationTopic) is)"
        "\<forall>n<length us. pairOf tx logs (length (ts @ [t]) + n) (let i = filter (\<lambda>i. topic (logs ! i) = authorizationTopic) is ! n in (i, Suc i)) (us ! n)"
      using Cons.IH [of "insert (Suc i) taken" "ts @ [t]"] Cons.prems(1,2) by auto
    show ?thesis
      using t us True by (intro exI [of _ "t # us"] exI [of _ taken']) (auto simp: less_Suc_eq_0_disj)
  next
    case False
    then show ?thesis using Cons by (auto simp: pairLog_def)
  qed
qed simp

text \<open>
  C37: where a token writes the transfer right behind the authorisation, every authorisation of a receipt is
  read, in order, with its own transfer.
\<close>

theorem together_all_read:
  assumes "length logs \<le> maxLogs" "\<forall>i\<in>set (spends logs). together logs i"
  shows "\<exists>ts. transfers tx logs = Inr ts \<and> length ts = length (spends logs)
    \<and> (\<forall>n<length ts. pairOf tx logs n (spends logs ! n, Suc (spends logs ! n)) (ts ! n))"
proof -
  have "\<forall>i\<in>set [0..<length logs]. topic (logs ! i) = authorizationTopic \<longrightarrow> together logs i"
    using assms(2) by (simp add: spends_def)
  from pairLogs_together [OF this, of "{}" tx "[]"] obtain us taken' where
      "pairLogs tx logs [0..<length logs] ([], {}) = Inr (us, taken')" "length us = length (spends logs)"
      "\<forall>n<length us. pairOf tx logs n (let i = spends logs ! n in (i, Suc i)) (us ! n)"
    by (auto simp: spends_def)
  then show ?thesis using assms(1) by (auto simp: transfers_def Let_def)
qed

section \<open>A receipt of two payments\<close>

definition demo_word :: "string \<Rightarrow> byte list" where
  "demo_word s = (case hexDecode (drop 2 s) of Some bs \<Rightarrow> bs | None \<Rightarrow> [])"

definition demo_account :: "byte \<Rightarrow> byte list" where "demo_account b = zeros (wordBytes - addressBytes) @ replicate addressBytes b"

definition demo_spent :: "byte \<Rightarrow> byte \<Rightarrow> log_entry" where
  "demo_spent signer key = \<lparr>lo_address = replicate addressBytes 9, lo_topics = [demo_word authorizationTopic, demo_account signer, replicate wordBytes key],
     lo_data = [], lo_tx = replicate hashBytes 1\<rparr>"

definition demo_moved :: "byte \<Rightarrow> byte \<Rightarrow> char \<Rightarrow> log_entry" where
  "demo_moved from to digit = \<lparr>lo_address = replicate addressBytes 9, lo_topics = [demo_word transferredTopic, demo_account from, demo_account to],
     lo_data = ''0x'' @ replicate 63 CHR ''0'' @ [digit], lo_tx = replicate hashBytes 1\<rparr>"

definition demo_logs :: "log_entry list" where
  "demo_logs = [demo_spent 1 7, demo_moved 1 2 CHR ''5'', demo_spent 3 8, demo_moved 3 4 CHR ''6'']"

definition demo_read :: "chain_transfer list" where
  "demo_read = (case transfers ''0x01'' demo_logs of Inr ts \<Rightarrow> ts | Inl _ \<Rightarrow> [])"

lemma demo_read: "transfers ''0x01'' demo_logs = Inr demo_read"
proof -
  have "isOk (transfers ''0x01'' demo_logs)" by code_simp
  then show ?thesis by (auto simp: demo_read_def isOk_iff)
qed

lemma demo_read_values: "map ct_value demo_read = [''5'', ''6'']"
  by code_simp

theorem receipt_pairs_once_witness: "\<exists>ps. length ps = 2 \<and> distinct (map snd ps) \<and> pairOf ''0x01'' demo_logs 1 (ps ! 1) (demo_read ! 1)"
proof -
  have "length demo_read = 2" using arg_cong [OF demo_read_values, of length] by simp
  then show ?thesis using receipt_pairs_once [OF demo_read] by auto
qed

theorem together_all_read_witness: "spends demo_logs = [0, 2] \<and> (\<exists>ts. transfers ''0x01'' demo_logs = Inr ts \<and> length ts = 2)"
proof -
  have s: "spends demo_logs = [0, 2]" by code_simp
  have t: "together demo_logs 0" "together demo_logs 2" by code_simp+
  have "length demo_logs \<le> maxLogs" by code_simp
  then show ?thesis using together_all_read [of demo_logs "''0x01''"] s t by auto
qed

end
