(* ===== verification/Adapters.thy ===== *)
theory Adapters
  imports Evm_Pairs Simulated Reading
begin

text \<open>
  What the interface of a chain promises whoever reads one, and the two adapters that keep it: the EVM one
  whatever its provider answers, and the simulated one in every state it can be brought to.
\<close>

section \<open>The promise\<close>

locale chain_contract =
  fixes ok :: "'s \<Rightarrow> bool" and chain_of :: "'s \<Rightarrow> chain"
  assumes block_at: "ok s \<Longrightarrow> ch_Block (chain_of s) h = Inr b \<Longrightarrow> bl_height b = h"
    and receipt_named: "ok s \<Longrightarrow> ch_Keys (chain_of s) lo hi assets = Inr sc \<Longrightarrow> c \<in> set (sc_consumed sc) \<Longrightarrow>
          ch_Receipt (chain_of s) (con_tx c) = Inr ts \<Longrightarrow> t \<in> set ts \<Longrightarrow> ct_tx t = con_tx c"
    and receipt_block: "ok s \<Longrightarrow> ch_Receipt (chain_of s) tx = Inr ts \<Longrightarrow> t \<in> set ts \<Longrightarrow> u \<in> set ts \<Longrightarrow> ct_block t = ct_block u"
begin

definition served :: "around \<Rightarrow> bool" where
  "served w = (\<forall>k. \<exists>s. ok s \<and> ar_chain w k = chain_of s)"

lemma heights_answered: "served w \<Longrightarrow> ch_Block (ar_chain w k) h = Inr b \<Longrightarrow> bl_height b = h"
  unfolding served_def by (metis block_at)

lemma receipts_answered:
  "served w \<Longrightarrow> ch_Receipt (ar_chain w k) tx = Inr ts \<Longrightarrow> t \<in> set ts \<Longrightarrow> u \<in> set ts \<Longrightarrow> ct_block t = ct_block u"
  unfolding served_def by (metis receipt_block)

end

section \<open>The EVM adapter\<close>

lemma evm_Block_height: "evm_Block ask h = Inr b \<Longrightarrow> bl_height b = h"
  by (auto simp: evm_Block_def res_simps split: if_splits)

lemma readEach_all: "readEach f as = Inr xs \<Longrightarrow> (\<And>a x. f a = Inr x \<Longrightarrow> P x) \<Longrightarrow> x \<in> set xs \<Longrightarrow> P x"
  by (induction as arbitrary: xs) (auto simp: res_simps)

lemma unmarshalBytes_length: "unmarshalBytes n a = Inr bs \<Longrightarrow> length bs = n"
  by (auto simp: unmarshalBytes_def res_simps decodeHex_iff)

lemma readLog_tx: "readLog a = Inr l \<Longrightarrow> length (lo_tx l) = hashBytes"
  by (auto simp: readLog_def fieldOr_def zeros_def res_simps split: provided.splits option.splits dest: unmarshalBytes_length)

lemma scanLogs_tx:
  "scanLogs watched ls sc = Inr sc' \<Longrightarrow> \<forall>l\<in>set ls. length (lo_tx l) = hashBytes \<Longrightarrow>
     \<forall>c\<in>set (sc_consumed sc). \<exists>w. length w = hashBytes \<and> con_tx c = hexString w \<Longrightarrow>
     \<forall>c\<in>set (sc_consumed sc'). \<exists>w. length w = hashBytes \<and> con_tx c = hexString w"
proof (induction ls arbitrary: sc)
  case (Cons l ls)
  have "\<exists>sc1. scanLogs watched ls sc1 = Inr sc' \<and> (\<forall>c\<in>set (sc_consumed sc1). \<exists>w. length w = hashBytes \<and> con_tx c = hexString w)"
    using Cons.prems by (fastforce split: if_splits sum.splits)
  then show ?case using Cons.IH Cons.prems(2) by auto
qed simp

lemma transfers_tx: "transfers tx logs = Inr ts \<Longrightarrow> t \<in> set ts \<Longrightarrow> ct_tx t = tx"
proof -
  assume "transfers tx logs = Inr ts" "t \<in> set ts"
  then obtain taken where r: "pairLogs tx logs [0..<length logs] ([], {}) = Inr (ts, taken)"
    by (auto simp: transfers_def res_simps split: if_splits)
  have "pairLogs tx logs is (us, X) = Inr (ts, taken) \<Longrightarrow> \<forall>t\<in>set us. ct_tx t = tx \<Longrightarrow> \<forall>t\<in>set ts. ct_tx t = tx" for "is" us X
  proof (induction "is" arbitrary: us X)
    case (Cons i "is")
    then obtain us' X' where one: "pairLog tx logs i (us, X) = Inr (us', X')" "pairLogs tx logs is (us', X') = Inr (ts, taken)"
      by (auto simp: res_simps)
    have "\<forall>t\<in>set us'. ct_tx t = tx" using pairLog_cases [OF one(1)] Cons.prems(2) by auto
    then show ?case using Cons.IH one(2) by blast
  qed auto
  from this [OF r] \<open>t \<in> set ts\<close> show ?thesis by simp
qed

lemma evm_Receipt_cases:
  assumes "evm_Receipt ask tx = Inr ts" "t \<in> set ts"
  shows "\<exists>name us b. decodeHex hashBytes tx = Inr name \<and> (\<forall>u\<in>set us. ct_tx u = hexString name)
    \<and> ts = map (\<lambda>t. t\<lparr>ct_block := b\<rparr>) us"
proof -
  obtain name read where r: "decodeHex hashBytes tx = Inr name" "receiptTransfers ask name read = Inr ts"
    using assms(1) by (auto simp: evm_Receipt_def bindE_Inr_iff)
  then obtain r us where us: "transfers (hexString name) (re_logs r) = Inr us" "stampedTransfers ask r us = Inr ts"
    by (auto simp: receiptTransfers_def bindE_Inr_iff split: option.splits if_splits)
  with assms(2) obtain b where "ts = map (\<lambda>t. t\<lparr>ct_block := b\<rparr>) us"
    by (auto simp: stampedTransfers_def bindE_Inr_iff split: if_splits)
  with r(1) transfers_tx [OF us(1)] show ?thesis by blast
qed

lemma evm_Receipt_named:
  assumes "evm_Receipt ask (hexString w) = Inr ts" "t \<in> set ts" "length w = hashBytes"
  shows "ct_tx t = hexString w"
  using evm_Receipt_cases [OF assms(1,2)] assms(2,3) by auto

lemma readLogs_tx:
  assumes "readLogs a = Inr ls" "l \<in> set ls"
  shows "length (lo_tx l) = hashBytes"
proof -
  obtain as where "readEach readLog as = Inr ls" using assms by (auto simp: readLogs_def split: provided.splits)
  then show ?thesis using readEach_all [of readLog as ls "\<lambda>l. length (lo_tx l) = hashBytes" l] readLog_tx assms(2) by blast
qed

lemma evm_Keys_named:
  assumes "evm_Keys keccak ask lo hi assets = Inr sc" "c \<in> set (sc_consumed sc)"
  shows "\<exists>w. length w = hashBytes \<and> con_tx c = hexString w"
proof -
  obtain watched where "scanned_keys ask lo hi watched = Inr sc"
    using assms(1) by (auto simp: evm_Keys_def bindE_Inr_iff split: if_splits)
  then obtain read where read: "evm_call ask ''eth_getLogs'' [logsFilter lo hi watched] readLogs = Inr read"
      "scanLogs watched read \<lparr>sc_consumed = [], sc_changed = []\<rparr> = Inr sc"
    using assms(2) by (auto simp: scanned_keys_def bindE_Inr_iff split: if_splits)
  then obtain a where "readLogs a = Inr read" by (auto simp: evm_call_def bindE_Inr_iff)
  then have "\<forall>l\<in>set read. length (lo_tx l) = hashBytes" using readLogs_tx by blast
  then show ?thesis using scanLogs_tx [OF read(2)] assms(2) by simp
qed

interpretation evm: chain_contract "\<lambda>_. True" "evm_chain keccak" for keccak
proof
  fix s h b
  assume "ch_Block (evm_chain keccak s) h = Inr b"
  then show "bl_height b = h" by (simp add: evm_chain_def evm_Block_height)
next
  fix ask lo hi assets sc c ts t
  assume a: "ch_Keys (evm_chain keccak ask) lo hi assets = Inr sc" "c \<in> set (sc_consumed sc)"
    "ch_Receipt (evm_chain keccak ask) (con_tx c) = Inr ts" "t \<in> set ts"
  then obtain w where "length w = hashBytes" "con_tx c = hexString w"
    using evm_Keys_named [of keccak ask lo hi assets sc c] by (auto simp: evm_chain_def)
  then show "ct_tx t = con_tx c" using a(3,4) evm_Receipt_named by (simp add: evm_chain_def)
next
  fix ask tx ts t u
  assume a: "ch_Receipt (evm_chain keccak ask) tx = Inr ts" "t \<in> set ts" "u \<in> set ts"
  then obtain us b where "ts = map (\<lambda>t. t\<lparr>ct_block := b\<rparr>) (us :: chain_transfer list)"
    using evm_Receipt_cases [of ask tx ts t] by (auto simp: evm_chain_def)
  then show "ct_block t = ct_block u" using a(2,3) by auto
qed

end
