(* ===== verification/Sim_Runs.thy ===== *)
theory Sim_Runs
  imports Adapters Covering
begin

text \<open>
  Runs of the simulated chain: in every state it can be brought to its blocks are one chain, and what was
  final stays where it is. The promise of the interface holds there, and the observer's reading of blocks
  rests on either adapter.
\<close>

section \<open>Runs\<close>

inductive sim_step :: "sim \<Rightarrow> sim \<Rightarrow> bool" where
  mine: "sim_step s (snd (Mine s))"
| send: "sim_step s (SendTransfer t s)"
| upgrade: "sim_step s (Upgrade a s)"
| pause: "sim_step s (sim_Pause a s)"
| unpause: "sim_step s (sim_Unpause a s)"
| blocklist: "sim_step s (sim_Blocklist a b s)"
| finalize: "Finalize h s = Some s' \<Longrightarrow> sim_step s s'"
| reorg: "Reorg h ks s = Some s' \<Longrightarrow> sim_step s s'"
| fail: "sim_step s (sim_Fail e s)"
| fail_at: "sim_step s (sim_FailAt m n e s)"
| call: "sim_step s (snd (enter m s))"

definition linked :: "sim_block list \<Rightarrow> bool" where
  "linked bs = (\<forall>h<length bs. bl_height (sb_block (bs ! h)) = word_of_nat h
     \<and> bl_parent (sb_block (bs ! h)) = (if h = 0 then [] else bl_hash (sb_block (bs ! (h - 1))))
     \<and> (\<forall>t\<in>set (sb_transfers (bs ! h)). ct_block t = sb_block (bs ! h)))"

definition hashedBelow :: "nat \<Rightarrow> sim_block list \<Rightarrow> bool" where
  "hashedBelow n bs = (\<exists>ns. sorted_wrt (<) ns \<and> (\<forall>m\<in>set ns. m \<le> n) \<and> map (bl_hash \<circ> sb_block) bs = map (\<lambda>m. ''block'' @ dec m) ns)"

definition sim_ok :: "sim \<Rightarrow> bool" where
  "sim_ok s = (sm_final s < length (sm_blocks s) \<and> linked (sm_blocks s) \<and> hashedBelow (sm_made s) (sm_blocks s))"

lemma linked_take: "linked bs \<Longrightarrow> linked (take n bs)"
  by (auto simp: linked_def)

lemma hashedBelow_take: "hashedBelow n bs \<Longrightarrow> hashedBelow n (take k bs)"
proof -
  assume "hashedBelow n bs"
  then obtain ns where ns: "sorted_wrt (<) ns" "\<forall>m\<in>set ns. m \<le> n" "map (bl_hash \<circ> sb_block) bs = map (\<lambda>m. ''block'' @ dec m) ns"
    by (auto simp: hashedBelow_def)
  have "map (bl_hash \<circ> sb_block) (take k bs) = map (\<lambda>m. ''block'' @ dec m) (take k ns)"
    using arg_cong [OF ns(3), of "take k"] by (simp only: take_map)
  moreover have "sorted_wrt (<) (take k ns)" "\<forall>m\<in>set (take k ns). m \<le> n"
    using ns(1,2) by (auto simp: sorted_wrt_take dest: in_set_takeD)
  ultimately show ?thesis unfolding hashedBelow_def by blast
qed

lemma linked_snoc:
  assumes "linked bs" "bl_height (sb_block b) = word_of_nat (length bs)" "\<forall>t\<in>set (sb_transfers b). ct_block t = sb_block b"
    and "bl_parent (sb_block b) = (if length bs > 0 then bl_hash (sb_block (bs ! (length bs - 1))) else [])"
  shows "linked (bs @ [b])"
  using assms by (auto simp: linked_def nth_append less_Suc_eq)

lemma hashedBelow_snoc:
  assumes "hashedBelow n bs" "bl_hash (sb_block b) = ''block'' @ dec (Suc n)"
  shows "hashedBelow (Suc n) (bs @ [b])"
proof -
  obtain ns where ns: "sorted_wrt (<) ns" "\<forall>m\<in>set ns. m \<le> n" "map (bl_hash \<circ> sb_block) bs = map (\<lambda>m. ''block'' @ dec m) ns"
    using assms(1) by (auto simp: hashedBelow_def)
  then have "sorted_wrt (<) (ns @ [Suc n])" "\<forall>m\<in>set (ns @ [Suc n]). m \<le> Suc n"
      "map (bl_hash \<circ> sb_block) (bs @ [b]) = map (\<lambda>m. ''block'' @ dec m) (ns @ [Suc n])"
    using assms(2) by (auto simp: sorted_wrt_append less_Suc_eq_le)
  then show ?thesis unfolding hashedBelow_def by blast
qed

lemma hashedBelow_distinct: "hashedBelow n bs \<Longrightarrow> distinct (map (bl_hash \<circ> sb_block) bs)"
proof -
  assume "hashedBelow n bs"
  then obtain ns where ns: "sorted_wrt (<) ns" "map (bl_hash \<circ> sb_block) bs = map (\<lambda>m. ''block'' @ dec m) ns"
    by (auto simp: hashedBelow_def)
  have "inj (\<lambda>m. ''block'' @ dec m)" by (rule injI) (metis same_append_eq undec_dec)
  then have "inj_on (\<lambda>m. ''block'' @ dec m) (set ns)" by (rule inj_on_subset) simp
  then show ?thesis using ns strict_sorted_iff [of ns] by (simp add: distinct_map del: append.simps)
qed

lemma mined_ok:
  assumes "linked (sm_blocks s)" "hashedBelow (sm_made s) (sm_blocks s)" "sm_final s \<le> length (sm_blocks s)"
  shows "sim_ok (mined ts s)"
proof -
  define b where "b = last (sm_blocks (mined ts s))"
  have b: "sm_blocks (mined ts s) = sm_blocks s @ [b]" "sm_final (mined ts s) = sm_final s" "sm_made (mined ts s) = Suc (sm_made s)"
    by (simp_all add: b_def mined_def Let_def)
  have "linked (sm_blocks s @ [b])" using assms(1) by (rule linked_snoc) (auto simp: b_def mined_def Let_def)
  moreover have "hashedBelow (Suc (sm_made s)) (sm_blocks s @ [b])"
    using assms(2) by (rule hashedBelow_snoc) (simp add: b_def mined_def Let_def)
  ultimately show ?thesis using assms(3) by (simp add: sim_ok_def b)
qed

lemma newSim_ok: "sim_ok newSim"
  unfolding newSim_def by (rule mined_ok) (auto simp: linked_def hashedBelow_def)

lemma sim_step_ok: "sim_step s s' \<Longrightarrow> sim_ok s \<Longrightarrow> sim_ok s'"
proof (induction rule: sim_step.induct)
  case (mine s)
  then show ?case unfolding Mine_def snd_conv by (intro mined_ok) (auto simp: sim_ok_def)
next
  case (finalize h s s')
  then show ?case by (auto simp: Finalize_def sim_ok_def split: if_splits)
next
  case (reorg h ks s s')
  then have "s' = mined (keptFrom ks (drop h (sm_blocks s))) (s\<lparr>sm_blocks := take h (sm_blocks s)\<rparr>)" "sm_final s < h" "h < length (sm_blocks s)"
    by (auto simp: Reorg_def Let_def split: if_splits)
  moreover have "sim_ok (mined (keptFrom ks (drop h (sm_blocks s))) (s\<lparr>sm_blocks := take h (sm_blocks s)\<rparr>))"
    using calculation(2,3) reorg.prems by (intro mined_ok) (auto simp: sim_ok_def intro!: linked_take hashedBelow_take)
  ultimately show ?case by simp
qed (auto simp: sim_ok_def SendTransfer_def Upgrade_def sim_Pause_def sim_Unpause_def sim_Blocklist_def sim_Fail_def sim_FailAt_def
    enter_def Let_def)

definition finalBlocks :: "sim \<Rightarrow> sim_block list" where
  "finalBlocks s = take (Suc (sm_final s)) (sm_blocks s)"

lemma sim_step_final:
  "sim_step s s' \<Longrightarrow> sim_ok s \<Longrightarrow> sm_final s \<le> sm_final s' \<and> take (Suc (sm_final s)) (sm_blocks s') = finalBlocks s"
proof (induction rule: sim_step.induct)
  case (reorg h ks s s')
  then have "take (Suc (sm_final s)) (take h (sm_blocks s)) = take (Suc (sm_final s)) (sm_blocks s)"
    by (simp add: Reorg_def Let_def min_def split: if_splits)
  with reorg show ?case
    by (auto simp: Reorg_def Let_def mined_def finalBlocks_def sim_ok_def split: if_splits)
qed (auto simp: sim_ok_def Mine_def mined_def Let_def finalBlocks_def Finalize_def SendTransfer_def Upgrade_def sim_Pause_def
    sim_Unpause_def sim_Blocklist_def sim_Fail_def sim_FailAt_def enter_def split: if_splits)

text \<open>
  C40: whatever is done to a simulated chain, its blocks are one chain from height zero, each naming the one
  before it, no two with one hash, and every transfer in its block; and what was final stays where it is and
  stays final.
\<close>

theorem simulated_is_a_chain:
  assumes "sim_step\<^sup>*\<^sup>* newSim s" "sim_step\<^sup>*\<^sup>* s s'"
  shows "linked (sm_blocks s) \<and> distinct (map (bl_hash \<circ> sb_block) (sm_blocks s)) \<and> sm_final s < length (sm_blocks s)
    \<and> sm_final s \<le> sm_final s' \<and> take (Suc (sm_final s)) (sm_blocks s') = finalBlocks s"
proof -
  have ok: "sim_ok s" using assms(1) by (induction) (auto intro: newSim_ok sim_step_ok)
  have "sim_ok s' \<and> sm_final s \<le> sm_final s' \<and> take (Suc (sm_final s)) (sm_blocks s') = finalBlocks s"
    using assms(2)
  proof (induction)
    case (step t u)
    have t: "sim_ok t" "sm_final s \<le> sm_final t" "take (Suc (sm_final s)) (sm_blocks t) = finalBlocks s" using step by auto
    have u: "sm_final t \<le> sm_final u" "take (Suc (sm_final t)) (sm_blocks u) = take (Suc (sm_final t)) (sm_blocks t)"
      using sim_step_final [OF step(2) t(1)] by (simp_all add: finalBlocks_def)
    have "take (Suc (sm_final s)) (take (Suc (sm_final t)) (sm_blocks u)) = take (Suc (sm_final s)) (take (Suc (sm_final t)) (sm_blocks t))"
      by (simp only: u(2))
    then have "take (Suc (sm_final s)) (sm_blocks u) = finalBlocks s" using t(2,3) by (simp add: min_def)
    then show ?case using t u sim_step_ok [OF step(2)] by simp
  qed (simp add: ok finalBlocks_def)
  then show ?thesis using ok hashedBelow_distinct by (auto simp: sim_ok_def)
qed

text \<open>A transfer is mined and made final, and a block after it is replaced.\<close>

definition demo_simulated :: chain_transfer where
  "demo_simulated = \<lparr>ct_scheme = ''eip3009'', ct_asset = ''a'', ct_key = ''k'', ct_authorizer = ''p'', ct_from = ''p'', ct_to = ''q'',
     ct_value = ''5'', ct_tx = [], ct_position = 0, ct_block = \<lparr>bl_height = 0, bl_hash = [], bl_parent = [], bl_time = 0\<rparr>\<rparr>"

definition demo_mined :: sim where "demo_mined = snd (Mine (SendTransfer demo_simulated newSim))"
definition demo_kept :: sim where "demo_kept = demo_mined\<lparr>sm_final := 1\<rparr>"
definition demo_longer :: sim where "demo_longer = snd (Mine demo_kept)"
definition demo_replaced :: sim where "demo_replaced = mined [] (demo_longer\<lparr>sm_blocks := take 2 (sm_blocks demo_longer)\<rparr>)"

lemma demo_lengths: "length (sm_blocks demo_kept) = 2" "length (sm_blocks demo_longer) = 3" "sm_final demo_longer = 1" "sm_final demo_mined = 0"
  by (simp_all add: demo_longer_def demo_kept_def demo_mined_def Mine_def mined_def SendTransfer_def newSim_def Let_def)

lemma demo_steps: "sim_step\<^sup>*\<^sup>* newSim demo_kept" "sim_step\<^sup>*\<^sup>* demo_kept demo_replaced"
proof -
  have "Finalize 1 demo_mined = Some demo_kept" using demo_lengths by (simp add: Finalize_def demo_kept_def)
  then show "sim_step\<^sup>*\<^sup>* newSim demo_kept"
    using converse_rtranclp_into_rtranclp [of sim_step, OF send [of newSim demo_simulated]] mine [of "SendTransfer demo_simulated newSim"]
    unfolding demo_mined_def by (blast intro: finalize rtranclp.rtrancl_into_rtrancl)
  have "Reorg 2 [] demo_longer = Some demo_replaced"
    using demo_lengths by (simp add: Reorg_def keptFrom_def demo_replaced_def Let_def concat_eq_Nil_conv [THEN iffD2])
  then show "sim_step\<^sup>*\<^sup>* demo_kept demo_replaced"
    using mine [of demo_kept] unfolding demo_longer_def by (blast intro: reorg rtranclp.rtrancl_into_rtrancl)
qed

theorem simulated_is_a_chain_witness:
  "length (sm_blocks demo_kept) = 2 \<and> linked (sm_blocks demo_kept) \<and> take 2 (sm_blocks demo_replaced) = finalBlocks demo_kept"
  using simulated_is_a_chain [OF demo_steps] demo_lengths by (simp add: demo_kept_def numeral_2_eq_2)

section \<open>The promise of the interface\<close>

lemma entering_Inr: "fst (entering m f s) = Inr x \<Longrightarrow> f (snd (enter m s)) = Inr x"
  by (auto simp: entering_def split: prod.splits option.splits)

lemma enter_blocks [simp]: "sm_blocks (snd (enter m s)) = sm_blocks s"
  by (simp add: enter_def Let_def)

lemma sim_Receipt_in:
  assumes "fst (sim_Receipt tx s) = Inr ts"
  shows "\<exists>b\<in>set (sm_blocks s). ts = filter (\<lambda>t. ct_tx t = tx) (sb_transfers b)"
proof -
  have "\<exists>rest. filter (\<lambda>ts. ts \<noteq> []) (map (\<lambda>b. filter (\<lambda>t. ct_tx t = tx) (sb_transfers b)) (sm_blocks s)) = ts # rest"
    using entering_Inr [OF assms [unfolded sim_Receipt_def]] by (auto split: list.splits)
  then have "ts \<in> set (map (\<lambda>b. filter (\<lambda>t. ct_tx t = tx) (sb_transfers b)) (sm_blocks s))"
    by (metis (no_types, lifting) filter_is_subset list.set_intros(1) subsetD)
  then show ?thesis by auto
qed

interpretation sim_reads: chain_contract sim_ok sim_chain
proof
  fix s h b
  assume ok: "sim_ok s" and a: "ch_Block (sim_chain s) h = Inr b"
  have "unat h < length (sm_blocks s) \<and> b = sb_block (sm_blocks s ! unat h)"
    using entering_Inr [OF a [unfolded sim_chain_def sim_Block_def, simplified]] by (auto split: if_splits)
  then show "bl_height b = h" using ok by (auto simp: sim_ok_def linked_def)
next
  fix s lo hi assets sc c ts t
  assume "ch_Receipt (sim_chain s) (con_tx c) = Inr ts" "t \<in> set ts"
  then show "ct_tx t = con_tx c" using sim_Receipt_in [of "con_tx c" s ts] by (auto simp: sim_chain_def)
next
  fix s tx ts t u
  assume a: "sim_ok s" "ch_Receipt (sim_chain s) tx = Inr ts" "t \<in> set ts" "u \<in> set ts"
  then obtain b where b: "b \<in> set (sm_blocks s)" "ts = filter (\<lambda>t. ct_tx t = tx) (sb_transfers b)"
    using sim_Receipt_in [of tx s ts] by (auto simp: sim_chain_def)
  then have "\<forall>t\<in>set (sb_transfers b). ct_block t = sb_block b"
    using a(1) unfolding sim_ok_def linked_def by (metis in_set_conv_nth)
  then show "ct_block t = ct_block u" using a(3,4) b(2) by simp
qed

text \<open>What the reading of blocks asks of a chain, of either adapter.\<close>

lemma adapters_answer_heights:
  "evm.served keccak w \<or> sim_reads.served w \<Longrightarrow> answersHeights w"
  unfolding answersHeights_def using evm.heights_answered sim_reads.heights_answered by blast

end
