(* ===== verification/Credentials.thy ===== *)
theory Credentials
  imports Hex Tables
begin

text \<open>
  Package credential, and api/auth.go over it: the key tokens are hashed under, credentials in their table,
  and which request a route admits. The bytes drawn and HMAC-SHA256 are arguments; what HKDF derives and the
  redaction of keys and tokens in a log are not modelled.
\<close>

section \<open>Keys, tokens and identifiers (credential.go)\<close>

definition cred_tokenBytes :: nat where "cred_tokenBytes = 32"
definition cred_keyBytes :: nat where "cred_keyBytes = 32"
definition keyIDBytes :: nat where "keyIDBytes = 8"

datatype key_error = KeyNotHex | KeyLength nat

definition ParseKey :: "string \<Rightarrow> (key_error, byte list) result" where
  "ParseKey s =
     (case hexDecode s of
        None \<Rightarrow> Inl KeyNotHex
      | Some raw \<Rightarrow> if length raw \<noteq> cred_keyBytes then Inl (KeyLength (length raw)) else Inr raw)"

definition key_Hex :: "byte list \<Rightarrow> string" where
  "key_Hex k = hexEncode k"

definition New_token :: "byte list \<Rightarrow> string" where
  "New_token drawn = hexEncode (take cred_tokenBytes drawn)"

definition NewKeyID :: "byte list \<Rightarrow> string" where
  "NewKeyID drawn = hexEncode (take keyIDBytes drawn)"

text \<open>An identifier is a random UUID: sixteen bytes with the bits of its version and variant set.\<close>

definition cred_NewID :: "byte list \<Rightarrow> string" where
  "cred_NewID drawn =
     (let b = drawn[6 := and (drawn ! 6) 0x0f + 0x40, 8 := and (drawn ! 8) 0x3f + 0x80] in
      hexEncode (take 4 b) @ ''-'' @ hexEncode (take 2 (drop 4 b)) @ ''-'' @ hexEncode (take 2 (drop 6 b)) @ ''-''
      @ hexEncode (take 2 (drop 8 b)) @ ''-'' @ hexEncode (take 6 (drop 10 b)))"

definition lowerHex :: "char \<Rightarrow> bool" where
  "lowerHex c = (isDigit c \<or> CHR ''a'' \<le> c \<and> c \<le> CHR ''f'')"

definition idShape :: "string \<Rightarrow> bool" where
  "idShape s =
     list_all2 (\<lambda>p c. p c)
       (replicate 8 lowerHex @ [(=) CHR ''-''] @ replicate 4 lowerHex @ [(=) CHR ''-''] @ replicate 4 lowerHex @ [(=) CHR ''-'']
        @ replicate 4 lowerHex @ [(=) CHR ''-''] @ replicate 12 lowerHex) s"

definition cred_ParseID :: "string \<Rightarrow> string option" where
  "cred_ParseID s = (if idShape s then Some s else None)"

definition cred_Hash :: "(byte list \<Rightarrow> byte list \<Rightarrow> byte list) \<Rightarrow> byte list \<Rightarrow> string \<Rightarrow> byte list" where
  "cred_Hash hmac k t = hmac k (map of_char t)"

section \<open>The table (postgres.go)\<close>

datatype cred_scope = ScopeAccount | ScopeDeployment
datatype access = ReadOnly | ReadWrite
datatype in_force = NoneInForce | ReadOnlyInForce | ReadWriteInForce

record credential_row =
  cr_id :: string
  cr_account :: "string option"
  cr_scope :: cred_scope
  cr_access :: access
  cr_hash :: "byte list"
  cr_keyID :: string
  cr_createdAt :: gotime
  cr_revokedAt :: "gotime option"
  cr_lastUsedAt :: "gotime option"

record keyring =
  kr_accounts :: "string list"
  kr_rows :: "credential_row list"

record credential =
  cd_id :: string
  cd_scope :: cred_scope
  cd_account :: string
  cd_access :: access
  cd_keyID :: string
  cd_lastUsedAt :: gotime

datatype cred_error = CredNotFound | CredConstraint string

definition useInterval :: duration where "useInterval = Hour"

definition credentialOf :: "credential_row \<Rightarrow> credential" where
  "credentialOf r = \<lparr>cd_id = cr_id r, cd_scope = cr_scope r, cd_account = (case cr_account r of None \<Rightarrow> [] | Some a \<Rightarrow> a),
     cd_access = cr_access r, cd_keyID = cr_keyID r, cd_lastUsedAt = (case cr_lastUsedAt r of None \<Rightarrow> 0 | Some t \<Rightarrow> t)\<rparr>"

text \<open>The constraints of the table, and what an insert makes of them.\<close>

definition insertCredential :: "credential_row \<Rightarrow> keyring \<Rightarrow> (cred_error, keyring) result" where
  "insertCredential r k =
     (if (cr_scope r = ScopeAccount) \<noteq> (cr_account r \<noteq> None) then Inl (CredConstraint ''credentials_scope_names_its_account'')
      else if list_ex (\<lambda>x. cr_id x = cr_id r) (kr_rows k) then Inl (CredConstraint ''credentials_pkey'')
      else if list_ex (\<lambda>x. cr_hash x = cr_hash r) (kr_rows k) then Inl (CredConstraint ''credentials_hash_key'')
      else if (case cr_account r of None \<Rightarrow> False | Some a \<Rightarrow> a \<notin> set (kr_accounts k)) then Inl (CredConstraint ''credentials_account_id_fkey'')
      else Inr (k\<lparr>kr_rows := kr_rows k @ [r]\<rparr>))"

text \<open>The store holds a key and its name, and hashes under it.\<close>

record cred_store =
  cs_key :: "byte list"
  cs_keyID :: string

definition Accounts :: "keyring \<Rightarrow> string list" where
  "Accounts k = kr_accounts k"

definition cred_Create ::
  "(byte list \<Rightarrow> byte list \<Rightarrow> byte list) \<Rightarrow> cred_store \<Rightarrow> byte list \<Rightarrow> byte list \<Rightarrow> string \<Rightarrow> access \<Rightarrow> gotime \<Rightarrow> keyring
     \<Rightarrow> (cred_error, (string \<times> string) \<times> keyring) result" where
  "cred_Create hmac s drawnID drawnToken account access now k =
     (let i = cred_NewID drawnID; token = New_token drawnToken in
      bindE (insertCredential \<lparr>cr_id = i, cr_account = Some account, cr_scope = ScopeAccount, cr_access = access,
          cr_hash = cred_Hash hmac (cs_key s) token, cr_keyID = cs_keyID s, cr_createdAt = stamp now,
          cr_revokedAt = None, cr_lastUsedAt = None\<rparr> k)
        (\<lambda>k'. Inr ((i, token), k')))"

definition FindByToken :: "(byte list \<Rightarrow> byte list \<Rightarrow> byte list) \<Rightarrow> cred_store \<Rightarrow> string \<Rightarrow> keyring \<Rightarrow> (cred_error, credential) result" where
  "FindByToken hmac s token k =
     (case filter (\<lambda>r. cr_hash r = cred_Hash hmac (cs_key s) token \<and> cr_keyID r = cs_keyID s \<and> cr_revokedAt r = None) (kr_rows k) of
        [] \<Rightarrow> Inl CredNotFound
      | r # _ \<Rightarrow> Inr (credentialOf r))"

text \<open>\<open>order by last_used_at desc nulls last, created_at desc, id\<close>.\<close>

definition listedBefore :: "credential_row \<Rightarrow> int \<times> int \<times> int \<times> string" where
  "listedBefore r = (case cr_lastUsedAt r of None \<Rightarrow> 1 | Some _ \<Rightarrow> 0, case cr_lastUsedAt r of None \<Rightarrow> 0 | Some t \<Rightarrow> - t,
     - cr_createdAt r, cr_id r)"

definition cred_List :: "keyring \<Rightarrow> credential list" where
  "cred_List k = map credentialOf (sort_key listedBefore (filter (\<lambda>r. cr_revokedAt r = None) (kr_rows k)))"

definition cred_InForce :: "keyring \<Rightarrow> in_force" where
  "cred_InForce k =
     (if list_ex (\<lambda>r. cr_revokedAt r = None \<and> cr_access r = ReadWrite) (kr_rows k) then ReadWriteInForce
      else if list_ex (\<lambda>r. cr_revokedAt r = None) (kr_rows k) then ReadOnlyInForce
      else NoneInForce)"

definition Revoke :: "string \<Rightarrow> gotime \<Rightarrow> keyring \<Rightarrow> (cred_error, keyring) result" where
  "Revoke i now k =
     (if rowsAffected (\<lambda>r. cr_id r = i) (kr_rows k) = 0 then Inl CredNotFound
      else Inr (k\<lparr>kr_rows := updateWhere (\<lambda>r. cr_id r = i)
        (\<lambda>r. r\<lparr>cr_revokedAt := Some (case cr_revokedAt r of None \<Rightarrow> stamp now | Some t \<Rightarrow> t)\<rparr>) (kr_rows k)\<rparr>))"

definition RecordUse :: "credential \<Rightarrow> gotime \<Rightarrow> keyring \<Rightarrow> keyring" where
  "RecordUse c now k =
     (if cd_lastUsedAt c \<noteq> 0 \<and> subTime now (cd_lastUsedAt c) \<le> useInterval then k
      else k\<lparr>kr_rows := updateWhere
        (\<lambda>r. cr_id r = cd_id c \<and> (case cr_lastUsedAt r of None \<Rightarrow> True | Some t \<Rightarrow> t < stamp now - useInterval))
        (\<lambda>r. r\<lparr>cr_lastUsedAt := Some (stamp now)\<rparr>) (kr_rows k)\<rparr>)"

section \<open>Which requests a route admits (api/auth.go)\<close>

datatype route_access = Unstated | OpenRoute | ReadRoute | WriteRoute

definition bearer :: "string \<Rightarrow> string option" where
  "bearer header =
     (let scheme = takeWhile (\<lambda>c. c \<noteq> CHR '' '') header in
      if map lowerChar scheme \<noteq> ''bearer'' then None
      else Some (drop (length scheme + 1) header))"

datatype admission = Admitted "credential option" | Unauthorized | Forbidden | Unavailable

text \<open>
  A lookup and a record that fail are arguments: the database can be out of reach for either. The store is
  none in an instance without a database.
\<close>

definition admit ::
  "(byte list \<Rightarrow> byte list \<Rightarrow> byte list) \<Rightarrow> cred_store option \<Rightarrow> bool \<Rightarrow> bool \<Rightarrow> route_access \<Rightarrow> string \<Rightarrow> gotime \<Rightarrow> keyring
     \<Rightarrow> admission \<times> keyring" where
  "admit hmac store lookup_down record_down needs header now k =
     (if needs = OpenRoute then (Admitted None, k)
      else case bearer header of
        None \<Rightarrow> (Unauthorized, k)
      | Some token \<Rightarrow>
          (case store of
             None \<Rightarrow> (Unauthorized, k)
           | Some s \<Rightarrow>
               if lookup_down then (Unavailable, k)
               else case FindByToken hmac s token k of
                 Inl _ \<Rightarrow> (Unauthorized, k)
               | Inr c \<Rightarrow>
                   let k' = (if record_down then k else RecordUse c now k) in
                   if cd_scope c \<noteq> ScopeAccount \<or> needs \<noteq> ReadRoute \<and> cd_access c \<noteq> ReadWrite then (Forbidden, k')
                   else (Admitted (Some c), k')))"

section \<open>What is written is read back\<close>

lemma ParseKey_Hex: "length k = cred_keyBytes \<Longrightarrow> ParseKey (key_Hex k) = Inr k"
  by (simp add: ParseKey_def key_Hex_def)

lemma ParseKey_iff: "ParseKey s = Inr k \<longleftrightarrow> length k = cred_keyBytes \<and> map lowerChar s = key_Hex k \<and> list_all isHexDigit s"
proof
  show "ParseKey s = Inr k \<Longrightarrow> length k = cred_keyBytes \<and> map lowerChar s = key_Hex k \<and> list_all isHexDigit s"
    by (auto simp: ParseKey_def key_Hex_def split: option.splits if_splits dest!: hexDecode_SomeD)
next
  assume a: "length k = cred_keyBytes \<and> map lowerChar s = key_Hex k \<and> list_all isHexDigit s"
  then have "even (length s)" by (metis dvd_triv_left hexDecode_SomeD hexDecode_hexEncode key_Hex_def length_map)
  then obtain bs where bs: "hexDecode s = Some bs" using a hexDecode_total by blast
  then have "hexEncode bs = hexEncode k" using a hexDecode_SomeD key_Hex_def by metis
  then have "bs = k" by (metis hexDecode_hexEncode option.inject)
  then show "ParseKey s = Inr k" using a bs by (simp add: ParseKey_def)
qed

lemma lowerHex_hexDigit: "d < 16 \<Longrightarrow> lowerHex (hexDigit d)"
  by (auto simp: lowerHex_def isDigit_iff hexDigit_def less_eq_char_def)

lemma hexEncode_Cons: "hexEncode (b # bs) = hexDigit (unat b div 16) # hexDigit (unat b mod 16) # hexEncode bs"
  by (simp add: hexEncode_def)

lemma replicate_48: "replicate 4 x = [x, x, x, x]" "replicate 8 x = [x, x, x, x, x, x, x, x]"
    "replicate 12 x = [x, x, x, x, x, x, x, x, x, x, x, x]"
  by (simp_all add: numeral_eq_Suc)

lemma NewID_read:
  assumes "length drawn = 16"
  shows "cred_ParseID (cred_NewID drawn) = Some (cred_NewID drawn)"
proof -
  obtain b where b: "length b = 16" "b = drawn[6 := and (drawn ! 6) 0x0f + 0x40, 8 := and (drawn ! 8) 0x3f + 0x80]"
    using assms by simp
  then obtain b0 b1 b2 b3 b4 b5 b6 b7 b8 b9 b10 b11 b12 b13 b14 b15 where
    "b = [b0, b1, b2, b3, b4, b5, b6, b7, b8, b9, b10, b11, b12, b13, b14, b15]"
    by (auto simp: length_Suc_conv numeral_eq_Suc)
  moreover have "unat (x :: byte) div 16 < 16" "unat x mod 16 < 16" for x
    using byte_div_16 [of x] by simp_all
  ultimately show ?thesis
    unfolding cred_ParseID_def cred_NewID_def idShape_def b(2) [symmetric] Let_def
    by (simp add: hexEncode_Cons lowerHex_hexDigit hexEncode_def [of "[]"] replicate_48)
qed

end
