(* ===== verification/Admission.thy ===== *)
theory Admission
  imports Credentials
begin

text \<open>
  What the table of credentials keeps through every run, and whom a route admits.
\<close>

section \<open>Runs\<close>

inductive cred_step :: "(byte list \<Rightarrow> byte list \<Rightarrow> byte list) \<Rightarrow> keyring \<Rightarrow> keyring \<Rightarrow> bool"
  for hmac where
  created: "cred_Create hmac s di dt account acc now k = Inr (r, k') \<Longrightarrow> cred_step hmac k k'"
| revoked: "Revoke i now k = Inr k' \<Longrightarrow> cred_step hmac k k'"
| used: "cred_step hmac k (RecordUse c now k)"
| asked: "cred_step hmac k (snd (admit hmac s ld rd needs header now k))"

text \<open>One row of each identifier and of each hash; a credential of an account names one there is.\<close>

definition keyringSound :: "keyring \<Rightarrow> bool" where
  "keyringSound k =
     (distinct (map cr_id (kr_rows k)) \<and> distinct (map cr_hash (kr_rows k))
      \<and> list_all (\<lambda>r. (cr_scope r = ScopeAccount) = (cr_account r \<noteq> None)
           \<and> (\<forall>a. cr_account r = Some a \<longrightarrow> a \<in> set (kr_accounts k))) (kr_rows k))"

lemma insertCredential_cases:
  "insertCredential r k = Inr k' \<Longrightarrow> k' = k\<lparr>kr_rows := kr_rows k @ [r]\<rparr> \<and> cr_id r \<notin> cr_id ` set (kr_rows k)
     \<and> cr_hash r \<notin> cr_hash ` set (kr_rows k) \<and> (cr_scope r = ScopeAccount) = (cr_account r \<noteq> None)
     \<and> (\<forall>a. cr_account r = Some a \<longrightarrow> a \<in> set (kr_accounts k))"
  unfolding insertCredential_def by (auto simp add: list_ex_iff split: if_splits option.splits)

lemma Create_rows:
  "cred_Create hmac s di dt account acc now k = Inr ((i, t), k') \<Longrightarrow>
     \<exists>r. k' = k\<lparr>kr_rows := kr_rows k @ [r]\<rparr> \<and> cr_id r = i \<and> i \<notin> cr_id ` set (kr_rows k) \<and> cr_hash r = cred_Hash hmac (cs_key s) t
       \<and> cr_hash r \<notin> cr_hash ` set (kr_rows k) \<and> cr_account r = Some account \<and> account \<in> set (kr_accounts k)
       \<and> cr_scope r = ScopeAccount \<and> cr_access r = acc \<and> cr_keyID r = cs_keyID s \<and> cr_revokedAt r = None \<and> cr_lastUsedAt r = None"
  by (auto simp: cred_Create_def Let_def res_simps dest!: insertCredential_cases)

text \<open>Every other call changes rows where they are and keeps what they are looked up by.\<close>

definition inPlace :: "keyring \<Rightarrow> keyring \<Rightarrow> bool" where
  "inPlace k k' =
     (kr_accounts k' = kr_accounts k
      \<and> list_all2 (\<lambda>r r'. cr_id r' = cr_id r \<and> cr_hash r' = cr_hash r \<and> cr_keyID r' = cr_keyID r \<and> cr_scope r' = cr_scope r
           \<and> cr_account r' = cr_account r \<and> cr_access r' = cr_access r \<and> (cr_revokedAt r \<noteq> None \<longrightarrow> cr_revokedAt r' = cr_revokedAt r))
         (kr_rows k) (kr_rows k'))"

lemma inPlace_refl: "inPlace k k"
  by (simp add: inPlace_def list_all2_refl)

lemma inPlace_update:
  assumes "\<And>r. cr_id (f r) = cr_id r \<and> cr_hash (f r) = cr_hash r \<and> cr_keyID (f r) = cr_keyID r \<and> cr_scope (f r) = cr_scope r
      \<and> cr_account (f r) = cr_account r \<and> cr_access (f r) = cr_access r \<and> (cr_revokedAt r \<noteq> None \<longrightarrow> cr_revokedAt (f r) = cr_revokedAt r)"
  shows "inPlace k (k\<lparr>kr_rows := updateWhere P f (kr_rows k)\<rparr>)"
  using assms by (auto simp: inPlace_def updateWhere_def list_all2_conv_all_nth)

lemma Revoke_inPlace: "Revoke i now k = Inr k' \<Longrightarrow> inPlace k k'"
  by (auto simp: Revoke_def split: if_splits option.split intro!: inPlace_update)

lemma RecordUse_inPlace: "inPlace k (RecordUse c now k)"
  by (auto simp: RecordUse_def inPlace_refl intro!: inPlace_update)

lemma admit_inPlace: "inPlace k (snd (admit hmac s ld rd needs header now k))"
  by (auto simp: admit_def Let_def inPlace_refl RecordUse_inPlace split: option.split sum.split)

lemma cred_step_cases:
  assumes "cred_step hmac k k'"
  shows "inPlace k k' \<or> (\<exists>s di dt account acc now r. cred_Create hmac s di dt account acc now k = Inr (r, k'))"
  using assms by (cases rule: cred_step.cases) (auto intro: Revoke_inPlace RecordUse_inPlace admit_inPlace)

lemma inPlace_maps:
  assumes "inPlace k k'"
  shows "map cr_id (kr_rows k') = map cr_id (kr_rows k)" "map cr_hash (kr_rows k') = map cr_hash (kr_rows k)"
  using assms by (auto simp: inPlace_def list_all2_conv_all_nth intro!: nth_equalityI)

lemma keyringSound_step: "cred_step hmac k k' \<Longrightarrow> keyringSound k \<Longrightarrow> keyringSound k'"
proof (drule cred_step_cases, elim disjE exE)
  assume w: "inPlace k k'" and s: "keyringSound k"
  have "list_all (\<lambda>r. (cr_scope r = ScopeAccount) = (cr_account r \<noteq> None) \<and> (\<forall>a. cr_account r = Some a \<longrightarrow> a \<in> set (kr_accounts k'))) (kr_rows k')"
    using w s by (auto simp: keyringSound_def inPlace_def list_all2_conv_all_nth list_all_length)
  then show "keyringSound k'" using s inPlace_maps [OF w] by (simp add: keyringSound_def)
next
  fix s di dt account acc now r
  assume "cred_Create hmac s di dt account acc now k = Inr (r, k')" "keyringSound k"
  then show "keyringSound k'" by (cases r) (auto simp: keyringSound_def dest!: Create_rows)
qed

section \<open>A credential that was revoked\<close>

definition revokedIn :: "string \<Rightarrow> keyring \<Rightarrow> bool" where
  "revokedIn i k = ((\<exists>r\<in>set (kr_rows k). cr_id r = i) \<and> (\<forall>r\<in>set (kr_rows k). cr_id r = i \<longrightarrow> cr_revokedAt r \<noteq> None))"

lemma updateWhere_mem: "r \<in> set rs \<Longrightarrow> P r \<Longrightarrow> f r \<in> set (updateWhere P f rs)"
  by (auto simp: updateWhere_def)

lemma updateWhere_memD: "r \<in> set (updateWhere P f rs) \<Longrightarrow> \<exists>x\<in>set rs. r = (if P x then f x else x)"
  by (auto simp: updateWhere_def)

lemma Revoke_revokes:
  assumes "Revoke i now k = Inr k'"
  shows "revokedIn i k'"
proof -
  define f where "f r = r\<lparr>cr_revokedAt := Some (case cr_revokedAt r of None \<Rightarrow> stamp now | Some t \<Rightarrow> t)\<rparr>" for r :: credential_row
  have f: "cr_id (f r) = cr_id r" "cr_revokedAt (f r) \<noteq> None" for r by (simp_all add: f_def)
  have k': "kr_rows k' = updateWhere (\<lambda>r. cr_id r = i) f (kr_rows k)" and "rowsAffected (\<lambda>r. cr_id r = i) (kr_rows k) \<noteq> 0"
    using assms unfolding Revoke_def f_def by (auto split: if_splits)
  then obtain r where r: "r \<in> set (kr_rows k)" "cr_id r = i" by (auto simp: rowsAffected_def filter_empty_conv)
  have "f r \<in> set (kr_rows k')" unfolding k' by (rule updateWhere_mem) (use r in simp_all)
  moreover have "cr_id x = i \<longrightarrow> cr_revokedAt x \<noteq> None" if "x \<in> set (kr_rows k')" for x
    using updateWhere_memD [OF that [unfolded k']] f by (metis (full_types))
  ultimately show ?thesis using f(1) [of r] r(2) unfolding revokedIn_def by blast
qed

lemma revokedIn_step:
  assumes "cred_step hmac k k'" "revokedIn i k"
  shows "revokedIn i k'"
  using cred_step_cases [OF assms(1)]
proof (elim disjE exE)
  assume w: "inPlace k k'"
  obtain r where r: "r \<in> set (kr_rows k)" "cr_id r = i" using assms(2) by (auto simp: revokedIn_def)
  then have "i \<in> cr_id ` set (kr_rows k')" using inPlace_maps(1) [OF w] by (metis image_eqI list.set_map)
  moreover have "cr_revokedAt r' \<noteq> None" if r': "r' \<in> set (kr_rows k')" "cr_id r' = i" for r'
  proof -
    obtain n where n: "n < length (kr_rows k')" "r' = kr_rows k' ! n" using r'(1) by (auto simp: in_set_conv_nth)
    then have "n < length (kr_rows k)" "cr_id (kr_rows k ! n) = i" "cr_revokedAt (kr_rows k ! n) \<noteq> None \<longrightarrow> cr_revokedAt r' = cr_revokedAt (kr_rows k ! n)"
      using w r'(2) by (auto simp: inPlace_def list_all2_conv_all_nth)
    then show ?thesis using assms(2) by (auto simp: revokedIn_def)
  qed
  ultimately show ?thesis by (auto simp: revokedIn_def)
next
  fix s di dt account acc now r
  assume c: "cred_Create hmac s di dt account acc now k = Inr (r, k')"
  obtain j t where r: "r = (j, t)" by (cases r)
  from Create_rows [OF c [unfolded r]] assms(2) show ?thesis by (auto simp: revokedIn_def)
qed

lemma FindByToken_cases:
  assumes "FindByToken hmac s token k = Inr c"
  shows "\<exists>r\<in>set (kr_rows k). c = credentialOf r \<and> cr_hash r = cred_Hash hmac (cs_key s) token \<and> cr_keyID r = cs_keyID s \<and> cr_revokedAt r = None"
proof -
  obtain r rest where "filter (\<lambda>r. cr_hash r = cred_Hash hmac (cs_key s) token \<and> cr_keyID r = cs_keyID s \<and> cr_revokedAt r = None) (kr_rows k) = r # rest"
      "c = credentialOf r"
    using assms by (auto simp: FindByToken_def split: list.splits)
  then show ?thesis by (metis (mono_tags, lifting) filter_eq_ConsD in_set_conv_decomp)
qed

lemma admit_Admitted:
  assumes "fst (admit hmac st ld rd needs header now k) = Admitted (Some c)"
  shows "\<exists>s token. st = Some s \<and> bearer header = Some token \<and> FindByToken hmac s token k = Inr c
    \<and> cd_scope c = ScopeAccount \<and> (needs = ReadRoute \<or> cd_access c = ReadWrite) \<and> needs \<noteq> OpenRoute"
  using assms by (auto simp: admit_def Let_def split: if_splits option.splits sum.splits)

text \<open>
  C34: a request a route that is not open admits presented a token whose credential is in the table under the
  key in force, not revoked, of an account there is, and able to write unless the route only reads.
\<close>

theorem admitted_holds_credential:
  assumes "(cred_step hmac)\<^sup>*\<^sup>* \<lparr>kr_accounts = as, kr_rows = []\<rparr> k"
    and "fst (admit hmac st ld rd needs header now k) = Admitted who" "needs \<noteq> OpenRoute"
  shows "\<exists>c s token r. who = Some c \<and> st = Some s \<and> bearer header = Some token \<and> r \<in> set (kr_rows k) \<and> c = credentialOf r
    \<and> cr_hash r = cred_Hash hmac (cs_key s) token \<and> cr_keyID r = cs_keyID s \<and> cr_revokedAt r = None
    \<and> cd_account c \<in> set (kr_accounts k) \<and> (needs = ReadRoute \<or> cd_access c = ReadWrite)"
proof -
  have sound: "keyringSound k"
    using assms(1) by induction (auto simp: keyringSound_def [of "\<lparr>kr_accounts = as, kr_rows = []\<rparr>"] intro: keyringSound_step)
  obtain c where who: "who = Some c"
    using assms(2,3) by (auto simp: admit_def Let_def split: if_splits option.splits sum.splits)
  obtain s token where a: "st = Some s" "bearer header = Some token" "FindByToken hmac s token k = Inr c"
      "cd_scope c = ScopeAccount" "needs = ReadRoute \<or> cd_access c = ReadWrite"
    using admit_Admitted [OF assms(2) [unfolded who]] by auto
  obtain r where r: "r \<in> set (kr_rows k)" "c = credentialOf r" "cr_hash r = cred_Hash hmac (cs_key s) token" "cr_keyID r = cs_keyID s"
      "cr_revokedAt r = None"
    using FindByToken_cases [OF a(3)] by auto
  have "cr_scope r = ScopeAccount" using a(4) r(2) by (simp add: credentialOf_def)
  then have "cd_account c \<in> set (kr_accounts k)"
    using sound r(1,2) by (auto simp: keyringSound_def list_all_iff credentialOf_def)
  then show ?thesis using who a r by blast
qed

text \<open>
  C35: once a credential is revoked no request is admitted with it again, whatever is created, revoked or
  used after.
\<close>

theorem revoked_stays_out:
  assumes "Revoke i now k = Inr k'" "(cred_step hmac)\<^sup>*\<^sup>* k' k''" "fst (admit hmac st ld rd needs header t k'') = Admitted (Some c)"
  shows "cd_id c \<noteq> i"
proof -
  have "revokedIn i k''" using assms(2) by induction (auto intro: revokedIn_step Revoke_revokes [OF assms(1)])
  moreover obtain s token where "FindByToken hmac s token k'' = Inr c" using admit_Admitted [OF assms(3)] by auto
  ultimately show ?thesis using FindByToken_cases by (fastforce simp: revokedIn_def credentialOf_def)
qed

section \<open>On a keyring of one account\<close>

definition demo_hmac :: "byte list \<Rightarrow> byte list \<Rightarrow> byte list" where "demo_hmac k m = k @ m"
definition demo_store :: cred_store where "demo_store = \<lparr>cs_key = [1], cs_keyID = ''k1''\<rparr>"
definition demo_keyless :: keyring where "demo_keyless = \<lparr>kr_accounts = [''a''], kr_rows = []\<rparr>"

definition demo_made :: "(cred_error, (string \<times> string) \<times> keyring) result" where
  "demo_made = cred_Create demo_hmac demo_store (replicate 16 5) (replicate 2 7) ''a'' ReadWrite 1000 demo_keyless"

definition demo_ring :: keyring where "demo_ring = (case demo_made of Inr (_, k) \<Rightarrow> k | Inl _ \<Rightarrow> demo_keyless)"
definition demo_keyName :: string where "demo_keyName = cred_NewID (replicate 16 5)"
definition demo_revoked :: keyring where "demo_revoked = (case Revoke demo_keyName 2000 demo_ring of Inr k \<Rightarrow> k | Inl _ \<Rightarrow> demo_keyless)"

definition demo_asking :: "string \<Rightarrow> keyring \<Rightarrow> admission \<times> keyring" where
  "demo_asking header k = admit demo_hmac (Some demo_store) False False WriteRoute header 5000 k"

lemma made_of: "(case m of Inl _ \<Rightarrow> False | Inr _ \<Rightarrow> True) \<Longrightarrow> \<exists>r. m = Inr (r, case m of Inr (_, k) \<Rightarrow> k | Inl _ \<Rightarrow> d)"
  by (cases m) auto

lemma demo_made_steps: "cred_step demo_hmac demo_keyless demo_ring"
proof -
  have "\<exists>r. demo_made = Inr (r, demo_ring)"
  proof -
    have "(case demo_made of Inl _ \<Rightarrow> False | Inr _ \<Rightarrow> True)" by code_simp
    then show ?thesis unfolding demo_ring_def by (rule made_of)
  qed
  then show ?thesis by (auto simp: demo_made_def intro: created)
qed

definition demo_credential :: credential where
  "demo_credential = \<lparr>cd_id = demo_keyName, cd_scope = ScopeAccount, cd_account = ''a'', cd_access = ReadWrite, cd_keyID = ''k1'', cd_lastUsedAt = 0\<rparr>"

lemma demo_admitted: "fst (demo_asking ''BEARER 0707'' demo_ring) = Admitted (Some demo_credential)"
  by code_simp

theorem admitted_holds_credential_witness:
  "\<exists>r. r \<in> set (kr_rows demo_ring) \<and> demo_credential = credentialOf r \<and> cr_revokedAt r = None"
proof -
  have steps: "(cred_step demo_hmac)\<^sup>*\<^sup>* \<lparr>kr_accounts = [''a''], kr_rows = []\<rparr> demo_ring"
    using demo_made_steps by (simp add: demo_keyless_def)
  show ?thesis
    using admitted_holds_credential [OF steps demo_admitted [unfolded demo_asking_def]] by auto
qed

text \<open>A second credential is made after the first is revoked, and it is the second the request carries.\<close>

definition demo_other :: "(cred_error, (string \<times> string) \<times> keyring) result" where
  "demo_other = cred_Create demo_hmac demo_store (replicate 16 6) (replicate 2 8) ''a'' ReadWrite 3000 demo_revoked"

definition demo_later :: keyring where "demo_later = (case demo_other of Inr (_, k) \<Rightarrow> k | Inl _ \<Rightarrow> demo_keyless)"

lemma demo_other_admitted:
  "fst (demo_asking ''Bearer 0808'' demo_later) = Admitted (Some (demo_credential\<lparr>cd_id := cred_NewID (replicate 16 6)\<rparr>))"
  by code_simp

theorem revoked_stays_out_witness:
  "cred_NewID (replicate 16 6) \<noteq> demo_keyName \<and> fst (demo_asking ''Bearer 0707'' demo_later) = Unauthorized"
proof
  have r: "Revoke demo_keyName 2000 demo_ring = Inr demo_revoked"
  proof -
    have "(case Revoke demo_keyName 2000 demo_ring of Inl _ \<Rightarrow> False | Inr _ \<Rightarrow> True)" by code_simp
    then show ?thesis by (auto simp: demo_revoked_def split: sum.splits)
  qed
  have "(case demo_other of Inl _ \<Rightarrow> False | Inr _ \<Rightarrow> True)" by code_simp
  then have "\<exists>x. demo_other = Inr (x, demo_later)" unfolding demo_later_def by (rule made_of)
  then have "(cred_step demo_hmac)\<^sup>*\<^sup>* demo_revoked demo_later" by (auto simp: demo_other_def intro: created)
  from revoked_stays_out [OF r this demo_other_admitted [unfolded demo_asking_def]]
  show "cred_NewID (replicate 16 6) \<noteq> demo_keyName" by simp
  show "fst (demo_asking ''Bearer 0707'' demo_later) = Unauthorized" by code_simp
qed

end
