(* ===== verification/Mail_Once.thy ===== *)
theory Mail_Once
  imports Mail_Runs "HOL-Library.Multiset"
begin

text \<open>
  What one turn of the webhook worker sends: nothing without its lease, and with it each delivery it was handed
  once, whatever order the sends run in and whatever merchants and payments write meanwhile.
\<close>

section \<open>What a call writes\<close>

text \<open>Merchants and payments write no attempts; the lease is what keeps other workers from it.\<close>

definition others_send_nothing :: "mail_world \<Rightarrow> bool" where
  "others_send_nothing w = (\<forall>k h ls. hk_tries (fst (mw_others w k (h, ls))) = hk_tries h)"

definition asOthersLeft :: "mail_world \<Rightarrow> shift \<Rightarrow> hooks" where
  "asOthersLeft w s = fst (mw_others w (sf_calls s) (sf_hooks s, sf_leases s))"

lemma onHooks_cases:
  assumes "onHooks w f s = (r, s')"
  shows "(\<exists>e. r = Inl e \<and> sf_hooks s' = asOthersLeft w s)
    \<or> (\<exists>a h'. r = Inr a \<and> f (sf_calls s) (asOthersLeft w s) = Inr (a, h') \<and> sf_hooks s' = h')"
  using assms by (auto simp: onHooks_def onTables_def asOthersLeft_def Let_def res_simps split: prod.splits option.splits sum.splits)

lemma asOthersLeft_tries: "others_send_nothing w \<Longrightarrow> hk_tries (asOthersLeft w s) = hk_tries (sf_hooks s)"
  by (simp add: others_send_nothing_def asOthersLeft_def)

lemma asOthersLeft_run: "others_mail w \<Longrightarrow> hook_run (sf_hooks s) (asOthersLeft w s)"
  by (simp add: others_mail_def asOthersLeft_def)

lemma asks_run: "asks f s = (Inr (f (sf_calls s)), s\<lparr>sf_calls := sf_calls s + 1\<rparr>)"
  by (simp add: asks_def)

text \<open>A request names its delivery in a header.\<close>

definition sentId :: "(string \<times> string) list \<Rightarrow> string" where
  "sentId headers = (case map_of headers ''webhook-id'' of Some i \<Rightarrow> i | None \<Rightarrow> [])"

lemma onHooks_sent: "onHooks w f s = (r, s') \<Longrightarrow> sf_sent s' = sf_sent s"
  by (auto simp: onHooks_def onTables_def Let_def split: prod.splits option.splits sum.splits)

text \<open>An attempt always comes to an outcome, writes no table, and sends one request at most, for its own delivery.\<close>

lemma posts_cases:
  "\<exists>resp s'. posts w dest headers body s = (Inr resp, s') \<and> sf_hooks s' = sf_hooks s
     \<and> (sf_sent s' = sf_sent s \<or> sf_sent s' = sf_sent s @ [headers])"
  by (auto simp: posts_def Let_def)

lemma Send_cases:
  "\<exists>o1 s'. Send w url allowed secrets d s = (Inr o1, s') \<and> sf_hooks s' = sf_hooks s
     \<and> (sf_sent s' = sf_sent s \<or> (\<exists>headers. sf_sent s' = sf_sent s @ [headers] \<and> sentId headers = dl_id d))"
proof -
  have i: "sentId (sendHeaders (dl_id d) t sig) = dl_id d" for t sig by (simp add: sentId_def sendHeaders_def)
  obtain r s' where send: "Send w url allowed secrets d s = (r, s')" by fastforce
  have "(\<exists>o1. r = Inr o1) \<and> sf_hooks s' = sf_hooks s
      \<and> (sf_sent s' = sf_sent s \<or> (\<exists>headers. sf_sent s' = sf_sent s @ [headers] \<and> sentId headers = dl_id d))"
    using send unfolding Send_def posts_def followed_by_def asks_def idle_def Let_def
    by (auto simp: i split: sum.splits answer.splits if_splits)
  then show ?thesis using send by blast
qed

section \<open>One errand\<close>

fun errandLeft :: "errand \<Rightarrow> nat" where
  "errandLeft (Starting _) = 2"
| "errandLeft (Sent _ _) = 1"
| "errandLeft (Over _) = 0"

fun errandFor :: "errand \<Rightarrow> string option" where
  "errandFor (Starting d) = Some (dl_id (du_delivery d))"
| "errandFor (Sent d _) = Some (dl_id (du_delivery d))"
| "errandFor (Over _) = None"

text \<open>Each turn of an errand is a step of it; the first sends its request, and the one that ends it well writes
  down its attempt.\<close>

lemma hook_Attempted_tries:
  "hook_Attempted h d o1 now random = Inr h' \<Longrightarrow> \<exists>t. hk_tries h' = hk_tries h @ [t] \<and> ty_delivery t = dl_id d"
  by (auto simp: hook_Attempted_def Let_def tryRow_def split: if_splits option.splits)

definition errandStep :: "errand \<Rightarrow> errand \<Rightarrow> bool" where
  "errandStep t t' = (errandLeft t' \<le> errandLeft t - 1 \<and> (errandFor t' \<noteq> None \<longrightarrow> errandFor t' = errandFor t)
     \<and> (errandFor t = None \<longrightarrow> t' = t))"

definition recorded :: "errand \<Rightarrow> errand \<Rightarrow> string list" where
  "recorded t t' = (if errandFor t \<noteq> None \<and> t' = Over None then [the (errandFor t)] else [])"

definition sends :: "errand \<Rightarrow> string list \<Rightarrow> bool" where
  "sends t xs = (xs = [] \<or> errandLeft t = 2 \<and> xs = [the (errandFor t)])"

lemma proceed_steps:
  "\<exists>t' s'. proceed w t s = (Inr t', s') \<and> errandStep t t'
    \<and> (\<exists>sent. sf_sent s' = sf_sent s @ sent \<and> sends t (map sentId sent))
    \<and> (others_send_nothing w \<longrightarrow>
        (\<exists>new. hk_tries (sf_hooks s') = hk_tries (sf_hooks s) @ new \<and> map ty_delivery new = recorded t t'))"
proof (cases t)
  case (Starting d)
  let ?s = "s\<lparr>sf_calls := sf_calls s + 1\<rparr>"
  let ?f = "\<lambda>k h. bindE (Secrets (mw_cipher w) h (dl_endpoint (du_delivery d)) (mw_now w (sf_calls s))) (\<lambda>ss. Inr (ss, h))"
  obtain r s1 where one: "onHooks w ?f ?s = (r, s1)" by fastforce
  have tries: "others_send_nothing w \<longrightarrow> hk_tries (sf_hooks s1) = hk_tries (sf_hooks s)"
    using onHooks_cases [OF one] asOthersLeft_tries [of w ?s] by (auto simp: res_simps)
  have sent: "sf_sent s1 = sf_sent s" using onHooks_sent [OF one] by simp
  show ?thesis
  proof (cases r)
    case (Inl e)
    then show ?thesis
      using Starting one tries sent
      by (auto simp: proceed_def followed_by_def caught_by_def asks_run idle_def errandStep_def recorded_def sends_def)
  next
    case (Inr ss)
    obtain o1 s2 where send: "Send w (du_url d) (du_allowed d) ss (du_delivery d) s1 = (Inr o1, s2)" "sf_hooks s2 = sf_hooks s1"
        "sf_sent s2 = sf_sent s1 \<or> (\<exists>headers. sf_sent s2 = sf_sent s1 @ [headers] \<and> sentId headers = dl_id (du_delivery d))"
      using Send_cases by blast
    then obtain hs where "sf_sent s2 = sf_sent s @ hs" "sends t (map sentId hs)"
      using sent Starting by (auto simp: sends_def)
    then show ?thesis
      using Starting one tries Inr send(1,2)
      by (auto simp: proceed_def followed_by_def caught_by_def asks_run idle_def errandStep_def recorded_def)
  qed
next
  case (Sent d o1)
  let ?s = "s\<lparr>sf_calls := sf_calls s + 1 + 1\<rparr>"
  let ?f = "\<lambda>k h. bindE (hook_Attempted h (du_delivery d) o1 (mw_now w (sf_calls s)) (mw_random w (sf_calls s + 1))) (\<lambda>h'. Inr ((), h'))"
  obtain r s1 where one: "onHooks w ?f ?s = (r, s1)" by fastforce
  have sent: "sf_sent s1 = sf_sent s" using onHooks_sent [OF one] by simp
  show ?thesis
  proof (cases r)
    case (Inl e)
    then have "others_send_nothing w \<longrightarrow> hk_tries (sf_hooks s1) = hk_tries (sf_hooks s)"
      using onHooks_cases [OF one] asOthersLeft_tries [of w ?s] by auto
    then show ?thesis
      using Sent one Inl sent
      by (auto simp: proceed_def followed_by_def caught_by_def asks_run idle_def errandStep_def recorded_def sends_def)
  next
    case (Inr u)
    have "others_send_nothing w \<longrightarrow> (\<exists>x. hk_tries (sf_hooks s1) = hk_tries (sf_hooks s) @ [x] \<and> ty_delivery x = dl_id (du_delivery d))"
    proof
      assume "others_send_nothing w"
      then show "\<exists>x. hk_tries (sf_hooks s1) = hk_tries (sf_hooks s) @ [x] \<and> ty_delivery x = dl_id (du_delivery d)"
        using Inr onHooks_cases [OF one] asOthersLeft_tries [of w ?s] hook_Attempted_tries by (fastforce simp: res_simps)
    qed
    then show ?thesis
      using Sent one Inr sent
      by (auto simp: proceed_def followed_by_def caught_by_def asks_run idle_def errandStep_def recorded_def sends_def)
  qed
qed (simp add: proceed_def idle_def errandStep_def recorded_def sends_def)

section \<open>All the errands of a round\<close>

text \<open>What every turn of an errand keeps, the turns of any schedule keep.\<close>

lemma turns_keep:
  fixes turns :: "nat list"
  assumes step: "\<forall>ts s i t s'. I ts s \<longrightarrow> i < length ts \<longrightarrow> proceed w (ts ! i) s = (Inr t, s') \<longrightarrow> I (ts[i := t]) s'"
  shows "I ts s \<Longrightarrow> \<exists>ts' s'. taking_turns w turns ts s = (Inr ts', s') \<and> I ts' s' \<and> length ts' = length ts
    \<and> (\<forall>i<length ts. errandLeft (ts' ! i) \<le> errandLeft (ts ! i) - count_list turns i)"
proof (induction turns arbitrary: ts s)
  case Nil
  then show ?case by (auto simp: idle_def)
next
  case (Cons i turns)
  show ?case
  proof (cases "i < length ts")
    case False
    obtain ts' s' where *: "taking_turns w turns ts s = (Inr ts', s')" "I ts' s'" "length ts' = length ts"
        "\<forall>j<length ts. errandLeft (ts' ! j) \<le> errandLeft (ts ! j) - count_list turns j"
      using Cons.IH [OF Cons.prems] by blast
    have "\<forall>j<length ts. errandLeft (ts' ! j) \<le> errandLeft (ts ! j) - count_list (i # turns) j" using * False by auto
    then show ?thesis using * False by auto
  next
    case True
    obtain t s1 where p: "proceed w (ts ! i) s = (Inr t, s1)" "errandStep (ts ! i) t"
      using proceed_steps [of w "ts ! i" s] by blast
    obtain ts' s' where *: "taking_turns w turns (ts[i := t]) s1 = (Inr ts', s')" "I ts' s'" "length ts' = length ts"
        "\<forall>j<length ts. errandLeft (ts' ! j) \<le> errandLeft (ts[i := t] ! j) - count_list turns j"
      using Cons.IH step Cons.prems True p(1) by (metis length_list_update)
    have "errandLeft (ts' ! j) \<le> errandLeft (ts ! j) - count_list (i # turns) j" if "j < length ts" for j
    proof -
      have "errandLeft (ts' ! j) \<le> errandLeft (ts[i := t] ! j) - count_list turns j" using *(4) that by blast
      then show ?thesis using p(2) that by (cases "j = i") (auto simp: nth_list_update errandStep_def)
    qed
    then show ?thesis using * True p(1) by (auto simp: followed_by_def)
  qed
qed

text \<open>The requests sent so far are for errands that have had their first turn, one each at most.\<close>

definition posted :: "string list \<Rightarrow> (string \<times> string) list list \<Rightarrow> errand list \<Rightarrow> shift \<Rightarrow> bool" where
  "posted ids old ts s =
     (length ts = length ids \<and> (\<forall>i<length ts. errandFor (ts ! i) \<noteq> None \<longrightarrow> errandFor (ts ! i) = Some (ids ! i))
      \<and> (\<exists>new. sf_sent s = old @ new
           \<and> mset (map sentId new) \<subseteq># image_mset (\<lambda>i. ids ! i) (mset_set {i. i < length ts \<and> errandLeft (ts ! i) \<noteq> 2})))"

lemma named_step:
  assumes "\<forall>j<length ts. errandFor (ts ! j) \<noteq> None \<longrightarrow> errandFor (ts ! j) = Some (ids ! j)" "errandStep (ts ! i) t" "i < length ts"
  shows "\<forall>j<length (ts[i := t]). errandFor (ts[i := t] ! j) \<noteq> None \<longrightarrow> errandFor (ts[i := t] ! j) = Some (ids ! j)"
proof (intro allI impI)
  fix j assume j: "j < length (ts[i := t])" "errandFor (ts[i := t] ! j) \<noteq> None"
  show "errandFor (ts[i := t] ! j) = Some (ids ! j)"
  proof (cases "j = i")
    case True
    then have "errandFor t = errandFor (ts ! i)" "errandFor t \<noteq> None" using j assms(2,3) by (auto simp: errandStep_def)
    then show ?thesis using assms(1,3) True by simp
  qed (use j assms(1) in simp)
qed

lemma posted_proceed:
  assumes "posted ids old ts s" "i < length ts" "proceed w (ts ! i) s = (Inr t, s')"
  shows "posted ids old (ts[i := t]) s'"
proof -
  obtain sent where p: "errandStep (ts ! i) t" "sf_sent s' = sf_sent s @ sent" "sends (ts ! i) (map sentId sent)"
    using proceed_steps [of w "ts ! i" s] assms(3) by auto
  let ?S = "{j. j < length ts \<and> errandLeft (ts ! j) \<noteq> 2}" and ?S' = "{j. j < length ts \<and> errandLeft (ts[i := t] ! j) \<noteq> 2}"
  obtain before where b: "sf_sent s = old @ before" "mset (map sentId before) \<subseteq># image_mset (\<lambda>i. ids ! i) (mset_set ?S)"
    using assms(1) by (auto simp: posted_def)
  have after: "errandLeft t \<noteq> 2" using p(1) by (cases "ts ! i") (auto simp: errandStep_def)
  then have S': "?S' = insert i ?S" using assms(2) by (auto simp: nth_list_update split: if_splits)
  have "mset (map sentId (before @ sent)) \<subseteq># image_mset (\<lambda>i. ids ! i) (mset_set ?S')"
  proof (cases "errandLeft (ts ! i) = 2")
    case True
    then have "errandFor (ts ! i) = Some (ids ! i)" using assms(1,2) by (cases "ts ! i") (auto simp: posted_def)
    then have one: "mset (map sentId sent) \<subseteq># {#ids ! i#}" using p(3) by (auto simp: sends_def)
    have all: "image_mset (\<lambda>i. ids ! i) (mset_set ?S') = image_mset (\<lambda>i. ids ! i) (mset_set ?S) + {#ids ! i#}"
      using True S' by simp
    show ?thesis unfolding all map_append mset_append by (rule subset_mset.add_mono [OF b(2) one])
  next
    case False
    then have "?S' = ?S" using S' assms(2) by auto
    moreover have "sent = []" using False p(3) by (simp add: sends_def)
    ultimately show ?thesis using b(2) by simp
  qed
  moreover have "\<forall>j<length (ts[i := t]). errandFor (ts[i := t] ! j) \<noteq> None \<longrightarrow> errandFor (ts[i := t] ! j) = Some (ids ! j)"
    by (rule named_step [OF _ p(1) assms(2)]) (use assms(1) in \<open>simp add: posted_def\<close>)
  ultimately show ?thesis
    using assms(1) b(1) p(2) unfolding posted_def by (intro conjI exI [of _ "before @ sent"]) auto
qed

text \<open>The attempts written down so far are those of the errands that ended well.\<close>

definition tally :: "string list \<Rightarrow> try_row list \<Rightarrow> errand list \<Rightarrow> shift \<Rightarrow> bool" where
  "tally ids old ts s =
     (length ts = length ids \<and> (\<forall>i<length ts. errandFor (ts ! i) \<noteq> None \<longrightarrow> errandFor (ts ! i) = Some (ids ! i))
      \<and> (\<exists>new. hk_tries (sf_hooks s) = old @ new
           \<and> mset (map ty_delivery new) = image_mset (\<lambda>i. ids ! i) (mset_set {i. i < length ts \<and> ts ! i = Over None})))"

lemma tally_proceed:
  assumes "others_send_nothing w" "tally ids old ts s" "i < length ts" "proceed w (ts ! i) s = (Inr t, s')"
  shows "tally ids old (ts[i := t]) s'"
proof -
  obtain new where p: "errandStep (ts ! i) t" "hk_tries (sf_hooks s') = hk_tries (sf_hooks s) @ new"
      "map ty_delivery new = recorded (ts ! i) t"
    using proceed_steps [of w "ts ! i" s] assms(1,4) by auto
  let ?S = "{j. j < length ts \<and> ts ! j = Over None}" and ?S' = "{j. j < length ts \<and> ts[i := t] ! j = Over None}"
  obtain before where b: "hk_tries (sf_hooks s) = old @ before"
      "mset (map ty_delivery before) = image_mset (\<lambda>i. ids ! i) (mset_set ?S)"
    using assms(2) by (auto simp: tally_def)
  have "mset (map ty_delivery (before @ new)) = image_mset (\<lambda>i. ids ! i) (mset_set ?S')"
  proof (cases "errandFor (ts ! i) \<noteq> None \<and> t = Over None")
    case True
    then have named: "errandFor (ts ! i) = Some (ids ! i)" using assms(2,3) by (simp add: tally_def)
    have "ts ! i \<noteq> Over None" using True by auto
    then have "i \<notin> ?S" "?S' = insert i ?S" using True assms(3) by (auto simp: nth_list_update)
    then show ?thesis using True b(2) p(3) named by (simp add: recorded_def)
  next
    case False
    have "ts ! i \<noteq> Over None \<and> t \<noteq> Over None \<or> t = ts ! i" using False p(1) by (auto simp: errandStep_def)
    then have "?S' = ?S" using assms(3) by (auto simp: nth_list_update split: if_splits)
    then show ?thesis using False b(2) p(3) by (simp add: recorded_def)
  qed
  moreover have "\<forall>j<length (ts[i := t]). errandFor (ts[i := t] ! j) \<noteq> None \<longrightarrow> errandFor (ts[i := t] ! j) = Some (ids ! j)"
    by (rule named_step [OF _ p(1) assms(3)]) (use assms(2) in \<open>simp add: tally_def\<close>)
  ultimately show ?thesis
    using assms(2) b(1) p(2) unfolding tally_def by (intro conjI exI [of _ "before @ new"]) auto
qed

lemma allThrough_count: "i < length ts \<Longrightarrow> 2 \<le> count_list (is @ allThrough ts) i"
proof -
  have "count_list (concat (map (\<lambda>i. [i, i]) [0..<n])) i = (if i < n then 2 else 0)" for n
    by (induction n) auto
  then show "i < length ts \<Longrightarrow> 2 \<le> count_list (is @ allThrough ts) i" by (simp add: allThrough_def)
qed

lemma mset_at: "mset ids = image_mset (\<lambda>i. ids ! i) (mset_set {i. i < length ids})"
proof -
  have "mset ids = mset (map ((!) ids) [0..<length ids])" by (simp only: map_nth)
  also have "\<dots> = image_mset (\<lambda>i. ids ! i) (mset_set {0..<length ids})" by (simp only: mset_map mset_upt)
  also have "{0..<length ids} = {i. i < length ids}" by auto
  finally show ?thesis .
qed

lemma mset_at_some: "image_mset (\<lambda>i. ids ! i) (mset_set {i. i < length ids \<and> P i}) \<subseteq># mset ids"
  unfolding mset_at [of ids] by (intro image_mset_subseteq_mono subset_imp_msubset_mset_set) auto

lemma posted_end: "posted ids old ts s \<Longrightarrow> \<exists>sent. sf_sent s = old @ sent \<and> mset (map sentId sent) \<subseteq># mset ids"
  using mset_at_some by (fastforce simp: posted_def intro: subset_mset.order_trans)

lemma over_well:
  assumes "errandLeft t = 0" "t \<in> set ts" "failures ts = []"
  shows "t = Over None"
proof -
  obtain e where e: "t = Over e" using assms(1) by (cases t) auto
  have "x \<in> set (failures ts)" if "e = Some x" for x using that e assms(2) by (force simp: failures_def List.map_filter_def)
  then show ?thesis using e assms(3) by (cases e) auto
qed

lemma tally_end:
  assumes "tally ids old ts s" "\<forall>i<length ts. errandLeft (ts ! i) = 0"
  shows "\<exists>new. hk_tries (sf_hooks s) = old @ new \<and> mset (map ty_delivery new) \<subseteq># mset ids
    \<and> (failures ts = [] \<longrightarrow> mset (map ty_delivery new) = mset ids)"
proof -
  obtain new where new: "hk_tries (sf_hooks s) = old @ new" "length ts = length ids"
      "mset (map ty_delivery new) = image_mset (\<lambda>i. ids ! i) (mset_set {i. i < length ts \<and> ts ! i = Over None})"
    using assms(1) by (auto simp: tally_def)
  have "mset (map ty_delivery new) = mset ids" if "failures ts = []"
  proof -
    have "\<forall>i<length ts. ts ! i = Over None" using over_well that assms(2) nth_mem by blast
    then have "{i. i < length ts \<and> ts ! i = Over None} = {i. i < length ids}" using new(2) by auto
    then show ?thesis using new(3) mset_at [of ids] by (simp only:)
  qed
  then show ?thesis using new mset_at_some by auto
qed

section \<open>A round\<close>

lemma Due_ids: "map (\<lambda>d. dl_id (du_delivery d)) (Due parsePrefix h now limit per) = map dr_id (dueRows h now limit per)"
  by (simp add: Due_def o_def option.case_eq_if rowDelivery_def)

text \<open>What was handed over once each: ids of the rows due, none twice, within the bounds of a round.\<close>

definition handedOnce :: "hooks \<Rightarrow> gotime \<Rightarrow> string list \<Rightarrow> bool" where
  "handedOnce h now ids =
     (distinct ids \<and> set ids \<subseteq> dr_id ` set (dueRows h now 32 4) \<and> length ids \<le> 32
      \<and> (\<forall>e. length (filter (\<lambda>i. i \<in> dr_id ` set (keyed dr_endpoint e (hk_deliveries h))) ids) \<le> 4))"

lemma card_atMost_image: "A \<subseteq> f ` set xs \<Longrightarrow> card A \<le> length xs"
  by (meson List.finite_set card_image_le card_length card_mono finite_imageI order_trans)

lemma handedOnce_sub:
  assumes "distinct (map dr_id (hk_deliveries h))" "mset ids \<subseteq># mset (map dr_id (dueRows h now 32 4))"
  shows "handedOnce h now ids"
proof -
  let ?due = "dueRows h now 32 4"
  have due: "distinct (map dr_id ?due)" "set ?due \<subseteq> set (hk_deliveries h)"
    using dueRows_distinct [OF assms(1)] dueRows_sendable by auto
  obtain rest where "mset (map dr_id ?due) = mset (ids @ rest)"
    using assms(2) ex_mset by (metis mset_append subset_mset.le_iff_add)
  then have ids: "distinct ids" "set ids \<subseteq> dr_id ` set ?due"
    using mset_eq_imp_distinct_iff [of "map dr_id ?due" "ids @ rest"] mset_eq_setD [of "map dr_id ?due" "ids @ rest"] due(1)
    by auto
  have "length ids \<le> 32" using size_mset_mono [OF assms(2)] dueRows_bounds(1) [of h now 32 4] by simp
  moreover have "length (filter (\<lambda>i. i \<in> dr_id ` set (keyed dr_endpoint e (hk_deliveries h))) ids) \<le> 4" for e
  proof -
    have inj: "inj_on dr_id (set (hk_deliveries h))" using assms(1) by (simp add: distinct_map)
    have "set (filter (\<lambda>i. i \<in> dr_id ` set (keyed dr_endpoint e (hk_deliveries h))) ids) \<subseteq> dr_id ` set (keyed dr_endpoint e ?due)"
    proof
      fix i assume i: "i \<in> set (filter (\<lambda>i. i \<in> dr_id ` set (keyed dr_endpoint e (hk_deliveries h))) ids)"
      then obtain d x where "d \<in> set ?due" "i = dr_id d" "x \<in> set (hk_deliveries h)" "dr_endpoint x = e" "i = dr_id x"
        using ids(2) by auto
      moreover from this have "d = x" using due(2) inj by (metis inj_onD subsetD)
      ultimately show "i \<in> dr_id ` set (keyed dr_endpoint e ?due)" by auto
    qed
    then have "card (set (filter (\<lambda>i. i \<in> dr_id ` set (keyed dr_endpoint e (hk_deliveries h))) ids)) \<le> length (keyed dr_endpoint e ?due)"
      by (rule card_atMost_image)
    then show ?thesis
      unfolding distinct_card [OF distinct_filter [OF ids(1)]] using dueRows_bounds(2) [of e h now 32 4] by (rule order_trans)
  qed
  ultimately show ?thesis using ids by (simp add: handedOnce_def)
qed

text \<open>What a round that was handed the rows due of \<open>h1\<close> sent, and what it wrote down.\<close>

definition sentFrom :: "mail_world \<Rightarrow> hooks \<Rightarrow> gotime \<Rightarrow> shift \<Rightarrow> shift \<Rightarrow> bool \<Rightarrow> bool" where
  "sentFrom w h1 now s s' finished =
     (hook_run h1 (sf_hooks s')
      \<and> (\<exists>sent. sf_sent s' = sf_sent s @ sent \<and> mset (map sentId sent) \<subseteq># mset (map dr_id (dueRows h1 now 32 4)))
      \<and> (others_send_nothing w \<longrightarrow>
          (\<exists>new. hk_tries (sf_hooks s') = hk_tries h1 @ new \<and> mset (map ty_delivery new) \<subseteq># mset (map dr_id (dueRows h1 now 32 4))
             \<and> (finished \<longrightarrow> mset (map ty_delivery new) = mset (map dr_id (dueRows h1 now 32 4))))))"

lemma sentFrom_none: "sf_sent s' = sf_sent s \<Longrightarrow> sentFrom w (sf_hooks s') now s s' False"
  by (auto simp: sentFrom_def intro: hook_run.none)

lemma turns_sentFrom:
  assumes "others_mail w" "dues = Due (mw_parsePrefix w) (sf_hooks s) now 32 4"
    and "taking_turns w (sched @ allThrough (map Starting dues)) (map Starting dues) s = (r, s')"
  shows "\<exists>ended. r = Inr ended \<and> sentFrom w (sf_hooks s) now s s' (failures ended = [])"
proof -
  let ?ids = "map (\<lambda>d. dl_id (du_delivery d)) dues" and ?ts = "map Starting dues"
  let ?is = "sched @ allThrough ?ts"
  have ids: "?ids = map dr_id (dueRows (sf_hooks s) now 32 4)" unfolding assms(2) by (rule Due_ids)
  have none: "{i. i < length ?ts \<and> ?ts ! i = Over None} = {}" "{i. i < length ?ts \<and> errandLeft (?ts ! i) \<noteq> 2} = {}" by auto
  have keep: "\<forall>ts s1 i t s2. posted ?ids (sf_sent s) ts s1 \<longrightarrow> i < length ts \<longrightarrow> proceed w (ts ! i) s1 = (Inr t, s2)
      \<longrightarrow> posted ?ids (sf_sent s) (ts[i := t]) s2"
    using posted_proceed by blast
  have start: "posted ?ids (sf_sent s) ?ts s" unfolding posted_def none by (intro conjI exI [of _ "[]"]) simp_all
  obtain ended where e: "r = Inr ended" "posted ?ids (sf_sent s) ended s'" "length ended = length ?ts"
      "\<forall>i<length ?ts. errandLeft (ended ! i) \<le> errandLeft (?ts ! i) - count_list ?is i"
    using turns_keep [of "posted ?ids (sf_sent s)" w, OF keep start, of ?is] assms(3) by auto
  have over: "errandLeft (ended ! i) = 0" if i: "i < length ended" for i
  proof -
    have "2 \<le> count_list ?is i" using i e(3) by (intro allThrough_count) simp
    moreover have "errandLeft (?ts ! i) = 2" using i e(3) by simp
    ultimately show ?thesis using e(3,4) i by (metis diff_is_0_eq le_zero_eq)
  qed
  have "\<exists>new. hk_tries (sf_hooks s') = hk_tries (sf_hooks s) @ new \<and> mset (map ty_delivery new) \<subseteq># mset ?ids
      \<and> (failures ended = [] \<longrightarrow> mset (map ty_delivery new) = mset ?ids)" if quiet: "others_send_nothing w"
  proof -
    have keep: "\<forall>ts s1 i t s2. tally ?ids (hk_tries (sf_hooks s)) ts s1 \<longrightarrow> i < length ts
        \<longrightarrow> proceed w (ts ! i) s1 = (Inr t, s2) \<longrightarrow> tally ?ids (hk_tries (sf_hooks s)) (ts[i := t]) s2"
      using tally_proceed [OF quiet] by blast
    have start: "tally ?ids (hk_tries (sf_hooks s)) ?ts s" unfolding tally_def none by (intro conjI exI [of _ "[]"]) simp_all
    from turns_keep [of "tally ?ids (hk_tries (sf_hooks s))" w, OF keep start, of ?is]
    have "tally ?ids (hk_tries (sf_hooks s)) ended s'" using assms(3) e(1) by auto
    then show ?thesis using tally_end over by blast
  qed
  moreover have "hook_run (sf_hooks s) (sf_hooks s')"
    using mails_turns [OF assms(1)] assms(3) unfolding mails_def by (metis snd_conv)
  ultimately show ?thesis using e(1) posted_end [OF e(2)] unfolding sentFrom_def ids by blast
qed

lemma Expand_sent: "sf_sent (snd (Expand w now limit s)) = sf_sent s"
proof (induction limit arbitrary: s)
  case (Suc limit)
  let ?f = "\<lambda>k h. bindE (expandOne (mw_jsonb w) (mw_locked w k) (mw_fresh w k) h now) (\<lambda>(h', any). Inr (any, h'))"
  obtain r s1 where one: "onHooks w ?f s = (r, s1)" by fastforce
  moreover obtain r2 s2 where "Expand w now limit s1 = (r2, s2)" by fastforce
  ultimately show ?case using onHooks_sent [OF one] Suc [of s1] by (cases r; cases r2) (auto simp: followed_by_def idle_def)
qed (simp add: idle_def)

text \<open>The outbox was expanded and the old swept before what was due was read.\<close>

definition readied :: "mail_world \<Rightarrow> hooks \<Rightarrow> gotime \<Rightarrow> hooks \<Rightarrow> bool" where
  "readied w h now h1 =
     (\<exists>s0 n s1 h0. hook_run h (sf_hooks s0) \<and> Expand w now 100 s0 = (Inr n, s1)
        \<and> hook_run (sf_hooks s1) h0 \<and> hook_run (fst (Sweep h0 (now - Retention) 1000)) h1)"

lemma Round_sends:
  assumes "others_mail w" "hook_Round w s = (r, s')"
  shows "\<exists>h1 now. hook_run (sf_hooks s) h1 \<and> sentFrom w h1 now s s' (r = Inr ()) \<and> (r = Inr () \<longrightarrow> readied w (sf_hooks s) now h1)"
proof -
  have run: "hook_run (sf_hooks s) (sf_hooks s')" using mails_Round [OF assms(1)] assms(2) unfolding mails_def by (metis snd_conv)
  then have failed: ?thesis if "r \<noteq> Inr ()" "sf_sent s' = sf_sent s"
    using that sentFrom_none by (intro exI [of _ "sf_hooks s'"] exI [of _ 0]) simp
  let ?now = "mw_now w (sf_calls s)" and ?s = "s\<lparr>sf_calls := sf_calls s + 1\<rparr>"
  let ?sweep = "\<lambda>k h. case Sweep h (?now - Retention) 1000 of (h', n) \<Rightarrow> Inr (n, h')"
  let ?due = "\<lambda>k h. Inr (Due (mw_parsePrefix w) h ?now 32 4, h)"
  obtain r1 s1 where 1: "Expand w ?now 100 ?s = (r1, s1)" by fastforce
  obtain r2 s2 where 2: "onHooks w ?sweep s1 = (r2, s2)" by fastforce
  obtain r3 s3 where 3: "onHooks w ?due s2 = (r3, s3)" by fastforce
  have sent: "sf_sent s1 = sf_sent s" "sf_sent s2 = sf_sent s" "sf_sent s3 = sf_sent s"
    using Expand_sent [of w ?now 100 ?s] 1 onHooks_sent [OF 2] onHooks_sent [OF 3] by simp_all
  note round = assms(2) [unfolded hook_Round_def followed_by_def asks_def Let_def expandPerRound_def sweepPerRound_def
      sendsPerRound_def perEndpoint_def]
  show ?thesis
  proof (cases "(\<exists>e. r1 = Inl e) \<or> (\<exists>e. r2 = Inl e) \<or> (\<exists>e. r3 = Inl e)")
    case True
    then have "r \<noteq> Inr () \<and> sf_sent s' = sf_sent s"
      using round 1 2 3 sent by (auto split: sum.splits)
    then show ?thesis using failed by blast
  next
    case False
    then obtain n1 n2 dues where ok: "r1 = Inr n1" "r2 = Inr n2" "r3 = Inr dues" by (cases r1; cases r2; cases r3) auto
    let ?h0 = "asOthersLeft w s1"
    have e1: "hook_run (sf_hooks s) (sf_hooks s1)"
      using mails_Expand [OF assms(1), of ?now 100] 1 unfolding mails_def
      by (metis shift.select_convs(1) shift.surjective shift.update_convs(5) snd_conv)
    have e2: "sf_hooks s2 = fst (Sweep ?h0 (?now - Retention) 1000)"
      using onHooks_cases [OF 2] ok(2) by (auto split: prod.splits)
    have e3: "sf_hooks s3 = asOthersLeft w s2" "dues = Due (mw_parsePrefix w) (sf_hooks s3) ?now 32 4"
      using onHooks_cases [OF 3] ok(3) by auto
    let ?s3 = "s3\<lparr>sf_calls := sf_calls s3 + 1\<rparr>"
    obtain r4 s4 where 4: "taking_turns w (mw_schedule w (sf_calls s3) @ allThrough (map Starting dues)) (map Starting dues) ?s3 = (r4, s4)"
      by fastforce
    obtain ended where e4: "r4 = Inr ended" "sentFrom w (sf_hooks s3) ?now ?s3 s4 (failures ended = [])"
      using turns_sentFrom [OF assms(1) _ 4] e3 by auto
    have fin: "s' = s4 \<and> (r = Inr ()) = (failures ended = [])"
      using round 1 2 3 4 ok e4(1) by (auto simp: idle_def stopping_def split: list.splits)
    have h0: "hook_run (sf_hooks s1) ?h0" by (rule asOthersLeft_run [OF assms(1)])
    have h1: "hook_run (fst (Sweep ?h0 (?now - Retention) 1000)) (sf_hooks s3)"
      using asOthersLeft_run [OF assms(1), of s2] e2 e3(1) by simp
    have swept: "hook_run ?h0 (fst (Sweep ?h0 (?now - Retention) 1000))"
      by (rule hook_run_step, rule hook_step.sweep [OF prod.collapse [symmetric]])
    have "readied w (sf_hooks s) ?now (sf_hooks s3)"
      unfolding readied_def using 1 ok(1) h0 h1 by (intro exI [of _ ?s] exI [of _ n1] exI [of _ s1] exI [of _ ?h0]) (simp add: hook_run.none)
    moreover have "sentFrom w (sf_hooks s3) ?now s s' (r = Inr ())"
      using e4(2) fin sent(3) by (simp add: sentFrom_def)
    moreover have "hook_run (sf_hooks s) (sf_hooks s3)"
      using e1 h0 h1 swept by (blast intro: hook_run_trans)
    ultimately show ?thesis by blast
  qed
qed

lemma sentFrom_once:
  assumes "hooks_started h0" "hook_run h0 h1" "sentFrom w h1 now s s' finished"
  shows "(\<exists>sent. sf_sent s' = sf_sent s @ sent \<and> handedOnce h1 now (map sentId sent))
    \<and> (others_send_nothing w \<longrightarrow>
        (\<exists>new. hk_tries (sf_hooks s') = hk_tries h1 @ new \<and> handedOnce h1 now (map ty_delivery new)
           \<and> (finished \<longrightarrow> mset (map ty_delivery new) = mset (map dr_id (dueRows h1 now 32 4)))))"
proof -
  have "distinct (map dr_id (hk_deliveries h1))"
    using hook_deliveries.from_start [OF assms(1,2)] by (simp add: deliveriesSound_def)
  note once = handedOnce_sub [OF this]
  show ?thesis using assms(3) unfolding sentFrom_def by (meson once)
qed

text \<open>Asking for the lease changes no webhook table and sends nothing, and so does saying how it went.\<close>

lemma onLeases_cases:
  assumes "mw_others w (sf_calls s) (sf_hooks s, sf_leases s) = (h, ls)" "onLeases w f s = (r, s')"
  shows "sf_hooks s' = h \<and> sf_sent s' = sf_sent s
    \<and> r = (case mw_down w (sf_calls s) of Some e \<Rightarrow> Inl e | None \<Rightarrow> Inr (snd (f (mw_clock w (sf_calls s)) ls)))"
  using assms by (auto simp: onLeases_def onTables_def Let_def split: option.splits prod.splits)

lemma says_run:
  "\<exists>s'. hook_says w word s = (Inr (), s') \<and> sf_hooks s' = sf_hooks s \<and> sf_sent s' = sf_sent s \<and> sf_word s' = word"
  by (simp add: hook_says_def followed_by_def asks_def)

text \<open>C27: One turn of the webhook worker sends each delivery once. Without its lease the turn sends nothing and
  writes no webhook table. With it, whatever order its sends run in, whatever the receivers answer and whatever merchants and
  payments write between its calls, every request it sends is for a delivery it read as due, no two are for the
  same one, there are at most 32 of them and at most 4 to an endpoint. A turn that says it is delivering expanded the
  outbox and swept what was past its retention before it read what is due. While nobody else writes attempts, those
  it writes down are of deliveries it was handed, one each, and one at every one of them if it says it is delivering.\<close>

theorem turn_sends_each_once:
  assumes "hooks_started h0" "hook_run h0 (sf_hooks s)" "others_mail w"
    and "mw_others w (sf_calls s) (sf_hooks s, sf_leases s) = (h, ls)" "hook_turn w s = (r, s')"
  shows "if mw_down w (sf_calls s) = None \<and> snd (Acquire (mw_holder w) (mw_clock w (sf_calls s)) ls ''webhooks'')
    then \<exists>h1 now. hook_run h h1 \<and> hook_run h1 (sf_hooks s') \<and> (sf_word s' = HwDelivering \<longrightarrow> readied w h now h1)
      \<and> (\<exists>sent. sf_sent s' = sf_sent s @ sent \<and> handedOnce h1 now (map sentId sent))
      \<and> (others_send_nothing w \<longrightarrow>
          (\<exists>new. hk_tries (sf_hooks s') = hk_tries h1 @ new \<and> handedOnce h1 now (map ty_delivery new)
             \<and> (sf_word s' = HwDelivering \<longrightarrow> mset (map ty_delivery new) = mset (map dr_id (dueRows h1 now 32 4)))))
    else sf_hooks s' = h \<and> sf_sent s' = sf_sent s"
proof -
  let ?f = "\<lambda>clock ls. Acquire (mw_holder w) clock ls hookLease"
  let ?held = "snd (Acquire (mw_holder w) (mw_clock w (sf_calls s)) ls ''webhooks'')"
  obtain r1 s1 where asked: "onLeases w ?f s = (r1, s1)" by fastforce
  have one: "sf_hooks s1 = h" "sf_sent s1 = sf_sent s"
      "r1 = (case mw_down w (sf_calls s) of Some e \<Rightarrow> Inl e | None \<Rightarrow> Inr ?held)"
    using onLeases_cases [OF assms(4) asked] unfolding hookLease_def by simp_all
  note turn = assms(5) [unfolded hook_turn_def caught_by_def asked]
  show ?thesis
  proof (cases "mw_down w (sf_calls s) = None \<and> ?held")
    case True
    then have held: "r1 = Inr True" using one(3) by simp
    obtain r2 s2 where round: "hook_Round w s1 = (r2, s2)" by fastforce
    obtain h1 now where h1: "hook_run h h1" "sentFrom w h1 now s1 s2 (r2 = Inr ())" "r2 = Inr () \<longrightarrow> readied w h now h1"
      using Round_sends [OF assms(3) round] one(1) by blast
    have said: "sf_hooks s' = sf_hooks s2 \<and> sf_sent s' = sf_sent s2 \<and> (sf_word s' = HwDelivering) = (r2 = Inr ())"
      using turn held round says_run [of w HwDelivering s2] says_run [of w HwNotFinished s2] by (cases r2) auto
    have "hook_run (sf_hooks s) h" using assms(3,4) by (metis others_mail_def fst_conv)
    then have "hook_run h0 h1" using assms(2) h1(1) by (blast intro: hook_run_trans)
    from sentFrom_once [OF assms(1) this h1(2)] have
      "(\<exists>sent. sf_sent s' = sf_sent s @ sent \<and> handedOnce h1 now (map sentId sent))
       \<and> (others_send_nothing w \<longrightarrow>
          (\<exists>new. hk_tries (sf_hooks s') = hk_tries h1 @ new \<and> handedOnce h1 now (map ty_delivery new)
             \<and> (sf_word s' = HwDelivering \<longrightarrow> mset (map ty_delivery new) = mset (map dr_id (dueRows h1 now 32 4)))))"
      using said one(2) by simp
    moreover have "hook_run h1 (sf_hooks s')" using h1(2) said by (simp add: sentFrom_def)
    ultimately show ?thesis unfolding if_P [OF True] using h1(1,3) said by blast
  next
    case False
    then have "sf_hooks s' = sf_hooks s1 \<and> sf_sent s' = sf_sent s1"
      using turn one(3) says_run [of w HwWaiting s1] by (auto simp: idle_def split: option.splits)
    then show ?thesis unfolding if_not_P [OF False] using one by simp
  qed
qed

text \<open>A shift whose lease is free, and one whose lease another holds.\<close>

definition demo_waiting :: shift where
  "demo_waiting = demo_shift\<lparr>sf_leases := [\<lparr>le_name = ''webhooks'', le_holder = ''two'', le_expiresAt = 9\<rparr>]\<rparr>"

theorem turn_sends_each_once_witness:
  "let s' = snd (hook_turn demo_mail_world demo_shift); waited = snd (hook_turn demo_mail_world demo_waiting) in
     (\<exists>h1 now new. hook_run demo_mailed h1 \<and> handedOnce h1 now (map sentId (sf_sent s'))
        \<and> hk_tries (sf_hooks s') = hk_tries h1 @ new \<and> handedOnce h1 now (map ty_delivery new)
        \<and> (sf_word s' = HwDelivering \<longrightarrow> length new = length (dueRows h1 now 32 4)))
     \<and> sf_hooks waited = demo_mailed \<and> sf_sent waited = []"
proof -
  let ?w = demo_mail_world
  have others: "others_mail ?w" "others_send_nothing ?w"
    by (simp_all add: others_mail_def others_send_nothing_def demo_mail_world_def hook_run.none)
  obtain r s' where t: "hook_turn ?w demo_shift = (r, s')" by fastforce
  have free: "mw_down ?w (sf_calls demo_shift) = None \<and> snd (Acquire (mw_holder ?w) (mw_clock ?w (sf_calls demo_shift)) [] ''webhooks'')"
    by (simp add: demo_mail_world_def demo_shift_def Acquire_def rowsAffected_def)
  have o: "mw_others ?w (sf_calls demo_shift) (sf_hooks demo_shift, sf_leases demo_shift) = (demo_mailed, [])"
    by (simp add: demo_mail_world_def demo_shift_def)
  have run: "hook_run demo_shop_hooks (sf_hooks demo_shift)" using demo_mail_run(2) by (simp add: demo_shift_def)
  from turn_sends_each_once [OF demo_mail_run(1) run others(1) o t, unfolded if_P [OF free]] others(2)
  obtain h1 now sent new where sends: "hook_run demo_mailed h1" "sf_sent s' = sf_sent demo_shift @ sent" "handedOnce h1 now (map sentId sent)"
      "hk_tries (sf_hooks s') = hk_tries h1 @ new" "handedOnce h1 now (map ty_delivery new)"
      "sf_word s' = HwDelivering \<longrightarrow> mset (map ty_delivery new) = mset (map dr_id (dueRows h1 now 32 4))"
    by blast
  have "sf_word s' = HwDelivering \<longrightarrow> length new = length (dueRows h1 now 32 4)"
    using sends(6) by (metis length_map mset_eq_length)
  then have first: "\<exists>h1 now new. hook_run demo_mailed h1 \<and> handedOnce h1 now (map sentId (sf_sent s'))
      \<and> hk_tries (sf_hooks s') = hk_tries h1 @ new \<and> handedOnce h1 now (map ty_delivery new)
      \<and> (sf_word s' = HwDelivering \<longrightarrow> length new = length (dueRows h1 now 32 4))"
    using sends by (intro exI [of _ h1] exI [of _ now] exI [of _ new]) (simp add: demo_shift_def)
  obtain r2 s2 where t2: "hook_turn ?w demo_waiting = (r2, s2)" by fastforce
  let ?ls = "sf_leases demo_waiting"
  have held: "\<not> (mw_down ?w (sf_calls demo_waiting) = None
      \<and> snd (Acquire (mw_holder ?w) (mw_clock ?w (sf_calls demo_waiting)) ?ls ''webhooks''))"
    by (simp add: demo_mail_world_def demo_waiting_def demo_shift_def Acquire_def rowsAffected_def ofName_def)
  have o2: "mw_others ?w (sf_calls demo_waiting) (sf_hooks demo_waiting, ?ls) = (demo_mailed, ?ls)"
    by (simp add: demo_mail_world_def demo_waiting_def demo_shift_def)
  have run2: "hook_run demo_shop_hooks (sf_hooks demo_waiting)" using run by (simp add: demo_waiting_def)
  from turn_sends_each_once [OF demo_mail_run(1) run2 others(1) o2 t2, unfolded if_not_P [OF held]]
  have "sf_hooks s2 = demo_mailed \<and> sf_sent s2 = []" by (simp add: demo_waiting_def demo_shift_def)
  then show ?thesis using first t t2 by (simp add: Let_def)
qed

end
