(* ===== verification/Spec2Isabelle.thy ===== *)
theory Spec2Isabelle
  imports Covering Inside Answers Running Sim_Runs Evm_Pairs Admission Mail_Once
begin

text \<open>
  A verification library of sucopay, a server a merchant runs to be paid in stablecoins. All paths below are under
  src/internal unless they say otherwise.

  \<^bold>\<open>The program.\<close> The API opens payments (payment/service.go) and mints attempts on them, each holding a key a
  transfer carries. Nobody tells the server it was paid: an observer per network (observe/observer.go) reads blocks
  through a chain adapter (adapter/chain), looks up the keys it saw spent, judges the transfers behind them
  (payment/evidence.go) and records them. A worker (finality/worker.go) asks several endpoints whether a recorded
  transfer is final, and settles, expires or gives up what the answers and the clock allow. Each change of a payment
  writes a row of the outbox in its own transaction; the webhook worker (webhook/worker.go) expands the outbox into
  deliveries, signs them and sends them. All of them share one PostgreSQL database and nothing else; a lease per
  network and one for the webhooks keep two instances from doing the same work. The configuration (config) decides
  which networks and endpoints there are, and credentials (credential, api/auth.go) who may call.

  \<^bold>\<open>How the model is made.\<close> A struct is a record, a string type with constants a datatype with a constructor for
  every other string, an error a datatype of the component, and a fallible call the sum \<open>result\<close> of \<open>Prelude\<close>. A
  \<open>big.Int\<close> is an \<open>int\<close>; an \<open>int64\<close> or \<open>uint64\<close> whose wrapping matters is a word. A Go string is its bytes. Instants
  and durations are nanoseconds, as integers. A table is a list of rows, a statement a function of the tables, and a
  transaction a step that happens whole or not at all. A method of the code keeps its name, with the package in front
  where two would clash (\<open>hook_Create\<close>, \<open>cred_Create\<close>). What a goroutine does between two calls of the database is
  nobody else's to see, so a call is a step; whatever everybody else writes between two calls is an argument
  (\<open>mw_others\<close> of a webhook worker's world, and its like for observers and workers), as is what the network, the clock,
  the resolver and the source of random bytes answer at each call, counted so that two calls may be answered
  differently.

  \<^bold>\<open>Shared theories.\<close>
  \<^item> \<open>Prelude\<close>: results, Go values, rows and statements, with the collections \<open>res_simps\<close> and \<open>row_simps\<close>. \<open>GoText\<close>:
    UTF-8, decimal digits and package invisible. \<open>Hex\<close>: encoding/hex both ways. \<open>Json\<close>: the encoder, RFC 3339
    times and json.Valid.
  \<^item> \<open>Lifecycle\<close> and \<open>Versioned\<close>: two interfaces as locales. A lifecycle is a map of moves whose final states have none
    and whose moves go up a rank: the statuses of payments and refunds are interpretations. A versioned store is a
    table written back under the version it was read at: payments, attempts and refunds are interpretations, and at
    most one writer holding a version wins in each (\<open>payment_one_winner\<close>).

  \<^bold>\<open>Payments\<close> (payment).
  \<^item> \<open>Money\<close>: asset.go and money.go. \<open>Problems\<close>: the statuses and the refusals with their words. \<open>Payment\<close>, \<open>Attempt\<close>,
    \<open>Refund\<close>: the aggregates with the checks that build them and their moves. The lemmas are their well-formedness, its
    preservation by every move, and the round trips between a value and its row.
  \<^item> \<open>Evidence\<close>: evidence.go, transfers and what they are judged. \<open>Event\<close>: the events and their bodies (http.go,
    refundhttp.go).
  \<^item> \<open>Tables\<close>, \<open>Store_Payments\<close>, \<open>Store_Attempts\<close>, \<open>Store_Refunds\<close>, \<open>Observations\<close>, \<open>Sweeps\<close>: postgres.go over the
    migrations, with every constraint a statement can meet, in the order PostgreSQL checks them. \<open>Rounds\<close>: what a
    round of observation keeps of the rows' contracts.
  \<^item> \<open>Service\<close>: service.go. \<open>World\<close>: the database beside every copy anybody holds with the revision it was read at; the
    relation \<open>step\<close> has the statements of the API, observers and workers, and \<open>reachable\<close> is every interleaving of them.
    The invariants on the amounts held against a payment, the attempts it has and the statuses it was told are proved
    by rule induction. \<open>Runs\<close>: the service's calls as runs, a run from an empty deployment, and the properties.

  \<^bold>\<open>Observing and settling\<close> (observe, finality, adapter/chain).
  \<^item> \<open>Cursors\<close>: cursor.go and lease.go; the locale \<open>lease_service\<close> is what a holder relies on, interpreted on the table.
  \<^item> \<open>Chain\<close>: chain.go. \<open>Observer\<close>, \<open>Reading\<close>: observer.go, its words and pace, and its rounds call by call. \<open>Observing\<close>,
    \<open>Pacing\<close>, \<open>Covering\<close>: the rounds are runs (through the locale \<open>reader_contract\<close>), ask no more than the bounds, and
    miss nothing in the blocks a position passes.
  \<^item> \<open>Finality\<close>: finality.go and worker.go. \<open>Asking\<close>, \<open>Settling\<close>, \<open>Moves\<close>, \<open>Finality_Run\<close>, \<open>Outcomes\<close>: agreement and
    paging; the rounds as runs; and when a payment may succeed, expire or lose a transfer.
  \<^item> \<open>Evm_Values\<close>, \<open>Evm_Rpc\<close>, \<open>Evm_Chain\<close>: adapter/chain/evm. \<open>Evm_Pairs\<close>: how a receipt is paired into transfers.
    \<open>Simulated\<close>: adapter/chain/simulated. \<open>Adapters\<close> states what a reader relies on as the locale \<open>chain_contract\<close>;
    \<open>Adapters\<close> and \<open>Sim_Runs\<close> interpret it on the two adapters, and \<open>Sim_Runs\<close> follows the simulated chain through
    every operation.

  \<^bold>\<open>Webhooks\<close> (webhook).
  \<^item> \<open>Destination\<close>: destination.go; \<open>Inside\<close> shows the ranges refused. \<open>Hooks\<close>: endpoint.go, delivery.go, secret.go,
    signature.go. \<open>Store_Hooks\<close>, \<open>Store_Deliveries\<close>: postgres.go.
  \<^item> \<open>Sending\<close>: sender.go and worker.go. The sends of a round are errands that take turns in the order a schedule says,
    so every interleaving of them is a schedule. \<open>sf_sent\<close> is the one part of the state the code does not have: the
    history of the requests that went out.
  \<^item> \<open>Hook_Runs\<close>: every statement at the webhook tables as a step, and the locale \<open>hook_contract\<close> for invariants over
    them, interpreted on endpoints, deliveries and the queue. \<open>Due_Order\<close>: what is due and how a delivery ends.
    \<open>Mail_Runs\<close>, \<open>Mail_Once\<close>: the worker's calls are runs, and a turn sends each delivery once. \<open>Told\<close>: payments and
    webhooks side by side, one delivery of each status to each endpoint. \<open>Answers\<close>: what accounts see.

  \<^bold>\<open>Configuration and credentials\<close> (config, src/cmd/suco/chains.go, credential, api/auth.go).
  \<^item> \<open>Documents\<close>, \<open>Configuring\<close>, \<open>Resolving\<close>, \<open>Validating\<close>: resolve.go and config.go, the reader as a state monad over
    the problems found. \<open>Resolved\<close> is a logic of runs that leave no problem; \<open>Deployed\<close> and \<open>Opened\<close> use it for what a
    configuration that resolves is held to and is opened as; \<open>Running\<close> runs a document to its configuration.
  \<^item> \<open>Credentials\<close>: tokens, keys, their table and the route's check. \<open>Admission\<close>: its invariants over every run.

  \<^bold>\<open>Bounds and fuel.\<close> Every function is total. Loops over a slice are structural, and those over the bytes of a text
  or the logs of a receipt have a measure, what is left of it. \<open>Expand\<close> recurses on its limit, as its loop counts.
  \<open>json_Valid\<close> has fuel, more of it than the text has characters to read. \<open>Run\<close> of an observer or a worker never ends
  in the code, so its model is one turn, or as many turns as its argument says; the properties are about any number of
  them. A schedule of sends is any list of indices followed by two turns of each errand: an errand has at most two
  steps, so all of them are over at the end.

  \<^bold>\<open>What is assumed.\<close> The properties name their hypotheses. They are of three kinds: that a state was reached from an
  empty one by the steps; that others take those steps too (\<open>others_mail\<close>, \<open>undisturbed\<close>), or leave alone what a lease
  keeps from them (\<open>others_send_nothing\<close>); and documented behaviour of code that is not here (that opening a sealed
  secret gives what was sealed, that a chain answers about the heights asked).

  \<^bold>\<open>Not modelled.\<close>
  \<^item> As arguments: url.Parse, netip.ParsePrefix, strconv.Quote, jsonb, numeric input, HMAC, HKDF, AES-GCM, SHA-256,
    Keccak-256, the source of random bytes, the clocks, the resolver, the HTTP exchange and the decoding of JSON text.
  \<^item> PostgreSQL beyond its statements: a transaction is atomic and statements are in some order, so anomalies of weaker
    isolation are not; texts are ordered by their bytes.
  \<^item> The rounding of time.ParseDuration's fractions and of the jitter's floats; the words of most errors and the hiding
    of endpoints and secrets in them; the order of ranging over a map; log lines, timers and mutexes.
  \<^item> The HTTP handlers of the API, the checkout and refund pages, the assets an account takes, the migrations, loading
    and printing of configuration files, and the command itself.
\<close>

end
